(* ===== verification/Heaps.thy ===== *)
theory Heaps
  imports Prelude
begin

text \<open>
  The four metadata heaps of \<^verbatim>\<open>cilly/src/ir/pe_exporter/heaps.rs\<close>: \<open>#Strings\<close>, \<open>#Blob\<close>, \<open>#GUID\<close>
  and \<open>#US\<close>, with the compressed-integer writer they share. A \<^verbatim>\<open>HashMap\<close> is a map; a Rust
  \<^verbatim>\<open>str\<close> is the list of its UTF-8 bytes (names) or of its code points (user strings, which
  the code re-encodes as UTF-16). Every \<^verbatim>\<open>assert!\<close>, \<^verbatim>\<open>expect\<close> and \<^verbatim>\<open>panic!\<close> is an \<open>Inl\<close> value.
  The readers of ECMA-335 II.24.2 are the reference the writers are checked against; the locale
  \<open>interning_heap\<close> states what the metadata tables rely on and is interpreted on the three
  interning heaps.
\<close>

section \<open>Compressed unsigned integers\<close>

datatype heap_panic =
    CompressedRange
  | InteriorNul
  | HeapTooLarge
  | ItemTooLarge

definition write_compressed_u32 :: "u8 list \<Rightarrow> u32 \<Rightarrow> (heap_panic, u8 list) result" where
  "write_compressed_u32 out value =
     (if value \<le> 0x7F then Inr (out @ [ucast value])
      else if value \<le> 0x3FFF then Inr (out @ [ucast (0x80 OR drop_bit 8 value), ucast value])
      else if value \<le> 0x1FFFFFFF
      then Inr (out @ [ucast (0xC0 OR drop_bit 24 value), ucast (drop_bit 16 value),
                       ucast (drop_bit 8 value), ucast value])
      else Inl CompressedRange)"

text \<open>The reader of ECMA-335 II.23.2, with the input that follows the integer.\<close>

fun read_compressed_u32 :: "u8 list \<Rightarrow> (u32 \<times> u8 list) option" where
  "read_compressed_u32 [] = None"
| "read_compressed_u32 (b # bs) =
     (if unat b < 0x80 then Some (word_of_nat (unat b), bs)
      else if unat b < 0xC0 then
        (case bs of c # rest \<Rightarrow> Some (word_of_nat ((unat b - 0x80) * 2 ^ 8 + unat c), rest)
         | [] \<Rightarrow> None)
      else if unat b < 0xE0 then
        (case bs of
           c1 # c2 # c3 # rest \<Rightarrow>
             Some (word_of_nat ((unat b - 0xC0) * 2 ^ 24 + unat c1 * 2 ^ 16 + unat c2 * 2 ^ 8 + unat c3),
                   rest)
         | _ \<Rightarrow> None)
      else None)"

section \<open>The heaps\<close>

record strings_heap =
  s_data :: "u8 list"
  s_interned :: "u8 list \<rightharpoonup> u32"

record blob_heap =
  b_data :: "u8 list"
  b_interned :: "u8 list \<rightharpoonup> u32"

record guid_heap =
  g_data :: "u8 list"

record user_string_heap =
  u_data :: "u8 list"
  u_interned :: "nat list \<rightharpoonup> u32"

definition strings_default :: strings_heap where
  "strings_default = \<lparr>s_data = [0], s_interned = Map.empty\<rparr>"

definition blob_default :: blob_heap where
  "blob_default = \<lparr>b_data = [0], b_interned = Map.empty\<rparr>"

definition user_string_default :: user_string_heap where
  "user_string_default = \<lparr>u_data = [0], u_interned = Map.empty\<rparr>"

definition guid_default :: guid_heap where
  "guid_default = \<lparr>g_data = []\<rparr>"

definition try_u32 :: "heap_panic \<Rightarrow> nat \<Rightarrow> (heap_panic, u32) result" where
  "try_u32 e n = (if n < 2 ^ 32 then Inr (word_of_nat n) else Inl e)"

definition strings_intern :: "u8 list \<Rightarrow> strings_heap \<Rightarrow> (heap_panic, u32 \<times> strings_heap) result" where
  "strings_intern s h =
     (if s = [] then Inr (0, h)
      else if 0 \<in> set s then Inl InteriorNul
      else case s_interned h s of
        Some off \<Rightarrow> Inr (off, h)
      | None \<Rightarrow> rbind (try_u32 HeapTooLarge (length (s_data h))) (\<lambda>off.
          Inr (off, h\<lparr>s_data := s_data h @ s @ [0], s_interned := (s_interned h)(s \<mapsto> off)\<rparr>)))"

definition blob_intern :: "u8 list \<Rightarrow> blob_heap \<Rightarrow> (heap_panic, u32 \<times> blob_heap) result" where
  "blob_intern blob h =
     (if blob = [] then Inr (0, h)
      else case b_interned h blob of
        Some off \<Rightarrow> Inr (off, h)
      | None \<Rightarrow> rbind (try_u32 HeapTooLarge (length (b_data h))) (\<lambda>off.
          rbind (try_u32 ItemTooLarge (length blob)) (\<lambda>len.
          rbind (write_compressed_u32 (b_data h) len) (\<lambda>data.
          Inr (off, h\<lparr>b_data := data @ blob, b_interned := (b_interned h)(blob \<mapsto> off)\<rparr>)))))"

definition guid_push :: "u8 list \<Rightarrow> guid_heap \<Rightarrow> (heap_panic, u32 \<times> guid_heap) result" where
  "guid_push guid h =
     (let h' = h\<lparr>g_data := g_data h @ guid\<rparr>
      in rbind (try_u32 HeapTooLarge (length (g_data h') div 16)) (\<lambda>i. Inr (i, h')))"

text \<open>\<^verbatim>\<open>str::encode_utf16\<close>: one unit below \<open>U+10000\<close>, a surrogate pair above.\<close>

definition encode_utf16_char :: "nat \<Rightarrow> u16 list" where
  "encode_utf16_char c =
     (if c < 0x10000 then [word_of_nat c]
      else [word_of_nat (0xD800 + (c - 0x10000) div 0x400),
            word_of_nat (0xDC00 + (c - 0x10000) mod 0x400)])"

definition encode_utf16 :: "nat list \<Rightarrow> u16 list" where
  "encode_utf16 s = concat (map encode_utf16_char s)"

definition to_le_bytes_u16 :: "u16 \<Rightarrow> u8 list" where
  "to_le_bytes_u16 u = [ucast u, ucast (drop_bit 8 u)]"

definition special_unit :: "u16 \<Rightarrow> bool" where
  "special_unit u \<longleftrightarrow> u \<ge> 0x100 \<or> (0x01 \<le> u \<and> u \<le> 0x08) \<or> (0x0E \<le> u \<and> u \<le> 0x1F) \<or>
     u = 0x27 \<or> u = 0x2D \<or> u = 0x7F"

definition user_string_intern ::
  "nat list \<Rightarrow> user_string_heap \<Rightarrow> (heap_panic, u32 \<times> user_string_heap) result" where
  "user_string_intern s h =
     (case u_interned h s of
        Some off \<Rightarrow> Inr (off, h)
      | None \<Rightarrow>
          (let utf16 = encode_utf16 s; special = list_ex special_unit utf16 in
           rbind (try_u32 ItemTooLarge (length utf16 * 2 + 1)) (\<lambda>byte_len.
           rbind (try_u32 HeapTooLarge (length (u_data h))) (\<lambda>off.
           rbind (write_compressed_u32 (u_data h) byte_len) (\<lambda>data.
           Inr (off, h\<lparr>u_data := data @ concat (map to_le_bytes_u16 utf16) @ [if special then 1 else 0],
                       u_interned := (u_interned h)(s \<mapsto> off)\<rparr>))))))"

lemmas heap_defaults [heap_simps] =
  strings_default_def blob_default_def user_string_default_def guid_default_def

section \<open>Reference readers\<close>

definition strings_read :: "u8 list \<Rightarrow> u32 \<Rightarrow> u8 list option" where
  "strings_read data off =
     (if unat off < length data \<and> 0 \<in> set (drop (unat off) data)
      then Some (takeWhile (\<lambda>b. b \<noteq> 0) (drop (unat off) data)) else None)"

definition blob_read :: "u8 list \<Rightarrow> u32 \<Rightarrow> u8 list option" where
  "blob_read data off =
     (case read_compressed_u32 (drop (unat off) data) of
        Some (len, rest) \<Rightarrow> if unat len \<le> length rest then Some (take (unat len) rest) else None
      | None \<Rightarrow> None)"

fun units_of_bytes :: "u8 list \<Rightarrow> u16 list" where
  "units_of_bytes (lo # hi # bs) = word_of_nat (unat lo + 2 ^ 8 * unat hi) # units_of_bytes bs"
| "units_of_bytes _ = []"

definition user_string_view :: "nat list \<Rightarrow> u16 list \<times> bool" where
  "user_string_view s = (encode_utf16 s, \<exists>u\<in>set (encode_utf16 s). special_unit u)"

definition user_string_read :: "u8 list \<Rightarrow> u32 \<Rightarrow> (u16 list \<times> bool) option" where
  "user_string_read data off =
     (case blob_read data off of
        Some bs \<Rightarrow> if bs = [] then None else Some (units_of_bytes (butlast bs), last bs = 1)
      | None \<Rightarrow> None)"

definition guid_read :: "u8 list \<Rightarrow> u32 \<Rightarrow> u8 list" where
  "guid_read data i = take 16 (drop (16 * (unat i - 1)) data)"

text \<open>UTF-16 decoding, which makes the user-string encoding lossless.\<close>

fun decode_utf16 :: "u16 list \<Rightarrow> nat list" where
  "decode_utf16 [] = []"
| "decode_utf16 (u # us) =
     (if 0xD800 \<le> unat u \<and> unat u < 0xDC00 then
        (case us of v # vs \<Rightarrow> (0x10000 + (unat u - 0xD800) * 0x400 + (unat v - 0xDC00)) # decode_utf16 vs
         | [] \<Rightarrow> [])
      else unat u # decode_utf16 us)"

definition scalar_value :: "nat \<Rightarrow> bool" where
  "scalar_value c \<longleftrightarrow> c < 0xD800 \<or> (0xE000 \<le> c \<and> c < 0x110000)"


section \<open>Compressed integers round-trip\<close>

lemma write_compressed_append:
  "write_compressed_u32 out v = map_sum id ((@) out) (write_compressed_u32 [] v)"
  by (simp add: write_compressed_u32_def)

lemma unat_compressed_tags:
  "unat v < 2 ^ 14 \<Longrightarrow> unat (0x80 OR drop_bit 8 v :: u32) = 0x80 + unat v div 2 ^ 8"
  "unat v < 2 ^ 29 \<Longrightarrow> unat (0xC0 OR drop_bit 24 v :: u32) = 0xC0 + unat v div 2 ^ 24"
proof -
  have tags: "(0x80 :: u32) = push_bit 7 1" "(0xC0 :: u32) = push_bit 6 3"
    by (simp_all add: push_bit_eq_mult)
  have bits: "bit (0x80 :: u32) n \<Longrightarrow> 7 \<le> n" "bit (0xC0 :: u32) n \<Longrightarrow> 6 \<le> n" for n
    unfolding tags by (simp_all only: bit_push_bit_iff)
  show "unat (0x80 OR drop_bit 8 v :: u32) = 0x80 + unat v div 2 ^ 8" if "unat v < 2 ^ 14"
    by (subst unat_or_high [OF _ bits(1)]) (use that in \<open>auto simp: unat_drop_bit\<close>)
  show "unat (0xC0 OR drop_bit 24 v :: u32) = 0xC0 + unat v div 2 ^ 24" if "unat v < 2 ^ 29"
    by (subst unat_or_high [OF _ bits(2)]) (use that in \<open>auto simp: unat_drop_bit\<close>)
qed

lemma byte_digits4:
  fixes n :: nat
  shows "n div 0x1000000 * 0x1000000 + n div 0x10000 mod 0x100 * 0x10000 + n div 0x100 mod 0x100 * 0x100
    + n mod 0x100 = n"
proof -
  have "n div 0x100 * 0x100 + n mod 0x100 = n"
    and "n div 0x10000 * 0x100 + n div 0x100 mod 0x100 = n div 0x100"
    and "n div 0x1000000 * 0x100 + n div 0x10000 mod 0x100 = n div 0x10000"
    using div_mult_mod_eq [of "n div 0x100" "0x100"] div_mult_mod_eq [of "n div 0x10000" "0x100"]
    by (simp_all add: div_mult2_eq [symmetric])
  then show ?thesis by linarith
qed

lemma ucast_low_byte: "(ucast (ucast (v :: u32) :: u8) :: u32) = word_of_nat (unat v mod 0x100)"
  by (simp add: word_eq_iff_unsigned [where 'a = nat] unat_ucast_mod word_of_nat_unat_lt)

lemma read_write_compressed:
  assumes "write_compressed_u32 [] v = Inr enc"
  shows "read_compressed_u32 (enc @ rest) = Some (v, rest)"
proof -
  consider (one) "v \<le> 0x7F" | (two) "\<not> v \<le> 0x7F" "v \<le> 0x3FFF"
    | (four) "\<not> v \<le> 0x3FFF" "v \<le> 0x1FFFFFFF"
    using assms by (force simp: write_compressed_u32_def split: if_splits)
  then show ?thesis
  proof cases
    case one
    then have "unat v < 0x80" by (simp add: word_le_nat_alt)
    with one assms show ?thesis
      by (auto simp: write_compressed_u32_def unat_ucast_mod)
  next
    case two
    then have b: "unat v < 2 ^ 14" and "0x80 \<le> unat v" by (simp_all add: word_le_nat_alt)
    then have "(unat v div 2 ^ 8) < 0x40" by (simp add: less_mult_imp_div_less)
    with two assms b show ?thesis
      by (auto simp: write_compressed_u32_def unat_ucast_mod unat_compressed_tags(1) [OF b])
  next
    case four
    then have b: "unat v < 2 ^ 29" by (simp add: word_le_nat_alt)
    then have "(unat v div 2 ^ 24) < 0x20" by (simp add: less_mult_imp_div_less)
    moreover have "\<not> v \<le> 0x7F" using four by (auto simp: word_le_nat_alt)
    ultimately show ?thesis
      using four assms b arg_cong [OF byte_digits4 [of "unat v"], of "word_of_nat :: nat \<Rightarrow> u32"]
      by (auto simp: write_compressed_u32_def unat_ucast_mod unat_drop_bit ucast_low_byte
          unat_compressed_tags(2) [OF b])
  qed
qed

lemma read_compressed_append:
  "read_compressed_u32 bs = Some (v, rest) \<Longrightarrow> read_compressed_u32 (bs @ ext) = Some (v, rest @ ext)"
  by (cases bs) (auto split: if_splits list.splits)

lemma write_compressed_nonempty: "write_compressed_u32 [] v = Inr enc \<Longrightarrow> enc \<noteq> []"
  by (auto simp: write_compressed_u32_def split: if_splits)


section \<open>What the metadata tables rely on\<close>

text \<open>Interning a sequence of items, as a table builder does.\<close>

fun intern_all :: "('k \<Rightarrow> 'h \<Rightarrow> ('e, 'i \<times> 'h) result) \<Rightarrow> 'k list \<Rightarrow> 'h \<Rightarrow> ('e, 'i list \<times> 'h) result" where
  "intern_all intern [] h = Inr ([], h)"
| "intern_all intern (x # xs) h =
     rbind (intern x h) (\<lambda>(i, h'). rbind (intern_all intern xs h') (\<lambda>(is, h''). Inr (i # is, h'')))"

locale interning_heap =
  fixes intern :: "'k \<Rightarrow> 'h \<Rightarrow> (heap_panic, u32 \<times> 'h) result"
    and bytes :: "'h \<Rightarrow> u8 list"
    and read :: "u8 list \<Rightarrow> u32 \<Rightarrow> 'v option"
    and view :: "'k \<Rightarrow> 'v"
    and wf :: "'h \<Rightarrow> bool"
  assumes intern_wf: "wf h \<Longrightarrow> intern x h = Inr (off, h') \<Longrightarrow> wf h'"
    and intern_read: "wf h \<Longrightarrow> intern x h = Inr (off, h') \<Longrightarrow> read (bytes h') off = Some (view x)"
    and intern_extends: "wf h \<Longrightarrow> intern x h = Inr (off, h') \<Longrightarrow> \<exists>ext. bytes h' = bytes h @ ext"
    and read_extends: "read bs off = Some v \<Longrightarrow> read (bs @ ext) off = Some v"
    and intern_again: "wf h \<Longrightarrow> intern x h = Inr (off, h') \<Longrightarrow> intern x h' = Inr (off, h')"
    and intern_keeps: "wf h \<Longrightarrow> intern y h = Inr (i, h) \<Longrightarrow> intern x h = Inr (off, h') \<Longrightarrow>
      intern y h' = Inr (i, h')"
begin

lemma read_stable:
  assumes "wf h" "intern x h = Inr (off, h')" "read (bytes h) o' = Some v"
  shows "read (bytes h') o' = Some v"
  using intern_extends [OF assms(1,2)] read_extends assms(3) by auto

lemma all_stable:
  "wf h \<Longrightarrow> intern_all intern xs h = Inr (offs, h') \<Longrightarrow>
     wf h' \<and> (\<forall>off v. read (bytes h) off = Some v \<longrightarrow> read (bytes h') off = Some v)"
proof (induction xs arbitrary: h offs)
  case (Cons x xs)
  then obtain off h1 offs1 where x: "intern x h = Inr (off, h1)"
    and xs: "intern_all intern xs h1 = Inr (offs1, h')"
    by (auto simp: rbind_eq_Inr)
  from Cons.IH [OF intern_wf [OF Cons.prems(1) x] xs] show ?case
    using read_stable [OF Cons.prems(1) x] by blast
qed auto

lemma all_read:
  "wf h \<Longrightarrow> intern_all intern xs h = Inr (offs, h') \<Longrightarrow>
     list_all2 (\<lambda>x off. read (bytes h') off = Some (view x)) xs offs"
proof (induction xs arbitrary: h offs)
  case (Cons x xs)
  then obtain off h1 offs1 where x: "intern x h = Inr (off, h1)" and offs: "offs = off # offs1"
    and xs: "intern_all intern xs h1 = Inr (offs1, h')"
    by (auto simp: rbind_eq_Inr)
  note wf1 = intern_wf [OF Cons.prems(1) x]
  have "read (bytes h') off = Some (view x)"
    using all_stable [OF wf1 xs] intern_read [OF Cons.prems(1) x] by blast
  with Cons.IH [OF wf1 xs] show ?case by (simp add: offs)
qed simp

lemma known_stable:
  "wf h \<Longrightarrow> intern y h = Inr (i, h) \<Longrightarrow> intern_all intern xs h = Inr (offs, h') \<Longrightarrow>
     intern y h' = Inr (i, h')"
proof (induction xs arbitrary: h offs)
  case (Cons x xs)
  then obtain off h1 offs1 where x: "intern x h = Inr (off, h1)"
    and xs: "intern_all intern xs h1 = Inr (offs1, h')"
    by (auto simp: rbind_eq_Inr)
  from Cons.IH [OF intern_wf [OF Cons.prems(1) x] intern_keeps [OF Cons.prems(1,2) x] xs] show ?case .
qed simp

lemma all_again:
  "wf h \<Longrightarrow> intern_all intern xs h = Inr (offs, h') \<Longrightarrow>
     list_all2 (\<lambda>x off. intern x h' = Inr (off, h')) xs offs"
proof (induction xs arbitrary: h offs)
  case (Cons x xs)
  then obtain off h1 offs1 where x: "intern x h = Inr (off, h1)" and offs: "offs = off # offs1"
    and xs: "intern_all intern xs h1 = Inr (offs1, h')"
    by (auto simp: rbind_eq_Inr)
  note wf1 = intern_wf [OF Cons.prems(1) x]
  have "intern x h' = Inr (off, h')"
    using known_stable [OF wf1 intern_again [OF Cons.prems(1) x] xs] .
  with Cons.IH [OF wf1 xs] show ?case by (simp add: offs)
qed simp

lemma distinct_offsets:
  assumes "wf h" "intern x h = Inr (i, h1)" "intern y h1 = Inr (j, h2)" "view x \<noteq> view y"
  shows "i \<noteq> j"
proof
  assume "i = j"
  have "read (bytes h2) i = Some (view x)"
    using read_stable [OF intern_wf [OF assms(1,2)] assms(3)] intern_read [OF assms(1,2)] by blast
  moreover have "read (bytes h2) j = Some (view y)"
    using intern_read [OF intern_wf [OF assms(1,2)] assms(3)] .
  ultimately show False using assms(4) \<open>i = j\<close> by simp
qed

end

section \<open>The heaps implement the interface\<close>

lemma try_u32_Inr: "try_u32 e n = Inr w \<longleftrightarrow> n < 2 ^ 32 \<and> w = word_of_nat n"
  by (auto simp: try_u32_def)

lemma try_u32_unat: "try_u32 e n = Inr w \<Longrightarrow> unat w = n"
  by (simp add: try_u32_Inr word_of_nat_unat_lt)

subsection \<open>\<open>#Strings\<close>\<close>

definition strings_wf :: "strings_heap \<Rightarrow> bool" where
  "strings_wf h \<longleftrightarrow> strings_read (s_data h) 0 = Some [] \<and>
     (\<forall>s off. s_interned h s = Some off \<longrightarrow> strings_read (s_data h) off = Some s)"

lemma strings_read_extends:
  "strings_read data off = Some s \<Longrightarrow> strings_read (data @ ext) off = Some s"
  by (auto simp: strings_read_def split: if_splits)

lemma strings_read_fresh:
  assumes "0 \<notin> set s" "unat off = length data"
  shows "strings_read (data @ s @ [0]) off = Some s"
proof -
  have "takeWhile (\<lambda>b. b \<noteq> 0) (s @ 0 # []) = s"
    using assms(1) by (intro takeWhile_append_stop) auto
  then show ?thesis using assms(2) by (simp add: strings_read_def)
qed

lemma strings_intern_cases:
  assumes "strings_intern s h = Inr (off, h')"
  obtains (empty) "s = []" "off = 0" "h' = h"
  | (old) "s_interned h s = Some off" "h' = h" "s \<noteq> []" "0 \<notin> set s"
  | (fresh) "s \<noteq> []" "0 \<notin> set s" "s_interned h s = None" "unat off = length (s_data h)"
      "h' = h\<lparr>s_data := s_data h @ s @ [0], s_interned := (s_interned h)(s \<mapsto> off)\<rparr>"
  using assms by (auto simp: strings_intern_def rbind_eq_Inr try_u32_unat split: if_splits option.splits)

lemma strings_known:
  assumes "strings_intern y h = Inr (i, h)"
  shows "y = [] \<and> i = 0 \<or> y \<noteq> [] \<and> 0 \<notin> set y \<and> s_interned h y = Some i"
  using assms
proof (cases rule: strings_intern_cases)
  case fresh
  have False using arg_cong [OF fresh(5), of s_data] by simp
  then show ?thesis ..
qed auto

interpretation sh: interning_heap strings_intern s_data strings_read "\<lambda>s. s" strings_wf
proof (unfold_locales, goal_cases)
  case (1 h x off h')
  from 1(2,1) show ?case
    by (cases rule: strings_intern_cases)
      (auto simp: strings_wf_def strings_read_fresh strings_read_extends)
next
  case (2 h x off h')
  from 2(2,1) show ?case
    by (cases rule: strings_intern_cases) (auto simp: strings_wf_def strings_read_fresh)
next
  case (3 h x off h')
  from 3(2) show ?case by (cases rule: strings_intern_cases) auto
next
  case (4 bs off v ext)
  then show ?case by (rule strings_read_extends)
next
  case (5 h x off h')
  from 5(2) show ?case by (cases rule: strings_intern_cases) (auto simp: strings_intern_def)
next
  case (6 h y i x off h')
  from 6(3) strings_known [OF 6(2)] show ?case
    by (cases rule: strings_intern_cases) (auto simp: strings_intern_def)
qed

subsection \<open>\<open>#Blob\<close>\<close>

definition blob_wf :: "blob_heap \<Rightarrow> bool" where
  "blob_wf h \<longleftrightarrow> blob_read (b_data h) 0 = Some [] \<and>
     (\<forall>b off. b_interned h b = Some off \<longrightarrow> blob_read (b_data h) off = Some b)"

lemma blob_read_extends:
  "blob_read data off = Some b \<Longrightarrow> blob_read (data @ ext) off = Some b"
proof -
  assume a: "blob_read data off = Some b"
  then obtain len rest where r: "read_compressed_u32 (drop (unat off) data) = Some (len, rest)"
    and b: "b = take (unat len) rest" "unat len \<le> length rest"
    by (auto simp: blob_read_def split: option.splits if_splits)
  from r have "unat off \<le> length data" by (cases "unat off \<le> length data") auto
  with read_compressed_append [OF r] b show ?thesis by (simp add: blob_read_def)
qed

lemma blob_read_fresh:
  assumes "write_compressed_u32 data len = Inr data'" "unat len = length b" "unat off = length data"
  shows "blob_read (data' @ b) off = Some b"
proof -
  from assms(1) obtain enc where enc: "write_compressed_u32 [] len = Inr enc" "data' = data @ enc"
    by (auto simp: write_compressed_append [of data] map_sum_def split: sum.splits)
  then have "read_compressed_u32 (drop (unat off) (data' @ b)) = Some (len, b)"
    using read_write_compressed [OF enc(1), of b] assms(3) by simp
  then show ?thesis using assms(2) by (simp add: blob_read_def)
qed

lemma blob_intern_cases:
  assumes "blob_intern b h = Inr (off, h')"
  obtains (empty) "b = []" "off = 0" "h' = h"
  | (old) "b_interned h b = Some off" "h' = h" "b \<noteq> []"
  | (fresh) len data where "b \<noteq> []" "b_interned h b = None" "unat off = length (b_data h)"
      "unat len = length b" "write_compressed_u32 (b_data h) len = Inr data"
      "h' = h\<lparr>b_data := data @ b, b_interned := (b_interned h)(b \<mapsto> off)\<rparr>"
  using assms
  by (auto simp: blob_intern_def rbind_eq_Inr dest!: try_u32_unat split: if_splits option.splits)

lemma write_compressed_extends:
  "write_compressed_u32 data len = Inr data' \<Longrightarrow> \<exists>enc. data' = data @ enc"
  by (auto simp: write_compressed_u32_def split: if_splits)

lemma blob_fresh_wf:
  assumes "blob_wf h" "write_compressed_u32 (b_data h) len = Inr data" "unat len = length b"
    "unat off = length (b_data h)"
  shows "blob_wf (h\<lparr>b_data := data @ b, b_interned := (b_interned h)(b \<mapsto> off)\<rparr>)"
proof -
  from write_compressed_extends [OF assms(2)] obtain enc where "data = b_data h @ enc" by blast
  then have "blob_read (b_data h) o' = Some v \<Longrightarrow> blob_read (data @ b) o' = Some v" for o' v
    using blob_read_extends [of "b_data h" o' v "enc @ b"] by simp
  then show ?thesis
    using assms(1) blob_read_fresh [OF assms(2,3,4)] by (auto simp: blob_wf_def)
qed

lemma blob_known:
  assumes "blob_intern y h = Inr (i, h)"
  shows "y = [] \<and> i = 0 \<or> y \<noteq> [] \<and> b_interned h y = Some i"
  using assms
proof (cases rule: blob_intern_cases)
  case (fresh len data)
  from write_compressed_extends [OF fresh(5)] obtain enc where "data = b_data h @ enc" by blast
  with arg_cong [OF fresh(6), of b_data] fresh(1) have False by simp
  then show ?thesis ..
qed auto

interpretation bh: interning_heap blob_intern b_data blob_read "\<lambda>b. b" blob_wf
proof (unfold_locales, goal_cases)
  case (1 h x off h')
  from 1(2,1) show ?case by (cases rule: blob_intern_cases) (auto intro: blob_fresh_wf)
next
  case (2 h x off h')
  from 2(2,1) show ?case
    by (cases rule: blob_intern_cases) (auto simp: blob_wf_def blob_read_fresh)
next
  case (3 h x off h')
  from 3(2) show ?case by (cases rule: blob_intern_cases) (auto dest!: write_compressed_extends)
next
  case (4 bs off v ext)
  then show ?case by (rule blob_read_extends)
next
  case (5 h x off h')
  from 5(2) show ?case by (cases rule: blob_intern_cases) (auto simp: blob_intern_def)
next
  case (6 h y i x off h')
  from 6(3) blob_known [OF 6(2)] show ?case
    by (cases rule: blob_intern_cases) (auto simp: blob_intern_def)
qed


subsection \<open>\<open>#US\<close>\<close>

lemma units_of_bytes_le: "units_of_bytes (concat (map to_le_bytes_u16 us)) = us"
proof (induction us)
  case (Cons u us)
  have "unat u = unat u mod 0x100 + 0x100 * (unat u div 0x100)" by simp
  then have "word_of_nat (unat (ucast u :: u8) + 2 ^ 8 * unat (ucast (drop_bit 8 u) :: u8)) = u"
    using arg_cong [where f = "word_of_nat :: nat \<Rightarrow> u16"]
    by (simp add: unat_ucast_mod unat_drop_bit less_mult_imp_div_less)
  with Cons show ?case by (simp add: to_le_bytes_u16_def)
qed simp

lemma length_le_bytes: "length (concat (map to_le_bytes_u16 us)) = 2 * length us"
  by (induction us) (simp_all add: to_le_bytes_u16_def)

definition user_string_wf :: "user_string_heap \<Rightarrow> bool" where
  "user_string_wf h \<longleftrightarrow>
     (\<forall>s off. u_interned h s = Some off \<longrightarrow> user_string_read (u_data h) off = Some (user_string_view s))"

lemma user_string_read_extends:
  "user_string_read data off = Some v \<Longrightarrow> user_string_read (data @ ext) off = Some v"
  by (auto simp: user_string_read_def blob_read_extends split: option.splits)

definition user_string_bytes :: "nat list \<Rightarrow> u8 list" where
  "user_string_bytes s = concat (map to_le_bytes_u16 (encode_utf16 s)) @
     [if list_ex special_unit (encode_utf16 s) then 1 else 0]"

lemma user_string_read_fresh:
  assumes "write_compressed_u32 data len = Inr data'" "unat len = length (encode_utf16 s) * 2 + 1"
    "unat off = length data"
  shows "user_string_read (data' @ user_string_bytes s) off = Some (user_string_view s)"
proof -
  have "unat len = length (user_string_bytes s)"
    using assms(2) by (simp add: user_string_bytes_def length_le_bytes)
  from blob_read_fresh [OF assms(1) this assms(3)] show ?thesis
    by (simp add: user_string_read_def user_string_bytes_def user_string_view_def units_of_bytes_le
        list_ex_iff)
qed

lemma user_string_intern_cases:
  assumes "user_string_intern s h = Inr (off, h')"
  obtains (old) "u_interned h s = Some off" "h' = h"
  | (fresh) len data where "u_interned h s = None" "unat off = length (u_data h)"
      "unat len = length (encode_utf16 s) * 2 + 1" "write_compressed_u32 (u_data h) len = Inr data"
      "h' = h\<lparr>u_data := data @ user_string_bytes s, u_interned := (u_interned h)(s \<mapsto> off)\<rparr>"
  using assms
  by (auto simp: user_string_intern_def user_string_bytes_def rbind_eq_Inr Let_def
      dest!: try_u32_unat split: option.splits)

lemma user_string_fresh_wf:
  assumes "user_string_wf h" "write_compressed_u32 (u_data h) len = Inr data"
    "unat len = length (encode_utf16 s) * 2 + 1" "unat off = length (u_data h)"
  shows "user_string_wf (h\<lparr>u_data := data @ user_string_bytes s, u_interned := (u_interned h)(s \<mapsto> off)\<rparr>)"
proof -
  from write_compressed_extends [OF assms(2)] obtain enc where "data = u_data h @ enc" by blast
  then have "user_string_read (u_data h) o' = Some v \<Longrightarrow>
      user_string_read (data @ user_string_bytes s) o' = Some v" for o' v
    using user_string_read_extends [of "u_data h" o' v "enc @ user_string_bytes s"] by simp
  then show ?thesis
    using assms(1) user_string_read_fresh [OF assms(2,3,4)] by (auto simp: user_string_wf_def)
qed

lemma user_string_known:
  assumes "user_string_intern y h = Inr (i, h)"
  shows "u_interned h y = Some i"
  using assms
proof (cases rule: user_string_intern_cases)
  case (fresh len data)
  from write_compressed_extends [OF fresh(4)] obtain enc where "data = u_data h @ enc" by blast
  with arg_cong [OF fresh(5), of u_data] have False by (simp add: user_string_bytes_def)
  then show ?thesis ..
qed auto

interpretation uh: interning_heap user_string_intern u_data user_string_read user_string_view user_string_wf
proof (unfold_locales, goal_cases)
  case (1 h x off h')
  from 1(2,1) show ?case by (cases rule: user_string_intern_cases) (auto intro: user_string_fresh_wf)
next
  case (2 h x off h')
  from 2(2,1) show ?case
    by (cases rule: user_string_intern_cases) (auto simp: user_string_wf_def user_string_read_fresh)
next
  case (3 h x off h')
  from 3(2) show ?case by (cases rule: user_string_intern_cases) (auto dest!: write_compressed_extends)
next
  case (4 bs off v ext)
  then show ?case by (rule user_string_read_extends)
next
  case (5 h x off h')
  from 5(2) show ?case by (cases rule: user_string_intern_cases) (auto simp: user_string_intern_def)
next
  case (6 h y i x off h')
  from 6(3) user_string_known [OF 6(2)] show ?case
    by (cases rule: user_string_intern_cases) (auto simp: user_string_intern_def)
qed

text \<open>UTF-16 loses nothing on Unicode scalar values, which is what a Rust \<^verbatim>\<open>str\<close> holds.\<close>

lemma decode_encode_char:
  assumes "scalar_value c"
  shows "decode_utf16 (encode_utf16_char c @ us) = c # decode_utf16 us"
proof (cases "c < 0x10000")
  case True
  then show ?thesis
    using assms by (auto simp: encode_utf16_char_def scalar_value_def word_of_nat_unat_lt)
next
  case False
  let ?hi = "(c - 0x10000) div 0x400" and ?lo = "(c - 0x10000) mod 0x400"
  from False assms have "?hi < 0x400"
    by (auto simp: scalar_value_def less_mult_imp_div_less)
  then have hi: "unat (word_of_nat (0xD800 + ?hi) :: u16) = 0xD800 + ?hi"
    and lo: "unat (word_of_nat (0xDC00 + ?lo) :: u16) = 0xDC00 + ?lo"
    by (auto intro!: word_of_nat_unat_lt simp del: of_nat_add intro: less_trans [of _ "0xDC00 + 0x400"])
  have "0x10000 + ?hi * 0x400 + ?lo = c" using False by simp
  with False \<open>?hi < 0x400\<close> show ?thesis
    by (simp add: encode_utf16_char_def hi lo del: of_nat_add)
qed

lemma decode_encode_utf16: "\<forall>c\<in>set s. scalar_value c \<Longrightarrow> decode_utf16 (encode_utf16 s) = s"
  by (induction s) (auto simp: encode_utf16_def decode_encode_char)

section \<open>Interning succeeds within the format's limits\<close>

lemma strings_intern_ok:
  assumes "0 \<notin> set s" "length (s_data h) < 2 ^ 32"
  shows "\<exists>off h'. strings_intern s h = Inr (off, h') \<and>
     length (s_data h') \<le> length (s_data h) + length s + 1"
  using assms by (cases "s_interned h s") (auto simp: strings_intern_def try_u32_def)

lemma strings_intern_all_ok:
  "\<forall>s\<in>set names. 0 \<notin> set s \<Longrightarrow> length (s_data h) + (\<Sum>s\<leftarrow>names. length s + 1) \<le> 2 ^ 32 \<Longrightarrow>
     \<exists>offs h'. intern_all strings_intern names h = Inr (offs, h')"
proof (induction names arbitrary: h)
  case (Cons s names)
  then obtain off h1 where s: "strings_intern s h = Inr (off, h1)"
    and len: "length (s_data h1) \<le> length (s_data h) + length s + 1"
    using strings_intern_ok [of s h] by auto
  have "\<exists>offs h'. intern_all strings_intern names h1 = Inr (offs, h')"
    using Cons.prems len by (intro Cons.IH) auto
  with s show ?case by auto
qed simp

lemma strings_default_wf: "strings_wf strings_default"
  by (simp add: strings_wf_def strings_read_def heap_simps)

lemma blob_default_wf: "blob_wf blob_default"
  by (simp add: blob_wf_def blob_read_def heap_simps)

lemma user_string_default_wf: "user_string_wf user_string_default"
  by (simp add: user_string_wf_def heap_simps)

lemma write_compressed_length:
  "write_compressed_u32 out v = Inr out' \<Longrightarrow> length out' \<le> length out + 4"
  by (auto simp: write_compressed_u32_def split: if_splits)

lemma blob_intern_ok:
  assumes "length b \<le> 0x1FFFFFFF" "length (b_data h) < 2 ^ 32"
  shows "\<exists>off h'. blob_intern b h = Inr (off, h') \<and> length (b_data h') \<le> length (b_data h) + length b + 4"
proof -
  have "word_of_nat (length b) \<le> (0x1FFFFFFF :: u32)"
    using assms(1) by (simp add: word_le_nat_alt word_of_nat_unat_lt)
  then obtain d where d: "write_compressed_u32 (b_data h) (word_of_nat (length b)) = Inr d"
    by (cases "write_compressed_u32 (b_data h) (word_of_nat (length b))")
      (auto simp: write_compressed_u32_def split: if_splits)
  with assms write_compressed_length [OF d] show ?thesis
    by (cases "b_interned h b") (auto simp: blob_intern_def try_u32_def)
qed

lemma blob_intern_all_ok:
  "\<forall>b\<in>set blobs. length b \<le> 0x1FFFFFFF \<Longrightarrow>
   length (b_data h) + (\<Sum>b\<leftarrow>blobs. length b + 4) < 2 ^ 32 \<Longrightarrow>
     \<exists>offs h'. intern_all blob_intern blobs h = Inr (offs, h')"
proof (induction blobs arbitrary: h)
  case (Cons b blobs)
  then obtain off h1 where b: "blob_intern b h = Inr (off, h1)"
    and len: "length (b_data h1) \<le> length (b_data h) + length b + 4"
    using blob_intern_ok [of b h] by auto
  have "\<exists>offs h'. intern_all blob_intern blobs h1 = Inr (offs, h')"
    using Cons.prems len by (intro Cons.IH) auto
  with b show ?case by auto
qed simp

section \<open>Properties\<close>

text \<open>
  C33. The compressed-integer writer appends a code that the ECMA-335 reader turns back into the
  value, leaving whatever follows untouched, for every value it accepts.
\<close>

theorem compressed_u32_roundtrip:
  "if v \<le> 0x1FFFFFFF
   then \<exists>enc. write_compressed_u32 out v = Inr (out @ enc) \<and>
          (\<forall>rest. read_compressed_u32 (enc @ rest) = Some (v, rest))
   else write_compressed_u32 out v = Inl CompressedRange"
proof (cases "v \<le> 0x1FFFFFFF")
  case True
  then obtain enc where "write_compressed_u32 [] v = Inr enc"
    by (cases "write_compressed_u32 [] v") (auto simp: write_compressed_u32_def split: if_splits)
  with True show ?thesis
    using write_compressed_append [of out v] read_write_compressed by auto
next
  case False
  then have "\<not> v \<le> 0x7F" "\<not> v \<le> 0x3FFF" by (auto simp: word_le_nat_alt)
  with False show ?thesis by (simp add: write_compressed_u32_def)
qed


text \<open>
  Interning any sequence of NUL-free names that fits in the heap succeeds, and in the final
  \<open>#Strings\<close> heap every returned offset reads back exactly its name.
\<close>

theorem strings_heap_read_back:
  assumes "\<forall>s\<in>set names. 0 \<notin> set s" "1 + (\<Sum>s\<leftarrow>names. length s + 1) \<le> 2 ^ 32"
  shows "\<exists>offs h. intern_all strings_intern names strings_default = Inr (offs, h) \<and>
     list_all2 (\<lambda>s off. strings_read (s_data h) off = Some s) names offs"
proof -
  have "length (s_data strings_default) = 1" by (simp add: heap_simps)
  then obtain offs h where "intern_all strings_intern names strings_default = Inr (offs, h)"
    using strings_intern_all_ok [of names strings_default] assms by auto
  with sh.all_read [OF strings_default_wf this] show ?thesis by blast
qed

theorem strings_heap_read_back_witness:
  "\<exists>offs h. intern_all strings_intern [[77, 97], [79], [77, 97]] strings_default = Inr (offs, h) \<and>
     list_all2 (\<lambda>s off. strings_read (s_data h) off = Some s) [[77, 97], [79], [77, 97]] offs"
  by (rule strings_heap_read_back) simp_all

text \<open>
  C36. Every blob up to the format's length limit is stored so that the ECMA-335 blob reader at the
  returned offset yields it, also after any number of later blobs; re-interning changes nothing.
\<close>

theorem blob_heap_read_back:
  assumes "\<forall>b\<in>set blobs. length b \<le> 0x1FFFFFFF" "1 + (\<Sum>b\<leftarrow>blobs. length b + 4) < 2 ^ 32"
  shows "\<exists>offs h. intern_all blob_intern blobs blob_default = Inr (offs, h) \<and>
     list_all2 (\<lambda>b off. blob_read (b_data h) off = Some b \<and> blob_intern b h = Inr (off, h)) blobs offs"
proof -
  have "length (b_data blob_default) = 1" by (simp add: heap_simps)
  then obtain offs h where h: "intern_all blob_intern blobs blob_default = Inr (offs, h)"
    using blob_intern_all_ok [of blobs blob_default] assms by auto
  have "list_all2 (\<lambda>b off. blob_intern b h = Inr (off, h)) blobs offs"
    using bh.all_again [OF blob_default_wf h] .
  with h bh.all_read [OF blob_default_wf h] show ?thesis
    by (auto simp: list_all2_conv_all_nth)
qed

theorem blob_heap_read_back_witness:
  "\<exists>offs h. intern_all blob_intern [[1, 2, 3], [], [1, 2, 3]] blob_default = Inr (offs, h) \<and>
     list_all2 (\<lambda>b off. blob_read (b_data h) off = Some b \<and> blob_intern b h = Inr (off, h))
       [[1, 2, 3], [], [1, 2, 3]] offs"
  by (rule blob_heap_read_back) simp_all


text \<open>
  C38. A user string survives the UTF-16 re-encoding: at its offset in the final \<open>#US\<close> heap the
  reader finds units that decode to the original code points, and the trailing flag is set exactly
  when some unit needs special handling.
\<close>

theorem user_string_heap_lossless:
  assumes "\<forall>s\<in>set ss. \<forall>c\<in>set s. scalar_value c"
    and "intern_all user_string_intern ss user_string_default = Inr (offs, h)"
  shows "list_all2 (\<lambda>s off. \<exists>units special. user_string_read (u_data h) off = Some (units, special) \<and>
     decode_utf16 units = s \<and> special = (\<exists>u\<in>set units. special_unit u)) ss offs"
proof -
  have "list_all2 (\<lambda>s off. user_string_read (u_data h) off = Some (user_string_view s)) ss offs"
    by (rule uh.all_read [OF user_string_default_wf assms(2)])
  then show ?thesis
    by (rule list.rel_mono_strong)
      (use assms(1) in \<open>auto simp: user_string_view_def decode_encode_utf16\<close>)
qed

theorem user_string_heap_lossless_witness:
  "\<exists>offs h. intern_all user_string_intern [[72, 105], [0x1F600]] user_string_default = Inr (offs, h) \<and>
     list_all2 (\<lambda>s off. \<exists>units special. user_string_read (u_data h) off = Some (units, special) \<and>
       decode_utf16 units = s \<and> special = (\<exists>u\<in>set units. special_unit u)) [[72, 105], [0x1F600]] offs"
proof -
  obtain offs h where h: "intern_all user_string_intern [[72, 105], [0x1F600]] user_string_default = Inr (offs, h)"
    by (simp add: user_string_intern_def encode_utf16_def encode_utf16_char_def try_u32_def
        to_le_bytes_u16_def write_compressed_u32_def heap_simps)
  with user_string_heap_lossless [OF _ h] show ?thesis by (auto simp: scalar_value_def)
qed

text \<open>
  \<open>#GUID\<close> indices are 1-based ordinals: a push returns the number of GUIDs now stored, that
  slot holds the new GUID, and every earlier slot is unchanged.
\<close>

theorem guid_push_ordinal:
  assumes "length guid = 16" "16 dvd length (g_data h)" "length (g_data h) div 16 + 1 < 2 ^ 32"
  shows "\<exists>i h'. guid_push guid h = Inr (i, h') \<and> unat i = length (g_data h) div 16 + 1 \<and>
     guid_read (g_data h') i = guid \<and> 16 dvd length (g_data h') \<and>
     (\<forall>j. 1 \<le> unat j \<and> unat j < unat i \<longrightarrow> guid_read (g_data h') j = guid_read (g_data h) j)"
proof -
  obtain n where n: "length (g_data h) = 16 * n" using assms(2) by (rule dvdE)
  let ?i = "word_of_nat (n + 1) :: u32" and ?h = "h\<lparr>g_data := g_data h @ guid\<rparr>"
  have i: "unat ?i = n + 1" using assms(3) n by (intro word_of_nat_unat_lt) simp
  have push: "guid_push guid h = Inr (?i, ?h)"
    using assms n by (simp add: guid_push_def try_u32_def)
  have "guid_read (g_data ?h) j = guid_read (g_data h) j" if "1 \<le> unat j" "unat j < unat ?i" for j
  proof -
    have "16 * (unat j - 1) + 16 \<le> length (g_data h)" using that i n by simp
    then show ?thesis by (simp add: guid_read_def)
  qed
  moreover have "guid_read (g_data ?h) ?i = guid" "16 dvd length (g_data ?h)"
    using assms(1) n i by (simp_all add: guid_read_def)
  ultimately show ?thesis using push i n by (intro exI [of _ ?i] exI [of _ ?h]) auto
qed

theorem guid_push_ordinal_witness:
  "\<exists>i h'. guid_push (replicate 16 0xAA) guid_default = Inr (i, h') \<and> unat i = length (g_data guid_default) div 16 + 1 \<and>
     guid_read (g_data h') i = replicate 16 0xAA \<and> 16 dvd length (g_data h') \<and>
     (\<forall>j. 1 \<le> unat j \<and> unat j < unat i \<longrightarrow> guid_read (g_data h') j = guid_read (g_data guid_default) j)"
  by (rule guid_push_ordinal) (simp_all add: guid_default_def)

end
