(* ===== verification/CilTypes.thy ===== *)
theory CilTypes
  imports Prelude
begin

text \<open>
  The types of the intermediate representation (\<^verbatim>\<open>cilly/src/ir/tpe\<close>), the class references and
  the part of a class definition the type predicates read (\<^verbatim>\<open>cilly/src/ir/class.rs\<close>).
  The sources intern every type, class reference and signature and pass handles around; equal
  values have equal handles (theory \<open>Interning\<close>), so a handle is modelled by the value it resolves
  to and \<^verbatim>\<open>asm[handle]\<close> disappears. What remains of the \<^verbatim>\<open>Assembly\<close> is what the predicates
  look up: the class definitions, keyed by class reference.
\<close>

section \<open>Integers, floats and SIMD vectors\<close>

datatype cil_int =
    U8 | U16 | U32 | U64 | U128 | USize
  | I8 | I16 | I32 | I64 | I128 | ISize

datatype cil_float = F16 | F32 | F64 | F128

text \<open>\<^verbatim>\<open>panic!\<close> in \<open>from_size_sign\<close> and the assertion in \<open>SIMDVector::new\<close>.\<close>

datatype tpe_panic = UnknownIntSize u8 | UnsupportedVector u16 | Todo

fun as_unsigned :: "cil_int \<Rightarrow> cil_int" where
  "as_unsigned I8 = U8" | "as_unsigned U8 = U8"
| "as_unsigned I16 = U16" | "as_unsigned U16 = U16"
| "as_unsigned I32 = U32" | "as_unsigned U32 = U32"
| "as_unsigned I64 = U64" | "as_unsigned U64 = U64"
| "as_unsigned I128 = U128" | "as_unsigned U128 = U128"
| "as_unsigned ISize = USize" | "as_unsigned USize = USize"

fun as_signed :: "cil_int \<Rightarrow> cil_int" where
  "as_signed I8 = I8" | "as_signed U8 = I8"
| "as_signed I16 = I16" | "as_signed U16 = I16"
| "as_signed I32 = I32" | "as_signed U32 = I32"
| "as_signed I64 = I64" | "as_signed U64 = I64"
| "as_signed I128 = I128" | "as_signed U128 = I128"
| "as_signed ISize = ISize" | "as_signed USize = ISize"

definition from_size_sign :: "u8 \<Rightarrow> bool \<Rightarrow> (tpe_panic, cil_int) result" where
  "from_size_sign sz sign =
     rbind (if sz = 1 then Inr U8 else if sz = 2 then Inr U16 else if sz = 4 then Inr U32
            else if sz = 8 then Inr U64 else if sz = 16 then Inr U128 else Inl (UnknownIntSize sz))
       (\<lambda>res. Inr (if sign then as_signed res else res))"

fun int_name :: "cil_int \<Rightarrow> string" where
  "int_name U8 = ''u8''" | "int_name U16 = ''u16''" | "int_name U32 = ''u32''"
| "int_name U64 = ''u64''" | "int_name U128 = ''u128''" | "int_name USize = ''usize''"
| "int_name I8 = ''i8''" | "int_name I16 = ''i16''" | "int_name I32 = ''i32''"
| "int_name I64 = ''i64''" | "int_name I128 = ''i128''" | "int_name ISize = ''isize''"

fun is_signed :: "cil_int \<Rightarrow> bool" where
  "is_signed U8 = False" | "is_signed U16 = False" | "is_signed U32 = False"
| "is_signed U64 = False" | "is_signed U128 = False" | "is_signed USize = False"
| "is_signed I8 = True" | "is_signed I16 = True" | "is_signed I32 = True"
| "is_signed I64 = True" | "is_signed I128 = True" | "is_signed ISize = True"

fun int_size :: "cil_int \<Rightarrow> u8 option" where
  "int_size U8 = Some 1" | "int_size I8 = Some 1"
| "int_size U16 = Some 2" | "int_size I16 = Some 2"
| "int_size U32 = Some 4" | "int_size I32 = Some 4"
| "int_size U64 = Some 8" | "int_size I64 = Some 8"
| "int_size U128 = Some 16" | "int_size I128 = Some 16"
| "int_size USize = None" | "int_size ISize = None"

definition int_bits :: "cil_int \<Rightarrow> u8 option" where
  "int_bits i = map_option (\<lambda>sz. sz * 8) (int_size i)"

definition promoted :: "cil_int \<Rightarrow> (tpe_panic, cil_int option) result" where
  "promoted i =
     (if int_size i = Some 128 then Inr None
      else rbind (from_size_sign ((case int_size i of Some sz \<Rightarrow> sz | None \<Rightarrow> 8) * 2) (is_signed i))
             (\<lambda>r. Inr (Some r)))"

fun float_size :: "cil_float \<Rightarrow> u8" where
  "float_size F16 = 2" | "float_size F32 = 4" | "float_size F64 = 8" | "float_size F128 = 16"

fun float_name :: "cil_float \<Rightarrow> string" where
  "float_name F16 = ''f16''" | "float_name F32 = ''f32''" | "float_name F64 = ''f64''"
| "float_name F128 = ''f128''"

definition float_bits :: "cil_float \<Rightarrow> u8" where
  "float_bits f = float_size f * 8"

datatype simd_elem = SIMDInt cil_int | SIMDFloat cil_float

datatype simd_vector = MkSIMDVector (simd_elem_of: simd_elem) (simd_count: u8)

fun simd_elem_bits :: "simd_elem \<Rightarrow> u8" where
  "simd_elem_bits (SIMDInt i) = (case int_bits i of Some b \<Rightarrow> b | None \<Rightarrow> 64)"
| "simd_elem_bits (SIMDFloat f) = float_bits f"

definition simd_bits :: "simd_vector \<Rightarrow> u16" where
  "simd_bits v = ucast (simd_elem_bits (simd_elem_of v)) * ucast (simd_count v)"

definition simd_new :: "simd_elem \<Rightarrow> u8 \<Rightarrow> (tpe_panic, simd_vector) result" where
  "simd_new elem count =
     (let res = MkSIMDVector elem count; bits = simd_bits res in
      if bits = 64 \<or> bits = 128 \<or> bits = 256 \<or> bits = 512 then Inr res
      else Inl (UnsupportedVector bits))"

definition simd_name :: "simd_vector \<Rightarrow> string" where
  "simd_name v =
     ''simd'' @ (case simd_elem_of v of SIMDInt i \<Rightarrow> int_name i | SIMDFloat f \<Rightarrow> float_name f)
     @ ''_'' @ show_nat (unat (simd_count v))"

section \<open>Types, class references, signatures\<close>

datatype generic_kind = MethodGeneric | CallGeneric | TypeGeneric

datatype cil_type =
    TPtr cil_type
  | TRef cil_type
  | TInt cil_int
  | TClassRef class_ref
  | TFloat cil_float
  | TPlatformString
  | TPlatformChar
  | TPlatformGeneric u32 generic_kind
  | TPlatformObject
  | TBool
  | TVoid
  | TPlatformArray cil_type u8
  | TFnPtr fn_sig
  | TSIMDVector simd_vector
and class_ref =
    ClassRef (cr_name: string) (cr_asm: "string option") (cr_valuetype: bool) (cr_generics: "cil_type list")
and fn_sig =
    FnSig (sig_inputs: "cil_type list") (sig_output: cil_type)

fun simd_elem_type :: "simd_elem \<Rightarrow> cil_type" where
  "simd_elem_type (SIMDInt i) = TInt i"
| "simd_elem_type (SIMDFloat f) = TFloat f"

text \<open>The BCL rows of \<open>bcl_class!\<close> that the modelled code names.\<close>

definition bcl_value :: "string \<Rightarrow> class_ref" where
  "bcl_value name = ClassRef name (Some ''System.Runtime'') True []"

definition bcl_class :: "string \<Rightarrow> class_ref" where
  "bcl_class name = ClassRef name (Some ''System.Runtime'') False []"

definition simd_class :: "simd_vector \<Rightarrow> class_ref" where
  "simd_class v =
     ClassRef (''System.Runtime.Intrinsics.Vector'' @ show_nat (unat (simd_bits v)))
       (Some ''System.Runtime.Intrinsics'') True [simd_elem_type (simd_elem_of v)]"

fun int_class :: "cil_int \<Rightarrow> class_ref" where
  "int_class U8 = bcl_value ''System.Byte''"
| "int_class U16 = bcl_value ''System.UInt16''"
| "int_class U32 = bcl_value ''System.UInt32''"
| "int_class U64 = bcl_value ''System.UInt64''"
| "int_class U128 = bcl_value ''System.UInt128''"
| "int_class USize = bcl_value ''System.UIntPtr''"
| "int_class I8 = bcl_value ''System.SByte''"
| "int_class I16 = bcl_value ''System.Int16''"
| "int_class I32 = bcl_value ''System.Int32''"
| "int_class I64 = bcl_value ''System.Int64''"
| "int_class I128 = bcl_value ''System.Int128''"
| "int_class ISize = bcl_value ''System.IntPtr''"

text \<open>\<open>Float::class\<close>: \<open>F128\<close> is \<^verbatim>\<open>todo!()\<close>.\<close>

fun float_class :: "cil_float \<Rightarrow> (tpe_panic, class_ref) result" where
  "float_class F16 = Inr (bcl_value ''System.Half'')"
| "float_class F32 = Inr (bcl_value ''System.Single'')"
| "float_class F64 = Inr (bcl_value ''System.Double'')"
| "float_class F128 = Inl Todo"

section \<open>Class definitions\<close>

type_synonym field_def = "cil_type \<times> string \<times> u32 option"

record class_def =
  cd_name :: string
  cd_fields :: "field_def list"
  cd_explicit_size :: "u32 option"
  cd_align :: "u32 option"
  cd_nonoverlapping :: bool
  cd_generics :: u32

record assembly =
  class_defs :: "class_ref \<rightharpoonup> class_def"

definition ptr_size :: u32 where
  "ptr_size = 8"

definition has_explicit_layout :: "class_def \<Rightarrow> bool" where
  "has_explicit_layout cd \<longleftrightarrow> cd_explicit_size cd \<noteq> None \<or> (\<exists>(_, _, off)\<in>set (cd_fields cd). off \<noteq> None)"

section \<open>Type predicates\<close>

fun is_gcref :: "cil_type \<Rightarrow> bool" where
  "is_gcref (TClassRef c) = (\<not> cr_valuetype c)"
| "is_gcref (TPlatformGeneric _ _) = True"
| "is_gcref (TPlatformArray _ _) = True"
| "is_gcref TPlatformObject = True"
| "is_gcref TPlatformString = True"
| "is_gcref _ = False"

function contains_gcref_impl :: "'a assembly_scheme \<Rightarrow> nat \<Rightarrow> cil_type \<Rightarrow> bool" where
  "contains_gcref_impl asm depth t =
     (if depth > 64 then True
      else case t of
        TClassRef c \<Rightarrow>
          if \<not> cr_valuetype c then True
          else (case class_defs asm c of
                  Some cd \<Rightarrow> list_ex (\<lambda>fd. contains_gcref_impl asm (depth + 1) (fst fd)) (cd_fields cd)
                | None \<Rightarrow> False)
      | _ \<Rightarrow> is_gcref t)"
  by pat_completeness auto
termination by (relation "measure (\<lambda>(asm, depth, t). 65 - depth)") auto


declare contains_gcref_impl.simps [simp del]

definition contains_gcref :: "'a assembly_scheme \<Rightarrow> cil_type \<Rightarrow> bool" where
  "contains_gcref asm t = contains_gcref_impl asm 0 t"

fun try_deref :: "cil_type \<Rightarrow> cil_type option" where
  "try_deref (TPtr t) = Some t"
| "try_deref (TRef t) = Some t"
| "try_deref _ = None"

fun mangle :: "cil_type \<Rightarrow> string" where
  "mangle (TSIMDVector v) = simd_name v"
| "mangle (TPtr t) = ''p'' @ mangle t"
| "mangle (TRef t) = ''r'' @ mangle t"
| "mangle (TInt i) = int_name i"
| "mangle (TClassRef c) =
     (case cr_asm c of Some a \<Rightarrow> show_nat (length a) @ a | None \<Rightarrow> ''n'')
     @ show_nat (length (cr_name c)) @ cr_name c"
| "mangle (TFloat f) = float_name f"
| "mangle TPlatformString = ''st''"
| "mangle TPlatformChar = ''c''"
| "mangle (TPlatformGeneric arg kind) =
     ''g'' @ (case kind of TypeGeneric \<Rightarrow> ''t'' | MethodGeneric \<Rightarrow> ''m'' | CallGeneric \<Rightarrow> ''c'')
     @ show_nat (unat arg)"
| "mangle TPlatformObject = ''o''"
| "mangle TBool = ''b''"
| "mangle TVoid = ''v''"
| "mangle (TPlatformArray t dims) = ''a'' @ show_nat (unat dims) @ mangle t"
| "mangle (TFnPtr (FnSig inputs output)) =
     show_nat (length inputs) @ concat (map mangle inputs) @ mangle output"

fun as_class_ref :: "cil_type \<Rightarrow> class_ref option" where
  "as_class_ref (TClassRef c) = Some c"
| "as_class_ref _ = None"

fun pointed_to :: "cil_type \<Rightarrow> cil_type option" where
  "pointed_to (TPtr t) = Some t"
| "pointed_to (TRef t) = Some t"
| "pointed_to _ = None"

fun as_int :: "cil_type \<Rightarrow> cil_int option" where
  "as_int (TInt i) = Some i"
| "as_int _ = None"

fun as_simdvector :: "cil_type \<Rightarrow> simd_vector option" where
  "as_simdvector (TSIMDVector v) = Some v"
| "as_simdvector _ = None"

fun is_ptr :: "cil_type \<Rightarrow> bool" where
  "is_ptr (TPtr _) = True"
| "is_ptr _ = False"

fun is_platform_generic :: "cil_type \<Rightarrow> bool" where
  "is_platform_generic (TPlatformGeneric _ _) = True"
| "is_platform_generic _ = False"

definition simd_class_eq :: "simd_vector \<Rightarrow> class_ref \<Rightarrow> bool" where
  "simd_class_eq v c =
     (if \<not> cr_valuetype c
        \<or> cr_asm c \<noteq> Some ''System.Runtime.Intrinsics''
        \<or> cr_name c \<noteq> ''System.Runtime.Intrinsics.Vector'' @ show_nat (unat (simd_bits v))
        \<or> length (cr_generics c) \<noteq> 1
      then False
      else hd (cr_generics c) = simd_elem_type (simd_elem_of v) \<or> is_platform_generic (hd (cr_generics c)))"

definition fat_ptr_layout_eq :: "'a assembly_scheme \<Rightarrow> class_ref \<Rightarrow> class_ref \<Rightarrow> bool" where
  "fat_ptr_layout_eq asm lhs rhs =
     (if \<not> (cr_valuetype lhs \<and> cr_valuetype rhs) then False
      else if cr_generics lhs \<noteq> [] \<or> cr_generics rhs \<noteq> [] then False
      else if \<not> (prefix ''FatPtr'' (cr_name lhs) \<and> prefix ''FatPtr'' (cr_name rhs)) then False
      else case (class_defs asm lhs, class_defs asm rhs) of
        (Some ldef, Some rdef) \<Rightarrow>
          cd_explicit_size ldef = cd_explicit_size rdef \<and> cd_align ldef = cd_align rdef
          \<and> cd_fields ldef = cd_fields rdef
      | _ \<Rightarrow> True)"

definition is_bcl_named :: "bool \<Rightarrow> string \<Rightarrow> class_ref \<Rightarrow> bool" where
  "is_bcl_named valuetype name c \<longleftrightarrow>
     cr_valuetype c = valuetype \<and> cr_asm c = Some ''System.Runtime'' \<and> cr_name c = name"

definition same_open :: "class_ref \<Rightarrow> class_ref \<Rightarrow> bool" where
  "same_open l r \<longleftrightarrow> cr_name l = cr_name r \<and> cr_asm l = cr_asm r \<and> cr_valuetype l = cr_valuetype r
     \<and> cr_generics l \<noteq> [] \<and> length (cr_generics l) = length (cr_generics r)"

lemma size_generic_less [termination_simp]:
  "(x, y) \<in> set (zip (cr_generics c) ys) \<Longrightarrow> size x < Suc (size c)"
proof -
  assume "(x, y) \<in> set (zip (cr_generics c) ys)"
  then have "x \<in> set (cr_generics c)" by (rule set_zip_leftD)
  then have "size x \<le> size_list size (cr_generics c)"
    by (rule size_list_estimation') simp
  then show ?thesis by (cases c) simp
qed

fun is_assignable_to :: "'a assembly_scheme \<Rightarrow> cil_type \<Rightarrow> cil_type \<Rightarrow> bool" where
  "is_assignable_to asm self to =
     (if self = to then True
      else case self of
        TClassRef c \<Rightarrow>
          (case to of
             TPlatformObject \<Rightarrow> \<not> cr_valuetype c
           | TPlatformString \<Rightarrow> is_bcl_named False ''System.String'' c
           | TInt I128 \<Rightarrow> is_bcl_named True ''System.Int128'' c
           | TInt U128 \<Rightarrow> is_bcl_named True ''System.UInt128'' c
           | TSIMDVector v \<Rightarrow> simd_class_eq v c
           | TClassRef d \<Rightarrow>
               if fat_ptr_layout_eq asm c d then True
               else if same_open c d
               then list_all (\<lambda>(a, b). is_assignable_to asm a b) (zip (cr_generics c) (cr_generics d))
               else False
           | TPlatformGeneric _ _ \<Rightarrow> True
           | _ \<Rightarrow> False)
      | TPlatformObject \<Rightarrow>
          (case to of
             TClassRef c \<Rightarrow> \<not> cr_valuetype c \<and> cr_name c = ''System.Object''
           | TPlatformGeneric _ _ \<Rightarrow> True
           | _ \<Rightarrow> False)
      | TPlatformString \<Rightarrow>
          (case to of
             TClassRef c \<Rightarrow> is_bcl_named False ''System.String'' c
           | TPlatformObject \<Rightarrow> True
           | TPlatformGeneric _ _ \<Rightarrow> True
           | _ \<Rightarrow> False)
      | TInt i \<Rightarrow>
          (case to of
             TClassRef c \<Rightarrow>
               if i = I128 then is_bcl_named True ''System.Int128'' c
               else if i = U128 then is_bcl_named True ''System.UInt128'' c
               else False
           | TPlatformChar \<Rightarrow> i = U16 \<or> i = I16
           | TPlatformGeneric _ _ \<Rightarrow> True
           | _ \<Rightarrow> False)
      | TSIMDVector v \<Rightarrow>
          (case to of
             TClassRef c \<Rightarrow> simd_class_eq v c
           | TPlatformGeneric _ _ \<Rightarrow> True
           | _ \<Rightarrow> False)
      | TPtr a \<Rightarrow>
          (case to of
             TPtr b \<Rightarrow>
               if is_platform_generic a \<or> is_platform_generic b then is_assignable_to asm a b else False
           | TRef b \<Rightarrow>
               if is_platform_generic a \<or> is_platform_generic b then is_assignable_to asm a b else a = b
           | TPlatformGeneric _ _ \<Rightarrow> True
           | _ \<Rightarrow> False)
      | TRef a \<Rightarrow>
          (case to of
             TPtr b \<Rightarrow>
               if is_platform_generic a \<or> is_platform_generic b then is_assignable_to asm a b else False
           | TRef b \<Rightarrow>
               if is_platform_generic a \<or> is_platform_generic b then is_assignable_to asm a b else False
           | TPlatformGeneric _ _ \<Rightarrow> True
           | _ \<Rightarrow> False)
      | TPlatformArray a da \<Rightarrow>
          (case to of
             TPlatformArray b db \<Rightarrow> if da = db then is_assignable_to asm a b else False
           | TPlatformObject \<Rightarrow> True
           | TPlatformGeneric _ _ \<Rightarrow> True
           | _ \<Rightarrow> False)
      | TPlatformGeneric _ _ \<Rightarrow> True
      | _ \<Rightarrow> is_platform_generic to)"

declare is_assignable_to.simps [simp del]

section \<open>Layout of overlapping fields\<close>

text \<open>
  \<^verbatim>\<open>layout_check\<close> groups the fields by their offset in a \<^verbatim>\<open>HashMap\<close> and walks its values in
  an unspecified order; \<open>order\<close> is that order, a permutation of the offsets present.
\<close>

datatype layout_error = ManagedRefInOverlapingField string string string

fun layout_group_offsets ::
  "'a assembly_scheme \<Rightarrow> class_def \<Rightarrow> field_def list \<Rightarrow> (u32 \<Rightarrow> (cil_type \<times> string) list)
     \<Rightarrow> (layout_error, u32 \<Rightarrow> (cil_type \<times> string) list) result" where
  "layout_group_offsets asm cd [] by_offset = Inr by_offset"
| "layout_group_offsets asm cd ((t, name, offset) # fs) by_offset =
     (case offset of
        None \<Rightarrow> if contains_gcref asm t
                then Inl (ManagedRefInOverlapingField (cd_name cd) (mangle t) name)
                else layout_group_offsets asm cd fs by_offset
      | Some off \<Rightarrow> layout_group_offsets asm cd fs (by_offset(off := by_offset off @ [(t, name)])))"

definition layout_group_check ::
  "'a assembly_scheme \<Rightarrow> class_def \<Rightarrow> (cil_type \<times> string) list \<Rightarrow> (layout_error, unit) result" where
  "layout_group_check asm cd grp =
     (if \<not> list_ex (\<lambda>(t, _). contains_gcref asm t) grp then Inr ()
      else case filter (\<lambda>(t, _). t \<noteq> fst (hd grp)) grp of
        [] \<Rightarrow> Inr ()
      | (t, name) # _ \<Rightarrow> Inl (ManagedRefInOverlapingField (cd_name cd) (mangle t) name))"

fun layout_check_groups ::
  "'a assembly_scheme \<Rightarrow> class_def \<Rightarrow> (u32 \<Rightarrow> (cil_type \<times> string) list) \<Rightarrow> u32 list
     \<Rightarrow> (layout_error, unit) result" where
  "layout_check_groups asm cd by_offset [] = Inr ()"
| "layout_check_groups asm cd by_offset (off # offs) =
     rbind (layout_group_check asm cd (by_offset off)) (\<lambda>_. layout_check_groups asm cd by_offset offs)"

definition layout_check ::
  "u32 list \<Rightarrow> 'a assembly_scheme \<Rightarrow> class_def \<Rightarrow> (layout_error, unit) result" where
  "layout_check order asm cd =
     (if cd_nonoverlapping cd then Inr ()
      else rbind (layout_group_offsets asm cd (cd_fields cd) (\<lambda>_. [])) (\<lambda>by_offset.
             layout_check_groups asm cd by_offset order))"


section \<open>Integers and vectors\<close>

text \<open>
  \<^verbatim>\<open>Int::promoted\<close> doubles the width and keeps the sign of every integer of at most 64 bits, a
  pointer-sized one counting as 64. For the two 128-bit types it is meant to return \<open>None\<close>, but
  the guard compares the size in bytes with 128, so the call panics in \<open>from_size_sign\<close>.
\<close>

theorem promoted_doubles:
  "promoted i =
     (if i = U128 \<or> i = I128 then Inl (UnknownIntSize 32)
      else Inr (Some (if is_signed i
             then (if as_unsigned i = U8 then I16 else if as_unsigned i = U16 then I32
                   else if as_unsigned i = U32 then I64 else I128)
             else (if i = U8 then U16 else if i = U16 then U32 else if i = U32 then U64 else U128))))"
  by (cases i) (simp_all add: promoted_def from_size_sign_def)

lemma unat_le_255: "unat (w :: u8) \<le> 255"
  using unat_u8_lt [of w] by linarith

lemma simd_elem_bits_le: "unat (simd_elem_bits e) \<le> 128"
proof (cases e)
  case (SIMDInt i)
  then show ?thesis by (cases i) (simp_all add: int_bits_def)
next
  case (SIMDFloat f)
  then show ?thesis by (cases f) (simp_all add: float_bits_def)
qed

lemma take_bit_u8 [simp]: "take_bit 16 (unat (w :: u8)) = unat w"
  by (rule take_bit_nat_eq_self) (use order.strict_trans [OF unat_u8_lt, of 65536 w] in simp)

lemma unat_simd_bits: "unat (simd_bits v) = unat (simd_elem_bits (simd_elem_of v)) * unat (simd_count v)"
proof -
  have "unat (simd_elem_bits (simd_elem_of v)) * unat (simd_count v) \<le> 128 * 255"
    by (intro mult_le_mono simd_elem_bits_le unat_le_255)
  then show ?thesis by (simp add: simd_bits_def unat_word_ariths unsigned_ucast_eq)
qed

text \<open>
  \<^verbatim>\<open>SIMDVector::new\<close> accepts exactly the vectors whose true width, element bits times lane
  count, is 64, 128, 256 or 512: the 16-bit product in \<^verbatim>\<open>bits\<close> never wraps.
\<close>

theorem simd_new_width:
  "simd_new e n =
     (if unat (simd_elem_bits e) * unat n \<in> {64, 128, 256, 512}
      then Inr (MkSIMDVector e n)
      else Inl (UnsupportedVector (word_of_nat (unat (simd_elem_bits e) * unat n))))"
proof -
  have "unat (simd_elem_bits e) * unat n = unat (simd_bits (MkSIMDVector e n))"
    by (simp add: unat_simd_bits)
  then show ?thesis by (simp add: simd_new_def Let_def word_unat_eq_iff)
qed

section \<open>Name mangling\<close>

text \<open>The types whose mangled name is built from their own name or a pointer prefix.\<close>

fun plainly_mangled :: "cil_type \<Rightarrow> bool" where
  "plainly_mangled (TPtr t) = plainly_mangled t"
| "plainly_mangled (TRef t) = plainly_mangled t"
| "plainly_mangled (TClassRef _) = False"
| "plainly_mangled (TPlatformArray _ _) = False"
| "plainly_mangled (TFnPtr _) = False"
| "plainly_mangled _ = True"

lemma int_name_eq_iff [simp]: "int_name i = int_name j \<longleftrightarrow> i = j"
  by (cases i; cases j) simp_all

lemma float_name_eq_iff [simp]: "float_name i = float_name j \<longleftrightarrow> i = j"
  by (cases i; cases j) simp_all

lemma int_float_name: "int_name i @ CHR ''_'' # x \<noteq> float_name f @ CHR ''_'' # y"
  by (cases i; cases f) simp_all

lemma int_name_underscore: "int_name i @ CHR ''_'' # x = int_name j @ CHR ''_'' # y \<longleftrightarrow> i = j \<and> x = y"
  by (cases i; cases j) simp_all

lemma float_name_underscore: "float_name i @ CHR ''_'' # x = float_name j @ CHR ''_'' # y \<longleftrightarrow> i = j \<and> x = y"
  by (cases i; cases j) simp_all

lemma simd_name_eq_iff [simp]: "simd_name v = simd_name w \<longleftrightarrow> v = w"
  by (cases v; cases w)
    (auto simp: simd_name_def int_float_name int_float_name [symmetric] int_name_underscore
      float_name_underscore word_unat_eq_iff split: simd_elem.splits)

text \<open>The constructor of a plainly mangled type can be read off the first characters of its name.\<close>

fun mangle_tag :: "cil_type \<Rightarrow> nat" where
  "mangle_tag (TPtr _) = 0" | "mangle_tag (TRef _) = 1" | "mangle_tag (TInt i) = 2"
| "mangle_tag (TFloat _) = 3" | "mangle_tag TPlatformString = 4" | "mangle_tag TPlatformChar = 5"
| "mangle_tag (TPlatformGeneric _ _) = 6" | "mangle_tag TPlatformObject = 7"
| "mangle_tag TBool = 8" | "mangle_tag TVoid = 9" | "mangle_tag (TSIMDVector _) = 10"
| "mangle_tag _ = 11"

definition name_tag :: "string \<Rightarrow> nat" where
  "name_tag s =
     (let c = hd s in
      if c = CHR ''p'' then 0 else if c = CHR ''r'' then 1
      else if c = CHR ''u'' \<or> c = CHR ''i'' then 2 else if c = CHR ''f'' then 3
      else if c = CHR ''s'' then (if hd (tl s) = CHR ''t'' then 4 else 10)
      else if c = CHR ''c'' then 5 else if c = CHR ''g'' then 6 else if c = CHR ''o'' then 7
      else if c = CHR ''b'' then 8 else 9)"

lemma name_tag_int_name: "name_tag (int_name i) = 2"
  by (cases i) (simp_all add: name_tag_def)

lemma name_tag_float_name: "name_tag (float_name f) = 3"
  by (cases f) (simp_all add: name_tag_def)

lemma name_tag_simd_name: "name_tag (simd_name v) = 10"
  by (simp add: name_tag_def simd_name_def)

lemma mangle_tag_eq: "plainly_mangled t \<Longrightarrow> mangle_tag t = name_tag (mangle t)"
  by (cases t)
    (simp_all add: name_tag_int_name name_tag_float_name name_tag_simd_name, simp_all add: name_tag_def)

lemma generic_kind_eq_iff [simp]:
  "(case k of TypeGeneric \<Rightarrow> ''t'' | MethodGeneric \<Rightarrow> ''m'' | CallGeneric \<Rightarrow> ''c'') @ x =
   (case l of TypeGeneric \<Rightarrow> ''t'' | MethodGeneric \<Rightarrow> ''m'' | CallGeneric \<Rightarrow> ''c'') @ y \<longleftrightarrow> k = l \<and> x = y"
  by (cases k; cases l) simp_all

lemma mangle_step:
  assumes "plainly_mangled t" "plainly_mangled u" "mangle t = mangle u"
  shows "t = u \<or> (\<exists>a b. mangle a = mangle b \<and> (t = TPtr a \<and> u = TPtr b \<or> t = TRef a \<and> u = TRef b))"
proof -
  have "mangle_tag t = mangle_tag u" using assms by (simp add: mangle_tag_eq)
  from this assms show ?thesis
    by (cases t; cases u) (simp_all, metis word_unat_eq_iff)
qed

text \<open>
  Mangled names identify types: within the fragment of pointers, references, numbers, vectors,
  generic parameters and the built-in types, \<^verbatim>\<open>Type::mangle\<close> is injective, so two methods whose
  mangled signatures agree there agree in their types.
\<close>

theorem mangle_injective:
  assumes "plainly_mangled t" "plainly_mangled u" "mangle t = mangle u"
  shows "t = u"
  using assms
proof (induction t arbitrary: u rule: plainly_mangled.induct)
  case (1 t)
  from mangle_step [OF 1(2-4)] obtain b where "u = TPtr b" "mangle t = mangle b" by auto
  then show ?case using 1(1) [of b] 1(2,3) by simp
next
  case (2 t)
  from mangle_step [OF 2(2-4)] obtain b where "u = TRef b" "mangle t = mangle b" by auto
  then show ?case using 2(1) [of b] 2(2,3) by simp
qed (drule (2) mangle_step, simp)+

theorem mangle_injective_witness:
  "plainly_mangled (TPtr (TRef (TInt I32))) \<and> plainly_mangled (TRef (TPtr (TInt I32))) \<and>
   mangle (TPtr (TRef (TInt I32))) \<noteq> mangle (TRef (TPtr (TInt I32)))"
  using mangle_injective [of "TPtr (TRef (TInt I32))" "TRef (TPtr (TInt I32))"] by auto

section \<open>Managed references inside value types\<close>

text \<open>A managed reference is stored in a value of type \<open>t\<close>, directly or in a nested value-type field.\<close>

inductive holds_gcref :: "'a assembly_scheme \<Rightarrow> cil_type \<Rightarrow> bool" for asm where
  holds_gcref_direct: "is_gcref t \<Longrightarrow> holds_gcref asm t"
| holds_gcref_field: "cr_valuetype c \<Longrightarrow> class_defs asm c = Some cd \<Longrightarrow> fd \<in> set (cd_fields cd)
    \<Longrightarrow> holds_gcref asm (fst fd) \<Longrightarrow> holds_gcref asm (TClassRef c)"

lemma contains_gcref_impl_class:
  "contains_gcref_impl asm depth (TClassRef c) \<longleftrightarrow>
     64 < depth \<or> \<not> cr_valuetype c \<or>
     (\<exists>cd. class_defs asm c = Some cd \<and> (\<exists>fd\<in>set (cd_fields cd). contains_gcref_impl asm (Suc depth) (fst fd)))"
  by (subst contains_gcref_impl.simps) (auto simp: list_ex_iff split: option.splits)

lemma contains_gcref_impl_other:
  "as_class_ref t = None \<Longrightarrow> contains_gcref_impl asm depth t \<longleftrightarrow> 64 < depth \<or> is_gcref t"
  by (cases t) (simp_all add: contains_gcref_impl.simps)

lemma is_gcref_contains_gcref_impl: "is_gcref t \<Longrightarrow> contains_gcref_impl asm depth t"
  by (cases t) (simp_all add: contains_gcref_impl.simps)

lemma contains_gcref_impl_complete:
  "holds_gcref asm t \<Longrightarrow> contains_gcref_impl asm depth t"
proof (induction arbitrary: depth rule: holds_gcref.induct)
  case (holds_gcref_field c cd fd)
  then show ?case
    by (subst contains_gcref_impl.simps) (auto simp: list_ex_iff)
qed (rule is_gcref_contains_gcref_impl)

text \<open>Types whose value-type nesting is at most \<open>n\<close> levels deep, the well-founded case.\<close>

fun nested_within :: "'a assembly_scheme \<Rightarrow> nat \<Rightarrow> cil_type \<Rightarrow> bool" where
  "nested_within asm n (TClassRef c) =
     (\<not> cr_valuetype c \<or>
      (case class_defs asm c of
         None \<Rightarrow> True
       | Some cd \<Rightarrow> (case n of 0 \<Rightarrow> False | Suc m \<Rightarrow> \<forall>fd\<in>set (cd_fields cd). nested_within asm m (fst fd))))"
| "nested_within asm n t = True"

lemma contains_gcref_impl_exact:
  "nested_within asm n t \<Longrightarrow> depth + n \<le> 64 \<Longrightarrow> contains_gcref_impl asm depth t \<Longrightarrow> holds_gcref asm t"
proof (induction n arbitrary: t depth)
  case (Suc n)
  show ?case
  proof (cases "as_class_ref t")
    case None
    with Suc.prems show ?thesis by (simp add: contains_gcref_impl_other holds_gcref_direct)
  next
    case (Some c)
    then have t: "t = TClassRef c" by (cases t) simp_all
    show ?thesis
    proof (cases "cr_valuetype c")
      case True
      with Suc.prems t obtain cd fd where f: "class_defs asm c = Some cd" "fd \<in> set (cd_fields cd)"
        "contains_gcref_impl asm (Suc depth) (fst fd)" "nested_within asm n (fst fd)"
        by (fastforce simp: contains_gcref_impl_class)
      then have "holds_gcref asm (fst fd)" using Suc.IH [of "fst fd" "Suc depth"] Suc.prems(2) by simp
      with f True t show ?thesis by (auto intro: holds_gcref_field)
    qed (simp add: t holds_gcref_direct)
  qed
next
  case 0
  then show ?case
    by (cases t) (auto simp: contains_gcref_impl_class contains_gcref_impl_other intro: holds_gcref_direct
        split: option.splits)
qed

lemma contains_gcref_sound_parts:
  "holds_gcref asm t \<Longrightarrow> contains_gcref asm t"
  "nested_within asm 64 t \<Longrightarrow> contains_gcref asm t \<longleftrightarrow> holds_gcref asm t"
  using contains_gcref_impl_complete contains_gcref_impl_exact [of asm 64 t 0]
  by (auto simp: contains_gcref_def)


text \<open>
  C31. \<^verbatim>\<open>contains_gcref\<close> never misses a managed reference: it answers true for every type that holds
  one at any depth, cyclic type graphs included. It answers exactly that for types nested at most
  64 levels, the bound of its recursion.
\<close>

theorem contains_gcref_sound:
  "(holds_gcref asm t \<longrightarrow> contains_gcref asm t) \<and>
   (nested_within asm 64 t \<longrightarrow> (contains_gcref asm t \<longleftrightarrow> holds_gcref asm t))"
  using contains_gcref_sound_parts by blast

definition gc_struct :: class_ref where
  "gc_struct = ClassRef ''TaskFuture'' None True []"

definition gc_struct_asm :: assembly where
  "gc_struct_asm = \<lparr>class_defs = [gc_struct \<mapsto>
     \<lparr>cd_name = ''TaskFuture'', cd_fields = [(TInt I32, ''poll'', None), (TPlatformObject, ''task'', None)],
      cd_explicit_size = None, cd_align = None, cd_nonoverlapping = True, cd_generics = 0\<rparr>]\<rparr>"

theorem contains_gcref_sound_witness:
  "\<not> is_gcref (TClassRef gc_struct) \<and> contains_gcref gc_struct_asm (TClassRef gc_struct)"
proof
  have "holds_gcref gc_struct_asm (TClassRef gc_struct)"
    by (rule holds_gcref_field [OF _ _ _ holds_gcref_direct, of _ _ _ "(TPlatformObject, ''task'', None)"])
      (simp add: gc_struct_def, simp add: gc_struct_asm_def, simp_all)
  then show "contains_gcref gc_struct_asm (TClassRef gc_struct)" by (rule contains_gcref_sound [THEN conjunct1, rule_format])
qed (simp add: gc_struct_def)

section \<open>Assignability\<close>

lemma is_assignable_to_refl [simp]: "is_assignable_to asm t t"
  by (subst is_assignable_to.simps) simp

lemma simd_class_eq_valuetype: "simd_class_eq v c \<Longrightarrow> cr_valuetype c"
  by (simp add: simd_class_eq_def split: if_splits)

lemma fat_ptr_layout_eq_valuetype: "fat_ptr_layout_eq asm l r \<Longrightarrow> cr_valuetype l \<and> cr_valuetype r"
  by (simp add: fat_ptr_layout_eq_def split: if_splits)

lemma assignable_representation_parts:
  assumes "is_assignable_to asm t u" "\<not> is_platform_generic t" "\<not> is_platform_generic u"
  shows "is_gcref t = is_gcref u"
    and "t = TPlatformObject \<Longrightarrow>
      u = TPlatformObject \<or> (\<exists>c. u = TClassRef c \<and> \<not> cr_valuetype c \<and> cr_name c = ''System.Object'')"
proof -
  note a = assms(1) [unfolded is_assignable_to.simps [of asm t u]]
  show "is_gcref t = is_gcref u"
    using a assms(2,3) simd_class_eq_valuetype fat_ptr_layout_eq_valuetype
    by (cases "t = u"; cases t; cases u)
      (auto simp: is_bcl_named_def same_open_def split: if_splits cil_int.splits)
  show "t = TPlatformObject \<Longrightarrow>
      u = TPlatformObject \<or> (\<exists>c. u = TClassRef c \<and> \<not> cr_valuetype c \<and> cr_name c = ''System.Object'')"
    using a assms(2,3) by (cases u) auto
qed

text \<open>
  C32. Assignability never confuses representations: apart from the generic markers, which stand for
  any type, a type is assignable only to types that agree with it on being a managed reference. In
  particular \<^verbatim>\<open>object\<close> converts implicitly to itself and to class references named
  \<^verbatim>\<open>System.Object\<close> only, never to another class.
\<close>

theorem assignable_representation:
  assumes "is_assignable_to asm t u" "\<not> is_platform_generic t" "\<not> is_platform_generic u"
  shows "is_gcref t = is_gcref u \<and>
    (t = TPlatformObject \<longrightarrow>
      u = TPlatformObject \<or> (\<exists>c. u = TClassRef c \<and> \<not> cr_valuetype c \<and> cr_name c = ''System.Object''))"
  using assignable_representation_parts [OF assms] by blast

theorem assignable_representation_witness:
  "is_assignable_to gc_struct_asm (TPlatformArray (TInt U8) 1) TPlatformObject \<and> is_gcref (TPlatformArray (TInt U8) 1) = is_gcref TPlatformObject"
proof
  show a: "is_assignable_to gc_struct_asm (TPlatformArray (TInt U8) 1) TPlatformObject"
    by (simp add: is_assignable_to.simps)
  show "is_gcref (TPlatformArray (TInt U8) 1) = is_gcref TPlatformObject"
    by (rule assignable_representation [OF a, THEN conjunct1]) simp_all
qed

section \<open>Overlapping layouts\<close>

lemma layout_group_offsets_ok:
  "\<forall>x\<in>set fs. snd (snd x) = None \<longrightarrow> \<not> contains_gcref asm (fst x) \<Longrightarrow>
   layout_group_offsets asm cd fs g =
      Inr (\<lambda>off. g off @ map (\<lambda>(t, n, _). (t, n)) (filter (\<lambda>(t, n, o'). o' = Some off) fs))"
proof (induction asm cd fs g rule: layout_group_offsets.induct)
  case (2 asm cd t name offset fs by_offset)
  then show ?case by (cases offset) (simp_all add: fun_upd_def fun_eq_iff)
qed simp

lemma layout_group_offsets_err:
  "\<exists>x\<in>set fs. snd (snd x) = None \<and> contains_gcref asm (fst x) \<Longrightarrow> \<exists>e. layout_group_offsets asm cd fs g = Inl e"
proof (induction asm cd fs g rule: layout_group_offsets.induct)
  case (2 asm cd t name offset fs by_offset)
  then show ?case by (cases offset) (auto simp: fun_upd_def)
qed simp

lemma layout_group_check_ok:
  "layout_group_check asm cd grp = Inr () \<longleftrightarrow>
     (\<forall>x\<in>set grp. contains_gcref asm (fst x) \<longrightarrow> (\<forall>y\<in>set grp. fst y = fst x))"
proof (cases grp)
  case (Cons x xs)
  have "layout_group_check asm cd grp = Inr () \<longleftrightarrow>
      \<not> (\<exists>y\<in>set grp. contains_gcref asm (fst y)) \<or> filter (\<lambda>y. fst y \<noteq> fst x) grp = []"
    unfolding layout_group_check_def list_ex_iff case_prod_unfold
    by (auto simp: Cons split: list.splits)
  also have "filter (\<lambda>y. fst y \<noteq> fst x) grp = [] \<longleftrightarrow> (\<forall>y\<in>set grp. fst y = fst x)"
    by (simp add: filter_empty_conv)
  finally show ?thesis using Cons by (metis list.set_intros(1))
qed (simp add: layout_group_check_def)

lemma layout_check_groups_ok:
  "layout_check_groups asm cd g offs = Inr () \<longleftrightarrow> (\<forall>off\<in>set offs. layout_group_check asm cd (g off) = Inr ())"
  by (induction offs) (auto simp: rbind_eq_Inr)

definition field_offsets :: "class_def \<Rightarrow> u32 set" where
  "field_offsets cd = {off. \<exists>t n. (t, n, Some off) \<in> set (cd_fields cd)}"

lemma layout_groups_pairwise:
  fixes asm :: "'a assembly_scheme" and cd
  defines "g \<equiv> \<lambda>off. map (\<lambda>(t, n, _). (t, n)) (filter (\<lambda>(t, n, o'). o' = Some off) (cd_fields cd))"
  assumes "set order = field_offsets cd"
  shows "(\<forall>off\<in>set order. layout_group_check asm cd (g off) = Inr ()) \<longleftrightarrow>
    (\<forall>(t, n, off)\<in>set (cd_fields cd). \<forall>(u, m, off')\<in>set (cd_fields cd).
        off = off' \<and> off \<noteq> None \<and> contains_gcref asm t \<longrightarrow> u = t)"
  unfolding layout_group_check_ok assms field_offsets_def by fastforce

text \<open>
  \<^verbatim>\<open>layout_check\<close> accepts a class with overlapping storage exactly when no field without an
  offset can hold a managed reference and, wherever a field that can hold one starts, all fields
  starting at the same offset have the very same type. The verdict does not depend on the order in
  which the hash map yields its groups.
\<close>

theorem layout_check_accepts:
  assumes "set order = field_offsets cd"
  shows "layout_check order asm cd = Inr () \<longleftrightarrow>
    cd_nonoverlapping cd \<or>
    ((\<forall>(t, n, off)\<in>set (cd_fields cd). off = None \<longrightarrow> \<not> contains_gcref asm t) \<and>
     (\<forall>(t, n, off)\<in>set (cd_fields cd). \<forall>(u, m, off')\<in>set (cd_fields cd).
        off = off' \<and> off \<noteq> None \<and> contains_gcref asm t \<longrightarrow> u = t))"
proof (cases "\<exists>x\<in>set (cd_fields cd). snd (snd x) = None \<and> contains_gcref asm (fst x)")
  case True
  then show ?thesis
    using layout_group_offsets_err [OF True, of cd "\<lambda>_. []"] by (auto simp: layout_check_def)
next
  case False
  then have "layout_group_offsets asm cd (cd_fields cd) (\<lambda>_. []) =
      Inr (\<lambda>off. map (\<lambda>(t, n, _). (t, n)) (filter (\<lambda>(t, n, o'). o' = Some off) (cd_fields cd)))"
    by (subst layout_group_offsets_ok) auto
  moreover have "\<forall>(t, n, off)\<in>set (cd_fields cd). off = None \<longrightarrow> \<not> contains_gcref asm t"
    using False by auto
  ultimately show ?thesis
    using layout_groups_pairwise [OF assms, of asm]
    by (simp add: layout_check_def layout_check_groups_ok)
qed

definition union_class :: class_def where
  "union_class = \<lparr>cd_name = ''Union'', cd_fields = [(TPlatformObject, ''a'', Some 0), (TInt U64, ''b'', Some 0)],
     cd_explicit_size = Some 8, cd_align = None, cd_nonoverlapping = False, cd_generics = 0\<rparr>"

theorem layout_check_accepts_witness:
  "set [0] = field_offsets union_class \<and> layout_check [0] gc_struct_asm union_class \<noteq> Inr ()"
proof
  show o: "set [0] = field_offsets union_class" by (auto simp: field_offsets_def union_class_def)
  show "layout_check [0] gc_struct_asm union_class \<noteq> Inr ()"
    unfolding layout_check_accepts [OF o]
    by (simp add: union_class_def contains_gcref_def contains_gcref_impl_other)
qed

end
