(* ===== verification/SigBlob.thy ===== *)
theory SigBlob
  imports Heaps CilTypes
begin

text \<open>
  The signature blobs of \<^verbatim>\<open>cilly/src/ir/pe_exporter/sig.rs\<close>. The encoder is parameterised, as the
  code is, over the resolver that yields a \<open>TypeDefOrRef\<close> coded index for a class reference
  and may add metadata rows while doing so; its state is threaded through. What the encoder needs
  of a resolver is the locale \<open>type_resolver\<close>: the index handed out for a class reference never
  changes afterwards. Theory \<open>MetaTables\<close> interprets it on the metadata builder. The reference is
  the decoder of ECMA-335 II.23.2, and the blobs are shown to decode to the lowered type.
\<close>

section \<open>Constants\<close>

abbreviation (input) ET_VOID :: u8 where "ET_VOID \<equiv> 0x01"
abbreviation (input) ET_BOOLEAN :: u8 where "ET_BOOLEAN \<equiv> 0x02"
abbreviation (input) ET_CHAR :: u8 where "ET_CHAR \<equiv> 0x03"
abbreviation (input) ET_I1 :: u8 where "ET_I1 \<equiv> 0x04"
abbreviation (input) ET_U1 :: u8 where "ET_U1 \<equiv> 0x05"
abbreviation (input) ET_I2 :: u8 where "ET_I2 \<equiv> 0x06"
abbreviation (input) ET_U2 :: u8 where "ET_U2 \<equiv> 0x07"
abbreviation (input) ET_I4 :: u8 where "ET_I4 \<equiv> 0x08"
abbreviation (input) ET_U4 :: u8 where "ET_U4 \<equiv> 0x09"
abbreviation (input) ET_I8 :: u8 where "ET_I8 \<equiv> 0x0A"
abbreviation (input) ET_U8 :: u8 where "ET_U8 \<equiv> 0x0B"
abbreviation (input) ET_R4 :: u8 where "ET_R4 \<equiv> 0x0C"
abbreviation (input) ET_R8 :: u8 where "ET_R8 \<equiv> 0x0D"
abbreviation (input) ET_STRING :: u8 where "ET_STRING \<equiv> 0x0E"
abbreviation (input) ET_PTR :: u8 where "ET_PTR \<equiv> 0x0F"
abbreviation (input) ET_BYREF :: u8 where "ET_BYREF \<equiv> 0x10"
abbreviation (input) ET_VALUETYPE :: u8 where "ET_VALUETYPE \<equiv> 0x11"
abbreviation (input) ET_CLASS :: u8 where "ET_CLASS \<equiv> 0x12"
abbreviation (input) ET_VAR :: u8 where "ET_VAR \<equiv> 0x13"
abbreviation (input) ET_ARRAY :: u8 where "ET_ARRAY \<equiv> 0x14"
abbreviation (input) ET_GENERICINST :: u8 where "ET_GENERICINST \<equiv> 0x15"
abbreviation (input) ET_I :: u8 where "ET_I \<equiv> 0x18"
abbreviation (input) ET_U :: u8 where "ET_U \<equiv> 0x19"
abbreviation (input) ET_FNPTR :: u8 where "ET_FNPTR \<equiv> 0x1B"
abbreviation (input) ET_OBJECT :: u8 where "ET_OBJECT \<equiv> 0x1C"
abbreviation (input) ET_SZARRAY :: u8 where "ET_SZARRAY \<equiv> 0x1D"
abbreviation (input) ET_MVAR :: u8 where "ET_MVAR \<equiv> 0x1E"

abbreviation (input) SIG_HASTHIS :: u8 where "SIG_HASTHIS \<equiv> 0x20"
abbreviation (input) SIG_GENERIC :: u8 where "SIG_GENERIC \<equiv> 0x10"
abbreviation (input) SIG_DEFAULT :: u8 where "SIG_DEFAULT \<equiv> 0x00"
abbreviation (input) SIG_FIELD :: u8 where "SIG_FIELD \<equiv> 0x06"
abbreviation (input) SIG_LOCALS :: u8 where "SIG_LOCALS \<equiv> 0x07"
abbreviation (input) SIG_PROPERTY :: u8 where "SIG_PROPERTY \<equiv> 0x08"
abbreviation (input) SIG_GENERICINST_METHOD :: u8 where "SIG_GENERICINST_METHOD \<equiv> 0x0A"

datatype sig_panic = SigCompressed | SigCount | SigResolver | SigGenericCount

type_synonym 'r resolver = "class_ref \<Rightarrow> 'r \<Rightarrow> (sig_panic, u32 \<times> 'r) result"

definition put_u32 :: "u8 list \<Rightarrow> u32 \<Rightarrow> (sig_panic, u8 list) result" where
  "put_u32 out v = map_sum (\<lambda>_. SigCompressed) id (write_compressed_u32 out v)"

text \<open>\<^verbatim>\<open>u32::try_from(n).unwrap()\<close> followed by \<^verbatim>\<open>write_compressed_u32\<close>.\<close>

definition put_count :: "u8 list \<Rightarrow> nat \<Rightarrow> (sig_panic, u8 list) result" where
  "put_count out n = (if n < 2 ^ 32 then put_u32 out (word_of_nat n) else Inl SigCount)"

definition rust_void :: class_ref where
  "rust_void = ClassRef ''RustVoid'' None True []"

definition f128_class :: class_ref where
  "f128_class = ClassRef ''f128'' None True []"

text \<open>
  The encoder's recursion is not structural: a vector is encoded through the class reference built
  for it. The weight counts a vector above that class.
\<close>

fun type_weight :: "cil_type \<Rightarrow> nat" and class_weight :: "class_ref \<Rightarrow> nat" and sig_weight :: "fn_sig \<Rightarrow> nat" where
  "type_weight (TPtr t) = Suc (type_weight t)"
| "type_weight (TRef t) = Suc (type_weight t)"
| "type_weight (TClassRef c) = Suc (class_weight c)"
| "type_weight (TPlatformArray t _) = Suc (type_weight t)"
| "type_weight (TFnPtr s) = Suc (sig_weight s)"
| "type_weight (TSIMDVector _) = 20"
| "type_weight _ = 5"
| "class_weight (ClassRef _ _ _ gs) = 2 + sum_list (map (\<lambda>t. Suc (Suc (type_weight t))) gs)"
| "sig_weight (FnSig ins out) = 3 + type_weight out + sum_list (map (\<lambda>t. Suc (Suc (type_weight t))) ins)"

section \<open>The encoder\<close>

lemma type_weight_simd_elem [simp]: "type_weight (simd_elem_type e) = 5"
  by (cases e) simp_all

function (sequential)
  encode_type :: "'r resolver \<Rightarrow> cil_type \<Rightarrow> 'r \<Rightarrow> u8 list \<Rightarrow> (sig_panic, 'r \<times> u8 list) result"
and encode_class :: "'r resolver \<Rightarrow> class_ref \<Rightarrow> bool \<Rightarrow> 'r \<Rightarrow> u8 list \<Rightarrow> (sig_panic, 'r \<times> u8 list) result"
and encode_types :: "'r resolver \<Rightarrow> cil_type list \<Rightarrow> 'r \<Rightarrow> u8 list \<Rightarrow> (sig_panic, 'r \<times> u8 list) result"
and encode_method_sig :: "'r resolver \<Rightarrow> u8 \<Rightarrow> u32 \<Rightarrow> fn_sig \<Rightarrow> 'r \<Rightarrow> u8 list \<Rightarrow> (sig_panic, 'r \<times> u8 list) result"
and encode_non_void_type :: "'r resolver \<Rightarrow> cil_type \<Rightarrow> 'r \<Rightarrow> u8 list \<Rightarrow> (sig_panic, 'r \<times> u8 list) result"
and encode_non_void_types :: "'r resolver \<Rightarrow> cil_type list \<Rightarrow> 'r \<Rightarrow> u8 list \<Rightarrow> (sig_panic, 'r \<times> u8 list) result"
where
  "encode_type res TVoid r out = Inr (r, out @ [ET_VOID])"
| "encode_type res TBool r out = Inr (r, out @ [ET_BOOLEAN])"
| "encode_type res TPlatformChar r out = Inr (r, out @ [ET_CHAR])"
| "encode_type res TPlatformString r out = Inr (r, out @ [ET_STRING])"
| "encode_type res TPlatformObject r out = Inr (r, out @ [ET_OBJECT])"
| "encode_type res (TInt i) r out =
     (case i of
        I8 \<Rightarrow> Inr (r, out @ [ET_I1]) | U8 \<Rightarrow> Inr (r, out @ [ET_U1])
      | I16 \<Rightarrow> Inr (r, out @ [ET_I2]) | U16 \<Rightarrow> Inr (r, out @ [ET_U2])
      | I32 \<Rightarrow> Inr (r, out @ [ET_I4]) | U32 \<Rightarrow> Inr (r, out @ [ET_U4])
      | I64 \<Rightarrow> Inr (r, out @ [ET_I8]) | U64 \<Rightarrow> Inr (r, out @ [ET_U8])
      | ISize \<Rightarrow> Inr (r, out @ [ET_I]) | USize \<Rightarrow> Inr (r, out @ [ET_U])
      | I128 \<Rightarrow> encode_class res (int_class I128) True r out
      | U128 \<Rightarrow> encode_class res (int_class U128) True r out)"
| "encode_type res (TFloat f) r out =
     (case f of
        F32 \<Rightarrow> Inr (r, out @ [ET_R4]) | F64 \<Rightarrow> Inr (r, out @ [ET_R8])
      | F16 \<Rightarrow> encode_class res (bcl_value ''System.Half'') True r out
      | F128 \<Rightarrow> encode_class res f128_class True r out)"
| "encode_type res (TPtr t) r out = encode_type res t r (out @ [ET_PTR])"
| "encode_type res (TRef t) r out = encode_type res t r (out @ [ET_BYREF])"
| "encode_type res (TClassRef c) r out =
     (if \<not> cr_valuetype c \<and> cr_generics c = [] \<and> cr_name c = ''System.Object''
      then Inr (r, out @ [ET_OBJECT])
      else if \<not> cr_valuetype c \<and> cr_generics c = [] \<and> cr_name c = ''System.String''
      then Inr (r, out @ [ET_STRING])
      else encode_class res c (cr_valuetype c) r out)"
| "encode_type res (TPlatformGeneric idx kind) r out =
     rbind (put_u32 (out @ [if kind = CallGeneric then ET_MVAR else ET_VAR]) idx) (\<lambda>out. Inr (r, out))"
| "encode_type res (TPlatformArray elem dims) r out =
     (if dims = 1 then encode_type res elem r (out @ [ET_SZARRAY])
      else rbind (encode_type res elem r (out @ [ET_ARRAY])) (\<lambda>(r, out).
           rbind (put_u32 out (ucast dims)) (\<lambda>out.
           rbind (put_u32 out 0) (\<lambda>out.
           rbind (put_u32 out 0) (\<lambda>out. Inr (r, out))))))"
| "encode_type res (TFnPtr sig) r out = encode_method_sig res SIG_DEFAULT 0 sig r (out @ [ET_FNPTR])"
| "encode_type res (TSIMDVector v) r out = encode_class res (simd_class v) True r out"
| "encode_class res (ClassRef name asm vt generics) is_valuetype r out =
     (let kind = (if is_valuetype then ET_VALUETYPE else ET_CLASS); cref = ClassRef name asm vt generics in
      if generics = [] then
        rbind (res cref r) (\<lambda>(tok, r).
        rbind (put_u32 (out @ [kind]) tok) (\<lambda>out. Inr (r, out)))
      else
        rbind (res cref r) (\<lambda>(tok, r).
        rbind (put_u32 (out @ [ET_GENERICINST, kind]) tok) (\<lambda>out.
        rbind (put_count out (length generics)) (\<lambda>out.
        encode_types res generics r out))))"
| "encode_types res [] r out = Inr (r, out)"
| "encode_types res (t # ts) r out =
     rbind (encode_type res t r out) (\<lambda>(r, out). encode_types res ts r out)"
| "encode_method_sig res convention generic_params (FnSig inputs output) r out =
     (if (convention AND SIG_GENERIC \<noteq> 0) \<noteq> (generic_params \<noteq> 0) then Inl SigGenericCount
      else rbind (if generic_params \<noteq> 0 then put_u32 (out @ [convention]) generic_params
                  else Inr (out @ [convention])) (\<lambda>out.
           rbind (put_count out (length inputs)) (\<lambda>out.
           rbind (encode_type res output r out) (\<lambda>(r, out).
           encode_non_void_types res inputs r out))))"
| "encode_non_void_type res t r out =
     (if t = TVoid then encode_class res rust_void True r out else encode_type res t r out)"
| "encode_non_void_types res [] r out = Inr (r, out)"
| "encode_non_void_types res (t # ts) r out =
     rbind (encode_non_void_type res t r out) (\<lambda>(r, out). encode_non_void_types res ts r out)"
  by pat_completeness auto

termination
  by (relation "measure (\<lambda>x. case x of
        Inl (Inl (_, t, _)) \<Rightarrow> type_weight t
      | Inl (Inr (Inl (_, c, _))) \<Rightarrow> class_weight c
      | Inl (Inr (Inr (_, ts, _))) \<Rightarrow> Suc (sum_list (map (\<lambda>t. Suc (Suc (type_weight t))) ts))
      | Inr (Inl (_, _, _, s, _)) \<Rightarrow> sig_weight s
      | Inr (Inr (Inl (_, t, _))) \<Rightarrow> Suc (type_weight t)
      | Inr (Inr (Inr (_, ts, _))) \<Rightarrow> Suc (sum_list (map (\<lambda>t. Suc (Suc (type_weight t))) ts)))")
    (simp_all add: bcl_value_def f128_class_def rust_void_def simd_class_def)


definition encode_field_sig :: "'r resolver \<Rightarrow> cil_type \<Rightarrow> 'r \<Rightarrow> u8 list \<Rightarrow> (sig_panic, 'r \<times> u8 list) result" where
  "encode_field_sig res t r out = encode_non_void_type res t r (out @ [SIG_FIELD])"

definition encode_property_sig ::
  "'r resolver \<Rightarrow> bool \<Rightarrow> cil_type \<Rightarrow> 'r \<Rightarrow> u8 list \<Rightarrow> (sig_panic, 'r \<times> u8 list) result" where
  "encode_property_sig res has_this t r out =
     (let convention = (if has_this then SIG_PROPERTY OR SIG_HASTHIS else SIG_PROPERTY) in
      rbind (put_u32 (out @ [convention]) 0) (\<lambda>out. encode_type res t r out))"

definition encode_locals_sig ::
  "'r resolver \<Rightarrow> cil_type list \<Rightarrow> 'r \<Rightarrow> u8 list \<Rightarrow> (sig_panic, 'r \<times> u8 list) result" where
  "encode_locals_sig res locals r out =
     rbind (put_count (out @ [SIG_LOCALS]) (length locals)) (\<lambda>out. encode_non_void_types res locals r out)"

definition encode_method_spec_sig ::
  "'r resolver \<Rightarrow> cil_type list \<Rightarrow> 'r \<Rightarrow> u8 list \<Rightarrow> (sig_panic, 'r \<times> u8 list) result" where
  "encode_method_spec_sig res args r out =
     rbind (put_count (out @ [SIG_GENERICINST_METHOD]) (length args)) (\<lambda>out. encode_types res args r out)"

section \<open>The reference decoder\<close>

text \<open>
  The types a signature blob can spell (ECMA-335 II.23.2.12). \<open>SNamed\<close> and \<open>SInst\<close> carry whether
  the type is a value type and its \<open>TypeDefOrRef\<close> coded index.
\<close>

datatype sig_type =
    SPrim u8
  | SPtr sig_type
  | SByRef sig_type
  | SNamed bool u32
  | SInst bool u32 "sig_type list"
  | SVar u32
  | SMVar u32
  | SSzArray sig_type
  | SArray sig_type u32
  | SFnPtr sig_type "sig_type list"

abbreviation sig_prims :: "u8 list" where
  "sig_prims \<equiv> [ET_VOID, ET_BOOLEAN, ET_CHAR, ET_I1, ET_U1, ET_I2, ET_U2, ET_I4, ET_U4, ET_I8, ET_U8,
     ET_R4, ET_R8, ET_STRING, ET_I, ET_U, ET_OBJECT]"

text \<open>
  Recursive descent with fuel: one unit per nesting level, and every level consumes a byte, so the
  length of the input is enough.
\<close>

function (sequential)
  decode_type :: "nat \<Rightarrow> u8 list \<Rightarrow> (sig_type \<times> u8 list) option"
and decode_types :: "nat \<Rightarrow> nat \<Rightarrow> u8 list \<Rightarrow> (sig_type list \<times> u8 list) option"
where
  "decode_type (Suc n) (b # bs) =
     (if b \<in> set sig_prims then Some (SPrim b, bs)
      else if b = ET_PTR then map_option (\<lambda>(t, bs). (SPtr t, bs)) (decode_type n bs)
      else if b = ET_BYREF then map_option (\<lambda>(t, bs). (SByRef t, bs)) (decode_type n bs)
      else if b = ET_SZARRAY then map_option (\<lambda>(t, bs). (SSzArray t, bs)) (decode_type n bs)
      else if b = ET_VALUETYPE \<or> b = ET_CLASS then
        map_option (\<lambda>(v, bs). (SNamed (b = ET_VALUETYPE) v, bs)) (read_compressed_u32 bs)
      else if b = ET_VAR then map_option (\<lambda>(v, bs). (SVar v, bs)) (read_compressed_u32 bs)
      else if b = ET_MVAR then map_option (\<lambda>(v, bs). (SMVar v, bs)) (read_compressed_u32 bs)
      else if b = ET_ARRAY then
        Option.bind (decode_type n bs) (\<lambda>(t, bs).
        Option.bind (read_compressed_u32 bs) (\<lambda>(rank, bs).
        Option.bind (read_compressed_u32 bs) (\<lambda>(sizes, bs).
        Option.bind (read_compressed_u32 bs) (\<lambda>(bounds, bs).
        if sizes = 0 \<and> bounds = 0 then Some (SArray t rank, bs) else None))))
      else if b = ET_GENERICINST then
        (case bs of
           k # bs \<Rightarrow>
             if k = ET_VALUETYPE \<or> k = ET_CLASS then
               Option.bind (read_compressed_u32 bs) (\<lambda>(v, bs).
               Option.bind (read_compressed_u32 bs) (\<lambda>(argc, bs).
               map_option (\<lambda>(ts, bs). (SInst (k = ET_VALUETYPE) v ts, bs)) (decode_types n (unat argc) bs)))
             else None
         | [] \<Rightarrow> None)
      else if b = ET_FNPTR then
        (case bs of
           k # bs \<Rightarrow>
             if k = SIG_DEFAULT then
               Option.bind (read_compressed_u32 bs) (\<lambda>(argc, bs).
               Option.bind (decode_type n bs) (\<lambda>(ret, bs).
               map_option (\<lambda>(ts, bs). (SFnPtr ret ts, bs)) (decode_types n (unat argc) bs)))
             else None
         | [] \<Rightarrow> None)
      else None)"
| "decode_type _ _ = None"
| "decode_types n 0 bs = Some ([], bs)"
| "decode_types n (Suc k) bs =
     Option.bind (decode_type n bs) (\<lambda>(t, bs).
     map_option (\<lambda>(ts, bs). (t # ts, bs)) (decode_types n k bs))"
  by pat_completeness auto
termination
  by (relation "measures [case_sum fst fst, case_sum (\<lambda>_. 0) (\<lambda>(_, k, _). Suc k)]") auto

lemma type_weight_member: "t \<in> set ts \<Longrightarrow> type_weight t < sum_list (map (\<lambda>t. Suc (Suc (type_weight t))) ts)"
  by (induction ts) auto

text \<open>What the blob of a type means, given the index of each class reference.\<close>

function (sequential)
  lower_type :: "(class_ref \<Rightarrow> u32 option) \<Rightarrow> cil_type \<Rightarrow> sig_type"
and lower_class :: "(class_ref \<Rightarrow> u32 option) \<Rightarrow> bool \<Rightarrow> class_ref \<Rightarrow> sig_type"
where
  "lower_type tok TVoid = SPrim ET_VOID"
| "lower_type tok TBool = SPrim ET_BOOLEAN"
| "lower_type tok TPlatformChar = SPrim ET_CHAR"
| "lower_type tok TPlatformString = SPrim ET_STRING"
| "lower_type tok TPlatformObject = SPrim ET_OBJECT"
| "lower_type tok (TInt i) =
     (case i of
        I8 \<Rightarrow> SPrim ET_I1 | U8 \<Rightarrow> SPrim ET_U1 | I16 \<Rightarrow> SPrim ET_I2 | U16 \<Rightarrow> SPrim ET_U2
      | I32 \<Rightarrow> SPrim ET_I4 | U32 \<Rightarrow> SPrim ET_U4 | I64 \<Rightarrow> SPrim ET_I8 | U64 \<Rightarrow> SPrim ET_U8
      | ISize \<Rightarrow> SPrim ET_I | USize \<Rightarrow> SPrim ET_U
      | I128 \<Rightarrow> lower_class tok True (int_class I128) | U128 \<Rightarrow> lower_class tok True (int_class U128))"
| "lower_type tok (TFloat f) =
     (case f of
        F32 \<Rightarrow> SPrim ET_R4 | F64 \<Rightarrow> SPrim ET_R8
      | F16 \<Rightarrow> lower_class tok True (bcl_value ''System.Half'')
      | F128 \<Rightarrow> lower_class tok True f128_class)"
| "lower_type tok (TPtr t) = SPtr (lower_type tok t)"
| "lower_type tok (TRef t) = SByRef (lower_type tok t)"
| "lower_type tok (TClassRef c) =
     (if \<not> cr_valuetype c \<and> cr_generics c = [] \<and> cr_name c = ''System.Object'' then SPrim ET_OBJECT
      else if \<not> cr_valuetype c \<and> cr_generics c = [] \<and> cr_name c = ''System.String'' then SPrim ET_STRING
      else lower_class tok (cr_valuetype c) c)"
| "lower_type tok (TPlatformGeneric idx kind) = (if kind = CallGeneric then SMVar idx else SVar idx)"
| "lower_type tok (TPlatformArray elem dims) =
     (if dims = 1 then SSzArray (lower_type tok elem) else SArray (lower_type tok elem) (ucast dims))"
| "lower_type tok (TFnPtr (FnSig ins ret)) =
     SFnPtr (lower_type tok ret)
       (map (\<lambda>t. if t = TVoid then lower_class tok True rust_void else lower_type tok t) ins)"
| "lower_type tok (TSIMDVector v) = lower_class tok True (simd_class v)"
| "lower_class tok vt (ClassRef name asm v gs) =
     (if gs = [] then SNamed vt (the (tok (ClassRef name asm v gs)))
      else SInst vt (the (tok (ClassRef name asm v gs))) (map (lower_type tok) gs))"
  by pat_completeness auto

termination
  by (relation "measure (case_sum (\<lambda>(_, t). type_weight t) (\<lambda>(_, _, c). class_weight c))")
    (auto simp: bcl_value_def f128_class_def rust_void_def simd_class_def
      dest: type_weight_member intro: less_SucI)

definition lower_non_void :: "(class_ref \<Rightarrow> u32 option) \<Rightarrow> cil_type \<Rightarrow> sig_type" where
  "lower_non_void tok t = (if t = TVoid then lower_class tok True rust_void else lower_type tok t)"

section \<open>Round trip\<close>

lemma put_u32_Inr:
  "put_u32 out v = Inr out' \<Longrightarrow> \<exists>enc. out' = out @ enc \<and> (\<forall>rest. read_compressed_u32 (enc @ rest) = Some (v, rest))"
  unfolding put_u32_def write_compressed_append [of out]
  by (cases "write_compressed_u32 [] v") (auto intro: read_write_compressed)

lemma put_count_Inr:
  "put_count out n = Inr out' \<Longrightarrow> \<exists>enc v. out' = out @ enc \<and> unat v = n \<and> (\<forall>rest. read_compressed_u32 (enc @ rest) = Some (v, rest))"
  by (auto simp: put_count_def word_of_nat_unat_lt dest!: put_u32_Inr split: if_splits)

locale type_resolver =
  fixes resolve :: "'r resolver"
    and token_of :: "'r \<Rightarrow> class_ref \<Rightarrow> u32 option"
  assumes resolve_token: "resolve c r = Inr (v, r') \<Longrightarrow> token_of r' c = Some v"
    and resolve_stable: "resolve c r = Inr (v, r') \<Longrightarrow> token_of r \<subseteq>\<^sub>m token_of r'"
begin

text \<open>
  \<open>emits\<close>: from state \<open>r\<close> the output grew by a block that the reader \<open>D\<close> consumes exactly, in front
  of any continuation and with any fuel of at least the block's length, yielding \<open>x\<close> under the
  indices of every later state.
\<close>

definition emits ::
  "'r \<Rightarrow> u8 list \<Rightarrow> 'r \<Rightarrow> u8 list \<Rightarrow> (nat \<Rightarrow> u8 list \<Rightarrow> ('t \<times> u8 list) option)
     \<Rightarrow> ((class_ref \<Rightarrow> u32 option) \<Rightarrow> 't) \<Rightarrow> bool" where
  "emits r out r' out' D x \<longleftrightarrow> token_of r \<subseteq>\<^sub>m token_of r' \<and>
     (\<exists>bs. out' = out @ bs \<and>
        (\<forall>s fuel rest. token_of r' \<subseteq>\<^sub>m s \<longrightarrow> length bs \<le> fuel \<longrightarrow> D fuel (bs @ rest) = Some (x s, rest)))"

lemma emitsI:
  assumes "token_of r \<subseteq>\<^sub>m token_of r'" "out' = out @ bs"
    "\<And>s fuel rest. token_of r' \<subseteq>\<^sub>m s \<Longrightarrow> length bs \<le> fuel \<Longrightarrow> D fuel (bs @ rest) = Some (x s, rest)"
  shows "emits r out r' out' D x"
  using assms by (auto simp: emits_def)

lemma emitsE:
  assumes "emits r out r' out' D x"
  obtains bs where "token_of r \<subseteq>\<^sub>m token_of r'" "out' = out @ bs"
    "\<forall>s fuel rest. token_of r' \<subseteq>\<^sub>m s \<longrightarrow> length bs \<le> fuel \<longrightarrow> D fuel (bs @ rest) = Some (x s, rest)"
  using assms by (auto simp: emits_def)

lemma emits_prim: "b \<in> set sig_prims \<Longrightarrow> emits r out r (out @ [b]) decode_type (\<lambda>_. SPrim b)"
  apply (rule emitsI [where bs = "[b]"])
    apply simp
   apply simp
  subgoal for s fuel rest
    by (cases fuel) auto
  done

lemma emits_prefix:
  assumes "emits r (out @ [b]) r' out' decode_type x"
    and "\<And>n bs. decode_type (Suc n) (b # bs) = map_option (\<lambda>(t, bs). (f t, bs)) (decode_type n bs)"
  shows "emits r out r' out' decode_type (\<lambda>s. f (x s))"
proof -
  from assms(1) obtain bs where bs: "token_of r \<subseteq>\<^sub>m token_of r'" "out' = (out @ [b]) @ bs"
    "\<And>s fuel rest. token_of r' \<subseteq>\<^sub>m s \<Longrightarrow> length bs \<le> fuel \<Longrightarrow> decode_type fuel (bs @ rest) = Some (x s, rest)"
    by (rule emitsE) blast
  show ?thesis
  proof (rule emitsI [where bs = "b # bs"])
    fix s fuel rest
    assume "token_of r' \<subseteq>\<^sub>m s" "length (b # bs) \<le> fuel"
    then show "decode_type fuel ((b # bs) @ rest) = Some (f (x s), rest)"
      using bs(3) assms(2) by (cases fuel) auto
  qed (use bs in simp_all)
qed

lemma emits_nil: "emits r out r out (\<lambda>n. decode_types n 0) (\<lambda>_. [])"
  by (rule emitsI [where bs = "[]"]) simp_all

lemma emits_cons:
  assumes "emits r out r1 out1 decode_type x" "emits r1 out1 r2 out2 (\<lambda>n. decode_types n k) xs"
  shows "emits r out r2 out2 (\<lambda>n. decode_types n (Suc k)) (\<lambda>s. x s # xs s)"
proof -
  from assms(1) obtain b1 where b1: "token_of r \<subseteq>\<^sub>m token_of r1" "out1 = out @ b1"
    "\<And>s fuel rest. token_of r1 \<subseteq>\<^sub>m s \<Longrightarrow> length b1 \<le> fuel \<Longrightarrow> decode_type fuel (b1 @ rest) = Some (x s, rest)"
    by (rule emitsE) blast
  from assms(2) obtain b2 where b2: "token_of r1 \<subseteq>\<^sub>m token_of r2" "out2 = out1 @ b2"
    "\<And>s fuel rest. token_of r2 \<subseteq>\<^sub>m s \<Longrightarrow> length b2 \<le> fuel \<Longrightarrow> decode_types fuel k (b2 @ rest) = Some (xs s, rest)"
    by (rule emitsE) blast
  show ?thesis
  proof (rule emitsI [where bs = "b1 @ b2"])
    fix s fuel rest
    assume g: "token_of r2 \<subseteq>\<^sub>m s" "length (b1 @ b2) \<le> fuel"
    then have "token_of r1 \<subseteq>\<^sub>m s" using b2(1) by (auto intro: map_le_trans)
    with g show "decode_types fuel (Suc k) ((b1 @ b2) @ rest) = Some (x s # xs s, rest)"
      using b1(3) b2(3) by simp
  qed (use b1 b2 in \<open>auto intro: map_le_trans\<close>)
qed

lemma emits_named:
  assumes "resolve c r = Inr (v, r')" "put_u32 (out @ [k]) v = Inr out'" "k = ET_VALUETYPE \<or> k = ET_CLASS"
  shows "emits r out r' out' decode_type (\<lambda>s. SNamed (k = ET_VALUETYPE) (the (s c)))"
proof -
  from put_u32_Inr [OF assms(2)] obtain enc where e: "out' = out @ k # enc"
    "\<And>rest. read_compressed_u32 (enc @ rest) = Some (v, rest)" by auto
  have t: "token_of r' \<subseteq>\<^sub>m s \<Longrightarrow> s c = Some v" for s
    using resolve_token [OF assms(1)] by (auto simp: map_le_def dom_def)
  show ?thesis
  proof (rule emitsI [where bs = "k # enc"])
    fix s fuel rest
    assume g: "token_of r' \<subseteq>\<^sub>m s" "length (k # enc) \<le> fuel"
    then show "decode_type fuel ((k # enc) @ rest) = Some (SNamed (k = ET_VALUETYPE) (the (s c)), rest)"
      using e(2) t [OF g(1)] assms(3) by (cases fuel) auto
  qed (use e resolve_stable [OF assms(1)] in simp_all)
qed

lemma emits_inst:
  assumes "resolve c r = Inr (v, r1)" "put_u32 (out @ [ET_GENERICINST, k]) v = Inr out1"
    "put_count out1 n = Inr out2" "k = ET_VALUETYPE \<or> k = ET_CLASS"
    "emits r1 out2 r2 out3 (\<lambda>m. decode_types m n) xs"
  shows "emits r out r2 out3 decode_type (\<lambda>s. SInst (k = ET_VALUETYPE) (the (s c)) (xs s))"
proof -
  from put_u32_Inr [OF assms(2)] obtain e1 where e1: "out1 = out @ ET_GENERICINST # k # e1"
    "\<And>rest. read_compressed_u32 (e1 @ rest) = Some (v, rest)" by auto
  from put_count_Inr [OF assms(3)] obtain e2 w where e2: "out2 = out1 @ e2" "unat w = n"
    "\<And>rest. read_compressed_u32 (e2 @ rest) = Some (w, rest)" by auto
  from assms(5) obtain bs where bs: "token_of r1 \<subseteq>\<^sub>m token_of r2" "out3 = out2 @ bs"
    "\<And>s fuel rest. token_of r2 \<subseteq>\<^sub>m s \<Longrightarrow> length bs \<le> fuel \<Longrightarrow> decode_types fuel n (bs @ rest) = Some (xs s, rest)"
    by (rule emitsE) blast
  have t: "token_of r2 \<subseteq>\<^sub>m s \<Longrightarrow> s c = Some v" for s
    using resolve_token [OF assms(1)] bs(1) by (auto simp: map_le_def dom_def)
  show ?thesis
  proof (rule emitsI [where bs = "ET_GENERICINST # k # e1 @ e2 @ bs"])
    fix s fuel rest
    assume g: "token_of r2 \<subseteq>\<^sub>m s" "length (ET_GENERICINST # k # e1 @ e2 @ bs) \<le> fuel"
    then show "decode_type fuel ((ET_GENERICINST # k # e1 @ e2 @ bs) @ rest) = Some (SInst (k = ET_VALUETYPE) (the (s c)) (xs s), rest)"
      using e1(2) e2(2,3) bs(3) t [OF g(1)] assms(4) by (cases fuel) auto
  qed (use e1 e2 bs resolve_stable [OF assms(1)] in \<open>auto intro: map_le_trans\<close>)
qed

lemma emits_fn_ptr:
  assumes "put_count (out @ [ET_FNPTR, SIG_DEFAULT]) n = Inr out1" "emits r out1 r1 out2 decode_type x"
    "emits r1 out2 r2 out3 (\<lambda>m. decode_types m n) xs"
  shows "emits r out r2 out3 decode_type (\<lambda>s. SFnPtr (x s) (xs s))"
proof -
  from put_count_Inr [OF assms(1)] obtain e w where e: "out1 = out @ ET_FNPTR # SIG_DEFAULT # e" "unat w = n"
    "\<And>rest. read_compressed_u32 (e @ rest) = Some (w, rest)" by auto
  from assms(2) obtain b1 where b1: "token_of r \<subseteq>\<^sub>m token_of r1" "out2 = out1 @ b1"
    "\<And>s fuel rest. token_of r1 \<subseteq>\<^sub>m s \<Longrightarrow> length b1 \<le> fuel \<Longrightarrow> decode_type fuel (b1 @ rest) = Some (x s, rest)"
    by (rule emitsE) blast
  from assms(3) obtain b2 where b2: "token_of r1 \<subseteq>\<^sub>m token_of r2" "out3 = out2 @ b2"
    "\<And>s fuel rest. token_of r2 \<subseteq>\<^sub>m s \<Longrightarrow> length b2 \<le> fuel \<Longrightarrow> decode_types fuel n (b2 @ rest) = Some (xs s, rest)"
    by (rule emitsE) blast
  show ?thesis
  proof (rule emitsI [where bs = "ET_FNPTR # SIG_DEFAULT # e @ b1 @ b2"])
    fix s fuel rest
    assume g: "token_of r2 \<subseteq>\<^sub>m s" "length (ET_FNPTR # SIG_DEFAULT # e @ b1 @ b2) \<le> fuel"
    then have "token_of r1 \<subseteq>\<^sub>m s" using b2(1) by (auto intro: map_le_trans)
    with g show "decode_type fuel ((ET_FNPTR # SIG_DEFAULT # e @ b1 @ b2) @ rest) = Some (SFnPtr (x s) (xs s), rest)"
      using e(2,3) b1(3) b2(3) by (cases fuel) auto
  qed (use e b1 b2 in \<open>auto intro: map_le_trans\<close>)
qed

lemma emits_array:
  assumes "emits r (out @ [ET_ARRAY]) r' out1 decode_type x"
    "put_u32 out1 v = Inr out2" "put_u32 out2 0 = Inr out3" "put_u32 out3 0 = Inr out4"
  shows "emits r out r' out4 decode_type (\<lambda>s. SArray (x s) v)"
proof -
  from assms(1) obtain bs where bs: "token_of r \<subseteq>\<^sub>m token_of r'" "out1 = (out @ [ET_ARRAY]) @ bs"
    "\<And>s fuel rest. token_of r' \<subseteq>\<^sub>m s \<Longrightarrow> length bs \<le> fuel \<Longrightarrow> decode_type fuel (bs @ rest) = Some (x s, rest)"
    by (rule emitsE) blast
  obtain e1 where e1: "out2 = out1 @ e1" "\<And>rest. read_compressed_u32 (e1 @ rest) = Some (v, rest)"
    using put_u32_Inr [OF assms(2)] by auto
  obtain e2 where e2: "out3 = out2 @ e2" "\<And>rest. read_compressed_u32 (e2 @ rest) = Some (0, rest)"
    using put_u32_Inr [OF assms(3)] by auto
  obtain e3 where e3: "out4 = out3 @ e3" "\<And>rest. read_compressed_u32 (e3 @ rest) = Some (0, rest)"
    using put_u32_Inr [OF assms(4)] by auto
  show ?thesis
  proof (rule emitsI [where bs = "ET_ARRAY # bs @ e1 @ e2 @ e3"])
    fix s fuel rest
    assume "token_of r' \<subseteq>\<^sub>m s" "length (ET_ARRAY # bs @ e1 @ e2 @ e3) \<le> fuel"
    then show "decode_type fuel ((ET_ARRAY # bs @ e1 @ e2 @ e3) @ rest) = Some (SArray (x s) v, rest)"
      using e1(2) e2(2) e3(2) bs(3) by (cases fuel) auto
  qed (use bs e1 e2 e3 in simp_all)
qed

lemma emits_generic:
  assumes "put_u32 (out @ [k]) v = Inr out'" "k = ET_VAR \<or> k = ET_MVAR"
  shows "emits r out r out' decode_type (\<lambda>_. if k = ET_MVAR then SMVar v else SVar v)"
proof -
  from put_u32_Inr [OF assms(1)] obtain e where e: "out' = out @ k # e"
    "\<And>rest. read_compressed_u32 (e @ rest) = Some (v, rest)" by auto
  show ?thesis
  proof (rule emitsI [where bs = "k # e"])
    fix s fuel rest
    assume "length (k # e) \<le> fuel"
    then show "decode_type fuel ((k # e) @ rest) = Some (if k = ET_MVAR then SMVar v else SVar v, rest)"
      using e(2) assms(2) by (cases fuel) auto
  qed (use e in simp_all)
qed


lemma encode_emits_aux:
  fixes res :: "'r resolver"
  shows
  "res = resolve \<longrightarrow> (\<forall>r' out'. encode_type res t r out = Inr (r', out') \<longrightarrow>
     emits r out r' out' decode_type (\<lambda>s. lower_type s t))"
  "res = resolve \<longrightarrow> (\<forall>r' out'. encode_class res c vt r out = Inr (r', out') \<longrightarrow>
     emits r out r' out' decode_type (\<lambda>s. lower_class s vt c))"
  "res = resolve \<longrightarrow> (\<forall>r' out'. encode_types res ts r out = Inr (r', out') \<longrightarrow>
     emits r out r' out' (\<lambda>n. decode_types n (length ts)) (\<lambda>s. map (lower_type s) ts))"
  "res = resolve \<longrightarrow> (\<forall>r' out' out. encode_method_sig res conv gp sig r out0 = Inr (r', out') \<longrightarrow>
     conv = SIG_DEFAULT \<longrightarrow> gp = 0 \<longrightarrow> out0 = out @ [ET_FNPTR] \<longrightarrow>
     emits r out r' out' decode_type (\<lambda>s. lower_type s (TFnPtr sig)))"
  "res = resolve \<longrightarrow> (\<forall>r' out'. encode_non_void_type res t r out = Inr (r', out') \<longrightarrow>
     emits r out r' out' decode_type (\<lambda>s. lower_non_void s t))"
  "res = resolve \<longrightarrow> (\<forall>r' out'. encode_non_void_types res ts r out = Inr (r', out') \<longrightarrow>
     emits r out r' out' (\<lambda>n. decode_types n (length ts)) (\<lambda>s. map (lower_non_void s) ts))"
proof (induction res t r out and res c vt r out and res ts r out and res conv gp sig r out0
    and res t r out and res ts r out
    rule: encode_type_encode_class_encode_types_encode_method_sig_encode_non_void_type_encode_non_void_types.induct)
  case (6 res i r out)
  then show ?case by (cases i) (auto intro: emits_prim)
next
  case (7 res f r out)
  then show ?case by (cases f) (auto intro: emits_prim)
next
  case (8 res t r out)
  then show ?case by (auto intro: emits_prefix)
next
  case (9 res t r out)
  then show ?case by (auto intro: emits_prefix)
next
  case (10 res c r out)
  then show ?case by (auto intro: emits_prim)
next
  case (11 res idx kind r out)
  then show ?case
    by (auto simp: rbind_eq_Inr dest: emits_generic [where k = ET_VAR and r = r] emits_generic [where k = ET_MVAR and r = r])
next
  case (12 res elem dims r out)
  then show ?case by (auto simp: rbind_eq_Inr intro: emits_prefix emits_array)
next
  case (15 res name asm vt gs is_vt r out)
  let ?k = "if is_vt then ET_VALUETYPE else ET_CLASS"
  show ?case
  proof (intro impI allI)
    fix r' out'
    assume e: "res = resolve" "encode_class res (ClassRef name asm vt gs) is_vt r out = Inr (r', out')"
    show "emits r out r' out' decode_type (\<lambda>s. lower_class s is_vt (ClassRef name asm vt gs))"
    proof (cases "gs = []")
      case True
      with e show ?thesis by (cases is_vt) (auto simp: rbind_eq_Inr dest: emits_named)
    next
      case False
      with e obtain v r1 o1 o2 where "resolve (ClassRef name asm vt gs) r = Inr (v, r1)"
        "put_u32 (out @ [ET_GENERICINST, ?k]) v = Inr o1" "put_count o1 (length gs) = Inr o2"
        "encode_types resolve gs r1 o2 = Inr (r', out')"
        by (auto simp: rbind_eq_Inr Let_def)
      with False e(1) 15 emits_inst [of "ClassRef name asm vt gs" r v r1 out ?k o1 "length gs" o2 r' out' "\<lambda>s. map (lower_type s) gs"]
      show ?thesis by (cases is_vt) auto
    qed
  qed
next
  case (18 res conv gp ins ret r out)
  show ?case
  proof (intro impI allI)
    fix r' out' out1
    assume e: "res = resolve" "encode_method_sig res conv gp (FnSig ins ret) r out = Inr (r', out')"
      "conv = SIG_DEFAULT" "gp = 0" "out = out1 @ [ET_FNPTR]"
    then obtain o1 r1 o2 where "put_count (out1 @ [ET_FNPTR, SIG_DEFAULT]) (length ins) = Inr o1"
      "encode_type resolve ret r o1 = Inr (r1, o2)" "encode_non_void_types resolve ins r1 o2 = Inr (r', out')"
      by (auto simp: rbind_eq_Inr)
    with e 18 emits_fn_ptr [of out1 "length ins" o1 r r1 o2 "\<lambda>s. lower_type s ret" r' out' "\<lambda>s. map (lower_non_void s) ins"]
    have "emits r out1 r' out' decode_type (\<lambda>s. SFnPtr (lower_type s ret) (map (lower_non_void s) ins))"
      by auto
    then show "emits r out1 r' out' decode_type (\<lambda>s. lower_type s (TFnPtr (FnSig ins ret)))"
      by (simp add: lower_non_void_def [abs_def])
  qed
next
  case (19 res t r out)
  then show ?case by (auto simp: lower_non_void_def)
qed (auto simp: rbind_eq_Inr simp del: decode_types.simps intro: emits_prim emits_nil emits_cons)

lemmas encode_type_emits = encode_emits_aux(1) [rule_format, OF refl]
lemmas encode_types_emits = encode_emits_aux(3) [rule_format, OF refl]
lemmas encode_non_void_type_emits = encode_emits_aux(5) [rule_format, OF refl]
lemmas encode_non_void_types_emits = encode_emits_aux(6) [rule_format, OF refl]

lemma emits_decode:
  assumes "emits r [] r' bs D x" "length bs \<le> fuel"
  shows "D fuel (bs @ rest) = Some (x (token_of r'), rest)"
  using assms by (auto elim!: emitsE)

lemma type_roundtrip:
  "encode_type resolve t r [] = Inr (r', bs) \<Longrightarrow>
     decode_type (length bs) (bs @ rest) = Some (lower_type (token_of r') t, rest)"
  by (rule emits_decode [OF encode_type_emits]) auto

lemma put_count_emits:
  assumes "put_count (out @ pre) n = Inr out1" "emits r out1 r' out2 (\<lambda>m. decode_types m n) xs"
  obtains e v bs where "out2 = out @ pre @ e @ bs" "unat v = n"
    "\<And>rest. read_compressed_u32 (e @ rest) = Some (v, rest)"
    "\<And>s fuel rest. token_of r' \<subseteq>\<^sub>m s \<Longrightarrow> length bs \<le> fuel \<Longrightarrow> decode_types fuel n (bs @ rest) = Some (xs s, rest)"
  using put_count_Inr [OF assms(1)] assms(2) by (fastforce elim!: emitsE)
end

text \<open>Readers of the standalone signatures (II.23.2.1, II.23.2.4, II.23.2.5, II.23.2.6, II.23.2.15).\<close>

definition decode_method_sig ::
  "nat \<Rightarrow> u8 list \<Rightarrow> ((u8 \<times> u32 \<times> sig_type \<times> sig_type list) \<times> u8 list) option" where
  "decode_method_sig fuel bs =
     (case bs of
        [] \<Rightarrow> None
      | conv # bs \<Rightarrow>
          Option.bind (if conv AND SIG_GENERIC \<noteq> 0 then read_compressed_u32 bs else Some (0, bs)) (\<lambda>(gp, bs).
          Option.bind (read_compressed_u32 bs) (\<lambda>(argc, bs).
          Option.bind (decode_type fuel bs) (\<lambda>(ret, bs).
          map_option (\<lambda>(ts, bs). ((conv, gp, ret, ts), bs)) (decode_types fuel (unat argc) bs)))))"

definition decode_tagged :: "u8 \<Rightarrow> nat \<Rightarrow> u8 list \<Rightarrow> (sig_type \<times> u8 list) option" where
  "decode_tagged tag fuel bs = (case bs of b # bs \<Rightarrow> if b = tag then decode_type fuel bs else None | [] \<Rightarrow> None)"

definition decode_counted :: "u8 \<Rightarrow> nat \<Rightarrow> u8 list \<Rightarrow> (sig_type list \<times> u8 list) option" where
  "decode_counted tag fuel bs =
     (case bs of
        b # bs \<Rightarrow> if b = tag
          then Option.bind (read_compressed_u32 bs) (\<lambda>(n, bs). decode_types fuel (unat n) bs) else None
      | [] \<Rightarrow> None)"

lemma lower_class_not_prim: "lower_class tok vt c \<noteq> SPrim b"
  by (cases c) simp

lemma lower_type_void: "lower_type tok t = SPrim ET_VOID \<longleftrightarrow> t = TVoid"
proof (cases t)
  case (TInt i)
  then show ?thesis by (cases i) (simp_all add: lower_class_not_prim)
next
  case (TFloat f)
  then show ?thesis by (cases f) (simp_all add: lower_class_not_prim)
next
  case (TFnPtr s)
  then show ?thesis by (cases s) simp
qed (simp_all add: lower_class_not_prim)

lemma lower_non_void_not_void [simp]: "lower_non_void tok t \<noteq> SPrim ET_VOID"
  by (simp add: lower_non_void_def lower_class_not_prim lower_type_void)

context type_resolver
begin

lemma method_sig_roundtrip:
  assumes "encode_method_sig resolve conv gp sig r [] = Inr (r', bs)"
  shows "decode_method_sig (length bs) (bs @ rest) =
    Some ((conv, gp, lower_type (token_of r') (sig_output sig), map (lower_non_void (token_of r')) (sig_inputs sig)), rest)"
proof -
  obtain ins ret where sig: "sig = FnSig ins ret" by (cases sig)
  with assms obtain o0 o1 r1 o2 where e: "(conv AND SIG_GENERIC \<noteq> 0) = (gp \<noteq> 0)"
    "(if gp \<noteq> 0 then put_u32 [conv] gp else Inr [conv]) = Inr o0"
    "put_count o0 (length ins) = Inr o1" "encode_type resolve ret r o1 = Inr (r1, o2)"
    "encode_non_void_types resolve ins r1 o2 = Inr (r', bs)"
    by (auto simp: rbind_eq_Inr split: if_splits)
  obtain g where g: "o0 = conv # g" "(if conv AND SIG_GENERIC \<noteq> 0 then read_compressed_u32 (g @ rest) else Some (0, g @ rest)) = Some (gp, rest)" for rest
    using e(1,2) put_u32_Inr [of "[conv]" gp o0] by (cases "gp = 0") auto
  obtain c v where c: "o1 = o0 @ c" "unat v = length ins" "\<And>rest. read_compressed_u32 (c @ rest) = Some (v, rest)"
    using put_count_Inr [OF e(3)] by auto
  from encode_type_emits [OF e(4)] obtain b1 where b1: "o2 = o1 @ b1"
    "\<And>s fuel rest. token_of r1 \<subseteq>\<^sub>m s \<Longrightarrow> length b1 \<le> fuel \<Longrightarrow> decode_type fuel (b1 @ rest) = Some (lower_type s ret, rest)"
    by (rule emitsE) blast
  from encode_non_void_types_emits [OF e(5)] obtain b2 where b2: "token_of r1 \<subseteq>\<^sub>m token_of r'" "bs = o2 @ b2"
    "\<And>s fuel rest. token_of r' \<subseteq>\<^sub>m s \<Longrightarrow> length b2 \<le> fuel \<Longrightarrow>
       decode_types fuel (length ins) (b2 @ rest) = Some (map (lower_non_void s) ins, rest)"
    by (rule emitsE) blast
  have "bs @ rest = conv # g @ c @ b1 @ b2 @ rest" "length b1 \<le> length bs" "length b2 \<le> length bs"
    using g(1) c(1) b1(1) b2(2) by auto
  then show ?thesis
    using g(2) c(2,3) b1(2) [OF b2(1)] b2(3) [of "token_of r'"] sig by (simp add: decode_method_sig_def)
qed

lemma field_sig_roundtrip:
  assumes "encode_field_sig resolve t r [] = Inr (r', bs)"
  shows "decode_tagged SIG_FIELD (length bs) (bs @ rest) = Some (lower_non_void (token_of r') t, rest)"
  using encode_non_void_type_emits [OF assms [unfolded encode_field_sig_def]]
  by (auto simp: decode_tagged_def elim!: emitsE)

lemma counted_roundtrip:
  assumes "put_count [tag] n = Inr out1" "emits r out1 r' bs (\<lambda>m. decode_types m n) xs"
  shows "decode_counted tag (length bs) (bs @ rest) = Some (xs (token_of r'), rest)"
proof -
  obtain e v b where b: "bs = tag # e @ b" "unat v = n" "\<And>rest. read_compressed_u32 (e @ rest) = Some (v, rest)"
    "\<And>s fuel rest. token_of r' \<subseteq>\<^sub>m s \<Longrightarrow> length b \<le> fuel \<Longrightarrow> decode_types fuel n (b @ rest) = Some (xs s, rest)"
    using assms by (rule put_count_emits [of "[]" "[tag]", simplified]) auto
  then show ?thesis by (simp add: decode_counted_def)
qed

lemma locals_sig_roundtrip:
  "encode_locals_sig resolve ts r [] = Inr (r', bs) \<Longrightarrow>
     decode_counted SIG_LOCALS (length bs) (bs @ rest) = Some (map (lower_non_void (token_of r')) ts, rest)"
  by (auto simp: encode_locals_sig_def rbind_eq_Inr intro: counted_roundtrip encode_non_void_types_emits)

lemma method_spec_sig_roundtrip:
  "encode_method_spec_sig resolve ts r [] = Inr (r', bs) \<Longrightarrow>
     decode_counted SIG_GENERICINST_METHOD (length bs) (bs @ rest) = Some (map (lower_type (token_of r')) ts, rest)"
  by (auto simp: encode_method_spec_sig_def rbind_eq_Inr intro: counted_roundtrip encode_types_emits)

end

section \<open>Success of the encoder\<close>

text \<open>The types whose generic indices and argument counts fit a compressed integer.\<close>

fun encodable :: "cil_type \<Rightarrow> bool" and encodable_class :: "class_ref \<Rightarrow> bool" where
  "encodable (TPtr t) = encodable t"
| "encodable (TRef t) = encodable t"
| "encodable (TPlatformArray t _) = encodable t"
| "encodable (TClassRef c) = encodable_class c"
| "encodable (TPlatformGeneric idx _) = (idx \<le> 0x1FFFFFFF)"
| "encodable (TFnPtr (FnSig ins ret)) = (length ins \<le> 0x1FFFFFFF \<and> list_all encodable ins \<and> encodable ret)"
| "encodable _ = True"
| "encodable_class (ClassRef _ _ _ gs) = (length gs \<le> 0x1FFFFFFF \<and> list_all encodable gs)"

lemma put_u32_ok: "v \<le> 0x1FFFFFFF \<Longrightarrow> \<exists>out'. put_u32 out v = Inr out'"
  by (simp add: put_u32_def write_compressed_u32_def)

lemma put_count_ok: "n \<le> 0x1FFFFFFF \<Longrightarrow> \<exists>out'. put_count out n = Inr out'"
proof -
  assume "n \<le> 0x1FFFFFFF"
  then have "(word_of_nat n :: u32) \<le> 0x1FFFFFFF"
    by (simp add: word_le_nat_alt word_of_nat_unat_lt)
  with \<open>n \<le> 0x1FFFFFFF\<close> show ?thesis using put_u32_ok by (simp add: put_count_def)
qed

lemma simd_class_encodable: "encodable_class (simd_class v)"
  by (cases "simd_elem_of v") (simp_all add: simd_class_def)

lemma encode_total_aux:
  fixes res :: "'r resolver"
  assumes total: "\<And>c r. \<exists>v r'. res c r = Inr (v, r') \<and> v \<le> 0x1FFFFFFF"
  shows "encodable t \<longrightarrow> (\<exists>r' out'. encode_type res t r out = Inr (r', out'))"
    and "encodable_class c \<longrightarrow> (\<exists>r' out'. encode_class res c vt r out = Inr (r', out'))"
    and "list_all encodable ts \<longrightarrow> (\<exists>r' out'. encode_types res ts r out = Inr (r', out'))"
    and "encodable (TFnPtr sig) \<longrightarrow> conv = SIG_DEFAULT \<longrightarrow> gp = 0 \<longrightarrow>
      (\<exists>r' out'. encode_method_sig res conv gp sig r out = Inr (r', out'))"
    and "encodable t \<longrightarrow> (\<exists>r' out'. encode_non_void_type res t r out = Inr (r', out'))"
    and "list_all encodable ts \<longrightarrow> (\<exists>r' out'. encode_non_void_types res ts r out = Inr (r', out'))"
  using total
proof (induction res t r out and res c vt r out and res ts r out and res conv gp sig r out
    and res t r out and res ts r out
    rule: encode_type_encode_class_encode_types_encode_method_sig_encode_non_void_type_encode_non_void_types.induct)
  case (6 res i r out)
  then show ?case by (cases i) (auto simp: bcl_value_def)
next
  case (7 res f r out)
  then show ?case by (cases f) (auto simp: bcl_value_def f128_class_def)
next
  case (11 res idx kind r out)
  then show ?case by simp (metis put_u32_ok rbind_simps(2))
next
  case (12 res elem dims r out)
  have d: "(ucast dims :: u32) \<le> 0x1FFFFFFF"
    using unat_le_255 [of dims] by (simp add: word_le_nat_alt unat_ucast_mod)
  show ?case
  proof
    assume "encodable (TPlatformArray elem dims)"
    with 12 show "\<exists>r' out'. encode_type res (TPlatformArray elem dims) r out = Inr (r', out')"
    proof (cases "dims = 1")
      case False
      with 12 \<open>encodable _\<close> obtain r1 o1 where o1: "encode_type res elem r (out @ [ET_ARRAY]) = Inr (r1, o1)"
        by auto
      obtain o2 where "put_u32 o1 (ucast dims) = Inr o2" using put_u32_ok [OF d] by blast
      moreover obtain o3 where "put_u32 o2 0 = Inr o3" using put_u32_ok [of 0] by auto
      moreover obtain o4 where "put_u32 o3 0 = Inr o4" using put_u32_ok [of 0] by auto
      ultimately show ?thesis using o1 False by simp
    qed simp
  qed
next
  case (15 res name asm vt gs is_vt r out)
  let ?k = "if is_vt then ET_VALUETYPE else ET_CLASS"
  obtain v r1 where v: "res (ClassRef name asm vt gs) r = Inr (v, r1)" "v \<le> 0x1FFFFFFF" using 15(2) by blast
  obtain p where p: "put_u32 (out @ [?k]) v = Inr p" using put_u32_ok [OF v(2)] by blast
  obtain q where q: "put_u32 (out @ [ET_GENERICINST, ?k]) v = Inr q" using put_u32_ok [OF v(2)] by blast
  show ?case
  proof
    assume e: "encodable_class (ClassRef name asm vt gs)"
    then obtain q' where "put_count q (length gs) = Inr q'" using put_count_ok [of "length gs" q] by auto
    then show "\<exists>r' out'. encode_class res (ClassRef name asm vt gs) is_vt r out = Inr (r', out')"
      using v p q e 15(1) [OF refl refl _ 15(2)] by (auto simp: Let_def)
  qed
next
  case (18 res conv gp ins ret r out)
  show ?case
  proof (intro impI)
    assume e: "encodable (TFnPtr (FnSig ins ret))" "conv = SIG_DEFAULT" "gp = 0"
    then obtain q where "put_count (out @ [conv]) (length ins) = Inr q"
      using put_count_ok [of "length ins"] by auto
    moreover from this e 18 obtain r1 o1 where "encode_type res ret r q = Inr (r1, o1)" by simp blast
    moreover from this e 18 obtain r2 o2 where "encode_non_void_types res ins r1 o1 = Inr (r2, o2)" by simp blast
    ultimately show "\<exists>r' out'. encode_method_sig res conv gp (FnSig ins ret) r out = Inr (r', out')"
      using e by simp
  qed
next
  case (17 res t ts r out)
  then show ?case by (auto simp: rbind_def split: sum.splits)
next
  case (21 res t ts r out)
  then show ?case by (auto simp: rbind_def split: sum.splits)
qed (auto simp: rust_void_def simd_class_encodable)

text \<open>
  C39. The encoder returns for every type: with a resolver that never panics and whose coded indices
  fit a compressed integer, every type whose generic indices and argument counts fit one is encoded.
\<close>

theorem encode_type_total:
  fixes res :: "'r resolver"
  assumes "\<And>c r. \<exists>v r'. res c r = Inr (v, r') \<and> v \<le> 0x1FFFFFFF" "encodable t"
  shows "\<exists>r' out'. encode_type res t r out = Inr (r', out')"
  by (rule encode_total_aux(1) [rule_format, where res = res, OF assms])

text \<open>The resolver of the unit tests of \<^verbatim>\<open>sig.rs\<close>: row 1 of the \<open>TypeRef\<close> table, always.\<close>

definition stub_resolver :: "unit resolver" where
  "stub_resolver c r = Inr (5, r)"

theorem encode_type_total_witness:
  "\<exists>r' out'. encode_type stub_resolver (TPtr (TClassRef (int_class I128))) () [] = Inr (r', out')"
  by (rule encode_type_total) (simp_all add: stub_resolver_def bcl_value_def)

end
