(* ===== verification/CilIr.thy ===== *)
theory CilIr
  imports CilTypes "HOL-Library.Multiset"
begin

text \<open>
  The expression and statement trees of the intermediate representation: constants
  (\<^verbatim>\<open>cilly/src/ir/cst.rs\<close>), nodes (\<^verbatim>\<open>cilnode.rs\<close>), roots (\<^verbatim>\<open>cilroot.rs\<close>), the field and method
  references they carry (\<^verbatim>\<open>field.rs\<close>, \<^verbatim>\<open>method.rs\<close>) and the traversals over them
  (\<^verbatim>\<open>visit_child_nodes\<close>, \<^verbatim>\<open>visit_nodes\<close>, \<^verbatim>\<open>nodes_mut\<close>, \<^verbatim>\<open>map\<close>, \<^verbatim>\<open>CILIter\<close>). A mapping closure is a
  \<^verbatim>\<open>FnMut\<close>, so \<open>map_node\<close> and \<open>map_root\<close> thread a state through the calls in the order the
  code makes them. A float constant is its bit pattern.
\<close>

section \<open>Constants\<close>

datatype cil_const =
    CI8 u8 | CI16 u16 | CI32 u32 | CI64 u64 | CI128 u128 | CISize u64
  | CU8 u8 | CU16 u16 | CU32 u32 | CU64 u64 | CU128 u128 | CUSize u64
  | CPlatformString string
  | CBool bool
  | CF32 u32
  | CF64 u64
  | CNull class_ref
  | CByteBuffer "u8 list" cil_type

fun const_type :: "cil_const \<Rightarrow> cil_type" where
  "const_type (CByteBuffer _ t) = TPtr t"
| "const_type (CI8 _) = TInt I8"
| "const_type (CI16 _) = TInt I16"
| "const_type (CI32 _) = TInt I32"
| "const_type (CI64 _) = TInt I64"
| "const_type (CI128 _) = TInt I128"
| "const_type (CISize _) = TInt ISize"
| "const_type (CU8 _) = TInt U8"
| "const_type (CU16 _) = TInt U16"
| "const_type (CU32 _) = TInt U32"
| "const_type (CU64 _) = TInt U64"
| "const_type (CUSize _) = TInt USize"
| "const_type (CU128 _) = TInt U128"
| "const_type (CPlatformString _) = TPlatformString"
| "const_type (CBool _) = TBool"
| "const_type (CF32 _) = TFloat F32"
| "const_type (CF64 _) = TFloat F64"
| "const_type (CNull c) = TClassRef c"

text \<open>A float compares equal to zero for both signs of zero.\<close>

fun is_zero :: "cil_const \<Rightarrow> bool" where
  "is_zero (CByteBuffer _ _) = False" | "is_zero (CPlatformString _) = False" | "is_zero (CBool _) = False"
| "is_zero (CI8 v) = (v = 0)" | "is_zero (CI16 v) = (v = 0)" | "is_zero (CI32 v) = (v = 0)"
| "is_zero (CI64 v) = (v = 0)" | "is_zero (CISize v) = (v = 0)" | "is_zero (CI128 v) = (v = 0)"
| "is_zero (CU8 v) = (v = 0)" | "is_zero (CU16 v) = (v = 0)" | "is_zero (CU32 v) = (v = 0)"
| "is_zero (CU64 v) = (v = 0)" | "is_zero (CUSize v) = (v = 0)" | "is_zero (CU128 v) = (v = 0)"
| "is_zero (CF32 v) = (v = 0 \<or> v = 0x80000000)"
| "is_zero (CF64 v) = (v = 0 \<or> v = 0x8000000000000000)"
| "is_zero (CNull _) = True"

fun is_one :: "cil_const \<Rightarrow> bool" where
  "is_one (CByteBuffer _ _) = False" | "is_one (CPlatformString _) = False" | "is_one (CBool _) = False"
| "is_one (CI8 v) = (v = 1)" | "is_one (CI16 v) = (v = 1)" | "is_one (CI32 v) = (v = 1)"
| "is_one (CI64 v) = (v = 1)" | "is_one (CISize v) = (v = 1)" | "is_one (CI128 v) = (v = 1)"
| "is_one (CU8 v) = (v = 1)" | "is_one (CU16 v) = (v = 1)" | "is_one (CU32 v) = (v = 1)"
| "is_one (CU64 v) = (v = 1)" | "is_one (CUSize v) = (v = 1)" | "is_one (CU128 v) = (v = 1)"
| "is_one (CF32 v) = (v = 0x3F800000)"
| "is_one (CF64 v) = (v = 0x3FF0000000000000)"
| "is_one (CNull _) = True"

text \<open>\<open>Int::zero\<close> and \<open>Float::zero\<close>, the latter \<^verbatim>\<open>todo!()\<close> for half and quadruple precision.\<close>

fun int_zero :: "cil_int \<Rightarrow> cil_const" where
  "int_zero U8 = CU8 0" | "int_zero U16 = CU16 0" | "int_zero U32 = CU32 0" | "int_zero U64 = CU64 0"
| "int_zero U128 = CU128 0" | "int_zero USize = CUSize 0"
| "int_zero I8 = CI8 0" | "int_zero I16 = CI16 0" | "int_zero I32 = CI32 0" | "int_zero I64 = CI64 0"
| "int_zero I128 = CI128 0" | "int_zero ISize = CISize 0"

fun float_zero :: "cil_float \<Rightarrow> (tpe_panic, cil_const) result" where
  "float_zero F16 = Inl Todo"
| "float_zero F32 = Inr (CF32 0)"
| "float_zero F64 = Inr (CF64 0)"
| "float_zero F128 = Inl Todo"

section \<open>References\<close>

datatype field_desc = FieldDesc (fd_owner: class_ref) (fd_name: string) (fd_type: cil_type)

datatype static_field_desc = StaticFieldDesc (sfd_owner: class_ref) (sfd_name: string) (sfd_type: cil_type)

datatype method_kind = MStatic | MInstance | MVirtual | MConstructor

datatype method_ref =
  MethodRef (mref_class: class_ref) (mref_name: string) (mref_sig: fn_sig) (mref_kind: method_kind)
    (mref_generics: "cil_type list")

text \<open>\<open>stack_inputs\<close> slices off the receiver of a constructor, which panics on an empty list.\<close>

definition stack_inputs :: "method_ref \<Rightarrow> cil_type list option" where
  "stack_inputs m =
     (if mref_kind m = MConstructor
      then (case sig_inputs (mref_sig m) of [] \<Rightarrow> None | _ # ts \<Rightarrow> Some ts)
      else Some (sig_inputs (mref_sig m)))"

definition mref_output :: "method_ref \<Rightarrow> cil_type" where
  "mref_output m = (if mref_kind m = MConstructor then TClassRef (mref_class m) else sig_output (mref_sig m))"

section \<open>Nodes\<close>

datatype un_op = Not | Neg

datatype bin_op =
    Add | Eq | Sub | Mul | LtUn | Lt | GtUn | Gt | Or | XOr | And | Rem | RemUn | Shl | Shr | ShrUn | DivUn | Div

datatype extend_kind = ZeroExtend | SignExtend

datatype ptr_cast_res = PCPtr cil_type | PCRef cil_type | PCFnPtr fn_sig | PCUSize | PCISize

fun ptr_cast_type :: "ptr_cast_res \<Rightarrow> cil_type" where
  "ptr_cast_type (PCPtr t) = TPtr t"
| "ptr_cast_type (PCRef t) = TRef t"
| "ptr_cast_type (PCFnPtr s) = TFnPtr s"
| "ptr_cast_type PCUSize = TInt USize"
| "ptr_cast_type PCISize = TInt ISize"

datatype cil_node =
    NConst cil_const
  | NBinOp cil_node cil_node bin_op
  | NUnOp cil_node un_op
  | NLdLoc u32
  | NLdLocA u32
  | NLdArg u32
  | NLdArgA u32
  | NCall method_ref "cil_node list" bool
  | NIntCast cil_node cil_int extend_kind
  | NFloatCast cil_node cil_float bool
  | NRefToPtr cil_node
  | NPtrCast cil_node ptr_cast_res
  | NLdFieldAddress cil_node field_desc
  | NLdField cil_node field_desc
  | NLdInd cil_node cil_type bool
  | NSizeOf cil_type
  | NGetException
  | NIsInst cil_node cil_type
  | NCheckedCast cil_node cil_type
  | NCallI cil_node fn_sig "cil_node list"
  | NLocAlloc cil_node
  | NLdStaticField static_field_desc
  | NLdStaticFieldAddress static_field_desc
  | NLdFtn method_ref
  | NLdTypeToken cil_type
  | NLdLen cil_node
  | NLocAllocAlgined cil_type u64
  | NLdElelemRef cil_node cil_node
  | NLdElem cil_node cil_node cil_type
  | NUnboxAny cil_node cil_type
  | NNewArr cil_type cil_node
  | NBox cil_node cil_type

fun bin_op_name :: "bin_op \<Rightarrow> string" where
  "bin_op_name Add = ''add''" | "bin_op_name Eq = ''eq''" | "bin_op_name Sub = ''sub''"
| "bin_op_name Mul = ''mul''" | "bin_op_name LtUn = ''lt''" | "bin_op_name Lt = ''lt''"
| "bin_op_name GtUn = ''gt''" | "bin_op_name Gt = ''gt''" | "bin_op_name Or = ''or''"
| "bin_op_name XOr = ''xor''" | "bin_op_name And = ''and''" | "bin_op_name Rem = ''mod''"
| "bin_op_name RemUn = ''mod''" | "bin_op_name Shl = ''shl''" | "bin_op_name Shr = ''shr''"
| "bin_op_name ShrUn = ''shr''" | "bin_op_name DivUn = ''div''" | "bin_op_name Div = ''div''"

text \<open>
  \<open>child_nodes\<close> is \<^verbatim>\<open>visit_child_nodes\<close>, the children in the order they are visited. Of the two
  operands of \<open>NLdElelemRef\<close> only the array is visited.
\<close>

fun child_nodes :: "cil_node \<Rightarrow> cil_node list" where
  "child_nodes (NConst _) = []"
| "child_nodes (NLdLoc _) = []"
| "child_nodes (NLdLocA _) = []"
| "child_nodes (NLdArg _) = []"
| "child_nodes (NLdArgA _) = []"
| "child_nodes (NSizeOf _) = []"
| "child_nodes (NLocAllocAlgined _ _) = []"
| "child_nodes (NLdFtn _) = []"
| "child_nodes (NLdTypeToken _) = []"
| "child_nodes (NLdStaticField _) = []"
| "child_nodes (NLdStaticFieldAddress _) = []"
| "child_nodes NGetException = []"
| "child_nodes (NUnOp n _) = [n]"
| "child_nodes (NRefToPtr n) = [n]"
| "child_nodes (NPtrCast n _) = [n]"
| "child_nodes (NLdLen n) = [n]"
| "child_nodes (NLdFieldAddress n _) = [n]"
| "child_nodes (NLdField n _) = [n]"
| "child_nodes (NLdInd n _ _) = [n]"
| "child_nodes (NLocAlloc n) = [n]"
| "child_nodes (NIsInst n _) = [n]"
| "child_nodes (NCheckedCast n _) = [n]"
| "child_nodes (NIntCast n _ _) = [n]"
| "child_nodes (NFloatCast n _ _) = [n]"
| "child_nodes (NLdElelemRef n _) = [n]"
| "child_nodes (NNewArr _ n) = [n]"
| "child_nodes (NBox n _) = [n]"
| "child_nodes (NUnboxAny n _) = [n]"
| "child_nodes (NBinOp l r _) = [l, r]"
| "child_nodes (NLdElem a i _) = [a, i]"
| "child_nodes (NCall _ args _) = args"
| "child_nodes (NCallI p _ args) = p # args"

text \<open>
  \<^verbatim>\<open>CILNode::map\<close>: the operands are mapped first, in the order the code maps them (the arguments of
  an indirect call before its function pointer), then the closure sees the rebuilt node.
\<close>

type_synonym 's node_map = "cil_node \<Rightarrow> 's \<Rightarrow> cil_node \<times> 's"

fun map_node :: "'s node_map \<Rightarrow> cil_node \<Rightarrow> 's \<Rightarrow> cil_node \<times> 's"
and map_nodes :: "'s node_map \<Rightarrow> cil_node list \<Rightarrow> 's \<Rightarrow> cil_node list \<times> 's"
where
  "map_node f (NConst c) s = f (NConst c) s"
| "map_node f (NLdLoc l) s = f (NLdLoc l) s"
| "map_node f (NLdLocA l) s = f (NLdLocA l) s"
| "map_node f (NLdArg l) s = f (NLdArg l) s"
| "map_node f (NLdArgA l) s = f (NLdArgA l) s"
| "map_node f (NSizeOf t) s = f (NSizeOf t) s"
| "map_node f NGetException s = f NGetException s"
| "map_node f (NLocAllocAlgined t a) s = f (NLocAllocAlgined t a) s"
| "map_node f (NLdStaticField d) s = f (NLdStaticField d) s"
| "map_node f (NLdStaticFieldAddress d) s = f (NLdStaticFieldAddress d) s"
| "map_node f (NLdFtn m) s = f (NLdFtn m) s"
| "map_node f (NLdTypeToken t) s = f (NLdTypeToken t) s"
| "map_node f (NBinOp l r op) s =
     (let (l, s) = map_node f l s; (r, s) = map_node f r s in f (NBinOp l r op) s)"
| "map_node f (NUnOp n op) s = (let (n, s) = map_node f n s in f (NUnOp n op) s)"
| "map_node f (NCall m args pure) s = (let (args, s) = map_nodes f args s in f (NCall m args pure) s)"
| "map_node f (NIntCast n t e) s = (let (n, s) = map_node f n s in f (NIntCast n t e) s)"
| "map_node f (NFloatCast n t sg) s = (let (n, s) = map_node f n s in f (NFloatCast n t sg) s)"
| "map_node f (NRefToPtr n) s = (let (n, s) = map_node f n s in f (NRefToPtr n) s)"
| "map_node f (NPtrCast n t) s = (let (n, s) = map_node f n s in f (NPtrCast n t) s)"
| "map_node f (NLdFieldAddress n d) s = (let (n, s) = map_node f n s in f (NLdFieldAddress n d) s)"
| "map_node f (NLdField n d) s = (let (n, s) = map_node f n s in f (NLdField n d) s)"
| "map_node f (NLdInd n t v) s = (let (n, s) = map_node f n s in f (NLdInd n t v) s)"
| "map_node f (NIsInst n t) s = (let (n, s) = map_node f n s in f (NIsInst n t) s)"
| "map_node f (NCheckedCast n t) s = (let (n, s) = map_node f n s in f (NCheckedCast n t) s)"
| "map_node f (NCallI p sig args) s =
     (let (args, s) = map_nodes f args s; (p, s) = map_node f p s in f (NCallI p sig args) s)"
| "map_node f (NLocAlloc n) s = (let (n, s) = map_node f n s in f (NLocAlloc n) s)"
| "map_node f (NLdLen n) s = (let (n, s) = map_node f n s in f (NLdLen n) s)"
| "map_node f (NLdElelemRef a i) s =
     (let (a, s) = map_node f a s; (i, s) = map_node f i s in f (NLdElelemRef a i) s)"
| "map_node f (NLdElem a i t) s =
     (let (a, s) = map_node f a s; (i, s) = map_node f i s in f (NLdElem a i t) s)"
| "map_node f (NUnboxAny n t) s = (let (n, s) = map_node f n s in f (NUnboxAny n t) s)"
| "map_node f (NBox n t) s = (let (n, s) = map_node f n s in f (NBox n t) s)"
| "map_node f (NNewArr t n) s = (let (n, s) = map_node f n s in f (NNewArr t n) s)"
| "map_nodes f [] s = ([], s)"
| "map_nodes f (n # ns) s = (let (n, s) = map_node f n s; (ns, s) = map_nodes f ns s in (n # ns, s))"

section \<open>Roots\<close>

datatype cmp_kind = Ordered | Unordered | Signed | Unsigned

datatype branch_cond =
    BCTrue cil_node
  | BCFalse cil_node
  | BCEq cil_node cil_node
  | BCNe cil_node cil_node
  | BCLt cil_node cil_node cmp_kind
  | BCGt cil_node cil_node cmp_kind
  | BCLe cil_node cil_node cmp_kind
  | BCGe cil_node cil_node cmp_kind

fun cond_nodes :: "branch_cond \<Rightarrow> cil_node list" where
  "cond_nodes (BCTrue c) = [c]"
| "cond_nodes (BCFalse c) = [c]"
| "cond_nodes (BCEq l r) = [l, r]"
| "cond_nodes (BCNe l r) = [l, r]"
| "cond_nodes (BCLt l r _) = [l, r]"
| "cond_nodes (BCGt l r _) = [l, r]"
| "cond_nodes (BCLe l r _) = [l, r]"
| "cond_nodes (BCGe l r _) = [l, r]"

datatype cil_root =
    RStLoc u32 cil_node
  | RStArg u32 cil_node
  | RRet cil_node
  | RPop cil_node
  | RThrow cil_node
  | RVoidRet
  | RBreak
  | RNop
  | RInitFragmentBoundary
  | RBranch u32 u32 "branch_cond option"
  | RSourceFileInfo u32 u16 u16 u16 string
  | RSetField field_desc cil_node cil_node
  | RCall method_ref "cil_node list" bool
  | RStInd cil_node cil_node cil_type bool
  | RInitBlk cil_node cil_node cil_node
  | RCpBlk cil_node cil_node cil_node
  | RCallI cil_node fn_sig "cil_node list"
  | RExitSpecialRegion u32 u32
  | RTerminateRegion cil_root u8
  | RReThrow
  | RSetStaticField static_field_desc cil_node
  | RCpObj cil_node cil_node cil_type
  | RUnreachable string
  | RInitObj cil_node cil_type
  | RStElem cil_node cil_node cil_node cil_type

fun is_meaningufull :: "cil_root \<Rightarrow> bool" where
  "is_meaningufull RNop = False"
| "is_meaningufull (RSourceFileInfo _ _ _ _ _) = False"
| "is_meaningufull RInitFragmentBoundary = False"
| "is_meaningufull _ = True"

text \<open>\<^verbatim>\<open>visit_nodes\<close> and \<^verbatim>\<open>nodes\<close>: the operands in evaluation order.\<close>

fun root_nodes :: "cil_root \<Rightarrow> cil_node list" where
  "root_nodes (RUnreachable _) = []"
| "root_nodes (RSourceFileInfo _ _ _ _ _) = []"
| "root_nodes (RExitSpecialRegion _ _) = []"
| "root_nodes RVoidRet = []"
| "root_nodes RBreak = []"
| "root_nodes RNop = []"
| "root_nodes RInitFragmentBoundary = []"
| "root_nodes (RTerminateRegion _ _) = []"
| "root_nodes RReThrow = []"
| "root_nodes (RStLoc _ n) = [n]"
| "root_nodes (RStArg _ n) = [n]"
| "root_nodes (RRet n) = [n]"
| "root_nodes (RPop n) = [n]"
| "root_nodes (RThrow n) = [n]"
| "root_nodes (RInitObj n _) = [n]"
| "root_nodes (RSetStaticField _ n) = [n]"
| "root_nodes (RBranch _ _ c) = (case c of Some c \<Rightarrow> cond_nodes c | None \<Rightarrow> [])"
| "root_nodes (RSetField _ a v) = [a, v]"
| "root_nodes (RCall _ args _) = args"
| "root_nodes (RStInd a v _ _) = [a, v]"
| "root_nodes (RInitBlk a v n) = [a, v, n]"
| "root_nodes (RCpBlk a v n) = [a, v, n]"
| "root_nodes (RCallI p _ args) = args @ [p]"
| "root_nodes (RCpObj s d _) = [s, d]"
| "root_nodes (RStElem a i v _) = [a, i, v]"

fun child_roots :: "cil_root \<Rightarrow> cil_root list" where
  "child_roots (RTerminateRegion r _) = [r]"
| "child_roots _ = []"

text \<open>
  \<^verbatim>\<open>nodes_mut\<close> hands out references to the operands, in evaluation order; a caller that overwrites
  them all is \<open>set_root_nodes\<close>, with one replacement per operand.
\<close>

fun set_cond_nodes :: "branch_cond \<Rightarrow> cil_node list \<Rightarrow> branch_cond" where
  "set_cond_nodes (BCTrue _) [c] = BCTrue c"
| "set_cond_nodes (BCFalse _) [c] = BCFalse c"
| "set_cond_nodes (BCEq _ _) [l, r] = BCEq l r"
| "set_cond_nodes (BCNe _ _) [l, r] = BCNe l r"
| "set_cond_nodes (BCLt _ _ k) [l, r] = BCLt l r k"
| "set_cond_nodes (BCGt _ _ k) [l, r] = BCGt l r k"
| "set_cond_nodes (BCLe _ _ k) [l, r] = BCLe l r k"
| "set_cond_nodes (BCGe _ _ k) [l, r] = BCGe l r k"
| "set_cond_nodes c _ = c"

fun set_root_nodes :: "cil_root \<Rightarrow> cil_node list \<Rightarrow> cil_root" where
  "set_root_nodes (RStLoc l _) [n] = RStLoc l n"
| "set_root_nodes (RStArg l _) [n] = RStArg l n"
| "set_root_nodes (RRet _) [n] = RRet n"
| "set_root_nodes (RPop _) [n] = RPop n"
| "set_root_nodes (RThrow _) [n] = RThrow n"
| "set_root_nodes (RInitObj _ t) [n] = RInitObj n t"
| "set_root_nodes (RSetStaticField d _) [n] = RSetStaticField d n"
| "set_root_nodes (RBranch t s c) ns = RBranch t s (map_option (\<lambda>c. set_cond_nodes c ns) c)"
| "set_root_nodes (RSetField d _ _) [a, v] = RSetField d a v"
| "set_root_nodes (RCall m _ p) ns = RCall m ns p"
| "set_root_nodes (RStInd _ _ t vol) [a, v] = RStInd a v t vol"
| "set_root_nodes (RInitBlk _ _ _) [a, v, n] = RInitBlk a v n"
| "set_root_nodes (RCpBlk _ _ _) [a, v, n] = RCpBlk a v n"
| "set_root_nodes (RCallI p s _) ns = (if ns = [] then RCallI p s [] else RCallI (last ns) s (butlast ns))"
| "set_root_nodes (RCpObj _ _ t) [s, d] = RCpObj s d t"
| "set_root_nodes (RStElem _ _ _ t) [a, i, v] = RStElem a i v t"
| "set_root_nodes r _ = r"

text \<open>\<^verbatim>\<open>CILRoot::map\<close>.\<close>

type_synonym 's root_map = "cil_root \<Rightarrow> 's \<Rightarrow> cil_root \<times> 's"

fun map_cond :: "'s node_map \<Rightarrow> branch_cond \<Rightarrow> 's \<Rightarrow> branch_cond \<times> 's" where
  "map_cond f (BCTrue c) s = (let (c, s) = map_node f c s in (BCTrue c, s))"
| "map_cond f (BCFalse c) s = (let (c, s) = map_node f c s in (BCFalse c, s))"
| "map_cond f (BCEq l r) s = (let (l, s) = map_node f l s; (r, s) = map_node f r s in (BCEq l r, s))"
| "map_cond f (BCNe l r) s = (let (l, s) = map_node f l s; (r, s) = map_node f r s in (BCNe l r, s))"
| "map_cond f (BCLt l r k) s = (let (l, s) = map_node f l s; (r, s) = map_node f r s in (BCLt l r k, s))"
| "map_cond f (BCGt l r k) s = (let (l, s) = map_node f l s; (r, s) = map_node f r s in (BCGt l r k, s))"
| "map_cond f (BCLe l r k) s = (let (l, s) = map_node f l s; (r, s) = map_node f r s in (BCLe l r k, s))"
| "map_cond f (BCGe l r k) s = (let (l, s) = map_node f l s; (r, s) = map_node f r s in (BCGe l r k, s))"

fun map_root :: "'s root_map \<Rightarrow> 's node_map \<Rightarrow> cil_root \<Rightarrow> 's \<Rightarrow> cil_root \<times> 's" where
  "map_root g f (RStLoc l n) s = (let (n, s) = map_node f n s in g (RStLoc l n) s)"
| "map_root g f (RStArg l n) s = (let (n, s) = map_node f n s in g (RStArg l n) s)"
| "map_root g f (RRet n) s = (let (n, s) = map_node f n s in g (RRet n) s)"
| "map_root g f (RInitObj n t) s = (let (n, s) = map_node f n s in g (RInitObj n t) s)"
| "map_root g f (RPop n) s = (let (n, s) = map_node f n s in g (RPop n) s)"
| "map_root g f (RThrow n) s = (let (n, s) = map_node f n s in g (RThrow n) s)"
| "map_root g f (RTerminateRegion r reason) s =
     (let (r, s) = map_root g f r s in g (RTerminateRegion r reason) s)"
| "map_root g f (RBranch t u c) s =
     (let (c, s) = (case c of None \<Rightarrow> (None, s) | Some c \<Rightarrow> let (c, s) = map_cond f c s in (Some c, s))
      in g (RBranch t u c) s)"
| "map_root g f (RSetStaticField d n) s = (let (n, s) = map_node f n s in g (RSetStaticField d n) s)"
| "map_root g f (RSetField d a v) s =
     (let (a, s) = map_node f a s; (v, s) = map_node f v s in g (RSetField d a v) s)"
| "map_root g f (RCall m args p) s = (let (args, s) = map_nodes f args s in g (RCall m args p) s)"
| "map_root g f (RStInd a v t vol) s =
     (let (a, s) = map_node f a s; (v, s) = map_node f v s in g (RStInd a v t vol) s)"
| "map_root g f (RCpObj x d t) s =
     (let (x, s) = map_node f x s; (d, s) = map_node f d s in g (RCpObj x d t) s)"
| "map_root g f (RInitBlk a v n) s =
     (let (a, s) = map_node f a s; (v, s) = map_node f v s; (n, s) = map_node f n s in g (RInitBlk a v n) s)"
| "map_root g f (RCpBlk a v n) s =
     (let (a, s) = map_node f a s; (v, s) = map_node f v s; (n, s) = map_node f n s in g (RCpBlk a v n) s)"
| "map_root g f (RCallI p sig args) s =
     (let (args, s) = map_nodes f args s; (p, s) = map_node f p s in g (RCallI p sig args) s)"
| "map_root g f (RStElem a i v t) s =
     (let (a, s) = map_node f a s; (i, s) = map_node f i s; (v, s) = map_node f v s in g (RStElem a i v t) s)"
| "map_root g f r s = g r s"


section \<open>The iterator\<close>

datatype cil_elem = ENode cil_node | ERoot cil_root

fun elem_children :: "cil_elem \<Rightarrow> cil_elem list" where
  "elem_children (ENode n) = map ENode (child_nodes n)"
| "elem_children (ERoot r) = map ENode (root_nodes r) @ map ERoot (child_roots r)"

text \<open>
  \<^verbatim>\<open>CILIter::next\<close> on the work list, whose head is the top of the code's stack. \<open>cil_iter\<close> is the
  sequence the iterator yields.
\<close>

fun iter_next :: "cil_elem list \<Rightarrow> (cil_elem \<times> cil_elem list) option" where
  "iter_next [] = None"
| "iter_next (e # elems) = Some (e, elem_children e @ elems)"

lemma size_list_weight: "sum_list (map (\<lambda>n. 2 * size n + 1) ns) \<le> 2 * size_list size (ns :: cil_node list)"
  by (induction ns) auto

lemma child_nodes_weight: "sum_list (map (\<lambda>n. 2 * size n + 1) (child_nodes n)) < 2 * size n + 1"
proof (cases n)
  case (NCall m args p)
  then show ?thesis using size_list_weight [of args] by simp
next
  case (NCallI p sg args)
  then show ?thesis using size_list_weight [of args] by simp
qed simp_all

fun root_weight :: "cil_root \<Rightarrow> nat" where
  "root_weight (RTerminateRegion r _) = Suc (root_weight r)"
| "root_weight r = Suc (sum_list (map (\<lambda>n. 2 * size n + 1) (root_nodes r)))"

definition work_weight :: "cil_elem list \<Rightarrow> nat" where
  "work_weight es = sum_list (map (\<lambda>e. case e of ENode n \<Rightarrow> 2 * size n + 1 | ERoot r \<Rightarrow> root_weight r) es)"

lemma work_weight_nodes: "work_weight (map ENode ns) = sum_list (map (\<lambda>n. 2 * size n + 1) ns)"
  by (simp add: work_weight_def comp_def)

lemma elem_children_weight: "work_weight (elem_children e) < work_weight [e]"
proof (cases e)
  case (ENode n)
  then show ?thesis using child_nodes_weight [of n] by (simp add: work_weight_nodes) (simp add: work_weight_def)
next
  case (ERoot r)
  then show ?thesis by (cases r) (simp_all add: work_weight_def comp_def)
qed

function cil_iter :: "cil_elem list \<Rightarrow> cil_elem list" where
  "cil_iter elems = (case iter_next elems of None \<Rightarrow> [] | Some (e, elems) \<Rightarrow> e # cil_iter elems)"
  by pat_completeness auto
termination
proof (relation "measure work_weight", goal_cases)
  case (2 elems x2 e st)
  then show ?case using elem_children_weight [of e] by (cases elems) (auto simp: work_weight_def)
qed simp

declare cil_iter.simps [simp del]

lemma cil_iter_Nil [simp]: "cil_iter [] = []"
  by (simp add: cil_iter.simps)

lemma cil_iter_Cons [simp]: "cil_iter (e # es) = e # cil_iter (elem_children e @ es)"
  by (subst cil_iter.simps) simp

lemma cil_iter_append: "cil_iter (xs @ ys) = cil_iter xs @ cil_iter ys"
proof (induction xs rule: measure_induct_rule [where f = work_weight])
  case (less xs)
  show ?case
  proof (cases xs)
    case (Cons e es)
    have "work_weight (elem_children e @ es) < work_weight xs"
      using elem_children_weight [of e] Cons by (simp add: work_weight_def)
    then show ?thesis using less [of "elem_children e @ es"] Cons by simp
  qed simp
qed

text \<open>The elements of a node are the node and, in order, the elements of its children.\<close>

lemma cil_iter_map_ENode: "cil_iter (map ENode ns) = concat (map (\<lambda>n. cil_iter [ENode n]) ns)"
  by (induction ns) (simp_all add: cil_iter_append)

lemma cil_iter_node: "cil_iter [ENode n] = ENode n # concat (map (\<lambda>n. cil_iter [ENode n]) (child_nodes n))"
  by (subst cil_iter_Cons) (simp only: elem_children.simps append_Nil2 cil_iter_map_ENode)

section \<open>Occurrences\<close>

text \<open>
  All operands of a node in the order they are evaluated, written out for every instruction. The visiting
  and mapping functions are compared with this list.
\<close>

fun operands :: "cil_node \<Rightarrow> cil_node list" where
  "operands (NLdElelemRef a i) = [a, i]"
| "operands (NLdElem a i _) = [a, i]"
| "operands (NBinOp l r _) = [l, r]"
| "operands (NCall _ args _) = args"
| "operands (NCallI p _ args) = p # args"
| "operands (NUnOp n _) = [n]"
| "operands (NRefToPtr n) = [n]"
| "operands (NPtrCast n _) = [n]"
| "operands (NLdLen n) = [n]"
| "operands (NLdFieldAddress n _) = [n]"
| "operands (NLdField n _) = [n]"
| "operands (NLdInd n _ _) = [n]"
| "operands (NLocAlloc n) = [n]"
| "operands (NIsInst n _) = [n]"
| "operands (NCheckedCast n _) = [n]"
| "operands (NIntCast n _ _) = [n]"
| "operands (NFloatCast n _ _) = [n]"
| "operands (NNewArr _ n) = [n]"
| "operands (NBox n _) = [n]"
| "operands (NUnboxAny n _) = [n]"
| "operands _ = []"

lemma child_nodes_size: "c \<in> set (child_nodes n) \<Longrightarrow> size c < size n"
proof -
  assume c: "c \<in> set (child_nodes n)"
  then have "2 * size c + 1 \<le> sum_list (map (\<lambda>n. 2 * size n + 1) (child_nodes n))"
    by (intro member_le_sum_list) auto
  then show ?thesis using child_nodes_weight [of n] by simp
qed

lemma operands_size [termination_simp]: "c \<in> set (operands n) \<Longrightarrow> size c < size n"
proof -
  assume "c \<in> set (operands n)"
  then have "c \<in> set (child_nodes n) \<or> (\<exists>a i. n = NLdElelemRef a i \<and> c \<in> {a, i})" by (cases n) simp_all
  then show "size c < size n" using child_nodes_size [of c n] by auto
qed

fun subterms :: "cil_node \<Rightarrow> cil_node list" where
  "subterms n = n # concat (map subterms (operands n))"

declare subterms.simps [simp del]

fun is_ldelem_ref :: "cil_node \<Rightarrow> bool" where
  "is_ldelem_ref (NLdElelemRef _ _) = True"
| "is_ldelem_ref _ = False"

lemma operands_eq_child_nodes: "\<not> is_ldelem_ref n \<Longrightarrow> operands n = child_nodes n"
  by (cases n) simp_all

lemma iter_subterms:
  "\<forall>m\<in>set (subterms n). \<not> is_ldelem_ref m \<Longrightarrow> cil_iter [ENode n] = map ENode (subterms n)"
proof (induction n rule: subterms.induct)
  case (1 n)
  have n: "operands n = child_nodes n"
    using 1(2) by (intro operands_eq_child_nodes) (auto simp: subterms.simps [of n])
  have "cil_iter [ENode c] = map ENode (subterms c)" if "c \<in> set (child_nodes n)" for c
    using that 1 n by (auto simp: subterms.simps [of n])
  then have m: "map (\<lambda>c. cil_iter [ENode c]) (child_nodes n) = map (map ENode \<circ> subterms) (child_nodes n)"
    by (intro map_cong) simp_all
  have "cil_iter [ENode n] = ENode n # concat (map (\<lambda>c. cil_iter [ENode c]) (child_nodes n))"
    by (rule cil_iter_node)
  also have "\<dots> = map ENode (subterms n)"
    unfolding subterms.simps [of n] n m by (simp only: list.map map_concat map_map)
  finally show ?case .
qed

text \<open>The nodes of a tree in pre-order, without what hangs below the index of an element-reference load.\<close>

definition searched_operands :: "cil_node \<Rightarrow> cil_node list" where
  "searched_operands n = (case n of NLdElelemRef a _ \<Rightarrow> [a] | _ \<Rightarrow> operands n)"

lemma searched_operands_size [termination_simp]: "c \<in> set (searched_operands n) \<Longrightarrow> size c < size n"
  using operands_size [of c n] by (cases n) (auto simp: searched_operands_def)

fun searched :: "cil_node \<Rightarrow> cil_node list" where
  "searched n = n # concat (map searched (searched_operands n))"

declare searched.simps [simp del]

lemma iter_searched: "cil_iter [ENode n] = map ENode (searched n)"
proof (induction n rule: searched.induct)
  case (1 n)
  have cs: "child_nodes n = searched_operands n" by (cases n) (simp_all add: searched_operands_def)
  have "map (\<lambda>c. cil_iter [ENode c]) (searched_operands n) = map (map ENode \<circ> searched) (searched_operands n)"
    using 1 by (intro map_cong) simp_all
  then show ?case
    using cil_iter_node [of n] unfolding cs searched.simps [of n] by (simp only: list.map map_concat map_map)
qed

text \<open>
  C28. The iterator over a tree yields the nodes of the tree in pre-order, a node before its operands and
  the operands in the order they are evaluated: every occurrence of every node exactly once when the
  tree has no element-reference load (\<^verbatim>\<open>ldelem.ref\<close>). The index operand of such a load is not visited,
  nor anything below it, although the mapping functions and the exporters do visit it.
\<close>

theorem iter_complete:
  "cil_iter [ENode n] = map ENode (searched n)
   \<and> ((\<forall>m\<in>set (subterms n). \<not> is_ldelem_ref m) \<longrightarrow> cil_iter [ENode n] = map ENode (subterms n))"
  using iter_searched [of n] iter_subterms [of n] by blast

theorem iter_complete_witness:
  "cil_iter [ENode (NBinOp (NLdLoc 1) (NLdArg 0) Add)] =
     map ENode [NBinOp (NLdLoc 1) (NLdArg 0) Add, NLdLoc 1, NLdArg 0]"
proof -
  have "subterms (NBinOp (NLdLoc 1) (NLdArg 0) Add) = [NBinOp (NLdLoc 1) (NLdArg 0) Add, NLdLoc 1, NLdArg 0]"
    by (simp add: subterms.simps)
  then show ?thesis using iter_complete [THEN conjunct2, of "NBinOp (NLdLoc 1) (NLdArg 0) Add"] by simp
qed

section \<open>Mapping\<close>

text \<open>A closure that keeps the node and records it sees the nodes of the tree operands first.\<close>

fun mapped_operands :: "cil_node \<Rightarrow> cil_node list" where
  "mapped_operands (NCallI p _ args) = args @ [p]"
| "mapped_operands n = operands n"

lemma mapped_operands_size [termination_simp]: "c \<in> set (mapped_operands n) \<Longrightarrow> size c < size n"
  using operands_size [of c n] by (cases n) auto

fun post_order :: "cil_node \<Rightarrow> cil_node list" where
  "post_order n = concat (map post_order (mapped_operands n)) @ [n]"

declare post_order.simps [simp del]

lemma map_nodes_records:
  "(\<And>n s. n \<in> set ns \<Longrightarrow> map_node (\<lambda>n s. (n, s @ [n])) n s = (n, s @ post_order n)) \<Longrightarrow>
   map_nodes (\<lambda>n s. (n, s @ [n])) ns s = (ns, s @ concat (map post_order ns))"
  by (induction ns arbitrary: s) simp_all

lemma map_node_records: "map_node (\<lambda>n s. (n, s @ [n])) n s = (n, s @ post_order n)"
proof (induction n arbitrary: s)
  case (NCall m args p)
  then show ?case using map_nodes_records [of args s] by (simp add: post_order.simps [of "NCall _ _ _"])
next
  case (NCallI p sg args)
  then show ?case using map_nodes_records [of args s] by (simp add: post_order.simps [of "NCallI _ _ _"])
qed (subst post_order.simps, simp)+

lemma map_node_post_order_parts:
  "map_node (\<lambda>n s. (n, s @ [n])) n [] = (n, post_order n)"
  "mset (post_order n) = mset (subterms n)"
proof -
  show "map_node (\<lambda>n s. (n, s @ [n])) n [] = (n, post_order n)" using map_node_records [of n "[]"] by simp
  show "mset (post_order n) = mset (subterms n)"
  proof (induction n rule: post_order.induct)
    case (1 n)
    have "mset (mapped_operands n) = mset (operands n)" by (cases n) simp_all
    then have "set (mapped_operands n) = set (operands n)" by (metis set_mset_mset)
    then have "mset (concat (map post_order (mapped_operands n))) = mset (concat (map subterms (mapped_operands n)))"
      using 1 by (auto simp: mset_concat intro!: arg_cong [where f = sum_list] map_cong)
    also have "\<dots> = sum_mset (image_mset (\<lambda>c. mset (subterms c)) (mset (mapped_operands n)))"
      by (simp add: mset_concat sum_mset_sum_list comp_def flip: mset_map)
    also have "\<dots> = mset (concat (map subterms (operands n)))"
      using \<open>mset (mapped_operands n) = mset (operands n)\<close>
      by (simp add: mset_concat sum_mset_sum_list comp_def flip: mset_map)
    finally show ?case by (simp add: post_order.simps [of n] subterms.simps [of n])
  qed
qed

text \<open>
  C30. \<^verbatim>\<open>CILNode::map\<close> shows its closure every occurrence of every node exactly once, operands before
  the node they belong to, index operands included; a closure that returns its argument leaves the
  tree unchanged, call purity included.
\<close>

theorem map_node_post_order:
  "map_node (\<lambda>n s. (n, s @ [n])) n [] = (n, post_order n) \<and> mset (post_order n) = mset (subterms n)"
  using map_node_post_order_parts by blast

section \<open>Operands of roots\<close>

lemma root_nodes_mut_parts:
  "length ns = length (root_nodes r) \<Longrightarrow> root_nodes (set_root_nodes r ns) = ns"
  "set_root_nodes r (root_nodes r) = r"
proof -
  have c: "length ns = length (cond_nodes c) \<Longrightarrow> cond_nodes (set_cond_nodes c ns) = ns" for c
    by (cases c; cases ns; cases "tl ns"; cases "tl (tl ns)") simp_all
  assume "length ns = length (root_nodes r)"
  then show "root_nodes (set_root_nodes r ns) = ns"
    using c by (cases r; cases ns; cases "tl ns"; cases "tl (tl ns)"; cases "tl (tl (tl ns))") (auto split: option.splits)
next
  show "set_root_nodes r (root_nodes r) = r"
  proof (cases r)
    case (RBranch t s c)
    then show ?thesis
    proof (cases c)
      case (Some b)
      then show ?thesis using RBranch by (cases b) simp_all
    qed simp
  qed simp_all
qed

text \<open>
  Overwriting the operands of a root through \<^verbatim>\<open>nodes_mut\<close> is exact: as many operands are handed
  out as \<^verbatim>\<open>nodes\<close> lists, the replaced root has the replacements as its operands in the same order,
  and writing the operands back unchanged gives the same root.
\<close>

theorem root_nodes_mut:
  "(length ns = length (root_nodes r) \<longrightarrow> root_nodes (set_root_nodes r ns) = ns) \<and> set_root_nodes r (root_nodes r) = r"
  using root_nodes_mut_parts by blast

theorem root_nodes_mut_witness:
  "root_nodes (set_root_nodes (RCallI (NLdLoc 0) (FnSig [TBool] TVoid) [NLdArg 0]) [NLdArg 1, NLdLoc 2]) = [NLdArg 1, NLdLoc 2]"
  by (rule root_nodes_mut [THEN conjunct1, rule_format]) simp

end
