(* ===== verification/MetaTables.thy ===== *)
theory MetaTables
  imports SigBlob CilIr
begin

text \<open>
  The type-reference part of the metadata builder (\<^verbatim>\<open>cilly/src/ir/pe_exporter/tables.rs\<close>): tokens and
  coded indices, the \<open>AssemblyRef\<close>, \<open>TypeRef\<close>, \<open>TypeDef\<close>, \<open>TypeSpec\<close>, \<open>ModuleRef\<close> and
  \<open>MemberRef\<close> rows with their caches, and the resolution of a class reference to a row. A Rust
  \<^verbatim>\<open>str\<close> is the list of its UTF-8 bytes, one \<open>char\<close> per byte. \<^verbatim>\<open>unwrap\<close>, \<^verbatim>\<open>assert!\<close> and \<^verbatim>\<open>panic!\<close>
  are \<open>Inl\<close> values. The builder is shown to satisfy the contract the signature encoder relies on.
\<close>

section \<open>Tokens\<close>

type_synonym token = u32

abbreviation (input) TABLE_MODULE :: u32 where "TABLE_MODULE \<equiv> 0x00"
abbreviation (input) TABLE_TYPE_REF :: u32 where "TABLE_TYPE_REF \<equiv> 0x01"
abbreviation (input) TABLE_TYPE_DEF :: u32 where "TABLE_TYPE_DEF \<equiv> 0x02"
abbreviation (input) TABLE_FIELD :: u32 where "TABLE_FIELD \<equiv> 0x04"
abbreviation (input) TABLE_METHOD_DEF :: u32 where "TABLE_METHOD_DEF \<equiv> 0x06"
abbreviation (input) TABLE_PARAM :: u32 where "TABLE_PARAM \<equiv> 0x08"
abbreviation (input) TABLE_INTERFACE_IMPL :: u32 where "TABLE_INTERFACE_IMPL \<equiv> 0x09"
abbreviation (input) TABLE_MEMBER_REF :: u32 where "TABLE_MEMBER_REF \<equiv> 0x0A"
abbreviation (input) TABLE_CONSTANT :: u32 where "TABLE_CONSTANT \<equiv> 0x0B"
abbreviation (input) TABLE_CUSTOM_ATTRIBUTE :: u32 where "TABLE_CUSTOM_ATTRIBUTE \<equiv> 0x0C"
abbreviation (input) TABLE_CLASS_LAYOUT :: u32 where "TABLE_CLASS_LAYOUT \<equiv> 0x0F"
abbreviation (input) TABLE_FIELD_LAYOUT :: u32 where "TABLE_FIELD_LAYOUT \<equiv> 0x10"
abbreviation (input) TABLE_STAND_ALONE_SIG :: u32 where "TABLE_STAND_ALONE_SIG \<equiv> 0x11"
abbreviation (input) TABLE_EVENT_MAP :: u32 where "TABLE_EVENT_MAP \<equiv> 0x12"
abbreviation (input) TABLE_EVENT :: u32 where "TABLE_EVENT \<equiv> 0x14"
abbreviation (input) TABLE_PROPERTY_MAP :: u32 where "TABLE_PROPERTY_MAP \<equiv> 0x15"
abbreviation (input) TABLE_PROPERTY :: u32 where "TABLE_PROPERTY \<equiv> 0x17"
abbreviation (input) TABLE_METHOD_SEMANTICS :: u32 where "TABLE_METHOD_SEMANTICS \<equiv> 0x18"
abbreviation (input) TABLE_METHOD_IMPL :: u32 where "TABLE_METHOD_IMPL \<equiv> 0x19"
abbreviation (input) TABLE_MODULE_REF :: u32 where "TABLE_MODULE_REF \<equiv> 0x1A"
abbreviation (input) TABLE_TYPE_SPEC :: u32 where "TABLE_TYPE_SPEC \<equiv> 0x1B"
abbreviation (input) TABLE_IMPL_MAP :: u32 where "TABLE_IMPL_MAP \<equiv> 0x1C"
abbreviation (input) TABLE_FIELD_RVA :: u32 where "TABLE_FIELD_RVA \<equiv> 0x1D"
abbreviation (input) TABLE_ASSEMBLY :: u32 where "TABLE_ASSEMBLY \<equiv> 0x20"
abbreviation (input) TABLE_ASSEMBLY_REF :: u32 where "TABLE_ASSEMBLY_REF \<equiv> 0x23"
abbreviation (input) TABLE_GENERIC_PARAM :: u32 where "TABLE_GENERIC_PARAM \<equiv> 0x2A"
abbreviation (input) TABLE_METHOD_SPEC :: u32 where "TABLE_METHOD_SPEC \<equiv> 0x2B"
abbreviation (input) TABLE_USER_STRING :: u32 where "TABLE_USER_STRING \<equiv> 0x70"

text \<open>The debug assertion on the table id of \<^verbatim>\<open>Token::new\<close> holds of every constant above.\<close>

definition token_new :: "u32 \<Rightarrow> u32 \<Rightarrow> token" where
  "token_new table rid = push_bit 24 table OR rid"

definition token_table :: "token \<Rightarrow> u32" where
  "token_table t = drop_bit 24 t"

definition token_rid :: "token \<Rightarrow> u32" where
  "token_rid t = t AND 0x00FFFFFF"

datatype table_panic =
    NotAMember u32
  | RowOverflow
  | TableHeap heap_panic
  | TableSig sig_panic
  | MissingTypeDef string
  | GenericArityMismatch
  | WrongTable u32
  | NoRow nat
  | BadEnumConstant
  | BadNullable u8
  | NotParallel
  | SequenceOverflow
  | NotStatic
  | HasNewSlot
  | NotContiguous u32
  | NoAccessor
  | NoPendingRva u32
  | DuplicateRva u32
  | NoParam u16
  | TooManyNamed
  | NoReceiver

section \<open>Coded indices\<close>

definition coded :: "nat \<Rightarrow> (u32 \<rightharpoonup> u32) \<Rightarrow> token \<Rightarrow> (table_panic, u32) result" where
  "coded bits tag t =
     (case tag (token_table t) of
        Some g \<Rightarrow> Inr (push_bit bits (token_rid t) OR g)
      | None \<Rightarrow> Inl (NotAMember (token_table t)))"

definition encode_type_def_or_ref_token :: "token \<Rightarrow> (table_panic, u32) result" where
  "encode_type_def_or_ref_token =
     coded 2 [TABLE_TYPE_DEF \<mapsto> 0, TABLE_TYPE_REF \<mapsto> 1, TABLE_TYPE_SPEC \<mapsto> 2]"

definition encode_resolution_scope :: "token option \<Rightarrow> (table_panic, u32) result" where
  "encode_resolution_scope t =
     (case t of
        None \<Rightarrow> Inr 0
      | Some t \<Rightarrow> coded 2 [TABLE_MODULE \<mapsto> 0, TABLE_MODULE_REF \<mapsto> 1, TABLE_ASSEMBLY_REF \<mapsto> 2, TABLE_TYPE_REF \<mapsto> 3] t)"

definition encode_member_ref_parent :: "token \<Rightarrow> (table_panic, u32) result" where
  "encode_member_ref_parent =
     coded 3 [TABLE_TYPE_DEF \<mapsto> 0, TABLE_TYPE_REF \<mapsto> 1, TABLE_MODULE_REF \<mapsto> 2, TABLE_METHOD_DEF \<mapsto> 3,
              TABLE_TYPE_SPEC \<mapsto> 4]"

definition encode_method_def_or_ref :: "token \<Rightarrow> (table_panic, u32) result" where
  "encode_method_def_or_ref = coded 1 [TABLE_METHOD_DEF \<mapsto> 0, TABLE_MEMBER_REF \<mapsto> 1]"

definition encode_has_custom_attribute :: "token \<Rightarrow> (table_panic, u32) result" where
  "encode_has_custom_attribute =
     coded 5 [TABLE_METHOD_DEF \<mapsto> 0, TABLE_FIELD \<mapsto> 1, TABLE_TYPE_REF \<mapsto> 2, TABLE_TYPE_DEF \<mapsto> 3,
              TABLE_PARAM \<mapsto> 4, TABLE_INTERFACE_IMPL \<mapsto> 5, TABLE_MEMBER_REF \<mapsto> 6, TABLE_MODULE \<mapsto> 7,
              TABLE_PROPERTY \<mapsto> 9, TABLE_ASSEMBLY \<mapsto> 14, TABLE_ASSEMBLY_REF \<mapsto> 15, TABLE_TYPE_SPEC \<mapsto> 13]"

definition encode_custom_attribute_type :: "token \<Rightarrow> (table_panic, u32) result" where
  "encode_custom_attribute_type = coded 3 [TABLE_METHOD_DEF \<mapsto> 2, TABLE_MEMBER_REF \<mapsto> 3]"

definition encode_member_forwarded :: "token \<Rightarrow> (table_panic, u32) result" where
  "encode_member_forwarded = coded 1 [TABLE_FIELD \<mapsto> 0, TABLE_METHOD_DEF \<mapsto> 1]"

definition encode_type_or_method_def :: "token \<Rightarrow> (table_panic, u32) result" where
  "encode_type_or_method_def = coded 1 [TABLE_TYPE_DEF \<mapsto> 0, TABLE_METHOD_DEF \<mapsto> 1]"

definition encode_has_semantics :: "token \<Rightarrow> (table_panic, u32) result" where
  "encode_has_semantics = coded 1 [TABLE_EVENT \<mapsto> 0, TABLE_PROPERTY \<mapsto> 1]"

text \<open>The fourth value of the two-bit tag is \<^verbatim>\<open>unreachable!\<close>.\<close>

definition decode_type_def_or_ref :: "u32 \<Rightarrow> token option" where
  "decode_type_def_or_ref v =
     (let tag = v AND 0x3; rid = drop_bit 2 v in
      if tag = 0 then Some (token_new TABLE_TYPE_DEF rid)
      else if tag = 1 then Some (token_new TABLE_TYPE_REF rid)
      else if tag = 2 then Some (token_new TABLE_TYPE_SPEC rid)
      else None)"

section \<open>Rows and the builder\<close>

datatype dotnet_runtime = Net10 | UnityNetStandard21

fun assembly_ver_tuple :: "dotnet_runtime \<Rightarrow> u16 \<times> u16 \<times> u16 \<times> u16" where
  "assembly_ver_tuple Net10 = (10, 0, 0, 0)"
| "assembly_ver_tuple UnityNetStandard21 = (4, 0, 0, 0)"

record assembly_ref_row =
  ar_version :: "u16 \<times> u16 \<times> u16 \<times> u16"
  ar_flags :: u32
  ar_public_key_or_token :: u32
  ar_name :: u32
  ar_culture :: u32
  ar_hash_value :: u32

record type_ref_row =
  tr_resolution_scope :: u32
  tr_namespace :: u32
  tr_name :: u32

record type_def_row =
  td_flags :: u32
  td_name :: u32
  td_namespace :: u32
  td_extends :: u32
  td_field_list :: u32
  td_method_list :: u32

record class_layout_row =
  cl_packing_size :: u16
  cl_class_size :: u32
  cl_parent :: u32

record interface_impl_row =
  ii_class :: u32
  ii_interface :: u32

record member_ref_row =
  mr_class :: u32
  mr_name :: u32
  mr_signature :: u32

record module_row =
  mo_name :: u32
  mo_mvid :: u32

record field_row =
  fld_flags :: u16
  fld_name :: u32
  fld_signature :: u32

record method_def_row =
  mdf_rva :: u32
  mdf_impl_flags :: u16
  mdf_flags :: u16
  mdf_name :: u32
  mdf_signature :: u32
  mdf_param_list :: u32

record param_row =
  pa_flags :: u16
  pa_sequence :: u16
  pa_name :: u32

record constant_row =
  cn_type_code :: u8
  cn_parent :: u32
  cn_value :: u32

record custom_attribute_row =
  ca_parent :: u32
  ca_ctor :: u32
  ca_value :: u32

record field_layout_row =
  fl_offset :: u32
  fl_field :: u32

record impl_map_row =
  im_mapping_flags :: u16
  im_member_forwarded :: u32
  im_import_name :: u32
  im_import_scope :: u32

record field_rva_row =
  fv_rva :: u32
  fv_field :: u32

record assembly_row =
  ay_hash_alg_id :: u32
  ay_version :: "u16 \<times> u16 \<times> u16 \<times> u16"
  ay_flags :: u32
  ay_public_key :: u32
  ay_name :: u32
  ay_culture :: u32

record method_spec_row =
  ms_method :: u32
  ms_instantiation :: u32

record method_impl_row =
  mi_class :: u32
  mi_method_body :: u32
  mi_method_declaration :: u32

record event_map_row =
  em_parent :: u32
  em_event_list :: u32

record event_row =
  ev_flags :: u16
  ev_name :: u32
  ev_type :: u32

record property_map_row =
  pm_parent :: u32
  pm_property_list :: u32

record property_row =
  pr_flags :: u16
  pr_name :: u32
  pr_signature :: u32

record method_semantics_row =
  se_semantics :: u16
  se_method :: u32
  se_association :: u32

record generic_param_row =
  gp_number :: u16
  gp_flags :: u16
  gp_owner :: u32
  gp_name :: u32

text \<open>
  The builder: the heaps, one list of rows for each table, the caches. A table with a single column is the list
  of that column.
\<close>

record metadata_builder =
  mb_strings :: strings_heap
  mb_blobs :: blob_heap
  mb_guids :: guid_heap
  mb_user_strings :: user_string_heap
  mb_module :: "module_row list"
  mb_type_ref :: "type_ref_row list"
  mb_type_def :: "type_def_row list"
  mb_field :: "field_row list"
  mb_method_def :: "method_def_row list"
  mb_param :: "param_row list"
  mb_interface_impl :: "interface_impl_row list"
  mb_member_ref :: "member_ref_row list"
  mb_constant :: "constant_row list"
  mb_custom_attribute :: "custom_attribute_row list"
  mb_class_layout :: "class_layout_row list"
  mb_field_layout :: "field_layout_row list"
  mb_standalone_sig :: "u32 list"
  mb_module_ref :: "u32 list"
  mb_type_spec :: "u32 list"
  mb_impl_map :: "impl_map_row list"
  mb_field_rva :: "field_rva_row list"
  mb_assembly :: "assembly_row list"
  mb_assembly_ref :: "assembly_ref_row list"
  mb_method_spec :: "method_spec_row list"
  mb_method_impl :: "method_impl_row list"
  mb_event_map :: "event_map_row list"
  mb_event :: "event_row list"
  mb_property_map :: "property_map_row list"
  mb_property :: "property_row list"
  mb_method_semantics :: "method_semantics_row list"
  mb_generic_param :: "generic_param_row list"
  mb_type_ref_cache :: "u32 \<times> string \<times> string \<rightharpoonup> token"
  mb_type_def_cache :: "string \<times> string \<rightharpoonup> token"
  mb_member_ref_cache :: "u32 \<times> string \<times> u32 \<rightharpoonup> token"
  mb_assembly_ref_cache :: "string \<rightharpoonup> token"
  mb_module_ref_cache :: "string \<rightharpoonup> token"
  mb_standalone_sig_cache :: "u32 \<rightharpoonup> token"
  mb_calli_sig_cache :: "string \<rightharpoonup> token"
  mb_locals_sig_cache :: "string list \<rightharpoonup> token"
  mb_type_spec_cache :: "u32 \<rightharpoonup> token"
  mb_class_token_cache :: "class_ref \<rightharpoonup> token"
  mb_method_def_cache :: "method_ref \<rightharpoonup> token"
  mb_field_def_cache :: "u32 \<times> u32 \<times> u32 \<rightharpoonup> token"
  mb_method_param_cache :: "token \<times> u16 \<rightharpoonup> token"
  mb_pending_field_rva :: "token \<rightharpoonup> nat"
  mb_entry_point :: "token option"
  mb_current_type_def :: "u32 option"
  mb_is_lib :: bool
  mb_runtime :: dotnet_runtime
  mb_public_module_full_name :: "string option"

definition str_bytes :: "string \<Rightarrow> u8 list" where
  "str_bytes s = map of_char s"

definition mb_intern_string :: "string \<Rightarrow> metadata_builder \<Rightarrow> (table_panic, u32 \<times> metadata_builder) result" where
  "mb_intern_string s mb =
     rbind (map_sum TableHeap id (strings_intern (str_bytes s) (mb_strings mb))) (\<lambda>(off, h).
     Inr (off, mb\<lparr>mb_strings := h\<rparr>))"

definition mb_intern_blob :: "u8 list \<Rightarrow> metadata_builder \<Rightarrow> (table_panic, u32 \<times> metadata_builder) result" where
  "mb_intern_blob b mb =
     rbind (map_sum TableHeap id (blob_intern b (mb_blobs mb))) (\<lambda>(off, h).
     Inr (off, mb\<lparr>mb_blobs := h\<rparr>))"

definition row_id :: "nat \<Rightarrow> (table_panic, u32) result" where
  "row_id n = (if n < 2 ^ 32 then Inr (word_of_nat n) else Inl RowOverflow)"


section \<open>Names\<close>

definition split_namespace :: "string \<Rightarrow> string \<times> string" where
  "split_namespace name =
     (if CHR ''.'' \<in> set name
      then (let nm = rev (takeWhile (\<lambda>c. c \<noteq> CHR ''.'') (rev name))
            in (take (length name - length nm - 1) name, nm))
      else ('''', name))"

definition is_char_boundary :: "string \<Rightarrow> nat \<Rightarrow> bool" where
  "is_char_boundary s i \<longleftrightarrow> i = 0 \<or> i = length s \<or>
     (i < length s \<and> \<not> (0x80 \<le> (of_char (s ! i) :: nat) \<and> (of_char (s ! i) :: nat) < 0xC0))"

fun floor_char_boundary :: "string \<Rightarrow> nat \<Rightarrow> nat" where
  "floor_char_boundary s 0 = 0"
| "floor_char_boundary s (Suc i) = (if is_char_boundary s (Suc i) then Suc i else floor_char_boundary s i)"

definition fnv1a :: "u8 list \<Rightarrow> u64" where
  "fnv1a bs = foldl (\<lambda>hash b. (hash XOR ucast b) * 0x00000100000001b3) 0xcbf29ce484222325 bs"

definition hex_digit :: "nat \<Rightarrow> char" where
  "hex_digit d = (if d < 10 then char_of (48 + d) else char_of (87 + d))"

text \<open>\<^verbatim>\<open>format!("{hash:016x}")\<close>.\<close>

definition hex16 :: "u64 \<Rightarrow> string" where
  "hex16 w = map (\<lambda>i. hex_digit (unat (drop_bit (4 * i) w AND 0xF))) (rev [0..<16])"

definition dotnet_class_name :: "string \<Rightarrow> string" where
  "dotnet_class_name name =
     (if length name \<le> 1023 then name
      else take (floor_char_boundary name (min 900 (length name))) name @ ''__h'' @ hex16 (fnv1a (str_bytes name)))"

section \<open>Assembly and type references\<close>

definition ecma_public_key_token :: "u8 list" where
  "ecma_public_key_token = [0xB0, 0x3F, 0x5F, 0x7F, 0x11, 0xD5, 0x0A, 0x3A]"

definition extensions_public_key_token :: "u8 list" where
  "extensions_public_key_token = [0xAD, 0xB9, 0x79, 0x38, 0x29, 0xDD, 0xAE, 0x60]"

definition netstandard_public_key_token :: "u8 list" where
  "netstandard_public_key_token = [0xCC, 0x7B, 0x13, 0xFF, 0xCD, 0x2D, 0xDD, 0x51]"

definition mscorlib_public_key_token :: "u8 list" where
  "mscorlib_public_key_token = [0xB7, 0x7A, 0x5C, 0x56, 0x19, 0x34, 0xE0, 0x89]"

definition bcl_public_key_token :: "string \<Rightarrow> u8 list option" where
  "bcl_public_key_token name =
     (if prefix ''System'' name \<or> name \<in> {''mscorlib'', ''netstandard'', ''WindowsBase''}
      then Some ecma_public_key_token
      else if list_ex (\<lambda>p. prefix p name)
          [''Microsoft.AspNetCore'', ''Microsoft.Extensions'', ''Microsoft.EntityFrameworkCore'',
           ''Microsoft.OpenApi'', ''Microsoft.JSInterop'', ''Microsoft.Net.Http.Headers'']
      then Some extensions_public_key_token
      else None)"

definition bcl_assembly_version :: "dotnet_runtime \<Rightarrow> string \<Rightarrow> u16 \<times> u16 \<times> u16 \<times> u16" where
  "bcl_assembly_version rt name =
     (if rt = UnityNetStandard21 then
        (if name = ''System.Runtime'' then (4, 1, 2, 0)
         else if name = ''netstandard'' then (2, 1, 0, 0) else (4, 0, 0, 0))
      else assembly_ver_tuple rt)"

definition bcl_assembly_token :: "dotnet_runtime \<Rightarrow> string \<Rightarrow> u8 list" where
  "bcl_assembly_token rt name =
     (if rt = UnityNetStandard21 then
        (if name = ''netstandard'' then netstandard_public_key_token
         else if name = ''mscorlib'' then mscorlib_public_key_token else ecma_public_key_token)
      else (case bcl_public_key_token name of Some t \<Rightarrow> t | None \<Rightarrow> ecma_public_key_token))"

datatype assembly_ref_target = TargetBcl "u16 \<times> u16 \<times> u16 \<times> u16" "u8 list" | TargetNameOnly

definition assembly_ref ::
  "string \<Rightarrow> assembly_ref_target \<Rightarrow> metadata_builder \<Rightarrow> (table_panic, token \<times> metadata_builder) result" where
  "assembly_ref name target mb =
     rbind (mb_intern_string name mb) (\<lambda>(name_off, mb).
     rbind (case target of
              TargetBcl version tok \<Rightarrow>
                rbind (mb_intern_blob tok mb) (\<lambda>(off, mb). Inr (version, off, mb))
            | TargetNameOnly \<Rightarrow> Inr ((0, 0, 0, 0), 0, mb)) (\<lambda>(version, key, mb).
     let rows = mb_assembly_ref mb @
           [\<lparr>ar_version = version, ar_flags = 0, ar_public_key_or_token = key, ar_name = name_off,
             ar_culture = 0, ar_hash_value = 0\<rparr>] in
     rbind (row_id (length rows)) (\<lambda>rid.
     let tok = token_new TABLE_ASSEMBLY_REF rid in
     Inr (tok, mb\<lparr>mb_assembly_ref := rows,
                  mb_assembly_ref_cache :=
                    (case mb_assembly_ref_cache mb name of
                       Some _ \<Rightarrow> mb_assembly_ref_cache mb
                     | None \<Rightarrow> (mb_assembly_ref_cache mb)(name \<mapsto> tok))\<rparr>))))"

definition find_or_create_assembly_ref ::
  "string \<Rightarrow> metadata_builder \<Rightarrow> (table_panic, token \<times> metadata_builder) result" where
  "find_or_create_assembly_ref name mb =
     (let name = (if mb_runtime mb = UnityNetStandard21 \<and> bcl_public_key_token name \<noteq> None
                  then ''netstandard'' else name) in
      case mb_assembly_ref_cache mb name of
        Some tok \<Rightarrow> Inr (tok, mb)
      | None \<Rightarrow>
          assembly_ref name
            (case (bcl_public_key_token name, mb_is_lib mb) of
               (Some tok, True) \<Rightarrow>
                 TargetBcl (bcl_assembly_version (mb_runtime mb) name)
                   (if mb_runtime mb = UnityNetStandard21 then bcl_assembly_token (mb_runtime mb) name else tok)
             | _ \<Rightarrow> TargetNameOnly) mb)"

definition type_ref ::
  "token option \<Rightarrow> string \<Rightarrow> string \<Rightarrow> metadata_builder \<Rightarrow> (table_panic, token \<times> metadata_builder) result" where
  "type_ref scope namespace name mb =
     (let key = ((case scope of None \<Rightarrow> 0 | Some t \<Rightarrow> t), namespace, name) in
      case mb_type_ref_cache mb key of
        Some tok \<Rightarrow> Inr (tok, mb)
      | None \<Rightarrow>
          rbind (encode_resolution_scope scope) (\<lambda>scope_coded.
          rbind (mb_intern_string namespace mb) (\<lambda>(namespace_off, mb).
          rbind (mb_intern_string name mb) (\<lambda>(name_off, mb).
          let rows = mb_type_ref mb @
                [\<lparr>tr_resolution_scope = scope_coded, tr_namespace = namespace_off, tr_name = name_off\<rparr>] in
          rbind (row_id (length rows)) (\<lambda>rid.
          let tok = token_new TABLE_TYPE_REF rid in
          Inr (tok, mb\<lparr>mb_type_ref := rows, mb_type_ref_cache := (mb_type_ref_cache mb)(key \<mapsto> tok)\<rparr>))))))"

section \<open>Type definitions\<close>

definition push_type_def ::
  "string \<Rightarrow> string \<Rightarrow> u32 \<Rightarrow> u32 \<Rightarrow> metadata_builder \<Rightarrow> (table_panic, token \<times> metadata_builder) result" where
  "push_type_def namespace name flags extends mb =
     rbind (mb_intern_string name mb) (\<lambda>(name_off, mb).
     rbind (mb_intern_string namespace mb) (\<lambda>(namespace_off, mb).
     rbind (row_id (length (mb_field mb) + 1)) (\<lambda>field_list.
     rbind (row_id (length (mb_method_def mb) + 1)) (\<lambda>method_list.
     let rows = mb_type_def mb @
           [\<lparr>td_flags = flags, td_name = name_off, td_namespace = namespace_off, td_extends = extends,
             td_field_list = field_list, td_method_list = method_list\<rparr>] in
     rbind (row_id (length rows)) (\<lambda>rid.
     let tok = token_new TABLE_TYPE_DEF rid in
     Inr (tok, mb\<lparr>mb_type_def := rows,
                  mb_type_def_cache :=
                    (case mb_type_def_cache mb (namespace, name) of
                       Some _ \<Rightarrow> mb_type_def_cache mb
                     | None \<Rightarrow> (mb_type_def_cache mb)((namespace, name) \<mapsto> tok)),
                  mb_current_type_def := Some rid\<rparr>))))))"

fun push_interfaces ::
  "u32 \<Rightarrow> token list \<Rightarrow> metadata_builder \<Rightarrow> (table_panic, metadata_builder) result" where
  "push_interfaces rid [] mb = Inr mb"
| "push_interfaces rid (i # is) mb =
     rbind (encode_type_def_or_ref_token i) (\<lambda>c.
     push_interfaces rid is
       (mb\<lparr>mb_interface_impl := mb_interface_impl mb @ [\<lparr>ii_class = rid, ii_interface = c\<rparr>]\<rparr>))"

definition add_type_def ::
  "string \<Rightarrow> string \<Rightarrow> bool \<Rightarrow> token option \<Rightarrow> u16 option \<Rightarrow> u32 option \<Rightarrow> token list \<Rightarrow> metadata_builder
     \<Rightarrow> (table_panic, token \<times> metadata_builder) result" where
  "add_type_def namespace name is_valuetype extends pack sz implements mb =
     (let name = dotnet_class_name name in
      rbind (case extends of None \<Rightarrow> Inr 0 | Some t \<Rightarrow> encode_type_def_or_ref_token t) (\<lambda>extends_coded.
      let flags = 0x1 OR (if is_valuetype then 0x100 else 0)
                      OR (if pack \<noteq> None \<or> sz \<noteq> None then 0x10 else 0) in
      rbind (push_type_def namespace name flags extends_coded mb) (\<lambda>(tok, mb).
      let rid = token_rid tok;
          mb = (if pack \<noteq> None \<or> sz \<noteq> None
                then mb\<lparr>mb_class_layout := mb_class_layout mb @
                       [\<lparr>cl_packing_size = (case pack of Some p \<Rightarrow> p | None \<Rightarrow> 0),
                         cl_class_size = (case sz of Some s \<Rightarrow> s | None \<Rightarrow> 0), cl_parent = rid\<rparr>]\<rparr>
                else mb) in
      rbind (push_interfaces rid implements mb) (\<lambda>mb. Inr (tok, mb)))))"

definition add_blob_sized_valuetype ::
  "string \<Rightarrow> token \<Rightarrow> u32 \<Rightarrow> metadata_builder \<Rightarrow> (table_panic, token \<times> metadata_builder) result" where
  "add_blob_sized_valuetype full_name extends sz mb =
     (let (namespace, name) = split_namespace full_name; name = dotnet_class_name name in
      rbind (encode_type_def_or_ref_token extends) (\<lambda>extends_coded.
      rbind (push_type_def namespace name (0x100 OR 0x10) extends_coded mb) (\<lambda>(tok, mb).
      Inr (tok, mb\<lparr>mb_class_layout := mb_class_layout mb @
        [\<lparr>cl_packing_size = 1, cl_class_size = sz, cl_parent = token_rid tok\<rparr>]\<rparr>))))"

definition find_type_def :: "string \<Rightarrow> metadata_builder \<Rightarrow> token option" where
  "find_type_def raw_name mb =
     (let raw_name = (if raw_name = ''MainModule''
                      then (case mb_public_module_full_name mb of Some n \<Rightarrow> n | None \<Rightarrow> raw_name)
                      else raw_name);
          (namespace, name) = split_namespace raw_name
      in mb_type_def_cache mb (namespace, dotnet_class_name name))"

definition unity_legacy_128_token :: "string \<Rightarrow> metadata_builder \<Rightarrow> token option" where
  "unity_legacy_128_token raw_name mb =
     (if mb_runtime mb = UnityNetStandard21 \<and> (raw_name = ''System.Int128'' \<or> raw_name = ''System.UInt128'')
      then find_type_def raw_name mb else None)"

section \<open>Resolving class references\<close>

fun find_open_candidates ::
  "'a assembly_scheme \<Rightarrow> class_ref \<Rightarrow> string list \<Rightarrow> (table_panic, class_def option) result" where
  "find_open_candidates asm c [] = Inr None"
| "find_open_candidates asm c (candidate # cs) =
     (case class_defs asm (ClassRef candidate None (cr_valuetype c) []) of
        Some cd \<Rightarrow> if unat (cd_generics cd) = length (cr_generics c) then Inr (Some cd)
                  else Inl GenericArityMismatch
      | None \<Rightarrow> find_open_candidates asm c cs)"

definition find_open_generic_def :: "'a assembly_scheme \<Rightarrow> class_ref \<Rightarrow> (table_panic, class_def option) result" where
  "find_open_generic_def asm c =
     (if cr_asm c \<noteq> None \<or> cr_generics c = [] then Inr None
      else find_open_candidates asm c
        (cr_name c # (if CHR 0x60 \<notin> set (cr_name c)
                      then [cr_name c @ [CHR 0x60] @ show_nat (length (cr_generics c))] else [])))"

definition resolve_external ::
  "class_ref \<Rightarrow> metadata_builder \<Rightarrow> (table_panic, token \<times> metadata_builder) result" where
  "resolve_external c mb =
     rbind (case cr_asm c of
              None \<Rightarrow> Inr (None, mb)
            | Some name \<Rightarrow> rbind (find_or_create_assembly_ref name mb) (\<lambda>(t, mb). Inr (Some t, mb)))
       (\<lambda>(scope, mb).
     let full_name = (if cr_generics c = [] then cr_name c
                      else cr_name c @ [CHR 0x60] @ show_nat (length (cr_generics c)));
         (namespace, name) = split_namespace full_name
     in type_ref scope namespace name mb)"

definition resolve_class_token ::
  "'a assembly_scheme \<Rightarrow> class_ref \<Rightarrow> metadata_builder \<Rightarrow> (table_panic, token \<times> metadata_builder) result" where
  "resolve_class_token asm c mb =
     (case unity_legacy_128_token (cr_name c) mb of
        Some tok \<Rightarrow> Inr (tok, mb)
      | None \<Rightarrow>
          if class_defs asm c \<noteq> None then
            (case find_type_def (cr_name c) mb of
               Some tok \<Rightarrow> Inr (tok, mb) | None \<Rightarrow> Inl (MissingTypeDef (cr_name c)))
          else rbind (find_open_generic_def asm c) (\<lambda>d.
            case d of
              Some cd \<Rightarrow>
                (case find_type_def (cd_name cd) mb of
                   Some tok \<Rightarrow> Inr (tok, mb) | None \<Rightarrow> Inl (MissingTypeDef (cd_name cd)))
            | None \<Rightarrow> resolve_external c mb))"

definition type_def_or_ref ::
  "'a assembly_scheme \<Rightarrow> class_ref \<Rightarrow> metadata_builder \<Rightarrow> (table_panic, u32 \<times> metadata_builder) result" where
  "type_def_or_ref asm c mb =
     (case mb_class_token_cache mb c of
        Some tok \<Rightarrow> rbind (encode_type_def_or_ref_token tok) (\<lambda>v. Inr (v, mb))
      | None \<Rightarrow>
          rbind (resolve_class_token asm c mb) (\<lambda>(tok, mb).
          let mb = mb\<lparr>mb_class_token_cache := (mb_class_token_cache mb)(c \<mapsto> tok)\<rparr> in
          rbind (encode_type_def_or_ref_token tok) (\<lambda>v. Inr (v, mb))))"

text \<open>The builder as the resolver of the signature encoder.\<close>

definition mb_resolver :: "'a assembly_scheme \<Rightarrow> metadata_builder resolver" where
  "mb_resolver asm c mb = map_sum (\<lambda>_. SigResolver) id (type_def_or_ref asm c mb)"

definition type_spec :: "u32 \<Rightarrow> metadata_builder \<Rightarrow> (table_panic, token \<times> metadata_builder) result" where
  "type_spec blob mb =
     (case mb_type_spec_cache mb blob of
        Some tok \<Rightarrow> Inr (tok, mb)
      | None \<Rightarrow>
          (let rows = mb_type_spec mb @ [blob] in
           rbind (row_id (length rows)) (\<lambda>rid.
           let tok = token_new TABLE_TYPE_SPEC rid in
           Inr (tok, mb\<lparr>mb_type_spec := rows, mb_type_spec_cache := (mb_type_spec_cache mb)(blob \<mapsto> tok)\<rparr>))))"

definition class_ref_token ::
  "'a assembly_scheme \<Rightarrow> class_ref \<Rightarrow> metadata_builder \<Rightarrow> (table_panic, token \<times> metadata_builder) result" where
  "class_ref_token asm c mb =
     (if cr_generics c = [] then
        rbind (type_def_or_ref asm c mb) (\<lambda>(v, mb).
        case decode_type_def_or_ref v of Some t \<Rightarrow> Inr (t, mb) | None \<Rightarrow> Inl (NotAMember 3))
      else
        rbind (map_sum TableSig id (encode_type (mb_resolver asm) (TClassRef c) mb [])) (\<lambda>(mb, blob).
        rbind (mb_intern_blob blob mb) (\<lambda>(off, mb).
        type_spec off mb)))"

definition intern_module_ref :: "string \<Rightarrow> metadata_builder \<Rightarrow> (table_panic, token \<times> metadata_builder) result" where
  "intern_module_ref lib mb =
     (case mb_module_ref_cache mb lib of
        Some tok \<Rightarrow> Inr (tok, mb)
      | None \<Rightarrow>
          rbind (mb_intern_string lib mb) (\<lambda>(off, mb).
          let rows = mb_module_ref mb @ [off] in
          rbind (row_id (length rows)) (\<lambda>rid.
          let tok = token_new TABLE_MODULE_REF rid in
          Inr (tok, mb\<lparr>mb_module_ref := rows, mb_module_ref_cache := (mb_module_ref_cache mb)(lib \<mapsto> tok)\<rparr>))))"

definition member_ref ::
  "token \<Rightarrow> string \<Rightarrow> u32 \<Rightarrow> metadata_builder \<Rightarrow> (table_panic, token \<times> metadata_builder) result" where
  "member_ref cls name signature_blob mb =
     (let key = (cls, name, signature_blob) in
      case mb_member_ref_cache mb key of
        Some tok \<Rightarrow> Inr (tok, mb)
      | None \<Rightarrow>
          rbind (encode_member_ref_parent cls) (\<lambda>class_coded.
          rbind (mb_intern_string name mb) (\<lambda>(name_off, mb).
          let rows = mb_member_ref mb @
                [\<lparr>mr_class = class_coded, mr_name = name_off, mr_signature = signature_blob\<rparr>] in
          rbind (row_id (length rows)) (\<lambda>rid.
          let tok = token_new TABLE_MEMBER_REF rid in
          Inr (tok, mb\<lparr>mb_member_ref := rows, mb_member_ref_cache := (mb_member_ref_cache mb)(key \<mapsto> tok)\<rparr>)))))"

definition field_sig_for_valuetype_token ::
  "token \<Rightarrow> metadata_builder \<Rightarrow> (table_panic, u32 \<times> metadata_builder) result" where
  "field_sig_for_valuetype_token tok mb =
     rbind (encode_type_def_or_ref_token tok) (\<lambda>v.
     rbind (map_sum TableHeap id (write_compressed_u32 [SIG_FIELD, ET_VALUETYPE] v)) (\<lambda>blob.
     mb_intern_blob blob mb))"

text \<open>\<^verbatim>\<open>MetadataBuilder::new\<close>, with the \<open><Module>\<close> pseudo-type as row 1 of \<open>TypeDef\<close>.\<close>

definition mb_default :: metadata_builder where
  "mb_default = \<lparr>mb_strings = strings_default, mb_blobs = blob_default, mb_guids = guid_default,
     mb_user_strings = user_string_default, mb_module = [], mb_type_ref = [], mb_type_def = [], mb_field = [],
     mb_method_def = [], mb_param = [], mb_interface_impl = [], mb_member_ref = [], mb_constant = [],
     mb_custom_attribute = [], mb_class_layout = [], mb_field_layout = [], mb_standalone_sig = [],
     mb_module_ref = [], mb_type_spec = [], mb_impl_map = [], mb_field_rva = [], mb_assembly = [],
     mb_assembly_ref = [], mb_method_spec = [], mb_method_impl = [], mb_event_map = [], mb_event = [],
     mb_property_map = [], mb_property = [], mb_method_semantics = [], mb_generic_param = [],
     mb_type_ref_cache = Map.empty, mb_type_def_cache = Map.empty, mb_member_ref_cache = Map.empty,
     mb_assembly_ref_cache = Map.empty, mb_module_ref_cache = Map.empty, mb_standalone_sig_cache = Map.empty,
     mb_calli_sig_cache = Map.empty, mb_locals_sig_cache = Map.empty, mb_type_spec_cache = Map.empty,
     mb_class_token_cache = Map.empty, mb_method_def_cache = Map.empty, mb_field_def_cache = Map.empty,
     mb_method_param_cache = Map.empty, mb_pending_field_rva = Map.empty, mb_entry_point = None,
     mb_current_type_def = None, mb_is_lib = False, mb_runtime = Net10,
     mb_public_module_full_name = None\<rparr>"

definition mb_new :: "(table_panic, metadata_builder) result" where
  "mb_new =
     rbind (mb_intern_string ''<Module>'' mb_default) (\<lambda>(name_off, mb).
     rbind (mb_intern_string '''' mb) (\<lambda>(namespace_off, mb).
     Inr (mb\<lparr>mb_type_def := mb_type_def mb @
                [\<lparr>td_flags = 0, td_name = name_off, td_namespace = namespace_off, td_extends = 0,
                  td_field_list = 1, td_method_list = 1\<rparr>],
             mb_type_def_cache := (mb_type_def_cache mb)(('''', ''<Module>'') \<mapsto> token_new TABLE_TYPE_DEF 1)\<rparr>)))"

section \<open>Tokens and coded indices\<close>

lemma token_new_add:
  assumes "table \<le> 0x7F" "unat rid < 2 ^ 24"
  shows "unat (token_new table rid) = unat table * 2 ^ 24 + unat rid"
proof -
  have t: "unat table \<le> 0x7F" using assms(1) by (simp add: word_le_nat_alt)
  have p: "unat (push_bit 24 table) = unat table * 2 ^ 24"
    using t by (simp add: push_bit_eq_mult unat_word_ariths)
  show ?thesis
    unfolding token_new_def
    by (subst unat_or_high [where k = 24])
      (use assms(2) t p in \<open>auto simp: bit_push_bit_iff simp del: push_bit_of_1 dest: bit_imp_le_length\<close>)
qed

lemma token_table_new: "table \<le> 0x7F \<Longrightarrow> unat rid < 2 ^ 24 \<Longrightarrow> token_table (token_new table rid) = table"
  by (simp add: token_table_def word_unat_eq_iff unat_drop_bit token_new_add)

lemma token_rid_take_bit: "token_rid t = take_bit 24 t"
proof -
  have "(0x00FFFFFF :: u32) = mask 24" by (simp add: mask_eq_exp_minus_1)
  then show ?thesis unfolding token_rid_def by (simp only: take_bit_eq_mask)
qed

lemma unat_token_rid: "unat (token_rid t) = unat t mod 2 ^ 24"
  by (simp only: token_rid_take_bit unsigned_take_bit_eq) (simp only: take_bit_eq_mod)

lemma token_rid_new: "table \<le> 0x7F \<Longrightarrow> unat rid < 2 ^ 24 \<Longrightarrow> token_rid (token_new table rid) = rid"
  by (simp add: word_unat_eq_iff unat_token_rid token_new_add)

lemma token_new_table_rid: "token_new (token_table t) (token_rid t) = t"
  unfolding token_new_def token_table_def token_rid_take_bit
  by (rule bit_word_eqI) (auto simp: bit_simps simp del: take_bit_numeral_numeral)

lemma coded_fields:
  assumes "tag < 4" "unat rid < 2 ^ 24"
  shows "drop_bit 2 (push_bit 2 rid OR tag :: u32) = rid" "(push_bit 2 rid OR tag) AND 3 = tag"
proof -
  have m: "(3 :: u32) = mask 2" by (simp add: mask_eq_exp_minus_1)
  have t: "unat tag < 2 ^ 2" using assms(1) by (simp add: word_less_nat_alt)
  note lo = word_bits_below [OF t] and hi = word_bits_below [OF assms(2)]
  show "drop_bit 2 (push_bit 2 rid OR tag) = rid"
    by (rule bit_word_eqI) (auto simp: bit_simps dest: lo hi)
  show "(push_bit 2 rid OR tag) AND 3 = tag"
    unfolding m by (rule bit_word_eqI) (auto simp: bit_simps dest: lo)
qed

lemma type_def_or_ref_roundtrip_parts:
  "encode_type_def_or_ref_token t =
     (if token_table t \<in> {TABLE_TYPE_DEF, TABLE_TYPE_REF, TABLE_TYPE_SPEC}
      then Inr (push_bit 2 (token_rid t) OR
        (if token_table t = TABLE_TYPE_DEF then 0 else if token_table t = TABLE_TYPE_REF then 1 else 2))
      else Inl (NotAMember (token_table t)))"
  "encode_type_def_or_ref_token t = Inr v \<Longrightarrow> decode_type_def_or_ref v = Some t"
proof -
  show e: "encode_type_def_or_ref_token t =
     (if token_table t \<in> {TABLE_TYPE_DEF, TABLE_TYPE_REF, TABLE_TYPE_SPEC}
      then Inr (push_bit 2 (token_rid t) OR
        (if token_table t = TABLE_TYPE_DEF then 0 else if token_table t = TABLE_TYPE_REF then 1 else 2))
      else Inl (NotAMember (token_table t)))"
    by (simp add: encode_type_def_or_ref_token_def coded_def)
  assume v: "encode_type_def_or_ref_token t = Inr v"
  have r: "unat (token_rid t) < 2 ^ 24" by (simp add: unat_token_rid)
  note f = coded_fields [OF _ r]
  note n = token_new_table_rid [of t]
  from v show "decode_type_def_or_ref v = Some t"
    unfolding e decode_type_def_or_ref_def
    using f(1) [of 0] f(1) [of 1] f(1) [of 2] f(2) [of 0] f(2) [of 1] f(2) [of 2] n
    by (auto simp: Let_def simp del: push_bit_numeral split: if_splits)
qed

text \<open>
  Coded indices lose nothing: for every token of the \<open>TypeDef\<close>, \<open>TypeRef\<close> and \<open>TypeSpec\<close>
  tables \<^verbatim>\<open>decode_type_def_or_ref\<close> inverts \<^verbatim>\<open>encode_type_def_or_ref_token\<close>, for every other token
  the encoder panics.
\<close>

theorem type_def_or_ref_roundtrip:
  "encode_type_def_or_ref_token t =
     (if token_table t \<in> {TABLE_TYPE_DEF, TABLE_TYPE_REF, TABLE_TYPE_SPEC}
      then Inr (push_bit 2 (token_rid t) OR
        (if token_table t = TABLE_TYPE_DEF then 0 else if token_table t = TABLE_TYPE_REF then 1 else 2))
      else Inl (NotAMember (token_table t)))
   \<and> (encode_type_def_or_ref_token t = Inr v \<longrightarrow> decode_type_def_or_ref v = Some t)"
  using type_def_or_ref_roundtrip_parts [of t] by blast

theorem type_def_or_ref_roundtrip_witness:
  "decode_type_def_or_ref 5 = Some (token_new TABLE_TYPE_REF 1)"
  by (rule type_def_or_ref_roundtrip [THEN conjunct2, rule_format]) (simp add: encode_type_def_or_ref_token_def coded_def token_new_def token_table_def token_rid_def)

section \<open>The builder satisfies the resolver contract\<close>

definition mb_token_of :: "metadata_builder \<Rightarrow> class_ref \<Rightarrow> u32 option" where
  "mb_token_of mb c =
     Option.bind (mb_class_token_cache mb c)
       (\<lambda>t. case encode_type_def_or_ref_token t of Inr v \<Rightarrow> Some v | Inl _ \<Rightarrow> None)"

named_theorems class_cache_frame \<open>operations that leave the class token cache alone\<close>

lemma mb_intern_string_class_cache [class_cache_frame]:
  "mb_intern_string s mb = Inr (off, mb') \<Longrightarrow> mb_class_token_cache mb' = mb_class_token_cache mb"
  by (auto simp: mb_intern_string_def rbind_eq_Inr)

lemma mb_intern_blob_class_cache [class_cache_frame]:
  "mb_intern_blob s mb = Inr (off, mb') \<Longrightarrow> mb_class_token_cache mb' = mb_class_token_cache mb"
  by (auto simp: mb_intern_blob_def rbind_eq_Inr)

lemma assembly_ref_class_cache [class_cache_frame]:
  "assembly_ref name target mb = Inr (tok, mb') \<Longrightarrow> mb_class_token_cache mb' = mb_class_token_cache mb"
  by (cases target) (auto simp: assembly_ref_def rbind_eq_Inr Let_def dest!: class_cache_frame)

lemma find_or_create_assembly_ref_class_cache [class_cache_frame]:
  "find_or_create_assembly_ref name mb = Inr (tok, mb') \<Longrightarrow> mb_class_token_cache mb' = mb_class_token_cache mb"
  by (auto simp: find_or_create_assembly_ref_def Let_def dest!: assembly_ref_class_cache split: option.splits)

lemma type_ref_class_cache [class_cache_frame]:
  "type_ref scope ns name mb = Inr (tok, mb') \<Longrightarrow> mb_class_token_cache mb' = mb_class_token_cache mb"
  by (auto simp: type_ref_def rbind_eq_Inr Let_def dest!: mb_intern_string_class_cache split: option.splits)

lemma resolve_external_class_cache [class_cache_frame]:
  "resolve_external c mb = Inr (tok, mb') \<Longrightarrow> mb_class_token_cache mb' = mb_class_token_cache mb"
  by (cases "cr_asm c") (auto simp: resolve_external_def rbind_eq_Inr Let_def case_prod_unfold
      dest!: find_or_create_assembly_ref_class_cache type_ref_class_cache)

lemma resolve_class_token_cache:
  "resolve_class_token asm c mb = Inr (tok, mb') \<Longrightarrow> mb_class_token_cache mb' = mb_class_token_cache mb"
  by (auto simp: resolve_class_token_def rbind_eq_Inr dest!: resolve_external_class_cache
      split: option.splits if_splits)

lemma type_def_or_ref_cache:
  assumes "type_def_or_ref asm c mb = Inr (v, mb')"
  obtains tok where "mb_class_token_cache mb' c = Some tok" "encode_type_def_or_ref_token tok = Inr v"
    "mb_class_token_cache mb \<subseteq>\<^sub>m mb_class_token_cache mb'"
  using assms
  by (auto simp: type_def_or_ref_def rbind_eq_Inr Let_def map_le_def dom_def dest!: resolve_class_token_cache split: option.splits)

lemma mb_resolver_Inr: "mb_resolver asm c mb = Inr x \<longleftrightarrow> type_def_or_ref asm c mb = Inr x"
  by (cases "type_def_or_ref asm c mb") (simp_all add: mb_resolver_def)

interpretation mr: type_resolver "mb_resolver asm" mb_token_of for asm :: "'a assembly_scheme"
proof
  fix c r v r'
  assume "mb_resolver asm c r = Inr (v, r')"
  then have "type_def_or_ref asm c r = Inr (v, r')" by (simp add: mb_resolver_Inr)
  then obtain tok where t: "mb_class_token_cache r' c = Some tok" "encode_type_def_or_ref_token tok = Inr v"
    "mb_class_token_cache r \<subseteq>\<^sub>m mb_class_token_cache r'"
    by (rule type_def_or_ref_cache)
  from t show "mb_token_of r' c = Some v" by (simp add: mb_token_of_def)
  from t(3) show "mb_token_of r \<subseteq>\<^sub>m mb_token_of r'"
    by (auto simp: map_le_def mb_token_of_def dom_def split: bind_splits)
qed

lemma type_signature_roundtrip_parts:
  fixes asm :: "'a assembly_scheme"
  assumes "encode_type (mb_resolver asm) t mb [] = Inr (mb', blob)"
  shows "decode_type (length blob) (blob @ rest) = Some (lower_type (mb_token_of mb') t, rest)"
    and "mb_token_of mb \<subseteq>\<^sub>m mb_token_of mb'"
proof -
  show "decode_type (length blob) (blob @ rest) = Some (lower_type (mb_token_of mb') t, rest)"
    using assms by (rule mr.type_roundtrip)
  show "mb_token_of mb \<subseteq>\<^sub>m mb_token_of mb'"
    using mr.encode_type_emits [OF assms] by (rule mr.emitsE)
qed

text \<open>
  C19. Type signatures written through the metadata builder decode: whenever \<^verbatim>\<open>encode_type\<close> returns,
  the ECMA-335 reader consumes exactly the blob, in front of any bytes, and obtains the lowered
  type in which every class reference is the coded index the builder now has for it. Later
  operations of the builder keep those indices.
\<close>

theorem type_signature_roundtrip:
  fixes asm :: "'a assembly_scheme"
  assumes "encode_type (mb_resolver asm) t mb [] = Inr (mb', blob)"
  shows "decode_type (length blob) (blob @ rest) = Some (lower_type (mb_token_of mb') t, rest)
    \<and> mb_token_of mb \<subseteq>\<^sub>m mb_token_of mb'"
  using type_signature_roundtrip_parts [OF assms] by blast

definition empty_assembly :: assembly where
  "empty_assembly = \<lparr>class_defs = Map.empty\<rparr>"

lemmas sig_eval = put_count_def put_u32_def write_compressed_u32_def

theorem type_signature_roundtrip_witness:
  "decode_type 3 [ET_PTR, ET_SZARRAY, ET_I4, 0] = Some (SPtr (SSzArray (SPrim ET_I4)), [0])"
proof -
  have "encode_type (mb_resolver empty_assembly) (TPtr (TPlatformArray (TInt I32) 1)) mb_default [] =
      Inr (mb_default, [ET_PTR, ET_SZARRAY, ET_I4])"
    by simp
  from type_signature_roundtrip [OF this, of "[0]", THEN conjunct1] show ?thesis
    by (simp add: numeral_3_eq_3)
qed

lemma method_signature_roundtrip_parts:
  fixes asm :: "'a assembly_scheme"
  assumes "encode_method_sig (mb_resolver asm) conv gp sig mb [] = Inr (mb', blob)"
  shows "decode_method_sig (length blob) (blob @ rest) =
      Some ((conv, gp, lower_type (mb_token_of mb') (sig_output sig),
             map (lower_non_void (mb_token_of mb')) (sig_inputs sig)), rest)"
    and "SPrim ET_VOID \<notin> set (map (lower_non_void (mb_token_of mb')) (sig_inputs sig))"
proof -
  show "decode_method_sig (length blob) (blob @ rest) =
      Some ((conv, gp, lower_type (mb_token_of mb') (sig_output sig),
             map (lower_non_void (mb_token_of mb')) (sig_inputs sig)), rest)"
    using assms by (rule mr.method_sig_roundtrip)
  have "lower_non_void (mb_token_of mb') t \<noteq> SPrim ET_VOID" for t by (rule lower_non_void_not_void)
  then show "SPrim ET_VOID \<notin> set (map (lower_non_void (mb_token_of mb')) (sig_inputs sig))"
    by (metis (no_types, lifting) imageE set_map)
qed

text \<open>
  C17. Method signatures written through the metadata builder decode to the convention, the generic
  parameter count, the return type and the parameter types of the method; a \<^verbatim>\<open>void\<close> parameter has
  become the \<open>RustVoid\<close> value type, so \<open>ELEMENT_TYPE_VOID\<close> never stands in a parameter position.
\<close>

theorem method_signature_roundtrip:
  fixes asm :: "'a assembly_scheme"
  assumes "encode_method_sig (mb_resolver asm) conv gp sig mb [] = Inr (mb', blob)"
  shows "decode_method_sig (length blob) (blob @ rest) =
      Some ((conv, gp, lower_type (mb_token_of mb') (sig_output sig),
             map (lower_non_void (mb_token_of mb')) (sig_inputs sig)), rest)
    \<and> SPrim ET_VOID \<notin> set (map (lower_non_void (mb_token_of mb')) (sig_inputs sig))"
  using method_signature_roundtrip_parts [OF assms] by blast

theorem method_signature_roundtrip_witness:
  "decode_method_sig 6 [0x20, 2, ET_VOID, ET_I8, ET_PTR, ET_VOID] =
     Some ((0x20, 0, SPrim ET_VOID, [SPrim ET_I8, SPtr (SPrim ET_VOID)]), [])"
proof -
  have "encode_method_sig (mb_resolver empty_assembly) SIG_HASTHIS 0 (FnSig [TInt I64, TPtr TVoid] TVoid) mb_default [] =
      Inr (mb_default, [0x20, 2, ET_VOID, ET_I8, ET_PTR, ET_VOID])"
    by (simp add: sig_eval)
  from method_signature_roundtrip [OF this, of "[]", THEN conjunct1] show ?thesis
    by (simp add: lower_non_void_def eval_nat_numeral)
qed

lemma list_signature_roundtrip_parts:
  fixes asm :: "'a assembly_scheme"
  shows "encode_locals_sig (mb_resolver asm) ts mb [] = Inr (mb', blob) \<Longrightarrow>
      decode_counted SIG_LOCALS (length blob) (blob @ rest) = Some (map (lower_non_void (mb_token_of mb')) ts, rest)"
    and "encode_method_spec_sig (mb_resolver asm) ts mb [] = Inr (mb', blob) \<Longrightarrow>
      decode_counted SIG_GENERICINST_METHOD (length blob) (blob @ rest) = Some (map (lower_type (mb_token_of mb')) ts, rest)"
    and "encode_field_sig (mb_resolver asm) t mb [] = Inr (mb', blob) \<Longrightarrow>
      decode_tagged SIG_FIELD (length blob) (blob @ rest) = Some (lower_non_void (mb_token_of mb') t, rest)"
  by (rule mr.locals_sig_roundtrip mr.method_spec_sig_roundtrip mr.field_sig_roundtrip, assumption)+

text \<open>
  Local-variable and generic-instantiation signatures written through the metadata builder decode
  to their lists of types.
\<close>

theorem list_signature_roundtrip:
  fixes asm :: "'a assembly_scheme"
  shows "(encode_locals_sig (mb_resolver asm) ts mb [] = Inr (mb', blob) \<longrightarrow>
        decode_counted SIG_LOCALS (length blob) (blob @ rest) = Some (map (lower_non_void (mb_token_of mb')) ts, rest))
    \<and> (encode_method_spec_sig (mb_resolver asm) ts mb [] = Inr (mb', blob) \<longrightarrow>
        decode_counted SIG_GENERICINST_METHOD (length blob) (blob @ rest) = Some (map (lower_type (mb_token_of mb')) ts, rest))
    \<and> (encode_field_sig (mb_resolver asm) t mb [] = Inr (mb', blob) \<longrightarrow>
        decode_tagged SIG_FIELD (length blob) (blob @ rest) = Some (lower_non_void (mb_token_of mb') t, rest))"
  by (intro conjI impI) (rule list_signature_roundtrip_parts, assumption)+

theorem list_signature_roundtrip_witness:
  "decode_counted SIG_LOCALS 4 [SIG_LOCALS, 2, ET_BOOLEAN, ET_R8] = Some ([SPrim ET_BOOLEAN, SPrim ET_R8], [])"
proof -
  have "encode_locals_sig (mb_resolver empty_assembly) [TBool, TFloat F64] mb_default [] =
      Inr (mb_default, [SIG_LOCALS, 2, ET_BOOLEAN, ET_R8])"
    by (simp add: encode_locals_sig_def sig_eval)
  from list_signature_roundtrip [THEN conjunct1, rule_format, OF this, of "[]"] show ?thesis
    by (simp add: lower_non_void_def eval_nat_numeral)
qed

section \<open>Type references are shared\<close>

text \<open>The row behind a \<open>TypeRef\<close> token spells the scope, the namespace and the name.\<close>

definition type_ref_denotes :: "metadata_builder \<Rightarrow> token \<Rightarrow> token \<Rightarrow> string \<Rightarrow> string \<Rightarrow> bool" where
  "type_ref_denotes mb tok scope ns name \<longleftrightarrow>
     token_table tok = TABLE_TYPE_REF \<and> 0 < unat (token_rid tok) \<and> unat (token_rid tok) \<le> length (mb_type_ref mb) \<and>
     (let row = mb_type_ref mb ! (unat (token_rid tok) - 1); data = s_data (mb_strings mb) in
      encode_resolution_scope (Some scope) = Inr (tr_resolution_scope row)
      \<and> strings_read data (tr_namespace row) = Some (str_bytes ns)
      \<and> strings_read data (tr_name row) = Some (str_bytes name))"

definition type_refs_ok :: "metadata_builder \<Rightarrow> bool" where
  "type_refs_ok mb \<longleftrightarrow> strings_wf (mb_strings mb) \<and>
     (\<forall>scope ns name tok. mb_type_ref_cache mb (scope, ns, name) = Some tok \<longrightarrow> type_ref_denotes mb tok scope ns name)"

lemma mb_intern_string_Inr:
  assumes "mb_intern_string s mb = Inr (off, mb')" "strings_wf (mb_strings mb)"
  obtains h where "mb' = mb\<lparr>mb_strings := h\<rparr>" "strings_wf h" "strings_read (s_data h) off = Some (str_bytes s)"
    "\<And>o' v. strings_read (s_data (mb_strings mb)) o' = Some v \<Longrightarrow> strings_read (s_data h) o' = Some v"
proof -
  from assms(1) obtain h where h: "strings_intern (str_bytes s) (mb_strings mb) = Inr (off, h)" "mb' = mb\<lparr>mb_strings := h\<rparr>"
    by (cases "strings_intern (str_bytes s) (mb_strings mb)") (auto simp: mb_intern_string_def)
  show thesis
    by (rule that [OF h(2)])
      (use sh.intern_wf sh.intern_read sh.read_stable h(1) assms(2) in blast)+
qed

lemma encode_resolution_scope_nil: "encode_resolution_scope (Some (case s of None \<Rightarrow> 0 | Some t \<Rightarrow> t)) = encode_resolution_scope s"
  by (cases s) (simp_all add: encode_resolution_scope_def coded_def token_table_def token_rid_def)

lemma row_id_unat: "row_id n = Inr rid \<Longrightarrow> unat rid = n"
  by (auto simp: row_id_def word_of_nat_unat_lt split: if_splits)

lemma type_ref_denotes_mono:
  assumes "type_ref_denotes mb tok scope ns name" "prefix (mb_type_ref mb) (mb_type_ref mb')"
    "\<And>o' v. strings_read (s_data (mb_strings mb)) o' = Some v \<Longrightarrow> strings_read (s_data (mb_strings mb')) o' = Some v"
  shows "type_ref_denotes mb' tok scope ns name"
proof -
  from assms(2) obtain ext where e: "mb_type_ref mb' = mb_type_ref mb @ ext" by (auto simp: prefix_def)
  from assms(1) have "unat (token_rid tok) - 1 < length (mb_type_ref mb)"
    by (auto simp: type_ref_denotes_def)
  with e have "mb_type_ref mb' ! (unat (token_rid tok) - 1) = mb_type_ref mb ! (unat (token_rid tok) - 1)"
    by (simp add: nth_append)
  with assms(1,3) e show ?thesis by (auto simp: type_ref_denotes_def Let_def)
qed

lemma type_ref_new_row:
  assumes "type_refs_ok mb" "length (mb_type_ref mb) + 1 < 2 ^ 24"
    "mb_type_ref_cache mb (sc, ns, name) = None" "sc = (case scope of None \<Rightarrow> 0 | Some t \<Rightarrow> t)"
    "type_ref scope ns name mb = Inr (tok, mb')"
  shows "prefix (mb_type_ref mb) (mb_type_ref mb')"
    and "strings_read (s_data (mb_strings mb)) o' = Some v \<Longrightarrow> strings_read (s_data (mb_strings mb')) o' = Some v"
    and "strings_wf (mb_strings mb')"
    and "mb_type_ref_cache mb' = (mb_type_ref_cache mb)((sc, ns, name) \<mapsto> tok)"
    and "type_ref_denotes mb' tok sc ns name"
proof -
  from assms obtain code off1 mb1 off2 mb2 rid where
    c: "encode_resolution_scope scope = Inr code" "mb_intern_string ns mb = Inr (off1, mb1)"
      "mb_intern_string name mb1 = Inr (off2, mb2)" "row_id (Suc (length (mb_type_ref mb2))) = Inr rid"
      "tok = token_new TABLE_TYPE_REF rid"
      "mb' = mb2\<lparr>mb_type_ref := mb_type_ref mb2 @ [\<lparr>tr_resolution_scope = code, tr_namespace = off1, tr_name = off2\<rparr>],
        mb_type_ref_cache := (mb_type_ref_cache mb2)((sc, ns, name) \<mapsto> tok)\<rparr>"
    by (auto simp: type_ref_def Let_def rbind_eq_Inr)
  have w0: "strings_wf (mb_strings mb)" using assms(1) by (simp add: type_refs_ok_def)
  obtain h1 where h1: "mb1 = mb\<lparr>mb_strings := h1\<rparr>" "strings_wf h1" "strings_read (s_data h1) off1 = Some (str_bytes ns)"
    "\<And>o' v. strings_read (s_data (mb_strings mb)) o' = Some v \<Longrightarrow> strings_read (s_data h1) o' = Some v"
    using mb_intern_string_Inr [OF c(2) w0] by blast
  have w1: "strings_wf (mb_strings mb1)" using h1(1,2) by simp
  obtain h2 where h2: "mb2 = mb1\<lparr>mb_strings := h2\<rparr>" "strings_wf h2" "strings_read (s_data h2) off2 = Some (str_bytes name)"
    "\<And>o' v. strings_read (s_data (mb_strings mb1)) o' = Some v \<Longrightarrow> strings_read (s_data h2) o' = Some v"
    using mb_intern_string_Inr [OF c(3) w1] by blast
  have rid: "unat rid = Suc (length (mb_type_ref mb))"
    using row_id_unat [OF c(4)] h1(1) h2(1) by simp
  then have tok: "token_table tok = TABLE_TYPE_REF" "token_rid tok = rid"
    unfolding c(5) using assms(2) by (simp_all add: token_table_new token_rid_new)
  show "prefix (mb_type_ref mb) (mb_type_ref mb')" using c(6) h1(1) h2(1) by simp
  show "strings_read (s_data (mb_strings mb)) o' = Some v \<Longrightarrow> strings_read (s_data (mb_strings mb')) o' = Some v"
    using c(6) h1 h2 by simp
  show "strings_wf (mb_strings mb')" using c(6) h2 by simp
  show "mb_type_ref_cache mb' = (mb_type_ref_cache mb)((sc, ns, name) \<mapsto> tok)" using c(6) h1(1) h2(1) by simp
  show "type_ref_denotes mb' tok sc ns name"
    using tok rid c(1,6) h1 h2 assms(4) encode_resolution_scope_nil [of scope]
    by (simp add: type_ref_denotes_def Let_def nth_append)
qed

lemma type_ref_interned_parts:
  assumes ok: "type_refs_ok mb" and room: "length (mb_type_ref mb) + 1 < 2 ^ 24"
    and call: "type_ref scope ns name mb = Inr (tok, mb')"
  shows "type_refs_ok mb'"
    and "type_ref_denotes mb' tok (case scope of None \<Rightarrow> 0 | Some t \<Rightarrow> t) ns name"
    and "type_ref_denotes mb t s n m \<Longrightarrow> type_ref_denotes mb' t s n m"
    and "type_ref scope ns name mb' = Inr (tok, mb')"
proof -
  define sc where sc: "sc = (case scope of None \<Rightarrow> 0 | Some t \<Rightarrow> t)"
  have "type_refs_ok mb' \<and> type_ref_denotes mb' tok sc ns name
      \<and> (type_ref_denotes mb t s n m \<longrightarrow> type_ref_denotes mb' t s n m) \<and> mb_type_ref_cache mb' (sc, ns, name) = Some tok"
  proof (cases "mb_type_ref_cache mb (sc, ns, name)")
    case None
    note new = type_ref_new_row [OF ok room None sc call]
    have keep: "type_ref_denotes mb t s n m \<Longrightarrow> type_ref_denotes mb' t s n m" for t s n m
      by (rule type_ref_denotes_mono [OF _ new(1)]) (auto intro: new(2))
    then have "type_refs_ok mb'" using ok new by (auto simp: type_refs_ok_def)
    then show ?thesis using keep new by simp
  next
    case (Some tok0)
    then show ?thesis using ok call sc by (auto simp: type_ref_def Let_def type_refs_ok_def)
  qed
  then show "type_refs_ok mb'" "type_ref_denotes mb' tok (case scope of None \<Rightarrow> 0 | Some t \<Rightarrow> t) ns name"
    "type_ref_denotes mb t s n m \<Longrightarrow> type_ref_denotes mb' t s n m" "type_ref scope ns name mb' = Inr (tok, mb')"
    by (simp_all add: sc type_ref_def Let_def)
qed

text \<open>
  C29. \<open>TypeRef\<close> rows are interned: on a consistent builder with room for one more row, \<^verbatim>\<open>type_ref\<close>
  returns a token whose row spells exactly the requested scope, namespace and name; rows handed out
  before keep their meaning; asking again returns the same token and adds no row.
\<close>

theorem type_ref_interned:
  assumes "type_refs_ok mb" and "length (mb_type_ref mb) + 1 < 2 ^ 24"
    and "type_ref scope ns name mb = Inr (tok, mb')"
  shows "type_refs_ok mb'
    \<and> type_ref_denotes mb' tok (case scope of None \<Rightarrow> 0 | Some t \<Rightarrow> t) ns name
    \<and> (\<forall>t s n m. type_ref_denotes mb t s n m \<longrightarrow> type_ref_denotes mb' t s n m)
    \<and> type_ref scope ns name mb' = Inr (tok, mb')"
  using type_ref_interned_parts [OF assms] by blast

lemma mb_default_ok: "type_refs_ok mb_default"
  by (simp add: type_refs_ok_def mb_default_def strings_default_wf)

theorem type_ref_interned_witness:
  "\<exists>tok mb'. type_ref None ''System'' ''Object'' mb_default = Inr (tok, mb') \<and> type_ref_denotes mb' tok 0 ''System'' ''Object''"
proof -
  have "\<exists>x. type_ref None ''System'' ''Object'' mb_default = Inr x"
    by (simp add: type_ref_def mb_default_def encode_resolution_scope_def mb_intern_string_def strings_intern_def
        str_bytes_def strings_default_def try_u32_def row_id_def Let_def)
  then obtain tok mb' where c: "type_ref None ''System'' ''Object'' mb_default = Inr (tok, mb')" by auto
  have "length (mb_type_ref mb_default) + 1 < 2 ^ 24" by (simp add: mb_default_def)
  from type_ref_interned [OF mb_default_ok this c] c show ?thesis by auto
qed

end
