(* ===== verification/TableStream.thy ===== *)
theory TableStream
  imports MetaTables "HOL-Library.Product_Lexorder"
begin

text \<open>
  Serialization of the metadata (\<^verbatim>\<open>cilly/src/ir/pe_exporter/tables.rs\<close>, \<^verbatim>\<open>MetadataBuilder::serialize\<close> and below):
  row counts, index widths, the rows of the 27 tables, the table stream, the metadata root. A reader written
  from the standard alone, which derives every width from what it reads, gives all of it back.
\<close>


section \<open>Row counts and index widths\<close>

record row_counts =
  rc_module :: nat
  rc_type_ref :: nat
  rc_type_def :: nat
  rc_field :: nat
  rc_method_def :: nat
  rc_param :: nat
  rc_interface_impl :: nat
  rc_member_ref :: nat
  rc_constant :: nat
  rc_custom_attribute :: nat
  rc_class_layout :: nat
  rc_field_layout :: nat
  rc_standalone_sig :: nat
  rc_event_map :: nat
  rc_event :: nat
  rc_property_map :: nat
  rc_property :: nat
  rc_method_semantics :: nat
  rc_method_impl :: nat
  rc_module_ref :: nat
  rc_type_spec :: nat
  rc_impl_map :: nat
  rc_field_rva :: nat
  rc_assembly :: nat
  rc_assembly_ref :: nat
  rc_generic_param :: nat
  rc_method_spec :: nat

definition row_counts_of :: "metadata_builder \<Rightarrow> row_counts" where
  "row_counts_of mb =
     \<lparr>rc_module = length (mb_module mb), rc_type_ref = length (mb_type_ref mb), rc_type_def = length (mb_type_def mb),
      rc_field = length (mb_field mb), rc_method_def = length (mb_method_def mb), rc_param = length (mb_param mb),
      rc_interface_impl = length (mb_interface_impl mb), rc_member_ref = length (mb_member_ref mb), rc_constant = length (mb_constant mb),
      rc_custom_attribute = length (mb_custom_attribute mb), rc_class_layout = length (mb_class_layout mb), rc_field_layout = length (mb_field_layout mb),
      rc_standalone_sig = length (mb_standalone_sig mb), rc_event_map = length (mb_event_map mb), rc_event = length (mb_event mb),
      rc_property_map = length (mb_property_map mb), rc_property = length (mb_property mb), rc_method_semantics = length (mb_method_semantics mb),
      rc_method_impl = length (mb_method_impl mb), rc_module_ref = length (mb_module_ref mb), rc_type_spec = length (mb_type_spec mb),
      rc_impl_map = length (mb_impl_map mb), rc_field_rva = length (mb_field_rva mb), rc_assembly = length (mb_assembly mb),
      rc_assembly_ref = length (mb_assembly_ref mb), rc_generic_param = length (mb_generic_param mb), rc_method_spec = length (mb_method_spec mb)\<rparr>"

definition table_rowcounts :: "row_counts \<Rightarrow> (u32 \<times> nat) list" where
  "table_rowcounts sizes =
     [(TABLE_MODULE, rc_module sizes), (TABLE_TYPE_REF, rc_type_ref sizes), (TABLE_TYPE_DEF, rc_type_def sizes),
      (TABLE_FIELD, rc_field sizes), (TABLE_METHOD_DEF, rc_method_def sizes), (TABLE_PARAM, rc_param sizes),
      (TABLE_INTERFACE_IMPL, rc_interface_impl sizes), (TABLE_MEMBER_REF, rc_member_ref sizes), (TABLE_CONSTANT, rc_constant sizes),
      (TABLE_CUSTOM_ATTRIBUTE, rc_custom_attribute sizes), (TABLE_CLASS_LAYOUT, rc_class_layout sizes), (TABLE_FIELD_LAYOUT, rc_field_layout sizes),
      (TABLE_STAND_ALONE_SIG, rc_standalone_sig sizes), (TABLE_EVENT_MAP, rc_event_map sizes), (TABLE_EVENT, rc_event sizes),
      (TABLE_PROPERTY_MAP, rc_property_map sizes), (TABLE_PROPERTY, rc_property sizes), (TABLE_METHOD_SEMANTICS, rc_method_semantics sizes),
      (TABLE_METHOD_IMPL, rc_method_impl sizes), (TABLE_MODULE_REF, rc_module_ref sizes), (TABLE_TYPE_SPEC, rc_type_spec sizes),
      (TABLE_IMPL_MAP, rc_impl_map sizes), (TABLE_FIELD_RVA, rc_field_rva sizes), (TABLE_ASSEMBLY, rc_assembly sizes),
      (TABLE_ASSEMBLY_REF, rc_assembly_ref sizes), (TABLE_GENERIC_PARAM, rc_generic_param sizes), (TABLE_METHOD_SPEC, rc_method_spec sizes)]"

definition SORTED_TABLES :: "u32 list" where
  "SORTED_TABLES =
     [TABLE_CONSTANT, TABLE_INTERFACE_IMPL, TABLE_CLASS_LAYOUT, TABLE_FIELD_LAYOUT, TABLE_FIELD_RVA, TABLE_IMPL_MAP,
      TABLE_METHOD_SEMANTICS, TABLE_METHOD_IMPL, TABLE_GENERIC_PARAM]"

definition simple_wide :: "nat \<Rightarrow> bool" where
  "simple_wide rows \<longleftrightarrow> rows > 0xFFFF"

definition coded_wide :: "nat \<Rightarrow> nat \<Rightarrow> bool" where
  "coded_wide tag_bits max_rows \<longleftrightarrow> max_rows \<ge> 2 ^ (16 - tag_bits)"

text \<open>The maximum of a non-empty list, the chains of \<^verbatim>\<open>max\<close> of the code.\<close>

fun max_of :: "nat list \<Rightarrow> nat" where
  "max_of [] = 0"
| "max_of (n # ns) = max n (max_of ns)"

record widths =
  w_heap_sizes :: u8
  w_str :: bool
  w_guid :: bool
  w_blob :: bool
  w_type_def :: bool
  w_field :: bool
  w_method_def :: bool
  w_param :: bool
  w_module_ref :: bool
  w_event :: bool
  w_property :: bool
  w_type_def_or_ref :: bool
  w_resolution_scope :: bool
  w_member_ref_parent :: bool
  w_has_constant :: bool
  w_method_def_or_ref :: bool
  w_has_custom_attribute :: bool
  w_custom_attribute_type :: bool
  w_member_forwarded :: bool
  w_has_semantics :: bool
  w_type_or_method_def :: bool

definition widths_compute :: "row_counts \<Rightarrow> strings_heap \<Rightarrow> blob_heap \<Rightarrow> guid_heap \<Rightarrow> widths" where
  "widths_compute sizes strings blobs guids =
     (let str_wide = length (s_data strings) > 0xFFFF;
          blob_wide = length (b_data blobs) > 0xFFFF;
          guid_wide = length (g_data guids) > 0xFFFF;
          heap_sizes = (if str_wide then 1 else 0) OR (if guid_wide then 2 else 0) OR (if blob_wide then 4 else 0) in
      \<lparr>w_heap_sizes = heap_sizes, w_str = str_wide, w_guid = guid_wide, w_blob = blob_wide,
       w_type_def = simple_wide (rc_type_def sizes),
       w_field = simple_wide (rc_field sizes),
       w_method_def = simple_wide (rc_method_def sizes),
       w_param = simple_wide (rc_param sizes),
       w_module_ref = simple_wide (rc_module_ref sizes),
       w_event = simple_wide (rc_event sizes),
       w_property = simple_wide (rc_property sizes),
       w_type_def_or_ref = coded_wide 2 (max_of [rc_type_def sizes, rc_type_ref sizes, rc_type_spec sizes]),
       w_resolution_scope = coded_wide 2 (max_of [rc_module sizes, rc_module_ref sizes, rc_assembly_ref sizes, rc_type_ref sizes]),
       w_member_ref_parent = coded_wide 3 (max_of [rc_type_def sizes, rc_type_ref sizes, rc_module_ref sizes, rc_method_def sizes, rc_type_spec sizes]),
       w_has_constant = coded_wide 2 (max_of [rc_field sizes, rc_param sizes, rc_property sizes]),
       w_method_def_or_ref = coded_wide 1 (max_of [rc_method_def sizes, rc_member_ref sizes]),
       w_has_custom_attribute = coded_wide 5 (max_of [rc_method_def sizes, rc_field sizes, rc_type_ref sizes, rc_type_def sizes, rc_param sizes,
         rc_interface_impl sizes, rc_member_ref sizes, rc_module sizes, rc_assembly sizes, rc_assembly_ref sizes,
         rc_type_spec sizes, rc_generic_param sizes, rc_event sizes, rc_property sizes, rc_standalone_sig sizes,
         rc_module_ref sizes, rc_method_spec sizes]),
       w_custom_attribute_type = coded_wide 3 (max_of [rc_method_def sizes, rc_member_ref sizes]),
       w_member_forwarded = coded_wide 1 (max_of [rc_field sizes, rc_method_def sizes]),
       w_has_semantics = coded_wide 1 (max_of [rc_event sizes, rc_property sizes]),
       w_type_or_method_def = coded_wide 1 (max_of [rc_type_def sizes, rc_method_def sizes])\<rparr>)"

section \<open>Writing the rows\<close>

definition write_heap_idx :: "u32 \<Rightarrow> bool \<Rightarrow> u8 list" where
  "write_heap_idx value wide = (if wide then le_bytes 4 value else le_bytes 2 (ucast value :: u16))"

definition write_simple_idx :: "u32 \<Rightarrow> bool \<Rightarrow> u8 list" where
  "write_simple_idx = write_heap_idx"

definition write_coded_idx :: "u32 \<Rightarrow> bool \<Rightarrow> u8 list" where
  "write_coded_idx = write_heap_idx"

definition write_rows :: "'a list \<Rightarrow> ('a \<Rightarrow> u8 list) \<Rightarrow> u8 list" where
  "write_rows rows body = concat (map body rows)"

definition write_sorted_rows :: "'a list \<Rightarrow> ('a \<Rightarrow> 'k::linorder) \<Rightarrow> ('a \<Rightarrow> u8 list) \<Rightarrow> u8 list" where
  "write_sorted_rows rows key body = concat (map body (sort_key key rows))"

definition write_version :: "u16 \<times> u16 \<times> u16 \<times> u16 \<Rightarrow> u8 list" where
  "write_version v = (case v of (a, b, c, d) \<Rightarrow> le_bytes 2 a @ le_bytes 2 b @ le_bytes 2 c @ le_bytes 2 d)"

definition write_module_rows :: "metadata_builder \<Rightarrow> widths \<Rightarrow> u8 list" where
  "write_module_rows mb w = write_rows (mb_module mb) (\<lambda>row.
     le_bytes 2 (0 :: u16) @ write_heap_idx (mo_name row) (w_str w) @
       write_heap_idx (mo_mvid row) (w_guid w) @ write_heap_idx 0 (w_guid w) @ write_heap_idx 0 (w_guid w))"

definition write_type_ref_rows :: "metadata_builder \<Rightarrow> widths \<Rightarrow> u8 list" where
  "write_type_ref_rows mb w = write_rows (mb_type_ref mb) (\<lambda>row.
     write_coded_idx (tr_resolution_scope row) (w_resolution_scope w) @
       write_heap_idx (tr_name row) (w_str w) @ write_heap_idx (tr_namespace row) (w_str w))"

definition write_type_def_rows :: "metadata_builder \<Rightarrow> widths \<Rightarrow> u8 list" where
  "write_type_def_rows mb w = write_rows (mb_type_def mb) (\<lambda>row.
     le_bytes 4 (td_flags row) @ write_heap_idx (td_name row) (w_str w) @
       write_heap_idx (td_namespace row) (w_str w) @ write_coded_idx (td_extends row) (w_type_def_or_ref w) @
       write_simple_idx (td_field_list row) (w_field w) @
       write_simple_idx (td_method_list row) (w_method_def w))"

definition write_field_rows :: "metadata_builder \<Rightarrow> widths \<Rightarrow> u8 list" where
  "write_field_rows mb w = write_rows (mb_field mb) (\<lambda>row.
     le_bytes 2 (fld_flags row) @ write_heap_idx (fld_name row) (w_str w) @
       write_heap_idx (fld_signature row) (w_blob w))"

definition write_method_def_rows :: "metadata_builder \<Rightarrow> widths \<Rightarrow> u8 list" where
  "write_method_def_rows mb w = write_rows (mb_method_def mb) (\<lambda>row.
     le_bytes 4 (mdf_rva row) @ le_bytes 2 (mdf_impl_flags row) @ le_bytes 2 (mdf_flags row) @
       write_heap_idx (mdf_name row) (w_str w) @ write_heap_idx (mdf_signature row) (w_blob w) @
       write_simple_idx (mdf_param_list row) (w_param w))"

definition write_param_rows :: "metadata_builder \<Rightarrow> widths \<Rightarrow> u8 list" where
  "write_param_rows mb w = write_rows (mb_param mb) (\<lambda>row.
     le_bytes 2 (pa_flags row) @ le_bytes 2 (pa_sequence row) @ write_heap_idx (pa_name row) (w_str w))"

definition write_interface_impl_rows :: "metadata_builder \<Rightarrow> widths \<Rightarrow> u8 list" where
  "write_interface_impl_rows mb w = write_sorted_rows (mb_interface_impl mb) ii_class (\<lambda>row.
     write_simple_idx (ii_class row) (w_type_def w) @
       write_coded_idx (ii_interface row) (w_type_def_or_ref w))"

definition write_member_ref_rows :: "metadata_builder \<Rightarrow> widths \<Rightarrow> u8 list" where
  "write_member_ref_rows mb w = write_rows (mb_member_ref mb) (\<lambda>row.
     write_coded_idx (mr_class row) (w_member_ref_parent w) @ write_heap_idx (mr_name row) (w_str w) @
       write_heap_idx (mr_signature row) (w_blob w))"

definition write_constant_rows :: "metadata_builder \<Rightarrow> widths \<Rightarrow> u8 list" where
  "write_constant_rows mb w = write_sorted_rows (mb_constant mb) cn_parent (\<lambda>row.
     [cn_type_code row, 0] @ write_coded_idx (cn_parent row) (w_has_constant w) @
       write_heap_idx (cn_value row) (w_blob w))"

definition write_event_map_rows :: "metadata_builder \<Rightarrow> widths \<Rightarrow> u8 list" where
  "write_event_map_rows mb w = write_rows (mb_event_map mb) (\<lambda>row.
     write_simple_idx (em_parent row) (w_type_def w) @ write_simple_idx (em_event_list row) (w_event w))"

definition write_event_rows :: "metadata_builder \<Rightarrow> widths \<Rightarrow> u8 list" where
  "write_event_rows mb w = write_rows (mb_event mb) (\<lambda>row.
     le_bytes 2 (ev_flags row) @ write_heap_idx (ev_name row) (w_str w) @
       write_coded_idx (ev_type row) (w_type_def_or_ref w))"

definition write_property_map_rows :: "metadata_builder \<Rightarrow> widths \<Rightarrow> u8 list" where
  "write_property_map_rows mb w = write_rows (mb_property_map mb) (\<lambda>row.
     write_simple_idx (pm_parent row) (w_type_def w) @
       write_simple_idx (pm_property_list row) (w_property w))"

definition write_property_rows :: "metadata_builder \<Rightarrow> widths \<Rightarrow> u8 list" where
  "write_property_rows mb w = write_rows (mb_property mb) (\<lambda>row.
     le_bytes 2 (pr_flags row) @ write_heap_idx (pr_name row) (w_str w) @
       write_heap_idx (pr_signature row) (w_blob w))"

definition write_method_semantics_rows :: "metadata_builder \<Rightarrow> widths \<Rightarrow> u8 list" where
  "write_method_semantics_rows mb w = write_sorted_rows (mb_method_semantics mb) se_association (\<lambda>row.
     le_bytes 2 (se_semantics row) @ write_simple_idx (se_method row) (w_method_def w) @
       write_coded_idx (se_association row) (w_has_semantics w))"

definition write_method_impl_rows :: "metadata_builder \<Rightarrow> widths \<Rightarrow> u8 list" where
  "write_method_impl_rows mb w = write_sorted_rows (mb_method_impl mb) mi_class (\<lambda>row.
     write_simple_idx (mi_class row) (w_type_def w) @
       write_coded_idx (mi_method_body row) (w_method_def_or_ref w) @
       write_coded_idx (mi_method_declaration row) (w_method_def_or_ref w))"

definition write_custom_attribute_rows :: "metadata_builder \<Rightarrow> widths \<Rightarrow> u8 list" where
  "write_custom_attribute_rows mb w = write_sorted_rows (mb_custom_attribute mb) ca_parent (\<lambda>row.
     write_coded_idx (ca_parent row) (w_has_custom_attribute w) @
       write_coded_idx (ca_ctor row) (w_custom_attribute_type w) @ write_heap_idx (ca_value row) (w_blob w))"

definition write_class_layout_rows :: "metadata_builder \<Rightarrow> widths \<Rightarrow> u8 list" where
  "write_class_layout_rows mb w = write_sorted_rows (mb_class_layout mb) cl_parent (\<lambda>row.
     le_bytes 2 (cl_packing_size row) @ le_bytes 4 (cl_class_size row) @
       write_simple_idx (cl_parent row) (w_type_def w))"

definition write_field_layout_rows :: "metadata_builder \<Rightarrow> widths \<Rightarrow> u8 list" where
  "write_field_layout_rows mb w = write_sorted_rows (mb_field_layout mb) fl_field (\<lambda>row.
     le_bytes 4 (fl_offset row) @ write_simple_idx (fl_field row) (w_field w))"

definition write_standalone_sig_rows :: "metadata_builder \<Rightarrow> widths \<Rightarrow> u8 list" where
  "write_standalone_sig_rows mb w = write_rows (mb_standalone_sig mb) (\<lambda>row.
     write_heap_idx row (w_blob w))"

definition write_module_ref_rows :: "metadata_builder \<Rightarrow> widths \<Rightarrow> u8 list" where
  "write_module_ref_rows mb w = write_rows (mb_module_ref mb) (\<lambda>row.
     write_heap_idx row (w_str w))"

definition write_type_spec_rows :: "metadata_builder \<Rightarrow> widths \<Rightarrow> u8 list" where
  "write_type_spec_rows mb w = write_rows (mb_type_spec mb) (\<lambda>row.
     write_heap_idx row (w_blob w))"

definition write_impl_map_rows :: "metadata_builder \<Rightarrow> widths \<Rightarrow> u8 list" where
  "write_impl_map_rows mb w = write_sorted_rows (mb_impl_map mb) im_member_forwarded (\<lambda>row.
     le_bytes 2 (im_mapping_flags row) @ write_coded_idx (im_member_forwarded row) (w_member_forwarded w) @
       write_heap_idx (im_import_name row) (w_str w) @
       write_simple_idx (im_import_scope row) (w_module_ref w))"

definition write_field_rva_rows :: "metadata_builder \<Rightarrow> widths \<Rightarrow> u8 list" where
  "write_field_rva_rows mb w = write_sorted_rows (mb_field_rva mb) fv_field (\<lambda>row.
     le_bytes 4 (fv_rva row) @ write_simple_idx (fv_field row) (w_field w))"

definition write_assembly_rows :: "metadata_builder \<Rightarrow> widths \<Rightarrow> u8 list" where
  "write_assembly_rows mb w = write_rows (mb_assembly mb) (\<lambda>row.
     le_bytes 4 (ay_hash_alg_id row) @ write_version (ay_version row) @ le_bytes 4 (ay_flags row) @
       write_heap_idx (ay_public_key row) (w_blob w) @ write_heap_idx (ay_name row) (w_str w) @
       write_heap_idx (ay_culture row) (w_str w))"

definition write_assembly_ref_rows :: "metadata_builder \<Rightarrow> widths \<Rightarrow> u8 list" where
  "write_assembly_ref_rows mb w = write_rows (mb_assembly_ref mb) (\<lambda>row.
     write_version (ar_version row) @ le_bytes 4 (ar_flags row) @
       write_heap_idx (ar_public_key_or_token row) (w_blob w) @ write_heap_idx (ar_name row) (w_str w) @
       write_heap_idx (ar_culture row) (w_str w) @ write_heap_idx (ar_hash_value row) (w_blob w))"

definition write_generic_param_rows :: "metadata_builder \<Rightarrow> widths \<Rightarrow> u8 list" where
  "write_generic_param_rows mb w = write_sorted_rows (mb_generic_param mb) (\<lambda>r. (gp_owner r, gp_number r)) (\<lambda>row.
     le_bytes 2 (gp_number row) @ le_bytes 2 (gp_flags row) @
       write_coded_idx (gp_owner row) (w_type_or_method_def w) @ write_heap_idx (gp_name row) (w_str w))"

definition write_method_spec_rows :: "metadata_builder \<Rightarrow> widths \<Rightarrow> u8 list" where
  "write_method_spec_rows mb w = write_rows (mb_method_spec mb) (\<lambda>row.
     write_coded_idx (ms_method row) (w_method_def_or_ref w) @
       write_heap_idx (ms_instantiation row) (w_blob w))"

definition or_bits :: "u32 list \<Rightarrow> u64" where
  "or_bits ids = foldl (\<lambda>acc i. acc OR push_bit (unat i) 1) 0 ids"

text \<open>The row counts of the header are written as 32-bit words.\<close>

definition serialize_tables :: "metadata_builder \<Rightarrow> row_counts \<Rightarrow> widths \<Rightarrow> u8 list" where
  "serialize_tables mb sizes w =
     (let present = filter (\<lambda>(_, count). count > 0) (table_rowcounts sizes);
          valid = or_bits (map fst present);
          sorted = or_bits (filter (\<lambda>i. i \<in> set SORTED_TABLES) (map fst present)) in
      le_bytes 4 (0 :: u32) @ [2, 0, w_heap_sizes w, 1] @ le_bytes 8 valid @ le_bytes 8 sorted
      @ concat (map (\<lambda>(_, count). le_bytes 4 (word_of_nat count :: u32)) present)
      @ write_module_rows mb w @ write_type_ref_rows mb w @ write_type_def_rows mb w
      @ write_field_rows mb w @ write_method_def_rows mb w @ write_param_rows mb w
      @ write_interface_impl_rows mb w @ write_member_ref_rows mb w @ write_constant_rows mb w
      @ write_custom_attribute_rows mb w @ write_class_layout_rows mb w @ write_field_layout_rows mb w
      @ write_standalone_sig_rows mb w @ write_event_map_rows mb w @ write_event_rows mb w
      @ write_property_map_rows mb w @ write_property_rows mb w @ write_method_semantics_rows mb w
      @ write_method_impl_rows mb w @ write_module_ref_rows mb w @ write_type_spec_rows mb w
      @ write_impl_map_rows mb w @ write_field_rva_rows mb w @ write_assembly_rows mb w
      @ write_assembly_ref_rows mb w @ write_generic_param_rows mb w @ write_method_spec_rows mb w)"

section \<open>The reader of the standard\<close>

text \<open>
  Columns as II.22 gives them, with the coded indices of II.24.2.6: the number of tag bits and the tables in the
  order of their tags, 255 for a tag without a table. A reader knows nothing of the writer's widths; it computes the width of a column from the header.
\<close>

datatype column = Fixed nat | StrHeap | GuidHeap | BlobHeap | RowIndex nat | RunStart nat | CodedIndex nat "nat list"

abbreviation (input) TypeDefOrRef :: column where "TypeDefOrRef \<equiv> CodedIndex 2 [2, 1, 27]"
abbreviation (input) HasConstant :: column where "HasConstant \<equiv> CodedIndex 2 [4, 8, 23]"
abbreviation (input) HasCustomAttribute :: column where
  "HasCustomAttribute \<equiv> CodedIndex 5 [6, 4, 1, 2, 8, 9, 10, 0, 14, 23, 20, 17, 26, 27, 32, 35, 38, 39, 40, 42, 44, 43]"
abbreviation (input) MemberRefParent :: column where "MemberRefParent \<equiv> CodedIndex 3 [2, 1, 26, 6, 27]"
abbreviation (input) HasSemantics :: column where "HasSemantics \<equiv> CodedIndex 1 [20, 23]"
abbreviation (input) MethodDefOrRef :: column where "MethodDefOrRef \<equiv> CodedIndex 1 [6, 10]"
abbreviation (input) MemberForwarded :: column where "MemberForwarded \<equiv> CodedIndex 1 [4, 6]"
abbreviation (input) CustomAttributeType :: column where "CustomAttributeType \<equiv> CodedIndex 3 [255, 255, 6, 10]"
abbreviation (input) ResolutionScope :: column where "ResolutionScope \<equiv> CodedIndex 2 [0, 26, 35, 1]"
abbreviation (input) TypeOrMethodDef :: column where "TypeOrMethodDef \<equiv> CodedIndex 1 [2, 6]"

definition schemas :: "(nat \<times> column list) list" where
  "schemas =
     [(0, [Fixed 2, StrHeap, GuidHeap, GuidHeap, GuidHeap]),
      (1, [ResolutionScope, StrHeap, StrHeap]),
      (2, [Fixed 4, StrHeap, StrHeap, TypeDefOrRef, RunStart 4, RunStart 6]),
      (4, [Fixed 2, StrHeap, BlobHeap]),
      (6, [Fixed 4, Fixed 2, Fixed 2, StrHeap, BlobHeap, RunStart 8]),
      (8, [Fixed 2, Fixed 2, StrHeap]),
      (9, [RowIndex 2, TypeDefOrRef]),
      (10, [MemberRefParent, StrHeap, BlobHeap]),
      (11, [Fixed 1, Fixed 1, HasConstant, BlobHeap]),
      (12, [HasCustomAttribute, CustomAttributeType, BlobHeap]),
      (15, [Fixed 2, Fixed 4, RowIndex 2]),
      (16, [Fixed 4, RowIndex 4]),
      (17, [BlobHeap]),
      (18, [RowIndex 2, RunStart 20]),
      (20, [Fixed 2, StrHeap, TypeDefOrRef]),
      (21, [RowIndex 2, RunStart 23]),
      (23, [Fixed 2, StrHeap, BlobHeap]),
      (24, [Fixed 2, RowIndex 6, HasSemantics]),
      (25, [RowIndex 2, MethodDefOrRef, MethodDefOrRef]),
      (26, [StrHeap]),
      (27, [BlobHeap]),
      (28, [Fixed 2, MemberForwarded, StrHeap, RowIndex 26]),
      (29, [Fixed 4, RowIndex 4]),
      (32, [Fixed 4, Fixed 2, Fixed 2, Fixed 2, Fixed 2, Fixed 4, BlobHeap, StrHeap, StrHeap]),
      (35, [Fixed 2, Fixed 2, Fixed 2, Fixed 2, Fixed 4, BlobHeap, StrHeap, StrHeap, BlobHeap]),
      (42, [Fixed 2, Fixed 2, TypeOrMethodDef, StrHeap]),
      (43, [MethodDefOrRef, BlobHeap])]"

definition column_width :: "u8 \<Rightarrow> (nat \<Rightarrow> nat) \<Rightarrow> column \<Rightarrow> nat" where
  "column_width heap_sizes rows c =
     (case c of
        Fixed n \<Rightarrow> n
      | StrHeap \<Rightarrow> if bit heap_sizes 0 then 4 else 2
      | GuidHeap \<Rightarrow> if bit heap_sizes 1 then 4 else 2
      | BlobHeap \<Rightarrow> if bit heap_sizes 2 then 4 else 2
      | RowIndex t \<Rightarrow> if rows t < 2 ^ 16 then 2 else 4
      | RunStart t \<Rightarrow> if rows t < 2 ^ 16 then 2 else 4
      | CodedIndex bits ts \<Rightarrow> if \<forall>t\<in>set ts. rows t < 2 ^ (16 - bits) then 2 else 4)"

fun le_nat :: "u8 list \<Rightarrow> nat" where
  "le_nat [] = 0"
| "le_nat (b # bs) = unat b + 256 * le_nat bs"

definition read_int :: "nat \<Rightarrow> u8 list \<Rightarrow> (nat \<times> u8 list) option" where
  "read_int n bs = (if length bs < n then None else Some (le_nat (take n bs), drop n bs))"

fun read_row :: "nat list \<Rightarrow> u8 list \<Rightarrow> (nat list \<times> u8 list) option" where
  "read_row [] bs = Some ([], bs)"
| "read_row (w # ws) bs =
     Option.bind (read_int w bs) (\<lambda>(v, bs). Option.bind (read_row ws bs) (\<lambda>(vs, bs). Some (v # vs, bs)))"

fun read_rows :: "nat \<Rightarrow> nat list \<Rightarrow> u8 list \<Rightarrow> (nat list list \<times> u8 list) option" where
  "read_rows 0 ws bs = Some ([], bs)"
| "read_rows (Suc n) ws bs =
     Option.bind (read_row ws bs) (\<lambda>(r, bs). Option.bind (read_rows n ws bs) (\<lambda>(rs, bs). Some (r # rs, bs)))"

fun read_counts :: "nat list \<Rightarrow> u8 list \<Rightarrow> ((nat \<times> nat) list \<times> u8 list) option" where
  "read_counts [] bs = Some ([], bs)"
| "read_counts (t # ts) bs =
     Option.bind (read_int 4 bs) (\<lambda>(n, bs). Option.bind (read_counts ts bs) (\<lambda>(ns, bs). Some ((t, n) # ns, bs)))"

fun read_contents ::
  "(nat \<Rightarrow> nat list option) \<Rightarrow> (nat \<times> nat) list \<Rightarrow> u8 list \<Rightarrow> ((nat \<times> nat list list) list \<times> u8 list) option" where
  "read_contents ws [] bs = Some ([], bs)"
| "read_contents ws ((t, n) # ts) bs =
     Option.bind (ws t) (\<lambda>w. Option.bind (read_rows n w bs) (\<lambda>(rs, bs).
     Option.bind (read_contents ws ts bs) (\<lambda>(cs, bs). Some ((t, rs) # cs, bs))))"

definition rows_of :: "(nat \<times> nat) list \<Rightarrow> nat \<Rightarrow> nat" where
  "rows_of counts t = (case map_of counts t of None \<Rightarrow> 0 | Some n \<Rightarrow> n)"

definition table_widths :: "u8 \<Rightarrow> (nat \<Rightarrow> nat) \<Rightarrow> nat \<Rightarrow> nat list option" where
  "table_widths heap_sizes rows t = map_option (map (column_width heap_sizes rows)) (map_of schemas t)"

text \<open>The stream: reserved, version 2.0, heap sizes, reserved, the tables present, those sorted, counts, rows.\<close>

record table_stream =
  st_heap_sizes :: u8
  st_sorted :: u64
  st_tables :: "(nat \<times> nat list list) list"

definition read_tables :: "u8 list \<Rightarrow> (table_stream \<times> u8 list) option" where
  "read_tables bs =
     (if length bs < 24 \<or> take 4 bs \<noteq> [0, 0, 0, 0] \<or> bs ! 4 \<noteq> 2 \<or> bs ! 5 \<noteq> 0 \<or> bs ! 7 \<noteq> 1 then None
      else
        (let heap_sizes = bs ! 6; valid = of_le (take 8 (drop 8 bs)) :: u64; sorted = of_le (take 8 (drop 16 bs)) in
         Option.bind (read_counts (filter (bit valid) [0..<64]) (drop 24 bs)) (\<lambda>(counts, bs).
         Option.bind (read_contents (table_widths heap_sizes (rows_of counts)) counts bs) (\<lambda>(tables, bs).
         Some (\<lparr>st_heap_sizes = heap_sizes, st_sorted = sorted, st_tables = tables\<rparr>, bs)))))"

section \<open>The rows as the reader sees them\<close>

definition version_cols :: "u16 \<times> u16 \<times> u16 \<times> u16 \<Rightarrow> nat list" where
  "version_cols v = (case v of (a, b, c, d) \<Rightarrow> [unat a, unat b, unat c, unat d])"

definition module_cols :: "module_row \<Rightarrow> nat list" where
  "module_cols row =
    [0, unat (mo_name row), unat (mo_mvid row), 0, 0]"

definition type_ref_cols :: "type_ref_row \<Rightarrow> nat list" where
  "type_ref_cols row =
    [unat (tr_resolution_scope row), unat (tr_name row), unat (tr_namespace row)]"

definition type_def_cols :: "type_def_row \<Rightarrow> nat list" where
  "type_def_cols row =
    [unat (td_flags row), unat (td_name row), unat (td_namespace row), unat (td_extends row),
     unat (td_field_list row), unat (td_method_list row)]"

definition field_cols :: "field_row \<Rightarrow> nat list" where
  "field_cols row =
    [unat (fld_flags row), unat (fld_name row), unat (fld_signature row)]"

definition method_def_cols :: "method_def_row \<Rightarrow> nat list" where
  "method_def_cols row =
    [unat (mdf_rva row), unat (mdf_impl_flags row), unat (mdf_flags row), unat (mdf_name row),
     unat (mdf_signature row), unat (mdf_param_list row)]"

definition param_cols :: "param_row \<Rightarrow> nat list" where
  "param_cols row =
    [unat (pa_flags row), unat (pa_sequence row), unat (pa_name row)]"

definition interface_impl_cols :: "interface_impl_row \<Rightarrow> nat list" where
  "interface_impl_cols row =
    [unat (ii_class row), unat (ii_interface row)]"

definition member_ref_cols :: "member_ref_row \<Rightarrow> nat list" where
  "member_ref_cols row =
    [unat (mr_class row), unat (mr_name row), unat (mr_signature row)]"

definition constant_cols :: "constant_row \<Rightarrow> nat list" where
  "constant_cols row =
    [unat (cn_type_code row), 0, unat (cn_parent row), unat (cn_value row)]"

definition custom_attribute_cols :: "custom_attribute_row \<Rightarrow> nat list" where
  "custom_attribute_cols row =
    [unat (ca_parent row), unat (ca_ctor row), unat (ca_value row)]"

definition class_layout_cols :: "class_layout_row \<Rightarrow> nat list" where
  "class_layout_cols row =
    [unat (cl_packing_size row), unat (cl_class_size row), unat (cl_parent row)]"

definition field_layout_cols :: "field_layout_row \<Rightarrow> nat list" where
  "field_layout_cols row =
    [unat (fl_offset row), unat (fl_field row)]"

definition event_map_cols :: "event_map_row \<Rightarrow> nat list" where
  "event_map_cols row =
    [unat (em_parent row), unat (em_event_list row)]"

definition event_cols :: "event_row \<Rightarrow> nat list" where
  "event_cols row =
    [unat (ev_flags row), unat (ev_name row), unat (ev_type row)]"

definition property_map_cols :: "property_map_row \<Rightarrow> nat list" where
  "property_map_cols row =
    [unat (pm_parent row), unat (pm_property_list row)]"

definition property_cols :: "property_row \<Rightarrow> nat list" where
  "property_cols row =
    [unat (pr_flags row), unat (pr_name row), unat (pr_signature row)]"

definition method_semantics_cols :: "method_semantics_row \<Rightarrow> nat list" where
  "method_semantics_cols row =
    [unat (se_semantics row), unat (se_method row), unat (se_association row)]"

definition method_impl_cols :: "method_impl_row \<Rightarrow> nat list" where
  "method_impl_cols row =
    [unat (mi_class row), unat (mi_method_body row), unat (mi_method_declaration row)]"

definition impl_map_cols :: "impl_map_row \<Rightarrow> nat list" where
  "impl_map_cols row =
    [unat (im_mapping_flags row), unat (im_member_forwarded row), unat (im_import_name row),
     unat (im_import_scope row)]"

definition field_rva_cols :: "field_rva_row \<Rightarrow> nat list" where
  "field_rva_cols row =
    [unat (fv_rva row), unat (fv_field row)]"

definition assembly_cols :: "assembly_row \<Rightarrow> nat list" where
  "assembly_cols row =
    [unat (ay_hash_alg_id row)] @ version_cols (ay_version row) @ [unat (ay_flags row),
     unat (ay_public_key row), unat (ay_name row), unat (ay_culture row)]"

definition assembly_ref_cols :: "assembly_ref_row \<Rightarrow> nat list" where
  "assembly_ref_cols row =
    version_cols (ar_version row) @ [unat (ar_flags row), unat (ar_public_key_or_token row),
     unat (ar_name row), unat (ar_culture row), unat (ar_hash_value row)]"

definition generic_param_cols :: "generic_param_row \<Rightarrow> nat list" where
  "generic_param_cols row =
    [unat (gp_number row), unat (gp_flags row), unat (gp_owner row), unat (gp_name row)]"

definition method_spec_cols :: "method_spec_row \<Rightarrow> nat list" where
  "method_spec_cols row =
    [unat (ms_method row), unat (ms_instantiation row)]"

definition table_contents :: "metadata_builder \<Rightarrow> (nat \<times> nat list list) list" where
  "table_contents mb =
     [(0, map module_cols (mb_module mb)),
      (1, map type_ref_cols (mb_type_ref mb)),
      (2, map type_def_cols (mb_type_def mb)),
      (4, map field_cols (mb_field mb)),
      (6, map method_def_cols (mb_method_def mb)),
      (8, map param_cols (mb_param mb)),
      (9, map interface_impl_cols (sort_key ii_class (mb_interface_impl mb))),
      (10, map member_ref_cols (mb_member_ref mb)),
      (11, map constant_cols (sort_key cn_parent (mb_constant mb))),
      (12, map custom_attribute_cols (sort_key ca_parent (mb_custom_attribute mb))),
      (15, map class_layout_cols (sort_key cl_parent (mb_class_layout mb))),
      (16, map field_layout_cols (sort_key fl_field (mb_field_layout mb))),
      (17, map (\<lambda>x. [unat x]) (mb_standalone_sig mb)),
      (18, map event_map_cols (mb_event_map mb)),
      (20, map event_cols (mb_event mb)),
      (21, map property_map_cols (mb_property_map mb)),
      (23, map property_cols (mb_property mb)),
      (24, map method_semantics_cols (sort_key se_association (mb_method_semantics mb))),
      (25, map method_impl_cols (sort_key mi_class (mb_method_impl mb))),
      (26, map (\<lambda>x. [unat x]) (mb_module_ref mb)),
      (27, map (\<lambda>x. [unat x]) (mb_type_spec mb)),
      (28, map impl_map_cols (sort_key im_member_forwarded (mb_impl_map mb))),
      (29, map field_rva_cols (sort_key fv_field (mb_field_rva mb))),
      (32, map assembly_cols (mb_assembly mb)),
      (35, map assembly_ref_cols (mb_assembly_ref mb)),
      (42, map generic_param_cols (sort_key (\<lambda>r. (gp_owner r, gp_number r)) (mb_generic_param mb))),
      (43, map method_spec_cols (mb_method_spec mb))]"

text \<open>
  A value is in range of its column: an offset inside its heap, the number of an existing row, the code of an existing
  row, 0 for none. The first row of a run may be one past the last row of its table; with exactly \<open>65535\<close> rows that number
  no longer fits the column.
\<close>

definition in_column :: "metadata_builder \<Rightarrow> (nat \<Rightarrow> nat) \<Rightarrow> column \<Rightarrow> nat \<Rightarrow> bool" where
  "in_column mb rows c v \<longleftrightarrow>
     (case c of
        Fixed n \<Rightarrow> v < 256 ^ n
      | StrHeap \<Rightarrow> v \<le> length (s_data (mb_strings mb))
      | GuidHeap \<Rightarrow> v \<le> length (g_data (mb_guids mb))
      | BlobHeap \<Rightarrow> v \<le> length (b_data (mb_blobs mb))
      | RowIndex t \<Rightarrow> v \<le> rows t
      | RunStart t \<Rightarrow> v \<le> rows t + 1 \<and> rows t \<noteq> 65535
      | CodedIndex bits ts \<Rightarrow> v mod 2 ^ bits < length ts \<and> v div 2 ^ bits \<le> rows (ts ! (v mod 2 ^ bits)))
     \<and> v < 2 ^ 32"

definition content_rows :: "metadata_builder \<Rightarrow> nat \<Rightarrow> nat" where
  "content_rows mb = rows_of (map (\<lambda>(t, rs). (t, length rs)) (table_contents mb))"

definition rows_in_range :: "metadata_builder \<Rightarrow> bool" where
  "rows_in_range mb \<longleftrightarrow>
     list_all (\<lambda>(t, rs). length rs < 2 ^ 32
        \<and> list_all (\<lambda>r. list_all2 (in_column mb (content_rows mb)) (the (map_of schemas t)) r) rs) (table_contents mb)"

definition widths_of :: "metadata_builder \<Rightarrow> widths" where
  "widths_of mb = widths_compute (row_counts_of mb) (mb_strings mb) (mb_blobs mb) (mb_guids mb)"

section \<open>Bytes of numbers\<close>

fun nat_bytes :: "nat \<Rightarrow> nat \<Rightarrow> u8 list" where
  "nat_bytes 0 v = []"
| "nat_bytes (Suc n) v = word_of_nat v # nat_bytes n (v div 256)"

lemma nat_bytes_length [simp]: "length (nat_bytes n v) = n"
  by (induction n arbitrary: v) simp_all

lemma le_nat_bytes: "v < 256 ^ n \<Longrightarrow> le_nat (nat_bytes n v) = v"
proof (induction n arbitrary: v)
  case (Suc n)
  have "v div 256 < 256 ^ n" using Suc.prems by (simp add: less_mult_imp_div_less mult.commute)
  then have "le_nat (nat_bytes n (v div 256)) = v div 256" by (rule Suc.IH)
  then show ?case by (simp add: unat_of_nat take_bit_nat_def)
qed simp

lemma le_bytes_nat: "le_bytes n w = nat_bytes n (unat w)"
proof (induction n arbitrary: w)
  case (Suc n)
  have "unat (drop_bit 8 w) = unat w div 256" unfolding unat_drop_bit_eq by (simp add: drop_bit_eq_div)
  moreover have "(ucast w :: u8) = word_of_nat (unat w)" by simp
  ultimately show ?case using Suc.IH by simp
qed simp

lemma word8_of_nat_add: "(word_of_nat (256 * k + v) :: u8) = word_of_nat v"
  unfolding word_of_nat_eq_iff by (simp add: take_bit_eq_mod)

lemma nat_bytes_mod: "nat_bytes n (v mod 256 ^ n) = nat_bytes n v"
proof (induction n arbitrary: v)
  case (Suc n)
  have v: "v mod 256 ^ Suc n = 256 * (v div 256 mod 256 ^ n) + v mod 256" by (simp add: mod_mult2_eq)
  have "(word_of_nat (v mod 256) :: u8) = word_of_nat v" by (simp add: word_of_nat_eq_iff take_bit_eq_mod)
  then show ?case unfolding nat_bytes.simps v word8_of_nat_add using Suc.IH [of "v div 256"] by simp
qed simp

lemma write_heap_idx_nat: "write_heap_idx v wide = nat_bytes (if wide then 4 else 2) (unat v)"
proof -
  have "unat (ucast v :: u16) = unat v mod 256 ^ 2" by (simp add: unsigned_ucast_eq take_bit_eq_mod)
  then show ?thesis using nat_bytes_mod [of 2 "unat v"] by (simp add: write_heap_idx_def le_bytes_nat)
qed

section \<open>Reading back\<close>

definition enc_row :: "nat list \<Rightarrow> nat list \<Rightarrow> u8 list" where
  "enc_row ws vs = concat (map2 nat_bytes ws vs)"

lemma enc_row_simps [simp]: "enc_row [] vs = []" "enc_row (w # ws) (v # vs) = nat_bytes w v @ enc_row ws vs"
  by (simp_all add: enc_row_def)

lemma read_int_bytes [simp]: "v < 256 ^ n \<Longrightarrow> read_int n (nat_bytes n v @ rest) = Some (v, rest)"
  by (simp add: read_int_def le_nat_bytes)

lemma read_row_enc: "list_all2 (\<lambda>w v. v < 256 ^ w) ws vs \<Longrightarrow> read_row ws (enc_row ws vs @ rest) = Some (vs, rest)"
  by (induction ws vs rule: list_all2_induct) simp_all

lemma read_rows_enc:
  "list_all (list_all2 (\<lambda>w v. v < 256 ^ w) ws) rs
    \<Longrightarrow> read_rows (length rs) ws (concat (map (enc_row ws) rs) @ rest) = Some (rs, rest)"
  by (induction rs) (simp_all add: read_row_enc)

lemma read_counts_enc:
  "list_all (\<lambda>(_, n). n < 2 ^ 32) cs
    \<Longrightarrow> read_counts (map fst cs) (concat (map (\<lambda>(_, n). nat_bytes 4 n) cs) @ rest) = Some (cs, rest)"
  by (induction cs) auto

lemma read_contents_enc:
  "list_all (\<lambda>(t, rs). ws t \<noteq> None \<and> list_all (list_all2 (\<lambda>w v. v < 256 ^ w) (the (ws t))) rs) ts
    \<Longrightarrow> read_contents ws (map (\<lambda>(t, rs). (t, length rs)) ts) (concat (map (\<lambda>(t, rs). concat (map (enc_row (the (ws t))) rs)) ts) @ rest)
      = Some (ts, rest)"
  by (induction ts) (auto simp: read_rows_enc)

lemma bit_or_bits: "bit (foldl (\<lambda>acc i. acc OR push_bit (unat i) 1) a ids :: u64) n \<longleftrightarrow> bit a n \<or> n < 64 \<and> n \<in> unat ` set (ids :: u32 list)"
  by (induction ids arbitrary: a) (auto simp: bit_simps)

lemma filter_upt_ids: "sorted xs \<Longrightarrow> distinct xs \<Longrightarrow> set xs \<subseteq> {..<n} \<Longrightarrow> filter (\<lambda>i. i \<in> set xs) [0..<n] = xs"
  by (rule sorted_distinct_set_unique) (auto simp: sorted_wrt_filter)

section \<open>The widths of the writer are those of the reader\<close>

lemma content_rows_simps [simp]:
  "content_rows mb 0 = length (mb_module mb)" "content_rows mb (Suc 0) = length (mb_type_ref mb)"
  "content_rows mb 2 = length (mb_type_def mb)" "content_rows mb 4 = length (mb_field mb)"
  "content_rows mb 6 = length (mb_method_def mb)" "content_rows mb 8 = length (mb_param mb)"
  "content_rows mb 9 = length (mb_interface_impl mb)" "content_rows mb 10 = length (mb_member_ref mb)"
  "content_rows mb 17 = length (mb_standalone_sig mb)" "content_rows mb 20 = length (mb_event mb)"
  "content_rows mb 23 = length (mb_property mb)" "content_rows mb 26 = length (mb_module_ref mb)"
  "content_rows mb 27 = length (mb_type_spec mb)" "content_rows mb 32 = length (mb_assembly mb)"
  "content_rows mb 35 = length (mb_assembly_ref mb)" "content_rows mb 42 = length (mb_generic_param mb)"
  "content_rows mb 43 = length (mb_method_spec mb)" "content_rows mb 14 = 0" "content_rows mb 38 = 0"
  "content_rows mb 39 = 0" "content_rows mb 40 = 0" "content_rows mb 44 = 0" "content_rows mb 255 = 0"
  by (simp_all add: content_rows_def rows_of_def table_contents_def)

lemma le_max_of: "0 < k \<Longrightarrow> k \<le> max_of ns \<longleftrightarrow> list_ex (\<lambda>n. k \<le> n) ns"
  by (induction ns) (simp_all add: le_max_iff_disj)

lemma coded_wide_max_of: "coded_wide bits (max_of ns) \<longleftrightarrow> list_ex (\<lambda>n. 2 ^ (16 - bits) \<le> n) ns"
  unfolding coded_wide_def by (rule le_max_of) simp

abbreviation mb_width :: "metadata_builder \<Rightarrow> column \<Rightarrow> nat" where
  "mb_width mb \<equiv> column_width (w_heap_sizes (widths_of mb)) (content_rows mb)"

lemma mb_width_coded:
  "mb_width mb (CodedIndex bits ts) = (if coded_wide bits (max_of (map (content_rows mb) ts)) then 4 else 2)"
  by (auto simp: column_width_def coded_wide_max_of list_ex_iff not_less)

lemma widths_of_sel:
  "w_str (widths_of mb) = (length (s_data (mb_strings mb)) > 0xFFFF)"
  "w_guid (widths_of mb) = (length (g_data (mb_guids mb)) > 0xFFFF)"
  "w_blob (widths_of mb) = (length (b_data (mb_blobs mb)) > 0xFFFF)"
  "w_heap_sizes (widths_of mb) = (if w_str (widths_of mb) then 1 else 0) OR (if w_guid (widths_of mb) then 2 else 0)
     OR (if w_blob (widths_of mb) then 4 else 0)"
  "w_type_def (widths_of mb) = simple_wide (length (mb_type_def mb))"
  "w_field (widths_of mb) = simple_wide (length (mb_field mb))"
  "w_method_def (widths_of mb) = simple_wide (length (mb_method_def mb))"
  "w_param (widths_of mb) = simple_wide (length (mb_param mb))"
  "w_module_ref (widths_of mb) = simple_wide (length (mb_module_ref mb))"
  "w_event (widths_of mb) = simple_wide (length (mb_event mb))"
  "w_property (widths_of mb) = simple_wide (length (mb_property mb))"
  "w_type_def_or_ref (widths_of mb) = coded_wide 2 (max_of [length (mb_type_def mb), length (mb_type_ref mb), length (mb_type_spec mb)])"
  "w_resolution_scope (widths_of mb) = coded_wide 2 (max_of [length (mb_module mb), length (mb_module_ref mb), length (mb_assembly_ref mb), length (mb_type_ref mb)])"
  "w_member_ref_parent (widths_of mb) = coded_wide 3 (max_of [length (mb_type_def mb), length (mb_type_ref mb), length (mb_module_ref mb), length (mb_method_def mb),
     length (mb_type_spec mb)])"
  "w_has_constant (widths_of mb) = coded_wide 2 (max_of [length (mb_field mb), length (mb_param mb), length (mb_property mb)])"
  "w_method_def_or_ref (widths_of mb) = coded_wide 1 (max_of [length (mb_method_def mb), length (mb_member_ref mb)])"
  "w_has_custom_attribute (widths_of mb) = coded_wide 5 (max_of [length (mb_method_def mb), length (mb_field mb), length (mb_type_ref mb), length (mb_type_def mb),
     length (mb_param mb), length (mb_interface_impl mb), length (mb_member_ref mb), length (mb_module mb),
     length (mb_assembly mb), length (mb_assembly_ref mb), length (mb_type_spec mb), length (mb_generic_param mb),
     length (mb_event mb), length (mb_property mb), length (mb_standalone_sig mb), length (mb_module_ref mb),
     length (mb_method_spec mb)])"
  "w_custom_attribute_type (widths_of mb) = coded_wide 3 (max_of [length (mb_method_def mb), length (mb_member_ref mb)])"
  "w_member_forwarded (widths_of mb) = coded_wide 1 (max_of [length (mb_field mb), length (mb_method_def mb)])"
  "w_has_semantics (widths_of mb) = coded_wide 1 (max_of [length (mb_event mb), length (mb_property mb)])"
  "w_type_or_method_def (widths_of mb) = coded_wide 1 (max_of [length (mb_type_def mb), length (mb_method_def mb)])"
  by (simp_all only: widths_of_def widths_compute_def Let_def widths.simps row_counts_of_def row_counts.simps)

lemma heap_sizes_bits:
  "bit (w_heap_sizes (widths_of mb)) 0 = w_str (widths_of mb)"
  "bit (w_heap_sizes (widths_of mb)) (Suc 0) = w_guid (widths_of mb)"
  "bit (w_heap_sizes (widths_of mb)) 2 = w_blob (widths_of mb)"
  unfolding widths_of_sel(4) by (simp_all add: bit_simps)

lemma mb_width_simple:
  "mb_width mb (Fixed n) = n"
  "mb_width mb StrHeap = (if w_str (widths_of mb) then 4 else 2)"
  "mb_width mb GuidHeap = (if w_guid (widths_of mb) then 4 else 2)"
  "mb_width mb BlobHeap = (if w_blob (widths_of mb) then 4 else 2)"
  by (simp_all add: column_width_def heap_sizes_bits)

lemma mb_width_rows:
  "mb_width mb (RowIndex 2) = (if w_type_def (widths_of mb) then 4 else 2)"
  "mb_width mb (RowIndex 4) = (if w_field (widths_of mb) then 4 else 2)"
  "mb_width mb (RowIndex 6) = (if w_method_def (widths_of mb) then 4 else 2)"
  "mb_width mb (RowIndex 26) = (if w_module_ref (widths_of mb) then 4 else 2)"
  "mb_width mb (RunStart 4) = (if w_field (widths_of mb) then 4 else 2)"
  "mb_width mb (RunStart 6) = (if w_method_def (widths_of mb) then 4 else 2)"
  "mb_width mb (RunStart 8) = (if w_param (widths_of mb) then 4 else 2)"
  "mb_width mb (RunStart 20) = (if w_event (widths_of mb) then 4 else 2)"
  "mb_width mb (RunStart 23) = (if w_property (widths_of mb) then 4 else 2)"
  by (simp_all add: column_width_def widths_of_sel(5-) simple_wide_def)

lemma mb_width_kinds:
  "mb_width mb TypeDefOrRef = (if w_type_def_or_ref (widths_of mb) then 4 else 2)"
  "mb_width mb HasConstant = (if w_has_constant (widths_of mb) then 4 else 2)"
  "mb_width mb MemberRefParent = (if w_member_ref_parent (widths_of mb) then 4 else 2)"
  "mb_width mb HasSemantics = (if w_has_semantics (widths_of mb) then 4 else 2)"
  "mb_width mb MethodDefOrRef = (if w_method_def_or_ref (widths_of mb) then 4 else 2)"
  "mb_width mb MemberForwarded = (if w_member_forwarded (widths_of mb) then 4 else 2)"
  "mb_width mb ResolutionScope = (if w_resolution_scope (widths_of mb) then 4 else 2)"
  "mb_width mb TypeOrMethodDef = (if w_type_or_method_def (widths_of mb) then 4 else 2)"
  by (simp_all add: mb_width_coded widths_of_sel(5-) del: max_of.simps)

text \<open>The tables \<open>HasCustomAttribute\<close> can name are not those of the maximum in the code, but the others are empty.\<close>

lemma mb_width_attribute:
  "mb_width mb HasCustomAttribute = (if w_has_custom_attribute (widths_of mb) then 4 else 2)"
proof -
  have "w_has_custom_attribute (widths_of mb) \<longleftrightarrow>
      coded_wide 5 (max_of (map (content_rows mb) [6, 4, 1, 2, 8, 9, 10, 0, 14, 23, 20, 17, 26, 27, 32, 35, 38, 39, 40, 42, 44, 43]))"
    unfolding widths_of_sel(5-) coded_wide_max_of by simp blast
  then show ?thesis by (simp only: mb_width_coded)
qed

lemma mb_width_attribute_type:
  "mb_width mb CustomAttributeType = (if w_custom_attribute_type (widths_of mb) then 4 else 2)"
  by (simp add: mb_width_coded widths_of_sel(5-) coded_wide_max_of)

lemmas mb_widths = mb_width_attribute_type mb_width_simple mb_width_rows mb_width_kinds mb_width_attribute

section \<open>Each table is written in the reader's columns\<close>

lemmas row_writers =
  write_module_rows_def write_type_ref_rows_def write_type_def_rows_def write_field_rows_def
  write_method_def_rows_def write_param_rows_def write_interface_impl_rows_def write_member_ref_rows_def
  write_constant_rows_def write_custom_attribute_rows_def write_class_layout_rows_def
  write_field_layout_rows_def write_standalone_sig_rows_def write_event_map_rows_def write_event_rows_def
  write_property_map_rows_def write_property_rows_def write_method_semantics_rows_def write_method_impl_rows_def
  write_module_ref_rows_def write_type_spec_rows_def write_impl_map_rows_def write_field_rva_rows_def
  write_assembly_rows_def write_assembly_ref_rows_def write_generic_param_rows_def write_method_spec_rows_def

lemmas row_cols =
  module_cols_def type_ref_cols_def type_def_cols_def field_cols_def method_def_cols_def param_cols_def
  interface_impl_cols_def member_ref_cols_def constant_cols_def custom_attribute_cols_def class_layout_cols_def
  field_layout_cols_def event_map_cols_def event_cols_def property_map_cols_def property_cols_def
  method_semantics_cols_def method_impl_cols_def impl_map_cols_def field_rva_cols_def assembly_cols_def
  assembly_ref_cols_def generic_param_cols_def method_spec_cols_def

abbreviation mb_widths_of :: "metadata_builder \<Rightarrow> nat \<Rightarrow> nat list option" where
  "mb_widths_of mb \<equiv> table_widths (w_heap_sizes (widths_of mb)) (content_rows mb)"

definition table_bytes :: "metadata_builder \<Rightarrow> nat \<Rightarrow> nat list list \<Rightarrow> u8 list" where
  "table_bytes mb t rs = concat (map (enc_row (the (mb_widths_of mb t))) rs)"

lemma write_table:
  assumes "\<And>row. body row = enc_row (the (mb_widths_of mb t)) (cols row)"
  shows "write_rows rows body = table_bytes mb t (map cols rows)"
    "write_sorted_rows rows key body = table_bytes mb t (map cols (sort_key key rows))"
proof -
  have "body = (\<lambda>row. enc_row (the (mb_widths_of mb t)) (cols row))" using assms by (rule ext)
  then show "write_rows rows body = table_bytes mb t (map cols rows)"
    "write_sorted_rows rows key body = table_bytes mb t (map cols (sort_key key rows))"
    by (simp_all add: write_rows_def write_sorted_rows_def table_bytes_def comp_def)
qed

lemma table_schema:
  "map_of schemas t = Some cs \<Longrightarrow> enc_row (the (mb_widths_of mb t)) vs = enc_row (map (mb_width mb) cs) vs"
  by (simp add: table_widths_def)

lemma nat_bytes_1 [simp]: "nat_bytes 1 v = [word_of_nat v]"
  by simp

lemmas row_simps = row_cols table_widths_def schemas_def mb_widths write_simple_idx_def write_coded_idx_def
  write_heap_idx_nat le_bytes_nat write_version_def version_cols_def

lemma tables_written:
  "concat (map (\<lambda>(t, rs). table_bytes mb t rs) (table_contents mb)) =
     write_module_rows mb (widths_of mb) @ write_type_ref_rows mb (widths_of mb)
        @ write_type_def_rows mb (widths_of mb) @ write_field_rows mb (widths_of mb)
        @ write_method_def_rows mb (widths_of mb) @ write_param_rows mb (widths_of mb)
        @ write_interface_impl_rows mb (widths_of mb) @ write_member_ref_rows mb (widths_of mb)
        @ write_constant_rows mb (widths_of mb) @ write_custom_attribute_rows mb (widths_of mb)
        @ write_class_layout_rows mb (widths_of mb) @ write_field_layout_rows mb (widths_of mb)
        @ write_standalone_sig_rows mb (widths_of mb) @ write_event_map_rows mb (widths_of mb)
        @ write_event_rows mb (widths_of mb) @ write_property_map_rows mb (widths_of mb)
        @ write_property_rows mb (widths_of mb) @ write_method_semantics_rows mb (widths_of mb)
        @ write_method_impl_rows mb (widths_of mb) @ write_module_ref_rows mb (widths_of mb)
        @ write_type_spec_rows mb (widths_of mb) @ write_impl_map_rows mb (widths_of mb)
        @ write_field_rva_rows mb (widths_of mb) @ write_assembly_rows mb (widths_of mb)
        @ write_assembly_ref_rows mb (widths_of mb) @ write_generic_param_rows mb (widths_of mb)
        @ write_method_spec_rows mb (widths_of mb)"
  unfolding row_writers table_contents_def list.map prod.case concat.simps append_Nil2
  by (intro arg_cong2 [where f = "(@)"] write_table [symmetric]) (simp_all add: row_simps del: One_nat_def split: prod.split)

section \<open>The stream is read back\<close>

definition kept_tables :: "metadata_builder \<Rightarrow> (nat \<times> nat list list) list" where
  "kept_tables mb = filter (\<lambda>(_, rs). rs \<noteq> []) (table_contents mb)"

lemma table_ids: "map fst (table_contents mb) = map fst schemas"
  by (simp add: table_contents_def schemas_def)

lemma schema_ids: "sorted (map fst schemas)" "distinct (map fst schemas)" "set (map fst schemas) \<subseteq> {..<64}"
  by (simp_all add: schemas_def)

lemma schema_bits: "list_all (\<lambda>(_, cs). list_all (\<lambda>c. case c of CodedIndex b _ \<Rightarrow> b \<le> 16 | _ \<Rightarrow> True) cs) schemas"
  by (simp add: schemas_def)

lemma table_rowcounts_contents:
  "table_rowcounts (row_counts_of mb) = map (\<lambda>(t, rs). (word_of_nat t, length rs)) (table_contents mb)"
  by (simp add: table_rowcounts_def row_counts_of_def table_contents_def)

lemma present_kept:
  "filter (\<lambda>(_, count). count > 0) (table_rowcounts (row_counts_of mb)) = map (\<lambda>(t, rs). (word_of_nat t, length rs)) (kept_tables mb)"
  unfolding table_rowcounts_contents kept_tables_def filter_map comp_def by (simp add: case_prod_unfold)

lemma kept_ids:
  "sorted (map fst (kept_tables mb))" "distinct (map fst (kept_tables mb))" "set (map fst (kept_tables mb)) \<subseteq> {..<64}"
proof -
  have *: "sorted (map fst (table_contents mb))" "distinct (map fst (table_contents mb))" "set (map fst (table_contents mb)) \<subseteq> {..<64}"
    unfolding table_ids by (rule schema_ids)+
  show "sorted (map fst (kept_tables mb))" unfolding kept_tables_def by (rule sorted_filter) (rule *(1))
  show "distinct (map fst (kept_tables mb))" unfolding kept_tables_def by (rule distinct_map_filter) (rule *(2))
  show "set (map fst (kept_tables mb)) \<subseteq> {..<64}" unfolding kept_tables_def using *(3) by (auto simp: image_subset_iff)
qed

lemma rows_of_kept: "rows_of (map (\<lambda>(t, rs). (t, length rs)) (kept_tables mb)) = content_rows mb"
proof -
  have "rows_of (map (\<lambda>(t, rs). (t, length rs)) (filter (\<lambda>(_, rs). rs \<noteq> []) ts)) t = rows_of (map (\<lambda>(t, rs). (t, length rs)) ts) t"
    if "distinct (map fst ts)" for ts :: "(nat \<times> nat list list) list" and t
    using that
  proof (induction ts)
    case (Cons p ts)
    have "map_of (map (\<lambda>(t, rs). (t, length rs)) ts) (fst p) = None"
      using Cons.prems by (cases p) (force simp: map_of_eq_None_iff)
    then show ?case using Cons by (cases p) (auto simp: rows_of_def split: option.splits)
  qed simp
  then show ?thesis unfolding kept_tables_def content_rows_def using schema_ids(2) by (auto simp: table_ids)
qed

lemma bit_present_ids: "bit (or_bits ids) n \<longleftrightarrow> n < 64 \<and> n \<in> unat ` set ids"
  unfolding or_bits_def bit_or_bits by simp

lemma unat_id: "t < 64 \<Longrightarrow> unat (word_of_nat t :: u32) = t"
  by (simp add: unat_of_nat take_bit_nat_def)

lemma valid_tables:
  "filter (bit (or_bits (map fst (map (\<lambda>(t, rs). (word_of_nat t, length rs)) (kept_tables mb))))) [0..<64] = map fst (kept_tables mb)"
proof -
  let ?ids = "map fst (map (\<lambda>(t, rs). (word_of_nat t, length rs)) (kept_tables mb))"
  have "bit (or_bits ?ids) i \<longleftrightarrow> i \<in> set (map fst (kept_tables mb))" for i
    unfolding bit_present_ids using kept_ids(3) by (force simp: image_iff unat_id case_prod_beta)
  then have "bit (or_bits ?ids) = (\<lambda>i. i \<in> set (map fst (kept_tables mb)))" by (rule ext)
  then show ?thesis using filter_upt_ids [OF kept_ids] by (simp only:)
qed

lemma in_column_fits:
  assumes "in_column mb (content_rows mb) c v" "case c of CodedIndex b _ \<Rightarrow> b \<le> 16 | _ \<Rightarrow> True"
  shows "v < 256 ^ mb_width mb c"
proof (cases c)
  case (CodedIndex b ts)
  have v: "v < 2 ^ 32" using assms(1) by (simp add: in_column_def)
  have "v < 2 ^ 16" if narrow: "\<forall>t\<in>set ts. content_rows mb t < 2 ^ (16 - b)"
  proof -
    have "ts ! (v mod 2 ^ b) \<in> set ts" "v div 2 ^ b \<le> content_rows mb (ts ! (v mod 2 ^ b))"
      using assms(1) CodedIndex by (simp_all add: in_column_def)
    then have "v div 2 ^ b < 2 ^ (16 - b)" using narrow by fastforce
    then have "v < 2 ^ (16 - b) * 2 ^ b" by (simp add: div_less_iff_less_mult)
    also have "2 ^ (16 - b) * 2 ^ b = (2 ^ 16 :: nat)" using assms(2) CodedIndex by (simp flip: power_add)
    finally show ?thesis .
  qed
  then show ?thesis using v CodedIndex by (auto simp: column_width_def)
qed (use assms(1) in \<open>auto simp: in_column_def column_width_def heap_sizes_bits widths_of_sel(1-3)\<close>)

lemma content_fits:
  assumes "rows_in_range mb" "(t, rs) \<in> set (table_contents mb)"
  shows "mb_widths_of mb t \<noteq> None" "list_all (list_all2 (\<lambda>w v. v < 256 ^ w) (the (mb_widths_of mb t))) rs" "length rs < 2 ^ 32"
proof -
  have "t \<in> fst ` set schemas" using assms(2) by (metis table_ids fst_conv image_eqI list.set_map)
  then obtain cs where cs: "map_of schemas t = Some cs" by (metis weak_map_of_SomeI imageE prod.collapse)
  then have bits: "\<forall>c\<in>set cs. case c of CodedIndex b _ \<Rightarrow> b \<le> 16 | _ \<Rightarrow> True"
    using schema_bits by (auto simp: list_all_iff dest!: map_of_SomeD)
  show "mb_widths_of mb t \<noteq> None" using cs by (simp add: table_widths_def)
  have range: "list_all (list_all2 (in_column mb (content_rows mb)) cs) rs" and len: "length rs < 2 ^ 32"
    using assms cs by (auto simp: rows_in_range_def list_all_iff)
  show "length rs < 2 ^ 32" by (rule len)
  have "list_all2 (\<lambda>w v. v < 256 ^ w) (map (mb_width mb) cs) r" if "list_all2 (in_column mb (content_rows mb)) cs r" for r
    using that bits in_column_fits by (auto simp: list_all2_conv_all_nth)
  then show "list_all (list_all2 (\<lambda>w v. v < 256 ^ w) (the (mb_widths_of mb t))) rs"
    using range cs by (simp add: table_widths_def list_all_iff)
qed

lemma concat_kept: "concat (map (\<lambda>(t, rs). table_bytes mb t rs) (kept_tables mb)) = concat (map (\<lambda>(t, rs). table_bytes mb t rs) (table_contents mb))"
proof -
  have "concat (map (\<lambda>(t, rs). table_bytes mb t rs) (filter (\<lambda>(_, rs). rs \<noteq> []) ts)) = concat (map (\<lambda>(t, rs). table_bytes mb t rs) ts)" for ts
    by (induction ts) (auto simp: table_bytes_def)
  then show ?thesis by (simp add: kept_tables_def)
qed

definition sorted_ids :: "metadata_builder \<Rightarrow> u64" where
  "sorted_ids mb = or_bits (filter (\<lambda>i. i \<in> set SORTED_TABLES) (map fst (filter (\<lambda>(_, count). count > 0) (table_rowcounts (row_counts_of mb)))))"

lemma serialize_tables_kept:
  "serialize_tables mb (row_counts_of mb) (widths_of mb) =
     le_bytes 4 (0 :: u32) @ [2, 0, w_heap_sizes (widths_of mb), 1]
     @ le_bytes 8 (or_bits (map fst (map (\<lambda>(t, rs). (word_of_nat t, length rs)) (kept_tables mb)))) @ le_bytes 8 (sorted_ids mb)
     @ concat (map (\<lambda>(_, n). le_bytes 4 (word_of_nat n :: u32)) (map (\<lambda>(t, rs). (word_of_nat t :: u32, length rs)) (kept_tables mb)))
     @ concat (map (\<lambda>(t, rs). table_bytes mb t rs) (kept_tables mb))"
  unfolding serialize_tables_def Let_def present_kept sorted_ids_def concat_kept tables_written by (simp only: append_assoc)

text \<open>The primary key of a sorted table (II.22), with the number of a generic parameter as its secondary key.\<close>

definition row_key :: "nat \<Rightarrow> nat list \<Rightarrow> nat \<times> nat" where
  "row_key t r =
     (if t \<in> {9, 12, 25} then (r ! 0, 0)
      else if t \<in> {16, 28, 29} then (r ! 1, 0)
      else if t \<in> {11, 15, 24} then (r ! 2, 0)
      else if t = 42 then (r ! 2, r ! 0)
      else (0, 0))"

lemma sorted_by: "(\<And>a b. k a \<le> k b \<Longrightarrow> g a \<le> g b) \<Longrightarrow> sorted (map g (sort_key k xs))"
  using sorted_sort_key [of k xs] unfolding sorted_map by (rule sorted_wrt_mono_rel [rotated]) simp

lemma sorted_const: "sorted (map (\<lambda>x. c) xs)"
  by (induction xs) simp_all

lemma contents_sorted: "list_all (\<lambda>(t, rs). sorted (map (row_key t) rs)) (table_contents mb)"
  unfolding table_contents_def list.pred_inject prod.case list.map_comp row_key_def comp_def
  by (auto simp: row_cols sorted_const less_eq_prod_def less_prod_def word_le_nat_alt word_less_nat_alt intro!: sorted_by)

lemma zero_bytes: "le_bytes 4 (0 :: u32) = [0, 0, 0, 0]"
  by (simp add: eval_nat_numeral)

lemma header_read:
  "read_tables (le_bytes 4 (0 :: u32) @ [2, 0, hs, 1] @ le_bytes 8 (valid :: u64) @ le_bytes 8 sorted_mask @ rest) =
     Option.bind (read_counts (filter (bit valid) [0..<64]) rest) (\<lambda>(counts, bs).
     Option.bind (read_contents (table_widths hs (rows_of counts)) counts bs) (\<lambda>(tables, bs).
     Some (\<lparr>st_heap_sizes = hs, st_sorted = sorted_mask, st_tables = tables\<rparr>, bs)))"
proof -
  let ?bs = "[0, 0, 0, 0, 2, 0, hs, 1] @ le_bytes 8 valid @ le_bytes 8 sorted_mask @ rest"
  have d: "drop 24 ?bs = rest" "take 8 (drop 8 ?bs) = le_bytes 8 valid" "take 8 (drop 16 ?bs) = le_bytes 8 sorted_mask"
    "\<not> length ?bs < 24" "take 4 ?bs = [0, 0, 0, 0]" "?bs ! 4 = 2" "?bs ! 5 = 0" "?bs ! 6 = hs" "?bs ! 7 = 1"
    by simp_all
  have bs: "le_bytes 4 (0 :: u32) @ [2, 0, hs, 1] @ le_bytes 8 valid @ le_bytes 8 sorted_mask @ rest = ?bs"
    by (simp add: zero_bytes)
  have w: "of_le (le_bytes 8 v) = v" for v :: u64 by simp
  show ?thesis unfolding bs read_tables_def by (simp only: d Let_def w) simp
qed

lemma kept_iff: "i \<in> fst ` set (kept_tables mb) \<longleftrightarrow> content_rows mb i > 0"
proof -
  have "rows_of (map (\<lambda>(t, rs). (t, length rs)) ts) i > 0 \<longleftrightarrow> i \<in> fst ` set ts"
    if "list_all (\<lambda>(_, rs). rs \<noteq> []) ts" for ts :: "(nat \<times> nat list list) list"
    using that by (induction ts) (auto simp: rows_of_def split: option.splits)
  from this [of "kept_tables mb"] show ?thesis by (simp add: rows_of_kept) (simp add: kept_tables_def list_all_iff)
qed

lemma ex_unat_id:
  assumes "T \<subseteq> {..<64}"
  shows "(\<exists>t\<in>T. unat (word_of_nat t :: u32) = i \<and> P (word_of_nat t :: u32)) \<longleftrightarrow> i \<in> T \<and> P (word_of_nat i)"
proof -
  have "(\<exists>t\<in>T. unat (word_of_nat t :: u32) = i \<and> P (word_of_nat t :: u32)) \<longleftrightarrow> (\<exists>t\<in>T. t = i \<and> P (word_of_nat t))"
    using assms by (intro bex_cong) (auto simp: unat_id subset_iff)
  then show ?thesis by blast
qed

lemma sorted_ids_bits: "{i. bit (sorted_ids mb) i} = {i \<in> {9, 11, 15, 16, 24, 25, 28, 29, 42}. content_rows mb i > 0}"
proof -
  have kept: "fst ` set (kept_tables mb) \<subseteq> {..<64}" using kept_ids(3) by simp
  have "bit (sorted_ids mb) i \<longleftrightarrow> i < 64 \<and> (\<exists>t\<in>fst ` set (kept_tables mb). unat (word_of_nat t :: u32) = i \<and> word_of_nat t \<in> set SORTED_TABLES)" for i
    unfolding sorted_ids_def bit_present_ids present_kept by (force simp: image_iff)
  then have a: "bit (sorted_ids mb) i \<longleftrightarrow> i < 64 \<and> content_rows mb i > 0 \<and> word_of_nat i \<in> set SORTED_TABLES" for i
    by (simp only: ex_unat_id [OF kept, where P = "\<lambda>t. t \<in> set SORTED_TABLES"] kept_iff)
  define S :: "nat set" where "S = {9, 11, 15, 16, 24, 25, 28, 29, 42}"
  have b: "word_of_nat i \<in> set SORTED_TABLES \<longleftrightarrow> i \<in> S" if "i < 64" for i
  proof -
    have "word_of_nat i = (x :: u32) \<longleftrightarrow> i = unat x" for x using unat_id [OF that] by auto
    then show ?thesis by (auto simp: SORTED_TABLES_def S_def)
  qed
  have c: "i < 64" if "i \<in> S" for i using that by (auto simp: S_def)
  show ?thesis
    unfolding S_def [symmetric]
  proof (rule set_eqI, unfold mem_Collect_eq)
    fix i show "bit (sorted_ids mb) i \<longleftrightarrow> i \<in> S \<and> content_rows mb i > 0" using a [of i] b [of i] c [of i] by blast
  qed
qed

lemma tables_read_back:
  assumes "rows_in_range mb"
  shows "\<exists>s. read_tables (serialize_tables mb (row_counts_of mb) (widths_of mb) @ rest) = Some (s, rest)
    \<and> st_tables s = filter (\<lambda>(_, rs). rs \<noteq> []) (table_contents mb)
    \<and> {i. bit (st_sorted s) i} = {i \<in> {9, 11, 15, 16, 24, 25, 28, 29, 42}. content_rows mb i > 0}
    \<and> list_all (\<lambda>(t, rs). sorted (map (row_key t) rs)) (st_tables s)"
proof -
  let ?ts = "kept_tables mb" and ?cs = "map (\<lambda>(t, rs). (t, length rs)) (kept_tables mb)"
  have kept: "(t, rs) \<in> set (table_contents mb)" if "(t, rs) \<in> set ?ts" for t rs
    using that by (auto simp: kept_tables_def)
  then have len: "length rs < 2 ^ 32" if "(t, rs) \<in> set ?ts" for t rs using content_fits(3) [OF assms] that by blast
  have counts: "read_counts (map fst ?ts) (concat (map (\<lambda>(_, n). nat_bytes 4 n) ?cs) @ tl) = Some (?cs, tl)" for tl
  proof -
    have "list_all (\<lambda>(_, n). n < 2 ^ 32) ?cs" using content_fits(3) [OF assms] kept by (fastforce simp: list_all_iff)
    then show ?thesis using read_counts_enc [of ?cs tl] by (simp add: comp_def case_prod_unfold)
  qed
  have contents: "read_contents (mb_widths_of mb) ?cs (concat (map (\<lambda>(t, rs). table_bytes mb t rs) ?ts) @ rest) = Some (?ts, rest)"
    unfolding table_bytes_def using content_fits(1,2) [OF assms] kept by (intro read_contents_enc) (fastforce simp: list_all_iff)
  have lens: "concat (map (\<lambda>(_, n). le_bytes 4 (word_of_nat n :: u32)) (map (\<lambda>(t, rs). (word_of_nat t :: u32, length rs)) ?ts))
      = concat (map (\<lambda>(_, n). nat_bytes 4 n) ?cs)"
    by (auto simp: le_bytes_nat unat_of_nat take_bit_nat_def mod_less dest!: len intro!: arg_cong [where f = concat])
  let ?s = "\<lparr>st_heap_sizes = w_heap_sizes (widths_of mb), st_sorted = sorted_ids mb, st_tables = ?ts\<rparr>"
  have "read_tables (serialize_tables mb (row_counts_of mb) (widths_of mb) @ rest) = Some (?s, rest)"
    unfolding serialize_tables_kept append_assoc header_read valid_tables lens counts
    by (simp add: rows_of_kept contents)
  moreover have "list_all (\<lambda>(t, rs). sorted (map (row_key t) rs)) ?ts"
    using contents_sorted [of mb] by (auto simp: kept_tables_def list_all_iff)
  ultimately show ?thesis using sorted_ids_bits by (intro exI [of _ ?s]) (simp add: kept_tables_def)
qed

section \<open>The metadata root\<close>

definition pad_to_4 :: "u8 list \<Rightarrow> u8 list" where
  "pad_to_4 bytes = bytes @ replicate ((4 - length bytes mod 4) mod 4) 0"

definition nul_padded :: "string \<Rightarrow> u8 list" where
  "nul_padded s = pad_to_4 (str_bytes s @ [0])"

fun stream_headers :: "nat \<Rightarrow> (string \<times> u8 list) list \<Rightarrow> u8 list" where
  "stream_headers running [] = []"
| "stream_headers running ((name, bytes) # ss) =
     le_bytes 4 (word_of_nat running :: u32) @ le_bytes 4 (word_of_nat (length bytes) :: u32) @ nul_padded name
     @ stream_headers (running + length bytes) ss"

definition root_prefix :: "nat \<Rightarrow> u8 list" where
  "root_prefix n_streams =
     (let version_bytes = nul_padded ''v4.0.30319'' in
      str_bytes ''BSJB'' @ le_bytes 2 (1 :: u16) @ le_bytes 2 (1 :: u16) @ le_bytes 4 (0 :: u32)
      @ le_bytes 4 (word_of_nat (length version_bytes) :: u32) @ version_bytes @ le_bytes 2 (0 :: u16)
      @ le_bytes 2 (word_of_nat n_streams :: u16))"

definition metadata_streams :: "metadata_builder \<Rightarrow> (string \<times> u8 list) list" where
  "metadata_streams mb =
     (let sizes = row_counts_of mb;
          widths = widths_compute sizes (mb_strings mb) (mb_blobs mb) (mb_guids mb) in
      [(''#~'', pad_to_4 (serialize_tables mb sizes widths)),
       (''#Strings'', pad_to_4 (s_data (mb_strings mb))),
       (''#US'', pad_to_4 (u_data (mb_user_strings mb))),
       (''#GUID'', pad_to_4 (g_data (mb_guids mb))),
       (''#Blob'', pad_to_4 (b_data (mb_blobs mb)))])"

definition serialize :: "metadata_builder \<Rightarrow> u8 list" where
  "serialize mb =
     (let streams = metadata_streams mb;
          out = root_prefix (length streams);
          header_total_len = sum_list (map (\<lambda>(name, _). 8 + length (nul_padded name)) streams) in
      out @ stream_headers (length out + header_total_len) streams @ concat (map snd streams))"

text \<open>
  The reader of II.24.2.1: signature, version string, stream headers with offset, size and a name that ends with a
  zero byte and is padded to four bytes.
\<close>

fun read_headers :: "nat \<Rightarrow> u8 list \<Rightarrow> (nat \<times> nat \<times> u8 list) list option" where
  "read_headers 0 bs = Some []"
| "read_headers (Suc n) bs =
     Option.bind (read_int 4 bs) (\<lambda>(off, bs). Option.bind (read_int 4 bs) (\<lambda>(size, bs).
     let name = takeWhile (\<lambda>b. b \<noteq> 0) bs in
     if length name = length bs then None
     else Option.bind (read_headers n (drop ((length name + 4) div 4 * 4) bs)) (\<lambda>hs. Some ((off, size, name) # hs))))"

definition read_root :: "u8 list \<Rightarrow> (nat \<times> u8 list \<times> u8 list) list option" where
  "read_root bs =
     (if take 4 bs \<noteq> str_bytes ''BSJB'' then None
      else Option.bind (read_int 4 (drop 12 bs)) (\<lambda>(len, bs').
        Option.bind (read_int 2 (drop (len + 2) bs')) (\<lambda>(n, bs').
        map_option (map (\<lambda>(off, size, name). (off, name, take size (drop off bs)))) (read_headers n bs'))))"

fun stream_offsets :: "nat \<Rightarrow> (string \<times> u8 list) list \<Rightarrow> (nat \<times> nat \<times> u8 list) list" where
  "stream_offsets running [] = []"
| "stream_offsets running ((name, bytes) # ss) =
     (running, length bytes, str_bytes name) # stream_offsets (running + length bytes) ss"

lemma round_up_4: "n + (4 - n mod 4) mod 4 = (n + 3) div 4 * (4 :: nat)"
proof -
  obtain q r where n: "n = 4 * q + r" "r < 4" by (metis mod_less_divisor mult_div_mod_eq zero_less_numeral)
  have m: "n mod 4 = r" "(n + 3) div 4 = q + (r + 3) div 4" using n by (simp_all add: add.assoc)
  from n(2) consider "r = 0" | "r = 1" | "r = 2" | "r = 3" by linarith
  then show ?thesis unfolding m by cases (simp_all add: n(1))
qed

lemma pad_to_4_length: "length (pad_to_4 bs) = (length bs + 3) div 4 * 4"
  using round_up_4 [of "length bs"] by (simp add: pad_to_4_def)

lemma pad_to_4_dvd [simp]: "4 dvd length (pad_to_4 bs)"
  by (simp add: pad_to_4_length)

lemma nul_padded_length: "length (nul_padded s) = (length s + 4) div 4 * 4"
  by (simp add: nul_padded_def pad_to_4_length str_bytes_def)

lemma nul_padded_name:
  assumes "0 \<notin> set (str_bytes s)"
  shows "takeWhile (\<lambda>b. b \<noteq> 0) (nul_padded s @ rest) = str_bytes s"
    "drop ((length (str_bytes s) + 4) div 4 * 4) (nul_padded s @ rest) = rest"
proof -
  have "\<forall>b\<in>set (str_bytes s). b \<noteq> 0" using assms by metis
  then show "takeWhile (\<lambda>b. b \<noteq> 0) (nul_padded s @ rest) = str_bytes s"
    by (simp add: nul_padded_def pad_to_4_def)
  show "drop ((length (str_bytes s) + 4) div 4 * 4) (nul_padded s @ rest) = rest"
    using nul_padded_length [of s] by (simp add: str_bytes_def)
qed

lemma le4_nat: "n < 2 ^ 32 \<Longrightarrow> le_bytes 4 (word_of_nat n :: u32) = nat_bytes 4 n"
  by (simp add: le_bytes_nat unat_of_nat take_bit_nat_def)

lemma read_headers_written:
  assumes "running + length (concat (map snd ss)) < 2 ^ 32" "list_all (\<lambda>(name, _). 0 \<notin> set (str_bytes name)) ss"
  shows "read_headers (length ss) (stream_headers running ss @ rest) = Some (stream_offsets running ss)"
  using assms
proof (induction ss arbitrary: running)
  case (Cons s ss)
  obtain name bytes where s: "s = (name, bytes)" by (cases s)
  have nz: "0 \<notin> set (str_bytes name)" using Cons.prems s by simp
  have len: "running < 2 ^ 32" "length bytes < 2 ^ 32" using Cons.prems(1) s by simp_all
  have "length (str_bytes name) < length (nul_padded name @ stream_headers (running + length bytes) ss @ rest)"
    by (simp add: nul_padded_def pad_to_4_def)
  moreover have "read_headers (length ss) (stream_headers (running + length bytes) ss @ rest) = Some (stream_offsets (running + length bytes) ss)"
    using Cons.prems s by (intro Cons.IH) simp_all
  ultimately show ?case using len by (simp add: s le4_nat nul_padded_name [OF nz] Let_def del: drop_append takeWhile_append length_append)
qed simp

lemma streams_at_offsets:
  "length pre = running \<Longrightarrow>
    map (\<lambda>(off, size, name). (off, name, take size (drop off (pre @ concat (map snd ss))))) (stream_offsets running ss) =
    zip (map fst (stream_offsets running ss)) (map (\<lambda>(name, bytes). (str_bytes name, bytes)) ss)"
proof (induction ss arbitrary: pre running)
  case (Cons s ss)
  obtain name bytes where s: "s = (name, bytes)" by (cases s)
  show ?case using Cons.prems Cons.IH [of "pre @ bytes" "running + length bytes"] by (simp add: s)
qed simp

lemma offsets_aligned:
  "4 dvd running \<Longrightarrow> list_all (\<lambda>(_, bytes). 4 dvd length bytes) ss \<Longrightarrow> list_all (\<lambda>off. 4 dvd off) (map fst (stream_offsets running ss))"
  by (induction running ss rule: stream_offsets.induct) simp_all

lemma stream_headers_length: "length (stream_headers running ss) = sum_list (map (\<lambda>(name, _). 8 + length (nul_padded name)) ss)"
  by (induction running ss rule: stream_headers.induct) simp_all

lemma root_prefix_read:
  assumes "n < 2 ^ 16"
  shows "take 4 (root_prefix n @ rest) = str_bytes ''BSJB''" "length (root_prefix n) = 32"
    "read_int 4 (drop 12 (root_prefix n @ rest)) = Some (12, drop 16 (root_prefix n @ rest))"
    "read_int 2 (drop 14 (drop 16 (root_prefix n @ rest))) = Some (n, rest)"
proof -
  let ?v = "nul_padded ''v4.0.30319''"
  have v: "length ?v = 12" by (simp add: nul_padded_length)
  have b: "length (str_bytes ''BSJB'') = 4" by (simp add: str_bytes_def)
  have n: "le_bytes 2 (word_of_nat n :: u16) = nat_bytes 2 n" using assms by (simp add: le_bytes_nat unat_of_nat take_bit_nat_def)
  have p: "root_prefix n = str_bytes ''BSJB'' @ le_bytes 2 (1 :: u16) @ le_bytes 2 (1 :: u16) @ le_bytes 4 (0 :: u32)
      @ nat_bytes 4 12 @ ?v @ le_bytes 2 (0 :: u16) @ nat_bytes 2 n"
    unfolding root_prefix_def Let_def n v by (simp add: le_bytes_nat)
  show "take 4 (root_prefix n @ rest) = str_bytes ''BSJB''" "length (root_prefix n) = 32"
    unfolding p using b v by simp_all
  have "drop 12 (root_prefix n @ rest) = nat_bytes 4 12 @ drop 16 (root_prefix n @ rest)"
    "drop 14 (drop 16 (root_prefix n @ rest)) = nat_bytes 2 n @ rest"
    unfolding p using b v by simp_all
  then show "read_int 4 (drop 12 (root_prefix n @ rest)) = Some (12, drop 16 (root_prefix n @ rest))"
    "read_int 2 (drop 14 (drop 16 (root_prefix n @ rest))) = Some (n, rest)"
    using assms by simp_all
qed

lemma serialize_read_root:
  assumes "length (serialize mb) < 2 ^ 32"
  shows "\<exists>offs. read_root (serialize mb) = Some (zip offs (map (\<lambda>(name, bytes). (str_bytes name, bytes)) (metadata_streams mb)))
    \<and> length offs = 5 \<and> list_all (\<lambda>off. 4 dvd off) offs"
proof -
  let ?ss = "metadata_streams mb"
  let ?hl = "sum_list (map (\<lambda>(name, _). 8 + length (nul_padded name)) ?ss)"
  have five: "length ?ss = 5" by (simp add: metadata_streams_def Let_def)
  have names: "list_all (\<lambda>(name, _). 0 \<notin> set (str_bytes name)) ?ss"
    by (simp add: metadata_streams_def Let_def str_bytes_def)
  have aligned: "list_all (\<lambda>(_, bytes). 4 dvd length bytes) ?ss"
    by (simp add: metadata_streams_def Let_def)
  have hl: "4 dvd 32 + ?hl" by (simp add: metadata_streams_def Let_def nul_padded_length)
  define pre where "pre = root_prefix 5 @ stream_headers (32 + ?hl) ?ss"
  have ser: "serialize mb = root_prefix 5 @ stream_headers (32 + ?hl) ?ss @ concat (map snd ?ss)"
    using root_prefix_read(2) [of 5] by (simp add: serialize_def Let_def five)
  have pre: "length pre = 32 + ?hl" using root_prefix_read(2) [of 5] by (simp add: pre_def stream_headers_length)
  have "32 + ?hl + length (concat (map snd ?ss)) < 2 ^ 32"
    using assms pre unfolding ser pre_def by simp
  then have heads: "read_headers 5 (stream_headers (32 + ?hl) ?ss @ concat (map snd ?ss)) = Some (stream_offsets (32 + ?hl) ?ss)"
    using read_headers_written [OF _ names] five by simp
  let ?offs = "map fst (stream_offsets (32 + ?hl) ?ss)"
  have at: "map (\<lambda>(off, size, name). (off, name, take size (drop off (serialize mb)))) (stream_offsets (32 + ?hl) ?ss)
      = zip ?offs (map (\<lambda>(name, bytes). (str_bytes name, bytes)) ?ss)"
    using streams_at_offsets [OF pre] unfolding ser pre_def append_assoc .
  have "length (stream_offsets r ss) = length ss" for r ss
    by (induction r ss rule: stream_offsets.induct) simp_all
  then have "length ?offs = 5" using five by simp
  moreover have "list_all (\<lambda>off. 4 dvd off) ?offs" by (rule offsets_aligned [OF hl aligned])
  moreover have "read_root (serialize mb) = Some (zip ?offs (map (\<lambda>(name, bytes). (str_bytes name, bytes)) ?ss))"
    using root_prefix_read(1,3,4) [of 5 "stream_headers (32 + ?hl) ?ss @ concat (map snd ?ss)"] heads
    unfolding read_root_def at [symmetric] by (simp add: ser)
  ultimately show ?thesis by blast
qed

text \<open>
  C5. A metadata root is read back by a reader of ECMA-335 that computes every index width on its own from the row
  counts and heap sizes it finds: the five streams lie at aligned offsets under their names, the heaps come
  back, every table comes back row by row with all its columns, each table marked as sorted is one the standard
  wants sorted, and the rows of all of those are in the order of their primary key. The rows must refer to existing rows
  and heap offsets, and no table with runs may have exactly 65535 rows.
\<close>

theorem metadata_read_back:
  assumes "rows_in_range mb" "length (serialize mb) < 2 ^ 32"
  shows "\<exists>offs tables s k. read_root (serialize mb) = Some (zip offs
        [(str_bytes ''#~'', tables), (str_bytes ''#Strings'', pad_to_4 (s_data (mb_strings mb))),
         (str_bytes ''#US'', pad_to_4 (u_data (mb_user_strings mb))), (str_bytes ''#GUID'', pad_to_4 (g_data (mb_guids mb))),
         (str_bytes ''#Blob'', pad_to_4 (b_data (mb_blobs mb)))])
    \<and> length offs = 5 \<and> list_all (\<lambda>off. 4 dvd off) offs
    \<and> read_tables tables = Some (s, replicate k 0)
    \<and> st_tables s = filter (\<lambda>(_, rs). rs \<noteq> []) (table_contents mb)
    \<and> {i. bit (st_sorted s) i} = {i \<in> {9, 11, 15, 16, 24, 25, 28, 29, 42}. content_rows mb i > 0}
    \<and> list_all (\<lambda>(t, rs). sorted (map (row_key t) rs)) (st_tables s)"
proof -
  let ?t = "serialize_tables mb (row_counts_of mb) (widths_of mb)"
  obtain offs where "read_root (serialize mb) = Some (zip offs (map (\<lambda>(name, bytes). (str_bytes name, bytes)) (metadata_streams mb)))"
    "length offs = 5" "list_all (\<lambda>off. 4 dvd off) offs"
    using serialize_read_root [OF assms(2)] by blast
  moreover obtain k where k: "pad_to_4 ?t = ?t @ replicate k 0" by (simp add: pad_to_4_def)
  moreover obtain s where "read_tables (?t @ replicate k 0) = Some (s, replicate k 0)"
    "st_tables s = filter (\<lambda>(_, rs). rs \<noteq> []) (table_contents mb)"
    "{i. bit (st_sorted s) i} = {i \<in> {9, 11, 15, 16, 24, 25, 28, 29, 42}. content_rows mb i > 0}"
    "list_all (\<lambda>(t, rs). sorted (map (row_key t) rs)) (st_tables s)"
    using tables_read_back [OF assms(1)] by blast
  ultimately show ?thesis
    by (intro exI [of _ offs] exI [of _ "?t @ replicate k 0"] exI [of _ s] exI [of _ k])
      (simp add: metadata_streams_def Let_def widths_of_def)
qed

text \<open>A class with two overlapping fields, declared in the wrong order, and a library method.\<close>

definition sample_builder :: metadata_builder where
  "sample_builder = mb_default\<lparr>
     mb_strings := \<lparr>s_data = [0, 65, 0, 66, 0], s_interned = Map.empty\<rparr>,
     mb_blobs := \<lparr>b_data = [0, 2, 6, 8], b_interned = Map.empty\<rparr>,
     mb_type_def := [\<lparr>td_flags = 0, td_name = 1, td_namespace = 0, td_extends = 0, td_field_list = 1, td_method_list = 1\<rparr>],
     mb_field := [\<lparr>fld_flags = 6, fld_name = 1, fld_signature = 1\<rparr>, \<lparr>fld_flags = 6, fld_name = 3, fld_signature = 1\<rparr>],
     mb_field_layout := [\<lparr>fl_offset = 0, fl_field = 2\<rparr>, \<lparr>fl_offset = 0, fl_field = 1\<rparr>],
     mb_method_def := [\<lparr>mdf_rva = 0, mdf_impl_flags = 0x80, mdf_flags = 0x2016, mdf_name = 3, mdf_signature = 1, mdf_param_list = 1\<rparr>],
     mb_module_ref := [1],
     mb_impl_map := [\<lparr>im_mapping_flags = 0x105, im_member_forwarded = 3, im_import_name = 3, im_import_scope = 1\<rparr>]\<rparr>"

lemma sample_in_range: "rows_in_range sample_builder"
  by (simp add: rows_in_range_def sample_builder_def mb_default_def table_contents_def row_cols schemas_def in_column_def)

lemma sample_tables_size: "length (serialize_tables sample_builder (row_counts_of sample_builder) (widths_of sample_builder)) < 1000"
  unfolding serialize_tables_def row_writers
  by (simp add: Let_def write_rows_def write_sorted_rows_def sample_builder_def mb_default_def table_rowcounts_def row_counts_of_def write_heap_idx_nat
    write_simple_idx_def write_coded_idx_def)

lemma serialize_length:
  "length (serialize mb) = 108 + length (pad_to_4 (serialize_tables mb (row_counts_of mb) (widths_of mb)))
     + length (pad_to_4 (s_data (mb_strings mb))) + length (pad_to_4 (u_data (mb_user_strings mb)))
     + length (pad_to_4 (g_data (mb_guids mb))) + length (pad_to_4 (b_data (mb_blobs mb)))"
  by (simp add: serialize_def metadata_streams_def Let_def nul_padded_length stream_headers_length widths_of_def root_prefix_read(2))

lemma sample_size: "length (serialize sample_builder) < 2 ^ 32"
proof -
  have "length (pad_to_4 (serialize_tables sample_builder (row_counts_of sample_builder) (widths_of sample_builder))) < 1004"
    using sample_tables_size unfolding pad_to_4_length by linarith
  moreover have "length (pad_to_4 (s_data (mb_strings sample_builder))) = 8" "length (pad_to_4 (b_data (mb_blobs sample_builder))) = 4"
    "length (pad_to_4 (g_data (mb_guids sample_builder))) = 0" "length (pad_to_4 (u_data (mb_user_strings sample_builder))) = 4"
    by (simp_all add: sample_builder_def mb_default_def heap_defaults pad_to_4_length)
  ultimately show ?thesis unfolding serialize_length by simp
qed

lemma sample_heaps:
  "s_data (mb_strings sample_builder) = [0, 65, 0, 66, 0]" "b_data (mb_blobs sample_builder) = [0, 2, 6, 8]"
  "g_data (mb_guids sample_builder) = []" "u_data (mb_user_strings sample_builder) = [0]"
  by (simp_all add: sample_builder_def mb_default_def heap_defaults)

theorem metadata_read_back_witness:
  "\<exists>offs tables s k. read_root (serialize sample_builder) = Some (zip offs
        [(str_bytes ''#~'', tables), (str_bytes ''#Strings'', [0, 65, 0, 66, 0, 0, 0, 0]), (str_bytes ''#US'', [0, 0, 0, 0]),
         (str_bytes ''#GUID'', []), (str_bytes ''#Blob'', [0, 2, 6, 8])])
    \<and> read_tables tables = Some (s, replicate k 0)
    \<and> map_of (st_tables s) 16 = Some [[0, 1], [0, 2]]"
proof -
  have three: "replicate 3 (0 :: u8) = [0, 0, 0]" by (simp add: numeral_3_eq_3)
  have heaps: "pad_to_4 (s_data (mb_strings sample_builder)) = [0, 65, 0, 66, 0, 0, 0, 0]"
    "pad_to_4 (u_data (mb_user_strings sample_builder)) = [0, 0, 0, 0]" "pad_to_4 (g_data (mb_guids sample_builder)) = []"
    "pad_to_4 (b_data (mb_blobs sample_builder)) = [0, 2, 6, 8]"
    using three by (simp_all add: sample_heaps pad_to_4_def)
  have "map_of (filter (\<lambda>(_, rs). rs \<noteq> []) (table_contents sample_builder)) 16 = Some [[0, 1], [0, 2]]"
    by (simp add: table_contents_def sample_builder_def mb_default_def row_cols word_le_nat_alt)
  moreover obtain offs tables s k where "read_root (serialize sample_builder) = Some (zip offs
        [(str_bytes ''#~'', tables), (str_bytes ''#Strings'', [0, 65, 0, 66, 0, 0, 0, 0]), (str_bytes ''#US'', [0, 0, 0, 0]),
         (str_bytes ''#GUID'', []), (str_bytes ''#Blob'', [0, 2, 6, 8])])"
    "read_tables tables = Some (s, replicate k 0)" "st_tables s = filter (\<lambda>(_, rs). rs \<noteq> []) (table_contents sample_builder)"
    using metadata_read_back [OF sample_in_range sample_size] unfolding heaps by blast
  ultimately show ?thesis by (intro exI [of _ offs] exI [of _ tables] exI [of _ s] exI [of _ k]) (simp only: simp_thms)
qed

text \<open>
  The boundary of the hypothesis: a class without fields after 65535 others starts its run at row 65536, and the column is
  still two bytes wide.
\<close>

lemma run_start_truncated:
  assumes "length (mb_field mb) = 65535"
  shows "write_simple_idx 65536 (w_field (widths_of mb)) = write_simple_idx 0 (w_field (widths_of mb))"
  using assms nat_bytes_mod [of 2 65536]
  by (simp add: widths_of_sel(5-) simple_wide_def write_simple_idx_def write_heap_idx_nat)

end
