(* ===== verification/TypeCheck.thy ===== *)
theory TypeCheck
  imports CilIr
begin

text \<open>
  The type checker of the intermediate representation (\<^verbatim>\<open>cilly/src/ir/typecheck.rs\<close>): the arms of
  \<^verbatim>\<open>BinOp::typecheck\<close>, \<^verbatim>\<open>CILNode::typecheck\<close> and \<^verbatim>\<open>CILRoot::typecheck\<close>, one definition each, over
  the types of the operands, and the two traversals that compose them. A rejected tree is the
  error value the code returns. The rendering of a rejected tree as a graph is not modelled.
\<close>


section \<open>Errors\<close>

text \<open>
  \<^verbatim>\<open>TypeCheckError\<close>, with the message strings the code builds. \<open>TcPanic\<close> is not a value of that
  type: it stands for the panic of \<^verbatim>\<open>stack_inputs\<close> on a constructor without a receiver.
\<close>

datatype tc_error =
    InvalidExceptionRegion string
  | LocalOutOfRange u32 nat
  | ArgumentOutOfRange u32 nat
  | RootTypeMismatch string cil_type cil_type
  | RootOperandType string cil_type
  | WrongBinopArgs cil_type cil_type bin_op
  | RefToPtrArgNotRef cil_type
  | InvalidPtrCast ptr_cast_res cil_type
  | TypeNotPtr cil_type
  | DerfWrongPtr cil_type cil_type
  | CallArgcWrong nat nat string
  | CallArgTypeWrong string string nat string
  | IntCastInvalidInput cil_type cil_int
  | FieldAccessInvalidType cil_type field_desc
  | FieldOwnerMismatch class_ref class_ref field_desc
  | ExpectedClassGotValuetype class_ref
  | TypeNotClass cil_type
  | BoxNotValuetype cil_type cil_type
  | FloatCastInvalidInput cil_type cil_float
  | WrongUnOpArgs cil_type un_op
  | IndirectCallArgcWrong nat nat
  | IndirectCallArgTypeWrong cil_type cil_type nat
  | LdLenArgNotArray cil_type
  | LdLenArrNot1D cil_type
  | ArrIndexInvalidType cil_type
  | ArrayElementTypeMismatch cil_type cil_type
  | IndirectCallInvalidFnPtrType cil_type
  | IndirectCallInvalidFnPtrSig fn_sig fn_sig
  | SizeOfVoid
  | LocalAssigementWrong u32 string string
  | ValueTypeCompare cil_type cil_type
  | WriteWrongAddr string string
  | WriteWrongValue cil_type cil_type
  | ConditionNotBool cil_type
  | CantCompareTypes cil_type cil_type
  | FieldAssignWrongType cil_type field_desc cil_type
  | FieldNotPresent cil_type string class_ref
  | VoidPointerOp bin_op
  | ManagedPtrCast string string
  | TcPanic

text \<open>A local is its optional name and its type.\<close>

type_synonym local_def = "string option \<times> cil_type"

section \<open>Compatibility of arguments\<close>

definition is_word_int :: "cil_int \<Rightarrow> bool" where
  "is_word_int i \<longleftrightarrow> i = USize \<or> i = ISize"

text \<open>The pointees that make a pointer parameter an erased sink for any pointer.\<close>

fun erased_pointee :: "cil_type \<Rightarrow> bool" where
  "erased_pointee (TInt i) = (i = U8 \<or> is_word_int i)"
| "erased_pointee TVoid = True"
| "erased_pointee _ = False"

fun is_erased_ptr_sink :: "cil_type \<Rightarrow> cil_type \<Rightarrow> bool"
and erased_inputs :: "cil_type list \<Rightarrow> cil_type list \<Rightarrow> bool"
where
  "is_erased_ptr_sink arg expected =
     (if (case pointed_to expected of Some p \<Rightarrow> erased_pointee p | None \<Rightarrow> False) \<and> pointed_to arg \<noteq> None then True
      else case arg of
        TFnPtr (FnSig arg_in arg_out) \<Rightarrow>
          (case expected of
             TFnPtr (FnSig exp_in exp_out) \<Rightarrow>
               if length arg_in \<noteq> length exp_in then False
               else erased_inputs arg_in exp_in \<and> (arg_out = exp_out \<or> is_erased_ptr_sink arg_out exp_out)
           | _ \<Rightarrow> False)
      | _ \<Rightarrow> False)"
| "erased_inputs (a # as) (e # es) = ((a = e \<or> is_erased_ptr_sink a e) \<and> erased_inputs as es)"
| "erased_inputs _ _ = True"

declare is_erased_ptr_sink.simps [simp del]

section \<open>Binary operators\<close>

definition fallback_int ::
  "bin_op \<Rightarrow> cil_type \<Rightarrow> cil_type \<Rightarrow> 'a assembly_scheme \<Rightarrow> (tc_error, cil_type) result" where
  "fallback_int op lhs rhs asm =
     (if is_assignable_to asm lhs rhs
      then (case as_int lhs of
              Some i \<Rightarrow> Inr (TInt i)
            | None \<Rightarrow> (case as_int rhs of Some i \<Rightarrow> Inr (TInt i) | None \<Rightarrow> Inl (WrongBinopArgs lhs rhs op)))
      else Inl (WrongBinopArgs lhs rhs op))"

definition typecheck_add_sub ::
  "bin_op \<Rightarrow> cil_type \<Rightarrow> cil_type \<Rightarrow> 'a assembly_scheme \<Rightarrow> (tc_error, cil_type) result" where
  "typecheck_add_sub op lhs rhs asm =
     (case (lhs, rhs) of
        (TInt a, TInt b) \<Rightarrow> if b = a then Inr (TInt a) else fallback_int op lhs rhs asm
      | (TFloat a, TFloat b) \<Rightarrow> if b = a then Inr (TFloat a) else fallback_int op lhs rhs asm
      | (TPtr a, TPtr b) \<Rightarrow> if b = a then Inr (TPtr a) else fallback_int op lhs rhs asm
      | (TFnPtr a, TFnPtr b) \<Rightarrow> if b = a then Inr (TFnPtr a) else fallback_int op lhs rhs asm
      | (TPtr _, TInt i) \<Rightarrow> if is_word_int i then Inr lhs else fallback_int op lhs rhs asm
      | (TFnPtr _, TInt i) \<Rightarrow> if is_word_int i then Inr lhs else fallback_int op lhs rhs asm
      | (TRef _, TInt i) \<Rightarrow> if is_word_int i then Inr lhs else fallback_int op lhs rhs asm
      | (TInt i, TPtr _) \<Rightarrow> if is_word_int i then Inr rhs else fallback_int op lhs rhs asm
      | (TInt i, TFnPtr _) \<Rightarrow> if is_word_int i then Inr rhs else fallback_int op lhs rhs asm
      | _ \<Rightarrow> fallback_int op lhs rhs asm)"

definition typecheck_eq ::
  "bin_op \<Rightarrow> cil_type \<Rightarrow> cil_type \<Rightarrow> 'a assembly_scheme \<Rightarrow> (tc_error, cil_type) result" where
  "typecheck_eq op lhs rhs asm =
     (if lhs = rhs \<or> is_assignable_to asm lhs rhs
      then (case lhs of
              TClassRef c \<Rightarrow> if cr_valuetype c then Inl (ValueTypeCompare lhs rhs) else Inr TBool
            | _ \<Rightarrow> Inr TBool)
      else Inl (WrongBinopArgs lhs rhs op))"

definition mul_fallback ::
  "bin_op \<Rightarrow> cil_type \<Rightarrow> cil_type \<Rightarrow> 'a assembly_scheme \<Rightarrow> (tc_error, cil_type) result" where
  "mul_fallback op lhs rhs asm =
     (if is_assignable_to asm lhs rhs then Inr rhs
      else if is_assignable_to asm rhs lhs then Inr lhs
      else Inl (WrongBinopArgs lhs rhs op))"

definition typecheck_mul ::
  "bin_op \<Rightarrow> cil_type \<Rightarrow> cil_type \<Rightarrow> 'a assembly_scheme \<Rightarrow> (tc_error, cil_type) result" where
  "typecheck_mul op lhs rhs asm =
     (case (lhs, rhs) of
        (TInt a, TInt b) \<Rightarrow>
          if b = a then Inr (TInt a)
          else if a = ISize \<and> b = I32 then Inr (TInt ISize)
          else if a = USize \<and> b = I32 then Inr (TInt USize)
          else mul_fallback op lhs rhs asm
      | (TFloat a, TFloat b) \<Rightarrow> if b = a then Inr (TFloat a) else mul_fallback op lhs rhs asm
      | (TInt i, TPtr _) \<Rightarrow> if is_word_int i then Inr rhs else mul_fallback op lhs rhs asm
      | (TInt i, TFnPtr _) \<Rightarrow> if is_word_int i then Inr rhs else mul_fallback op lhs rhs asm
      | _ \<Rightarrow> mul_fallback op lhs rhs asm)"

definition compare_fallback ::
  "bin_op \<Rightarrow> cil_type \<Rightarrow> cil_type \<Rightarrow> 'a assembly_scheme \<Rightarrow> (tc_error, cil_type) result" where
  "compare_fallback op lhs rhs asm =
     (if lhs = rhs \<or> is_assignable_to asm lhs rhs then Inr TBool else Inl (WrongBinopArgs lhs rhs op))"

definition typecheck_compare ::
  "bin_op \<Rightarrow> cil_type \<Rightarrow> cil_type \<Rightarrow> 'a assembly_scheme \<Rightarrow> (tc_error, cil_type) result" where
  "typecheck_compare op lhs rhs asm =
     (let allow_pointer = (op = LtUn \<or> op = GtUn) in
      case (lhs, rhs) of
        (TInt a, TInt b) \<Rightarrow> if b = a then Inr TBool else compare_fallback op lhs rhs asm
      | (TFloat a, TFloat b) \<Rightarrow> if b = a then Inr TBool else compare_fallback op lhs rhs asm
      | (TPtr a, TPtr b) \<Rightarrow> if allow_pointer \<and> b = a then Inr TBool else compare_fallback op lhs rhs asm
      | (TFnPtr a, TFnPtr b) \<Rightarrow> if allow_pointer \<and> b = a then Inr TBool else compare_fallback op lhs rhs asm
      | (TBool, TBool) \<Rightarrow> Inr TBool
      | _ \<Rightarrow> compare_fallback op lhs rhs asm)"

definition typecheck_bitwise ::
  "bin_op \<Rightarrow> cil_type \<Rightarrow> cil_type \<Rightarrow> 'a assembly_scheme \<Rightarrow> (tc_error, cil_type) result" where
  "typecheck_bitwise op lhs rhs asm =
     (case (lhs, rhs) of
        (TInt a, TInt b) \<Rightarrow> if b = a then Inr (TInt a) else fallback_int op lhs rhs asm
      | (TBool, TBool) \<Rightarrow> Inr TBool
      | _ \<Rightarrow> fallback_int op lhs rhs asm)"

definition typecheck_rem ::
  "bin_op \<Rightarrow> cil_type \<Rightarrow> cil_type \<Rightarrow> 'a assembly_scheme \<Rightarrow> (tc_error, cil_type) result" where
  "typecheck_rem op lhs rhs asm =
     (case (lhs, rhs) of
        (TInt a, TInt b) \<Rightarrow> if b = a \<and> is_signed b then Inr (TInt a) else fallback_int op lhs rhs asm
      | (TFloat a, TFloat b) \<Rightarrow> if b = a then Inr (TFloat a) else fallback_int op lhs rhs asm
      | _ \<Rightarrow> fallback_int op lhs rhs asm)"

definition typecheck_rem_un ::
  "bin_op \<Rightarrow> cil_type \<Rightarrow> cil_type \<Rightarrow> 'a assembly_scheme \<Rightarrow> (tc_error, cil_type) result" where
  "typecheck_rem_un op lhs rhs asm =
     (case (lhs, rhs) of
        (TInt a, TInt b) \<Rightarrow> if b = a \<and> \<not> is_signed b then Inr (TInt a) else fallback_int op lhs rhs asm
      | (TFloat a, TFloat b) \<Rightarrow> if b = a then Inr (TFloat a) else fallback_int op lhs rhs asm
      | _ \<Rightarrow> fallback_int op lhs rhs asm)"

definition shift_amount_int :: "cil_int \<Rightarrow> bool" where
  "shift_amount_int i \<longleftrightarrow>
     i = USize \<or> i = ISize \<or> i = I32 \<or> i = U32 \<or> i = I16 \<or> i = U16 \<or> i = U8 \<or> i = I8"

definition typecheck_shift ::
  "bin_op \<Rightarrow> cil_type \<Rightarrow> cil_type \<Rightarrow> 'a assembly_scheme \<Rightarrow> (tc_error, cil_type) result" where
  "typecheck_shift op lhs rhs asm =
     (let valid_shift =
        (case (lhs, rhs) of
           (TInt a, TInt b) \<Rightarrow>
             if shift_amount_int b
             then (if op = Shl then True else if op = Shr then is_signed a else \<not> is_signed a)
             else False
         | _ \<Rightarrow> False)
      in if valid_shift then Inr lhs else fallback_int op lhs rhs asm)"

definition unsigned_div_int :: "cil_int \<Rightarrow> bool" where
  "unsigned_div_int i \<longleftrightarrow> i = U64 \<or> i = USize \<or> i = U32 \<or> i = U16 \<or> i = U8"

definition typecheck_div_un ::
  "bin_op \<Rightarrow> cil_type \<Rightarrow> cil_type \<Rightarrow> 'a assembly_scheme \<Rightarrow> (tc_error, cil_type) result" where
  "typecheck_div_un op lhs rhs asm =
     (case (lhs, rhs) of
        (TInt a, TInt b) \<Rightarrow>
          if unsigned_div_int a \<and> unsigned_div_int b \<and> a = b then Inr (TInt a) else fallback_int op lhs rhs asm
      | _ \<Rightarrow> fallback_int op lhs rhs asm)"

definition signed_div_int :: "cil_int \<Rightarrow> bool" where
  "signed_div_int i \<longleftrightarrow>
     i = U64 \<or> i = USize \<or> i = ISize \<or> i = I32 \<or> i = U32 \<or> i = I16 \<or> i = U16 \<or> i = U8 \<or> i = I8"

definition typecheck_div ::
  "bin_op \<Rightarrow> cil_type \<Rightarrow> cil_type \<Rightarrow> 'a assembly_scheme \<Rightarrow> (tc_error, cil_type) result" where
  "typecheck_div op lhs rhs asm =
     (case (lhs, rhs) of
        (TInt a, TInt b) \<Rightarrow>
          if signed_div_int a \<and> signed_div_int b \<and> is_signed a \<and> a = b then Inr (TInt a)
          else fallback_int op lhs rhs asm
      | (TFloat a, TFloat b) \<Rightarrow> if b = a then Inr (TFloat a) else fallback_int op lhs rhs asm
      | _ \<Rightarrow> fallback_int op lhs rhs asm)"

fun binop_typecheck ::
  "bin_op \<Rightarrow> cil_type \<Rightarrow> cil_type \<Rightarrow> 'a assembly_scheme \<Rightarrow> (tc_error, cil_type) result" where
  "binop_typecheck Add lhs rhs asm = typecheck_add_sub Add lhs rhs asm"
| "binop_typecheck Sub lhs rhs asm = typecheck_add_sub Sub lhs rhs asm"
| "binop_typecheck Eq lhs rhs asm = typecheck_eq Eq lhs rhs asm"
| "binop_typecheck Mul lhs rhs asm = typecheck_mul Mul lhs rhs asm"
| "binop_typecheck LtUn lhs rhs asm = typecheck_compare LtUn lhs rhs asm"
| "binop_typecheck GtUn lhs rhs asm = typecheck_compare GtUn lhs rhs asm"
| "binop_typecheck Lt lhs rhs asm = typecheck_compare Lt lhs rhs asm"
| "binop_typecheck Gt lhs rhs asm = typecheck_compare Gt lhs rhs asm"
| "binop_typecheck Or lhs rhs asm = typecheck_bitwise Or lhs rhs asm"
| "binop_typecheck XOr lhs rhs asm = typecheck_bitwise XOr lhs rhs asm"
| "binop_typecheck And lhs rhs asm = typecheck_bitwise And lhs rhs asm"
| "binop_typecheck Rem lhs rhs asm = typecheck_rem Rem lhs rhs asm"
| "binop_typecheck RemUn lhs rhs asm = typecheck_rem_un RemUn lhs rhs asm"
| "binop_typecheck Shl lhs rhs asm = typecheck_shift Shl lhs rhs asm"
| "binop_typecheck Shr lhs rhs asm = typecheck_shift Shr lhs rhs asm"
| "binop_typecheck ShrUn lhs rhs asm = typecheck_shift ShrUn lhs rhs asm"
| "binop_typecheck DivUn lhs rhs asm = typecheck_div_un DivUn lhs rhs asm"
| "binop_typecheck Div lhs rhs asm = typecheck_div Div lhs rhs asm"

section \<open>Operand requirements\<close>

definition require_managed_object :: "cil_type \<Rightarrow> (tc_error, unit) result" where
  "require_managed_object v =
     (case v of
        TClassRef c \<Rightarrow> if cr_valuetype c then Inl (ExpectedClassGotValuetype c) else Inr ()
      | TPlatformObject \<Rightarrow> Inr ()
      | TPlatformGeneric _ _ \<Rightarrow> Inr ()
      | TPlatformString \<Rightarrow> Inr ()
      | TPlatformArray _ _ \<Rightarrow> Inr ()
      | _ \<Rightarrow> Inl (TypeNotClass v))"

definition validate_field_access ::
  "'a assembly_scheme \<Rightarrow> field_desc \<Rightarrow> class_ref \<Rightarrow> (tc_error, unit) result" where
  "validate_field_access asm fd pointed_owner =
     (if \<not> is_assignable_to asm (TClassRef pointed_owner) (TClassRef (fd_owner fd))
      then Inl (FieldOwnerMismatch pointed_owner (fd_owner fd) fd)
      else case class_defs asm (fd_owner fd) of
        Some cdef \<Rightarrow>
          if list_ex (\<lambda>(t, name, _). t = fd_type fd \<and> name = fd_name fd) (cd_fields cdef) then Inr ()
          else Inl (FieldNotPresent (fd_type fd) (fd_name fd) (fd_owner fd))
      | None \<Rightarrow> Inr ())"

definition validate_field_target ::
  "'a assembly_scheme \<Rightarrow> cil_type \<Rightarrow> field_desc \<Rightarrow> (tc_error, unit) result" where
  "validate_field_target asm addr fd =
     rbind (ok_or (case addr of TPtr t \<Rightarrow> Some t | TRef t \<Rightarrow> Some t | TClassRef _ \<Rightarrow> Some addr | _ \<Rightarrow> None)
             (TypeNotPtr addr)) (\<lambda>pointed.
     case pointed of
       TClassRef c \<Rightarrow> validate_field_access asm fd c
     | _ \<Rightarrow> Inl (FieldAccessInvalidType pointed fd))"

definition index_int :: "cil_int \<Rightarrow> bool" where
  "index_int i \<longleftrightarrow> i = I32 \<or> i = U32 \<or> i = I64 \<or> i = USize \<or> i = ISize"

definition require_array_index :: "cil_type \<Rightarrow> (tc_error, unit) result" where
  "require_array_index t =
     (case t of TInt i \<Rightarrow> if index_int i then Inr () else Inl (ArrIndexInvalidType t)
      | _ \<Rightarrow> Inl (ArrIndexInvalidType t))"

definition require_root_pointer :: "string \<Rightarrow> cil_type \<Rightarrow> (tc_error, unit) result" where
  "require_root_pointer operation got =
     (if pointed_to got \<noteq> None then Inr () else Inl (RootOperandType operation got))"

definition require_root_integer :: "string \<Rightarrow> cil_type \<Rightarrow> (tc_error, unit) result" where
  "require_root_integer operation got =
     (if as_int got \<noteq> None \<or> got = TBool then Inr () else Inl (RootOperandType operation got))"

definition root_types_compatible :: "'a assembly_scheme \<Rightarrow> cil_type \<Rightarrow> cil_type \<Rightarrow> bool" where
  "root_types_compatible asm got expected \<longleftrightarrow> is_assignable_to asm got expected \<or> is_erased_ptr_sink got expected"

section \<open>Nodes\<close>

text \<open>One definition per arm of \<^verbatim>\<open>CILNode::typecheck\<close>, over the types of the operands.\<close>

definition unop_typecheck :: "un_op \<Rightarrow> cil_type \<Rightarrow> (tc_error, cil_type) result" where
  "unop_typecheck op t =
     (case (t, op) of
        (TInt _, Not) \<Rightarrow> Inr t
      | (TFloat _, Not) \<Rightarrow> Inr t
      | (TPtr _, Not) \<Rightarrow> Inr t
      | (TFloat _, Neg) \<Rightarrow> Inr t
      | (TPtr _, Neg) \<Rightarrow> Inr t
      | (TInt i, Neg) \<Rightarrow> if is_signed i then Inr t else Inl (WrongUnOpArgs t op)
      | _ \<Rightarrow> Inl (WrongUnOpArgs t op))"

definition local_type :: "local_def list \<Rightarrow> u32 \<Rightarrow> (tc_error, cil_type) result" where
  "local_type locals l =
     ok_or (map_option snd (nth_opt locals (unat l))) (LocalOutOfRange l (length locals))"

definition argument_type :: "fn_sig \<Rightarrow> u32 \<Rightarrow> (tc_error, cil_type) result" where
  "argument_type sig a =
     ok_or (nth_opt (sig_inputs sig) (unat a)) (ArgumentOutOfRange a (length (sig_inputs sig)))"

definition call_arg_ok :: "'a assembly_scheme \<Rightarrow> cil_type \<Rightarrow> cil_type \<Rightarrow> bool" where
  "call_arg_ok asm arg input \<longleftrightarrow>
     is_assignable_to asm arg input
     \<or> (try_deref arg \<noteq> None \<and> try_deref arg = try_deref input)
     \<or> is_erased_ptr_sink arg input"

definition int_cast_typecheck :: "cil_int \<Rightarrow> cil_type \<Rightarrow> (tc_error, cil_type) result" where
  "int_cast_typecheck target t =
     (case t of
        TFloat _ \<Rightarrow> Inr (TInt target) | TInt _ \<Rightarrow> Inr (TInt target) | TPtr _ \<Rightarrow> Inr (TInt target)
      | TFnPtr _ \<Rightarrow> Inr (TInt target) | TBool \<Rightarrow> Inr (TInt target)
      | _ \<Rightarrow> Inl (IntCastInvalidInput t target))"

definition float_cast_typecheck :: "cil_float \<Rightarrow> cil_type \<Rightarrow> (tc_error, cil_type) result" where
  "float_cast_typecheck target t =
     (case t of
        TFloat _ \<Rightarrow> Inr (TFloat target) | TInt _ \<Rightarrow> Inr (TFloat target)
      | _ \<Rightarrow> Inl (FloatCastInvalidInput t target))"

definition ref_to_ptr_typecheck :: "cil_type \<Rightarrow> (tc_error, cil_type) result" where
  "ref_to_ptr_typecheck t =
     (case t of TRef inner \<Rightarrow> Inr (TPtr inner) | TPtr inner \<Rightarrow> Inr (TPtr inner)
      | _ \<Rightarrow> Inl (RefToPtrArgNotRef t))"

definition ptr_cast_operand ::
  "'a assembly_scheme \<Rightarrow> cil_type \<Rightarrow> ptr_cast_res \<Rightarrow> (tc_error, unit) result" where
  "ptr_cast_operand asm arg res =
     (let managed = ManagedPtrCast (mangle arg) (mangle (ptr_cast_type res)) in
      case arg of
        TPtr inner \<Rightarrow> if contains_gcref asm inner then Inl managed else Inr ()
      | TRef inner \<Rightarrow> if contains_gcref asm inner then Inl managed else Inr ()
      | TInt i \<Rightarrow> if is_word_int i then Inr () else Inl (InvalidPtrCast res arg)
      | TFnPtr _ \<Rightarrow> Inr ()
      | _ \<Rightarrow> Inl (InvalidPtrCast res arg))"

definition ptr_cast_typecheck ::
  "'a assembly_scheme \<Rightarrow> cil_type \<Rightarrow> ptr_cast_res \<Rightarrow> (tc_error, cil_type) result" where
  "ptr_cast_typecheck asm arg res =
     rbind (ptr_cast_operand asm arg res) (\<lambda>_.
       if contains_gcref asm (ptr_cast_type res)
       then Inl (ManagedPtrCast (mangle arg) (mangle (ptr_cast_type res)))
       else Inr (ptr_cast_type res))"

text \<open>The last arm is the \<^verbatim>\<open>unreachable!\<close>.\<close>

definition ld_field_address_typecheck ::
  "'a assembly_scheme \<Rightarrow> cil_type \<Rightarrow> field_desc \<Rightarrow> (tc_error, cil_type) result" where
  "ld_field_address_typecheck asm addr fd =
     rbind (validate_field_target asm addr fd) (\<lambda>_.
       case addr of
         TRef _ \<Rightarrow> Inr (TRef (fd_type fd))
       | TClassRef _ \<Rightarrow> Inr (TRef (fd_type fd))
       | TPtr _ \<Rightarrow> Inr (TPtr (fd_type fd))
       | _ \<Rightarrow> Inl TcPanic)"

definition ld_field_typecheck ::
  "'a assembly_scheme \<Rightarrow> cil_type \<Rightarrow> field_desc \<Rightarrow> (tc_error, cil_type) result" where
  "ld_field_typecheck asm addr fd = rbind (validate_field_target asm addr fd) (\<lambda>_. Inr (fd_type fd))"

definition ld_ind_typecheck ::
  "'a assembly_scheme \<Rightarrow> cil_type \<Rightarrow> cil_type \<Rightarrow> (tc_error, cil_type) result" where
  "ld_ind_typecheck asm addr t =
     rbind (ok_or (pointed_to addr) (TypeNotPtr addr)) (\<lambda>pointed.
       if \<not> is_assignable_to asm pointed t then Inl (DerfWrongPtr t pointed) else Inr pointed)"

definition array_elem_of :: "cil_type \<Rightarrow> (tc_error, cil_type) result" where
  "array_elem_of arr =
     (case arr of
        TPlatformArray elem dims \<Rightarrow> if dims \<noteq> 1 then Inl (LdLenArrNot1D arr) else Inr elem
      | _ \<Rightarrow> Inl (LdLenArgNotArray arr))"

definition ld_len_typecheck :: "cil_type \<Rightarrow> (tc_error, cil_type) result" where
  "ld_len_typecheck arr = rbind (array_elem_of arr) (\<lambda>_. Inr (TInt I32))"

definition ld_elem_ref_typecheck :: "cil_type \<Rightarrow> cil_type \<Rightarrow> (tc_error, cil_type) result" where
  "ld_elem_ref_typecheck arr idx =
     rbind (array_elem_of arr) (\<lambda>elem. rbind (require_array_index idx) (\<lambda>_. Inr elem))"

definition ld_elem_typecheck :: "cil_type \<Rightarrow> cil_type \<Rightarrow> cil_type \<Rightarrow> (tc_error, cil_type) result" where
  "ld_elem_typecheck arr idx requested =
     rbind (array_elem_of arr) (\<lambda>expected. rbind (require_array_index idx) (\<lambda>_.
       if expected \<noteq> requested then Inl (ArrayElementTypeMismatch expected requested) else Inr requested))"

definition unbox_any_typecheck :: "cil_type \<Rightarrow> cil_type \<Rightarrow> (tc_error, cil_type) result" where
  "unbox_any_typecheck obj t =
     (case obj of
        TClassRef c \<Rightarrow> if cr_valuetype c then Inl (ExpectedClassGotValuetype c) else Inr t
      | TPlatformObject \<Rightarrow> Inr t
      | TPlatformGeneric _ _ \<Rightarrow> Inr t
      | TPlatformString \<Rightarrow> Inr t
      | _ \<Rightarrow> Inl (TypeNotClass obj))"

definition new_arr_typecheck :: "cil_type \<Rightarrow> cil_type \<Rightarrow> (tc_error, cil_type) result" where
  "new_arr_typecheck elem len = rbind (require_array_index len) (\<lambda>_. Inr (TPlatformArray elem 1))"

fun boxable :: "cil_type \<Rightarrow> bool" where
  "boxable (TInt _) = True"
| "boxable (TFloat _) = True"
| "boxable TBool = True"
| "boxable TPlatformChar = True"
| "boxable (TSIMDVector _) = True"
| "boxable (TClassRef c) = cr_valuetype c"
| "boxable _ = False"

definition box_typecheck :: "cil_type \<Rightarrow> cil_type \<Rightarrow> (tc_error, cil_type) result" where
  "box_typecheck v t =
     (if \<not> boxable t \<or> v \<noteq> t then Inl (BoxNotValuetype v t) else Inr TPlatformObject)"

text \<open>
  \<^verbatim>\<open>CILNode::typecheck\<close>. The argument loops check one argument, then its compatibility, before
  the next argument, so the first offending argument is the one reported.
\<close>

fun node_typecheck ::
  "'a assembly_scheme \<Rightarrow> fn_sig \<Rightarrow> local_def list \<Rightarrow> cil_node \<Rightarrow> (tc_error, cil_type) result"
and call_args_typecheck ::
  "'a assembly_scheme \<Rightarrow> fn_sig \<Rightarrow> local_def list \<Rightarrow> string \<Rightarrow> nat \<Rightarrow> cil_node list \<Rightarrow> cil_type list
     \<Rightarrow> (tc_error, unit) result"
and calli_args_typecheck ::
  "'a assembly_scheme \<Rightarrow> fn_sig \<Rightarrow> local_def list \<Rightarrow> nat \<Rightarrow> cil_node list \<Rightarrow> cil_type list
     \<Rightarrow> (tc_error, unit) result"
where
  "node_typecheck asm sig locals (NConst c) = Inr (const_type c)"
| "node_typecheck asm sig locals (NBinOp lhs rhs op) =
     rbind (node_typecheck asm sig locals lhs) (\<lambda>l.
     rbind (node_typecheck asm sig locals rhs) (\<lambda>r. binop_typecheck op l r asm))"
| "node_typecheck asm sig locals (NUnOp n op) =
     rbind (node_typecheck asm sig locals n) (unop_typecheck op)"
| "node_typecheck asm sig locals (NLdLoc l) = local_type locals l"
| "node_typecheck asm sig locals (NLdLocA l) = rbind (local_type locals l) (\<lambda>t. Inr (TRef t))"
| "node_typecheck asm sig locals (NLdArg a) = argument_type sig a"
| "node_typecheck asm sig locals (NLdArgA a) = rbind (argument_type sig a) (\<lambda>t. Inr (TRef t))"
| "node_typecheck asm sig locals (NCall m args _) =
     (case stack_inputs m of
        None \<Rightarrow> Inl TcPanic
      | Some inputs \<Rightarrow>
          if length args \<noteq> length inputs then Inl (CallArgcWrong (length inputs) (length args) (mref_name m))
          else rbind (call_args_typecheck asm sig locals (mref_name m) 0 args inputs)
                 (\<lambda>_. Inr (mref_output m)))"
| "node_typecheck asm sig locals (NCallI p called args) =
     rbind (node_typecheck asm sig locals p) (\<lambda>fn_ptr.
       if length args \<noteq> length (sig_inputs called)
       then Inl (IndirectCallArgcWrong (length (sig_inputs called)) (length args))
       else rbind (calli_args_typecheck asm sig locals 0 args (sig_inputs called)) (\<lambda>_.
         case fn_ptr of
           TFnPtr ptr_sig \<Rightarrow>
             if ptr_sig \<noteq> called then Inl (IndirectCallInvalidFnPtrSig called ptr_sig)
             else Inr (sig_output called)
         | _ \<Rightarrow> Inl (IndirectCallInvalidFnPtrType fn_ptr)))"
| "node_typecheck asm sig locals (NIntCast n target _) =
     rbind (node_typecheck asm sig locals n) (int_cast_typecheck target)"
| "node_typecheck asm sig locals (NFloatCast n target _) =
     rbind (node_typecheck asm sig locals n) (float_cast_typecheck target)"
| "node_typecheck asm sig locals (NRefToPtr n) =
     rbind (node_typecheck asm sig locals n) ref_to_ptr_typecheck"
| "node_typecheck asm sig locals (NPtrCast n res) =
     rbind (node_typecheck asm sig locals n) (\<lambda>t. ptr_cast_typecheck asm t res)"
| "node_typecheck asm sig locals (NLdFieldAddress n fd) =
     rbind (node_typecheck asm sig locals n) (\<lambda>t. ld_field_address_typecheck asm t fd)"
| "node_typecheck asm sig locals (NLdField n fd) =
     rbind (node_typecheck asm sig locals n) (\<lambda>t. ld_field_typecheck asm t fd)"
| "node_typecheck asm sig locals (NLdInd n t _) =
     rbind (node_typecheck asm sig locals n) (\<lambda>a. ld_ind_typecheck asm a t)"
| "node_typecheck asm sig locals (NSizeOf t) = (if t = TVoid then Inl SizeOfVoid else Inr (TInt I32))"
| "node_typecheck asm sig locals NGetException = Inr (TClassRef (bcl_class ''System.Exception''))"
| "node_typecheck asm sig locals (NIsInst n _) =
     rbind (node_typecheck asm sig locals n) (\<lambda>t. rbind (require_managed_object t) (\<lambda>_. Inr TBool))"
| "node_typecheck asm sig locals (NCheckedCast n res) =
     rbind (node_typecheck asm sig locals n) (\<lambda>t. rbind (require_managed_object t) (\<lambda>_. Inr res))"
| "node_typecheck asm sig locals (NLocAlloc n) =
     rbind (node_typecheck asm sig locals n) (\<lambda>_. Inr (TPtr (TInt U8)))"
| "node_typecheck asm sig locals (NLdStaticField d) = Inr (sfd_type d)"
| "node_typecheck asm sig locals (NLdStaticFieldAddress d) = Inr (TPtr (sfd_type d))"
| "node_typecheck asm sig locals (NLdFtn m) = Inr (TFnPtr (mref_sig m))"
| "node_typecheck asm sig locals (NLdTypeToken _) = Inr (TClassRef (bcl_value ''System.RuntimeTypeHandle''))"
| "node_typecheck asm sig locals (NLdLen n) = rbind (node_typecheck asm sig locals n) ld_len_typecheck"
| "node_typecheck asm sig locals (NLocAllocAlgined t _) = Inr (TPtr t)"
| "node_typecheck asm sig locals (NLdElelemRef a i) =
     rbind (node_typecheck asm sig locals a) (\<lambda>arr.
     rbind (node_typecheck asm sig locals i) (\<lambda>idx. ld_elem_ref_typecheck arr idx))"
| "node_typecheck asm sig locals (NLdElem a i elem) =
     rbind (node_typecheck asm sig locals a) (\<lambda>arr.
     rbind (node_typecheck asm sig locals i) (\<lambda>idx. ld_elem_typecheck arr idx elem))"
| "node_typecheck asm sig locals (NUnboxAny n t) =
     rbind (node_typecheck asm sig locals n) (\<lambda>obj. unbox_any_typecheck obj t)"
| "node_typecheck asm sig locals (NNewArr elem n) =
     rbind (node_typecheck asm sig locals n) (new_arr_typecheck elem)"
| "node_typecheck asm sig locals (NBox n t) =
     rbind (node_typecheck asm sig locals n) (\<lambda>v. box_typecheck v t)"
| "call_args_typecheck asm sig locals mname idx (arg # args) (input # inputs) =
     rbind (node_typecheck asm sig locals arg) (\<lambda>arg_type.
       if \<not> call_arg_ok asm arg_type input
       then Inl (CallArgTypeWrong (mangle arg_type) (mangle input) idx mname)
       else call_args_typecheck asm sig locals mname (idx + 1) args inputs)"
| "call_args_typecheck asm sig locals mname idx _ _ = Inr ()"
| "calli_args_typecheck asm sig locals idx (arg # args) (input # inputs) =
     rbind (node_typecheck asm sig locals arg) (\<lambda>arg_type.
       if \<not> is_assignable_to asm arg_type input then Inl (IndirectCallArgTypeWrong arg_type input idx)
       else calli_args_typecheck asm sig locals (idx + 1) args inputs)"
| "calli_args_typecheck asm sig locals idx _ _ = Inr ()"

section \<open>Roots\<close>

text \<open>One definition per arm of \<^verbatim>\<open>CILRoot::typecheck\<close>, over the types of the operands.\<close>

fun is_ptr_cast :: "cil_node \<Rightarrow> bool" where
  "is_ptr_cast (NPtrCast _ _) = True"
| "is_ptr_cast _ = False"

definition st_loc_typecheck ::
  "'a assembly_scheme \<Rightarrow> u32 \<Rightarrow> cil_node \<Rightarrow> cil_type \<Rightarrow> cil_type \<Rightarrow> (tc_error, unit) result" where
  "st_loc_typecheck asm loc node got expected =
     (if got = TVoid then Inr ()
      else if is_ptr_cast node \<and> pointed_to got \<noteq> None \<and> pointed_to expected \<noteq> None then Inr ()
      else if (got = TInt USize \<or> got = TInt ISize) \<and> pointed_to expected \<noteq> None then Inr ()
      else if (expected = TBool \<and> as_int got \<noteq> None) \<or> (got = TBool \<and> as_int expected \<noteq> None) then Inr ()
      else if \<not> is_assignable_to asm got expected
      then Inl (LocalAssigementWrong loc (mangle got) (mangle expected))
      else Inr ())"

definition compatible_or ::
  "'a assembly_scheme \<Rightarrow> string \<Rightarrow> cil_type \<Rightarrow> cil_type \<Rightarrow> (tc_error, unit) result" where
  "compatible_or asm operation got expected =
     (if root_types_compatible asm got expected then Inr () else Inl (RootTypeMismatch operation got expected))"

definition branch_bool_typecheck :: "cil_type \<Rightarrow> (tc_error, unit) result" where
  "branch_bool_typecheck t =
     (case t of TBool \<Rightarrow> Inr () | TInt _ \<Rightarrow> Inr () | _ \<Rightarrow> Inl (ConditionNotBool t))"

definition branch_compare_typecheck ::
  "'a assembly_scheme \<Rightarrow> cil_type \<Rightarrow> cil_type \<Rightarrow> (tc_error, unit) result" where
  "branch_compare_typecheck asm lhs rhs =
     (if is_assignable_to asm lhs rhs \<and> (case as_class_ref lhs of None \<Rightarrow> True | Some c \<Rightarrow> \<not> cr_valuetype c)
      then Inr () else Inl (CantCompareTypes lhs rhs))"

definition cond_typecheck ::
  "'a assembly_scheme \<Rightarrow> fn_sig \<Rightarrow> local_def list \<Rightarrow> branch_cond \<Rightarrow> (tc_error, unit) result" where
  "cond_typecheck asm sig locals c =
     (let compare = (\<lambda>lhs rhs.
        rbind (node_typecheck asm sig locals lhs) (\<lambda>l.
        rbind (node_typecheck asm sig locals rhs) (\<lambda>r. branch_compare_typecheck asm l r)))
      in case c of
        BCTrue n \<Rightarrow> rbind (node_typecheck asm sig locals n) branch_bool_typecheck
      | BCFalse n \<Rightarrow> rbind (node_typecheck asm sig locals n) branch_bool_typecheck
      | BCEq lhs rhs \<Rightarrow> compare lhs rhs
      | BCNe lhs rhs \<Rightarrow> compare lhs rhs
      | BCLt lhs rhs _ \<Rightarrow> compare lhs rhs
      | BCGt lhs rhs _ \<Rightarrow> compare lhs rhs
      | BCLe lhs rhs _ \<Rightarrow> compare lhs rhs
      | BCGe lhs rhs _ \<Rightarrow> compare lhs rhs)"

text \<open>Equal up to sign.\<close>

definition same_width_ints :: "cil_type \<Rightarrow> cil_type \<Rightarrow> bool" where
  "same_width_ints a b =
     (case (as_int a, as_int b) of (Some i, Some j) \<Rightarrow> as_unsigned i = as_unsigned j | _ \<Rightarrow> False)"

definition st_ind_typecheck ::
  "'a assembly_scheme \<Rightarrow> cil_type \<Rightarrow> cil_type \<Rightarrow> cil_type \<Rightarrow> (tc_error, unit) result" where
  "st_ind_typecheck asm addr v t =
     (if pointed_to addr = None then Inl (WriteWrongAddr (mangle addr) (mangle t))
      else if t = TVoid then Inl (WriteWrongAddr (mangle addr) (mangle t))
      else if \<not> (is_assignable_to asm v t \<or> same_width_ints v t \<or> (v = TBool \<and> t = TInt I8))
      then Inl (WriteWrongValue t v)
      else Inr ())"

definition set_field_typecheck ::
  "'a assembly_scheme \<Rightarrow> field_desc \<Rightarrow> cil_type \<Rightarrow> cil_type \<Rightarrow> (tc_error, unit) result" where
  "set_field_typecheck asm fd addr v =
     (if \<not> is_assignable_to asm v (fd_type fd) then Inl (FieldAssignWrongType (fd_type fd) fd v)
      else validate_field_target asm addr fd)"

fun root_args_typecheck ::
  "'a assembly_scheme \<Rightarrow> fn_sig \<Rightarrow> local_def list \<Rightarrow> string \<Rightarrow> nat \<Rightarrow> cil_node list \<Rightarrow> cil_type list
     \<Rightarrow> (tc_error, unit) result" where
  "root_args_typecheck asm sig locals mname idx (arg # args) (input # inputs) =
     rbind (node_typecheck asm sig locals arg) (\<lambda>arg_type.
       if \<not> root_types_compatible asm arg_type input
       then Inl (CallArgTypeWrong (mangle arg_type) (mangle input) idx mname)
       else root_args_typecheck asm sig locals mname (idx + 1) args inputs)"
| "root_args_typecheck asm sig locals mname idx _ _ = Inr ()"

definition void_output :: "string \<Rightarrow> cil_type \<Rightarrow> (tc_error, unit) result" where
  "void_output operation output =
     (if output = TVoid then Inr () else Inl (RootTypeMismatch operation output TVoid))"

definition root_call_typecheck ::
  "'a assembly_scheme \<Rightarrow> fn_sig \<Rightarrow> local_def list \<Rightarrow> method_ref \<Rightarrow> cil_node list \<Rightarrow> (tc_error, unit) result" where
  "root_call_typecheck asm sig locals m args =
     (case stack_inputs m of
        None \<Rightarrow> Inl TcPanic
      | Some inputs \<Rightarrow>
          if length inputs \<noteq> length args then Inl (CallArgcWrong (length inputs) (length args) (mref_name m))
          else rbind (root_args_typecheck asm sig locals (mref_name m) 0 args inputs)
                 (\<lambda>_. void_output ''statement call result'' (mref_output m)))"

definition init_blk_typecheck :: "cil_type \<Rightarrow> cil_type \<Rightarrow> cil_type \<Rightarrow> (tc_error, unit) result" where
  "init_blk_typecheck dst v cnt =
     rbind (require_root_pointer ''initblk destination'' dst) (\<lambda>_.
     rbind (require_root_integer ''initblk value'' v) (\<lambda>_.
     require_root_integer ''initblk count'' cnt))"

definition cp_blk_typecheck :: "cil_type \<Rightarrow> cil_type \<Rightarrow> cil_type \<Rightarrow> (tc_error, unit) result" where
  "cp_blk_typecheck dst src cnt =
     rbind (require_root_pointer ''cpblk destination'' dst) (\<lambda>_.
     rbind (require_root_pointer ''cpblk source'' src) (\<lambda>_.
     require_root_integer ''cpblk count'' cnt))"

definition cp_obj_typecheck :: "cil_type \<Rightarrow> cil_type \<Rightarrow> cil_type \<Rightarrow> (tc_error, unit) result" where
  "cp_obj_typecheck src dst copied =
     rbind (require_root_pointer ''cpobj source'' src) (\<lambda>_.
     rbind (require_root_pointer ''cpobj destination'' dst) (\<lambda>_.
     if copied = TVoid then Inl (RootOperandType ''cpobj type'' copied) else Inr ()))"

definition init_obj_typecheck :: "cil_type \<Rightarrow> cil_type \<Rightarrow> (tc_error, unit) result" where
  "init_obj_typecheck addr initialized =
     rbind (require_root_pointer ''initobj destination'' addr) (\<lambda>_.
     if initialized = TVoid then Inl (RootOperandType ''initobj type'' initialized) else Inr ())"

definition st_elem_typecheck ::
  "'a assembly_scheme \<Rightarrow> cil_type \<Rightarrow> cil_type \<Rightarrow> cil_type \<Rightarrow> cil_type \<Rightarrow> (tc_error, unit) result" where
  "st_elem_typecheck asm arr idx v elem =
     rbind (array_elem_of arr) (\<lambda>arr_elem.
     rbind (require_array_index idx) (\<lambda>_.
     if \<not> (arr_elem = elem \<or> same_width_ints arr_elem elem) then Inl (WriteWrongValue elem arr_elem)
     else if \<not> (is_assignable_to asm v elem \<or> same_width_ints v elem) then Inl (WriteWrongValue elem v)
     else Inr ()))"

fun root_typecheck ::
  "'a assembly_scheme \<Rightarrow> fn_sig \<Rightarrow> local_def list \<Rightarrow> cil_root \<Rightarrow> (tc_error, unit) result" where
  "root_typecheck asm sig locals (RStLoc loc node) =
     rbind (node_typecheck asm sig locals node) (\<lambda>got.
     rbind (local_type locals loc) (\<lambda>expected. st_loc_typecheck asm loc node got expected))"
| "root_typecheck asm sig locals (RStArg arg node) =
     rbind (node_typecheck asm sig locals node) (\<lambda>got.
     rbind (argument_type sig arg) (\<lambda>expected. compatible_or asm ''starg'' got expected))"
| "root_typecheck asm sig locals (RRet node) =
     rbind (node_typecheck asm sig locals node) (\<lambda>got. compatible_or asm ''ret'' got (sig_output sig))"
| "root_typecheck asm sig locals RVoidRet =
     (if sig_output sig = TVoid then Inr () else Inl (RootTypeMismatch ''ret'' TVoid (sig_output sig)))"
| "root_typecheck asm sig locals (RPop node) = rbind (node_typecheck asm sig locals node) (\<lambda>_. Inr ())"
| "root_typecheck asm sig locals (RThrow node) =
     rbind (node_typecheck asm sig locals node) (\<lambda>got.
       if is_gcref got then Inr () else Inl (RootOperandType ''throw'' got))"
| "root_typecheck asm sig locals RBreak = Inr ()"
| "root_typecheck asm sig locals RNop = Inr ()"
| "root_typecheck asm sig locals RInitFragmentBoundary = Inr ()"
| "root_typecheck asm sig locals (RSourceFileInfo _ _ _ _ _) = Inr ()"
| "root_typecheck asm sig locals (RExitSpecialRegion _ _) = Inr ()"
| "root_typecheck asm sig locals RReThrow = Inr ()"
| "root_typecheck asm sig locals (RUnreachable _) = Inr ()"
| "root_typecheck asm sig locals (RBranch _ _ None) = Inr ()"
| "root_typecheck asm sig locals (RBranch _ _ (Some c)) = cond_typecheck asm sig locals c"
| "root_typecheck asm sig locals (RStInd a v t _) =
     rbind (node_typecheck asm sig locals a) (\<lambda>addr.
     rbind (node_typecheck asm sig locals v) (\<lambda>val. st_ind_typecheck asm addr val t))"
| "root_typecheck asm sig locals (RSetField fd a v) =
     rbind (node_typecheck asm sig locals a) (\<lambda>addr.
     rbind (node_typecheck asm sig locals v) (\<lambda>val. set_field_typecheck asm fd addr val))"
| "root_typecheck asm sig locals (RCall m args _) = root_call_typecheck asm sig locals m args"
| "root_typecheck asm sig locals (RCallI p called args) =
     rbind (node_typecheck asm sig locals (NCallI p called args)) (void_output ''statement calli result'')"
| "root_typecheck asm sig locals (RInitBlk d v n) =
     rbind (node_typecheck asm sig locals d) (\<lambda>dst.
     rbind (node_typecheck asm sig locals v) (\<lambda>val.
     rbind (node_typecheck asm sig locals n) (\<lambda>cnt. init_blk_typecheck dst val cnt)))"
| "root_typecheck asm sig locals (RCpBlk d s n) =
     rbind (node_typecheck asm sig locals d) (\<lambda>dst.
     rbind (node_typecheck asm sig locals s) (\<lambda>src.
     rbind (node_typecheck asm sig locals n) (\<lambda>cnt. cp_blk_typecheck dst src cnt)))"
| "root_typecheck asm sig locals (RCpObj s d t) =
     rbind (node_typecheck asm sig locals s) (\<lambda>src.
     rbind (node_typecheck asm sig locals d) (\<lambda>dst. cp_obj_typecheck src dst t))"
| "root_typecheck asm sig locals (RInitObj a t) =
     rbind (node_typecheck asm sig locals a) (\<lambda>addr. init_obj_typecheck addr t)"
| "root_typecheck asm sig locals (RSetStaticField d v) =
     rbind (node_typecheck asm sig locals v) (\<lambda>got. compatible_or asm ''stsfld'' got (sfd_type d))"
| "root_typecheck asm sig locals (RStElem a i v elem) =
     rbind (node_typecheck asm sig locals a) (\<lambda>arr.
     rbind (node_typecheck asm sig locals i) (\<lambda>idx.
     rbind (node_typecheck asm sig locals v) (\<lambda>val. st_elem_typecheck asm arr idx val elem)))"
| "root_typecheck asm sig locals (RTerminateRegion protected _) = root_typecheck asm sig locals protected"

section \<open>Checked trees\<close>

lemma call_args_typecheck_iff:
  "length args = length inputs \<Longrightarrow>
   call_args_typecheck asm sig locals mname idx args inputs = Inr () \<longleftrightarrow>
   list_all2 (\<lambda>arg input. \<exists>t. node_typecheck asm sig locals arg = Inr t \<and> call_arg_ok asm t input) args inputs"
  by (induction args inputs arbitrary: idx rule: list_induct2) (auto simp: rbind_eq_Inr)

lemma calli_args_typecheck_iff:
  "length args = length inputs \<Longrightarrow>
   calli_args_typecheck asm sig locals idx args inputs = Inr () \<longleftrightarrow>
   list_all2 (\<lambda>arg input. \<exists>t. node_typecheck asm sig locals arg = Inr t \<and> is_assignable_to asm t input) args inputs"
  by (induction args inputs arbitrary: idx rule: list_induct2) (auto simp: rbind_eq_Inr)

lemma root_args_typecheck_iff:
  "length args = length inputs \<Longrightarrow>
   root_args_typecheck asm sig locals mname idx args inputs = Inr () \<longleftrightarrow>
   list_all2 (\<lambda>arg input. \<exists>t. node_typecheck asm sig locals arg = Inr t \<and> root_types_compatible asm t input) args inputs"
  by (induction args inputs arbitrary: idx rule: list_induct2) (auto simp: rbind_eq_Inr)

lemma list_all2_left: "list_all2 P xs ys \<Longrightarrow> x \<in> set xs \<Longrightarrow> \<exists>y. P x y"
  by (auto simp: list_all2_conv_all_nth in_set_conv_nth)

text \<open>Every operand of an accepted node was itself checked and accepted.\<close>

lemma checked_operands:
  assumes "node_typecheck asm sig locals n = Inr t" and "c \<in> set (operands n)"
  shows "\<exists>u. node_typecheck asm sig locals c = Inr u"
proof (cases n)
  case (NCall m args p)
  then obtain inputs where "length args = length inputs"
    "call_args_typecheck asm sig locals (mref_name m) 0 args inputs = Inr ()"
    using assms(1) by (auto simp: rbind_eq_Inr split: option.splits if_splits)
  then show ?thesis using assms(2) NCall by (auto simp: call_args_typecheck_iff dest: list_all2_left)
next
  case (NCallI p called args)
  then have "length args = length (sig_inputs called)"
    "calli_args_typecheck asm sig locals 0 args (sig_inputs called) = Inr ()"
    "\<exists>u. node_typecheck asm sig locals p = Inr u"
    using assms(1) by (auto simp: rbind_eq_Inr split: if_splits)
  then show ?thesis using assms(2) NCallI by (auto simp: calli_args_typecheck_iff dest: list_all2_left)
qed (use assms in \<open>auto simp: rbind_eq_Inr\<close>)

lemma checked_subterms:
  "node_typecheck asm sig locals n = Inr t \<Longrightarrow> m \<in> set (subterms n) \<Longrightarrow>
   \<exists>u. node_typecheck asm sig locals m = Inr u"
proof (induction n arbitrary: t rule: subterms.induct)
  case (1 n)
  from 1(3) consider "m = n" | c where "c \<in> set (operands n)" "m \<in> set (subterms c)"
    by (auto simp: subterms.simps [of n])
  then show ?case
  proof cases
    case (2 c)
    then show ?thesis using 1(1) [of c] checked_operands [OF 1(2)] by blast
  qed (use 1(2) in blast)
qed

text \<open>The slots a node or root names, as stack indices.\<close>

fun named_local :: "cil_node \<Rightarrow> u32 option" where
  "named_local (NLdLoc l) = Some l"
| "named_local (NLdLocA l) = Some l"
| "named_local _ = None"

fun named_arg :: "cil_node \<Rightarrow> u32 option" where
  "named_arg (NLdArg a) = Some a"
| "named_arg (NLdArgA a) = Some a"
| "named_arg _ = None"

lemma checked_slots:
  assumes "node_typecheck asm sig locals n = Inr t"
  shows "named_local n = Some l \<Longrightarrow> unat l < length locals"
    and "named_arg n = Some a \<Longrightarrow> unat a < length (sig_inputs sig)"
  using assms
  by (cases n; auto simp: local_type_def argument_type_def rbind_eq_Inr ok_or_def split: option.splits)+

definition slots_in_range :: "fn_sig \<Rightarrow> local_def list \<Rightarrow> cil_node \<Rightarrow> bool" where
  "slots_in_range sig locals n \<longleftrightarrow>
     (\<forall>m\<in>set (subterms n).
        (\<forall>l. named_local m = Some l \<longrightarrow> unat l < length locals) \<and>
        (\<forall>a. named_arg m = Some a \<longrightarrow> unat a < length (sig_inputs sig)))"

lemma checked_node_slots: "node_typecheck asm sig locals n = Inr t \<Longrightarrow> slots_in_range sig locals n"
  unfolding slots_in_range_def using checked_subterms checked_slots by meson

text \<open>The operands of a root, those of the root a protected region guards included.\<close>

fun root_operands :: "cil_root \<Rightarrow> cil_node list" where
  "root_operands (RTerminateRegion r _) = root_operands r"
| "root_operands r = root_nodes r"

lemma checked_cond_nodes:
  "cond_typecheck asm sig locals c = Inr () \<Longrightarrow> n \<in> set (cond_nodes c) \<Longrightarrow>
   \<exists>t. node_typecheck asm sig locals n = Inr t"
  by (cases c) (auto simp: cond_typecheck_def Let_def rbind_eq_Inr)

lemma checked_root_operands:
  "root_typecheck asm sig locals r = Inr () \<Longrightarrow> n \<in> set (root_operands r) \<Longrightarrow>
   \<exists>t. node_typecheck asm sig locals n = Inr t"
proof (induction r)
  case (RCall m args p)
  then show ?case
    by (auto simp: root_call_typecheck_def root_args_typecheck_iff rbind_eq_Inr
        split: option.splits if_splits dest: list_all2_left)
next
  case (RCallI p called args)
  then obtain t where "node_typecheck asm sig locals (NCallI p called args) = Inr t"
    by (auto simp: rbind_eq_Inr)
  then show ?case using checked_operands [of asm sig locals "NCallI p called args" t n] RCallI(2) by auto
next
  case (RBranch t s c)
  then show ?case using checked_cond_nodes by (cases c) auto
qed (auto simp: rbind_eq_Inr simp del: node_typecheck.simps)

section \<open>Soundness of the checker on slots\<close>

lemma checked_root_in_range_parts:
  assumes "root_typecheck asm sig locals r = Inr ()"
  shows "\<forall>n\<in>set (root_operands r). slots_in_range sig locals n"
    and "r = RStLoc l v \<Longrightarrow> unat l < length locals"
    and "r = RStArg a v \<Longrightarrow> unat a < length (sig_inputs sig)"
proof -
  show "\<forall>n\<in>set (root_operands r). slots_in_range sig locals n"
    using checked_root_operands [OF assms] checked_node_slots by blast
  show "unat l < length locals" if "r = RStLoc l v"
    using assms that by (auto simp: rbind_eq_Inr local_type_def ok_or_def split: option.splits)
  show "unat a < length (sig_inputs sig)" if "r = RStArg a v"
    using assms that by (auto simp: rbind_eq_Inr argument_type_def ok_or_def split: option.splits)
qed

text \<open>
  C18. A root the checker accepts only touches slots that exist: everywhere inside its operands, the
  root guarded by a protected region included, a local that is read or whose address is taken is
  below the number of locals and an argument below the number of inputs of the signature, and the
  local a store writes and the argument it writes exist too.
\<close>

theorem checked_root_in_range:
  assumes "root_typecheck asm sig locals r = Inr ()"
  shows "(\<forall>n\<in>set (root_operands r). slots_in_range sig locals n)
    \<and> (\<forall>l v. r = RStLoc l v \<longrightarrow> unat l < length locals)
    \<and> (\<forall>a v. r = RStArg a v \<longrightarrow> unat a < length (sig_inputs sig))"
  using checked_root_in_range_parts [OF assms] by blast

theorem checked_root_in_range_witness:
  "slots_in_range (FnSig [TInt I32] TVoid) [(None, TInt I32)] (NLdArg 0) \<and> unat (0 :: u32) < length [(0 :: nat)]"
proof -
  let ?sig = "FnSig [TInt I32] TVoid" and ?locals = "[(None, TInt I32)] :: local_def list"
  let ?r = "RStLoc 0 (NLdArg 0)"
  have "root_typecheck (\<lparr>class_defs = Map.empty\<rparr>) ?sig ?locals ?r = Inr ()"
    by (simp add: argument_type_def local_type_def nth_opt_def st_loc_typecheck_def is_assignable_to.simps)
  from checked_root_in_range [OF this]
  show ?thesis by simp
qed

section \<open>Calls\<close>

lemma node_call_iff:
  "node_typecheck asm sig locals (NCall m args p) = Inr t \<longleftrightarrow>
   (\<exists>inputs. stack_inputs m = Some inputs \<and> t = mref_output m \<and>
      list_all2 (\<lambda>arg input. \<exists>u. node_typecheck asm sig locals arg = Inr u \<and> call_arg_ok asm u input) args inputs)"
  by (auto simp: call_args_typecheck_iff rbind_eq_Inr list_all2_lengthD split: option.splits)

lemma root_call_iff:
  "root_typecheck asm sig locals (RCall m args p) = Inr () \<longleftrightarrow>
   (\<exists>inputs. stack_inputs m = Some inputs \<and> mref_output m = TVoid \<and>
      list_all2 (\<lambda>arg input. \<exists>u. node_typecheck asm sig locals arg = Inr u \<and> root_types_compatible asm u input) args inputs)"
  by (auto simp: root_call_typecheck_def root_args_typecheck_iff rbind_eq_Inr void_output_def list_all2_lengthD
      split: option.splits)

lemma call_typecheck_iff_parts:
  "node_typecheck asm sig locals (NCall m args p) = Inr t \<longleftrightarrow>
     (\<exists>inputs. stack_inputs m = Some inputs \<and> t = mref_output m \<and>
        list_all2 (\<lambda>arg input. \<exists>u. node_typecheck asm sig locals arg = Inr u \<and> call_arg_ok asm u input) args inputs)"
  "root_typecheck asm sig locals (RCall m args p) = Inr () \<Longrightarrow>
     node_typecheck asm sig locals (NCall m args p) = Inr TVoid"
proof -
  show "node_typecheck asm sig locals (NCall m args p) = Inr t \<longleftrightarrow>
     (\<exists>inputs. stack_inputs m = Some inputs \<and> t = mref_output m \<and>
        list_all2 (\<lambda>arg input. \<exists>u. node_typecheck asm sig locals arg = Inr u \<and> call_arg_ok asm u input) args inputs)"
    by (rule node_call_iff)
next
  assume "root_typecheck asm sig locals (RCall m args p) = Inr ()"
  then show "node_typecheck asm sig locals (NCall m args p) = Inr TVoid"
    unfolding node_call_iff root_call_iff
    by (auto simp: root_types_compatible_def call_arg_ok_def elim!: list_all2_mono)
qed

text \<open>
  C20. A call used as a value is accepted, with the output type of the method, exactly when there are
  as many arguments as stack inputs and each argument has a type that is assignable to its input,
  is a pointer to the same pointee, or passes as an erased pointer. A call used as a statement is
  accepted under a stronger condition, so every accepted statement call is accepted as a value, of
  type void.
\<close>

theorem call_typecheck_iff:
  "(node_typecheck asm sig locals (NCall m args p) = Inr t \<longleftrightarrow>
     (\<exists>inputs. stack_inputs m = Some inputs \<and> t = mref_output m \<and>
        list_all2 (\<lambda>arg input. \<exists>u. node_typecheck asm sig locals arg = Inr u \<and> call_arg_ok asm u input) args inputs))
   \<and> (root_typecheck asm sig locals (RCall m args p) = Inr () \<longrightarrow>
       node_typecheck asm sig locals (NCall m args p) = Inr TVoid)"
  by (intro conjI impI) (rule call_typecheck_iff_parts, assumption?)+

abbreviation (input) sink_method :: method_ref where
  "sink_method \<equiv> MethodRef (bcl_class ''M'') ''f'' (FnSig [TPtr (TInt U8)] TVoid) MStatic []"

theorem call_typecheck_iff_witness:
  "node_typecheck (\<lparr>class_defs = Map.empty\<rparr>) (FnSig [TPtr TBool] TVoid) [] (NCall sink_method [NLdArg 0] False)
     = Inr TVoid"
proof (rule call_typecheck_iff [THEN conjunct2, rule_format])
  show "root_typecheck (\<lparr>class_defs = Map.empty\<rparr>) (FnSig [TPtr TBool] TVoid) []
      (RCall sink_method [NLdArg 0] False) = Inr ()"
    by (simp add: root_call_typecheck_def stack_inputs_def mref_output_def argument_type_def nth_opt_def
        root_types_compatible_def is_erased_ptr_sink.simps void_output_def)
qed

section \<open>Binary operators on integers\<close>

lemma int_assignable [simp]: "is_assignable_to asm (TInt a) (TInt b) \<longleftrightarrow> a = b"
  by (simp add: is_assignable_to.simps)

lemma fallback_ints [simp]:
  "fallback_int op (TInt a) (TInt b) asm = Inr t \<longleftrightarrow> a = b \<and> t = TInt a"
  by (auto simp: fallback_int_def)

fun is_comparison :: "bin_op \<Rightarrow> bool" where
  "is_comparison op = (op \<in> {Eq, Lt, LtUn, Gt, GtUn})"

fun is_shift :: "bin_op \<Rightarrow> bool" where
  "is_shift op = (op \<in> {Shl, Shr, ShrUn})"

text \<open>
  C21. What the checker accepts of two integers. Equal integer types are accepted by every operator
  whatever their sign, so the signedness conditions of remainder, division and right shift only
  matter for a shift amount of another type; unequal types are accepted by the shifts whose sign
  matches the shifted type and by the multiplication of a word with a 32-bit integer. The result
  is a boolean for comparisons and the left type otherwise.
\<close>

theorem binop_int_types:
  "binop_typecheck op (TInt a) (TInt b) asm = Inr t \<longleftrightarrow>
     (if is_comparison op then a = b \<and> t = TBool
      else t = TInt a \<and>
        (a = b
         \<or> is_shift op \<and> shift_amount_int b \<and> (op = Shr \<longrightarrow> is_signed a) \<and> (op = ShrUn \<longrightarrow> \<not> is_signed a)
         \<or> op = Mul \<and> is_word_int a \<and> b = I32))"
  by (cases op)
    (auto simp: typecheck_add_sub_def typecheck_eq_def typecheck_mul_def mul_fallback_def typecheck_compare_def
      compare_fallback_def typecheck_bitwise_def typecheck_rem_def typecheck_rem_un_def typecheck_shift_def
      typecheck_div_un_def typecheck_div_def is_word_int_def Let_def)

theorem binop_int_types_witness:
  "binop_typecheck DivUn (TInt I32) (TInt I32) (\<lparr>class_defs = Map.empty\<rparr>) = Inr (TInt I32)"
  unfolding binop_int_types by simp

section \<open>Managed references and pointers\<close>

lemma ptr_cast_type_no_gcref: "\<not> contains_gcref asm (ptr_cast_type res)"
  by (cases res) (simp_all add: contains_gcref_def contains_gcref_impl.simps)

lemma ptr_cast_accepts_parts:
  "node_typecheck asm sig locals (NPtrCast n res) = Inr t \<longleftrightarrow>
     t = ptr_cast_type res \<and>
     (\<exists>u. node_typecheck asm sig locals n = Inr u \<and>
        ((\<exists>s. u = TFnPtr s) \<or> u = TInt USize \<or> u = TInt ISize
         \<or> (\<exists>p. pointed_to u = Some p \<and> \<not> contains_gcref asm p)))"
  "node_typecheck asm sig locals (NPtrCast (NConst (CUSize a)) (PCPtr TPlatformObject)) = Inr (TPtr TPlatformObject)"
proof -
  have *: "ptr_cast_typecheck asm u res = Inr t \<longleftrightarrow>
      t = ptr_cast_type res \<and>
      ((\<exists>s. u = TFnPtr s) \<or> u = TInt USize \<or> u = TInt ISize
         \<or> (\<exists>p. pointed_to u = Some p \<and> \<not> contains_gcref asm p))" for u res t
    by (cases u) (auto simp: ptr_cast_typecheck_def ptr_cast_operand_def is_word_int_def Let_def ptr_cast_type_no_gcref)
  show "node_typecheck asm sig locals (NPtrCast n res) = Inr t \<longleftrightarrow>
     t = ptr_cast_type res \<and>
     (\<exists>u. node_typecheck asm sig locals n = Inr u \<and>
        ((\<exists>s. u = TFnPtr s) \<or> u = TInt USize \<or> u = TInt ISize
         \<or> (\<exists>p. pointed_to u = Some p \<and> \<not> contains_gcref asm p)))"
    by (auto simp: rbind_eq_Inr *)
  show "node_typecheck asm sig locals (NPtrCast (NConst (CUSize a)) (PCPtr TPlatformObject)) = Inr (TPtr TPlatformObject)"
    by (simp add: *)
qed

text \<open>
  C22. A pointer cast is accepted exactly when its operand is a word, a function pointer, or a
  pointer or reference whose pointee holds no managed reference at any depth, and its type is then
  the requested one. The requested type is never a reason to reject: the check on the destination
  looks at the pointer, not at what it points to, so a word can be cast to a pointer to a managed
  object.
\<close>

theorem ptr_cast_accepts:
  "(node_typecheck asm sig locals (NPtrCast n res) = Inr t \<longleftrightarrow>
     t = ptr_cast_type res \<and>
     (\<exists>u. node_typecheck asm sig locals n = Inr u \<and>
        ((\<exists>s. u = TFnPtr s) \<or> u = TInt USize \<or> u = TInt ISize
         \<or> (\<exists>p. pointed_to u = Some p \<and> \<not> contains_gcref asm p))))
   \<and> node_typecheck asm sig locals (NPtrCast (NConst (CUSize a)) (PCPtr TPlatformObject)) = Inr (TPtr TPlatformObject)"
  by (rule conjI) (rule ptr_cast_accepts_parts)+

section \<open>Stores\<close>

text \<open>
  C23. An indirect store is accepted exactly when its operands check, the address is a pointer or
  reference (to anything), the stored type is not void, and the value has the stored type: it is
  assignable to it, an integer of the same width, or a boolean stored as a signed byte.
\<close>

theorem st_ind_accepts:
  "root_typecheck asm sig locals (RStInd a v t vol) = Inr () \<longleftrightarrow>
     t \<noteq> TVoid \<and>
     (\<exists>p. node_typecheck asm sig locals a = Inr (TPtr p) \<or> node_typecheck asm sig locals a = Inr (TRef p)) \<and>
     (\<exists>u. node_typecheck asm sig locals v = Inr u \<and>
        (is_assignable_to asm u t
         \<or> (\<exists>i j. u = TInt i \<and> t = TInt j \<and> as_unsigned i = as_unsigned j)
         \<or> u = TBool \<and> t = TInt I8))"
proof -
  have ptr: "pointed_to u = None \<longleftrightarrow> \<not> (\<exists>p. u = TPtr p \<or> u = TRef p)" for u by (cases u) simp_all
  have width: "same_width_ints u t \<longleftrightarrow> (\<exists>i j. u = TInt i \<and> t = TInt j \<and> as_unsigned i = as_unsigned j)" for u
    by (cases u; cases t) (simp_all add: same_width_ints_def)
  have *: "st_ind_typecheck asm addr u t = Inr () \<longleftrightarrow>
     t \<noteq> TVoid \<and> (\<exists>p. addr = TPtr p \<or> addr = TRef p) \<and>
     (is_assignable_to asm u t \<or> same_width_ints u t \<or> u = TBool \<and> t = TInt I8)" for addr u
    by (auto simp: st_ind_typecheck_def ptr)
  show ?thesis unfolding root_typecheck.simps rbind_eq_Inr * width by blast
qed

section \<open>Field accesses\<close>

definition field_reachable :: "'a assembly_scheme \<Rightarrow> class_ref \<Rightarrow> field_desc \<Rightarrow> bool" where
  "field_reachable asm c fd \<longleftrightarrow>
     is_assignable_to asm (TClassRef c) (TClassRef (fd_owner fd)) \<and>
     (case class_defs asm (fd_owner fd) of
        None \<Rightarrow> True
      | Some cd \<Rightarrow> (\<exists>off. (fd_type fd, fd_name fd, off) \<in> set (cd_fields cd)))"

lemma validate_field_access_iff:
  "validate_field_access asm fd c = Inr () \<longleftrightarrow> field_reachable asm c fd"
  by (auto simp: validate_field_access_def field_reachable_def list_ex_iff split: option.splits)

lemma validate_field_target_iff:
  "validate_field_target asm u fd = Inr () \<longleftrightarrow>
   (\<exists>c. (u = TPtr (TClassRef c) \<or> u = TRef (TClassRef c) \<or> u = TClassRef c) \<and> field_reachable asm c fd)"
  by (cases u) (auto simp: validate_field_target_def validate_field_access_iff split: cil_type.splits)

lemma field_access_accepts_parts:
  "node_typecheck asm sig locals (NLdFieldAddress n fd) = Inr t \<longleftrightarrow>
     (\<exists>u c. node_typecheck asm sig locals n = Inr u \<and> field_reachable asm c fd \<and>
        (u = TPtr (TClassRef c) \<and> t = TPtr (fd_type fd)
         \<or> (u = TRef (TClassRef c) \<or> u = TClassRef c) \<and> t = TRef (fd_type fd)))"
  "node_typecheck asm sig locals (NLdField n fd) = Inr t \<longleftrightarrow>
     t = fd_type fd \<and> (\<exists>s. node_typecheck asm sig locals (NLdFieldAddress n fd) = Inr s)"
proof -
  have *: "ld_field_address_typecheck asm u fd = Inr t \<longleftrightarrow>
      (\<exists>c. field_reachable asm c fd \<and>
         (u = TPtr (TClassRef c) \<and> t = TPtr (fd_type fd)
          \<or> (u = TRef (TClassRef c) \<or> u = TClassRef c) \<and> t = TRef (fd_type fd)))" for u t
    by (auto simp: ld_field_address_typecheck_def rbind_eq_Inr validate_field_target_iff)
  show "node_typecheck asm sig locals (NLdFieldAddress n fd) = Inr t \<longleftrightarrow>
     (\<exists>u c. node_typecheck asm sig locals n = Inr u \<and> field_reachable asm c fd \<and>
        (u = TPtr (TClassRef c) \<and> t = TPtr (fd_type fd)
         \<or> (u = TRef (TClassRef c) \<or> u = TClassRef c) \<and> t = TRef (fd_type fd)))"
    by (auto simp: rbind_eq_Inr *)
  show "node_typecheck asm sig locals (NLdField n fd) = Inr t \<longleftrightarrow>
     t = fd_type fd \<and> (\<exists>s. node_typecheck asm sig locals (NLdFieldAddress n fd) = Inr s)"
    by (auto simp: rbind_eq_Inr * ld_field_typecheck_def validate_field_target_iff)
qed

text \<open>
  A field address is accepted exactly when the address is a class object, or a pointer or
  reference to one, of a class assignable to the field's owner, and the owner, if it is defined in
  the assembly, has a field of that name and type. The address of a field reached through a
  reference or an object is again a managed reference, through an unmanaged pointer an unmanaged
  pointer; loading the field instead is accepted under the same condition and has the field's type.
\<close>

theorem field_access_accepts:
  "(node_typecheck asm sig locals (NLdFieldAddress n fd) = Inr t \<longleftrightarrow>
     (\<exists>u c. node_typecheck asm sig locals n = Inr u \<and> field_reachable asm c fd \<and>
        (u = TPtr (TClassRef c) \<and> t = TPtr (fd_type fd)
         \<or> (u = TRef (TClassRef c) \<or> u = TClassRef c) \<and> t = TRef (fd_type fd))))
   \<and> (node_typecheck asm sig locals (NLdField n fd) = Inr t \<longleftrightarrow>
     t = fd_type fd \<and> (\<exists>s. node_typecheck asm sig locals (NLdFieldAddress n fd) = Inr s))"
  by (rule conjI) (rule field_access_accepts_parts)+

end
