(* ===== verification/OptFuel.thy ===== *)
theory OptFuel
  imports Prelude
begin

text \<open>
  The budget of the optimizer (\<^verbatim>\<open>cilly/src/ir/opt/opt_fuel.rs\<close>) and \<^verbatim>\<open>opt_if_fuel\<close>
  (\<^verbatim>\<open>opt/mod.rs\<close>). The fraction is a float in the code; its truncated reciprocal is an argument here.
\<close>


type_synonym opt_fuel = u32

definition fuel_new :: "u32 \<Rightarrow> opt_fuel" where
  "fuel_new fuel = fuel"

text \<open>Integer division by a reciprocal that rounds to zero panics.\<close>

definition fuel_fraction :: "opt_fuel \<Rightarrow> u32 \<Rightarrow> opt_fuel option" where
  "fuel_fraction fuel scale_div = (if scale_div = 0 then None else Some (fuel div scale_div))"

definition consume :: "u32 \<Rightarrow> opt_fuel \<Rightarrow> bool \<times> opt_fuel" where
  "consume cost fuel = (if cost \<le> fuel then (True, fuel - cost) else (False, fuel))"

definition exchausted :: "opt_fuel \<Rightarrow> bool" where
  "exchausted fuel \<longleftrightarrow> fuel = 0"

definition opt_if_fuel :: "'a \<Rightarrow> 'a \<Rightarrow> opt_fuel \<Rightarrow> 'a \<times> opt_fuel" where
  "opt_if_fuel new original fuel =
     (let (ok, fuel) = consume 1 fuel in (if ok then new else original, fuel))"

lemma opt_if_fuel_cases:
  "opt_if_fuel new original fuel = (r, fuel') \<Longrightarrow> r = new \<or> r = original"
  by (auto simp: opt_if_fuel_def Let_def split: prod.splits if_splits)

lemma fst_opt_if_fuel: "fst (opt_if_fuel new original fuel) = (if fuel = 0 then original else new)"
proof -
  have "(1 :: u32) \<le> fuel \<longleftrightarrow> fuel \<noteq> 0"
    by (simp add: word_le_nat_alt Suc_le_eq word_neq_0_conv [symmetric] unat_gt_0)
  then show ?thesis by (simp add: opt_if_fuel_def consume_def)
qed

text \<open>A run of requests: which are granted, and what is left.\<close>

fun run_requests :: "u32 list \<Rightarrow> opt_fuel \<Rightarrow> u32 list \<times> opt_fuel" where
  "run_requests [] fuel = ([], fuel)"
| "run_requests (c # cs) fuel =
     (let (ok, fuel) = consume c fuel; (granted, fuel) = run_requests cs fuel in
      (if ok then c # granted else granted, fuel))"

lemma consume_unat: "consume c fuel = (ok, fuel') \<Longrightarrow> unat fuel = unat fuel' + (if ok then unat c else 0)"
  by (auto simp: consume_def word_le_nat_alt unat_sub split: if_splits)

lemma run_requests_unat:
  "run_requests cs fuel = (granted, fuel') \<Longrightarrow>
   sum_list (map unat granted) + unat fuel' = unat fuel"
  by (induction cs arbitrary: fuel granted)
    (auto simp: Let_def split: prod.splits if_splits dest!: consume_unat)

lemma fuel_accounts_parts:
  "sum_list (map unat (fst (run_requests cs fuel))) + unat (snd (run_requests cs fuel)) = unat fuel"
  "fst (consume c fuel) \<longleftrightarrow> unat c \<le> unat fuel"
  "opt_if_fuel new original 0 = (original, 0)"
  using run_requests_unat [of cs fuel "fst (run_requests cs fuel)" "snd (run_requests cs fuel)"]
  by (simp_all add: consume_def word_le_nat_alt opt_if_fuel_def)

text \<open>
  The fuel never wraps around: over any run of requests the granted costs and the fuel that is
  left add up to the fuel at the start, so the passes together do a bounded amount of work; a
  request is refused only if it exceeds what is left, and a pass without fuel returns its input.
\<close>

theorem fuel_accounts:
  "sum_list (map unat (fst (run_requests cs fuel))) + unat (snd (run_requests cs fuel)) = unat fuel
   \<and> (fst (consume c fuel) \<longleftrightarrow> unat c \<le> unat fuel)
   \<and> opt_if_fuel new original 0 = (original, 0)"
  by (intro conjI) (rule fuel_accounts_parts)+

end
