(* ===== verification/Methods.thy ===== *)
theory Methods
  imports TypeCheck OptFuel
begin

text \<open>
  Basic blocks, method bodies and method definitions (\<^verbatim>\<open>cilly/src/ir/basic_block.rs\<close>, \<^verbatim>\<open>method.rs\<close>)
  as far as the optimizer reads them, and the program: the assembly with its method definitions.
\<close>


section \<open>Basic blocks\<close>

datatype basic_block =
  BasicBlock (bb_roots: "cil_root list") (bb_id: u32) (bb_handler: "basic_block list option")
    (bb_handler_id: "u32 option")

fun iter_roots :: "basic_block \<Rightarrow> cil_root list" where
  "iter_roots (BasicBlock rs _ h _) = rs @ (case h of Some bs \<Rightarrow> concat (map iter_roots bs) | None \<Rightarrow> [])"

fun is_nop_or_sfi :: "cil_root \<Rightarrow> bool" where
  "is_nop_or_sfi RNop = True"
| "is_nop_or_sfi (RSourceFileInfo _ _ _ _ _) = True"
| "is_nop_or_sfi _ = False"

definition meaningfull_roots :: "basic_block \<Rightarrow> cil_root list" where
  "meaningfull_roots b = filter (\<lambda>r. \<not> is_nop_or_sfi r) (iter_roots b)"

text \<open>Visiting the roots of a block in place, its own before those of its handler, is a map.\<close>

fun map_block_roots :: "(cil_root \<Rightarrow> cil_root) \<Rightarrow> basic_block \<Rightarrow> basic_block" where
  "map_block_roots f (BasicBlock rs i h hi) =
     BasicBlock (map f rs) i (map_option (map (map_block_roots f)) h) hi"

lemma iter_roots_map_block: "iter_roots (map_block_roots f b) = map f (iter_roots b)"
proof (induction f b rule: map_block_roots.induct)
  case (1 f rs i h hi)
  then show ?case by (cases h) (auto simp: map_concat comp_def intro!: arg_cong [where f = concat])
qed

section \<open>Method bodies\<close>

datatype exception_region = ExceptionRegion (er_protected: u32) (er_handler_entry: u32)

datatype pinvoke_call_conv = Winapi | Cdecl | Stdcall | Thiscall | Fastcall

datatype method_impl =
    MethodBody "basic_block list" "local_def list"
  | Extern string "string option" pinvoke_call_conv bool
  | AliasFor method_ref
  | Missing
  | RegionBody "basic_block list" "basic_block list" "exception_region list" "local_def list"

text \<open>The fields of \<^verbatim>\<open>MethodDef\<close> that the optimizer reads.\<close>

record method_def =
  md_class :: class_ref
  md_name :: string
  md_sig :: fn_sig
  md_kind :: method_kind
  md_impl :: method_impl

record program = assembly +
  method_defs :: "method_ref \<rightharpoonup> method_def"

text \<open>
  \<^verbatim>\<open>resolved_implementation\<close> follows aliases; \<open>Inl\<close> is its \<^verbatim>\<open>expect\<close> on an alias for a method that is
  not defined, \<open>None\<close> a chain of aliases that does not end.
\<close>

partial_function (option) resolve_impl ::
  "'a program_scheme \<Rightarrow> method_impl \<Rightarrow> (unit + method_impl) option" where
  "resolve_impl p impl =
     (case impl of
        AliasFor m \<Rightarrow>
          (case method_defs p m of
             None \<Rightarrow> Some (Inl ())
           | Some d \<Rightarrow> resolve_impl p (md_impl d))
      | _ \<Rightarrow> Some (Inr impl))"

text \<open>\<^verbatim>\<open>all_blocks_mut\<close> and \<^verbatim>\<open>body_parts_mut\<close>, with the body rebuilt from the parts.\<close>

fun all_blocks :: "method_impl \<Rightarrow> basic_block list option" where
  "all_blocks (MethodBody bs _) = Some bs"
| "all_blocks (RegionBody bs cs _ _) = Some (bs @ cs)"
| "all_blocks _ = None"

fun body_parts :: "method_impl \<Rightarrow> (basic_block list \<times> basic_block list \<times> local_def list) option" where
  "body_parts (MethodBody bs ls) = Some (bs, [], ls)"
| "body_parts (RegionBody bs cs _ ls) = Some (bs, cs, ls)"
| "body_parts _ = None"

fun map_blocks :: "(basic_block \<Rightarrow> basic_block) \<Rightarrow> method_impl \<Rightarrow> method_impl" where
  "map_blocks f (MethodBody bs ls) = MethodBody (map f bs) ls"
| "map_blocks f (RegionBody bs cs rs ls) = RegionBody (map f bs) (map f cs) rs ls"
| "map_blocks f impl = impl"

lemma all_blocks_map_blocks [simp]: "all_blocks (map_blocks f impl) = map_option (map f) (all_blocks impl)"
  by (cases impl) simp_all


section \<open>Panics of the optimizer\<close>

text \<open>
  Where a pass panics instead of returning: a panic inside the type checker, a slot index out of
  range, a constant remainder by zero, an alias for an undefined method, an alias chain that does
  not end, the \<^verbatim>\<open>todo!()\<close> of a float zero and that of an indirect call.
\<close>

datatype opt_panic =
    TypecheckPanicked
  | LocalIndex u32
  | ArgIndex u32
  | RemByZero
  | AliasForExtern
  | AliasCycle
  | ZeroTodo
  | CallITodo

end
