(* ===== verification/Effects.thy ===== *)
theory Effects
  imports CilIr
begin

text \<open>
  The effect analysis of the optimizer (\<^verbatim>\<open>cilly/src/ir/opt/side_effect.rs\<close>): the lattice of effects,
  the effect of each node, and the summary of a tree with its memo table.
\<close>


section \<open>The effect lattice\<close>

text \<open>\<^verbatim>\<open>EffectSummary\<close> is a bit set in a byte.\<close>

type_synonym effect_summary = u8

abbreviation (input) PURE_TOTAL :: effect_summary where "PURE_TOTAL \<equiv> 0"
abbreviation (input) MAY_THROW :: effect_summary where "MAY_THROW \<equiv> 1"
abbreviation (input) MAY_RUN_TYPE_INIT :: effect_summary where "MAY_RUN_TYPE_INIT \<equiv> 2"
abbreviation (input) MAY_WRITE_MEMORY :: effect_summary where "MAY_WRITE_MEMORY \<equiv> 4"
abbreviation (input) MAY_ALTER_CONTROL :: effect_summary where "MAY_ALTER_CONTROL \<equiv> 8"
abbreviation (input) MAY_ALLOCATE :: effect_summary where "MAY_ALLOCATE \<equiv> 16"
abbreviation (input) MAY_READ_VOLATILE_MEMORY :: effect_summary where "MAY_READ_VOLATILE_MEMORY \<equiv> 32"

definition is_pure_total :: "effect_summary \<Rightarrow> bool" where
  "is_pure_total e \<longleftrightarrow> e = 0"

definition effect_contains :: "effect_summary \<Rightarrow> effect_summary \<Rightarrow> bool" where
  "effect_contains self effect \<longleftrightarrow> self AND effect = effect"

definition effect_union :: "effect_summary \<Rightarrow> effect_summary \<Rightarrow> effect_summary" where
  "effect_union self other = self OR other"

text \<open>The effect of a node itself, its children aside.\<close>

fun own_effect :: "cil_node \<Rightarrow> effect_summary" where
  "own_effect (NBinOp _ _ op) = (if op \<in> {Div, DivUn, Rem, RemUn} then MAY_THROW else PURE_TOTAL)"
| "own_effect (NConst _) = PURE_TOTAL"
| "own_effect (NLdLoc _) = PURE_TOTAL"
| "own_effect (NLdArg _) = PURE_TOTAL"
| "own_effect (NLdLocA _) = PURE_TOTAL"
| "own_effect (NLdArgA _) = PURE_TOTAL"
| "own_effect (NLdTypeToken _) = PURE_TOTAL"
| "own_effect (NLdFtn _) = PURE_TOTAL"
| "own_effect (NSizeOf _) = PURE_TOTAL"
| "own_effect (NUnOp _ _) = PURE_TOTAL"
| "own_effect (NRefToPtr _) = PURE_TOTAL"
| "own_effect (NIntCast _ _ _) = PURE_TOTAL"
| "own_effect (NFloatCast _ _ _) = PURE_TOTAL"
| "own_effect (NPtrCast _ _) = PURE_TOTAL"
| "own_effect (NCall _ _ is_pure) =
     (let effect = effect_union (effect_union MAY_THROW MAY_RUN_TYPE_INIT) MAY_ALTER_CONTROL in
      if \<not> is_pure then effect_union effect MAY_WRITE_MEMORY else effect)"
| "own_effect (NCallI _ _ _) = effect_union (effect_union MAY_THROW MAY_WRITE_MEMORY) MAY_ALTER_CONTROL"
| "own_effect (NLdFieldAddress _ _) = MAY_THROW"
| "own_effect (NLdField _ _) = MAY_THROW"
| "own_effect (NLdLen _) = MAY_THROW"
| "own_effect (NLdElelemRef _ _) = MAY_THROW"
| "own_effect (NLdElem _ _ _) = MAY_THROW"
| "own_effect (NUnboxAny _ _) = MAY_THROW"
| "own_effect (NIsInst _ _) = MAY_THROW"
| "own_effect (NCheckedCast _ _) = MAY_THROW"
| "own_effect (NLdInd _ _ volatile) =
     (if volatile then effect_union MAY_THROW MAY_READ_VOLATILE_MEMORY else MAY_THROW)"
| "own_effect NGetException = MAY_ALTER_CONTROL"
| "own_effect (NLocAllocAlgined _ _) = effect_union MAY_ALLOCATE MAY_THROW"
| "own_effect (NLocAlloc _) = effect_union MAY_ALLOCATE MAY_THROW"
| "own_effect (NNewArr _ _) = effect_union (effect_union MAY_ALLOCATE MAY_THROW) MAY_RUN_TYPE_INIT"
| "own_effect (NBox _ _) = effect_union (effect_union MAY_ALLOCATE MAY_THROW) MAY_RUN_TYPE_INIT"
| "own_effect (NLdStaticField _) = effect_union MAY_RUN_TYPE_INIT MAY_THROW"
| "own_effect (NLdStaticFieldAddress _) = effect_union MAY_RUN_TYPE_INIT MAY_THROW"

section \<open>The cached analysis\<close>

text \<open>
  \<^verbatim>\<open>EffectInfoCache::summary\<close>, the cache threaded through the children; a node is entered after
  its children.
\<close>

type_synonym effect_cache = "cil_node \<rightharpoonup> effect_summary"

function cached_summary :: "cil_node \<Rightarrow> effect_cache \<Rightarrow> effect_summary \<times> effect_cache"
and visit_summaries :: "cil_node list \<Rightarrow> effect_summary \<Rightarrow> effect_cache \<Rightarrow> effect_summary \<times> effect_cache"
where
  "cached_summary node cache =
     (case cache node of
        Some e \<Rightarrow> (e, cache)
      | None \<Rightarrow>
          (let (e, cache) = visit_summaries (child_nodes node) (own_effect node) cache in
           (e, cache(node \<mapsto> e))))"
| "visit_summaries [] e cache = (e, cache)"
| "visit_summaries (c # cs) e cache =
     (let (s, cache) = cached_summary c cache in visit_summaries cs (effect_union e s) cache)"
  by pat_completeness auto

termination
  by (relation "measures
       [\<lambda>x. case x of Inl (n, _) \<Rightarrow> 2 * size n + 1 | Inr (ns, _, _) \<Rightarrow> sum_list (map (\<lambda>n. 2 * size n + 1) ns),
        \<lambda>x. case x of Inl _ \<Rightarrow> 0 | Inr (ns, _, _) \<Rightarrow> Suc (length ns)]")
    (use child_nodes_weight in \<open>auto simp: neq_Nil_conv\<close>)

declare cached_summary.simps [simp del]

text \<open>Without the cache.\<close>

lemma child_nodes_size_term [termination_simp]: "c \<in> set (child_nodes n) \<Longrightarrow> size c < size n"
  by (rule child_nodes_size)

fun effect_of :: "cil_node \<Rightarrow> effect_summary" where
  "effect_of n = foldl effect_union (own_effect n) (map effect_of (child_nodes n))"

declare effect_of.simps [simp del]

definition cache_ok :: "effect_cache \<Rightarrow> bool" where
  "cache_ok cache \<longleftrightarrow> (\<forall>n e. cache n = Some e \<longrightarrow> e = effect_of n)"

lemma cached_summary_spec:
  "cache_ok cache \<Longrightarrow> \<exists>cache'. cached_summary n cache = (effect_of n, cache') \<and> cache_ok cache' \<and> cache \<subseteq>\<^sub>m cache' \<and> cache' n \<noteq> None"
  "cache_ok cache \<Longrightarrow> \<exists>cache'. visit_summaries ns e cache = (foldl effect_union e (map effect_of ns), cache') \<and> cache_ok cache' \<and> cache \<subseteq>\<^sub>m cache'"
proof (induction n cache and ns e cache rule: cached_summary_visit_summaries.induct)
  case (1 node cache)
  show ?case
  proof (cases "cache node")
    case None
    then obtain cache' where c: "visit_summaries (child_nodes node) (own_effect node) cache = (effect_of node, cache')"
        "cache_ok cache'" "cache \<subseteq>\<^sub>m cache'"
      using 1 by (auto simp: effect_of.simps [of node])
    moreover have "cache \<subseteq>\<^sub>m cache'(node \<mapsto> effect_of node)" using c(3) None by (auto simp: map_le_def)
    ultimately show ?thesis using None by (auto simp: cached_summary.simps [of node] cache_ok_def)
  next
    case (Some e)
    then show ?thesis using 1(2) by (auto simp: cached_summary.simps [of node] cache_ok_def)
  qed
next
  case (3 c cs e cache)
  from 3(1) [OF 3(3)] obtain c1 where c1: "cached_summary c cache = (effect_of c, c1)" "cache_ok c1" "cache \<subseteq>\<^sub>m c1" by blast
  from 3(2) [OF c1(1) [symmetric] refl c1(2)] obtain c2 where
    "visit_summaries cs (effect_union e (effect_of c)) c1 = (foldl effect_union (effect_union e (effect_of c)) (map effect_of cs), c2)"
    "cache_ok c2" "c1 \<subseteq>\<^sub>m c2" by blast
  with c1 show ?case by (auto intro: map_le_trans)
qed auto

section \<open>What the analysis computes\<close>

lemma bit_foldl_union: "bit (foldl effect_union e es) k \<longleftrightarrow> bit e k \<or> (\<exists>x\<in>set es. bit x k)"
  by (induction es arbitrary: e) (auto simp: effect_union_def bit_or_iff)

lemma foldl_union_zero: "foldl effect_union e es = 0 \<longleftrightarrow> e = 0 \<and> (\<forall>x\<in>set es. x = 0)"
  by (induction es arbitrary: e) (auto simp: effect_union_def or_eq_0_iff)

text \<open>The nodes the iterator yields are the nodes whose effects are joined.\<close>

lemma bit_effect_of: "bit (effect_of n) k \<longleftrightarrow> (\<exists>m. ENode m \<in> set (cil_iter [ENode n]) \<and> bit (own_effect m) k)"
proof (induction n rule: effect_of.induct)
  case (1 n)
  have "bit (effect_of n) k \<longleftrightarrow> bit (own_effect n) k \<or> (\<exists>c\<in>set (child_nodes n). bit (effect_of c) k)"
    by (simp add: effect_of.simps [of n] bit_foldl_union)
  also have "\<dots> \<longleftrightarrow> bit (own_effect n) k
      \<or> (\<exists>c\<in>set (child_nodes n). \<exists>m. ENode m \<in> set (cil_iter [ENode c]) \<and> bit (own_effect m) k)"
    using 1 by auto
  also have "\<dots> \<longleftrightarrow> (\<exists>m. ENode m \<in> set (cil_iter [ENode n]) \<and> bit (own_effect m) k)"
    by (subst cil_iter_node) auto
  finally show ?case .
qed

lemma own_effect_ldelem_ref: "is_ldelem_ref n \<Longrightarrow> own_effect n \<noteq> 0"
  by (cases n) simp_all

lemma pure_subterms: "effect_of n = 0 \<longleftrightarrow> (\<forall>m\<in>set (subterms n). own_effect m = 0)"
proof (induction n rule: subterms.induct)
  case (1 n)
  show ?case
  proof (cases "own_effect n = 0")
    case True
    then have "operands n = child_nodes n" using own_effect_ldelem_ref operands_eq_child_nodes by blast
    then show ?thesis using 1 True
      by (auto simp: effect_of.simps [of n] subterms.simps [of n] foldl_union_zero)
  next
    case False
    then show ?thesis by (auto simp: effect_of.simps [of n] subterms.simps [of n] foldl_union_zero)
  qed
qed

lemma pure_operands: "effect_of n = 0 \<Longrightarrow> c \<in> set (operands n) \<Longrightarrow> effect_of c = 0"
  unfolding pure_subterms by (auto simp: subterms.simps [of n])

lemma cached_summary_correct_parts:
  assumes "cache_ok cache"
  shows "bit (fst (cached_summary n cache)) k
           \<longleftrightarrow> (\<exists>m. ENode m \<in> set (cil_iter [ENode n]) \<and> bit (own_effect m) k)"
    and "cache_ok (snd (cached_summary n cache))"
    and "cache \<subseteq>\<^sub>m snd (cached_summary n cache)"
    and "snd (cached_summary n cache) n = Some (fst (cached_summary n cache))"
proof -
  from cached_summary_spec(1) [OF assms, of n] obtain c where
    c: "cached_summary n cache = (effect_of n, c)" "cache_ok c" "cache \<subseteq>\<^sub>m c" "c n \<noteq> None" by blast
  then show "bit (fst (cached_summary n cache)) k
           \<longleftrightarrow> (\<exists>m. ENode m \<in> set (cil_iter [ENode n]) \<and> bit (own_effect m) k)"
    by (simp add: bit_effect_of)
  show "cache_ok (snd (cached_summary n cache))" "cache \<subseteq>\<^sub>m snd (cached_summary n cache)"
    using c by simp_all
  show "snd (cached_summary n cache) n = Some (fst (cached_summary n cache))"
    using c by (auto simp: cache_ok_def)
qed

text \<open>
  C34. From a coherent cache the analysis returns the join of the effects of exactly the nodes the
  iterator yields, whatever is cached, and leaves a coherent cache that has an entry for the node
  and keeps the old entries.
\<close>

theorem cached_summary_correct:
  assumes "cache_ok cache"
  shows "(bit (fst (cached_summary n cache)) k
           \<longleftrightarrow> (\<exists>m. ENode m \<in> set (cil_iter [ENode n]) \<and> bit (own_effect m) k))
    \<and> cache_ok (snd (cached_summary n cache))
    \<and> cache \<subseteq>\<^sub>m snd (cached_summary n cache)
    \<and> snd (cached_summary n cache) n = Some (fst (cached_summary n cache))"
  by (intro conjI) (rule cached_summary_correct_parts [OF assms])+

theorem cached_summary_correct_witness:
  "cache_ok (snd (cached_summary (NBinOp (NLdLoc 0) (NLdLoc 0) Div) (Map.empty(NLdLoc 0 \<mapsto> PURE_TOTAL))))"
  by (rule cached_summary_correct [THEN conjunct2, THEN conjunct1]) (simp add: cache_ok_def effect_of.simps)

fun total_op :: "cil_node \<Rightarrow> bool" where
  "total_op (NBinOp _ _ op) = (op \<notin> {Div, DivUn, Rem, RemUn})"
| "total_op n = (case n of
     NConst _ \<Rightarrow> True | NLdLoc _ \<Rightarrow> True | NLdArg _ \<Rightarrow> True | NLdLocA _ \<Rightarrow> True | NLdArgA _ \<Rightarrow> True
   | NLdTypeToken _ \<Rightarrow> True | NLdFtn _ \<Rightarrow> True | NSizeOf _ \<Rightarrow> True | NUnOp _ _ \<Rightarrow> True | NRefToPtr _ \<Rightarrow> True
   | NIntCast _ _ _ \<Rightarrow> True | NFloatCast _ _ _ \<Rightarrow> True | NPtrCast _ _ \<Rightarrow> True | _ \<Rightarrow> False)"

lemma own_effect_total: "own_effect n = 0 \<longleftrightarrow> total_op n"
  by (cases n) (simp_all add: effect_union_def Let_def)

lemma pure_total_iff_parts:
  "is_pure_total (effect_of n) \<longleftrightarrow> list_all total_op (subterms n)"
  "fst (cached_summary n Map.empty) = effect_of n"
proof -
  show "is_pure_total (effect_of n) \<longleftrightarrow> list_all total_op (subterms n)"
    by (simp add: is_pure_total_def pure_subterms own_effect_total list_all_iff)
  have "cache_ok Map.empty" by (simp add: cache_ok_def)
  from cached_summary_spec(1) [OF this, of n] show "fst (cached_summary n Map.empty) = effect_of n" by auto
qed

text \<open>
  C35. The summary permits deletion only for trees built from constants, reads and addresses of
  locals and arguments, type tokens, function pointers, sizes, unary operators, conversions and
  binary operators other than division and remainder; every other node anywhere in the tree,
  index operands included, leaves an effect.
\<close>

theorem pure_total_iff:
  "(is_pure_total (effect_of n) \<longleftrightarrow> list_all total_op (subterms n))
   \<and> fst (cached_summary n Map.empty) = effect_of n"
  by (rule conjI) (rule pure_total_iff_parts)+

end
