(* ===== verification/RootOpt.thy ===== *)
theory RootOpt
  imports Methods Effects
begin

text \<open>
  The peephole pass on roots (\<^verbatim>\<open>cilly/src/ir/opt/root.rs\<close>): deleted roots, stores through the address
  of a local, zero initialisation and the fusion of comparisons into branches, with the meaning of
  branch conditions against which the fusion is proved.
\<close>


section \<open>Branch conditions\<close>

definition negation_cmp_kind ::
  "'a assembly_scheme \<Rightarrow> fn_sig \<Rightarrow> local_def list \<Rightarrow> cil_node \<Rightarrow> cmp_kind \<Rightarrow> cmp_kind
     \<Rightarrow> (opt_panic, cmp_kind) result" where
  "negation_cmp_kind asm sig locals operand int_kind float_kind =
     (case node_typecheck asm sig locals operand of
        Inl e \<Rightarrow> if e = TcPanic then Inl TypecheckPanicked else Inr int_kind
      | Inr t \<Rightarrow> Inr (case t of TFloat _ \<Rightarrow> float_kind | _ \<Rightarrow> int_kind))"

definition optimized_branch ::
  "u32 \<Rightarrow> u32 \<Rightarrow> branch_cond option \<Rightarrow> cil_root \<Rightarrow> opt_fuel \<Rightarrow> cil_root \<times> opt_fuel" where
  "optimized_branch target sub_target cond original fuel =
     opt_if_fuel (RBranch target sub_target cond) original fuel"

fun is_zero_const :: "cil_const \<Rightarrow> bool" where
  "is_zero_const (CBool b) = (\<not> b)"
| "is_zero_const (CISize v) = (v = 0)"
| "is_zero_const (CUSize v) = (v = 0)"
| "is_zero_const (CI64 v) = (v = 0)"
| "is_zero_const (CU64 v) = (v = 0)"
| "is_zero_const (CI32 v) = (v = 0)"
| "is_zero_const (CU32 v) = (v = 0)"
| "is_zero_const (CI16 v) = (v = 0)"
| "is_zero_const (CU16 v) = (v = 0)"
| "is_zero_const (CI8 v) = (v = 0)"
| "is_zero_const (CU8 v) = (v = 0)"
| "is_zero_const _ = False"

fun true_branch_condition :: "cil_node \<Rightarrow> cil_node \<Rightarrow> bin_op \<Rightarrow> branch_cond option" where
  "true_branch_condition lhs rhs Eq = Some (BCEq lhs rhs)"
| "true_branch_condition lhs rhs GtUn = Some (BCGt lhs rhs Unordered)"
| "true_branch_condition lhs rhs Gt = Some (BCGt lhs rhs Ordered)"
| "true_branch_condition lhs rhs LtUn = Some (BCLt lhs rhs Unordered)"
| "true_branch_condition lhs rhs Lt = Some (BCLt lhs rhs Ordered)"
| "true_branch_condition _ _ _ = None"

definition false_branch_condition ::
  "'a assembly_scheme \<Rightarrow> fn_sig \<Rightarrow> local_def list \<Rightarrow> cil_node \<Rightarrow> cil_node \<Rightarrow> bin_op
     \<Rightarrow> (opt_panic, branch_cond option) result" where
  "false_branch_condition asm sig locals lhs rhs op =
     (if op = Eq then Inr (Some (BCNe lhs rhs))
      else if op = Gt \<or> op = GtUn then
        (let (int_kind, float_kind) = (if op = Gt then (Ordered, Unordered) else (Unordered, Ordered)) in
         rbind (negation_cmp_kind asm sig locals lhs int_kind float_kind) (\<lambda>k. Inr (Some (BCLe lhs rhs k))))
      else if op = Lt \<or> op = LtUn then
        (let (int_kind, float_kind) = (if op = Lt then (Ordered, Unordered) else (Unordered, Ordered)) in
         rbind (negation_cmp_kind asm sig locals lhs int_kind float_kind) (\<lambda>k. Inr (Some (BCGe lhs rhs k))))
      else Inr None)"

section \<open>Zero initialisation\<close>

definition opt_init_obj :: "cil_node \<Rightarrow> cil_type \<Rightarrow> opt_fuel \<Rightarrow> (opt_panic, cil_root \<times> opt_fuel) result" where
  "opt_init_obj addr t fuel =
     (let (addr, fuel) =
        (case addr of
           NRefToPtr inner \<Rightarrow> (let (ok, fuel) = consume 1 fuel in (if ok then inner else addr, fuel))
         | _ \<Rightarrow> (addr, fuel))
      in case t of
        TInt i \<Rightarrow>
          if (case int_size i of Some sz \<Rightarrow> sz | None \<Rightarrow> 8) \<le> 8
          then (let (ok, fuel) = consume 1 fuel in
                Inr (if ok then RStInd addr (NConst (int_zero i)) t False else RInitObj addr t, fuel))
          else Inr (RInitObj addr t, fuel)
      | TFloat f \<Rightarrow>
          (let (ok, fuel) = consume 1 fuel in
           if ok \<and> (float_size f = 32 \<or> float_size f = 64)
           then (case float_zero f of
                   Inl _ \<Rightarrow> Inl ZeroTodo
                 | Inr z \<Rightarrow> Inr (RStInd addr (NConst z) t False, fuel))
           else Inr (RInitObj addr t, fuel))
      | TBool \<Rightarrow>
          (let (ok, fuel) = consume 1 fuel in
           Inr (if ok then RStInd addr (NConst (CBool False)) t False else RInitObj addr t, fuel))
      | _ \<Rightarrow> Inr (RInitObj addr t, fuel))"

section \<open>The peephole pass on roots\<close>

text \<open>One definition per kind of branch condition; the result keeps the root when nothing applies.\<close>

definition opt_branch_false ::
  "'a assembly_scheme \<Rightarrow> fn_sig \<Rightarrow> local_def list \<Rightarrow> u32 \<Rightarrow> u32 \<Rightarrow> cil_node \<Rightarrow> opt_fuel
     \<Rightarrow> (opt_panic, cil_root \<times> opt_fuel) result" where
  "opt_branch_false asm sig locals target sub_target c fuel =
     (let root = RBranch target sub_target (Some (BCFalse c)) in
      case c of
        NConst cst \<Rightarrow>
          (case cst of
             CBool b \<Rightarrow>
               Inr (if \<not> b then optimized_branch target sub_target None root fuel else opt_if_fuel RNop root fuel)
           | _ \<Rightarrow> Inr (root, fuel))
      | NBinOp lhs rhs op \<Rightarrow>
          rbind (false_branch_condition asm sig locals lhs rhs op) (\<lambda>cond.
          case cond of
            Some cond \<Rightarrow> Inr (optimized_branch target sub_target (Some cond) root fuel)
          | None \<Rightarrow> Inr (root, fuel))
      | _ \<Rightarrow> Inr (root, fuel))"

definition opt_branch_true :: "u32 \<Rightarrow> u32 \<Rightarrow> cil_node \<Rightarrow> opt_fuel \<Rightarrow> cil_root \<times> opt_fuel" where
  "opt_branch_true target sub_target c fuel =
     (let root = RBranch target sub_target (Some (BCTrue c)) in
      case c of
        NBinOp lhs rhs op \<Rightarrow>
          (case true_branch_condition lhs rhs op of
             Some cond \<Rightarrow> optimized_branch target sub_target (Some cond) root fuel
           | None \<Rightarrow> (root, fuel))
      | _ \<Rightarrow> (root, fuel))"

fun zero_node :: "cil_node \<Rightarrow> bool" where
  "zero_node (NConst c) = is_zero_const c"
| "zero_node _ = False"

fun true_node :: "cil_node \<Rightarrow> bool" where
  "true_node (NConst c) = (c = CBool True)"
| "true_node _ = False"

definition opt_branch_ne :: "u32 \<Rightarrow> u32 \<Rightarrow> cil_node \<Rightarrow> cil_node \<Rightarrow> opt_fuel \<Rightarrow> cil_root \<times> opt_fuel" where
  "opt_branch_ne target sub_target lhs rhs fuel =
     (let root = RBranch target sub_target (Some (BCNe lhs rhs)) in
      if zero_node rhs then optimized_branch target sub_target (Some (BCTrue lhs)) root fuel
      else if true_node rhs then optimized_branch target sub_target (Some (BCFalse lhs)) root fuel
      else if zero_node lhs then optimized_branch target sub_target (Some (BCTrue rhs)) root fuel
      else (root, fuel))"

definition opt_branch_eq :: "u32 \<Rightarrow> u32 \<Rightarrow> cil_node \<Rightarrow> cil_node \<Rightarrow> opt_fuel \<Rightarrow> cil_root \<times> opt_fuel" where
  "opt_branch_eq target sub_target lhs rhs fuel =
     (let root = RBranch target sub_target (Some (BCEq lhs rhs)) in
      if zero_node rhs then optimized_branch target sub_target (Some (BCFalse lhs)) root fuel
      else if zero_node lhs then optimized_branch target sub_target (Some (BCFalse rhs)) root fuel
      else (root, fuel))"

text \<open>A store through the address of a local indexes the locals, which panics out of range.\<close>

definition opt_st_ind ::
  "local_def list \<Rightarrow> cil_node \<Rightarrow> cil_node \<Rightarrow> cil_type \<Rightarrow> bool \<Rightarrow> (opt_panic, cil_root) result" where
  "opt_st_ind locals addr v t volatile =
     (case addr of
        NLdLocA loc \<Rightarrow>
          if volatile then Inr (RStInd addr v t volatile)
          else rbind (ok_or (nth_opt locals (unat loc)) (LocalIndex loc)) (\<lambda>l.
            Inr (if snd l = t then RStLoc loc v else RStInd addr v t volatile))
      | _ \<Rightarrow> Inr (RStInd addr v t volatile))"

fun root_opt ::
  "'a assembly_scheme \<Rightarrow> fn_sig \<Rightarrow> local_def list \<Rightarrow> cil_root \<Rightarrow> opt_fuel
     \<Rightarrow> (opt_panic, cil_root \<times> opt_fuel) result" where
  "root_opt asm sig locals (RPop n) fuel =
     Inr (case n of
            NLdLoc _ \<Rightarrow> RNop
          | _ \<Rightarrow> if is_pure_total (effect_of n) then RNop else RPop n, fuel)"
| "root_opt asm sig locals (RStInd addr v t volatile) fuel =
     rbind (opt_st_ind locals addr v t volatile) (\<lambda>r. Inr (r, fuel))"
| "root_opt asm sig locals (RSetField fd addr v) fuel =
     Inr (RSetField fd (case addr of NRefToPtr inner \<Rightarrow> inner | _ \<Rightarrow> addr) v, fuel)"
| "root_opt asm sig locals (RInitObj addr t) fuel = opt_init_obj addr t fuel"
| "root_opt asm sig locals (RBranch target sub_target (Some (BCFalse c))) fuel =
     opt_branch_false asm sig locals target sub_target c fuel"
| "root_opt asm sig locals (RBranch target sub_target (Some (BCTrue c))) fuel =
     Inr (opt_branch_true target sub_target c fuel)"
| "root_opt asm sig locals (RBranch target sub_target (Some (BCNe lhs rhs))) fuel =
     Inr (opt_branch_ne target sub_target lhs rhs fuel)"
| "root_opt asm sig locals (RBranch target sub_target (Some (BCEq lhs rhs))) fuel =
     Inr (opt_branch_eq target sub_target lhs rhs fuel)"
| "root_opt asm sig locals (RStLoc loc v) fuel = Inr (if v = NLdLoc loc then RNop else RStLoc loc v, fuel)"
| "root_opt asm sig locals (RStArg a v) fuel = Inr (if v = NLdArg a then RNop else RStArg a v, fuel)"
| "root_opt asm sig locals root fuel = Inr (root, fuel)"

section \<open>What a branch condition means\<close>

text \<open>
  The values of the evaluation stack that comparisons see: 32-bit and 64-bit integers (a word is 64
  bits on the targets of the code generator) and floats, \<open>None\<close> being NaN, over any linear order.
\<close>

datatype 'o sval = VI32 u32 | VI64 u64 | VF "'o option"

text \<open>The comparison instructions (ECMA-335 III.3): \<^verbatim>\<open>ceq\<close>, \<^verbatim>\<open>clt\<close>, \<^verbatim>\<open>clt.un\<close>, \<^verbatim>\<open>cgt\<close>, \<^verbatim>\<open>cgt.un\<close>.\<close>

fun clt :: "'o::linorder sval \<Rightarrow> 'o sval \<Rightarrow> bool option" where
  "clt (VI32 a) (VI32 b) = Some (a <s b)"
| "clt (VI64 a) (VI64 b) = Some (a <s b)"
| "clt (VF a) (VF b) = Some (case (a, b) of (Some x, Some y) \<Rightarrow> x < y | _ \<Rightarrow> False)"
| "clt _ _ = None"

fun clt_un :: "'o::linorder sval \<Rightarrow> 'o sval \<Rightarrow> bool option" where
  "clt_un (VI32 a) (VI32 b) = Some (a < b)"
| "clt_un (VI64 a) (VI64 b) = Some (a < b)"
| "clt_un (VF a) (VF b) = Some (case (a, b) of (Some x, Some y) \<Rightarrow> x < y | _ \<Rightarrow> True)"
| "clt_un _ _ = None"

fun ceq :: "'o::linorder sval \<Rightarrow> 'o sval \<Rightarrow> bool option" where
  "ceq (VI32 a) (VI32 b) = Some (a = b)"
| "ceq (VI64 a) (VI64 b) = Some (a = b)"
| "ceq (VF a) (VF b) = Some (case (a, b) of (Some x, Some y) \<Rightarrow> x = y | _ \<Rightarrow> False)"
| "ceq _ _ = None"

fun compare_vals :: "bin_op \<Rightarrow> 'o::linorder sval \<Rightarrow> 'o sval \<Rightarrow> bool option" where
  "compare_vals Eq a b = ceq a b"
| "compare_vals Lt a b = clt a b"
| "compare_vals LtUn a b = clt_un a b"
| "compare_vals Gt a b = clt b a"
| "compare_vals GtUn a b = clt_un b a"
| "compare_vals _ _ _ = None"

text \<open>
  The branch instructions the exporter emits for each condition (\<^verbatim>\<open>emit_branch\<close> in
  \<^verbatim>\<open>pe_exporter/body.rs\<close>): \<^verbatim>\<open>bge\<close> negates \<^verbatim>\<open>clt\<close> on integers and \<^verbatim>\<open>clt.un\<close> on floats, \<^verbatim>\<open>bge.un\<close> the
  other way around, and likewise \<^verbatim>\<open>ble\<close>.
\<close>

fun unordered_kind :: "cmp_kind \<Rightarrow> bool" where
  "unordered_kind k = (k = Unordered \<or> k = Unsigned)"

fun lt_branch :: "cmp_kind \<Rightarrow> 'o::linorder sval \<Rightarrow> 'o sval \<Rightarrow> bool option" where
  "lt_branch k a b = (if unordered_kind k then clt_un a b else clt a b)"

fun ge_branch :: "cmp_kind \<Rightarrow> 'o::linorder sval \<Rightarrow> 'o sval \<Rightarrow> bool option" where
  "ge_branch k (VF a) b = map_option HOL.Not (if unordered_kind k then clt (VF a) b else clt_un (VF a) b)"
| "ge_branch k a b = map_option HOL.Not (if unordered_kind k then clt_un a b else clt a b)"

fun truth :: "'o sval \<Rightarrow> bool option" where
  "truth (VI32 w) = Some (w \<noteq> 0)"
| "truth (VI64 w) = Some (w \<noteq> 0)"
| "truth (VF _) = None"

text \<open>Evaluation of the operands is a parameter.\<close>

definition ev2 :: "(cil_node \<Rightarrow> 'o sval option) \<Rightarrow> ('o sval \<Rightarrow> 'o sval \<Rightarrow> 'c option) \<Rightarrow> cil_node \<Rightarrow> cil_node \<Rightarrow> 'c option" where
  "ev2 ev f l r = (case (ev l, ev r) of (Some a, Some b) \<Rightarrow> f a b | _ \<Rightarrow> None)"

fun cond_taken :: "(cil_node \<Rightarrow> 'o::linorder sval option) \<Rightarrow> branch_cond \<Rightarrow> bool option" where
  "cond_taken ev (BCTrue c) = Option.bind (ev c) truth"
| "cond_taken ev (BCFalse c) = map_option HOL.Not (Option.bind (ev c) truth)"
| "cond_taken ev (BCEq l r) = ev2 ev ceq l r"
| "cond_taken ev (BCNe l r) = map_option HOL.Not (ev2 ev ceq l r)"
| "cond_taken ev (BCLt l r k) = ev2 ev (lt_branch k) l r"
| "cond_taken ev (BCGt l r k) = ev2 ev (\<lambda>a b. lt_branch k b a) l r"
| "cond_taken ev (BCLe l r k) = ev2 ev (\<lambda>a b. ge_branch k b a) l r"
| "cond_taken ev (BCGe l r k) = ev2 ev (ge_branch k) l r"

text \<open>Where a branch root goes: \<open>Some (Some (t, u))\<close> if it jumps, \<open>Some None\<close> if it falls through.\<close>

fun branch_goes :: "(cil_node \<Rightarrow> 'o::linorder sval option) \<Rightarrow> cil_root \<Rightarrow> (u32 \<times> u32) option option" where
  "branch_goes ev (RBranch t u None) = Some (Some (t, u))"
| "branch_goes ev (RBranch t u (Some c)) = map_option (\<lambda>b. if b then Some (t, u) else None) (cond_taken ev c)"
| "branch_goes ev RNop = Some None"
| "branch_goes ev _ = None"

text \<open>
  The values of a type, and what an evaluator of operands must satisfy: constants have their value,
  comparisons are computed by the comparison instructions, and a value has the type the checker
  gives its node. Generic markers have no value at run time.
\<close>

fun has_type :: "'o sval \<Rightarrow> cil_type \<Rightarrow> bool" where
  "has_type v (TFloat _) = (case v of VF _ \<Rightarrow> True | _ \<Rightarrow> False)"
| "has_type v TBool = (v = VI32 0 \<or> v = VI32 1)"
| "has_type v (TInt i) =
     (case v of VI32 _ \<Rightarrow> i \<in> {I8, U8, I16, U16, I32, U32} | VI64 _ \<Rightarrow> i \<in> {I64, U64, ISize, USize} | VF _ \<Rightarrow> False)"
| "has_type v (TPlatformGeneric _ _) = False"
| "has_type v _ = (case v of VI64 _ \<Rightarrow> True | _ \<Rightarrow> False)"

fun const_val :: "cil_const \<Rightarrow> 'o sval option" where
  "const_val (CI8 v) = Some (VI32 (scast v))"
| "const_val (CI16 v) = Some (VI32 (scast v))"
| "const_val (CI32 v) = Some (VI32 v)"
| "const_val (CU8 v) = Some (VI32 (ucast v))"
| "const_val (CU16 v) = Some (VI32 (ucast v))"
| "const_val (CU32 v) = Some (VI32 v)"
| "const_val (CI64 v) = Some (VI64 v)"
| "const_val (CU64 v) = Some (VI64 v)"
| "const_val (CISize v) = Some (VI64 v)"
| "const_val (CUSize v) = Some (VI64 v)"
| "const_val (CBool b) = Some (VI32 (if b then 1 else 0))"
| "const_val _ = None"

definition evaluates_consts :: "(cil_node \<Rightarrow> 'o sval option) \<Rightarrow> bool" where
  "evaluates_consts ev \<longleftrightarrow> (\<forall>c v. const_val c = Some v \<longrightarrow> ev (NConst c) = Some v)"

definition evaluates_comparisons :: "(cil_node \<Rightarrow> 'o::linorder sval option) \<Rightarrow> bool" where
  "evaluates_comparisons ev \<longleftrightarrow>
     (\<forall>l r op. is_comparison op \<longrightarrow>
        ev (NBinOp l r op) = map_option (\<lambda>b. VI32 (if b then 1 else 0)) (ev2 ev (compare_vals op) l r))"

definition evaluates_typed ::
  "'a assembly_scheme \<Rightarrow> fn_sig \<Rightarrow> local_def list \<Rightarrow> (cil_node \<Rightarrow> 'o sval option) \<Rightarrow> bool" where
  "evaluates_typed asm sig locals ev \<longleftrightarrow>
     (\<forall>n t v. node_typecheck asm sig locals n = Inr t \<longrightarrow> ev n = Some v \<longrightarrow> has_type v t)"

section \<open>Fused branches\<close>

lemma Not_Eq_Some [simp]: "map_option HOL.Not x = Some b \<longleftrightarrow> x = Some (\<not> b)"
  by (cases x) auto

lemma ev2_eq_Some: "ev2 ev f l r = Some c \<longleftrightarrow> (\<exists>a b. ev l = Some a \<and> ev r = Some b \<and> f a b = Some c)"
  by (auto simp: ev2_def split: option.splits)

lemma comparison_truth:
  assumes "evaluates_comparisons ev" "is_comparison op"
  shows "Option.bind (ev (NBinOp l r op)) truth = ev2 ev (compare_vals op) l r"
  using assms by (cases "ev2 ev (compare_vals op) l r") (auto simp: evaluates_comparisons_def)

lemma true_branch_condition_sound:
  assumes "evaluates_comparisons ev" "true_branch_condition l r op = Some c"
  shows "cond_taken ev c = cond_taken ev (BCTrue (NBinOp l r op))"
  using assms(2) comparison_truth [OF assms(1), of op l r] by (cases op) (auto simp: ev2_def split: option.splits)

text \<open>The negation of \<^verbatim>\<open>clt\<close> is \<^verbatim>\<open>bge\<close> on integers and \<^verbatim>\<open>bge.un\<close> on floats, and so on.\<close>

fun is_vf :: "'o sval \<Rightarrow> bool" where
  "is_vf (VF _) = True"
| "is_vf _ = False"

lemma ge_branch_negates:
  assumes "clt a b = Some x" "clt_un a b = Some y"
  shows "ge_branch k a b = Some (\<not> (if unordered_kind k \<longleftrightarrow> is_vf a then x else y))"
  using assms by (cases a; cases b) auto

lemma negation_cmp_kind_float:
  assumes "negation_cmp_kind asm sig locals n ik fk = Inr k" "evaluates_typed asm sig locals ev"
    and "ev n = Some v" "node_typecheck asm sig locals n = Inr t" "\<not> is_platform_generic t"
  shows "k = (if is_vf v then fk else ik)"
proof -
  have "has_type v t" using assms by (auto simp: evaluates_typed_def)
  then show ?thesis using assms(1,4) by (cases t) (auto simp: negation_cmp_kind_def split: sval.splits)
qed

lemma compare_vals_defined:
  "compare_vals Gt a b = Some x \<Longrightarrow> clt b a = Some x \<and> (\<exists>y. clt_un b a = Some y)"
  "compare_vals GtUn a b = Some x \<Longrightarrow> clt_un b a = Some x \<and> (\<exists>y. clt b a = Some y)"
  "compare_vals Lt a b = Some x \<Longrightarrow> clt a b = Some x \<and> (\<exists>y. clt_un a b = Some y)"
  "compare_vals LtUn a b = Some x \<Longrightarrow> clt_un a b = Some x \<and> (\<exists>y. clt a b = Some y)"
  by (cases a; cases b; simp)+

lemma same_kind: "clt a b = Some x \<Longrightarrow> is_vf a = is_vf b"
  by (cases a; cases b) simp_all

lemma false_branch_condition_sound:
  assumes ev: "evaluates_comparisons ev" "evaluates_typed asm sig locals ev"
    and c: "false_branch_condition asm sig locals l r op = Inr (Some c)"
    and t: "node_typecheck asm sig locals (NBinOp l r op) = Inr t"
    and taken: "cond_taken ev (BCFalse (NBinOp l r op)) = Some b"
  shows "cond_taken ev c = Some b"
proof -
  from c have cmp: "is_comparison op" by (auto simp: false_branch_condition_def split: if_splits)
  have "ev2 ev (compare_vals op) l r = Some (\<not> b)"
    using taken comparison_truth [OF ev(1) cmp, of l r] by (simp del: map_option_eq_Some)
  then obtain va vb where v: "ev l = Some va" "ev r = Some vb" "compare_vals op va vb = Some (\<not> b)"
    unfolding ev2_eq_Some by blast
  obtain lt where lt: "node_typecheck asm sig locals l = Inr lt" using t by (auto simp: rbind_eq_Inr)
  then have "has_type va lt" using ev(2) v by (auto simp: evaluates_typed_def)
  then have g: "\<not> is_platform_generic lt" by (cases lt) auto
  have k: "k = (if is_vf va then fk else ik)" if "negation_cmp_kind asm sig locals l ik fk = Inr k" for ik fk k
    using negation_cmp_kind_float [OF that ev(2) v(1) lt g] .
  show ?thesis
  proof (cases op)
    case Eq
    then show ?thesis using c v by (auto simp: false_branch_condition_def ev2_def)
  next
    case Gt
    with v(3) obtain y where d: "clt vb va = Some (\<not> b)" "clt_un vb va = Some y"
      using compare_vals_defined(1) by metis
    show ?thesis using c Gt v k ge_branch_negates [OF d] same_kind [OF d(1)]
      by (auto simp: false_branch_condition_def ev2_def rbind_eq_Inr simp del: ge_branch.simps dest!: k split: if_splits)
  next
    case GtUn
    with v(3) obtain y where d: "clt vb va = Some y" "clt_un vb va = Some (\<not> b)"
      using compare_vals_defined(2) by metis
    show ?thesis using c GtUn v k ge_branch_negates [OF d] same_kind [OF d(1)]
      by (auto simp: false_branch_condition_def ev2_def rbind_eq_Inr simp del: ge_branch.simps dest!: k split: if_splits)
  next
    case Lt
    with v(3) obtain y where d: "clt va vb = Some (\<not> b)" "clt_un va vb = Some y"
      using compare_vals_defined(3) by metis
    show ?thesis using c Lt v k ge_branch_negates [OF d]
      by (auto simp: false_branch_condition_def ev2_def rbind_eq_Inr simp del: ge_branch.simps dest!: k split: if_splits)
  next
    case LtUn
    with v(3) obtain y where d: "clt va vb = Some y" "clt_un va vb = Some (\<not> b)"
      using compare_vals_defined(4) by metis
    show ?thesis using c LtUn v k ge_branch_negates [OF d]
      by (auto simp: false_branch_condition_def ev2_def rbind_eq_Inr simp del: ge_branch.simps dest!: k split: if_splits)
  qed (use cmp in auto)
qed

lemma zero_const_cases: "is_zero_const c \<Longrightarrow> const_val c = Some (VI32 0) \<or> const_val c = Some (VI64 0)"
  by (cases c) (auto split: if_splits)

lemma ceq_zero:
  "ceq v (VI32 0) = Some b \<Longrightarrow> truth v = Some (\<not> b)" "ceq v (VI64 0) = Some b \<Longrightarrow> truth v = Some (\<not> b)"
  "ceq (VI32 0) v = Some b \<Longrightarrow> truth v = Some (\<not> b)" "ceq (VI64 0) v = Some b \<Longrightarrow> truth v = Some (\<not> b)"
  by (cases v; auto)+

lemma zero_node_compare:
  assumes "evaluates_consts ev" "zero_node z"
  shows "ev2 ev ceq n z = Some b \<Longrightarrow> Option.bind (ev n) truth = Some (\<not> b)"
    and "ev2 ev ceq z n = Some b \<Longrightarrow> Option.bind (ev n) truth = Some (\<not> b)"
proof -
  obtain c where c: "z = NConst c" "is_zero_const c" using assms(2) by (cases z) auto
  then have "ev z = Some (VI32 0) \<or> ev z = Some (VI64 0)"
    using zero_const_cases [of c] assms(1) by (auto simp: evaluates_consts_def)
  then show "ev2 ev ceq n z = Some b \<Longrightarrow> Option.bind (ev n) truth = Some (\<not> b)"
    and "ev2 ev ceq z n = Some b \<Longrightarrow> Option.bind (ev n) truth = Some (\<not> b)"
    by (auto simp: ev2_eq_Some dest: ceq_zero)
qed

lemma opt_if_fuel_eq: "\<exists>f'. opt_if_fuel new original fuel = (new, f') \<or> opt_if_fuel new original fuel = (original, f')"
  by (auto simp: opt_if_fuel_def consume_def)

lemma opt_if_fuel_goes:
  assumes "branch_goes ev original = Some g" "branch_goes ev new = Some g"
  shows "\<exists>r f'. opt_if_fuel new original fuel = (r, f') \<and> branch_goes ev r = Some g"
  using opt_if_fuel_eq [of new original fuel] assms by auto

lemma false_branch_no_panic:
  assumes "node_typecheck asm sig locals (NBinOp l r op) = Inr t"
  shows "\<exists>c. false_branch_condition asm sig locals l r op = Inr c"
  using assms by (auto simp: false_branch_condition_def negation_cmp_kind_def rbind_eq_Inr)

lemma opt_branch_false_sound:
  assumes ev: "evaluates_consts ev" "evaluates_comparisons ev" "evaluates_typed asm sig locals ev"
    and t: "node_typecheck asm sig locals c = Inr ty"
    and goes: "branch_goes ev (RBranch t u (Some (BCFalse c))) = Some g"
  shows "\<exists>r f'. opt_branch_false asm sig locals t u c fuel = Inr (r, f') \<and> branch_goes ev r = Some g"
proof (cases c)
  case (NConst k)
  then show ?thesis
  proof (cases k)
    case (CBool b)
    then have "ev c = Some (VI32 (if b then 1 else 0))" using ev(1) NConst by (auto simp: evaluates_consts_def)
    then have g: "g = (if b then None else Some (t, u))" using goes by auto
    show ?thesis using opt_if_fuel_goes [OF goes, of "RBranch t u None" fuel] opt_if_fuel_goes [OF goes, of RNop fuel] g
      by (auto simp: opt_branch_false_def NConst CBool optimized_branch_def Let_def)
  qed (use goes in \<open>auto simp: opt_branch_false_def Let_def\<close>)
next
  case (NBinOp l r op)
  obtain c' where c': "false_branch_condition asm sig locals l r op = Inr c'"
    using false_branch_no_panic t NBinOp by blast
  show ?thesis
  proof (cases c')
    case (Some cond)
    obtain b where b: "cond_taken ev (BCFalse c) = Some b" using goes by auto
    then have "cond_taken ev cond = Some b"
      using false_branch_condition_sound [OF ev(2,3)] c' Some t NBinOp by metis
    then have "branch_goes ev (RBranch t u (Some cond)) = Some g" using goes b by (auto simp del: map_option_eq_Some)
    then show ?thesis using opt_if_fuel_goes [OF goes, of _ fuel] c' Some
      by (auto simp: opt_branch_false_def NBinOp optimized_branch_def Let_def)
  qed (use goes c' in \<open>auto simp: opt_branch_false_def NBinOp Let_def\<close>)
qed (use goes in \<open>auto simp: opt_branch_false_def Let_def\<close>)

lemma opt_branch_true_sound:
  assumes "evaluates_comparisons ev" "branch_goes ev (RBranch t u (Some (BCTrue c))) = Some g"
  shows "\<exists>r f'. opt_branch_true t u c fuel = (r, f') \<and> branch_goes ev r = Some g"
proof (cases c)
  case (NBinOp l r op)
  show ?thesis
  proof (cases "true_branch_condition l r op")
    case (Some cond)
    have "branch_goes ev (RBranch t u (Some cond)) = Some g"
      using true_branch_condition_sound [OF assms(1) Some] assms(2) NBinOp by simp
    then show ?thesis using opt_if_fuel_goes [OF assms(2), of _ fuel] Some
      by (auto simp: opt_branch_true_def NBinOp optimized_branch_def Let_def)
  qed (use assms in \<open>auto simp: opt_branch_true_def NBinOp Let_def\<close>)
qed (use assms in \<open>auto simp: opt_branch_true_def Let_def\<close>)

text \<open>A value compared with the constant true has type boolean, so it is 0 or 1.\<close>

lemma assignable_to_bool: "is_assignable_to asm t TBool \<Longrightarrow> t = TBool \<or> is_platform_generic t"
  by (cases t) (auto simp: is_assignable_to.simps)

lemma true_node_compare:
  assumes ev: "evaluates_consts ev" "evaluates_typed asm sig locals ev" and z: "true_node z"
    and checked: "cond_typecheck asm sig locals (BCNe n z) = Inr ()" and c: "ev2 ev ceq n z = Some b"
  shows "Option.bind (ev n) truth = Some b"
proof -
  have z: "z = NConst (CBool True)" using z by (cases z) auto
  with ev(1) have one: "ev z = Some (VI32 1)" by (auto simp: evaluates_consts_def)
  obtain t where t: "node_typecheck asm sig locals n = Inr t" "is_assignable_to asm t TBool"
    using checked z by (auto simp: cond_typecheck_def branch_compare_typecheck_def rbind_eq_Inr split: if_splits)
  obtain v where v: "ev n = Some v" "ceq v (VI32 1) = Some b" using c one by (auto simp: ev2_eq_Some)
  have "has_type v t" using ev(2) t(1) v(1) by (auto simp: evaluates_typed_def)
  then have "v = VI32 0 \<or> v = VI32 1"
    using assignable_to_bool [OF t(2)] by (cases t) auto
  then show ?thesis using v by auto
qed

lemma opt_branch_compare_sound:
  assumes ev: "evaluates_consts ev" "evaluates_typed asm sig locals ev"
  shows "cond_typecheck asm sig locals (BCNe l r) = Inr () \<Longrightarrow> branch_goes ev (RBranch t u (Some (BCNe l r))) = Some g
     \<Longrightarrow> \<exists>r' f'. opt_branch_ne t u l r fuel = (r', f') \<and> branch_goes ev r' = Some g"
    and "branch_goes ev (RBranch t u (Some (BCEq l r))) = Some g
     \<Longrightarrow> \<exists>r' f'. opt_branch_eq t u l r fuel = (r', f') \<and> branch_goes ev r' = Some g"
proof -
  assume c: "cond_typecheck asm sig locals (BCNe l r) = Inr ()"
    and goes: "branch_goes ev (RBranch t u (Some (BCNe l r))) = Some g"
  then obtain b where b: "ev2 ev ceq l r = Some b" "g = (if b then None else Some (t, u))" by auto
  have "zero_node r \<Longrightarrow> branch_goes ev (RBranch t u (Some (BCTrue l))) = Some g"
    "zero_node l \<Longrightarrow> branch_goes ev (RBranch t u (Some (BCTrue r))) = Some g"
    "true_node r \<Longrightarrow> branch_goes ev (RBranch t u (Some (BCFalse l))) = Some g"
    using b zero_node_compare [OF ev(1)] true_node_compare [OF ev _ c] by (auto simp del: map_option_eq_Some)
  then show "\<exists>r' f'. opt_branch_ne t u l r fuel = (r', f') \<and> branch_goes ev r' = Some g"
    using opt_if_fuel_goes [OF goes, of _ fuel] goes unfolding opt_branch_ne_def optimized_branch_def Let_def by (auto simp del: branch_goes.simps split: if_splits)
next
  assume goes: "branch_goes ev (RBranch t u (Some (BCEq l r))) = Some g"
  then obtain b where b: "ev2 ev ceq l r = Some b" "g = (if b then Some (t, u) else None)" by auto
  have "zero_node r \<Longrightarrow> branch_goes ev (RBranch t u (Some (BCFalse l))) = Some g"
    "zero_node l \<Longrightarrow> branch_goes ev (RBranch t u (Some (BCFalse r))) = Some g"
    using b zero_node_compare [OF ev(1)] by (auto simp del: map_option_eq_Some)
  then show "\<exists>r' f'. opt_branch_eq t u l r fuel = (r', f') \<and> branch_goes ev r' = Some g"
    using opt_if_fuel_goes [OF goes, of _ fuel] goes unfolding opt_branch_eq_def optimized_branch_def Let_def by (auto simp del: branch_goes.simps split: if_splits)
qed

text \<open>
  C1. Branch fusion is sound. For a branch the type checker accepts, on operands that evaluate,
  integers of either width and floats with NaN alike, the pass does not panic and what it returns,
  a fused comparison branch, its negation, a test against zero, an unconditional branch or nothing
  at all, goes where the original branch goes.
\<close>

theorem branch_opt_preserves:
  assumes "evaluates_consts ev" "evaluates_comparisons ev" "evaluates_typed asm sig locals ev"
    and "root_typecheck asm sig locals (RBranch t u c) = Inr ()"
    and "branch_goes ev (RBranch t u c) = Some g"
  shows "\<exists>r fuel'. root_opt asm sig locals (RBranch t u c) fuel = Inr (r, fuel') \<and> branch_goes ev r = Some g"
proof (cases c)
  case (Some b)
  have c: "cond_typecheck asm sig locals b = Inr ()" using assms(4) Some by simp
  show ?thesis
  proof (cases b)
    case (BCFalse n)
    then obtain ty where "node_typecheck asm sig locals n = Inr ty"
      using c by (auto simp: cond_typecheck_def rbind_eq_Inr)
    then show ?thesis using opt_branch_false_sound [OF assms(1-3)] assms(5) Some BCFalse
      by (auto simp del: branch_goes.simps)
  next
    case (BCTrue n)
    then show ?thesis using opt_branch_true_sound [OF assms(2), of t u n g fuel] assms(5) Some
      by (auto simp del: branch_goes.simps)
  next
    case (BCNe l r)
    then show ?thesis using opt_branch_compare_sound(1) [OF assms(1,3), of l r t u g fuel] c assms(5) Some
      by (auto simp del: branch_goes.simps)
  next
    case (BCEq l r)
    then show ?thesis using opt_branch_compare_sound(2) [OF assms(1,3), of t u l r g fuel] assms(5) Some
      by (auto simp del: branch_goes.simps)
  qed (use assms(5) Some in auto)
qed (use assms(5) in auto)

text \<open>An evaluator that satisfies the conditions: constants, comparisons, and locals that hold NaN.\<close>

fun nan_ev :: "cil_node \<Rightarrow> int sval option" where
  "nan_ev (NConst c) = const_val c"
| "nan_ev (NLdLoc _) = Some (VF None)"
| "nan_ev (NBinOp l r op) =
     (if is_comparison op
      then (case (nan_ev l, nan_ev r) of
              (Some a, Some b) \<Rightarrow> map_option (\<lambda>b. VI32 (if b then 1 else 0)) (compare_vals op a b)
            | _ \<Rightarrow> None)
      else None)"
| "nan_ev _ = None"

lemma comparison_is_bool: "is_comparison op \<Longrightarrow> binop_typecheck op l r asm = Inr t \<Longrightarrow> t = TBool"
  by (cases op)
    (auto simp: typecheck_eq_def typecheck_compare_def compare_fallback_def Let_def
      split: if_splits cil_type.splits)

lemma nan_ev_evaluates:
  "evaluates_consts nan_ev" "evaluates_comparisons nan_ev"
  "evaluates_typed asm sig [(None, TFloat F64)] nan_ev"
proof -
  show "evaluates_consts nan_ev" by (simp add: evaluates_consts_def)
  show "evaluates_comparisons nan_ev" by (auto simp: evaluates_comparisons_def ev2_def split: option.splits)
  have "has_type v t" if "node_typecheck asm sig [(None, TFloat F64)] n = Inr t" "nan_ev n = Some v" for n t v
  proof (cases n)
    case (NConst c)
    with that show ?thesis by (cases c) auto
  next
    case (NBinOp l r op)
    from that(1) NBinOp obtain a b where ab: "binop_typecheck op a b asm = Inr t"
      by (auto simp: rbind_eq_Inr simp del: binop_typecheck.simps)
    have cmp: "is_comparison op"
      using that(2) NBinOp by (auto simp del: is_comparison.simps split: if_splits)
    then have "t = TBool" using ab by (rule comparison_is_bool)
    then show ?thesis using that(2) NBinOp cmp by (auto simp del: is_comparison.simps split: option.splits)
  qed (use that in \<open>auto simp: local_type_def ok_or_def split: option.splits\<close>)
  then show "evaluates_typed asm sig [(None, TFloat F64)] nan_ev" unfolding evaluates_typed_def by blast
qed

theorem branch_opt_preserves_witness:
  "\<exists>r fuel'. root_opt (\<lparr>class_defs = Map.empty\<rparr>) (FnSig [] TVoid) [(None, TFloat F64)]
       (RBranch 7 0 (Some (BCFalse (NBinOp (NLdLoc 0) (NLdLoc 0) Lt)))) 1 = Inr (r, fuel')
     \<and> branch_goes nan_ev r = Some (Some (7, 0))"
proof (rule branch_opt_preserves [OF nan_ev_evaluates])
  show "root_typecheck (\<lparr>class_defs = Map.empty\<rparr>) (FnSig [] TVoid) [(None, TFloat F64)]
      (RBranch 7 0 (Some (BCFalse (NBinOp (NLdLoc 0) (NLdLoc 0) Lt)))) = Inr ()"
    by (simp add: cond_typecheck_def local_type_def nth_opt_def typecheck_compare_def branch_bool_typecheck_def)
  show "branch_goes nan_ev (RBranch 7 0 (Some (BCFalse (NBinOp (NLdLoc 0) (NLdLoc 0) Lt)))) = Some (Some (7, 0))"
    by simp
qed

section \<open>Zero initialisation\<close>

lemma init_obj_address:
  "\<exists>a fu. (case addr of NRefToPtr inner \<Rightarrow> (let (ok, fuel) = consume 1 fuel in (if ok then inner else addr, fuel))
       | _ \<Rightarrow> (addr, fuel)) = (a, fu) \<and> (a = addr \<or> addr = NRefToPtr a)"
  by (cases addr) (auto simp: consume_def)

lemma float_size_not_bits: "float_size f \<noteq> 32" "float_size f \<noteq> 64"
  by (cases f; simp)+

lemma init_obj_shape:
  "\<exists>r fuel'. opt_init_obj addr t fuel = Inr (r, fuel') \<and>
     (\<exists>a. (a = addr \<or> addr = NRefToPtr a) \<and>
        (r = RInitObj a t
         \<or> (\<exists>z. r = RStInd a (NConst z) t False \<and> const_type z = t \<and> is_zero_const z)))"
proof -
  have z: "const_type (int_zero i) = TInt i" for i by (cases i) simp_all
  have zz: "is_zero_const (int_zero i)" if "(case int_size i of Some sz \<Rightarrow> sz | None \<Rightarrow> 8) \<le> 8" for i
    using that by (cases i) simp_all
  obtain a fu where
    eq: "(case addr of NRefToPtr inner \<Rightarrow> (let (ok, fuel) = consume 1 fuel in (if ok then inner else addr, fuel))
         | _ \<Rightarrow> (addr, fuel)) = (a, fu)" and a: "a = addr \<or> addr = NRefToPtr a"
    using init_obj_address by blast
  show ?thesis
  proof (cases t)
    case (TInt i)
    then show ?thesis using a z [of i] zz [of i] by (cases "consume 1 fu") (auto simp: opt_init_obj_def eq)
  next
    case TBool
    then show ?thesis using a by (cases "consume 1 fu") (auto simp: opt_init_obj_def eq)
  next
    case (TFloat f)
    then show ?thesis using a by (cases "consume 1 fu") (auto simp: opt_init_obj_def eq float_size_not_bits)
  qed (use a in \<open>auto simp: opt_init_obj_def eq\<close>)
qed

lemma init_obj_float: "\<exists>a fuel'. opt_init_obj addr (TFloat f) fuel = Inr (RInitObj a (TFloat f), fuel')"
proof -
  obtain a fu where
    "(case addr of NRefToPtr inner \<Rightarrow> (let (ok, fuel) = consume 1 fuel in (if ok then inner else addr, fuel))
         | _ \<Rightarrow> (addr, fuel)) = (a, fu)" using init_obj_address by blast
  then show ?thesis by (cases "consume 1 fu") (auto simp: opt_init_obj_def float_size_not_bits)
qed

lemma init_obj_opt_parts:
  "\<exists>r fuel'. root_opt asm sig locals (RInitObj addr t) fuel = Inr (r, fuel') \<and>
     (\<exists>a. (a = addr \<or> addr = NRefToPtr a) \<and>
        (r = RInitObj a t
         \<or> (\<exists>z. r = RStInd a (NConst z) t False \<and> const_type z = t \<and> is_zero_const z)))"
  "\<exists>a fuel'. root_opt asm sig locals (RInitObj addr (TFloat f)) fuel = Inr (RInitObj a (TFloat f), fuel')"
  using init_obj_shape init_obj_float by simp_all

text \<open>
  Zero initialisation never panics. It becomes a plain store only for booleans and for integers
  of at most 64 bits, and then stores the zero of exactly that type; otherwise it stays an
  initialisation of the same type. The address is kept up to one reference-to-pointer conversion.
  A float is never turned into a store, because its size in bytes is compared with sizes in bits.
\<close>

theorem init_obj_opt:
  "(\<exists>r fuel'. root_opt asm sig locals (RInitObj addr t) fuel = Inr (r, fuel') \<and>
     (\<exists>a. (a = addr \<or> addr = NRefToPtr a) \<and>
        (r = RInitObj a t
         \<or> (\<exists>z. r = RStInd a (NConst z) t False \<and> const_type z = t \<and> is_zero_const z))))
   \<and> (\<exists>a fuel'. root_opt asm sig locals (RInitObj addr (TFloat f)) fuel = Inr (RInitObj a (TFloat f), fuel'))"
  by (rule conjI) (rule init_obj_opt_parts)+

section \<open>Removed roots\<close>

lemma optimized_branch_not_nop: "optimized_branch t u c (RBranch t' u' c') fuel \<noteq> (RNop, f)"
  using opt_if_fuel_cases [of "RBranch t u c" "RBranch t' u' c'" fuel RNop f] by (auto simp: optimized_branch_def)

lemma opt_branch_nop:
  "opt_branch_true t u c fuel \<noteq> (RNop, f)" "opt_branch_ne t u x y fuel \<noteq> (RNop, f)" "opt_branch_eq t u x y fuel \<noteq> (RNop, f)"
  by (auto simp: opt_branch_true_def opt_branch_ne_def opt_branch_eq_def optimized_branch_not_nop Let_def
      split: cil_node.splits option.splits)

lemma opt_branch_false_nop:
  "opt_branch_false asm sig locals t u c fuel = Inr (RNop, f) \<Longrightarrow> c = NConst (CBool True)"
  by (auto simp: opt_branch_false_def optimized_branch_not_nop Let_def rbind_eq_Inr
      split: cil_node.splits cil_const.splits option.splits if_splits)

lemma opt_init_obj_not_nop: "opt_init_obj a t fuel \<noteq> Inr (RNop, f)"
  using init_obj_shape [of a t fuel] by auto

lemma opt_st_ind_not_nop: "opt_st_ind locals a v t vol \<noteq> Inr RNop"
  by (auto simp: opt_st_ind_def rbind_eq_Inr split: cil_node.splits)

text \<open>
  C37. The pass deletes a root only when that cannot be observed: the discarded value of a tree
  without effects, a local or argument stored to itself, or a branch on the constant true that is
  taken on false. Stores, calls and initialisations are never deleted.
\<close>

theorem root_opt_deletes:
  assumes "root_opt asm sig locals r fuel = Inr (RNop, fuel')"
  shows "r = RNop \<or> (\<exists>n. r = RPop n \<and> is_pure_total (effect_of n)) \<or> (\<exists>l. r = RStLoc l (NLdLoc l))
    \<or> (\<exists>a. r = RStArg a (NLdArg a)) \<or> (\<exists>t u. r = RBranch t u (Some (BCFalse (NConst (CBool True)))))"
proof (cases r)
  case (RPop n)
  have "is_pure_total (effect_of (NLdLoc l))" for l by (simp add: is_pure_total_def effect_of.simps)
  then show ?thesis using assms RPop by (cases n) (auto split: if_splits)
next
  case (RBranch t u c)
  then show ?thesis using assms opt_branch_nop opt_branch_false_nop
    by (cases c; cases "the c") auto
qed (use assms in \<open>auto simp: opt_init_obj_not_nop opt_st_ind_not_nop rbind_eq_Inr split: if_splits\<close>)

theorem root_opt_deletes_witness:
  "\<exists>n. RPop (NUnOp (NLdArg 0) Neg) = RPop n \<and> is_pure_total (effect_of n)"
proof -
  have "root_opt (\<lparr>class_defs = Map.empty\<rparr>) (FnSig [] TVoid) [] (RPop (NUnOp (NLdArg 0) Neg)) 0 = Inr (RNop, 0)"
    by (simp add: is_pure_total_def effect_of.simps effect_union_def)
  from root_opt_deletes [OF this] show ?thesis by auto
qed

end
