(* ===== verification/OptNode.thy ===== *)
theory OptNode
  imports Methods Effects "HOL-Library.Signed_Division"
begin

text \<open>
  The peephole pass on nodes (\<^verbatim>\<open>cilly/src/ir/opt/opt_node.rs\<close>): casts, sizes, constant arithmetic, loads
  and calls of methods that return a constant, with the proof that types are preserved and, against
  a reference evaluator of integer trees, that values are.
\<close>


section \<open>Calls of methods that return a constant\<close>

definition constant_return_of_body :: "method_impl \<Rightarrow> cil_const option" where
  "constant_return_of_body impl =
     (case (case impl of
              MethodBody blocks _ \<Rightarrow> Some blocks
            | RegionBody blocks cleanup regions _ \<Rightarrow> if cleanup = [] \<and> regions = [] then Some blocks else None
            | _ \<Rightarrow> None) of
        Some [block] \<Rightarrow>
          if bb_handler block \<noteq> None then None
          else (case meaningfull_roots block of
                  [RRet (NConst c)] \<Rightarrow> Some c
                | _ \<Rightarrow> None)
      | _ \<Rightarrow> None)"

definition constant_return_from_definition ::
  "'a program_scheme \<Rightarrow> method_def \<Rightarrow> (opt_panic, cil_const option) result" where
  "constant_return_from_definition p d =
     (case resolve_impl p (md_impl d) of
        None \<Rightarrow> Inl AliasCycle
      | Some (Inl _) \<Rightarrow> Inl AliasForExtern
      | Some (Inr impl) \<Rightarrow> Inr (constant_return_of_body impl))"

definition constant_static_return ::
  "'a program_scheme \<Rightarrow> method_ref \<Rightarrow> class_ref \<Rightarrow> (opt_panic, cil_const option) result" where
  "constant_static_return p m caller_class =
     (if mref_kind m \<noteq> MStatic \<or> class_defs p (mref_class m) = None \<or> mref_class m \<noteq> caller_class then Inr None
      else case method_defs p m of
        None \<Rightarrow> Inr None
      | Some d \<Rightarrow>
          if md_kind d \<noteq> MStatic \<or> md_class d \<noteq> caller_class then Inr None
          else constant_return_from_definition p d)"

section \<open>Integer casts\<close>

definition opt_const_cast :: "cil_node \<Rightarrow> cil_const \<Rightarrow> cil_int \<Rightarrow> extend_kind \<Rightarrow> opt_fuel \<Rightarrow> cil_node \<times> opt_fuel" where
  "opt_const_cast original cst target ext fuel =
     (case (cst, target) of
        (CU64 v, USize) \<Rightarrow> opt_if_fuel (NConst (CUSize v)) original fuel
      | (CI64 v, ISize) \<Rightarrow> opt_if_fuel (NConst (CISize v)) original fuel
      | (CU64 v, U64) \<Rightarrow> opt_if_fuel (NConst (CU64 v)) original fuel
      | (CI64 v, I64) \<Rightarrow> opt_if_fuel (NConst (CI64 v)) original fuel
      | (CU32 v, U32) \<Rightarrow> opt_if_fuel (NConst (CU32 v)) original fuel
      | (CI32 v, I32) \<Rightarrow> opt_if_fuel (NConst (CI32 v)) original fuel
      | (CI32 v, U32) \<Rightarrow> opt_if_fuel (NConst (CU32 v)) original fuel
      | (CU64 v, U8) \<Rightarrow> opt_if_fuel (NConst (CU8 (ucast v))) original fuel
      | (CI32 v, USize) \<Rightarrow>
          (case ext of
             SignExtend \<Rightarrow> opt_if_fuel (NConst (CUSize (scast v))) original fuel
           | ZeroExtend \<Rightarrow> opt_if_fuel (NConst (CUSize (ucast v))) original fuel)
      | _ \<Rightarrow> (original, fuel))"

definition same_width_casts :: "cil_int \<Rightarrow> cil_int \<Rightarrow> bool" where
  "same_width_casts a b \<longleftrightarrow>
     (a \<in> {USize, ISize} \<and> b \<in> {USize, ISize}) \<or> (a \<in> {U64, I64} \<and> b \<in> {U64, I64})
     \<or> (a \<in> {U32, I32} \<and> b \<in> {U32, I32})"

definition opt_int_cast ::
  "cil_node \<Rightarrow> cil_node \<Rightarrow> cil_int \<Rightarrow> extend_kind \<Rightarrow> opt_fuel \<Rightarrow> cil_node \<times> opt_fuel" where
  "opt_int_cast original input target ext fuel =
     (case input of
        NLdField _ fd \<Rightarrow> if fd_type fd = TInt target then (input, fuel) else (original, fuel)
      | NConst cst \<Rightarrow> opt_const_cast original cst target ext fuel
      | NIntCast input2 target2 ext2 \<Rightarrow>
          if target = target2 \<and> ext = ext2 then opt_if_fuel input original fuel
          else if same_width_casts target target2
          then opt_if_fuel (NIntCast input2 target ext2) original fuel
          else (original, fuel)
      | _ \<Rightarrow> (original, fuel))"

section \<open>Arithmetic on constants\<close>

text \<open>
  \<^verbatim>\<open>wrapping_rem\<close> truncates towards zero, wraps on the smallest number divided by minus one, and
  panics on zero.
\<close>

definition wrapping_rem :: "'w::len word \<Rightarrow> 'w word \<Rightarrow> ('w word \<Rightarrow> cil_const) \<Rightarrow> (opt_panic, cil_node) result" where
  "wrapping_rem a b con = (if b = 0 then Inl RemByZero else Inr (NConst (con (a mod b))))"

definition wrapping_srem :: "'w::len word \<Rightarrow> 'w word \<Rightarrow> ('w word \<Rightarrow> cil_const) \<Rightarrow> (opt_panic, cil_node) result" where
  "wrapping_srem a b con =
     (if b = 0 then Inl RemByZero else Inr (NConst (con (word_of_int (sint a smod sint b)))))"

definition rem_consts :: "cil_node \<Rightarrow> cil_const \<Rightarrow> cil_const \<Rightarrow> (opt_panic, cil_node) result" where
  "rem_consts original x y =
     (case x of
        CU8 a \<Rightarrow> (case y of CU8 b \<Rightarrow> wrapping_rem a b CU8 | _ \<Rightarrow> Inr original)
      | CU16 a \<Rightarrow> (case y of CU16 b \<Rightarrow> wrapping_rem a b CU16 | _ \<Rightarrow> Inr original)
      | CU32 a \<Rightarrow> (case y of CU32 b \<Rightarrow> wrapping_rem a b CU32 | _ \<Rightarrow> Inr original)
      | CU64 a \<Rightarrow> (case y of CU64 b \<Rightarrow> wrapping_rem a b CU64 | _ \<Rightarrow> Inr original)
      | CU128 a \<Rightarrow> (case y of CU128 b \<Rightarrow> wrapping_rem a b CU128 | _ \<Rightarrow> Inr original)
      | CUSize a \<Rightarrow> (case y of CUSize b \<Rightarrow> wrapping_rem a b CUSize | _ \<Rightarrow> Inr original)
      | CI8 a \<Rightarrow> (case y of CI8 b \<Rightarrow> wrapping_srem a b CI8 | _ \<Rightarrow> Inr original)
      | CI16 a \<Rightarrow> (case y of CI16 b \<Rightarrow> wrapping_srem a b CI16 | _ \<Rightarrow> Inr original)
      | CI32 a \<Rightarrow> (case y of CI32 b \<Rightarrow> wrapping_srem a b CI32 | _ \<Rightarrow> Inr original)
      | CI64 a \<Rightarrow> (case y of CI64 b \<Rightarrow> wrapping_srem a b CI64 | _ \<Rightarrow> Inr original)
      | CI128 a \<Rightarrow> (case y of CI128 b \<Rightarrow> wrapping_srem a b CI128 | _ \<Rightarrow> Inr original)
      | CISize a \<Rightarrow> (case y of CISize b \<Rightarrow> wrapping_srem a b CISize | _ \<Rightarrow> Inr original)
      | _ \<Rightarrow> Inr original)"

definition mul_consts :: "cil_node \<Rightarrow> cil_const \<Rightarrow> cil_const \<Rightarrow> cil_node" where
  "mul_consts original x y =
     (case x of
        CU8 a \<Rightarrow> (case y of CU8 b \<Rightarrow> NConst (CU8 (a * b)) | _ \<Rightarrow> original)
      | CU16 a \<Rightarrow> (case y of CU16 b \<Rightarrow> NConst (CU16 (a * b)) | _ \<Rightarrow> original)
      | CU32 a \<Rightarrow> (case y of CU32 b \<Rightarrow> NConst (CU32 (a * b)) | _ \<Rightarrow> original)
      | CU64 a \<Rightarrow> (case y of CU64 b \<Rightarrow> NConst (CU64 (a * b)) | _ \<Rightarrow> original)
      | CU128 a \<Rightarrow> (case y of CU128 b \<Rightarrow> NConst (CU128 (a * b)) | _ \<Rightarrow> original)
      | CUSize a \<Rightarrow> (case y of CUSize b \<Rightarrow> NConst (CUSize (a * b)) | _ \<Rightarrow> original)
      | CI8 a \<Rightarrow> (case y of CI8 b \<Rightarrow> NConst (CI8 (a * b)) | _ \<Rightarrow> original)
      | CI16 a \<Rightarrow> (case y of CI16 b \<Rightarrow> NConst (CI16 (a * b)) | _ \<Rightarrow> original)
      | CI32 a \<Rightarrow> (case y of CI32 b \<Rightarrow> NConst (CI32 (a * b)) | _ \<Rightarrow> original)
      | CI64 a \<Rightarrow> (case y of CI64 b \<Rightarrow> NConst (CI64 (a * b)) | _ \<Rightarrow> original)
      | CI128 a \<Rightarrow> (case y of CI128 b \<Rightarrow> NConst (CI128 (a * b)) | _ \<Rightarrow> original)
      | CISize a \<Rightarrow> (case y of CISize b \<Rightarrow> NConst (CISize (a * b)) | _ \<Rightarrow> original)
      | _ \<Rightarrow> original)"

fun const_is :: "(cil_const \<Rightarrow> bool) \<Rightarrow> cil_node \<Rightarrow> bool" where
  "const_is P (NConst c) = P c"
| "const_is P _ = False"

lemma const_is_iff: "const_is P n \<longleftrightarrow> (\<exists>c. n = NConst c \<and> P c)"
  by (cases n) simp_all

definition opt_add_sub :: "cil_node \<Rightarrow> cil_node \<Rightarrow> bin_op \<Rightarrow> cil_node" where
  "opt_add_sub lhs rhs op =
     (if const_is is_zero lhs \<and> op \<noteq> Sub then rhs
      else if const_is is_zero rhs then lhs
      else NBinOp lhs rhs op)"

text \<open>Two constants of one type.\<close>

definition same_type_consts :: "cil_node \<Rightarrow> cil_node \<Rightarrow> (cil_const \<times> cil_const) option" where
  "same_type_consts lhs rhs =
     (case lhs of
        NConst a \<Rightarrow> (case rhs of NConst b \<Rightarrow> if const_type a = const_type b then Some (a, b) else None | _ \<Rightarrow> None)
      | _ \<Rightarrow> None)"

lemma same_type_consts_iff:
  "same_type_consts l r = Some (a, b) \<longleftrightarrow> l = NConst a \<and> r = NConst b \<and> const_type a = const_type b"
proof (cases "\<exists>x. l = NConst x")
  case True
  then show ?thesis by (cases r) (auto simp: same_type_consts_def split: if_splits)
next
  case False
  then show ?thesis by (cases l) (auto simp: same_type_consts_def)
qed

definition opt_rem :: "cil_node \<Rightarrow> cil_node \<Rightarrow> bin_op \<Rightarrow> (opt_panic, cil_node) result" where
  "opt_rem lhs rhs op =
     (case same_type_consts lhs rhs of
        Some (a, b) \<Rightarrow> rem_consts (NBinOp lhs rhs op) a b
      | None \<Rightarrow> Inr (NBinOp lhs rhs op))"

definition opt_mul :: "cil_node \<Rightarrow> cil_node \<Rightarrow> cil_node" where
  "opt_mul lhs rhs =
     (case same_type_consts lhs rhs of
        Some (a, b) \<Rightarrow> mul_consts (NBinOp lhs rhs Mul) a b
      | None \<Rightarrow>
          if const_is is_one lhs then rhs
          else if const_is is_one rhs then lhs
          else NBinOp lhs rhs Mul)"

section \<open>Loads\<close>

definition opt_size_of :: "cil_type \<Rightarrow> opt_fuel \<Rightarrow> cil_node \<times> opt_fuel" where
  "opt_size_of t fuel =
     (case t of
        TInt i \<Rightarrow>
          (case int_size i of
             Some sz \<Rightarrow> opt_if_fuel (NConst (CI32 (ucast sz))) (NSizeOf t) fuel
           | None \<Rightarrow> (NSizeOf t, fuel))
      | TFloat f \<Rightarrow> opt_if_fuel (NConst (CI32 (ucast (float_size f)))) (NSizeOf t) fuel
      | _ \<Rightarrow> (NSizeOf t, fuel))"

definition opt_ld_ind :: "cil_node \<Rightarrow> cil_type \<Rightarrow> bool \<Rightarrow> opt_fuel \<Rightarrow> cil_node \<times> opt_fuel" where
  "opt_ld_ind addr t volatile fuel =
     (let original = NLdInd addr t volatile in
      case addr of
        NRefToPtr inner \<Rightarrow> opt_if_fuel (NLdInd inner t volatile) original fuel
      | NLdLocA loc \<Rightarrow> if \<not> volatile then opt_if_fuel (NLdLoc loc) original fuel else (original, fuel)
      | NLdArgA a \<Rightarrow> if \<not> volatile then opt_if_fuel (NLdArg a) original fuel else (original, fuel)
      | NLdFieldAddress addr2 fd \<Rightarrow>
          if fd_type fd = t then opt_if_fuel (NLdField addr2 fd) original fuel else (original, fuel)
      | _ \<Rightarrow> (original, fuel))"

definition opt_ld_field_address :: "cil_node \<Rightarrow> field_desc \<Rightarrow> cil_node" where
  "opt_ld_field_address addr fd =
     (case addr of
        NRefToPtr inner \<Rightarrow> NRefToPtr (NLdFieldAddress inner fd)
      | _ \<Rightarrow> NLdFieldAddress addr fd)"

definition opt_ld_field :: "cil_node \<Rightarrow> field_desc \<Rightarrow> opt_fuel \<Rightarrow> cil_node \<times> opt_fuel" where
  "opt_ld_field addr fd fuel =
     (let original = NLdField addr fd in
      case addr of
        NRefToPtr inner \<Rightarrow> opt_if_fuel (NLdField inner fd) original fuel
      | NLdLocA loc \<Rightarrow> opt_if_fuel (NLdField (NLdLoc loc) fd) original fuel
      | NLdArgA a \<Rightarrow> opt_if_fuel (NLdField (NLdArg a) fd) original fuel
      | NLdFieldAddress addr2 fd2 \<Rightarrow> opt_if_fuel (NLdField (NLdField addr2 fd2) fd) original fuel
      | NLdInd addr2 t _ \<Rightarrow>
          if t = TClassRef (fd_owner fd) then opt_if_fuel (NLdField addr2 fd) original fuel
          else (original, fuel)
      | _ \<Rightarrow> (original, fuel))"

definition opt_call ::
  "'a program_scheme \<Rightarrow> fn_sig \<Rightarrow> local_def list \<Rightarrow> class_ref \<Rightarrow> method_ref \<Rightarrow> cil_node list \<Rightarrow> bool \<Rightarrow> opt_fuel
     \<Rightarrow> (opt_panic, cil_node \<times> opt_fuel) result" where
  "opt_call p sig locals caller_class m args is_pure fuel =
     (let original = NCall m args is_pure; checked = node_typecheck p sig locals original in
      if checked = Inl TcPanic then Inl TypecheckPanicked
      else rbind (constant_static_return p m caller_class) (\<lambda>v.
        case v of
          Some c \<Rightarrow>
            if (case checked of Inr _ \<Rightarrow> True | Inl _ \<Rightarrow> False) \<and> list_all (\<lambda>a. is_pure_total (effect_of a)) args
            then Inr (opt_if_fuel (NConst c) original fuel)
            else Inr (original, fuel)
        | None \<Rightarrow> Inr (original, fuel)))"

section \<open>The peephole pass on nodes\<close>

fun opt_node ::
  "'a program_scheme \<Rightarrow> fn_sig \<Rightarrow> local_def list \<Rightarrow> class_ref \<Rightarrow> cil_node \<Rightarrow> opt_fuel
     \<Rightarrow> (opt_panic, cil_node \<times> opt_fuel) result" where
  "opt_node p sig locals caller (NSizeOf t) fuel = Inr (opt_size_of t fuel)"
| "opt_node p sig locals caller (NIntCast input target ext) fuel =
     Inr (opt_int_cast (NIntCast input target ext) input target ext fuel)"
| "opt_node p sig locals caller (NCall m args is_pure) fuel = opt_call p sig locals caller m args is_pure fuel"
| "opt_node p sig locals caller (NLdInd addr t volatile) fuel = Inr (opt_ld_ind addr t volatile fuel)"
| "opt_node p sig locals caller (NLdFieldAddress addr fd) fuel = Inr (opt_ld_field_address addr fd, fuel)"
| "opt_node p sig locals caller (NBinOp lhs rhs op) fuel =
     (if op = Add \<or> op = Sub then Inr (opt_add_sub lhs rhs op, fuel)
      else if op = Rem \<or> op = RemUn then rbind (opt_rem lhs rhs op) (\<lambda>n. Inr (n, fuel))
      else if op = Mul then Inr (opt_mul lhs rhs, fuel)
      else Inr (NBinOp lhs rhs op, fuel))"
| "opt_node p sig locals caller (NLdField addr fd) fuel = Inr (opt_ld_field addr fd fuel)"
| "opt_node p sig locals caller n fuel = Inr (n, fuel)"

section \<open>Types are preserved\<close>

text \<open>
  Nodes whose rewriting keeps the checked type: calls are excluded, because the constant a callee
  returns may have a type that is only assignable to its output, and so are arithmetic nodes on
  operands of different types other than pointer arithmetic.
\<close>

fun pointer_like :: "cil_type \<Rightarrow> bool" where
  "pointer_like (TPtr _) = True"
| "pointer_like (TFnPtr _) = True"
| "pointer_like (TRef _) = True"
| "pointer_like _ = False"

fun uniform_operands :: "'a assembly_scheme \<Rightarrow> fn_sig \<Rightarrow> local_def list \<Rightarrow> cil_node \<Rightarrow> bool" where
  "uniform_operands asm sig locals (NBinOp l r op) =
     (case (node_typecheck asm sig locals l, node_typecheck asm sig locals r) of
        (Inr a, Inr b) \<Rightarrow>
          a = b \<or> (op \<noteq> Mul \<and> ((as_int a \<noteq> None \<and> pointer_like b) \<or> (pointer_like a \<and> as_int b \<noteq> None)))
      | _ \<Rightarrow> True)"
| "uniform_operands asm sig locals (NCall _ _ _) = False"
| "uniform_operands asm sig locals _ = True"

lemma ref_to_ptr_iff: "ref_to_ptr_typecheck a = Inr b \<longleftrightarrow> (\<exists>p. pointed_to a = Some p \<and> b = TPtr p)"
  by (cases a) (auto simp: ref_to_ptr_typecheck_def)

lemma pointed_to_iff: "pointed_to a = Some p \<longleftrightarrow> a = TPtr p \<or> a = TRef p"
  by (cases a) auto

lemma opt_size_of_typed:
  assumes "node_typecheck asm sig locals (NSizeOf t) = Inr u" "opt_size_of t fuel = (n, f)"
  shows "node_typecheck asm sig locals n = Inr u"
  using assms
  by (auto simp: opt_size_of_def split: cil_type.splits option.splits if_splits
      dest!: opt_if_fuel_cases)

lemma opt_const_cast_typed:
  assumes "node_typecheck asm sig locals original = Inr (TInt target)"
    and "opt_const_cast original c target ext fuel = (n, f)"
  shows "node_typecheck asm sig locals n = Inr (TInt target)"
proof -
  have *: "node_typecheck asm sig locals n = Inr (TInt target)"
    if "opt_if_fuel (NConst k) original fuel = (n, f)" "const_type k = TInt target" for k
    using that assms(1) opt_if_fuel_cases [OF that(1)] by auto
  show ?thesis using assms
    by (cases c; cases target) (auto simp: opt_const_cast_def split: extend_kind.splits dest!: *)
qed

lemma opt_int_cast_typed:
  assumes t: "node_typecheck asm sig locals (NIntCast input target ext) = Inr u"
    and o: "opt_int_cast (NIntCast input target ext) input target ext fuel = (n, f)"
  shows "node_typecheck asm sig locals n = Inr u"
proof -
  from t obtain a where a: "node_typecheck asm sig locals input = Inr a" "int_cast_typecheck target a = Inr u"
    by (auto simp: rbind_eq_Inr)
  have u: "u = TInt target" using a(2) by (cases a) (auto simp: int_cast_typecheck_def)
  show ?thesis
  proof (cases input)
    case (NConst c)
    have "opt_const_cast (NIntCast input target ext) c target ext fuel = (n, f)"
      using o NConst by (simp add: opt_int_cast_def)
    from opt_const_cast_typed [OF _ this] t u show ?thesis by blast
  next
    case (NLdField x fd)
    then show ?thesis using t o u a(1)
      by (auto simp: opt_int_cast_def rbind_eq_Inr ld_field_typecheck_def split: if_splits)
  next
    case (NIntCast input2 target2 ext2)
    obtain b where b: "node_typecheck asm sig locals input2 = Inr b" "int_cast_typecheck target2 b = Inr a"
      using a(1) NIntCast by (auto simp: rbind_eq_Inr)
    have "a = TInt target2" using b(2) by (cases b) (auto simp: int_cast_typecheck_def)
    moreover have "int_cast_typecheck target b = Inr (TInt target)"
      using b(2) by (cases b) (auto simp: int_cast_typecheck_def)
    ultimately show ?thesis using o NIntCast a u b t
      by (auto simp: opt_int_cast_def split: if_splits dest!: opt_if_fuel_cases)
  qed (use o t in \<open>auto simp: opt_int_cast_def\<close>)
qed

lemma opt_ld_ind_typed:
  assumes t: "node_typecheck asm sig locals (NLdInd addr tp vol) = Inr u" and o: "opt_ld_ind addr tp vol fuel = (n, f)"
  shows "node_typecheck asm sig locals n = Inr u"
proof -
  have self: "is_assignable_to asm x x" for x by (simp add: is_assignable_to.simps)
  show ?thesis
  proof (cases addr)
    case (NRefToPtr inner)
    have "node_typecheck asm sig locals (NLdInd inner tp vol) = Inr u"
      using t NRefToPtr
      by (auto simp: rbind_eq_Inr ref_to_ptr_iff ld_ind_typecheck_def split: if_splits)
    then show ?thesis using o t NRefToPtr
      by (auto simp: opt_ld_ind_def Let_def simp del: node_typecheck.simps dest!: opt_if_fuel_cases)
  next
    case (NLdLocA l)
    have "node_typecheck asm sig locals (NLdLoc l) = Inr u"
      using t NLdLocA by (auto simp: rbind_eq_Inr ld_ind_typecheck_def split: if_splits)
    then show ?thesis using o t NLdLocA
      by (auto simp: opt_ld_ind_def Let_def simp del: node_typecheck.simps split: if_splits dest!: opt_if_fuel_cases)
  next
    case (NLdArgA l)
    have "node_typecheck asm sig locals (NLdArg l) = Inr u"
      using t NLdArgA by (auto simp: rbind_eq_Inr ld_ind_typecheck_def split: if_splits)
    then show ?thesis using o t NLdArgA
      by (auto simp: opt_ld_ind_def Let_def simp del: node_typecheck.simps split: if_splits dest!: opt_if_fuel_cases)
  next
    case (NLdFieldAddress a2 fd)
    have "node_typecheck asm sig locals (NLdField a2 fd) = Inr u" if "fd_type fd = tp"
      using t NLdFieldAddress that
      by (auto simp: rbind_eq_Inr ld_ind_typecheck_def ld_field_typecheck_def ld_field_address_typecheck_def
          split: if_splits cil_type.splits)
    then show ?thesis using o t NLdFieldAddress
      by (auto simp: opt_ld_ind_def Let_def simp del: node_typecheck.simps split: if_splits dest!: opt_if_fuel_cases)
  qed (use o t in \<open>auto simp: opt_ld_ind_def Let_def simp del: node_typecheck.simps\<close>)
qed

lemma opt_ld_field_address_typed:
  assumes t: "node_typecheck asm sig locals (NLdFieldAddress addr fd) = Inr u"
  shows "node_typecheck asm sig locals (opt_ld_field_address addr fd) = Inr u"
proof (cases addr)
  case (NRefToPtr inner)
  with t show ?thesis
    by (auto simp: opt_ld_field_address_def rbind_eq_Inr ref_to_ptr_iff pointed_to_iff ld_field_address_typecheck_def
        validate_field_target_iff)
qed (use t in \<open>auto simp: opt_ld_field_address_def\<close>)

lemma opt_ld_field_typed:
  assumes t: "node_typecheck asm sig locals (NLdField addr fd) = Inr u" and o: "opt_ld_field addr fd fuel = (n, f)"
  shows "node_typecheck asm sig locals n = Inr u"
proof -
  obtain a where a: "node_typecheck asm sig locals addr = Inr a" "validate_field_target asm a fd = Inr ()" "u = fd_type fd"
    using t by (auto simp: rbind_eq_Inr ld_field_typecheck_def)
  have *: "node_typecheck asm sig locals (NLdField x fd) = Inr u"
    if "node_typecheck asm sig locals x = Inr b" "validate_field_target asm b fd = Inr ()" for x b
    using that a(3) by (simp add: ld_field_typecheck_def)
  show ?thesis
  proof (cases addr)
    case (NRefToPtr inner)
    then obtain b where "node_typecheck asm sig locals inner = Inr b" "validate_field_target asm b fd = Inr ()"
      using a by (auto simp: rbind_eq_Inr ref_to_ptr_iff pointed_to_iff validate_field_target_iff)
    from * [OF this] show ?thesis using o t NRefToPtr
      by (auto simp: opt_ld_field_def Let_def simp del: node_typecheck.simps dest!: opt_if_fuel_cases)
  next
    case (NLdLocA l)
    then obtain b where "node_typecheck asm sig locals (NLdLoc l) = Inr b" "validate_field_target asm b fd = Inr ()"
      using a by (auto simp: rbind_eq_Inr validate_field_target_iff)
    from * [OF this] show ?thesis using o t NLdLocA
      by (auto simp: opt_ld_field_def Let_def simp del: node_typecheck.simps dest!: opt_if_fuel_cases)
  next
    case (NLdArgA l)
    then obtain b where "node_typecheck asm sig locals (NLdArg l) = Inr b" "validate_field_target asm b fd = Inr ()"
      using a by (auto simp: rbind_eq_Inr validate_field_target_iff)
    from * [OF this] show ?thesis using o t NLdArgA
      by (auto simp: opt_ld_field_def Let_def simp del: node_typecheck.simps dest!: opt_if_fuel_cases)
  next
    case (NLdFieldAddress a2 fd2)
    then obtain b where "node_typecheck asm sig locals (NLdField a2 fd2) = Inr b" "validate_field_target asm b fd = Inr ()"
      using a by (auto simp: rbind_eq_Inr validate_field_target_iff ld_field_address_typecheck_def ld_field_typecheck_def)
    from * [OF this] show ?thesis using o t NLdFieldAddress
      by (auto simp: opt_ld_field_def Let_def simp del: node_typecheck.simps dest!: opt_if_fuel_cases)
  next
    case (NLdInd a2 tp vol)
    show ?thesis
    proof (cases "tp = TClassRef (fd_owner fd)")
      case True
      obtain b p where b: "node_typecheck asm sig locals a2 = Inr b" "pointed_to b = Some p" "a = p"
          "is_assignable_to asm p tp"
        using a NLdInd by (auto simp: rbind_eq_Inr ld_ind_typecheck_def ok_or_def split: option.splits if_splits)
      have "validate_field_target asm b fd = Inr ()"
        using a(2) b True by (cases b) (auto simp: validate_field_target_iff is_assignable_to.simps)
      from * [OF b(1) this] show ?thesis using o t NLdInd
        by (auto simp: opt_ld_field_def Let_def simp del: node_typecheck.simps split: if_splits dest!: opt_if_fuel_cases)
    qed (use o t NLdInd in \<open>auto simp: opt_ld_field_def Let_def simp del: node_typecheck.simps\<close>)
  qed (use o t in \<open>auto simp: opt_ld_field_def Let_def simp del: node_typecheck.simps\<close>)
qed

lemma add_sub_same: "typecheck_add_sub op a a asm = Inr t \<Longrightarrow> t = a"
  by (cases a) (auto simp: typecheck_add_sub_def fallback_int_def split: if_splits)

lemma add_sub_pointer:
  "as_int a \<noteq> None \<and> pointer_like b \<Longrightarrow> typecheck_add_sub op a b asm = Inr t \<Longrightarrow> b = t"
  "pointer_like a \<and> as_int b \<noteq> None \<Longrightarrow> typecheck_add_sub op a b asm = Inr t \<Longrightarrow> a = t"
  by (cases a; simp; cases b; simp add: typecheck_add_sub_def fallback_int_def is_assignable_to.simps split: if_splits)+

lemma zero_const_not_pointer: "is_zero c \<Longrightarrow> \<not> pointer_like (const_type c)"
  by (cases c) simp_all

lemma opt_add_sub_typed:
  assumes op: "op = Add \<or> op = Sub" and u: "uniform_operands asm sig locals (NBinOp l r op)"
    and t: "node_typecheck asm sig locals (NBinOp l r op) = Inr t"
  shows "node_typecheck asm sig locals (opt_add_sub l r op) = Inr t"
proof -
  obtain a b where ab: "node_typecheck asm sig locals l = Inr a" "node_typecheck asm sig locals r = Inr b"
      "binop_typecheck op a b asm = Inr t"
    using t by (auto simp: rbind_eq_Inr simp del: binop_typecheck.simps)
  have ty: "typecheck_add_sub op a b asm = Inr t" using ab(3) op by auto
  have uni: "a = b \<or> (as_int a \<noteq> None \<and> pointer_like b) \<or> (pointer_like a \<and> as_int b \<noteq> None)"
    using u ab by auto
  have "b = t" if "\<not> pointer_like a"
    using uni that add_sub_same [of op a asm t] add_sub_pointer(1) [of a b op asm t] ty by blast
  moreover have "a = t" if "\<not> pointer_like b"
    using uni that add_sub_same [of op a asm t] add_sub_pointer(2) [of a b op asm t] ty by blast
  ultimately show ?thesis using ab t zero_const_not_pointer
    by (auto simp: opt_add_sub_def const_is_iff)
qed

lemma rem_consts_typed:
  "const_type x = const_type y \<Longrightarrow> rem_consts original x y = Inr n \<Longrightarrow>
   n = original \<or> (\<exists>c. n = NConst c \<and> const_type c = const_type x)"
  by (cases x; cases y; simp add: rem_consts_def wrapping_rem_def wrapping_srem_def split: if_splits; auto)

lemma mul_consts_typed:
  "const_type x = const_type y \<Longrightarrow>
   mul_consts original x y = original \<or> (\<exists>c. mul_consts original x y = NConst c \<and> const_type c = const_type x)"
  by (cases x; cases y; simp add: mul_consts_def)

lemma rem_same: "typecheck_rem op a a asm = Inr t \<Longrightarrow> t = a" "typecheck_rem_un op a a asm = Inr t \<Longrightarrow> t = a"
  by (cases a; auto simp: typecheck_rem_def typecheck_rem_un_def fallback_int_def split: if_splits)+

lemma mul_same: "typecheck_mul op a a asm = Inr t \<Longrightarrow> t = a"
  by (cases a) (auto simp: typecheck_mul_def mul_fallback_def split: if_splits)

lemma opt_rem_cases:
  assumes "opt_rem l r op = Inr n"
  shows "n = NBinOp l r op
    \<or> (\<exists>x y c. l = NConst x \<and> r = NConst y \<and> const_type x = const_type y \<and> n = NConst c \<and> const_type c = const_type x)"
proof (cases "same_type_consts l r")
  case (Some ab)
  obtain a b where ab: "ab = (a, b)" by (cases ab)
  with Some have "l = NConst a" "r = NConst b" "const_type a = const_type b" by (simp_all add: same_type_consts_iff)
  then show ?thesis using assms Some ab rem_consts_typed by (auto simp: opt_rem_def)
qed (use assms in \<open>simp add: opt_rem_def\<close>)

lemma opt_mul_cases:
  "opt_mul l r = NBinOp l r Mul \<or> opt_mul l r = l \<or> opt_mul l r = r
   \<or> (\<exists>x c. l = NConst x \<and> opt_mul l r = NConst c \<and> const_type c = const_type x)"
proof (cases "same_type_consts l r")
  case (Some ab)
  obtain a b where ab: "ab = (a, b)" by (cases ab)
  with Some have "l = NConst a" "const_type a = const_type b" by (simp_all add: same_type_consts_iff)
  then show ?thesis using Some ab mul_consts_typed [of a b "NBinOp l r Mul"] by (auto simp: opt_mul_def)
qed (simp add: opt_mul_def)

lemma opt_binop_typed:
  assumes u: "uniform_operands asm sig locals (NBinOp l r op)"
    and t: "node_typecheck asm sig locals (NBinOp l r op) = Inr t"
  shows "opt_rem l r op = Inr n \<Longrightarrow> op = Rem \<or> op = RemUn \<Longrightarrow> node_typecheck asm sig locals n = Inr t"
    and "op = Mul \<Longrightarrow> node_typecheck asm sig locals (opt_mul l r) = Inr t"
proof -
  obtain a b where ab: "node_typecheck asm sig locals l = Inr a" "node_typecheck asm sig locals r = Inr b"
      "binop_typecheck op a b asm = Inr t"
    using t by (auto simp: rbind_eq_Inr simp del: binop_typecheck.simps)
  show "node_typecheck asm sig locals n = Inr t" if o: "opt_rem l r op = Inr n" and op: "op = Rem \<or> op = RemUn"
  proof (cases "n = NBinOp l r op")
    case False
    then obtain x y c where c: "l = NConst x" "r = NConst y" "const_type x = const_type y"
        "n = NConst c" "const_type c = const_type x"
      using opt_rem_cases [OF o] by blast
    then have "a = b" "a = const_type x" using ab by auto
    then have "t = a" using ab(3) op rem_same(1) [of Rem a asm t] rem_same(2) [of RemUn a asm t] by auto
    then show ?thesis using c \<open>a = const_type x\<close> by simp
  qed (use t in simp)
  show "node_typecheck asm sig locals (opt_mul l r) = Inr t" if op: "op = Mul"
  proof -
    have "a = b" using u ab op by simp
    then have "t = a" using ab(3) op mul_same [of Mul a asm t] by simp
    then show ?thesis using opt_mul_cases [of l r] ab t op \<open>a = b\<close> by auto
  qed
qed

lemma opt_node_preserves_type_parts:
  "node_typecheck p sig locals n = Inr t \<Longrightarrow> uniform_operands p sig locals n \<Longrightarrow>
     opt_node p sig locals caller n fuel = Inr (n', fuel') \<Longrightarrow> node_typecheck p sig locals n' = Inr t"
  "node_typecheck p sig locals (NBinOp (NConst (CISize 1)) (NSizeOf TBool) Mul) = Inr (TInt ISize)
     \<and> opt_node p sig locals caller (NBinOp (NConst (CISize 1)) (NSizeOf TBool) Mul) fuel = Inr (NSizeOf TBool, fuel)
     \<and> node_typecheck p sig locals (NSizeOf TBool) = Inr (TInt I32)"
proof -
  assume t: "node_typecheck p sig locals n = Inr t" and u: "uniform_operands p sig locals n"
    and o: "opt_node p sig locals caller n fuel = Inr (n', fuel')"
  show "node_typecheck p sig locals n' = Inr t"
  proof (cases n)
    case (NBinOp l r op)
    then show ?thesis using t u o opt_add_sub_typed [of op p sig locals l r t] opt_binop_typed [of p sig locals l r op t]
      by (auto simp del: node_typecheck.simps uniform_operands.simps simp: rbind_eq_Inr split: if_splits)
  next
    case (NSizeOf ty)
    then show ?thesis using t o opt_size_of_typed [of p sig locals ty t fuel n' fuel'] by simp
  next
    case (NIntCast a b c)
    then show ?thesis using t o opt_int_cast_typed [of p sig locals a b c t fuel n' fuel'] by simp
  next
    case (NLdInd a b c)
    then show ?thesis using t o opt_ld_ind_typed [of p sig locals a b c t fuel n' fuel'] by simp
  next
    case (NLdFieldAddress a fd)
    then show ?thesis using t o opt_ld_field_address_typed [of p sig locals a fd t] by simp
  next
    case (NLdField a fd)
    then show ?thesis using t o opt_ld_field_typed [of p sig locals a fd t fuel n' fuel'] by simp
  qed (use t u o in auto)
next
  show "node_typecheck p sig locals (NBinOp (NConst (CISize 1)) (NSizeOf TBool) Mul) = Inr (TInt ISize)
     \<and> opt_node p sig locals caller (NBinOp (NConst (CISize 1)) (NSizeOf TBool) Mul) fuel = Inr (NSizeOf TBool, fuel)
     \<and> node_typecheck p sig locals (NSizeOf TBool) = Inr (TInt I32)"
    by (simp add: typecheck_mul_def opt_mul_def same_type_consts_def)
qed

text \<open>
  C25. The peephole pass on nodes preserves types: if the checker gives a node a type, and the node
  is not a call and does not mix operand types other than in pointer arithmetic, then what the pass
  returns, if it returns, checks with the same type. A product of a word one and a 32-bit integer
  shows that the restriction is needed: the checker accepts the product as a word and the pass
  rewrites it to the 32-bit operand.
\<close>

theorem opt_node_preserves_type:
  "(node_typecheck p sig locals n = Inr t \<longrightarrow> uniform_operands p sig locals n \<longrightarrow>
     opt_node p sig locals caller n fuel = Inr (n', fuel') \<longrightarrow> node_typecheck p sig locals n' = Inr t)
   \<and> node_typecheck p sig locals (NBinOp (NConst (CISize 1)) (NSizeOf TBool) Mul) = Inr (TInt ISize)
   \<and> opt_node p sig locals caller (NBinOp (NConst (CISize 1)) (NSizeOf TBool) Mul) fuel = Inr (NSizeOf TBool, fuel)
   \<and> node_typecheck p sig locals (NSizeOf TBool) = Inr (TInt I32)"
  using opt_node_preserves_type_parts by blast

theorem opt_node_preserves_type_witness:
  "node_typecheck (\<lparr>class_defs = Map.empty, method_defs = Map.empty\<rparr>) (FnSig [] TVoid) [] (NConst (CUSize 5)) = Inr (TInt USize)"
proof (rule opt_node_preserves_type [THEN conjunct1, rule_format, where n = "NIntCast (NConst (CU64 5)) USize ZeroExtend"])
  show "opt_node (\<lparr>class_defs = Map.empty, method_defs = Map.empty\<rparr>) (FnSig [] TVoid) [] (bcl_class ''C'')
      (NIntCast (NConst (CU64 5)) USize ZeroExtend) 1 = Inr (NConst (CUSize 5), 0)"
    by (simp add: opt_int_cast_def opt_const_cast_def opt_if_fuel_def consume_def)
qed (simp_all add: int_cast_typecheck_def)

section \<open>Values are preserved\<close>

text \<open>
  A reference evaluator for integer trees. A value is an integer type with a number in its range;
  a word has 64 bits. Widening a value of at most 32 bits to 64 bits extends its 32-bit stack
  representation as the cast says; every other cast reduces the number to the target. Nodes that
  are not arithmetic get their value from an environment.
\<close>

fun bits_of :: "cil_int \<Rightarrow> nat" where
  "bits_of U8 = 8" | "bits_of I8 = 8" | "bits_of U16 = 16" | "bits_of I16 = 16"
| "bits_of U32 = 32" | "bits_of I32 = 32" | "bits_of U64 = 64" | "bits_of I64 = 64"
| "bits_of U128 = 128" | "bits_of I128 = 128" | "bits_of USize = 64" | "bits_of ISize = 64"

definition norm :: "cil_int \<Rightarrow> int \<Rightarrow> int" where
  "norm t v = (if is_signed t then signed_take_bit (bits_of t - 1) v else take_bit (bits_of t) v)"

definition in_range :: "cil_int \<Rightarrow> int \<Rightarrow> bool" where
  "in_range t v \<longleftrightarrow> norm t v = v"

type_synonym ival = "cil_int \<times> int"

fun const_ival :: "cil_const \<Rightarrow> ival option" where
  "const_ival (CI8 w) = Some (I8, sint w)" | "const_ival (CU8 w) = Some (U8, uint w)"
| "const_ival (CI16 w) = Some (I16, sint w)" | "const_ival (CU16 w) = Some (U16, uint w)"
| "const_ival (CI32 w) = Some (I32, sint w)" | "const_ival (CU32 w) = Some (U32, uint w)"
| "const_ival (CI64 w) = Some (I64, sint w)" | "const_ival (CU64 w) = Some (U64, uint w)"
| "const_ival (CI128 w) = Some (I128, sint w)" | "const_ival (CU128 w) = Some (U128, uint w)"
| "const_ival (CISize w) = Some (ISize, sint w)" | "const_ival (CUSize w) = Some (USize, uint w)"
| "const_ival _ = None"

definition cast_val :: "extend_kind \<Rightarrow> cil_int \<Rightarrow> cil_int \<Rightarrow> int \<Rightarrow> int" where
  "cast_val ext t target v =
     (if bits_of target = 64 \<and> bits_of t \<le> 32
      then norm target (norm (case ext of SignExtend \<Rightarrow> I32 | ZeroExtend \<Rightarrow> U32) v)
      else norm target v)"

definition cast_ival :: "extend_kind \<Rightarrow> cil_int \<Rightarrow> ival \<Rightarrow> ival option" where
  "cast_ival ext target v =
     (if bits_of target = 128 \<or> bits_of (fst v) = 128 then None
      else Some (target, cast_val ext (fst v) target (snd v)))"

text \<open>Remainder reinterprets its operands with the sign of the operator.\<close>

fun op_val :: "bin_op \<Rightarrow> cil_int \<Rightarrow> int \<Rightarrow> int \<Rightarrow> int option" where
  "op_val Add t a b = Some (norm t (a + b))"
| "op_val Sub t a b = Some (norm t (a - b))"
| "op_val Mul t a b = Some (norm t (a * b))"
| "op_val Rem t a b =
     (let x = norm (as_signed t) a; y = norm (as_signed t) b in if y = 0 then None else Some (norm t (x smod y)))"
| "op_val RemUn t a b =
     (let x = norm (as_unsigned t) a; y = norm (as_unsigned t) b in if y = 0 then None else Some (norm t (x mod y)))"
| "op_val _ _ _ _ = None"

fun ieval :: "(cil_node \<Rightarrow> ival option) \<Rightarrow> cil_node \<Rightarrow> ival option" where
  "ieval env (NConst c) = const_ival c"
| "ieval env (NIntCast n target ext) = Option.bind (ieval env n) (cast_ival ext target)"
| "ieval env (NBinOp l r op) =
     (case (ieval env l, ieval env r) of
        (Some (t, a), Some (t', b)) \<Rightarrow> if t = t' then map_option (Pair t) (op_val op t a b) else None
      | _ \<Rightarrow> None)"
| "ieval env (NSizeOf t) =
     (case t of TInt i \<Rightarrow> Some (I32, int (bits_of i div 8)) | TFloat f \<Rightarrow>
          Some (I32, case f of F16 \<Rightarrow> 2 | F32 \<Rightarrow> 4 | F64 \<Rightarrow> 8 | F128 \<Rightarrow> 16) | _ \<Rightarrow> None)"
| "ieval env n = env n"

text \<open>An environment gives numbers in range, and a field load the type of the field.\<close>

definition env_ok :: "(cil_node \<Rightarrow> ival option) \<Rightarrow> bool" where
  "env_ok env \<longleftrightarrow>
     (\<forall>n t v. env n = Some (t, v) \<longrightarrow> in_range t v \<and> (\<forall>a fd. n = NLdField a fd \<longrightarrow> fd_type fd = TInt t))"

text \<open>The operator of a remainder agrees with the sign of its operands' type.\<close>

fun rem_sign_ok :: "(cil_node \<Rightarrow> ival option) \<Rightarrow> cil_node \<Rightarrow> bool" where
  "rem_sign_ok env (NBinOp l r Rem) = (case ieval env l of Some (t, _) \<Rightarrow> is_signed t | None \<Rightarrow> True)"
| "rem_sign_ok env (NBinOp l r RemUn) = (case ieval env l of Some (t, _) \<Rightarrow> \<not> is_signed t | None \<Rightarrow> True)"
| "rem_sign_ok env _ = True"

lemma norm_idem [simp]: "norm t (norm t v) = norm t v"
  by (simp add: norm_def)

lemma bits_of_pos [simp]: "0 < bits_of t"
  by (cases t) simp_all

lemma norm_norm_same_bits:
  "bits_of t = bits_of t' \<Longrightarrow> norm t (norm t' v) = norm t v"
  using bits_of_pos [of t']
  by (auto simp: norm_def signed_take_bit_take_bit take_bit_signed_take_bit min_def simp del: bits_of_pos)

lemma take_bit_uint: "take_bit LENGTH('a) (uint (w :: 'a::len word)) = uint w"
  by (transfer, simp)

lemma signed_take_bit_sint: "signed_take_bit (LENGTH('a) - 1) (sint (w :: 'a::len word)) = sint w"
  by (transfer, simp)

lemma sint_word_of_int: "sint (word_of_int v :: 'a::len word) = signed_take_bit (LENGTH('a) - 1) v"
  by (transfer, simp)

lemma uint_word_of_int: "uint (word_of_int v :: 'a::len word) = take_bit LENGTH('a) v"
  by (transfer, simp)

text \<open>The value of a constant is the number of its word in the range of its type.\<close>

lemma in_range_const: "const_ival c = Some (t, v) \<Longrightarrow> in_range t v"
  using take_bit_uint [where 'a = 8] take_bit_uint [where 'a = 16] take_bit_uint [where 'a = 32]
    take_bit_uint [where 'a = 64] take_bit_uint [where 'a = 128]
    signed_take_bit_sint [where 'a = 8] signed_take_bit_sint [where 'a = 16] signed_take_bit_sint [where 'a = 32]
    signed_take_bit_sint [where 'a = 64] signed_take_bit_sint [where 'a = 128]
  by (cases c) (auto simp: in_range_def norm_def)

lemma in_range_norm [simp]: "in_range t (norm t v)"
  by (simp add: in_range_def)

lemma op_val_range: "op_val op t a b = Some v \<Longrightarrow> in_range t v"
  by (cases op) (auto simp: Let_def split: if_splits)

lemma ieval_binop:
  assumes "ieval env (NBinOp l r op) = Some v"
  obtains t a b c where "ieval env l = Some (t, a)" "ieval env r = Some (t, b)" "op_val op t a b = Some c" "v = (t, c)"
  using assms by (auto split: option.splits if_splits)

lemma env_range: "env_ok env \<Longrightarrow> env n = Some (t, v) \<Longrightarrow> in_range t v"
  by (simp add: env_ok_def)

lemma ieval_range: "env_ok env \<Longrightarrow> ieval env n = Some (t, v) \<Longrightarrow> in_range t v"
proof (cases n)
  case (NConst c)
  then show "ieval env n = Some (t, v) \<Longrightarrow> in_range t v" by (simp add: in_range_const)
next
  case (NBinOp l r op)
  then show "ieval env n = Some (t, v) \<Longrightarrow> in_range t v" by (metis ieval_binop op_val_range prod.inject)
next
  case (NIntCast m target ext)
  then show "ieval env n = Some (t, v) \<Longrightarrow> in_range t v"
    by (auto simp: bind_eq_Some_conv cast_ival_def cast_val_def split: if_splits)
next
  case (NSizeOf ty)
  have "in_range I32 (int (bits_of i div 8))" for i by (cases i) (simp_all add: in_range_def norm_def)
  moreover have "in_range I32 (case f of F16 \<Rightarrow> 2 | F32 \<Rightarrow> 4 | F64 \<Rightarrow> 8 | F128 \<Rightarrow> 16)" for f
    by (cases f) (simp_all add: in_range_def norm_def)
  ultimately show "ieval env n = Some (t, v) \<Longrightarrow> in_range t v" using NSizeOf by (auto split: cil_type.splits)
qed (simp_all add: env_range)

lemma norm_in_range: "in_range t v \<Longrightarrow> norm t v = v"
  by (simp add: in_range_def)

lemma zero_ival: "is_zero c \<Longrightarrow> const_ival c = Some (t, v) \<Longrightarrow> v = 0"
  by (cases c) auto

lemma one_ival: "is_one c \<Longrightarrow> const_ival c = Some (t, v) \<Longrightarrow> v = 1"
  by (cases c) auto

lemma opt_add_sub_value:
  assumes env: "env_ok env" and op: "op = Add \<or> op = Sub" and v: "ieval env (NBinOp l r op) = Some v"
  shows "ieval env (opt_add_sub l r op) = Some v"
proof -
  obtain t a b c where e: "ieval env l = Some (t, a)" "ieval env r = Some (t, b)" "op_val op t a b = Some c" "v = (t, c)"
    using v by (rule ieval_binop)
  have r: "norm t a = a" "norm t b = b" using e env by (simp_all add: ieval_range norm_in_range)
  have "a = 0" if "const_is is_zero l" using that e zero_ival by (auto simp: const_is_iff)
  moreover have "b = 0" if "const_is is_zero r" using that e zero_ival by (auto simp: const_is_iff)
  ultimately show ?thesis using e r op v by (auto simp: opt_add_sub_def)
qed

text \<open>Multiplication and remainder of words are those of their numbers, reduced.\<close>

lemma uint_mult_word: "uint (a * b :: 'a::len word) = take_bit LENGTH('a) (uint a * uint b)"
  by (simp add: uint_word_ariths take_bit_eq_mod)

lemma sint_mult_word: "sint (a * b :: 'a::len word) = signed_take_bit (LENGTH('a) - 1) (sint a * sint b)"
  by (simp add: sint_word_ariths)

lemma const_ival_type: "const_ival x = Some (t, a) \<Longrightarrow> const_type x = TInt t"
  by (cases x) auto

lemma int_const_forms:
  "const_type x = TInt t \<Longrightarrow>
   (case t of U8 \<Rightarrow> \<exists>w. x = CU8 w | U16 \<Rightarrow> \<exists>w. x = CU16 w | U32 \<Rightarrow> \<exists>w. x = CU32 w | U64 \<Rightarrow> \<exists>w. x = CU64 w
    | U128 \<Rightarrow> \<exists>w. x = CU128 w | USize \<Rightarrow> \<exists>w. x = CUSize w
    | I8 \<Rightarrow> \<exists>w. x = CI8 w | I16 \<Rightarrow> \<exists>w. x = CI16 w | I32 \<Rightarrow> \<exists>w. x = CI32 w | I64 \<Rightarrow> \<exists>w. x = CI64 w
    | I128 \<Rightarrow> \<exists>w. x = CI128 w | ISize \<Rightarrow> \<exists>w. x = CISize w)"
  by (cases x) auto

lemma mul_consts_value:
  assumes "const_ival x = Some (t, a)" "const_ival y = Some (t, b)"
  shows "ieval env (mul_consts original x y) = Some (t, norm t (a * b))"
  using int_const_forms [OF const_ival_type [OF assms(1)]] int_const_forms [OF const_ival_type [OF assms(2)]] assms
  by (cases t; auto simp: mul_consts_def norm_def uint_mult_word sint_mult_word)

lemma opt_mul_value:
  assumes env: "env_ok env" and v: "ieval env (NBinOp l r Mul) = Some v"
  shows "ieval env (opt_mul l r) = Some v"
proof -
  obtain t a b c where e: "ieval env l = Some (t, a)" "ieval env r = Some (t, b)" "op_val Mul t a b = Some c" "v = (t, c)"
    using v by (rule ieval_binop)
  have r: "norm t a = a" "norm t b = b" using e env by (simp_all add: ieval_range norm_in_range)
  show ?thesis
  proof (cases "same_type_consts l r")
    case (Some xy)
    obtain x y where xy: "xy = (x, y)" by (cases xy)
    with Some have "l = NConst x" "r = NConst y" by (simp_all add: same_type_consts_iff)
    then show ?thesis using e Some xy mul_consts_value [of x t a y b] by (simp add: opt_mul_def)
  next
    case None
    have "a = 1" if "const_is is_one l" using that e one_ival by (auto simp: const_is_iff)
    moreover have "b = 1" if "const_is is_one r" using that e one_ival by (auto simp: const_is_iff)
    ultimately show ?thesis using e r v None by (auto simp: opt_mul_def)
  qed
qed

lemma take_bit_mod_uint:
  "take_bit LENGTH('a) (uint (v :: 'a::len word) mod uint w) = uint (v mod w)"
  by (metis take_bit_uint uint_mod)

lemma rem_consts_value:
  assumes "const_ival x = Some (t, a)" "const_ival y = Some (t, b)"
    and "op = Rem \<and> is_signed t \<or> op = RemUn \<and> \<not> is_signed t" and "op_val op t a b = Some c"
  shows "\<exists>n. rem_consts original x y = Inr n \<and> ieval env n = Some (t, c)"
  using int_const_forms [OF const_ival_type [OF assms(1)]] int_const_forms [OF const_ival_type [OF assms(2)]] assms
    take_bit_uint [where 'a = 8] take_bit_uint [where 'a = 16] take_bit_uint [where 'a = 32]
    take_bit_uint [where 'a = 64] take_bit_uint [where 'a = 128]
    signed_take_bit_sint [where 'a = 8] signed_take_bit_sint [where 'a = 16] signed_take_bit_sint [where 'a = 32]
    signed_take_bit_sint [where 'a = 64] signed_take_bit_sint [where 'a = 128]
    take_bit_mod_uint [where 'a = 8] take_bit_mod_uint [where 'a = 16] take_bit_mod_uint [where 'a = 32]
    take_bit_mod_uint [where 'a = 64] take_bit_mod_uint [where 'a = 128]
  by (cases t; auto simp: rem_consts_def wrapping_rem_def wrapping_srem_def norm_def sint_word_of_int Let_def split: if_splits)

lemma opt_rem_value:
  assumes env: "env_ok env" and v: "ieval env (NBinOp l r op) = Some v" and op: "op = Rem \<or> op = RemUn"
    and sign: "rem_sign_ok env (NBinOp l r op)"
  shows "\<exists>n. opt_rem l r op = Inr n \<and> ieval env n = Some v"
proof -
  obtain t a b c where e: "ieval env l = Some (t, a)" "ieval env r = Some (t, b)" "op_val op t a b = Some c" "v = (t, c)"
    using v by (rule ieval_binop)
  have s: "op = Rem \<and> is_signed t \<or> op = RemUn \<and> \<not> is_signed t" using op sign e by auto
  show ?thesis
  proof (cases "same_type_consts l r")
    case (Some xy)
    obtain x y where xy: "xy = (x, y)" by (cases xy)
    with Some have "l = NConst x" "r = NConst y" by (simp_all add: same_type_consts_iff)
    then show ?thesis using e Some xy rem_consts_value [of x t a y b op c] s by (simp add: opt_rem_def)
  qed (use v in \<open>simp add: opt_rem_def\<close>)
qed

text \<open>Casts.\<close>

lemma norm_of_range: "in_range t v \<Longrightarrow> bits_of t = bits_of t' \<Longrightarrow> norm t (norm t' v) = v"
  by (simp add: norm_norm_same_bits in_range_def)

lemma uint_ucast_word: "uint (ucast (w :: 'a::len word) :: 'b::len word) = take_bit LENGTH('b) (uint w)"
  by (transfer, simp)

lemma opt_const_cast_value:
  assumes v: "ieval env (NIntCast (NConst c) target ext) = Some v"
    and o: "opt_const_cast (NIntCast (NConst c) target ext) c target ext fuel = (n, f)"
  shows "ieval env n = Some v"
proof -
  show ?thesis
    using o v take_bit_uint [where 'a = 32] take_bit_uint [where 'a = 64] uint_take_bit_sint [where 'a = 32]
      signed_take_bit_sint [where 'a = 32] signed_take_bit_sint [where 'a = 64]
    by (cases c; cases target)
      (auto simp: opt_const_cast_def cast_ival_def cast_val_def norm_def uint_ucast_word uint_scast_word
        split: extend_kind.splits dest!: opt_if_fuel_cases)
qed

lemma opt_int_cast_value:
  assumes env: "env_ok env" and v: "ieval env (NIntCast input target ext) = Some v"
    and o: "opt_int_cast (NIntCast input target ext) input target ext fuel = (n, f)"
  shows "ieval env n = Some v"
proof -
  obtain t a where e: "ieval env input = Some (t, a)" "cast_ival ext target (t, a) = Some v"
    using v by (auto simp: bind_eq_Some_conv)
  have r: "in_range t a" using env e(1) by (rule ieval_range)
  show ?thesis
  proof (cases input)
    case (NConst c)
    then show ?thesis using o v opt_const_cast_value [of env c target ext v fuel n f] by (simp add: opt_int_cast_def)
  next
    case (NLdField x fd)
    then have "fd_type fd = TInt t" using env e(1) by (auto simp: env_ok_def)
    then show ?thesis using o v e r NLdField
      by (auto simp: opt_int_cast_def cast_ival_def cast_val_def in_range_def split: if_splits)
  next
    case (NIntCast input2 target2 ext2)
    then obtain t2 a2 where e2: "ieval env input2 = Some (t2, a2)" "cast_ival ext2 target2 (t2, a2) = Some (t, a)"
      using e(1) by (auto simp: bind_eq_Some_conv)
    have t: "t = target2" "a = cast_val ext2 t2 target2 a2" "bits_of t2 \<noteq> 128"
      using e2(2) by (auto simp: cast_ival_def split: if_splits)
    have "ieval env input = Some v" if "target = target2" "ext = ext2"
      using that e r t by (auto simp: cast_ival_def cast_val_def in_range_def split: if_splits)
    moreover have "ieval env (NIntCast input2 target ext2) = Some v" if "same_width_casts target target2"
    proof -
      have b: "bits_of target = bits_of target2" using that by (auto simp: same_width_casts_def)
      then have "cast_val ext target2 target a = cast_val ext2 t2 target a2"
        using t by (auto simp: cast_val_def norm_norm_same_bits)
      then show ?thesis using e(2) e2(1) t b by (auto simp: cast_ival_def split: if_splits)
    qed
    ultimately show ?thesis using o v NIntCast
      by (auto simp: opt_int_cast_def simp del: ieval.simps split: if_splits dest!: opt_if_fuel_cases)
  qed (use o v in \<open>auto simp: opt_int_cast_def simp del: ieval.simps\<close>)
qed

lemma opt_size_of_value:
  assumes "ieval env (NSizeOf t) = Some v" "opt_size_of t fuel = (n, f)"
  shows "ieval env n = Some v"
proof (cases t)
  case (TInt i)
  then show ?thesis using assms
    by (cases i) (auto simp: opt_size_of_def dest!: opt_if_fuel_cases)
next
  case (TFloat x)
  then show ?thesis using assms
    by (cases x) (auto simp: opt_size_of_def dest!: opt_if_fuel_cases)
qed (use assms in auto)

section \<open>Soundness on integers\<close>

fun int_arithmetic :: "cil_node \<Rightarrow> bool" where
  "int_arithmetic (NBinOp _ _ _) = True"
| "int_arithmetic (NIntCast _ _ _) = True"
| "int_arithmetic (NSizeOf _) = True"
| "int_arithmetic _ = False"

lemma opt_node_preserves_value_parts:
  "env_ok env \<Longrightarrow> int_arithmetic n \<Longrightarrow> rem_sign_ok env n \<Longrightarrow> ieval env n = Some v \<Longrightarrow>
     \<exists>n' fuel'. opt_node p sig locals caller n fuel = Inr (n', fuel') \<and> ieval env n' = Some v"
  "ieval env (NBinOp (NConst (CU32 0xFFFFFFFF)) (NConst (CU32 2)) Rem) = Some (U32, 0xFFFFFFFF)
     \<and> opt_node p sig locals caller (NBinOp (NConst (CU32 0xFFFFFFFF)) (NConst (CU32 2)) Rem) fuel = Inr (NConst (CU32 1), fuel)"
proof -
  assume env: "env_ok env" and n: "int_arithmetic n" and s: "rem_sign_ok env n" and v: "ieval env n = Some v"
  show "\<exists>n' fuel'. opt_node p sig locals caller n fuel = Inr (n', fuel') \<and> ieval env n' = Some v"
  proof (cases n)
    case (NBinOp l r op)
    then show ?thesis
      using env s v opt_add_sub_value [of env op l r v] opt_mul_value [of env l r v] opt_rem_value [of env l r op v]
      by (auto simp del: ieval.simps rem_sign_ok.simps)
  next
    case (NIntCast input target ext)
    then show ?thesis using env v opt_int_cast_value [of env input target ext v fuel]
      by (auto simp del: ieval.simps intro!: exI prod.collapse [symmetric])
  next
    case (NSizeOf t)
    then show ?thesis using v opt_size_of_value [of env t v fuel]
      by (auto simp del: ieval.simps intro!: exI prod.collapse [symmetric])
  qed (use n in simp_all)
next
  show "ieval env (NBinOp (NConst (CU32 0xFFFFFFFF)) (NConst (CU32 2)) Rem) = Some (U32, 0xFFFFFFFF)
     \<and> opt_node p sig locals caller (NBinOp (NConst (CU32 0xFFFFFFFF)) (NConst (CU32 2)) Rem) fuel = Inr (NConst (CU32 1), fuel)"
    by (simp add: norm_def opt_rem_def same_type_consts_def rem_consts_def wrapping_rem_def
        signed_modulo_int_def signed_divide_int_def take_bit_eq_mod)
qed

text \<open>
  C3. Constant folding is sound on integers. If an integer operation, cast or size has a value, and a
  remainder operator has the sign of its operands' type, then the peephole pass does not panic, and
  what it returns has the same value and type, at every width, wrap-around of products, truncation
  and sign extension of casts included. Without the condition on remainder it is not: a signed
  remainder of two unsigned constants is folded as an unsigned one.
\<close>

theorem opt_node_preserves_value:
  "(env_ok env \<longrightarrow> int_arithmetic n \<longrightarrow> rem_sign_ok env n \<longrightarrow> ieval env n = Some v \<longrightarrow>
     (\<exists>n' fuel'. opt_node p sig locals caller n fuel = Inr (n', fuel') \<and> ieval env n' = Some v))
   \<and> ieval env (NBinOp (NConst (CU32 0xFFFFFFFF)) (NConst (CU32 2)) Rem) = Some (U32, 0xFFFFFFFF)
   \<and> opt_node p sig locals caller (NBinOp (NConst (CU32 0xFFFFFFFF)) (NConst (CU32 2)) Rem) fuel = Inr (NConst (CU32 1), fuel)"
  using opt_node_preserves_value_parts by blast

theorem opt_node_preserves_value_witness:
  "\<exists>n' fuel'. opt_node (\<lparr>class_defs = Map.empty, method_defs = Map.empty\<rparr>) (FnSig [] TVoid) [] (bcl_class ''C'')
       (NIntCast (NConst (CI32 0xFFFFFFFF)) USize SignExtend) 1 = Inr (n', fuel')
     \<and> ieval Map.empty n' = Some (USize, 0xFFFFFFFFFFFFFFFF)"
  by (rule opt_node_preserves_value [THEN conjunct1, rule_format]) (simp_all add: env_ok_def cast_ival_def cast_val_def norm_def mask_eq_exp_minus_1)

end
