(* ===== verification/Propagate.thy ===== *)
theory Propagate
  imports Methods Effects
begin

text \<open>
  Forward substitution of stored trees (\<^verbatim>\<open>propagate_locals\<close>, \<^verbatim>\<open>propagate_root\<close>, \<^verbatim>\<open>propagate_roots\<close>
  and \<^verbatim>\<open>BasicBlock::local_opt\<close> of \<^verbatim>\<open>cilly/src/ir/opt/mod.rs\<close>): a stored tree without effects
  replaces the loads of the slot in the statement that follows. The effect cache is replaced by the
  function it memoises. The second half executes blocks on an abstract machine and shows that the
  pass does not change what they do.
\<close>


section \<open>Substitution into a node\<close>

datatype local_propagate = PropLocal u32 | PropArg u32 | PropField field_desc cil_node

definition propagated_load :: "cil_type \<Rightarrow> cil_node \<Rightarrow> cil_node option" where
  "propagated_load t new_node =
     (case t of
        TFloat _ \<Rightarrow> Some new_node
      | TBool \<Rightarrow> Some new_node
      | TFnPtr _ \<Rightarrow> Some new_node
      | TPtr _ \<Rightarrow> Some new_node
      | TClassRef _ \<Rightarrow> Some new_node
      | TRef _ \<Rightarrow> Some new_node
      | TInt i \<Rightarrow>
          if i = I8 \<or> i = U8 \<or> i = I16 \<or> i = U16
          then Some (NIntCast new_node i (if is_signed i then SignExtend else ZeroExtend))
          else Some new_node
      | _ \<Rightarrow> None)"

definition propagate_here :: "cil_node \<Rightarrow> cil_type \<Rightarrow> cil_node \<Rightarrow> opt_fuel \<Rightarrow> cil_node \<times> opt_fuel" where
  "propagate_here self t new_node fuel =
     (let (ok, fuel) = consume 1 fuel in
      (if \<not> ok then self else (case propagated_load t new_node of Some n \<Rightarrow> n | None \<Rightarrow> self), fuel))"

text \<open>
  \<^verbatim>\<open>CILNode::propagate_locals\<close>. The index of an array access and the size of a stack allocation are
  not searched; an indirect call is the \<^verbatim>\<open>todo!()\<close>.
\<close>

fun propagate_locals ::
  "local_propagate \<Rightarrow> cil_type \<Rightarrow> cil_node \<Rightarrow> cil_node \<Rightarrow> opt_fuel \<Rightarrow> (opt_panic, cil_node \<times> opt_fuel) result"
and propagate_args ::
  "local_propagate \<Rightarrow> cil_type \<Rightarrow> cil_node \<Rightarrow> cil_node list \<Rightarrow> opt_fuel \<Rightarrow> (opt_panic, cil_node list \<times> opt_fuel) result"
where
  "propagate_locals idx t new (NBinOp l r op) fuel =
     rbind (propagate_locals idx t new l fuel) (\<lambda>(l, fuel).
     rbind (propagate_locals idx t new r fuel) (\<lambda>(r, fuel). Inr (NBinOp l r op, fuel)))"
| "propagate_locals idx t new (NUnOp n op) fuel =
     rbind (propagate_locals idx t new n fuel) (\<lambda>(n, fuel). Inr (NUnOp n op, fuel))"
| "propagate_locals idx t new (NLdField a fd) fuel =
     (if PropField fd a = idx then Inr (propagate_here (NLdField a fd) t new fuel)
      else rbind (propagate_locals idx t new a fuel) (\<lambda>(a, fuel). Inr (NLdField a fd, fuel)))"
| "propagate_locals idx t new (NLdLoc l) fuel =
     (if PropLocal l = idx then Inr (propagate_here (NLdLoc l) t new fuel) else Inr (NLdLoc l, fuel))"
| "propagate_locals idx t new (NLdArg a) fuel =
     (if PropArg a = idx then Inr (propagate_here (NLdArg a) t new fuel) else Inr (NLdArg a, fuel))"
| "propagate_locals idx t new (NLdLocA l) fuel = Inr (NLdLocA l, fuel)"
| "propagate_locals idx t new (NLdArgA a) fuel = Inr (NLdArgA a, fuel)"
| "propagate_locals idx t new (NCall m args p) fuel =
     rbind (propagate_args idx t new args fuel) (\<lambda>(args, fuel). Inr (NCall m args p, fuel))"
| "propagate_locals idx t new (NIntCast n target ext) fuel =
     rbind (propagate_locals idx t new n fuel) (\<lambda>(n, fuel). Inr (NIntCast n target ext, fuel))"
| "propagate_locals idx t new (NFloatCast n target sg) fuel =
     rbind (propagate_locals idx t new n fuel) (\<lambda>(n, fuel). Inr (NFloatCast n target sg, fuel))"
| "propagate_locals idx t new (NRefToPtr n) fuel =
     rbind (propagate_locals idx t new n fuel) (\<lambda>(n, fuel). Inr (NRefToPtr n, fuel))"
| "propagate_locals idx t new (NPtrCast n res) fuel =
     rbind (propagate_locals idx t new n fuel) (\<lambda>(n, fuel). Inr (NPtrCast n res, fuel))"
| "propagate_locals idx t new (NLdFieldAddress a fd) fuel =
     rbind (propagate_locals idx t new a fuel) (\<lambda>(a, fuel). Inr (NLdFieldAddress a fd, fuel))"
| "propagate_locals idx t new (NLdInd a t2 vol) fuel =
     rbind (propagate_locals idx t new a fuel) (\<lambda>(a, fuel). Inr (NLdInd a t2 vol, fuel))"
| "propagate_locals idx t new (NIsInst n t2) fuel =
     rbind (propagate_locals idx t new n fuel) (\<lambda>(n, fuel). Inr (NIsInst n t2, fuel))"
| "propagate_locals idx t new (NCheckedCast n t2) fuel =
     rbind (propagate_locals idx t new n fuel) (\<lambda>(n, fuel). Inr (NCheckedCast n t2, fuel))"
| "propagate_locals idx t new (NCallI _ _ _) fuel = Inl CallITodo"
| "propagate_locals idx t new NGetException fuel = Inr (NGetException, fuel)"
| "propagate_locals idx t new (NSizeOf t2) fuel = Inr (NSizeOf t2, fuel)"
| "propagate_locals idx t new (NLocAlloc n) fuel = Inr (NLocAlloc n, fuel)"
| "propagate_locals idx t new (NLdStaticField d) fuel = Inr (NLdStaticField d, fuel)"
| "propagate_locals idx t new (NLdStaticFieldAddress d) fuel = Inr (NLdStaticFieldAddress d, fuel)"
| "propagate_locals idx t new (NLdFtn m) fuel = Inr (NLdFtn m, fuel)"
| "propagate_locals idx t new (NLdTypeToken t2) fuel = Inr (NLdTypeToken t2, fuel)"
| "propagate_locals idx t new (NLocAllocAlgined t2 al) fuel = Inr (NLocAllocAlgined t2 al, fuel)"
| "propagate_locals idx t new (NConst c) fuel = Inr (NConst c, fuel)"
| "propagate_locals idx t new (NLdLen n) fuel =
     rbind (propagate_locals idx t new n fuel) (\<lambda>(n, fuel). Inr (NLdLen n, fuel))"
| "propagate_locals idx t new (NLdElelemRef a i) fuel =
     rbind (propagate_locals idx t new a fuel) (\<lambda>(a, fuel). Inr (NLdElelemRef a i, fuel))"
| "propagate_locals idx t new (NLdElem a i t2) fuel =
     rbind (propagate_locals idx t new a fuel) (\<lambda>(a, fuel). Inr (NLdElem a i t2, fuel))"
| "propagate_locals idx t new (NUnboxAny n t2) fuel =
     rbind (propagate_locals idx t new n fuel) (\<lambda>(n, fuel). Inr (NUnboxAny n t2, fuel))"
| "propagate_locals idx t new (NBox n t2) fuel =
     rbind (propagate_locals idx t new n fuel) (\<lambda>(n, fuel). Inr (NBox n t2, fuel))"
| "propagate_locals idx t new (NNewArr t2 n) fuel =
     rbind (propagate_locals idx t new n fuel) (\<lambda>(n, fuel). Inr (NNewArr t2 n, fuel))"
| "propagate_args idx t new [] fuel = Inr ([], fuel)"
| "propagate_args idx t new (n # ns) fuel =
     rbind (propagate_locals idx t new n fuel) (\<lambda>(n, fuel).
     rbind (propagate_args idx t new ns fuel) (\<lambda>(ns, fuel). Inr (n # ns, fuel)))"

section \<open>Substitution into a root\<close>

text \<open>
  The closure of \<^verbatim>\<open>propagate_root\<close>: once it has met a node with an effect it substitutes nothing more.
  Its state is the flag \<open>cant_prop\<close> and the fuel, or the panic that ended the pass.
\<close>

type_synonym prop_state = "(opt_panic, bool \<times> opt_fuel) result"

fun prop_step :: "local_propagate \<Rightarrow> cil_type \<Rightarrow> cil_node \<Rightarrow> cil_node \<Rightarrow> prop_state \<Rightarrow> cil_node \<times> prop_state" where
  "prop_step idx t tree n (Inl e) = (n, Inl e)"
| "prop_step idx t tree n (Inr (cant_prop, fuel)) =
     (if cant_prop \<or> \<not> is_pure_total (effect_of n) then (n, Inr (True, fuel))
      else case propagate_locals idx t tree n fuel of
        Inl e \<Rightarrow> (n, Inl e)
      | Inr (n, fuel) \<Rightarrow> (n, Inr (False, fuel)))"

definition propagate_root ::
  "local_propagate \<Rightarrow> cil_type \<Rightarrow> cil_node \<Rightarrow> cil_root \<Rightarrow> opt_fuel
     \<Rightarrow> (opt_panic, cil_root \<times> bool \<times> opt_fuel) result" where
  "propagate_root idx t tree root fuel =
     (let (ns, st) = map_nodes (prop_step idx t tree) (root_nodes root) (Inr (False, fuel)) in
      rbind st (\<lambda>(cant_prop, fuel). Inr (set_root_nodes root ns, cant_prop, fuel)))"

definition count_matches :: "cil_root \<Rightarrow> cil_node \<Rightarrow> nat" where
  "count_matches root pattern = length (filter (\<lambda>e. e = ENode pattern) (cil_iter [ERoot root]))"

definition is_trivially_duplicable :: "cil_node \<Rightarrow> bool" where
  "is_trivially_duplicable tree \<longleftrightarrow> length (cil_iter [ENode tree]) \<le> 1"

definition tree_reads :: "cil_node \<Rightarrow> cil_node \<Rightarrow> bool" where
  "tree_reads tree n \<longleftrightarrow> list_ex (\<lambda>e. e = ENode n) (cil_iter [ENode tree])"

text \<open>The guards shared by the arms of \<^verbatim>\<open>propagate_roots\<close>: effects, size, self-dependence.\<close>

definition propagates_tree :: "cil_node \<Rightarrow> cil_node \<Rightarrow> bool" where
  "propagates_tree tree self \<longleftrightarrow>
     is_pure_total (effect_of tree) \<and> length (cil_iter [ENode tree]) \<le> 16 \<and> \<not> tree_reads tree self"

definition propagate_st_loc ::
  "local_def list \<Rightarrow> u32 \<Rightarrow> cil_node \<Rightarrow> cil_root \<Rightarrow> opt_fuel \<Rightarrow> (opt_panic, cil_root \<times> bool \<times> opt_fuel) result" where
  "propagate_st_loc locals loc tree root fuel =
     (if \<not> propagates_tree tree (NLdLoc loc) then Inr (root, True, fuel)
      else if \<not> is_trivially_duplicable tree \<and> count_matches root (NLdLoc loc) > 1 then Inr (root, True, fuel)
      else rbind (ok_or (nth_opt locals (unat loc)) (LocalIndex loc)) (\<lambda>l.
           propagate_root (PropLocal loc) (snd l) tree root fuel))"

definition propagate_st_arg ::
  "fn_sig \<Rightarrow> u32 \<Rightarrow> cil_node \<Rightarrow> cil_root \<Rightarrow> opt_fuel \<Rightarrow> (opt_panic, cil_root \<times> bool \<times> opt_fuel) result" where
  "propagate_st_arg sig arg tree root fuel =
     (if \<not> propagates_tree tree (NLdArg arg) then Inr (root, True, fuel)
      else if \<not> is_trivially_duplicable tree \<and> count_matches root (NLdArg arg) > 1 then Inr (root, True, fuel)
      else rbind (ok_or (nth_opt (sig_inputs sig) (unat arg)) (ArgIndex arg)) (\<lambda>t.
           propagate_root (PropArg arg) t tree root fuel))"

definition propagate_set_field ::
  "field_desc \<Rightarrow> cil_node \<Rightarrow> cil_node \<Rightarrow> cil_root \<Rightarrow> opt_fuel \<Rightarrow> (opt_panic, cil_root \<times> bool \<times> opt_fuel) result" where
  "propagate_set_field fd addr tree root fuel =
     (if \<not> propagates_tree tree addr then Inr (root, True, fuel)
      else case addr of
        NLdLocA loc \<Rightarrow>
          if tree_reads tree (NLdLoc loc) then Inr (root, True, fuel)
          else rbind (propagate_root (PropField fd addr) (fd_type fd) tree root fuel) (\<lambda>(root, _, fuel).
               propagate_root (PropField fd (NLdLoc loc)) (fd_type fd) tree root fuel)
      | _ \<Rightarrow> propagate_root (PropField fd addr) (fd_type fd) tree root fuel)"

definition propagate_roots ::
  "fn_sig \<Rightarrow> local_def list \<Rightarrow> cil_root \<Rightarrow> cil_root \<Rightarrow> opt_fuel \<Rightarrow> (opt_panic, cil_root \<times> bool \<times> opt_fuel) result" where
  "propagate_roots sig locals prev_root root fuel =
     (case prev_root of
        RStLoc loc tree \<Rightarrow> propagate_st_loc locals loc tree root fuel
      | RSetField fd addr tree \<Rightarrow> propagate_set_field fd addr tree root fuel
      | RStArg arg tree \<Rightarrow> propagate_st_arg sig arg tree root fuel
      | _ \<Rightarrow> Inr (root, True, fuel))"

section \<open>Substitution along a block\<close>

fun is_sfi :: "cil_root \<Rightarrow> bool" where
  "is_sfi (RSourceFileInfo _ _ _ _ _) = True"
| "is_sfi _ = False"

text \<open>\<open>local_opt_from\<close> continues after the root \<open>prev\<close>; source locations are skipped.\<close>

fun local_opt_from ::
  "fn_sig \<Rightarrow> local_def list \<Rightarrow> cil_root \<Rightarrow> cil_root list \<Rightarrow> opt_fuel \<Rightarrow> (opt_panic, cil_root list \<times> opt_fuel) result" where
  "local_opt_from sig locals prev [] fuel = Inr ([], fuel)"
| "local_opt_from sig locals prev (r # rs) fuel =
     (if is_sfi r
      then rbind (local_opt_from sig locals prev rs fuel) (\<lambda>(rs, fuel). Inr (r # rs, fuel))
      else rbind (propagate_roots sig locals prev r fuel) (\<lambda>(r, _, fuel).
           rbind (local_opt_from sig locals r rs fuel) (\<lambda>(rs, fuel). Inr (r # rs, fuel))))"

fun local_opt ::
  "fn_sig \<Rightarrow> local_def list \<Rightarrow> cil_root list \<Rightarrow> opt_fuel \<Rightarrow> (opt_panic, cil_root list \<times> opt_fuel) result" where
  "local_opt sig locals [] fuel = Inr ([], fuel)"
| "local_opt sig locals (r # rs) fuel =
     (if is_sfi r
      then rbind (local_opt sig locals rs fuel) (\<lambda>(rs, fuel). Inr (r # rs, fuel))
      else rbind (local_opt_from sig locals r rs fuel) (\<lambda>(rs, fuel). Inr (r # rs, fuel)))"

section \<open>Execution of trees and blocks\<close>

text \<open>
  \<open>set_operands\<close> replaces the operands of a node, in the order \<open>mapped_operands\<close> lists them; with
  every operand blanked out, what is left is the instruction of the node.
\<close>

fun set_operands :: "cil_node \<Rightarrow> cil_node list \<Rightarrow> cil_node" where
  "set_operands (NBinOp _ _ op) ns = NBinOp (ns ! 0) (ns ! 1) op"
| "set_operands (NUnOp _ op) ns = NUnOp (hd ns) op"
| "set_operands (NCall m _ p) ns = NCall m ns p"
| "set_operands (NIntCast _ t e) ns = NIntCast (hd ns) t e"
| "set_operands (NFloatCast _ t sg) ns = NFloatCast (hd ns) t sg"
| "set_operands (NRefToPtr _) ns = NRefToPtr (hd ns)"
| "set_operands (NPtrCast _ t) ns = NPtrCast (hd ns) t"
| "set_operands (NLdFieldAddress _ d) ns = NLdFieldAddress (hd ns) d"
| "set_operands (NLdField _ d) ns = NLdField (hd ns) d"
| "set_operands (NLdInd _ t v) ns = NLdInd (hd ns) t v"
| "set_operands (NIsInst _ t) ns = NIsInst (hd ns) t"
| "set_operands (NCheckedCast _ t) ns = NCheckedCast (hd ns) t"
| "set_operands (NCallI _ sg _) ns = NCallI (last ns) sg (butlast ns)"
| "set_operands (NLocAlloc _) ns = NLocAlloc (hd ns)"
| "set_operands (NLdLen _) ns = NLdLen (hd ns)"
| "set_operands (NLdElelemRef _ _) ns = NLdElelemRef (ns ! 0) (ns ! 1)"
| "set_operands (NLdElem _ _ t) ns = NLdElem (ns ! 0) (ns ! 1) t"
| "set_operands (NUnboxAny _ t) ns = NUnboxAny (hd ns) t"
| "set_operands (NBox _ t) ns = NBox (hd ns) t"
| "set_operands (NNewArr t _) ns = NNewArr t (hd ns)"
| "set_operands n _ = n"

definition instr :: "cil_node \<Rightarrow> cil_node" where
  "instr n = set_operands n (replicate (length (mapped_operands n)) NGetException)"

definition root_instr :: "cil_root \<Rightarrow> cil_root" where
  "root_instr r = set_root_nodes r (replicate (length (root_nodes r)) NGetException)"

lemma length_1: "length xs = Suc 0 \<longleftrightarrow> (\<exists>x. xs = [x])"
  by (cases xs) auto

lemma length_2: "length xs = Suc (Suc 0) \<longleftrightarrow> (\<exists>x y. xs = [x, y])"
  by (cases xs; cases "tl xs") auto

lemma mapped_operands_set: "length ns = length (mapped_operands n) \<Longrightarrow> mapped_operands (set_operands n ns) = ns"
  by (cases n) (auto simp: length_1 length_2, (metis Suc_length_conv append_butlast_last_id neq_Nil_conv nat.distinct(1) list.size(3)) ?)

lemma set_operands_set: "length ns = length (mapped_operands n) \<Longrightarrow> set_operands (set_operands n ns) ms = set_operands n ms"
  by (cases n) simp_all

lemma set_operands_self [simp]: "set_operands n (mapped_operands n) = n"
  by (cases n) simp_all

lemma instr_set: "length ns = length (mapped_operands n) \<Longrightarrow> instr (set_operands n ns) = instr n"
  by (simp add: instr_def mapped_operands_set set_operands_set)

lemma map_node_operands:
  "map_node f n s = (let (ns, s) = map_nodes f (mapped_operands n) s in f (set_operands n ns) s)"
proof (cases n)
  case (NCallI p sg args)
  have "map_nodes f (xs @ [p]) s =
      (let (xs, s) = map_nodes f xs s; (p, s) = map_node f p s in (xs @ [p], s))" for xs s
    by (induction xs arbitrary: s) (simp_all add: split_beta Let_def)
  then show ?thesis using NCallI by (simp add: split_beta Let_def)
qed (simp_all add: split_beta Let_def)

text \<open>
  A machine executes the instructions: \<open>act\<close> those of nodes, from the values of the operands and the
  state to a value and a state; \<open>ract\<close> those of roots. \<open>Inl\<close> leaves the block (a branch, a return, an
  exception, an invalid program), with whatever the machine then knows.
\<close>

type_synonym ('x, 'v, 's) node_act = "cil_node \<Rightarrow> 'v list \<Rightarrow> 's \<Rightarrow> ('x, 'v \<times> 's) result"
type_synonym ('x, 'v, 's) root_act = "cil_root \<Rightarrow> 'v list \<Rightarrow> 's \<Rightarrow> ('x, 's) result"

lemma mapped_operands_weight: "(\<Sum>n\<leftarrow>mapped_operands n. 2 * size n + 1) < 2 * size n + 1"
proof -
  have "(\<Sum>n\<leftarrow>ns. 2 * size n + 1) \<le> 2 * size_list size (ns :: cil_node list)" for ns by (induction ns) auto
  from this [of "case n of NCall _ as _ \<Rightarrow> as | NCallI _ _ as \<Rightarrow> as | _ \<Rightarrow> []"]
  show ?thesis by (cases n) simp_all
qed

lemma operands_weight_le: "(\<Sum>n\<leftarrow>mapped_operands n. Suc (2 * size n)) < Suc (2 * size n + k)"
  using mapped_operands_weight [of n] by simp

function exec_nodes :: "('x, 'v, 's) node_act \<Rightarrow> cil_node list \<Rightarrow> 's \<Rightarrow> ('x, 'v list \<times> 's) result" where
  "exec_nodes act [] s = Inr ([], s)"
| "exec_nodes act (n # ns) s =
     rbind (exec_nodes act (mapped_operands n) s) (\<lambda>(vs, s).
     rbind (act (instr n) vs s) (\<lambda>(v, s).
     rbind (exec_nodes act ns s) (\<lambda>(vs, s). Inr (v # vs, s))))"
  by pat_completeness auto
termination
  by (relation "measures [\<lambda>(_, ns, _). \<Sum>n\<leftarrow>ns. 2 * size n + 1]")
    (simp_all add: operands_weight_le)

fun exec_roots :: "('x, 'v, 's) node_act \<Rightarrow> ('x, 'v, 's) root_act \<Rightarrow> cil_root list \<Rightarrow> 's \<Rightarrow> ('x, 's) result" where
  "exec_roots act ract [] s = Inr s"
| "exec_roots act ract (r # rs) s =
     rbind (exec_nodes act (root_nodes r) s) (\<lambda>(vs, s).
     rbind (ract (root_instr r) vs s) (exec_roots act ract rs))"

text \<open>
  What the substitution relies on, the documented behaviour of the instructions (ECMA-335 I.12.1, III.1.1.1,
  III.1.6): instructions of total nodes yield a value and leave the state alone; a slot of type
  \<^verbatim>\<open>int8\<close>, \<^verbatim>\<open>uint8\<close>, \<^verbatim>\<open>int16\<close> or \<^verbatim>\<open>uint16\<close> keeps the low bits of what is stored and a load extends them
  again, as the conversion \<open>slot_conv\<close> to that type does with the value on the stack; a slot of any other
  type gives back a value of that type. Which stack values are values of a type is the parameter \<open>fits\<close>:
  nothing is assumed of a store of another value, such as an integer other than 0 and 1 into a
  \<^verbatim>\<open>bool\<close> or a float not yet rounded into a \<^verbatim>\<open>float32\<close>. A store to a slot changes nothing that
  total nodes other than the load of the slot yield, and source locations do nothing.
\<close>

fun slot_conv :: "cil_type \<Rightarrow> cil_node option" where
  "slot_conv (TInt I8) = Some (NIntCast NGetException I8 SignExtend)"
| "slot_conv (TInt U8) = Some (NIntCast NGetException U8 ZeroExtend)"
| "slot_conv (TInt I16) = Some (NIntCast NGetException I16 SignExtend)"
| "slot_conv (TInt U16) = Some (NIntCast NGetException U16 ZeroExtend)"
| "slot_conv _ = None"

definition reads_back ::
  "('x, 'v, 's) node_act \<Rightarrow> cil_type \<Rightarrow> cil_node \<Rightarrow> 'v \<Rightarrow> 's \<Rightarrow> 's \<Rightarrow> bool" where
  "reads_back act t load v s s' \<longleftrightarrow>
     map_sum id fst (act load [] s') = (case slot_conv t of Some c \<Rightarrow> map_sum id fst (act c [v] s') | None \<Rightarrow> Inr v)
   \<and> (\<forall>n vs. total_op n \<longrightarrow> n \<noteq> load \<longrightarrow> length vs = length (mapped_operands n) \<longrightarrow>
        map_sum id fst (act (instr n) vs s') = map_sum id fst (act (instr n) vs s))"

definition fits_slot :: "(cil_type \<Rightarrow> 'v \<Rightarrow> bool) \<Rightarrow> cil_type \<Rightarrow> 'v \<Rightarrow> bool" where
  "fits_slot fits t v \<longleftrightarrow> slot_conv t = None \<longrightarrow> fits t v"

definition machine ::
  "(cil_type \<Rightarrow> 'v \<Rightarrow> bool) \<Rightarrow> fn_sig \<Rightarrow> local_def list \<Rightarrow> ('x, 'v, 's) node_act \<Rightarrow> ('x, 'v, 's) root_act \<Rightarrow> bool" where
  "machine fits sig locals act ract \<longleftrightarrow>
     (\<forall>n vs s. total_op n \<longrightarrow> length vs = length (mapped_operands n) \<longrightarrow> (\<exists>v. act (instr n) vs s = Inr (v, s)))
   \<and> (\<forall>l n v s s'. ract (root_instr (RStLoc l n)) [v] s = Inr s' \<longrightarrow> unat l < length locals \<longrightarrow>
        fits_slot fits (snd (locals ! unat l)) v \<longrightarrow> reads_back act (snd (locals ! unat l)) (NLdLoc l) v s s')
   \<and> (\<forall>a n v s s'. ract (root_instr (RStArg a n)) [v] s = Inr s' \<longrightarrow> unat a < length (sig_inputs sig) \<longrightarrow>
        fits_slot fits (sig_inputs sig ! unat a) v \<longrightarrow> reads_back act (sig_inputs sig ! unat a) (NLdArg a) v s s')
   \<and> (\<forall>r s. is_sfi r \<longrightarrow> ract r [] s = Inr s)"

text \<open>A machine on which every value can be kept in every slot.\<close>

abbreviation exact_machine ::
  "fn_sig \<Rightarrow> local_def list \<Rightarrow> ('x, 'v, 's) node_act \<Rightarrow> ('x, 'v, 's) root_act \<Rightarrow> bool" where
  "exact_machine \<equiv> machine (\<lambda>_ _. True)"

text \<open>The stores a run of a block reaches put a value of its type into every slot.\<close>

fun store_fits :: "(cil_type \<Rightarrow> 'v \<Rightarrow> bool) \<Rightarrow> fn_sig \<Rightarrow> local_def list \<Rightarrow> cil_root \<Rightarrow> 'v list \<Rightarrow> bool" where
  "store_fits fits sig locals (RStLoc l _) vs = list_all (fits_slot fits (snd (locals ! unat l))) vs"
| "store_fits fits sig locals (RStArg a _) vs = list_all (fits_slot fits (sig_inputs sig ! unat a)) vs"
| "store_fits fits sig locals _ vs = True"

fun stores_fit ::
  "(cil_type \<Rightarrow> 'v \<Rightarrow> bool) \<Rightarrow> fn_sig \<Rightarrow> local_def list \<Rightarrow> ('x, 'v, 's) node_act \<Rightarrow> ('x, 'v, 's) root_act \<Rightarrow>
     cil_root list \<Rightarrow> 's \<Rightarrow> bool" where
  "stores_fit fits sig locals act ract [] s = True"
| "stores_fit fits sig locals act ract (r # rs) s =
     (case exec_nodes act (root_nodes r) s of
        Inl _ \<Rightarrow> True
      | Inr (vs, s) \<Rightarrow> store_fits fits sig locals (root_instr r) vs
          \<and> (case ract (root_instr r) vs s of Inl _ \<Rightarrow> True | Inr s \<Rightarrow> stores_fit fits sig locals act ract rs s))"

section \<open>Total trees\<close>

abbreviation total :: "cil_node \<Rightarrow> bool" where
  "total n \<equiv> is_pure_total (effect_of n)"

lemma set_mapped_operands: "set (mapped_operands n) = set (operands n)"
  by (cases n) auto

lemma total_iff: "total n \<longleftrightarrow> total_op n \<and> list_all total (mapped_operands n)"
proof -
  have "total n \<longleftrightarrow> total_op n \<and> (\<forall>c\<in>set (operands n). total c)"
    by (auto simp: is_pure_total_def pure_subterms own_effect_total subterms.simps [of n] ball_Un)
  then show ?thesis by (simp add: list_all_iff set_mapped_operands)
qed

lemma total_op_set: "total_op (set_operands n ns) = total_op n"
  by (cases n) simp_all

lemma nodes_induct [case_names Nil Cons]:
  assumes "P []" "\<And>n ns. P (mapped_operands n) \<Longrightarrow> P ns \<Longrightarrow> P (n # ns)"
  shows "P ns"
proof (induction ns rule: measure_induct_rule [where f = "\<lambda>ns. \<Sum>n\<leftarrow>ns. 2 * size n + 1"])
  case (less ns)
  show ?case
  proof (cases ns)
    case (Cons n ms)
    have "P (mapped_operands n)" "P ms"
      using less [of "mapped_operands n"] less [of ms] operands_weight_le [of n] Cons by auto
    then show ?thesis using assms(2) Cons by simp
  qed (simp add: assms(1))
qed

lemma exec_nodes_Cons:
  "exec_nodes act (n # ns) s =
     rbind (exec_nodes act [n] s) (\<lambda>(vs, s). rbind (exec_nodes act ns s) (\<lambda>(ws, s). Inr (vs @ ws, s)))"
  by (simp add: split_beta rbind_def split: sum.splits)

definition eval :: "('x, 'v, 's) node_act \<Rightarrow> 's \<Rightarrow> cil_node \<Rightarrow> 'v" where
  "eval act s n = hd (fst (projr (exec_nodes act [n] s)))"

definition total_laws :: "('x, 'v, 's) node_act \<Rightarrow> bool" where
  "total_laws act \<longleftrightarrow>
     (\<forall>n vs s. total_op n \<longrightarrow> length vs = length (mapped_operands n) \<longrightarrow> (\<exists>v. act (instr n) vs s = Inr (v, s)))"

lemma exec_total:
  assumes "total_laws act"
  shows "list_all total ns \<Longrightarrow> exec_nodes act ns s = Inr (map (eval act s) ns, s)"
proof (induction ns rule: nodes_induct)
  case (Cons n ns)
  have n: "total_op n" "list_all total (mapped_operands n)" using Cons.prems total_iff [of n] by simp_all
  have ops: "exec_nodes act (mapped_operands n) s = Inr (map (eval act s) (mapped_operands n), s)"
    using Cons.IH(1) n by simp
  obtain v where v: "act (instr n) (map (eval act s) (mapped_operands n)) s = Inr (v, s)"
    using assms n(1) unfolding total_laws_def by (metis length_map)
  have "eval act s n = v" unfolding eval_def using ops v by simp
  then show ?case using ops v Cons by simp
qed simp

lemma eval_unfold:
  assumes "total_laws act" "total n"
  shows "act (instr n) (map (eval act s) (mapped_operands n)) s = Inr (eval act s n, s)"
proof -
  have n: "total_op n" "list_all total (mapped_operands n)" using assms(2) total_iff [of n] by simp_all
  have "exec_nodes act [n] s = Inr ([eval act s n], s)" using exec_total [OF assms(1), of "[n]"] assms(2) by simp
  then show ?thesis using exec_total [OF assms(1) n(2), of s]
    by (auto simp: rbind_def split: sum.splits prod.splits)
qed

section \<open>What the substitution does to a tree\<close>

inductive replaced :: "cil_node \<Rightarrow> cil_node \<Rightarrow> cil_node \<Rightarrow> cil_node \<Rightarrow> bool" for a b where
  here: "replaced a b a b"
| ops: "list_all2 (replaced a b) (mapped_operands n) ns \<Longrightarrow> replaced a b n (set_operands n ns)"

lemma replaced_refl [simp, intro]: "replaced a b n n"
proof -
  have "list_all2 (replaced a b) ns ns" for ns
  proof (induction ns rule: nodes_induct)
    case (Cons n ns)
    then show ?case using replaced.ops [of a b n "mapped_operands n"] by simp
  qed simp
  then show ?thesis by (metis list_all2_Cons)
qed

lemma replaced_cong:
  assumes "replaced a b n n'"
  shows "replaced a b (NUnOp n op) (NUnOp n' op)"
    and "replaced a b (NIntCast n i ex) (NIntCast n' i ex)"
    and "replaced a b (NFloatCast n fl sg) (NFloatCast n' fl sg)"
    and "replaced a b (NRefToPtr n) (NRefToPtr n')"
    and "replaced a b (NPtrCast n res) (NPtrCast n' res)"
    and "replaced a b (NLdFieldAddress n fd) (NLdFieldAddress n' fd)"
    and "replaced a b (NLdField n fd) (NLdField n' fd)"
    and "replaced a b (NLdInd n t vol) (NLdInd n' t vol)"
    and "replaced a b (NIsInst n t) (NIsInst n' t)"
    and "replaced a b (NCheckedCast n t) (NCheckedCast n' t)"
    and "replaced a b (NLdLen n) (NLdLen n')"
    and "replaced a b (NUnboxAny n t) (NUnboxAny n' t)"
    and "replaced a b (NBox n t) (NBox n' t)"
    and "replaced a b (NNewArr t n) (NNewArr t n')"
  using assms replaced.ops [of a b "NUnOp n op" "[n']"]
    replaced.ops [of a b "NIntCast n i ex" "[n']"]
    replaced.ops [of a b "NFloatCast n fl sg" "[n']"]
    replaced.ops [of a b "NRefToPtr n" "[n']"]
    replaced.ops [of a b "NPtrCast n res" "[n']"]
    replaced.ops [of a b "NLdFieldAddress n fd" "[n']"]
    replaced.ops [of a b "NLdField n fd" "[n']"]
    replaced.ops [of a b "NLdInd n t vol" "[n']"]
    replaced.ops [of a b "NIsInst n t" "[n']"]
    replaced.ops [of a b "NCheckedCast n t" "[n']"]
    replaced.ops [of a b "NLdLen n" "[n']"]
    replaced.ops [of a b "NUnboxAny n t" "[n']"]
    replaced.ops [of a b "NBox n t" "[n']"]
    replaced.ops [of a b "NNewArr t n" "[n']"]
  by simp_all

lemma replaced_cong2:
  assumes "replaced a b l l'" "replaced a b r r'"
  shows "replaced a b (NBinOp l r bop) (NBinOp l' r' bop)"
    and "replaced a b (NLdElelemRef l r) (NLdElelemRef l' r')"
    and "replaced a b (NLdElem l r t) (NLdElem l' r' t)"
  using assms replaced.ops [of a b "NBinOp l r bop" "[l', r']"] replaced.ops [of a b "NLdElelemRef l r" "[l', r']"]
    replaced.ops [of a b "NLdElem l r t" "[l', r']"]
  by simp_all

lemma replaced_call: "list_all2 (replaced a b) ns ns' \<Longrightarrow> replaced a b (NCall m ns p) (NCall m ns' p)"
  using replaced.ops [of a b "NCall m ns p" ns'] by simp

fun load_of :: "local_propagate \<Rightarrow> cil_node" where
  "load_of (PropLocal l) = NLdLoc l"
| "load_of (PropArg a) = NLdArg a"
| "load_of (PropField fd a) = NLdField a fd"

definition replacement :: "local_propagate \<Rightarrow> cil_type \<Rightarrow> cil_node \<Rightarrow> cil_node" where
  "replacement idx t tree = (case propagated_load t tree of Some n \<Rightarrow> n | None \<Rightarrow> load_of idx)"

lemma propagate_here_replaced:
  "load_of idx = n \<Longrightarrow> replaced (load_of idx) (replacement idx t tree) n (fst (propagate_here n t tree fuel))"
  by (auto simp: propagate_here_def replacement_def split_beta Let_def replaced.here split: option.splits)

lemma propagate_locals_replaced:
  "propagate_locals idx t tree n fuel = Inr (n', fuel') \<Longrightarrow> replaced (load_of idx) (replacement idx t tree) n n'"
  "propagate_args idx t tree ns fuel = Inr (ns', fuel') \<Longrightarrow> list_all2 (replaced (load_of idx) (replacement idx t tree)) ns ns'"
proof (induction idx t tree n fuel and idx t tree ns fuel arbitrary: n' fuel' and ns' fuel'
    rule: propagate_locals_propagate_args.induct)
  case (3 idx t new a fd fuel)
  then show ?case using propagate_here_replaced [of idx "NLdField a fd" t new fuel]
    by (auto simp: rbind_eq_Inr intro: replaced_cong split: if_splits)
next
  case (4 idx t new l fuel)
  then show ?case using propagate_here_replaced [of idx "NLdLoc l" t new fuel] by (auto split: if_splits)
next
  case (5 idx t new l fuel)
  then show ?case using propagate_here_replaced [of idx "NLdArg l" t new fuel] by (auto split: if_splits)
qed (fastforce simp: rbind_eq_Inr intro: replaced_cong replaced_cong2 replaced_call)+

lemma replaced_is_total:
  assumes "replaced a b n n'" "total b" "total n"
  shows "total n'"
  using assms(1,3)
proof (induction n n' rule: replaced.induct)
  case (ops n ns)
  then have "length ns = length (mapped_operands n)" by (simp add: list_all2_lengthD)
  then show ?case using ops total_iff [of n] total_iff [of "set_operands n ns"]
    by (auto simp: total_op_set mapped_operands_set list_all2_conv_all_nth list_all_length)
qed (use assms in simp)

lemma replaced_total:
  assumes "replaced a b n n'" "total b" "total_laws act" "eval act s a = eval act s b" "total n"
  shows "total n' \<and> eval act s n' = eval act s n"
  using assms(1,5)
proof (induction n n' rule: replaced.induct)
  case (ops n ns)
  have n: "total_op n" "list_all total (mapped_operands n)" using ops.prems total_iff [of n] by simp_all
  have len: "length ns = length (mapped_operands n)" using ops.IH by (simp add: list_all2_lengthD)
  have sub: "total (ns ! i) \<and> eval act s (ns ! i) = eval act s (mapped_operands n ! i)"
    if "i < length ns" for i
    using that ops.IH n(2) len by (auto simp: list_all2_conv_all_nth list_all_length)
  have t: "total (set_operands n ns)"
    using n sub len by (simp add: total_iff [of "set_operands n ns"] total_op_set mapped_operands_set list_all_length)
  have vs: "map (eval act s) ns = map (eval act s) (mapped_operands n)"
    using sub len by (intro nth_equalityI) simp_all
  have "act (instr n) (map (eval act s) ns) s = Inr (eval act s (set_operands n ns), s)"
    using eval_unfold [OF assms(3) t, of s] len by (simp add: instr_set mapped_operands_set)
  moreover have "act (instr n) (map (eval act s) ns) s = Inr (eval act s n, s)"
    using eval_unfold [OF assms(3) ops.prems, of s] vs by simp
  ultimately show ?case using t by simp
qed (use assms in simp)

lemma replaced_exec:
  assumes "replaced a b n n'" "total b" "total_laws act" "eval act s a = eval act s b" "total n"
  shows "exec_nodes act [n'] s = exec_nodes act [n] s"
  using replaced_total [OF assms] exec_total [OF assms(3), of "[n]" s] exec_total [OF assms(3), of "[n']" s] assms(5)
  by simp

text \<open>On a total tree the substitution never panics: the node it does not handle is not total.\<close>

lemma propagate_locals_total:
  "total n \<Longrightarrow> \<exists>r. propagate_locals idx t tree n fuel = Inr r"
  "list_all total ns \<Longrightarrow> \<exists>r. propagate_args idx t tree ns fuel = Inr r"
proof (induction idx t tree n fuel and idx t tree ns fuel rule: propagate_locals_propagate_args.induct)
  case (1 idx t new l r op fuel)
  have t: "total l" "total r" using total_iff [of "NBinOp l r op"] 1(3) by simp_all
  then obtain l' f' where "propagate_locals idx t new l fuel = Inr (l', f')" using 1(1) by auto
  moreover have "\<exists>x. propagate_locals idx t new r f' = Inr x" by (rule 1(2) [OF t(2)])
  ultimately show ?case by auto
next
  case (34 idx t new n ns fuel)
  then obtain n' f' where "propagate_locals idx t new n fuel = Inr (n', f')" by auto
  moreover have "\<exists>x. propagate_args idx t new ns f' = Inr x" using 34 by simp
  ultimately show ?case by auto
qed (auto simp: total_iff [of "NUnOp _ _"] total_iff [of "NLdField _ _"] total_iff [of "NCall _ _ _"]
  total_iff [of "NIntCast _ _ _"] total_iff [of "NFloatCast _ _ _"] total_iff [of "NRefToPtr _"]
  total_iff [of "NPtrCast _ _"] total_iff [of "NLdFieldAddress _ _"] total_iff [of "NLdInd _ _ _"]
  total_iff [of "NIsInst _ _"] total_iff [of "NCheckedCast _ _"] total_iff [of "NCallI _ _ _"]
  total_iff [of "NLdLen _"] total_iff [of "NLdElelemRef _ _"] total_iff [of "NLdElem _ _ _"]
  total_iff [of "NUnboxAny _ _"] total_iff [of "NBox _ _"] total_iff [of "NNewArr _ _"])

lemma map_nodes_cant_prop: "map_nodes (prop_step idx t tree) ns (Inr (True, fuel)) = (ns, Inr (True, fuel))"
proof (induction ns rule: nodes_induct)
  case (Cons n ns)
  then show ?case by (simp add: map_node_operands)
qed simp

text \<open>What one pass of the closure over a list of trees establishes.\<close>

definition prop_ok ::
  "('x, 'v, 's) node_act \<Rightarrow> local_propagate \<Rightarrow> cil_type \<Rightarrow> cil_node \<Rightarrow> cil_node list \<Rightarrow> cil_node list \<times> prop_state \<Rightarrow> bool" where
  "prop_ok act idx t tree ns res \<longleftrightarrow>
     (\<exists>ns' cp fuel. res = (ns', Inr (cp, fuel)) \<and> length ns' = length ns
        \<and> (\<not> cp \<longrightarrow> list_all total ns \<and> list_all total ns')
        \<and> (\<forall>s. eval act s (load_of idx) = eval act s (replacement idx t tree) \<longrightarrow>
              exec_nodes act ns' s = exec_nodes act ns s))"

lemma prop_step_ok:
  assumes "total_laws act" "total (replacement idx t tree)"
    and "prop_ok act idx t tree (mapped_operands n) (ns', Inr (cp, fuel))"
    and step: "prop_step idx t tree (set_operands n ns') (Inr (cp, fuel)) = (n', st)"
  shows "prop_ok act idx t tree [n] ([n'], st)"
proof -
  let ?n = "set_operands n ns'"
  have len: "length ns' = length (mapped_operands n)" using assms(3) by (auto simp: prop_ok_def)
  have exec: "exec_nodes act [?n] s = exec_nodes act [n] s"
    if "eval act s (load_of idx) = eval act s (replacement idx t tree)" for s
    using that assms(3) len by (simp add: prop_ok_def instr_set mapped_operands_set)
  show ?thesis
  proof (cases "cp \<or> \<not> total ?n")
    case True
    then have "n' = ?n" "st = Inr (True, fuel)" using step by auto
    then show ?thesis using exec by (auto simp: prop_ok_def)
  next
    case False
    then have n: "total n" "total ?n"
      using assms(3) len by (auto simp: prop_ok_def total_iff [of n] total_iff [of ?n] total_op_set mapped_operands_set)
    obtain m fuel' where "propagate_locals idx t tree ?n fuel = Inr (m, fuel')"
      using propagate_locals_total(1) [OF n(2)] by fast
    then have m: "n' = m" "st = Inr (False, fuel')" "replaced (load_of idx) (replacement idx t tree) ?n m"
      using step False propagate_locals_replaced(1) by auto
    have "total m" using replaced_is_total [OF m(3) assms(2) n(2)] .
    then show ?thesis using m n exec replaced_exec [OF m(3) assms(2,1) _ n(2)] by (auto simp: prop_ok_def)
  qed
qed

lemma prop_ok_Cons:
  assumes "total_laws act" "prop_ok act idx t tree [n] ([n'], Inr (cp, fuel))"
    and "\<not> cp \<Longrightarrow> prop_ok act idx t tree ns (ns', st)" "cp \<Longrightarrow> ns' = ns \<and> st = Inr (True, fuel)"
  shows "prop_ok act idx t tree (n # ns) (n' # ns', st)"
proof (cases cp)
  case True
  then show ?thesis using assms(2,4) exec_nodes_Cons [of act n ns] exec_nodes_Cons [of act n' ns]
    by (auto simp: prop_ok_def simp del: exec_nodes.simps)
next
  case False
  then have "total n" "total n'" using assms(2) by (auto simp: prop_ok_def)
  then have "exec_nodes act [n] s = Inr ([eval act s n], s)" "exec_nodes act [n'] s = Inr ([eval act s n'], s)" for s
    using exec_total [OF assms(1), of "[n]"] exec_total [OF assms(1), of "[n']"] by simp_all
  then show ?thesis using False assms(2,3) exec_nodes_Cons [of act n ns] exec_nodes_Cons [of act n' ns']
    by (auto simp: prop_ok_def simp del: exec_nodes.simps)
qed

lemma map_nodes_prop:
  assumes "total_laws act" "total (replacement idx t tree)"
  shows "prop_ok act idx t tree ns (map_nodes (prop_step idx t tree) ns (Inr (False, fuel)))"
proof (induction ns arbitrary: fuel rule: nodes_induct)
  case (Cons n ns)
  obtain ops cp fuel1 where ops: "map_nodes (prop_step idx t tree) (mapped_operands n) (Inr (False, fuel)) = (ops, Inr (cp, fuel1))"
    using Cons(1) [of fuel] unfolding prop_ok_def by blast
  obtain n' st where step: "prop_step idx t tree (set_operands n ops) (Inr (cp, fuel1)) = (n', st)" by fastforce
  have ok: "prop_ok act idx t tree [n] ([n'], st)"
    using prop_step_ok [OF assms _ step] Cons(1) [of fuel] ops by simp
  then obtain cp2 fuel2 where st: "st = Inr (cp2, fuel2)" by (auto simp: prop_ok_def)
  obtain ns' st2 where ns: "map_nodes (prop_step idx t tree) ns st = (ns', st2)" by fastforce
  have "map_nodes (prop_step idx t tree) (n # ns) (Inr (False, fuel)) = (n' # ns', st2)"
    using ops step ns by (simp add: map_node_operands)
  moreover have "prop_ok act idx t tree (n # ns) (n' # ns', st2)"
  proof (rule prop_ok_Cons [OF assms(1) ok [unfolded st]])
    show "prop_ok act idx t tree ns (ns', st2)" if "\<not> cp2" using that Cons(2) [of fuel2] ns st by simp
    show "ns' = ns \<and> st2 = Inr (True, fuel2)" if "cp2" using that ns st map_nodes_cant_prop by simp
  qed
  ultimately show ?case by simp
qed (auto simp: prop_ok_def)

section \<open>What the substitution does to a root\<close>

lemma length_3: "length xs = Suc (Suc (Suc 0)) \<longleftrightarrow> (\<exists>x y z. xs = [x, y, z])"
  by (cases xs; cases "tl xs"; cases "tl (tl xs)") auto

lemma set_cond_nodes_set:
  "length ns = length (cond_nodes c) \<Longrightarrow> length ms = length (cond_nodes c) \<Longrightarrow>
   set_cond_nodes (set_cond_nodes c ns) ms = set_cond_nodes c ms"
  by (cases c) (auto simp: length_1 length_2)

lemma set_root_nodes_set:
  assumes "length ns = length (root_nodes r)" "length ms = length (root_nodes r)"
  shows "set_root_nodes (set_root_nodes r ns) ms = set_root_nodes r ms"
proof (cases r)
  case (RBranch t u c)
  then show ?thesis using assms set_cond_nodes_set by (cases c) auto
next
  case (RCallI p sg args)
  then show ?thesis using assms by (cases ns; cases ms) simp_all
qed (use assms in \<open>auto simp: length_1 length_2 length_3\<close>)

lemma root_instr_set: "length ns = length (root_nodes r) \<Longrightarrow> root_instr (set_root_nodes r ns) = root_instr r"
  unfolding root_instr_def using root_nodes_mut_parts(1) [of ns r] set_root_nodes_set by simp

text \<open>
  \<open>keeps_root\<close>: a root was replaced by one with the same instruction that executes like it in the
  states of a set.
\<close>

definition keeps_root ::
  "('x, 'v, 's) node_act \<Rightarrow> ('x, 'v, 's) root_act \<Rightarrow> ('s \<Rightarrow> bool) \<Rightarrow> cil_root \<Rightarrow> cil_root \<Rightarrow> bool" where
  "keeps_root act ract P r r' \<longleftrightarrow>
     root_instr r' = root_instr r \<and> (\<forall>s. P s \<longrightarrow> exec_roots act ract [r'] s = exec_roots act ract [r] s)"

lemma keeps_root_refl [simp]: "keeps_root act ract P r r"
  by (simp add: keeps_root_def)

lemma propagate_root_ok:
  assumes "total_laws act" "total (replacement idx t tree)"
  shows "\<exists>r' cp fuel'. propagate_root idx t tree r fuel = Inr (r', cp, fuel')
    \<and> keeps_root act ract (\<lambda>s. eval act s (load_of idx) = eval act s (replacement idx t tree)) r r'"
proof -
  obtain ns cp fuel' where m: "map_nodes (prop_step idx t tree) (root_nodes r) (Inr (False, fuel)) = (ns, Inr (cp, fuel'))"
      and len: "length ns = length (root_nodes r)"
      and ex: "\<And>s. eval act s (load_of idx) = eval act s (replacement idx t tree) \<Longrightarrow>
        exec_nodes act ns s = exec_nodes act (root_nodes r) s"
    using map_nodes_prop [OF assms, of "root_nodes r" fuel] unfolding prop_ok_def by blast
  have "propagate_root idx t tree r fuel = Inr (set_root_nodes r ns, cp, fuel')"
    by (simp add: propagate_root_def m)
  moreover have "root_nodes (set_root_nodes r ns) = ns" using len root_nodes_mut_parts(1) by blast
  ultimately show ?thesis using ex len by (auto simp: keeps_root_def root_instr_set)
qed

section \<open>The field substitution never applies\<close>

lemma propagate_locals_field:
  "total n \<Longrightarrow> propagate_locals (PropField fd a) t tree n fuel = Inr (n, fuel)"
proof (induction n arbitrary: fuel)
  case (NBinOp l r op)
  then show ?case using total_iff [of "NBinOp l r op"] by simp
qed (simp_all add: total_iff [of "NUnOp _ _"] total_iff [of "NLdField _ _"] total_iff [of "NCall _ _ _"]
  total_iff [of "NIntCast _ _ _"] total_iff [of "NFloatCast _ _ _"] total_iff [of "NRefToPtr _"]
  total_iff [of "NPtrCast _ _"] total_iff [of "NLdFieldAddress _ _"] total_iff [of "NLdInd _ _ _"]
  total_iff [of "NIsInst _ _"] total_iff [of "NCheckedCast _ _"] total_iff [of "NCallI _ _ _"]
  total_iff [of "NLdLen _"] total_iff [of "NLdElelemRef _ _"] total_iff [of "NLdElem _ _ _"]
  total_iff [of "NUnboxAny _ _"] total_iff [of "NBox _ _"] total_iff [of "NNewArr _ _"])

lemma map_nodes_field:
  "\<exists>cp'. map_nodes (prop_step (PropField fd a) t tree) ns (Inr (cp, fuel)) = (ns, Inr (cp', fuel))"
proof (induction ns arbitrary: cp rule: nodes_induct)
  case (Cons n ns)
  obtain c1 where "map_nodes (prop_step (PropField fd a) t tree) (mapped_operands n) (Inr (cp, fuel)) = (mapped_operands n, Inr (c1, fuel))"
    using Cons(1) by blast
  moreover obtain c2 where "prop_step (PropField fd a) t tree n (Inr (c1, fuel)) = (n, Inr (c2, fuel))"
    using propagate_locals_field [of n] by (cases "c1 \<or> \<not> total n") auto
  moreover obtain c3 where "map_nodes (prop_step (PropField fd a) t tree) ns (Inr (c2, fuel)) = (ns, Inr (c3, fuel))"
    using Cons(2) by blast
  ultimately show ?case by (simp add: map_node_operands)
qed simp

lemma propagate_root_field: "\<exists>cp. propagate_root (PropField fd a) t tree r fuel = Inr (r, cp, fuel)"
  using map_nodes_field [of fd a t tree "root_nodes r" False fuel] root_nodes_mut_parts(2) [of r]
  by (auto simp: propagate_root_def)

lemma propagate_set_field_id: "\<exists>cp. propagate_set_field fd addr tree r fuel = Inr (r, cp, fuel)"
proof -
  have p: "\<exists>cp. propagate_root (PropField fd a) (fd_type fd) tree r fuel = Inr (r, cp, fuel)" for a
    by (rule propagate_root_field)
  show ?thesis
  proof (cases addr)
    case (NLdLocA l)
    then show ?thesis using p [of "NLdLocA l"] p [of "NLdLoc l"] by (auto simp: propagate_set_field_def)
  qed (use p [of addr] in \<open>auto simp: propagate_set_field_def\<close>)
qed

text \<open>
  The field arm of the forward substitution is dead: whatever field store precedes a root, the
  root and the fuel come back unchanged, because a field load is never free of effects and the
  substitution only enters effect-free trees.
\<close>

theorem field_propagation_dead:
  "map_sum id (\<lambda>(r', _, fuel'). (r', fuel')) (propagate_roots sig locals (RSetField fd addr tree) r fuel) = Inr (r, fuel)"
  using propagate_set_field_id [of fd addr tree r fuel] by (auto simp: propagate_roots_def)

section \<open>What the substitution does to a block\<close>

fun store_in_range :: "fn_sig \<Rightarrow> local_def list \<Rightarrow> cil_root \<Rightarrow> bool" where
  "store_in_range sig locals (RStLoc l _) = (unat l < length locals)"
| "store_in_range sig locals (RStArg a _) = (unat a < length (sig_inputs sig))"
| "store_in_range sig locals _ = True"

lemma store_in_range_set:
  "length ns = length (root_nodes r) \<Longrightarrow> store_in_range sig locals (set_root_nodes r ns) = store_in_range sig locals r"
  by (cases r) (auto simp: length_1 length_2 length_3 split: option.splits)

lemma store_in_range_instr: "root_instr r' = root_instr r \<Longrightarrow> store_in_range sig locals r' = store_in_range sig locals r"
  unfolding root_instr_def by (metis length_replicate store_in_range_set)

lemma eval_after_store:
  assumes "total_laws act" "reads_back act t load v s0 s"
  shows "total n \<Longrightarrow> load \<notin> set (subterms n) \<Longrightarrow> eval act s n = eval act s0 n"
proof (induction n rule: subterms.induct)
  case (1 n)
  have n: "total_op n" "list_all total (mapped_operands n)" using 1(2) total_iff [of n] by simp_all
  have "eval act s c = eval act s0 c" if "c \<in> set (mapped_operands n)" for c
    using that 1 n by (auto simp: set_mapped_operands subterms.simps [of n] list_all_iff)
  then have vs: "map (eval act s) (mapped_operands n) = map (eval act s0) (mapped_operands n)" by simp
  have "n \<noteq> load" using 1(3) by (auto simp: subterms.simps [of n])
  then have "map_sum id fst (act (instr n) (map (eval act s0) (mapped_operands n)) s)
      = map_sum id fst (act (instr n) (map (eval act s0) (mapped_operands n)) s0)"
    using assms(2) n(1) by (auto simp: reads_back_def)
  then show ?case using eval_unfold [OF assms(1) 1(2), of s] eval_unfold [OF assms(1) 1(2), of s0] vs by simp
qed

lemma total_iter: "total n \<Longrightarrow> cil_iter [ENode n] = map ENode (subterms n)"
  using iter_subterms [of n] own_effect_ldelem_ref unfolding is_pure_total_def pure_subterms by blast

lemma tree_reads_total: "total tree \<Longrightarrow> tree_reads tree n \<longleftrightarrow> n \<in> set (subterms tree)"
  by (auto simp: tree_reads_def total_iter list_ex_iff simp del: cil_iter_Cons)

lemma replacement_after_store:
  assumes "total_laws act" "load_of idx = load" "mapped_operands load = []" "total_op load"
    and "total tree" "load \<notin> set (subterms tree)"
    and "reads_back act t load (eval act s0 tree) s0 s"
  shows "total (replacement idx t tree)" and "eval act s load = eval act s (replacement idx t tree)"
proof -
  have load: "total load" using assms(3,4) total_iff [of load] by simp
  have lv: "act load [] s = Inr (eval act s load, s)"
    using eval_unfold [OF assms(1) load, of s] assms(3) by (simp add: instr_def) (metis set_operands_self)
  have tv: "eval act s tree = eval act s0 tree" using eval_after_store [OF assms(1,7,5,6)] .
  have "total (replacement idx t tree) \<and> eval act s load = eval act s (replacement idx t tree)"
  proof (cases "slot_conv t")
    case (Some c)
    then obtain i ex where p: "slot_conv t = Some (NIntCast NGetException i ex)" and r: "replacement idx t tree = NIntCast tree i ex"
      by (cases t rule: slot_conv.cases) (auto simp: propagated_load_def replacement_def)
    have tc: "total (NIntCast tree i ex)" using assms(5) total_iff [of "NIntCast tree i ex"] by simp
    have "act (NIntCast NGetException i ex) [eval act s0 tree] s = Inr (eval act s (NIntCast tree i ex), s)"
      using eval_unfold [OF assms(1) tc, of s] tv by (simp add: instr_def)
    then show ?thesis using assms(7) p r tc lv by (auto simp: reads_back_def)
  next
    case None
    then have "propagated_load t tree = Some tree \<or> propagated_load t tree = None"
      by (cases t rule: slot_conv.cases) (auto simp: propagated_load_def split: cil_type.splits)
    then show ?thesis using assms(2,5,7) None load lv tv by (auto simp: replacement_def reads_back_def)
  qed
  then show "total (replacement idx t tree)" "eval act s load = eval act s (replacement idx t tree)" by auto
qed

lemma exec_one_store:
  assumes "total_laws act" "total tree" "root_nodes prev = [tree]" "exec_roots act ract [prev] s0 = Inr s"
  shows "ract (root_instr prev) [eval act s0 tree] s0 = Inr s"
  using assms exec_total [OF assms(1), of "[tree]" s0]
  by (auto simp: rbind_eq_Inr simp del: exec_nodes.simps)

text \<open>The states in which a root leaves the machine when it goes on to the next.\<close>

definition after :: "('x, 'v, 's) node_act \<Rightarrow> ('x, 'v, 's) root_act \<Rightarrow> cil_root \<Rightarrow> 's \<Rightarrow> bool" where
  "after act ract prev s \<longleftrightarrow> (\<exists>s0. exec_roots act ract [prev] s0 = Inr s)"

lemma propagate_slot_ok:
  assumes m: "exact_machine sig locals act ract"
    and "propagates_tree tree load" "load_of idx = load" "mapped_operands load = []" "total_op load"
    and prev: "root_nodes prev = [tree]"
    and rb: "\<And>v s0 s. ract (root_instr prev) [v] s0 = Inr s \<Longrightarrow> reads_back act t load v s0 s"
  shows "\<exists>r' cp fuel'. propagate_root idx t tree r fuel = Inr (r', cp, fuel')
    \<and> keeps_root act ract (after act ract prev) r r'"
proof -
  have laws: "total_laws act" using m by (simp add: machine_def total_laws_def)
  have tree: "total tree" "load \<notin> set (subterms tree)"
    using assms(2) tree_reads_total by (auto simp: propagates_tree_def)
  have rep: "total (replacement idx t tree)"
    using tree(1) assms(3,4,5) total_iff [of load] total_iff [of "NIntCast tree _ _"]
    by (auto simp: replacement_def propagated_load_def split: cil_type.splits)
  have ev: "eval act s (load_of idx) = eval act s (replacement idx t tree)" if "after act ract prev s" for s
  proof -
    obtain s0 where "exec_roots act ract [prev] s0 = Inr s" using \<open>after act ract prev s\<close> unfolding after_def by blast
    then have "reads_back act t load (eval act s0 tree) s0 s"
      using rb exec_one_store [OF laws tree(1) prev] by blast
    then show ?thesis using replacement_after_store(2) [OF laws assms(3,4,5) tree] assms(3) by blast
  qed
  obtain r' cp fuel' where "propagate_root idx t tree r fuel = Inr (r', cp, fuel')"
      "keeps_root act ract (\<lambda>s. eval act s (load_of idx) = eval act s (replacement idx t tree)) r r'"
    using propagate_root_ok [OF laws rep] by blast
  then show ?thesis using ev by (auto simp: keeps_root_def)
qed

lemma propagate_roots_ok:
  assumes m: "exact_machine sig locals act ract" and "store_in_range sig locals prev"
  shows "\<exists>r' cp fuel'. propagate_roots sig locals prev r fuel = Inr (r', cp, fuel')
    \<and> keeps_root act ract (after act ract prev) r r'"
proof (cases prev)
  case (RStLoc l tree)
  then have l: "unat l < length locals" using assms(2) by simp
  show ?thesis
  proof (cases "propagates_tree tree (NLdLoc l) \<and> (is_trivially_duplicable tree \<or> count_matches r (NLdLoc l) \<le> 1)")
    case True
    have rb: "reads_back act (snd (locals ! unat l)) (NLdLoc l) v s0 s" if "ract (root_instr prev) [v] s0 = Inr s" for v s0 s
      using m l that RStLoc unfolding machine_def fits_slot_def by blast
    have "\<exists>r' cp fuel'. propagate_root (PropLocal l) (snd (locals ! unat l)) tree r fuel = Inr (r', cp, fuel')
        \<and> keeps_root act ract (after act ract prev) r r'"
      by (rule propagate_slot_ok [OF m, where load = "NLdLoc l"]) (use True rb RStLoc in auto)
    then show ?thesis using True l RStLoc
      by (auto simp: propagate_roots_def propagate_st_loc_def nth_opt_def ok_or_def)
  qed (use RStLoc in \<open>auto simp: propagate_roots_def propagate_st_loc_def\<close>)
next
  case (RStArg a tree)
  then have a: "unat a < length (sig_inputs sig)" using assms(2) by simp
  show ?thesis
  proof (cases "propagates_tree tree (NLdArg a) \<and> (is_trivially_duplicable tree \<or> count_matches r (NLdArg a) \<le> 1)")
    case True
    have rb: "reads_back act (sig_inputs sig ! unat a) (NLdArg a) v s0 s" if "ract (root_instr prev) [v] s0 = Inr s" for v s0 s
      using m a that RStArg unfolding machine_def fits_slot_def by blast
    have "\<exists>r' cp fuel'. propagate_root (PropArg a) (sig_inputs sig ! unat a) tree r fuel = Inr (r', cp, fuel')
        \<and> keeps_root act ract (after act ract prev) r r'"
      by (rule propagate_slot_ok [OF m, where load = "NLdArg a"]) (use True rb RStArg in auto)
    then show ?thesis using True a RStArg
      by (auto simp: propagate_roots_def propagate_st_arg_def nth_opt_def ok_or_def)
  qed (use RStArg in \<open>auto simp: propagate_roots_def propagate_st_arg_def\<close>)
next
  case (RSetField fd addr tree)
  obtain cp where "propagate_set_field fd addr tree r fuel = Inr (r, cp, fuel)"
    using propagate_set_field_id by blast
  then show ?thesis using RSetField by (simp add: propagate_roots_def)
qed (auto simp: propagate_roots_def)

lemma exec_roots_Cons:
  "exec_roots act ract (r # rs) s = rbind (exec_roots act ract [r] s) (exec_roots act ract rs)"
  by (cases "exec_nodes act (root_nodes r) s")
    (auto simp del: exec_nodes.simps simp: rbind_def split: sum.splits prod.splits)

lemma exec_sfi: "exact_machine sig locals act ract \<Longrightarrow> is_sfi r \<Longrightarrow> exec_roots act ract (r # rs) s = exec_roots act ract rs s"
  by (cases r) (simp_all add: machine_def root_instr_def)

lemma local_opt_from_ok:
  assumes m: "exact_machine sig locals act ract"
  shows "store_in_range sig locals prev \<Longrightarrow> list_all (store_in_range sig locals) rs \<Longrightarrow>
    \<exists>rs' fuel'. local_opt_from sig locals prev rs fuel = Inr (rs', fuel') \<and> map root_instr rs' = map root_instr rs
      \<and> (\<forall>s. after act ract prev s \<longrightarrow> exec_roots act ract rs' s = exec_roots act ract rs s)"
proof (induction rs arbitrary: prev fuel)
  case (Cons r rs)
  show ?case
  proof (cases "is_sfi r")
    case True
    obtain rs' fuel' where "local_opt_from sig locals prev rs fuel = Inr (rs', fuel')" "map root_instr rs' = map root_instr rs"
        "\<forall>s. after act ract prev s \<longrightarrow> exec_roots act ract rs' s = exec_roots act ract rs s"
      using Cons by fastforce
    then show ?thesis using True exec_sfi [OF m True] by (simp del: exec_roots.simps)
  next
    case False
    obtain r' cp fuel1 where r': "propagate_roots sig locals prev r fuel = Inr (r', cp, fuel1)"
        and k: "keeps_root act ract (after act ract prev) r r'"
      using propagate_roots_ok [OF m Cons.prems(1)] by blast
    have al: "list_all (store_in_range sig locals) rs" and "store_in_range sig locals r'"
      using Cons.prems(2) store_in_range_instr [of r' r] k by (simp_all add: keeps_root_def)
    then obtain rs' fuel' where rs': "local_opt_from sig locals r' rs fuel1 = Inr (rs', fuel')"
        "map root_instr rs' = map root_instr rs"
        "\<And>s. after act ract r' s \<Longrightarrow> exec_roots act ract rs' s = exec_roots act ract rs s"
      using Cons.IH [OF _ al, of r' fuel1] by blast
    have "exec_roots act ract (r' # rs') s = exec_roots act ract (r # rs) s" if "after act ract prev s" for s
    proof -
      have "exec_roots act ract [r'] s = exec_roots act ract [r] s" using k that unfolding keeps_root_def by blast
      moreover have "exec_roots act ract rs' s' = exec_roots act ract rs s'" if "exec_roots act ract [r'] s = Inr s'" for s'
        using that rs'(3) unfolding after_def by blast
      ultimately show ?thesis
        using exec_roots_Cons [of act ract r rs s] exec_roots_Cons [of act ract r' rs' s]
        by (auto simp del: exec_roots.simps simp: rbind_def split: sum.split)
    qed
    then show ?thesis using False r' rs' k by (auto simp: keeps_root_def)
  qed
qed simp

lemma local_opt_ok:
  assumes m: "exact_machine sig locals act ract"
  shows "list_all (store_in_range sig locals) rs \<Longrightarrow>
    \<exists>rs' fuel'. local_opt sig locals rs fuel = Inr (rs', fuel') \<and> map root_instr rs' = map root_instr rs
      \<and> (\<forall>s. exec_roots act ract rs' s = exec_roots act ract rs s)"
proof (induction rs arbitrary: fuel)
  case (Cons r rs)
  show ?case
  proof (cases "is_sfi r")
    case True
    obtain rs' fuel' where "local_opt sig locals rs fuel = Inr (rs', fuel')" "map root_instr rs' = map root_instr rs"
        "\<forall>s. exec_roots act ract rs' s = exec_roots act ract rs s"
      using Cons by fastforce
    then show ?thesis using True exec_sfi [OF m True] by (simp del: exec_roots.simps)
  next
    case False
    obtain rs' fuel' where rs': "local_opt_from sig locals r rs fuel = Inr (rs', fuel')"
        "map root_instr rs' = map root_instr rs"
        "\<And>s. after act ract r s \<Longrightarrow> exec_roots act ract rs' s = exec_roots act ract rs s"
      using local_opt_from_ok [OF m, of r rs fuel] Cons.prems unfolding list.pred_inject(2) by blast
    have "exec_roots act ract (r # rs') s = exec_roots act ract (r # rs) s" for s
      using exec_roots_Cons [of act ract r rs s] exec_roots_Cons [of act ract r rs' s] rs'(3)
      unfolding after_def by (cases "exec_roots act ract [r] s") (auto simp del: exec_roots.simps)
    then show ?thesis using False rs' by auto
  qed
qed simp

text \<open>
  The execution that stops with \<open>None\<close> at a store of a value its slot cannot keep: on it every store
  that goes on is exact, and it agrees with the execution whose stores fit.
\<close>

definition trap_act :: "('x, 'v, 's) node_act \<Rightarrow> ('x option, 'v, 's) node_act" where
  "trap_act act n vs s = map_sum Some id (act n vs s)"

definition trap_ract ::
  "(cil_type \<Rightarrow> 'v \<Rightarrow> bool) \<Rightarrow> fn_sig \<Rightarrow> local_def list \<Rightarrow> ('x, 'v, 's) root_act \<Rightarrow> ('x option, 'v, 's) root_act" where
  "trap_ract fits sig locals ract r vs s =
     (if store_fits fits sig locals r vs then map_sum Some id (ract r vs s) else Inl None)"

lemma map_sum_Some_eq: "map_sum Some id x = map_sum Some id y \<longleftrightarrow> x = y" "map_sum Some id x \<noteq> Inl None"
  by (cases x; cases y; simp)+

lemma map_sum_Some_Inr: "map_sum Some id x = Inr y \<longleftrightarrow> x = Inr y"
  by (cases x) simp_all

lemma exec_nodes_trap: "exec_nodes (trap_act act) ns s = map_sum Some id (exec_nodes act ns s)"
proof (induction act ns s rule: exec_nodes.induct)
  case (2 act n ns s)
  then show ?case
    by (cases "exec_nodes act (mapped_operands n) s")
      (auto simp: rbind_def trap_act_def split: sum.splits prod.splits)
qed simp

lemma exec_roots_trap:
  "exec_roots (trap_act act) (trap_ract fits sig locals ract) rs s =
     (if stores_fit fits sig locals act ract rs s then map_sum Some id (exec_roots act ract rs s) else Inl None)"
proof (induction rs arbitrary: s)
  case (Cons r rs)
  show ?case
  proof (cases "exec_nodes act (root_nodes r) s")
    case (Inr q)
    then show ?thesis using Cons
      by (cases "ract (root_instr r) (fst q) (snd q)") (auto simp: rbind_def exec_nodes_trap trap_ract_def id_def split: prod.splits)
  qed (simp add: exec_nodes_trap rbind_def)
qed simp

lemma map_sum_fst_Some: "map_sum id fst (map_sum Some id x) = map_sum Some id (map_sum id fst x)"
  by (cases x) simp_all

lemma reads_back_trap: "reads_back act t load v s s' \<Longrightarrow> reads_back (trap_act act) t load v s s'"
  by (auto simp: reads_back_def trap_act_def map_sum_fst_Some split: option.splits)

lemma trap_machine:
  assumes "machine fits sig locals act ract"
  shows "exact_machine sig locals (trap_act act) (trap_ract fits sig locals ract)"
proof -
  have "store_fits fits sig locals (root_instr (RStLoc l n)) [v] = fits_slot fits (snd (locals ! unat l)) v"
    "store_fits fits sig locals (root_instr (RStArg a n)) [v] = fits_slot fits (sig_inputs sig ! unat a) v" for l a n v
    by (simp_all add: root_instr_def)
  moreover have "is_sfi r \<Longrightarrow> store_fits fits sig locals r []" for r by (cases r) simp_all
  ultimately show ?thesis
    using assms unfolding machine_def trap_ract_def
    by (auto simp: trap_act_def map_sum_Some_Inr reads_back_trap split: if_splits)
qed

lemma local_opt_fitting:
  assumes "machine fits sig locals act ract" "list_all (store_in_range sig locals) rs"
  shows "\<exists>rs' fuel'. local_opt sig locals rs fuel = Inr (rs', fuel')
    \<and> map root_instr rs' = map root_instr rs
    \<and> (\<forall>s. stores_fit fits sig locals act ract rs s \<longrightarrow>
         stores_fit fits sig locals act ract rs' s \<and> exec_roots act ract rs' s = exec_roots act ract rs s)"
proof -
  obtain rs' fuel' where "local_opt sig locals rs fuel = Inr (rs', fuel')" "map root_instr rs' = map root_instr rs"
    and e: "\<forall>s. exec_roots (trap_act act) (trap_ract fits sig locals ract) rs' s
        = exec_roots (trap_act act) (trap_ract fits sig locals ract) rs s"
    using local_opt_ok [OF trap_machine [OF assms(1)] assms(2), of fuel] by blast
  moreover have "stores_fit fits sig locals act ract rs' s \<and> exec_roots act ract rs' s = exec_roots act ract rs s"
    if "stores_fit fits sig locals act ract rs s" for s
    using e that by (metis exec_roots_trap map_sum_Some_eq)
  ultimately show ?thesis by blast
qed

text \<open>
  C4. Forward substitution is sound: on a block whose stores address existing slots it never panics and
  keeps every instruction in its place. Whatever the fuel, from every state from which the block stores
  only values of their types (0 or 1 into a \<^verbatim>\<open>bool\<close>, a rounded float into a \<^verbatim>\<open>float32\<close>; anything into the
  8- and 16-bit integers, which truncate) the new block does exactly what the original one does,
  exceptions, branches and memory effects included, and stores only such values as well.
\<close>

theorem local_opt_preserves:
  assumes "machine fits sig locals act ract" "list_all (store_in_range sig locals) rs"
  shows "\<exists>rs' fuel'. local_opt sig locals rs fuel = Inr (rs', fuel')
    \<and> map root_instr rs' = map root_instr rs
    \<and> (\<forall>s. stores_fit fits sig locals act ract rs s \<longrightarrow>
         stores_fit fits sig locals act ract rs' s \<and> exec_roots act ract rs' s = exec_roots act ract rs s)"
  by (rule local_opt_fitting [OF assms])

text \<open>
  A small machine on integers, with the locals and arguments as its state. Its \<^verbatim>\<open>bool\<close> slots keep one
  byte, its \<^verbatim>\<open>float32\<close> slots the multiples of 256, as far from zero as the 24 bits of a significand reach.
\<close>

type_synonym slots = "(u32 \<Rightarrow> int) \<times> (u32 \<Rightarrow> int)"

definition truncated :: "cil_int \<Rightarrow> int \<Rightarrow> int" where
  "truncated i v =
     (if i = I8 then signed_take_bit 7 v else if i = I16 then signed_take_bit 15 v
      else if i = U8 then take_bit 8 v else if i = U16 then take_bit 16 v else v)"

definition slot_value :: "cil_type \<Rightarrow> int \<Rightarrow> int" where
  "slot_value t v =
     (case t of
        TInt i \<Rightarrow> truncated i v
      | TBool \<Rightarrow> take_bit 8 v
      | TFloat F32 \<Rightarrow> if \<bar>v\<bar> < 2 ^ 24 then v else v div 256 * 256
      | _ \<Rightarrow> v)"

definition slot_fits :: "cil_type \<Rightarrow> int \<Rightarrow> bool" where
  "slot_fits t v \<longleftrightarrow> (t = TBool \<longrightarrow> v = 0 \<or> v = 1) \<and> (t = TFloat F32 \<longrightarrow> \<bar>v\<bar> < 2 ^ 24)"

fun slot_act :: "(unit, int, slots) node_act" where
  "slot_act (NLdLoc l) vs st = Inr (fst st l, st)"
| "slot_act (NLdArg a) vs st = Inr (snd st a, st)"
| "slot_act (NIntCast _ i _) vs st = Inr (truncated i (hd vs), st)"
| "slot_act (NConst (CI32 c)) vs st = Inr (sint c, st)"
| "slot_act (NBinOp _ _ op) vs st =
     (if total_op (NBinOp NGetException NGetException op) then Inr (if op = Mul then vs ! 0 * vs ! 1 else if op = Eq then of_bool (vs ! 0 = vs ! 1) else vs ! 0 + vs ! 1, st) else Inl ())"
| "slot_act n vs st = (if total_op n then Inr (0, st) else Inl ())"

fun slot_ract :: "fn_sig \<Rightarrow> local_def list \<Rightarrow> (unit, int, slots) root_act" where
  "slot_ract sig locals (RStLoc l _) vs st =
     Inr ((fst st)(l := slot_value (snd (locals ! unat l)) (hd vs)), snd st)"
| "slot_ract sig locals (RStArg a _) vs st =
     Inr (fst st, (snd st)(a := slot_value (sig_inputs sig ! unat a) (hd vs)))"
| "slot_ract sig locals (RSetField _ _ _) vs st = Inr st"
| "slot_ract sig locals (RPop _) vs st = Inr st"
| "slot_ract sig locals RNop vs st = Inr st"
| "slot_ract sig locals r vs st = (if is_sfi r then Inr st else Inl ())"

lemma slot_act_total:
  assumes "total_op n"
  shows "\<exists>v. slot_act (instr n) vs s = Inr (v, s)"
  using assms
proof (cases n)
  case (NConst c)
  then show ?thesis by (cases c) (simp_all add: instr_def)
qed (simp_all add: instr_def)

lemma slot_act_other:
  "total_op n \<Longrightarrow> (\<And>l. n = NLdLoc l \<Longrightarrow> fst s' l = fst s l) \<Longrightarrow> (\<And>a. n = NLdArg a \<Longrightarrow> snd s' a = snd s a) \<Longrightarrow>
   map_sum id fst (slot_act (instr n) vs s') = map_sum id fst (slot_act (instr n) vs s)"
proof (cases n)
  case (NConst c)
  then show ?thesis by (cases c) (simp_all add: instr_def)
qed (simp_all add: instr_def)

lemma slot_reads_back:
  assumes "slot_act load [] s' = Inr (slot_value t v, s')" "fits_slot slot_fits t v"
    and "\<And>l. load \<noteq> NLdLoc l \<Longrightarrow> fst s' l = fst s l" "\<And>a. load \<noteq> NLdArg a \<Longrightarrow> snd s' a = snd s a"
  shows "reads_back slot_act t load v s s'"
proof -
  have "map_sum id fst (slot_act load [] s') =
      (case slot_conv t of Some c \<Rightarrow> map_sum id fst (slot_act c [v] s') | None \<Rightarrow> Inr v)"
    using assms(1,2)
    by (cases t rule: slot_conv.cases)
      (auto simp: slot_value_def truncated_def fits_slot_def slot_fits_def split: cil_type.splits cil_float.splits)
  moreover have "map_sum id fst (slot_act (instr n) vs s') = map_sum id fst (slot_act (instr n) vs s)"
    if "total_op n" "n \<noteq> load" for n vs
    by (rule slot_act_other [OF that(1)]) (use that(2) assms(3,4) in auto)
  ultimately show ?thesis unfolding reads_back_def by blast
qed

lemma slot_machine: "machine slot_fits sig locals slot_act (slot_ract sig locals)"
proof -
  have "slot_ract sig locals r [] s = Inr s" if "is_sfi r" for r s using that by (cases r) simp_all
  moreover have "reads_back slot_act (snd (locals ! unat l)) (NLdLoc l) v s s'"
    if "slot_ract sig locals (root_instr (RStLoc l n)) [v] s = Inr s'" "fits_slot slot_fits (snd (locals ! unat l)) v"
    for l n v s s'
    by (rule slot_reads_back [OF _ that(2)]) (use that(1) in \<open>auto simp: root_instr_def\<close>)
  moreover have "reads_back slot_act (sig_inputs sig ! unat a) (NLdArg a) v s s'"
    if "slot_ract sig locals (root_instr (RStArg a n)) [v] s = Inr s'" "fits_slot slot_fits (sig_inputs sig ! unat a) v"
    for a n v s s'
    by (rule slot_reads_back [OF _ that(2)]) (use that(1) in \<open>auto simp: root_instr_def\<close>)
  ultimately show ?thesis using slot_act_total unfolding machine_def by blast
qed

text \<open>A block that truncates a product to a byte and stores the outcome of a comparison.\<close>

definition example_sig :: fn_sig where
  "example_sig = FnSig [TInt I32] (TInt I32)"

definition example_slots :: "local_def list" where
  "example_slots = [(None, TInt U8), (None, TInt I32), (None, TBool)]"

definition example_stores :: "cil_root list" where
  "example_stores =
     [RStLoc 0 (NBinOp (NLdArg 0) (NLdArg 0) Mul), RSourceFileInfo 1 2 3 4 [],
      RStLoc 1 (NBinOp (NLdLoc 0) (NLdArg 0) Add), RStLoc 2 (NBinOp (NLdLoc 1) (NLdArg 0) Eq)]"

lemma example_stores_fit: "stores_fit slot_fits example_sig example_slots slot_act (slot_ract example_sig example_slots) example_stores s"
  by (simp add: example_stores_def example_slots_def fits_slot_def slot_fits_def root_instr_def instr_def)

theorem local_opt_preserves_witness:
  "\<exists>rs' fuel'. local_opt example_sig example_slots example_stores 10 = Inr (rs', fuel')
     \<and> map root_instr rs' = map root_instr example_stores
     \<and> exec_roots slot_act (slot_ract example_sig example_slots) rs'
       = exec_roots slot_act (slot_ract example_sig example_slots) example_stores"
proof -
  have "list_all (store_in_range example_sig example_slots) example_stores"
    by (simp add: example_stores_def example_sig_def example_slots_def)
  then show ?thesis
    using local_opt_preserves [OF slot_machine, of example_sig example_slots example_stores 10] example_stores_fit by blast
qed

lemma local_opt_example:
  "local_opt example_sig example_slots example_stores 10
   = Inr ([RStLoc 0 (NBinOp (NLdArg 0) (NLdArg 0) Mul), RSourceFileInfo 1 2 3 4 [],
        RStLoc 1 (NBinOp (NIntCast (NBinOp (NLdArg 0) (NLdArg 0) Mul) U8 ZeroExtend) (NLdArg 0) Add),
        RStLoc 2 (NBinOp (NBinOp (NIntCast (NBinOp (NLdArg 0) (NLdArg 0) Mul) U8 ZeroExtend) (NLdArg 0) Add) (NLdArg 0) Eq)], 8)"
  by (simp add: example_sig_def example_slots_def example_stores_def propagate_roots_def propagate_st_loc_def
    propagates_tree_def is_pure_total_def effect_of.simps
    effect_union_def tree_reads_def is_trivially_duplicable_def count_matches_def propagate_root_def propagate_here_def
    propagated_load_def nth_opt_def ok_or_def consume_def)

end
