(* ===== verification/DeadWrites.thy ===== *)
theory DeadWrites
  imports Propagate
begin

text \<open>
  The passes of \<^verbatim>\<open>cilly/src/ir/opt/mod.rs\<close> that delete statements: \<^verbatim>\<open>remove_dead_writes\<close> with its census
  of the reads of each local, \<^verbatim>\<open>remove_nops\<close> and \<^verbatim>\<open>remove_duplicate_sfi\<close>; and \<^verbatim>\<open>propagate_locals\<close> over a
  whole body. The machine of \<open>Propagate\<close> executes the blocks before and after.
\<close>


section \<open>Results over lists and blocks\<close>

fun rfold :: "('a \<Rightarrow> 's \<Rightarrow> ('e, 's) result) \<Rightarrow> 'a list \<Rightarrow> 's \<Rightarrow> ('e, 's) result" where
  "rfold f [] s = Inr s"
| "rfold f (x # xs) s = rbind (f x s) (rfold f xs)"

text \<open>Overwriting the roots of a block and of its handler in place, with a function that may panic.\<close>

fun try_map_block :: "(cil_root \<Rightarrow> ('e, cil_root) result) \<Rightarrow> basic_block \<Rightarrow> ('e, basic_block) result"
and try_map_handler :: "(cil_root \<Rightarrow> ('e, cil_root) result) \<Rightarrow> basic_block list \<Rightarrow> ('e, basic_block list) result"
where
  "try_map_block f (BasicBlock rs i h hi) =
     rbind (rmap f rs) (\<lambda>rs.
     case h of
       None \<Rightarrow> Inr (BasicBlock rs i None hi)
     | Some bs \<Rightarrow> rbind (try_map_handler f bs) (\<lambda>bs. Inr (BasicBlock rs i (Some bs) hi)))"
| "try_map_handler f [] = Inr []"
| "try_map_handler f (b # bs) =
     rbind (try_map_block f b) (\<lambda>b. rbind (try_map_handler f bs) (\<lambda>bs. Inr (b # bs)))"

section \<open>Duplicate source locations\<close>

text \<open>A location with the file, line and line count of the previous one becomes a \<open>RNop\<close>; columns are ignored.\<close>

fun mark_duplicate_sfi :: "string \<times> u16 \<times> u32 \<Rightarrow> cil_root list \<Rightarrow> cil_root list" where
  "mark_duplicate_sfi prev [] = []"
| "mark_duplicate_sfi (prev_file, prev_ll, prev_ls) (RSourceFileInfo line_start line_len col_start col_len file # rs) =
     (if file = prev_file \<and> line_len = prev_ll \<and> line_start = prev_ls
      then RNop else RSourceFileInfo line_start line_len col_start col_len file)
     # mark_duplicate_sfi (file, line_len, line_start) rs"
| "mark_duplicate_sfi prev (r # rs) = r # mark_duplicate_sfi prev rs"

definition remove_duplicate_sfi_block :: "basic_block \<Rightarrow> basic_block" where
  "remove_duplicate_sfi_block b =
     (case b of BasicBlock rs i h hi \<Rightarrow>
        BasicBlock (filter (\<lambda>r. r \<noteq> RNop) (mark_duplicate_sfi (''InvalidDebugInfoString'', 0xFFFF, 0xFFFFFFFF) rs)) i h hi)"

definition remove_duplicate_sfi :: "method_impl \<Rightarrow> method_impl" where
  "remove_duplicate_sfi impl = map_blocks remove_duplicate_sfi_block impl"

section \<open>Nops\<close>

definition drop_nops :: "basic_block \<Rightarrow> basic_block" where
  "drop_nops b = (case b of BasicBlock rs i h hi \<Rightarrow> BasicBlock (filter (\<lambda>r. r \<noteq> RNop) rs) i h hi)"

definition remove_nops_block :: "basic_block \<Rightarrow> basic_block" where
  "remove_nops_block b =
     (case drop_nops b of BasicBlock rs i h hi \<Rightarrow> BasicBlock rs i (map_option (map drop_nops) h) hi)"

definition remove_nops :: "method_impl \<Rightarrow> method_impl" where
  "remove_nops impl = map_blocks remove_nops_block impl"

section \<open>Writes to locals that are never read\<close>

text \<open>
  The census of \<^verbatim>\<open>remove_dead_writes\<close>: which locals are read, and how often the address of each is taken
  other than to store a field. The counters are unbounded here; the code's are 32 bits wide.
\<close>

type_synonym local_uses = "bool list \<times> int list"

fun note_use :: "cil_elem \<Rightarrow> local_uses \<Rightarrow> (opt_panic, local_uses) result" where
  "note_use (ENode (NLdLoc l)) (reads, addr) =
     (if unat l < length reads then Inr (reads[unat l := True], addr) else Inl (LocalIndex l))"
| "note_use (ENode (NLdLocA l)) (reads, addr) =
     (if unat l < length addr then Inr (reads, addr[unat l := addr ! unat l + 1]) else Inl (LocalIndex l))"
| "note_use (ERoot (RSetField _ (NLdLocA l) _)) (reads, addr) =
     (if unat l < length addr then Inr (reads, addr[unat l := addr ! unat l - 1]) else Inl (LocalIndex l))"
| "note_use _ uses = Inr uses"

definition census :: "cil_root list \<Rightarrow> nat \<Rightarrow> (opt_panic, local_uses) result" where
  "census rs n = rfold note_use (concat (map (\<lambda>r. cil_iter [ERoot r]) rs)) (replicate n False, replicate n 0)"

definition unused :: "local_uses \<Rightarrow> u32 \<Rightarrow> (opt_panic, bool) result" where
  "unused uses l =
     (if unat l < length (fst uses) then Inr (\<not> fst uses ! unat l \<and> snd uses ! unat l \<le> 0) else Inl (LocalIndex l))"

definition discard :: "cil_node \<Rightarrow> cil_root" where
  "discard tree = (if is_pure_total (effect_of tree) then RNop else RPop tree)"

fun drop_dead_write :: "local_uses \<Rightarrow> cil_root \<Rightarrow> (opt_panic, cil_root) result" where
  "drop_dead_write uses (RStLoc l tree) =
     rbind (unused uses l) (\<lambda>dead.
       Inr (if dead then discard tree else if tree = NLdLoc l then RNop else RStLoc l tree))"
| "drop_dead_write uses (RSetField fd (NLdLocA l) v) =
     rbind (unused uses l) (\<lambda>dead. Inr (if dead then discard v else RSetField fd (NLdLocA l) v))"
| "drop_dead_write uses r = Inr r"

fun with_blocks :: "method_impl \<Rightarrow> basic_block list \<Rightarrow> basic_block list \<Rightarrow> method_impl" where
  "with_blocks (MethodBody _ ls) bs _ = MethodBody bs ls"
| "with_blocks (RegionBody _ _ rs ls) bs cs = RegionBody bs cs rs ls"
| "with_blocks impl _ _ = impl"

definition remove_dead_writes :: "method_impl \<Rightarrow> opt_fuel \<Rightarrow> (opt_panic, method_impl \<times> opt_fuel) result" where
  "remove_dead_writes impl fuel =
     (case body_parts impl of
        None \<Rightarrow> Inr (impl, fuel)
      | Some (blocks, cleanup, locals) \<Rightarrow>
          (let (ok, fuel) = consume 8 fuel in
           if \<not> ok then Inr (impl, fuel)
           else rbind (census (concat (map iter_roots (blocks @ cleanup))) (length locals)) (\<lambda>uses.
                rbind (rmap (try_map_block (drop_dead_write uses)) blocks) (\<lambda>blocks.
                rbind (rmap (try_map_block (drop_dead_write uses)) cleanup) (\<lambda>cleanup.
                Inr (remove_nops (with_blocks impl blocks cleanup), fuel))))))"

text \<open>\<^verbatim>\<open>MethodImpl::propagate_locals\<close>: the blocks in order, not their handlers, with one budget.\<close>

fun local_opt_blocks ::
  "fn_sig \<Rightarrow> local_def list \<Rightarrow> basic_block list \<Rightarrow> opt_fuel \<Rightarrow> (opt_panic, basic_block list \<times> opt_fuel) result" where
  "local_opt_blocks sig locals [] fuel = Inr ([], fuel)"
| "local_opt_blocks sig locals (BasicBlock rs i h hi # bs) fuel =
     rbind (local_opt sig locals rs fuel) (\<lambda>(rs, fuel).
     rbind (local_opt_blocks sig locals bs fuel) (\<lambda>(bs, fuel). Inr (BasicBlock rs i h hi # bs, fuel)))"

definition propagate_method :: "fn_sig \<Rightarrow> method_impl \<Rightarrow> opt_fuel \<Rightarrow> (opt_panic, method_impl \<times> opt_fuel) result" where
  "propagate_method sig impl fuel =
     (case body_parts impl of
        None \<Rightarrow> Inr (impl, fuel)
      | Some (blocks, cleanup, locals) \<Rightarrow>
          rbind (local_opt_blocks sig locals blocks fuel) (\<lambda>(blocks, fuel).
          rbind (local_opt_blocks sig locals cleanup fuel) (\<lambda>(cleanup, fuel).
          Inr (with_blocks impl blocks cleanup, fuel))))"

section \<open>What the census counts\<close>

definition stores_field_of :: "u32 \<Rightarrow> cil_elem \<Rightarrow> bool" where
  "stores_field_of l e \<longleftrightarrow> (\<exists>fd v. e = ERoot (RSetField fd (NLdLocA l) v))"

definition uses_of :: "cil_elem list \<Rightarrow> nat \<Rightarrow> local_uses \<Rightarrow> bool" where
  "uses_of es n uses \<longleftrightarrow> length (fst uses) = n \<and> length (snd uses) = n
     \<and> (\<forall>l. unat l < n \<longrightarrow> (fst uses ! unat l \<longleftrightarrow> ENode (NLdLoc l) \<in> set es)
          \<and> snd uses ! unat l = int (count_list es (ENode (NLdLocA l))) - int (length (filter (stores_field_of l) es)))"

definition elem_in_range :: "nat \<Rightarrow> cil_elem \<Rightarrow> bool" where
  "elem_in_range n e \<longleftrightarrow> (\<forall>l. e = ENode (NLdLoc l) \<or> e = ENode (NLdLocA l) \<or> stores_field_of l e \<longrightarrow> unat l < n)"

lemma note_use_cases:
  obtains l where "e = ENode (NLdLoc l)" | l where "e = ENode (NLdLocA l)" | l fd v where "e = ERoot (RSetField fd (NLdLocA l) v)"
  | "note_use e = Inr" "\<And>l. e \<noteq> ENode (NLdLoc l)" "\<And>l. e \<noteq> ENode (NLdLocA l)" "\<And>l. \<not> stores_field_of l e"
proof -
  have "note_use e uses = Inr uses" if "\<And>l. e \<noteq> ENode (NLdLoc l)" "\<And>l. e \<noteq> ENode (NLdLocA l)" "\<And>l. \<not> stores_field_of l e" for uses
    using that by (cases "(e, uses)" rule: note_use.cases) (auto simp: stores_field_of_def)
  then show thesis using that unfolding stores_field_of_def by blast
qed

lemma unat_eq_iff_word [simp]: "unat (a :: u32) = unat b \<longleftrightarrow> a = b"
  by (metis unsigned_word_eqI)

lemma note_use_uses:
  assumes "uses_of es n uses" "elem_in_range n e"
  shows "\<exists>uses'. note_use e uses = Inr uses' \<and> uses_of (es @ [e]) n uses'"
proof -
  obtain reads addr where u: "uses = (reads, addr)" by fastforce
  show ?thesis
  proof (cases e rule: note_use_cases)
    case (1 l)
    then show ?thesis using assms u by (auto simp: uses_of_def elem_in_range_def stores_field_of_def nth_list_update)
  next
    case (2 l)
    then show ?thesis using assms u by (auto simp: uses_of_def elem_in_range_def stores_field_of_def nth_list_update)
  next
    case (3 l fd v)
    then show ?thesis using assms u by (auto simp: uses_of_def elem_in_range_def stores_field_of_def nth_list_update)
  next
    case 4
    then show ?thesis using assms(1) by (auto simp: uses_of_def)
  qed
qed

lemma rfold_note_use:
  "uses_of es n uses \<Longrightarrow> list_all (elem_in_range n) xs \<Longrightarrow> \<exists>uses'. rfold note_use xs uses = Inr uses' \<and> uses_of (es @ xs) n uses'"
proof (induction xs arbitrary: es uses)
  case (Cons x xs)
  obtain u1 where u1: "note_use x uses = Inr u1" "uses_of (es @ [x]) n u1"
    using note_use_uses [OF Cons.prems(1), of x] Cons.prems(2) by auto
  then show ?case using Cons.IH [OF u1(2)] Cons.prems(2) by simp
qed simp

text \<open>Roots whose iterator yields every operand: no nested root, no element-reference load.\<close>

definition plain_root :: "cil_root \<Rightarrow> bool" where
  "plain_root r \<longleftrightarrow> child_roots r = [] \<and> list_all (\<lambda>m. \<not> is_ldelem_ref m) (concat (map subterms (root_nodes r)))"

definition root_subterms :: "cil_root \<Rightarrow> cil_node list" where
  "root_subterms r = concat (map subterms (root_nodes r))"

lemma plain_iter: "plain_root r \<Longrightarrow> cil_iter [ERoot r] = ERoot r # map ENode (root_subterms r)"
proof -
  assume r: "plain_root r"
  have "cil_iter [ENode n] = map ENode (subterms n)" if "n \<in> set (root_nodes r)" for n
    using r that by (intro iter_subterms) (auto simp: plain_root_def list_all_iff)
  then have m: "map (\<lambda>n. cil_iter [ENode n]) (root_nodes r) = map (map ENode \<circ> subterms) (root_nodes r)"
    by (intro map_cong) simp_all
  have "cil_iter [ERoot r] = ERoot r # cil_iter (map ENode (root_nodes r))"
    using r by (subst cil_iter_Cons) (simp add: plain_root_def del: cil_iter_Cons)
  also have "\<dots> = ERoot r # concat (map (map ENode \<circ> subterms) (root_nodes r))"
    by (simp only: cil_iter_map_ENode m)
  finally show ?thesis by (simp only: root_subterms_def map_concat map_map)
qed

text \<open>What the census shows for a root: an unused local is not read, and its address is only a store target.\<close>

definition spared :: "u32 \<Rightarrow> cil_root \<Rightarrow> bool" where
  "spared l r \<longleftrightarrow> NLdLoc l \<notin> set (root_subterms r) \<and>
     (case r of
        RSetField fd a v \<Rightarrow> NLdLocA l \<notin> set (subterms v) \<and> (a = NLdLocA l \<or> NLdLocA l \<notin> set (subterms a))
      | _ \<Rightarrow> NLdLocA l \<notin> set (root_subterms r))"

definition balance :: "u32 \<Rightarrow> cil_elem list \<Rightarrow> int" where
  "balance l es = int (count_list es (ENode (NLdLocA l))) - int (length (filter (stores_field_of l) es))"

lemma balance_append: "balance l (xs @ ys) = balance l xs + balance l ys"
  by (simp add: balance_def)

lemma count_list_map_ENode [simp]: "count_list (map ENode ns) (ENode n) = count_list ns n"
  by (induction ns) simp_all

lemma filter_stores_nodes [simp]: "filter (stores_field_of l) (map ENode ns) = []"
  by (auto simp: filter_empty_conv stores_field_of_def)

lemma balance_root:
  assumes "plain_root r"
  shows "0 \<le> balance l (cil_iter [ERoot r])"
    and "balance l (cil_iter [ERoot r]) = 0 \<Longrightarrow> NLdLoc l \<notin> set (root_subterms r) \<Longrightarrow> spared l r"
proof -
  have b: "balance l (cil_iter [ERoot r]) =
      int (count_list (root_subterms r) (NLdLocA l)) - (if stores_field_of l (ERoot r) then 1 else 0)"
    by (simp add: plain_iter [OF assms] balance_def del: cil_iter_Cons)
  show "0 \<le> balance l (cil_iter [ERoot r])"
    unfolding b by (auto simp: stores_field_of_def root_subterms_def subterms.simps [of "NLdLocA _"])
  show "spared l r" if "balance l (cil_iter [ERoot r]) = 0" "NLdLoc l \<notin> set (root_subterms r)"
  proof -
    have c: "count_list (root_subterms r) (NLdLocA l) = (if stores_field_of l (ERoot r) then 1 else 0)"
      using that(1) b by (auto split: if_splits)
    show ?thesis
    proof (cases r)
      case (RSetField fd a v)
      then show ?thesis using that(2) c
        by (cases "a = NLdLocA l")
          (auto simp: spared_def stores_field_of_def root_subterms_def subterms.simps [of "NLdLocA _"] count_list_0_iff split: if_splits)
    qed (use that(2) c in \<open>auto simp: spared_def stores_field_of_def count_list_0_iff\<close>)
  qed
qed

lemma balance_roots:
  "list_all plain_root rs \<Longrightarrow> 0 \<le> balance l (concat (map (\<lambda>r. cil_iter [ERoot r]) rs))
   \<and> (balance l (concat (map (\<lambda>r. cil_iter [ERoot r]) rs)) \<le> 0 \<longrightarrow> (\<forall>r\<in>set rs. balance l (cil_iter [ERoot r]) = 0))"
proof (induction rs)
  case (Cons r rs)
  then show ?case using balance_root(1) [of r l] by (auto simp: balance_append simp del: cil_iter_Cons)
qed (simp add: balance_def)

definition root_in_range :: "nat \<Rightarrow> cil_root \<Rightarrow> bool" where
  "root_in_range n r \<longleftrightarrow> list_all (elem_in_range n) (cil_iter [ERoot r]) \<and> (\<forall>l t. r = RStLoc l t \<longrightarrow> unat l < n)"

lemma census_ok:
  assumes "list_all plain_root rs" "list_all (root_in_range n) rs"
  obtains uses where "census rs n = Inr uses" "length (fst uses) = n"
    "\<And>l r. unused uses l = Inr True \<Longrightarrow> r \<in> set rs \<Longrightarrow> spared l r"
proof -
  let ?es = "concat (map (\<lambda>r. cil_iter [ERoot r]) rs)"
  have "uses_of [] n (replicate n False, replicate n 0)" by (simp add: uses_of_def)
  moreover have "list_all (elem_in_range n) ?es" using assms(2) by (auto simp: list_all_iff root_in_range_def)
  ultimately obtain uses where u: "census rs n = Inr uses" "uses_of ?es n uses"
    unfolding census_def using rfold_note_use by fastforce
  have "spared l r" if "unused uses l = Inr True" "r \<in> set rs" for l r
  proof -
    have l: "unat l < n" "\<not> fst uses ! unat l" "snd uses ! unat l \<le> 0"
      using that(1) u(2) by (auto simp: unused_def uses_of_def split: if_splits)
    then have "ENode (NLdLoc l) \<notin> set ?es" "balance l ?es \<le> 0" using u(2) by (auto simp: uses_of_def balance_def)
    moreover have r: "plain_root r" using that(2) assms(1) by (simp add: list_all_iff)
    moreover have "set (cil_iter [ERoot r]) \<subseteq> set ?es" using that(2) by (auto simp del: cil_iter_Cons)
    ultimately have "NLdLoc l \<notin> set (root_subterms r)" "balance l (cil_iter [ERoot r]) = 0"
      using plain_iter [OF r] balance_roots [OF assms(1), of l] that(2) by auto
    then show ?thesis using balance_root(2) [OF r] by blast
  qed
  then show thesis using that u by (auto simp: uses_of_def)
qed

section \<open>Deleting dead writes\<close>

text \<open>
  What the deletion relies on, for a set \<open>D\<close> of locals: \<open>R\<close> relates states that differ in those
  locals only, \<open>V\<close> holds of values that do not point into them, \<open>X\<close> relates the ways to leave a
  block. Instructions that neither read such a local nor take its address respect the relations; a
  store to such a local, or to a field of it, is not seen by \<open>R\<close>; storing to a local what it holds changes
  nothing; an empty statement and a pop do nothing.
\<close>

definition hides ::
  "(u32 \<Rightarrow> bool) \<Rightarrow> ('x, 'v, 's) node_act \<Rightarrow> ('x, 'v, 's) root_act \<Rightarrow> ('x \<Rightarrow> 'x \<Rightarrow> bool) \<Rightarrow> ('v \<Rightarrow> bool)
     \<Rightarrow> ('s \<Rightarrow> 's \<Rightarrow> bool) \<Rightarrow> bool" where
  "hides D act ract X V R \<longleftrightarrow>
     (\<forall>n vs s1 s2. (\<forall>l. D l \<longrightarrow> n \<noteq> NLdLoc l \<and> n \<noteq> NLdLocA l) \<longrightarrow> list_all V vs \<longrightarrow> R s1 s2 \<longrightarrow>
        rel_sum X (rel_prod (\<lambda>v w. v = w \<and> V v) R) (act (instr n) vs s1) (act (instr n) vs s2))
   \<and> (\<forall>r vs s1 s2. list_all V vs \<longrightarrow> R s1 s2 \<longrightarrow>
        rel_sum X R (ract (root_instr r) vs s1) (ract (root_instr r) vs s2))
   \<and> (\<forall>l n v s1 s2. D l \<longrightarrow> V v \<longrightarrow> R s1 s2 \<longrightarrow> (\<exists>s'. ract (root_instr (RStLoc l n)) [v] s2 = Inr s' \<and> R s1 s'))
   \<and> (\<forall>l fd n m a v s s1 s2. D l \<longrightarrow> act (NLdLocA l) [] s = Inr (a, s) \<longrightarrow> V v \<longrightarrow> R s1 s2 \<longrightarrow>
        (\<exists>s'. ract (root_instr (RSetField fd n m)) [a, v] s2 = Inr s' \<and> R s1 s'))
   \<and> (\<forall>l n v s1 s2. act (NLdLoc l) [] s2 = Inr (v, s2) \<longrightarrow> R s1 s2 \<longrightarrow>
        (\<exists>s'. ract (root_instr (RStLoc l n)) [v] s2 = Inr s' \<and> R s1 s'))
   \<and> (\<forall>s. ract RNop [] s = Inr s) \<and> (\<forall>n v s. ract (root_instr (RPop n)) [v] s = Inr s)"

abbreviation same_values :: "('x \<Rightarrow> 'x \<Rightarrow> bool) \<Rightarrow> ('v \<Rightarrow> bool) \<Rightarrow> ('s \<Rightarrow> 's \<Rightarrow> bool)
    \<Rightarrow> ('x, 'v list \<times> 's) result \<Rightarrow> ('x, 'v list \<times> 's) result \<Rightarrow> bool" where
  "same_values X V R \<equiv> rel_sum X (rel_prod (\<lambda>vs ws. vs = ws \<and> list_all V vs) R)"

lemma hides_act:
  "hides D act ract X V R \<Longrightarrow> \<forall>l. D l \<longrightarrow> n \<noteq> NLdLoc l \<and> n \<noteq> NLdLocA l \<Longrightarrow> list_all V vs \<Longrightarrow> R s1 s2 \<Longrightarrow>
   rel_sum X (rel_prod (\<lambda>v w. v = w \<and> V v) R) (act (instr n) vs s1) (act (instr n) vs s2)"
  unfolding hides_def by (elim conjE) simp

lemma hides_ract:
  "hides D act ract X V R \<Longrightarrow> list_all V vs \<Longrightarrow> R s1 s2 \<Longrightarrow> rel_sum X R (ract (root_instr r) vs s1) (ract (root_instr r) vs s2)"
  unfolding hides_def by (elim conjE) simp

lemma hides_store:
  "hides D act ract X V R \<Longrightarrow> D l \<Longrightarrow> V v \<Longrightarrow> R s1 s2 \<Longrightarrow> \<exists>s'. ract (root_instr (RStLoc l n)) [v] s2 = Inr s' \<and> R s1 s'"
  unfolding hides_def by (elim conjE) simp

lemma hides_field:
  "hides D act ract X V R \<Longrightarrow> D l \<Longrightarrow> act (NLdLocA l) [] s = Inr (a, s) \<Longrightarrow> V v \<Longrightarrow> R s1 s2 \<Longrightarrow>
   \<exists>s'. ract (root_instr (RSetField fd n m)) [a, v] s2 = Inr s' \<and> R s1 s'"
  unfolding hides_def by (elim conjE) metis

lemma hides_self_store:
  "hides D act ract X V R \<Longrightarrow> act (NLdLoc l) [] s2 = Inr (v, s2) \<Longrightarrow> R s1 s2 \<Longrightarrow>
   \<exists>s'. ract (root_instr (RStLoc l n)) [v] s2 = Inr s' \<and> R s1 s'"
  unfolding hides_def by (elim conjE) metis

lemma hides_pop: "hides D act ract X V R \<Longrightarrow> ract (root_instr (RPop n)) [v] s = Inr s"
  unfolding hides_def by (elim conjE) simp

lemma rel_sum_rbind:
  "rel_sum X P r1 r2 \<Longrightarrow> (\<And>a b. P a b \<Longrightarrow> rel_sum X Q (f a) (g b)) \<Longrightarrow> rel_sum X Q (rbind r1 f) (rbind r2 g)"
  by (cases r1; cases r2) auto

lemma exec_hidden:
  assumes "hides D act ract X V R"
  shows "(\<forall>l. D l \<longrightarrow> NLdLoc l \<notin> set (concat (map subterms ns)) \<and> NLdLocA l \<notin> set (concat (map subterms ns))) \<Longrightarrow>
    R s1 s2 \<Longrightarrow> same_values X V R (exec_nodes act ns s1) (exec_nodes act ns s2)"
proof (induction ns arbitrary: s1 s2 rule: nodes_induct)
  case (Cons n ns)
  have st: "set (subterms n) = insert n (set (concat (map subterms (mapped_operands n))))"
    by (simp add: subterms.simps [of n] set_mapped_operands)
  have ops: "same_values X V R (exec_nodes act (mapped_operands n) s1) (exec_nodes act (mapped_operands n) s2)"
    using Cons.IH(1) Cons.prems st by auto
  have n: "rel_sum X (rel_prod (\<lambda>v w. v = w \<and> V v) R) (act (instr n) vs t1) (act (instr n) vs t2)"
    if "list_all V vs" "R t1 t2" for vs t1 t2
    by (rule hides_act [OF assms _ that]) (use Cons.prems(1) st in auto)
  have rest: "same_values X V R (exec_nodes act ns t1) (exec_nodes act ns t2)" if "R t1 t2" for t1 t2
    using Cons.IH(2) Cons.prems(1) that by auto
  show ?case
    unfolding exec_nodes.simps
    by (rule rel_sum_rbind [OF ops], clarsimp, rule rel_sum_rbind [OF n], assumption, assumption, clarsimp,
        rule rel_sum_rbind [OF rest], assumption, clarsimp)
qed simp

lemma exec_one: "exec_roots act ract [r] s = rbind (exec_nodes act (root_nodes r) s) (\<lambda>(vs, s). ract (root_instr r) vs s)"
proof -
  have "rbind x Inr = x" for x :: "('a, 'b) result" by (cases x) simp_all
  moreover have "exec_roots act ract [] = Inr" by (rule ext) simp
  ultimately show ?thesis by simp
qed

lemma exec_nop: "hides D act ract X V R \<Longrightarrow> exec_roots act ract [RNop] s = Inr s"
  by (simp add: hides_def root_instr_def)

lemma same_root_hidden:
  assumes h: "hides D act ract X V R" and "R s1 s2"
    and "\<forall>l. D l \<longrightarrow> NLdLoc l \<notin> set (root_subterms r) \<and> NLdLocA l \<notin> set (root_subterms r)"
  shows "rel_sum X R (exec_roots act ract [r] s1) (exec_roots act ract [r] s2)"
  unfolding exec_one
proof (rule rel_sum_rbind)
  show "same_values X V R (exec_nodes act (root_nodes r) s1) (exec_nodes act (root_nodes r) s2)"
    by (rule exec_hidden [OF h]) (use assms in \<open>auto simp: root_subterms_def\<close>)
  show "rel_sum X R (case a of (vs, s) \<Rightarrow> ract (root_instr r) vs s) (case b of (vs, s) \<Rightarrow> ract (root_instr r) vs s)"
    if "rel_prod (\<lambda>vs ws. vs = ws \<and> list_all V vs) R a b" for a b
    using that hides_ract [OF h] by (auto simp: rel_prod_sel split: prod.splits)
qed

text \<open>The evaluation of a tree whose value is discarded, against a consumer that \<open>R\<close> does not see.\<close>

lemma discard_hidden:
  assumes h: "hides D act ract X V R" and laws: "total_laws act" and "R s1 s2"
    and "\<forall>l. D l \<longrightarrow> NLdLoc l \<notin> set (subterms tree) \<and> NLdLocA l \<notin> set (subterms tree)"
    and k: "\<And>v t1 t2. V v \<Longrightarrow> R t1 t2 \<Longrightarrow> \<exists>s'. k v t2 = Inr s' \<and> R t1 s'"
  shows "rel_sum X R (exec_roots act ract [discard tree] s1) (rbind (exec_nodes act [tree] s2) (\<lambda>(vs, s). k (hd vs) s))"
proof -
  have e: "same_values X V R (exec_nodes act [tree] s1) (exec_nodes act [tree] s2)"
    by (rule exec_hidden [OF h]) (use assms in auto)
  show ?thesis
  proof (cases "total tree")
    case True
    then have t: "exec_nodes act [tree] s = Inr ([eval act s tree], s)" for s
      using exec_total [OF laws, of "[tree]"] by simp
    then have "V (eval act s2 tree)" using e by (auto simp: rel_prod_sel simp del: exec_nodes.simps)
    then show ?thesis using t k [of "eval act s2 tree" s1 s2] assms(3) True exec_nop [OF h, of s1]
      by (auto simp: discard_def simp del: exec_nodes.simps exec_roots.simps)
  next
    case False
    have one: "vs = [hd vs]" if "exec_nodes act [tree] s = Inr (vs, s')" for vs s s'
      using that by (auto simp: rbind_eq_Inr)
    show ?thesis
    proof (cases "exec_nodes act [tree] s2")
      case (Inl x)
      then show ?thesis using e False by (cases "exec_nodes act [tree] s1") (auto simp: discard_def exec_one simp del: exec_nodes.simps exec_roots.simps)
    next
      case (Inr q)
      then obtain vs t2 where 2: "exec_nodes act [tree] s2 = Inr (vs, t2)" by (cases q) simp
      then obtain t1 where 1: "exec_nodes act [tree] s1 = Inr (vs, t1)" "R t1 t2" "list_all V vs"
        using e by (cases "exec_nodes act [tree] s1") (auto simp: rel_prod_sel simp del: exec_nodes.simps)
      obtain v where v: "vs = [v]" using one [OF 2] by metis
      obtain s' where "k v t2 = Inr s'" "R t1 s'" using k [of v t1 t2] 1 v by auto
      then show ?thesis using 1 2 v False hides_pop [OF h, of tree v]
        by (simp add: discard_def exec_one del: exec_nodes.simps exec_roots.simps)
    qed
  qed
qed

lemma drop_dead_write_hidden:
  assumes h: "hides D act ract X V R" and laws: "total_laws act"
    and D: "\<And>l. D l \<Longrightarrow> unused uses l = Inr True"
    and sp: "\<And>l. unused uses l = Inr True \<Longrightarrow> D l \<and> spared l r"
    and drop: "drop_dead_write uses r = Inr r'" and "R s1 s2"
  shows "rel_sum X R (exec_roots act ract [r'] s1) (exec_roots act ract [r] s2)"
proof -
  have clean: "NLdLoc l \<notin> set (root_subterms r)" if "D l" for l
    using sp [OF D [OF that]] by (simp add: spared_def)
  have same: "rel_sum X R (exec_roots act ract [r] s1) (exec_roots act ract [r] s2)"
    if "\<And>l. D l \<Longrightarrow> NLdLocA l \<notin> set (root_subterms r)"
    by (rule same_root_hidden [OF h assms(6)]) (use that clean in auto)
  have at: "exec_nodes act [NLdLocA l] s = Inr ([eval act s (NLdLocA l)], s)"
      "exec_nodes act [NLdLoc l] s = Inr ([eval act s (NLdLoc l)], s)"
      "act (NLdLocA l) [] s = Inr (eval act s (NLdLocA l), s)" "act (NLdLoc l) [] s = Inr (eval act s (NLdLoc l), s)" for l s
  proof -
    have t: "total (NLdLocA l)" "total (NLdLoc l)" using total_iff [of "NLdLocA l"] total_iff [of "NLdLoc l"] by simp_all
    then show "exec_nodes act [NLdLocA l] s = Inr ([eval act s (NLdLocA l)], s)"
        "exec_nodes act [NLdLoc l] s = Inr ([eval act s (NLdLoc l)], s)"
      using exec_total [OF laws, of "[NLdLocA l]" s] exec_total [OF laws, of "[NLdLoc l]" s] by simp_all
    show "act (NLdLocA l) [] s = Inr (eval act s (NLdLocA l), s)" "act (NLdLoc l) [] s = Inr (eval act s (NLdLoc l), s)"
      using eval_unfold [OF laws t(1), of s] eval_unfold [OF laws t(2), of s] by (simp_all add: instr_def)
  qed
  show ?thesis
  proof (cases r)
    case (RStLoc l tree)
    then obtain dead where dead: "unused uses l = Inr dead"
        "r' = (if dead then discard tree else if tree = NLdLoc l then RNop else r)"
      using drop by (auto simp: rbind_eq_Inr)
    have sub: "\<forall>l. D l \<longrightarrow> NLdLoc l \<notin> set (subterms tree) \<and> NLdLocA l \<notin> set (subterms tree)"
      using sp [OF D] RStLoc by (auto simp: spared_def root_subterms_def)
    consider "dead" | "\<not> dead" "tree = NLdLoc l" | "\<not> dead" "r' = r" using dead(2) by (cases dead; cases "tree = NLdLoc l") auto
    then show ?thesis
    proof cases
      case 1
      then have "D l" using sp dead(1) by simp
      have "rel_sum X R (exec_roots act ract [discard tree] s1)
          (rbind (exec_nodes act [tree] s2) (\<lambda>(vs, s). ract (root_instr r) [hd vs] s))"
        by (rule discard_hidden [OF h laws assms(6) sub, where k = "\<lambda>v. ract (root_instr r) [v]"])
          (use hides_store [OF h \<open>D l\<close>] RStLoc in blast)
      moreover have "exec_roots act ract [r] s2 = rbind (exec_nodes act [tree] s2) (\<lambda>(vs, s). ract (root_instr r) [hd vs] s)"
        unfolding exec_one using RStLoc by (auto simp: rbind_def split: sum.splits prod.splits)
      ultimately show ?thesis using 1 dead(2) by simp
    next
      case 2
      then have "r' = RNop" using dead(2) by simp
      moreover obtain s' where "ract (root_instr r) [eval act s2 (NLdLoc l)] s2 = Inr s'" "R s1 s'"
        using hides_self_store [OF h at(4) assms(6)] RStLoc by blast
      ultimately show ?thesis using exec_nop [OF h, of s1] at(2) [of l s2] 2 RStLoc
        by (simp add: exec_one del: exec_nodes.simps)
    next
      case 3
      then show ?thesis using same sub RStLoc by (auto simp: root_subterms_def)
    qed
  next
    case (RSetField fd addr v)
    show ?thesis
    proof (cases "\<exists>l. addr = NLdLocA l \<and> D l")
      case True
      then obtain l where l: "addr = NLdLocA l" "D l" by blast
      then have r': "r' = discard v" using drop RSetField D [OF l(2)] by simp
      have sub: "\<forall>l. D l \<longrightarrow> NLdLoc l \<notin> set (subterms v) \<and> NLdLocA l \<notin> set (subterms v)"
        using sp [OF D] RSetField by (auto simp: spared_def root_subterms_def)
      let ?a = "eval act s2 (NLdLocA l)"
      have "rel_sum X R (exec_roots act ract [discard v] s1)
          (rbind (exec_nodes act [v] s2) (\<lambda>(vs, s). ract (root_instr r) [?a, hd vs] s))"
        by (rule discard_hidden [OF h laws assms(6) sub, where k = "\<lambda>v. ract (root_instr r) [?a, v]"])
          (use hides_field [OF h l(2) at(3)] RSetField in blast)
      moreover have "exec_roots act ract [r] s2 = rbind (exec_nodes act [v] s2) (\<lambda>(vs, s). ract (root_instr r) [?a, hd vs] s)"
        unfolding exec_one using RSetField l(1) at(3) [of l s2]
        by (auto simp: rbind_def instr_def split: sum.splits prod.splits)
      ultimately show ?thesis using r' by simp
    next
      case False
      have "r' = r" using drop RSetField False sp by (cases addr) (auto simp: rbind_eq_Inr split: if_splits)
      moreover have "NLdLocA l \<notin> set (root_subterms r)" if "D l" for l
        using sp [OF D [OF that]] RSetField False that by (auto simp: spared_def root_subterms_def)
      ultimately show ?thesis using same by simp
    qed
  qed (use drop same sp D in \<open>auto simp: spared_def\<close>)
qed

lemma exec_hidden_roots:
  assumes "list_all2 (\<lambda>r' r. \<forall>s1 s2. R s1 s2 \<longrightarrow> rel_sum X R (exec_roots act ract [r'] s1) (exec_roots act ract [r] s2)) rs' rs"
  shows "R s1 s2 \<Longrightarrow> rel_sum X R (exec_roots act ract rs' s1) (exec_roots act ract rs s2)"
  using assms
proof (induction rs' rs arbitrary: s1 s2 rule: list_all2_induct)
  case (Cons r' rs' r rs)
  show ?case
    unfolding exec_roots_Cons [of act ract r' rs'] exec_roots_Cons [of act ract r rs]
    by (rule rel_sum_rbind [where P = R]) (use Cons in blast)+
qed simp

lemma exec_filter_nops:
  assumes "hides D act ract X V R"
  shows "exec_roots act ract (filter (\<lambda>r. r \<noteq> RNop) rs) s = exec_roots act ract rs s"
proof (induction rs arbitrary: s)
  case (Cons r rs)
  have eq: "exec_roots act ract (filter (\<lambda>r. r \<noteq> RNop) rs) = exec_roots act ract rs" using Cons by (rule ext)
  show ?case
  proof (cases "r = RNop")
    case True
    then show ?thesis using eq exec_roots_Cons [of act ract RNop rs s] exec_nop [OF assms, of s]
      by (simp del: exec_roots.simps)
  next
    case False
    then show ?thesis using eq exec_roots_Cons [of act ract r rs s] exec_roots_Cons [of act ract r "filter (\<lambda>r. r \<noteq> RNop) rs" s]
      by (simp del: exec_roots.simps)
  qed
qed simp

lemma try_map_block_total:
  "(\<And>r. r \<in> set (iter_roots b) \<Longrightarrow> \<exists>r'. f r = Inr r') \<Longrightarrow> \<exists>b'. try_map_block f b = Inr b'"
  "(\<And>r. r \<in> set (concat (map iter_roots bs)) \<Longrightarrow> \<exists>r'. f r = Inr r') \<Longrightarrow> \<exists>bs'. try_map_handler f bs = Inr bs'"
proof (induction f b and f bs rule: try_map_block_try_map_handler.induct)
  case (1 f rs i h hi)
  obtain rs' where "rmap f rs = Inr rs'" using rmap_total [of rs f] 1(2) by auto
  then show ?case using 1 by (cases h) force+
next
  case (3 f b bs)
  then obtain b' where "try_map_block f b = Inr b'" by auto
  moreover have "\<exists>bs'. try_map_handler f bs = Inr bs'" using 3 by auto
  ultimately show ?case by auto
qed auto

lemma try_map_block_roots: "try_map_block f b = Inr b' \<Longrightarrow> rmap f (bb_roots b) = Inr (bb_roots b')"
  by (cases b) (auto simp: rbind_eq_Inr split: option.splits)

lemma bb_roots_remove_nops: "bb_roots (remove_nops_block b) = filter (\<lambda>r. r \<noteq> RNop) (bb_roots b)"
  by (cases b) (simp add: remove_nops_block_def drop_nops_def)

definition dead_local :: "method_impl \<Rightarrow> u32 \<Rightarrow> bool" where
  "dead_local impl l \<longleftrightarrow>
     (case body_parts impl of
        None \<Rightarrow> False
      | Some (blocks, cleanup, locals) \<Rightarrow>
          (case census (concat (map iter_roots (blocks @ cleanup))) (length locals) of
             Inl _ \<Rightarrow> False | Inr uses \<Rightarrow> unused uses l = Inr True))"

lemma drop_dead_write_total: "length (fst uses) = n \<Longrightarrow> root_in_range n r \<Longrightarrow> \<exists>r'. drop_dead_write uses r = Inr r'"
proof -
  assume a: "length (fst uses) = n" "root_in_range n r"
  have "unat l < n" if "r = RSetField fd (NLdLocA l) v" for l fd v
    using a(2) that by (auto simp: root_in_range_def elem_in_range_def stores_field_of_def)
  then show ?thesis using a by (cases "(uses, r)" rule: drop_dead_write.cases) (auto simp: unused_def root_in_range_def)
qed

lemma rmap_blocks_hidden:
  assumes h: "hides D act ract X V R" and laws: "total_laws act"
    and D: "\<And>l. D l \<longleftrightarrow> unused uses l = Inr True"
    and sp: "\<And>l r. unused uses l = Inr True \<Longrightarrow> r \<in> set (concat (map iter_roots bs)) \<Longrightarrow> spared l r"
    and m: "rmap (try_map_block (drop_dead_write uses)) bs = Inr bs'"
  shows "list_all2 (\<lambda>b b'. \<forall>s1 s2. R s1 s2 \<longrightarrow>
      rel_sum X R (exec_roots act ract (bb_roots b') s1) (exec_roots act ract (bb_roots b) s2)) bs (map remove_nops_block bs')"
proof -
  have "\<forall>s1 s2. R s1 s2 \<longrightarrow> rel_sum X R (exec_roots act ract (bb_roots (remove_nops_block b')) s1) (exec_roots act ract (bb_roots b) s2)"
    if b: "try_map_block (drop_dead_write uses) b = Inr b'" "b \<in> set bs" for b b'
  proof -
    have m: "list_all2 (\<lambda>r' r. drop_dead_write uses r = Inr r') (bb_roots b') (bb_roots b)"
      by (rule rmap_list_all2 [OF try_map_block_roots [OF b(1)]])
    have sub: "set (bb_roots b) \<subseteq> set (concat (map iter_roots bs))"
    proof -
      have "set (bb_roots b) \<subseteq> set (iter_roots b)" by (cases b) auto
      then show ?thesis using b(2) by auto
    qed
    have "rel_sum X R (exec_roots act ract [r'] s1) (exec_roots act ract [r] s2)"
      if "drop_dead_write uses r = Inr r'" "r \<in> set (concat (map iter_roots bs))" "R s1 s2" for r r' s1 s2
      by (rule drop_dead_write_hidden [OF h laws _ _ that(1,3)]) (use D sp that(2) in blast)+
    with sub have "list_all2 (\<lambda>r' r. \<forall>s1 s2. R s1 s2 \<longrightarrow>
        rel_sum X R (exec_roots act ract [r'] s1) (exec_roots act ract [r] s2)) (bb_roots b') (bb_roots b)"
      by (intro list.rel_mono_strong [OF m] allI impI) blast
    note this [THEN exec_hidden_roots]
    then show ?thesis unfolding bb_roots_remove_nops exec_filter_nops [OF h] by simp
  qed
  then show ?thesis using rmap_list_all2 [OF m] by (auto simp: list_all2_conv_all_nth)
qed

text \<open>
  C7. Deleting dead writes is sound: on a body whose slots exist and whose statements have no nested
  statement and no element-reference load (\<^verbatim>\<open>ldelem.ref\<close>), the pass does not panic and every block of the result executes
  like the block it came from, in states that may differ in the locals found dead.
\<close>

theorem dead_writes_removed:
  assumes body: "body_parts impl = Some (bs, cs, ls)"
    and plain: "list_all plain_root (concat (map iter_roots (bs @ cs)))"
    and range: "list_all (root_in_range (length ls)) (concat (map iter_roots (bs @ cs)))"
    and fuel: "8 \<le> fuel" and laws: "total_laws act" "hides (dead_local impl) act ract X V R"
  shows "\<exists>impl'. remove_dead_writes impl fuel = Inr (impl', fuel - 8) \<and>
    list_all2 (\<lambda>b b'. \<forall>s1 s2. R s1 s2 \<longrightarrow>
      rel_sum X R (exec_roots act ract (bb_roots b') s1) (exec_roots act ract (bb_roots b) s2))
      (bs @ cs) (the (all_blocks impl'))"
proof -
  let ?rs = "concat (map iter_roots (bs @ cs))"
  obtain uses where u: "census ?rs (length ls) = Inr uses" "length (fst uses) = length ls"
      "\<And>l r. unused uses l = Inr True \<Longrightarrow> r \<in> set ?rs \<Longrightarrow> spared l r"
    using census_ok [OF plain range] by blast
  have D: "dead_local impl l \<longleftrightarrow> unused uses l = Inr True" for l
    using body u(1) by (simp add: dead_local_def)
  have tot: "\<exists>b'. try_map_block (drop_dead_write uses) b = Inr b'" if "b \<in> set (bs @ cs)" for b
    by (rule try_map_block_total(1), rule drop_dead_write_total [OF u(2)]) (use range that in \<open>auto simp: list_all_iff\<close>)
  obtain bs' cs' where m: "rmap (try_map_block (drop_dead_write uses)) bs = Inr bs'"
      "rmap (try_map_block (drop_dead_write uses)) cs = Inr cs'"
    using rmap_total [of bs] rmap_total [of cs] tot by (metis Un_iff set_append)
  have r: "remove_dead_writes impl fuel = Inr (remove_nops (with_blocks impl bs' cs'), fuel - 8)"
    using body u(1) m fuel by (simp add: remove_dead_writes_def consume_def)
  have blocks: "the (all_blocks (remove_nops (with_blocks impl bs' cs'))) = map remove_nops_block bs' @ map remove_nops_block cs'"
    using body m(2) by (cases impl) (auto simp: remove_nops_def)
  note hid = rmap_blocks_hidden [OF laws(2,1) D]
  show ?thesis
    unfolding r using hid [OF _ m(1)] hid [OF _ m(2)] u(3)
    by (intro exI [of _ "remove_nops (with_blocks impl bs' cs')"] conjI refl)
      (auto simp only: blocks set_append map_append concat_append intro!: list_all2_appendI)
qed

text \<open>The machine on integers hides every set of locals, in states whose slots hold values of their types.\<close>

definition typed_slots :: "fn_sig \<Rightarrow> local_def list \<Rightarrow> slots \<Rightarrow> bool" where
  "typed_slots sig locals s \<longleftrightarrow>
     (\<forall>l. slot_value (snd (locals ! unat l)) (fst s l) = fst s l)
   \<and> (\<forall>a. slot_value (sig_inputs sig ! unat a) (snd s a) = snd s a)"

definition same_slots :: "(u32 \<Rightarrow> bool) \<Rightarrow> fn_sig \<Rightarrow> local_def list \<Rightarrow> slots \<Rightarrow> slots \<Rightarrow> bool" where
  "same_slots D sig locals s1 s2 \<longleftrightarrow>
     snd s1 = snd s2 \<and> (\<forall>l. \<not> D l \<longrightarrow> fst s1 l = fst s2 l) \<and> typed_slots sig locals s1 \<and> typed_slots sig locals s2"

lemma slot_value_idem [simp]: "slot_value t (slot_value t v) = slot_value t v"
  by (auto simp: slot_value_def truncated_def split: cil_type.splits cil_float.splits)

lemma slot_act_partial: "\<not> total_op n \<Longrightarrow> slot_act (instr n) vs s = Inl ()"
  by (cases n) (simp_all add: instr_def)

lemma total_laws_slots: "total_laws slot_act"
  using slot_act_total by (simp add: total_laws_def)

lemma slots_hide: "hides D slot_act (slot_ract sig locals) (=) (\<lambda>_. True) (same_slots D sig locals)"
proof -
  let ?R = "same_slots D sig locals" and ?ract = "slot_ract sig locals"
  have act: "rel_sum (=) (rel_prod (\<lambda>v w. v = w \<and> True) ?R) (slot_act (instr n) vs s1) (slot_act (instr n) vs s2)"
    if n: "\<forall>l. D l \<longrightarrow> n \<noteq> NLdLoc l \<and> n \<noteq> NLdLocA l" and R: "?R s1 s2" for n vs s1 s2
  proof (cases "total_op n")
    case True
    obtain v w where "slot_act (instr n) vs s1 = Inr (v, s1)" "slot_act (instr n) vs s2 = Inr (w, s2)"
      using slot_act_total [OF True] by meson
    moreover have "map_sum id fst (slot_act (instr n) vs s1) = map_sum id fst (slot_act (instr n) vs s2)"
      by (rule slot_act_other [OF True]) (use n R in \<open>auto simp: same_slots_def\<close>)
    ultimately show ?thesis using R by simp
  qed (simp add: slot_act_partial)
  have ract: "rel_sum (=) ?R (?ract (root_instr r) vs s1) (?ract (root_instr r) vs s2)" if R: "?R s1 s2" for r vs s1 s2
  proof (cases r)
    case (RBranch t u c)
    then show ?thesis by (simp add: root_instr_def)
  next
    case (RCallI p sg as)
    then show ?thesis by (simp add: root_instr_def)
  qed (use R in \<open>auto simp: root_instr_def same_slots_def typed_slots_def\<close>)
  have store: "\<exists>s'. ?ract (root_instr (RStLoc l n)) [v] s2 = Inr s' \<and> ?R s1 s'" if "D l" "?R s1 s2" for l n v s1 s2
    using that by (auto simp: root_instr_def same_slots_def typed_slots_def)
  have field: "\<exists>s'. ?ract (root_instr (RSetField fd n m)) vs s2 = Inr s' \<and> ?R s1 s'" if "?R s1 s2" for fd n m vs s1 s2
    using that by (simp add: root_instr_def)
  have self: "\<exists>s'. ?ract (root_instr (RStLoc l n)) [v] s2 = Inr s' \<and> ?R s1 s'"
    if "slot_act (NLdLoc l) [] s2 = Inr (v, s2)" "?R s1 s2" for l n v s1 s2
  proof -
    have "v = fst s2 l" using that(1) by simp
    then have "?ract (root_instr (RStLoc l n)) [v] s2 = Inr s2"
      using that(2) by (simp add: root_instr_def same_slots_def typed_slots_def)
    then show ?thesis using that(2) by blast
  qed
  show ?thesis
    unfolding hides_def using act ract store field self by (simp add: root_instr_def)
qed

definition two_stores :: "method_impl" where
  "two_stores = MethodBody [BasicBlock [RStLoc 0 (NBinOp (NLdArg 0) (NLdArg 1) Div), RStLoc 1 (NLdArg 0), RStLoc 0 (NConst (CI32 7)),
     RStArg 0 (NLdLoc 1)] 0 None None] [(None, TInt I32), (None, TInt U8)]"

lemma two_stores_plain:
  "list_all plain_root (concat (map iter_roots (the (all_blocks two_stores))))"
  "list_all (root_in_range 2) (concat (map iter_roots (the (all_blocks two_stores))))"
  by (simp_all add: two_stores_def plain_root_def subterms.simps root_in_range_def elem_in_range_def stores_field_of_def)

theorem dead_writes_removed_witness:
  "\<exists>impl'. remove_dead_writes two_stores 100 = Inr (impl', 92) \<and>
    list_all2 (\<lambda>b b'. \<forall>s1 s2. same_slots (dead_local two_stores) (FnSig [] TVoid) [] s1 s2 \<longrightarrow>
      rel_sum (=) (same_slots (dead_local two_stores) (FnSig [] TVoid) [])
        (exec_roots slot_act (slot_ract (FnSig [] TVoid) []) (bb_roots b') s1)
        (exec_roots slot_act (slot_ract (FnSig [] TVoid) []) (bb_roots b) s2))
      (the (all_blocks two_stores)) (the (all_blocks impl'))"
proof -
  obtain bs ls where b: "two_stores = MethodBody bs ls" "length ls = 2" by (simp add: two_stores_def)
  have p: "body_parts two_stores = Some (bs, [], ls)" "the (all_blocks two_stores) = bs @ []" unfolding b(1) by simp_all
  have "\<exists>impl'. remove_dead_writes two_stores 100 = Inr (impl', 100 - 8) \<and>
    list_all2 (\<lambda>b b'. \<forall>s1 s2. same_slots (dead_local two_stores) (FnSig [] TVoid) [] s1 s2 \<longrightarrow>
      rel_sum (=) (same_slots (dead_local two_stores) (FnSig [] TVoid) [])
        (exec_roots slot_act (slot_ract (FnSig [] TVoid) []) (bb_roots b') s1)
        (exec_roots slot_act (slot_ract (FnSig [] TVoid) []) (bb_roots b) s2)) (bs @ []) (the (all_blocks impl'))"
    by (rule dead_writes_removed [OF p(1) two_stores_plain(1) [unfolded p(2)] _ _ total_laws_slots slots_hide])
      (use two_stores_plain(2) [unfolded p(2)] b(2) in simp_all)
  then show ?thesis unfolding p(2) by simp
qed

text \<open>The division is kept as a discard, the constant store is deleted.\<close>

lemma two_stores_example:
  "remove_dead_writes two_stores 100 = Inr (MethodBody [BasicBlock [RPop (NBinOp (NLdArg 0) (NLdArg 1) Div), RStLoc 1 (NLdArg 0),
     RStArg 0 (NLdLoc 1)] 0 None None] [(None, TInt I32), (None, TInt U8)], 92)"
  by (simp add: remove_dead_writes_def two_stores_def consume_def census_def unused_def discard_def is_pure_total_def
    effect_of.simps effect_union_def remove_nops_def remove_nops_block_def drop_nops_def)

text \<open>
  The index of an element-reference load (\<^verbatim>\<open>ldelem.ref\<close>) is not counted as a read: in a method that
  stores a local and then uses it as such an index only, the pass deletes the store.
\<close>

lemma live_write_deleted:
  "remove_dead_writes (MethodBody [BasicBlock [RStLoc 0 (NConst (CI32 1)), RPop (NLdElelemRef (NLdArg 0) (NLdLoc 0))] 0 None None]
       [(None, TInt I32)]) 100
   = Inr (MethodBody [BasicBlock [RPop (NLdElelemRef (NLdArg 0) (NLdLoc 0))] 0 None None] [(None, TInt I32)], 92)"
  by (simp add: remove_dead_writes_def consume_def census_def unused_def discard_def is_pure_total_def
    effect_of.simps remove_nops_def remove_nops_block_def drop_nops_def)

section \<open>Debug locations\<close>

fun sfi_key :: "cil_root \<Rightarrow> (string \<times> u16 \<times> u32) option" where
  "sfi_key (RSourceFileInfo line_start line_len _ _ file) = Some (file, line_len, line_start)"
| "sfi_key _ = None"

text \<open>The statements of a block, each with the file and lines a debugger shows for it.\<close>

fun located :: "string \<times> u16 \<times> u32 \<Rightarrow> cil_root list \<Rightarrow> (cil_root \<times> string \<times> u16 \<times> u32) list" where
  "located k [] = []"
| "located k (r # rs) =
     (case sfi_key r of
        Some k \<Rightarrow> located k rs
      | None \<Rightarrow> if r = RNop then located k rs else (r, k) # located k rs)"

definition no_location :: "string \<times> u16 \<times> u32" where
  "no_location = (''InvalidDebugInfoString'', 0xFFFF, 0xFFFFFFFF)"

lemma sfi_key_None: "sfi_key r = None \<Longrightarrow> mark_duplicate_sfi k (r # rs) = r # mark_duplicate_sfi k rs"
  by (cases r; cases k) simp_all

lemma sfi_key_Some: "sfi_key r = Some k' \<Longrightarrow> mark_duplicate_sfi k (r # rs) = (if k' = k then RNop else r) # mark_duplicate_sfi k' rs"
  by (cases r; cases k; cases k') simp_all

lemma mark_duplicate_sfi_located:
  "located k (filter (\<lambda>r. r \<noteq> RNop) (mark_duplicate_sfi k rs)) = located k rs
   \<and> distinct_adj (k # map (\<lambda>r. the (sfi_key r)) (filter is_sfi (mark_duplicate_sfi k rs)))"
proof (induction rs arbitrary: k)
  case (Cons r rs)
  have sfi: "is_sfi r \<longleftrightarrow> sfi_key r \<noteq> None" by (cases r) simp_all
  show ?case
  proof (cases "sfi_key r")
    case None
    then show ?thesis using Cons [of k] sfi by (simp add: sfi_key_None)
  next
    case (Some k')
    then have "r \<noteq> RNop" by auto
    then show ?thesis using Some Cons [of k'] sfi by (cases "k' = k") (simp_all add: sfi_key_Some)
  qed
qed simp

text \<open>
  Removing duplicate source locations keeps every statement of a block, in order, with the file
  and lines a debugger shows for it; afterwards no location repeats the one before it and no empty
  statement is left.
\<close>

theorem duplicate_sfi_removed:
  "located no_location (bb_roots (remove_duplicate_sfi_block b)) = located no_location (bb_roots b)
   \<and> distinct_adj (no_location # map (\<lambda>r. the (sfi_key r)) (filter is_sfi (bb_roots (remove_duplicate_sfi_block b))))
   \<and> RNop \<notin> set (bb_roots (remove_duplicate_sfi_block b))"
proof (cases b)
  case (BasicBlock rs i h hi)
  have f: "filter (\<lambda>r. r \<noteq> RNop \<and> is_sfi r) xs = filter is_sfi xs" for xs
    by (rule filter_cong) auto
  show ?thesis
    using mark_duplicate_sfi_located [of no_location rs] BasicBlock
    by (simp add: remove_duplicate_sfi_block_def f flip: no_location_def)
qed

section \<open>Forward substitution over a body\<close>

lemma local_opt_blocks_ok:
  assumes m: "machine fits sig locals act ract"
  shows "list_all (store_in_range sig locals) (concat (map bb_roots bs)) \<Longrightarrow>
    \<exists>bs' fuel'. local_opt_blocks sig locals bs fuel = Inr (bs', fuel') \<and>
      list_all2 (\<lambda>b b'. \<forall>s. stores_fit fits sig locals act ract (bb_roots b) s \<longrightarrow>
        exec_roots act ract (bb_roots b') s = exec_roots act ract (bb_roots b) s) bs bs'"
proof (induction bs arbitrary: fuel)
  case (Cons b bs)
  obtain rs i h hi where b: "b = BasicBlock rs i h hi" by (cases b)
  have r: "list_all (store_in_range sig locals) rs" "list_all (store_in_range sig locals) (concat (map bb_roots bs))"
    using Cons.prems b by simp_all
  obtain rs' fuel1 where rs': "local_opt sig locals rs fuel = Inr (rs', fuel1)"
      "\<forall>s. stores_fit fits sig locals act ract rs s \<longrightarrow> exec_roots act ract rs' s = exec_roots act ract rs s"
    using local_opt_fitting [OF m r(1), of fuel] by blast
  then show ?case using Cons.IH [OF r(2), of fuel1] b by fastforce
qed simp

text \<open>
  The pass over a whole body, its cleanup blocks included, leaves every block with the same execution
  from every state from which the block stores only values of their types.
\<close>

lemma propagate_method_ok:
  assumes "body_parts impl = Some (bs, cs, locals)" and m: "machine fits sig locals act ract"
    and "list_all (store_in_range sig locals) (concat (map bb_roots (bs @ cs)))"
  shows "\<exists>impl' fuel'. propagate_method sig impl fuel = Inr (impl', fuel') \<and>
      list_all2 (\<lambda>b b'. \<forall>s. stores_fit fits sig locals act ract (bb_roots b) s \<longrightarrow>
        exec_roots act ract (bb_roots b') s = exec_roots act ract (bb_roots b) s) (bs @ cs) (the (all_blocks impl'))"
proof -
  let ?same = "\<lambda>b b'. \<forall>s. stores_fit fits sig locals act ract (bb_roots b) s \<longrightarrow>
    exec_roots act ract (bb_roots b') s = exec_roots act ract (bb_roots b) s"
  have r: "list_all (store_in_range sig locals) (concat (map bb_roots bs))"
      "list_all (store_in_range sig locals) (concat (map bb_roots cs))"
    using assms(3) by simp_all
  obtain bs' fuel1 where 1: "local_opt_blocks sig locals bs fuel = Inr (bs', fuel1)" "list_all2 ?same bs bs'"
    using local_opt_blocks_ok [OF m r(1)] by blast
  obtain cs' fuel2 where 2: "local_opt_blocks sig locals cs fuel1 = Inr (cs', fuel2)" "list_all2 ?same cs cs'"
    using local_opt_blocks_ok [OF m r(2)] by blast
  have "the (all_blocks (with_blocks impl bs' cs')) = bs' @ cs'" using assms(1) 2 by (cases impl) auto
  then show ?thesis using assms(1) 1 2 by (auto simp: propagate_method_def intro!: list_all2_appendI)
qed

end
