(* ===== verification/BodyEmit.thy ===== *)
theory BodyEmit
  imports MetaTables DeadWrites
begin

text \<open>
  Method bodies in the executable (\<^verbatim>\<open>cilly/src/ir/pe_exporter/body.rs\<close>): the emitter that turns blocks of
  roots into bytes with labels, branch operands and exception clauses, the ladders that choose the encoding of
  constants, and the fat method header. The token sink, a trait of the code, is a record of operations
  over a state of its own; a panic is a value of \<open>emit_panic\<close>. The lemmas show what constants push, that the
  code of a tree is postfix code, that the stack size suffices, where branches lead, and that a finished body
  is read back by the rules of the format.
\<close>


section \<open>The emitter\<close>

datatype label =
    LBlock u32
  | LHandlerLeave u32 u32
  | LProtectedLeave u32 u32
  | LTerminateDone u64
  | LMarker u64

record pending_clause =
  pc_try_start :: label
  pc_try_end :: label
  pc_handler_start :: label
  pc_handler_end :: label

record sequence_point =
  sp_il_offset :: u32
  sp_document_path :: string
  sp_line :: u32
  sp_col :: u32
  sp_end_line :: u32
  sp_end_col :: u32
  sp_is_hidden :: bool

record 'r emitter =
  e_sink :: 'r
  e_out :: "u8 list"
  e_label_offsets :: "label \<rightharpoonup> u32"
  e_branch_fixups :: "(u32 \<times> label) list"
  e_clauses :: "pending_clause list"
  e_marker_counter :: u64
  e_terminate_region_counter :: u64
  e_sequence_points :: "sequence_point list"

datatype emit_panic =
    EncodingTodo
  | VoidDereferenced
  | ConstructorRoot
  | UndefinedLabel label
  | BranchOverflow
  | BodyTooLarge
  | LineOverflow
  | EmitSig sig_panic
  | SinkPanic

text \<open>
  The trait \<^verbatim>\<open>TokenSink\<close>, whose state is \<open>'r\<close>. The token of the field that holds a constant buffer is one
  more operation, because its name contains the index of the interned buffer.
\<close>

record 'r token_sink =
  ts_method :: "method_ref \<Rightarrow> 'r \<Rightarrow> (emit_panic, token \<times> 'r) result"
  ts_field :: "field_desc \<Rightarrow> 'r \<Rightarrow> (emit_panic, token \<times> 'r) result"
  ts_static_field :: "static_field_desc \<Rightarrow> 'r \<Rightarrow> (emit_panic, token \<times> 'r) result"
  ts_user_string :: "string \<Rightarrow> 'r \<Rightarrow> (emit_panic, token \<times> 'r) result"
  ts_calli_sig :: "string \<Rightarrow> u8 list \<Rightarrow> 'r \<Rightarrow> (emit_panic, token \<times> 'r) result"
  ts_locals_sig :: "cil_type list \<Rightarrow> 'r \<Rightarrow> (emit_panic, token \<times> 'r) result"
  ts_type :: "cil_type \<Rightarrow> 'r \<Rightarrow> (emit_panic, token \<times> 'r) result"
  ts_type_def_or_ref :: "'r resolver"
  ts_const_blob :: "u8 list \<Rightarrow> 'r \<Rightarrow> (emit_panic, token \<times> 'r) result"

type_synonym 'r emit = "'r emitter \<Rightarrow> (emit_panic, 'r emitter) result"

fun seq :: "'r emit list \<Rightarrow> 'r emit" where
  "seq [] e = Inr e"
| "seq (f # fs) e = rbind (f e) (seq fs)"

definition push_bytes :: "u8 list \<Rightarrow> 'r emit" where
  "push_bytes bs e = Inr (e\<lparr>e_out := e_out e @ bs\<rparr>)"

definition push_u8 :: "u8 \<Rightarrow> 'r emit" where
  "push_u8 b = push_bytes [b]"

definition push_u32 :: "u32 \<Rightarrow> 'r emit" where
  "push_u32 v = push_bytes (le_bytes 4 v)"

definition push_i64 :: "u64 \<Rightarrow> 'r emit" where
  "push_i64 v = push_bytes (le_bytes 8 v)"

definition push_token :: "token \<Rightarrow> 'r emit" where
  "push_token tok = push_u32 tok"

definition push_ext :: "u8 \<Rightarrow> 'r emit" where
  "push_ext sub = push_bytes [0xFE, sub]"

definition push_volatile_prefix :: "'r emit" where
  "push_volatile_prefix = push_ext 0x13"

text \<open>Ask the sink for a token, then go on with it.\<close>

definition with_token :: "('r \<Rightarrow> (emit_panic, token \<times> 'r) result) \<Rightarrow> (token \<Rightarrow> 'r emit) \<Rightarrow> 'r emit" where
  "with_token ask k e = rbind (ask (e_sink e)) (\<lambda>(tok, r). k tok (e\<lparr>e_sink := r\<rparr>))"

definition emit_token_op :: "'r token_sink \<Rightarrow> u8 \<Rightarrow> cil_type \<Rightarrow> 'r emit" where
  "emit_token_op ts opcode t = with_token (ts_type ts t) (\<lambda>tok. seq [push_u8 opcode, push_token tok])"

section \<open>Labels and branches\<close>

definition here_offset :: "'r emitter \<Rightarrow> (emit_panic, u32) result" where
  "here_offset e = (if length (e_out e) < 2 ^ 32 then Inr (word_of_nat (length (e_out e))) else Inl BodyTooLarge)"

definition define_label :: "label \<Rightarrow> 'r emit" where
  "define_label l e =
     rbind (here_offset e) (\<lambda>off. Inr (e\<lparr>e_label_offsets := (e_label_offsets e)(l \<mapsto> off)\<rparr>))"

definition here :: "'r emitter \<Rightarrow> (emit_panic, label \<times> 'r emitter) result" where
  "here e =
     (let l = LMarker (e_marker_counter e) in
      rbind (define_label l (e\<lparr>e_marker_counter := e_marker_counter e + 1\<rparr>)) (\<lambda>e. Inr (l, e)))"

definition push_branch :: "u8 \<Rightarrow> label \<Rightarrow> 'r emit" where
  "push_branch opcode target =
     seq [push_u8 opcode,
          \<lambda>e. rbind (here_offset e) (\<lambda>off.
            Inr (e\<lparr>e_out := e_out e @ le_bytes 4 (0 :: u32), e_branch_fixups := e_branch_fixups e @ [(off, target)]\<rparr>))]"

definition overwrite :: "'a list \<Rightarrow> nat \<Rightarrow> 'a list \<Rightarrow> 'a list" where
  "overwrite xs i ys = take i xs @ ys @ drop (i + length ys) xs"

definition patch_branch :: "(label \<rightharpoonup> u32) \<Rightarrow> u32 \<times> label \<Rightarrow> u8 list \<Rightarrow> (emit_panic, u8 list) result" where
  "patch_branch labels fixup out =
     (let (operand_off, target) = fixup in
      rbind (ok_or (labels target) (UndefinedLabel target)) (\<lambda>target_off.
      let rel = uint target_off - (uint operand_off + 4) in
      if -(2 ^ 31) \<le> rel \<and> rel < 2 ^ 31
      then Inr (overwrite out (unat operand_off) (le_bytes 4 (word_of_int rel :: u32)))
      else Inl BranchOverflow))"

fun patch_all :: "(label \<rightharpoonup> u32) \<Rightarrow> (u32 \<times> label) list \<Rightarrow> u8 list \<Rightarrow> (emit_panic, u8 list) result" where
  "patch_all labels [] out = Inr out"
| "patch_all labels (f # fs) out = rbind (patch_branch labels f out) (patch_all labels fs)"

definition patch_branches :: "'r emit" where
  "patch_branches e =
     rbind (patch_all (e_label_offsets e) (e_branch_fixups e) (e_out e)) (\<lambda>out.
       Inr (e\<lparr>e_out := out, e_branch_fixups := []\<rparr>))"

definition resolve_label :: "label \<Rightarrow> 'r emitter \<Rightarrow> (emit_panic, u32) result" where
  "resolve_label l e = ok_or (e_label_offsets e l) (UndefinedLabel l)"

fun branch_label :: "u32 \<Rightarrow> u32 \<Rightarrow> bool \<Rightarrow> bool \<Rightarrow> label" where
  "branch_label target sub_target has_handler is_handler =
     (if sub_target = 0 then LBlock target
      else if is_handler then LHandlerLeave target sub_target
      else if has_handler then LProtectedLeave target sub_target
      else LBlock sub_target)"

section \<open>Slots and constants\<close>

definition emit_compact_index :: "u32 \<Rightarrow> u8 \<Rightarrow> u8 \<Rightarrow> u8 \<Rightarrow> 'r emit" where
  "emit_compact_index index compact short wide =
     (if index \<le> 3 then push_u8 (compact + ucast index)
      else if index \<le> 255 then seq [push_u8 short, push_u8 (ucast index)]
      else seq [push_ext wide, push_u32 index])"

definition emit_short_index :: "u32 \<Rightarrow> u8 \<Rightarrow> u8 \<Rightarrow> 'r emit" where
  "emit_short_index index short wide =
     (if index \<le> 255 then seq [push_u8 short, push_u8 (ucast index)]
      else seq [push_ext wide, push_u32 index])"

definition emit_ldloc :: "u32 \<Rightarrow> 'r emit" where
  "emit_ldloc loc = emit_compact_index loc 0x06 0x11 0x0C"

definition emit_ldloca :: "u32 \<Rightarrow> 'r emit" where
  "emit_ldloca loc = emit_short_index loc 0x12 0x0D"

definition emit_ldarg :: "u32 \<Rightarrow> 'r emit" where
  "emit_ldarg arg = emit_compact_index arg 0x02 0x0E 0x09"

definition emit_ldarga :: "u32 \<Rightarrow> 'r emit" where
  "emit_ldarga arg = emit_short_index arg 0x0F 0x0A"

definition emit_stloc :: "u32 \<Rightarrow> 'r emit" where
  "emit_stloc loc = emit_compact_index loc 0x0A 0x13 0x0E"

definition emit_starg :: "u32 \<Rightarrow> 'r emit" where
  "emit_starg arg = emit_short_index arg 0x10 0x0B"

text \<open>The values below are the code's \<^verbatim>\<open>i64\<close> and \<^verbatim>\<open>u64\<close> arguments as integers.\<close>

definition push_short_form_ldc :: "int \<Rightarrow> 'r emit" where
  "push_short_form_ldc val = push_u8 (0x16 + word_of_int val)"

definition push_ldc_s :: "int \<Rightarrow> 'r emit" where
  "push_ldc_s val = seq [push_u8 0x1F, push_u8 (word_of_int val)]"

definition push_ldc_i4 :: "int \<Rightarrow> 'r emit" where
  "push_ldc_i4 val = seq [push_u8 0x20, push_u32 (word_of_int val)]"

definition push_ldc_i8 :: "u64 \<Rightarrow> 'r emit" where
  "push_ldc_i8 val = seq [push_u8 0x21, push_i64 val]"

definition emit_ldc_i4_signed :: "int \<Rightarrow> 'r emit" where
  "emit_ldc_i4_signed val =
     (if val = -1 then push_u8 0x15
      else if 0 \<le> val \<and> val \<le> 8 then push_short_form_ldc val
      else if 9 \<le> val \<and> val \<le> 127 then push_ldc_s val
      else push_ldc_i4 val)"

definition emit_ldc_i4_i8_band :: "int \<Rightarrow> 'r emit" where
  "emit_ldc_i4_i8_band val =
     (if val = -1 then push_u8 0x15
      else if 0 \<le> val \<and> val \<le> 8 then push_short_form_ldc val
      else push_ldc_s val)"

definition emit_ldc_i4_unsigned :: "int \<Rightarrow> 'r emit" where
  "emit_ldc_i4_unsigned val =
     (if 0 \<le> val \<and> val \<le> 8 then emit_ldc_i4_signed val
      else if 9 \<le> val \<and> val \<le> 127 then push_ldc_s val
      else push_ldc_i4 val)"

definition emit_ldc_i8_via_i4_with_conv :: "u64 \<Rightarrow> u8 \<Rightarrow> 'r emit" where
  "emit_ldc_i8_via_i4_with_conv val trailing_conv =
     seq [if -(2 ^ 31) \<le> sint val \<and> sint val < 2 ^ 31 then emit_ldc_i4_signed (sint val) else push_ldc_i8 val,
          push_u8 trailing_conv]"

definition emit_ldc_i8_via_i4 :: "u64 \<Rightarrow> 'r emit" where
  "emit_ldc_i8_via_i4 val = emit_ldc_i8_via_i4_with_conv val 0x6A"

definition emit_ldc_u64 :: "u64 \<Rightarrow> 'r emit" where
  "emit_ldc_u64 val =
     (if val \<le> 8 then seq [emit_ldc_i4_signed (sint val), push_u8 0x6E]
      else if val \<le> 127 then seq [push_ldc_s (uint val), push_u8 0x6E]
      else if val \<le> 4294967295 then seq [push_ldc_i4 (uint val), push_u8 0x6E]
      else push_ldc_i8 val)"

definition emit_ldc_usize :: "u64 \<Rightarrow> 'r emit" where
  "emit_ldc_usize val =
     (if val \<le> 8 then seq [emit_ldc_i4_signed (sint val), push_u8 0xE0]
      else if val \<le> 127 then seq [push_ldc_s (uint val), push_u8 0xE0]
      else if val \<le> 2147483647 then seq [push_ldc_i4 (uint val), push_u8 0xE0]
      else seq [push_ldc_i8 val, push_u8 0xE0])"

definition bcl_class_ref :: "string \<Rightarrow> bool \<Rightarrow> class_ref" where
  "bcl_class_ref name is_valuetype = ClassRef name (Some ''System.Runtime'') is_valuetype []"

definition op_implicit_ref :: "class_ref \<Rightarrow> cil_type \<Rightarrow> method_ref" where
  "op_implicit_ref cref t = MethodRef cref ''op_Implicit'' (FnSig [t] (TClassRef cref)) MStatic []"

definition int128_ctor_ref :: "class_ref \<Rightarrow> method_ref" where
  "int128_ctor_ref cref =
     MethodRef cref ''.ctor'' (FnSig [TClassRef cref, TInt U64, TInt U64] TVoid) MConstructor []"

definition emit_int128_op_implicit :: "'r token_sink \<Rightarrow> class_ref \<Rightarrow> cil_type \<Rightarrow> 'r emit" where
  "emit_int128_op_implicit ts cref t =
     with_token (ts_method ts (op_implicit_ref cref t)) (\<lambda>tok. seq [push_u8 0x28, push_token tok])"

definition emit_int128_ctor :: "'r token_sink \<Rightarrow> class_ref \<Rightarrow> 'r emit" where
  "emit_int128_ctor ts cref =
     with_token (ts_method ts (int128_ctor_ref cref)) (\<lambda>tok. seq [push_u8 0x73, push_token tok])"

definition emit_i128 :: "'r token_sink \<Rightarrow> u128 \<Rightarrow> 'r emit" where
  "emit_i128 ts w =
     (let cref = bcl_class_ref ''System.Int128'' True; val = sint w in
      if val = -1 then seq [push_u8 0x15, emit_int128_op_implicit ts cref (TInt I32)]
      else if 0 \<le> val \<and> val \<le> 8 then seq [push_short_form_ldc val, emit_int128_op_implicit ts cref (TInt I32)]
      else if 9 \<le> val \<and> val \<le> 127 then seq [push_ldc_s val, emit_int128_op_implicit ts cref (TInt I32)]
      else if -(2 ^ 31) \<le> val \<and> val < 2 ^ 31 then seq [push_ldc_i4 val, emit_int128_op_implicit ts cref (TInt I32)]
      else if -(2 ^ 63) \<le> val \<and> val < 2 ^ 63 then seq [push_ldc_i8 (word_of_int val), emit_int128_op_implicit ts cref (TInt I64)]
      else seq [push_ldc_i8 (ucast (drop_bit 64 w)), push_ldc_i8 (ucast w), emit_int128_ctor ts cref])"

definition emit_u128 :: "'r token_sink \<Rightarrow> u128 \<Rightarrow> 'r emit" where
  "emit_u128 ts val =
     (let cref = bcl_class_ref ''System.UInt128'' True in
      if val \<le> 8 then seq [emit_ldc_i4_signed (uint val), emit_int128_op_implicit ts cref (TInt U32)]
      else if val \<le> 127 then seq [push_ldc_s (uint val), emit_int128_op_implicit ts cref (TInt U32)]
      else if val \<le> 4294967295 then seq [push_ldc_i4 (uint val), emit_int128_op_implicit ts cref (TInt U32)]
      else if val \<le> 18446744073709551615 then seq [push_ldc_i8 (ucast val), emit_int128_op_implicit ts cref (TInt U64)]
      else seq [push_ldc_i8 (ucast (drop_bit 64 val)), push_ldc_i8 (ucast val), emit_int128_ctor ts cref])"

fun emit_const :: "'r token_sink \<Rightarrow> cil_const \<Rightarrow> 'r emit" where
  "emit_const ts (CByteBuffer data _) = with_token (ts_const_blob ts data) (\<lambda>tok. seq [push_u8 0x7F, push_token tok])"
| "emit_const ts (CNull _) = push_u8 0x14"
| "emit_const ts (CI8 v) = emit_ldc_i4_i8_band (sint v)"
| "emit_const ts (CI16 v) = emit_ldc_i4_signed (sint v)"
| "emit_const ts (CI32 v) = emit_ldc_i4_signed (sint v)"
| "emit_const ts (CI64 v) = emit_ldc_i8_via_i4 v"
| "emit_const ts (CISize v) = emit_ldc_i8_via_i4_with_conv v 0xD3"
| "emit_const ts (CU8 v) = emit_ldc_i4_signed (uint v)"
| "emit_const ts (CU16 v) = emit_ldc_i4_signed (uint v)"
| "emit_const ts (CU32 v) = emit_ldc_i4_unsigned (uint v)"
| "emit_const ts (CU64 v) = emit_ldc_u64 v"
| "emit_const ts (CUSize v) = emit_ldc_usize v"
| "emit_const ts (CI128 v) = emit_i128 ts v"
| "emit_const ts (CU128 v) = emit_u128 ts v"
| "emit_const ts (CPlatformString s) = with_token (ts_user_string ts s) (\<lambda>tok. seq [push_u8 0x72, push_token tok])"
| "emit_const ts (CBool v) = push_u8 (if v then 0x17 else 0x16)"
| "emit_const ts (CF32 f) = seq [push_u8 0x22, push_bytes (le_bytes 4 f)]"
| "emit_const ts (CF64 f) = seq [push_u8 0x23, push_bytes (le_bytes 8 f)]"

section \<open>Conversions and indirect accesses\<close>

definition emit_int_cast :: "cil_int \<Rightarrow> extend_kind \<Rightarrow> 'r emit" where
  "emit_int_cast target ext =
     (if target \<in> {U8, I8} then push_u8 (if ext = ZeroExtend then 0xD2 else 0x67)
      else if target \<in> {U16, I16} then push_u8 (if ext = ZeroExtend then 0xD1 else 0x68)
      else if target \<in> {U32, I32} then push_u8 (if ext = ZeroExtend then 0x6D else 0x69)
      else if target \<in> {U64, I64} then push_u8 (if ext = ZeroExtend then 0x6E else 0x6A)
      else if target \<in> {USize, ISize} then push_u8 (if ext = ZeroExtend then 0xE0 else 0xD3)
      else (\<lambda>_. Inl EncodingTodo))"

fun emit_float_cast :: "cil_float \<Rightarrow> bool \<Rightarrow> 'r emit" where
  "emit_float_cast F16 _ = (\<lambda>_. Inl EncodingTodo)"
| "emit_float_cast F32 True = push_u8 0x6B"
| "emit_float_cast F32 False = seq [push_u8 0x76, push_u8 0x6B]"
| "emit_float_cast F64 True = push_u8 0x6C"
| "emit_float_cast F64 False = seq [push_u8 0x76, push_u8 0x6C]"
| "emit_float_cast F128 _ = (\<lambda>_. Inl EncodingTodo)"

definition emit_bcl_obj :: "'r token_sink \<Rightarrow> u8 \<Rightarrow> string \<Rightarrow> 'r emit" where
  "emit_bcl_obj ts opcode name = emit_token_op ts opcode (TClassRef (bcl_class_ref name True))"

fun ldind_op :: "'r token_sink \<Rightarrow> cil_type \<Rightarrow> 'r emit" where
  "ldind_op ts (TPtr _) = push_u8 0x4D"
| "ldind_op ts (TFnPtr _) = push_u8 0x4D"
| "ldind_op ts (TRef _) = (\<lambda>_. Inl EncodingTodo)"
| "ldind_op ts (TInt i) =
     (case i of
        U8 \<Rightarrow> push_u8 0x47 | U16 \<Rightarrow> push_u8 0x49 | U32 \<Rightarrow> push_u8 0x4B | U64 \<Rightarrow> push_u8 0x4C | I64 \<Rightarrow> push_u8 0x4C
      | U128 \<Rightarrow> emit_bcl_obj ts 0x71 ''System.UInt128''
      | USize \<Rightarrow> push_u8 0x4D | ISize \<Rightarrow> push_u8 0x4D
      | I8 \<Rightarrow> push_u8 0x46 | I16 \<Rightarrow> push_u8 0x48 | I32 \<Rightarrow> push_u8 0x4A
      | I128 \<Rightarrow> emit_bcl_obj ts 0x71 ''System.Int128'')"
| "ldind_op ts (TClassRef c) = emit_token_op ts 0x71 (TClassRef c)"
| "ldind_op ts (TFloat f) =
     (case f of
        F16 \<Rightarrow> emit_bcl_obj ts 0x71 ''System.Half''
      | F32 \<Rightarrow> push_u8 0x4E | F64 \<Rightarrow> push_u8 0x4F
      | F128 \<Rightarrow> emit_token_op ts 0x71 (TFloat F128))"
| "ldind_op ts TPlatformString = push_u8 0x50"
| "ldind_op ts TPlatformObject = push_u8 0x50"
| "ldind_op ts (TPlatformArray _ _) = push_u8 0x50"
| "ldind_op ts TPlatformChar = push_u8 0x49"
| "ldind_op ts (TPlatformGeneric _ _) = (\<lambda>_. Inl EncodingTodo)"
| "ldind_op ts TBool = push_u8 0x46"
| "ldind_op ts TVoid = (\<lambda>_. Inl VoidDereferenced)"
| "ldind_op ts (TSIMDVector v) = emit_token_op ts 0x71 (TSIMDVector v)"

definition emit_ldind :: "'r token_sink \<Rightarrow> cil_type \<Rightarrow> bool \<Rightarrow> 'r emit" where
  "emit_ldind ts t volatile = seq ((if volatile then [push_volatile_prefix] else []) @ [ldind_op ts t])"

definition emit_locaalloc_aligned :: "'r token_sink \<Rightarrow> cil_type \<Rightarrow> u64 \<Rightarrow> 'r emit" where
  "emit_locaalloc_aligned ts t align =
     with_token (ts_type ts t) (\<lambda>tok. seq
       [push_ext 0x1C, push_token tok, push_ldc_i8 align, push_u8 0xD3, push_u8 0x58, push_ext 0x0F, push_u8 0x25,
        push_ldc_i8 align, push_u8 0x58, push_ldc_i8 align, push_u8 0x5D, push_u8 0x59, push_ldc_i8 align,
        push_u8 0x58, push_u8 0xE0])"

section \<open>Nodes\<close>

definition emit_call_like :: "'r token_sink \<Rightarrow> method_ref \<Rightarrow> bool \<Rightarrow> 'r emit" where
  "emit_call_like ts m is_root_call =
     (if is_root_call \<and> mref_kind m = MConstructor then (\<lambda>_. Inl ConstructorRoot)
      else with_token (ts_method ts m) (\<lambda>tok. seq
        [push_u8 (case mref_kind m of MStatic \<Rightarrow> 0x28 | MInstance \<Rightarrow> 0x28 | MVirtual \<Rightarrow> 0x6F | MConstructor \<Rightarrow> 0x73),
         push_token tok]))"

fun join :: "string list \<Rightarrow> string" where
  "join [] = []"
| "join [s] = s"
| "join (s # ss) = s @ '','' @ join ss"

definition calli_semantic_key :: "fn_sig \<Rightarrow> string" where
  "calli_semantic_key sig = ''('' @ join (map mangle (sig_inputs sig)) @ '')->'' @ mangle (sig_output sig)"

definition calli_sig_token :: "'r token_sink \<Rightarrow> fn_sig \<Rightarrow> 'r \<Rightarrow> (emit_panic, token \<times> 'r) result" where
  "calli_sig_token ts sig r =
     rbind (map_sum EmitSig id (encode_method_sig (ts_type_def_or_ref ts) SIG_DEFAULT 0 sig r [])) (\<lambda>(r, blob).
       ts_calli_sig ts (calli_semantic_key sig) blob r)"

fun bin_op_code :: "bin_op \<Rightarrow> u8 list" where
  "bin_op_code Add = [0x58]" | "bin_op_code Eq = [0xFE, 0x01]" | "bin_op_code Sub = [0x59]"
| "bin_op_code Mul = [0x5A]" | "bin_op_code Gt = [0xFE, 0x02]" | "bin_op_code GtUn = [0xFE, 0x03]"
| "bin_op_code Lt = [0xFE, 0x04]" | "bin_op_code LtUn = [0xFE, 0x05]" | "bin_op_code Or = [0x60]"
| "bin_op_code XOr = [0x61]" | "bin_op_code And = [0x5F]" | "bin_op_code Rem = [0x5D]"
| "bin_op_code RemUn = [0x5E]" | "bin_op_code Shl = [0x62]" | "bin_op_code Shr = [0x63]"
| "bin_op_code ShrUn = [0x64]" | "bin_op_code DivUn = [0x5C]" | "bin_op_code Div = [0x5B]"

fun emit_node :: "'r token_sink \<Rightarrow> cil_node \<Rightarrow> 'r emit"
and emit_nodes :: "'r token_sink \<Rightarrow> cil_node list \<Rightarrow> 'r emit"
where
  "emit_node ts (NConst c) = emit_const ts c"
| "emit_node ts (NBinOp l r op) = seq [emit_node ts l, emit_node ts r, push_bytes (bin_op_code op)]"
| "emit_node ts (NUnOp n op) = seq [emit_node ts n, push_u8 (case op of Not \<Rightarrow> 0x66 | Neg \<Rightarrow> 0x65)]"
| "emit_node ts (NLdLoc l) = emit_ldloc l"
| "emit_node ts (NLdLocA l) = emit_ldloca l"
| "emit_node ts (NLdArg a) = emit_ldarg a"
| "emit_node ts (NLdArgA a) = emit_ldarga a"
| "emit_node ts (NCall m args _) = seq [emit_nodes ts args, emit_call_like ts m False]"
| "emit_node ts (NIntCast n target ext) = seq [emit_node ts n, emit_int_cast target ext]"
| "emit_node ts (NFloatCast n target sg) = seq [emit_node ts n, emit_float_cast target sg]"
| "emit_node ts (NRefToPtr n) = seq [emit_node ts n, push_u8 0xE0]"
| "emit_node ts (NPtrCast n _) = emit_node ts n"
| "emit_node ts (NLdFieldAddress n fd) =
     seq [emit_node ts n, with_token (ts_field ts fd) (\<lambda>tok. seq [push_u8 0x7C, push_token tok])]"
| "emit_node ts (NLdField n fd) =
     seq [emit_node ts n, with_token (ts_field ts fd) (\<lambda>tok. seq [push_u8 0x7B, push_token tok])]"
| "emit_node ts (NLdInd n t volatile) = seq [emit_node ts n, emit_ldind ts t volatile]"
| "emit_node ts (NSizeOf t) =
     (if t = TVoid then push_u8 0x16
      else with_token (ts_type ts t) (\<lambda>tok. seq [push_ext 0x1C, push_token tok]))"
| "emit_node ts NGetException = seq []"
| "emit_node ts (NIsInst n t) = seq [emit_node ts n, emit_token_op ts 0x75 t]"
| "emit_node ts (NCheckedCast n t) = seq [emit_node ts n, emit_token_op ts 0x74 t]"
| "emit_node ts (NCallI p sig args) =
     seq [emit_nodes ts args, emit_node ts p, with_token (calli_sig_token ts sig) (\<lambda>tok. seq [push_u8 0x29, push_token tok])]"
| "emit_node ts (NLocAlloc n) = seq [emit_node ts n, push_ext 0x0F]"
| "emit_node ts (NLdStaticField d) = with_token (ts_static_field ts d) (\<lambda>tok. seq [push_u8 0x7E, push_token tok])"
| "emit_node ts (NLdStaticFieldAddress d) = with_token (ts_static_field ts d) (\<lambda>tok. seq [push_u8 0x7F, push_token tok])"
| "emit_node ts (NLdFtn m) = with_token (ts_method ts m) (\<lambda>tok. seq [push_ext 0x06, push_token tok])"
| "emit_node ts (NLdTypeToken t) = emit_token_op ts 0xD0 t"
| "emit_node ts (NLdLen n) = seq [emit_node ts n, push_u8 0x8E]"
| "emit_node ts (NLocAllocAlgined t align) = emit_locaalloc_aligned ts t align"
| "emit_node ts (NLdElelemRef a i) = seq [emit_node ts a, emit_node ts i, push_u8 0x9A]"
| "emit_node ts (NLdElem a i t) = seq [emit_node ts a, emit_node ts i, emit_token_op ts 0xA3 t]"
| "emit_node ts (NUnboxAny n t) = seq [emit_node ts n, emit_token_op ts 0xA5 t]"
| "emit_node ts (NBox n t) = seq [emit_node ts n, emit_token_op ts 0x8C t]"
| "emit_node ts (NNewArr t n) = seq [emit_node ts n, emit_token_op ts 0x8D t]"
| "emit_nodes ts [] = seq []"
| "emit_nodes ts (n # ns) = seq [emit_node ts n, emit_nodes ts ns]"

section \<open>Roots\<close>

definition emit_calli :: "'r token_sink \<Rightarrow> cil_node \<Rightarrow> fn_sig \<Rightarrow> cil_node list \<Rightarrow> 'r emit" where
  "emit_calli ts p sig args =
     seq [emit_nodes ts args, emit_node ts p, with_token (calli_sig_token ts sig) (\<lambda>tok. seq [push_u8 0x29, push_token tok])]"

definition emit_binary_branch :: "'r token_sink \<Rightarrow> cil_node \<Rightarrow> cil_node \<Rightarrow> u8 \<Rightarrow> label \<Rightarrow> 'r emit" where
  "emit_binary_branch ts l r opcode lbl = seq [emit_node ts l, emit_node ts r, push_branch opcode lbl]"

fun is_signed_cmp :: "cmp_kind \<Rightarrow> bool" where
  "is_signed_cmp Ordered = True" | "is_signed_cmp Signed = True"
| "is_signed_cmp Unordered = False" | "is_signed_cmp Unsigned = False"

definition emit_branch :: "'r token_sink \<Rightarrow> u32 \<Rightarrow> u32 \<Rightarrow> branch_cond option \<Rightarrow> bool \<Rightarrow> bool \<Rightarrow> 'r emit" where
  "emit_branch ts target sub_target cond is_handler has_handler =
     (let lbl = branch_label target sub_target has_handler is_handler in
      case cond of
        Some (BCEq a b) \<Rightarrow> emit_binary_branch ts a b 0x3B lbl
      | Some (BCNe a b) \<Rightarrow> emit_binary_branch ts a b 0x40 lbl
      | Some (BCLt a b k) \<Rightarrow> emit_binary_branch ts a b (if is_signed_cmp k then 0x3F else 0x44) lbl
      | Some (BCGt a b k) \<Rightarrow> emit_binary_branch ts a b (if is_signed_cmp k then 0x3D else 0x42) lbl
      | Some (BCLe a b k) \<Rightarrow> emit_binary_branch ts a b (if is_signed_cmp k then 0x3E else 0x43) lbl
      | Some (BCGe a b k) \<Rightarrow> emit_binary_branch ts a b (if is_signed_cmp k then 0x3C else 0x41) lbl
      | Some (BCTrue c) \<Rightarrow> seq [emit_node ts c, push_branch 0x3A lbl]
      | Some (BCFalse c) \<Rightarrow> seq [emit_node ts c, push_branch 0x39 lbl]
      | None \<Rightarrow> push_branch 0x38 lbl)"

definition system_exception_ctor :: method_ref where
  "system_exception_ctor =
     (let cref = bcl_class_ref ''System.Exception'' False in
      MethodRef cref ''.ctor'' (FnSig [TClassRef cref, TPlatformString] TVoid) MConstructor [])"

definition environment_failfast :: method_ref where
  "environment_failfast =
     MethodRef (bcl_class_ref ''System.Environment'' False) ''FailFast'' (FnSig [TPlatformString] TVoid) MStatic []"

definition emit_throw_new_exception :: "'r token_sink \<Rightarrow> string \<Rightarrow> 'r emit" where
  "emit_throw_new_exception ts msg =
     with_token (ts_user_string ts msg) (\<lambda>str_tok. seq [push_u8 0x72, push_token str_tok,
     with_token (ts_method ts system_exception_ctor) (\<lambda>ctor_tok. seq [push_u8 0x73, push_token ctor_tok, push_u8 0x7A])])"

fun stind_op :: "'r token_sink \<Rightarrow> cil_type \<Rightarrow> 'r emit" where
  "stind_op ts (TPtr _) = push_u8 0xDF"
| "stind_op ts (TFnPtr _) = push_u8 0xDF"
| "stind_op ts (TRef _) = (\<lambda>_. Inl EncodingTodo)"
| "stind_op ts (TInt i) =
     (case i of
        U8 \<Rightarrow> push_u8 0x52 | I8 \<Rightarrow> push_u8 0x52 | U16 \<Rightarrow> push_u8 0x53 | I16 \<Rightarrow> push_u8 0x53
      | U32 \<Rightarrow> push_u8 0x54 | I32 \<Rightarrow> push_u8 0x54 | U64 \<Rightarrow> push_u8 0x55 | I64 \<Rightarrow> push_u8 0x55
      | U128 \<Rightarrow> emit_bcl_obj ts 0x81 ''System.UInt128'' | I128 \<Rightarrow> emit_bcl_obj ts 0x81 ''System.Int128''
      | USize \<Rightarrow> push_u8 0xDF | ISize \<Rightarrow> push_u8 0xDF)"
| "stind_op ts (TClassRef c) = (if cr_valuetype c then emit_token_op ts 0x81 (TClassRef c) else push_u8 0x51)"
| "stind_op ts (TFloat f) =
     (case f of
        F16 \<Rightarrow> emit_bcl_obj ts 0x81 ''System.Half''
      | F32 \<Rightarrow> push_u8 0x56 | F64 \<Rightarrow> push_u8 0x57
      | F128 \<Rightarrow> emit_token_op ts 0x81 (TFloat F128))"
| "stind_op ts TPlatformString = push_u8 0x51"
| "stind_op ts TPlatformObject = push_u8 0x51"
| "stind_op ts (TPlatformArray _ _) = push_u8 0x51"
| "stind_op ts TPlatformChar = push_u8 0x53"
| "stind_op ts (TPlatformGeneric _ _) = (\<lambda>_. Inl EncodingTodo)"
| "stind_op ts TBool = push_u8 0x52"
| "stind_op ts TVoid =
     seq [push_u8 0x26, push_u8 0x26, emit_throw_new_exception ts ''Attempted to wrtie to a zero-sized type(void).'']"
| "stind_op ts (TSIMDVector v) = emit_token_op ts 0x81 (TSIMDVector v)"

definition emit_stind :: "'r token_sink \<Rightarrow> cil_type \<Rightarrow> bool \<Rightarrow> 'r emit" where
  "emit_stind ts t volatile = seq ((if volatile then [push_volatile_prefix] else []) @ [stind_op ts t])"

fun stelem_op :: "'r token_sink \<Rightarrow> cil_type \<Rightarrow> 'r emit" where
  "stelem_op ts (TInt i) =
     (case i of
        I8 \<Rightarrow> push_u8 0x9C | U8 \<Rightarrow> push_u8 0x9C | I16 \<Rightarrow> push_u8 0x9D | U16 \<Rightarrow> push_u8 0x9D
      | I32 \<Rightarrow> push_u8 0x9E | U32 \<Rightarrow> push_u8 0x9E | I64 \<Rightarrow> push_u8 0x9F | U64 \<Rightarrow> push_u8 0x9F
      | ISize \<Rightarrow> push_u8 0x9B | USize \<Rightarrow> push_u8 0x9B
      | _ \<Rightarrow> emit_token_op ts 0xA4 (TInt i))"
| "stelem_op ts TBool = push_u8 0x9C"
| "stelem_op ts (TFloat F32) = push_u8 0xA0"
| "stelem_op ts (TFloat F64) = push_u8 0xA1"
| "stelem_op ts t = emit_token_op ts 0xA4 t"

text \<open>The last line is a checked sum; the columns are sums of 16-bit values.\<close>

definition note_sequence_point :: "u32 \<Rightarrow> u16 \<Rightarrow> u16 \<Rightarrow> u16 \<Rightarrow> string \<Rightarrow> 'r emit" where
  "note_sequence_point line_start line_len col_start col_len file e =
     rbind (here_offset e) (\<lambda>il_offset.
       if unat line_start + unat line_len \<ge> 2 ^ 32 then Inl LineOverflow
       else Inr (e\<lparr>e_sequence_points := e_sequence_points e @
         [\<lparr>sp_il_offset = il_offset, sp_document_path = file, sp_line = line_start, sp_col = ucast col_start,
           sp_end_line = line_start + ucast line_len, sp_end_col = ucast col_start + ucast col_len, sp_is_hidden = False\<rparr>]\<rparr>))"

text \<open>A leave with its label: the launching pad of \<^verbatim>\<open>ExitSpecialRegion\<close>.\<close>

definition emit_exit_region :: "u32 \<Rightarrow> u32 \<Rightarrow> bool \<Rightarrow> bool \<Rightarrow> 'r emit" where
  "emit_exit_region target source is_handler has_handler =
     (if is_handler then seq [define_label (LHandlerLeave source target), push_branch 0xDD (LBlock target)]
      else if has_handler then seq [define_label (LProtectedLeave source target), push_branch 0xDD (LBlock target)]
      else seq [])"

definition terminate_message :: "u8 \<Rightarrow> string" where
  "terminate_message reason =
     (if reason = 1 then
        ''Rust panicked while running a destructor during unwinding (panic in a destructor during cleanup); aborted.''
      else
        ''Rust unwinding crossed a `nounwind` ABI boundary (panic in a function that cannot unwind); aborted.'')"

text \<open>\<open>with_here\<close> binds a fresh marker to the current position and hands it on.\<close>

definition with_here :: "(label \<Rightarrow> 'r emit) \<Rightarrow> 'r emit" where
  "with_here k e = rbind (here e) (\<lambda>(l, e). k l e)"

definition add_clause :: "pending_clause \<Rightarrow> 'r emit" where
  "add_clause c e = Inr (e\<lparr>e_clauses := e_clauses e @ [c]\<rparr>)"

definition emit_terminate_region :: "'r token_sink \<Rightarrow> 'r emit \<Rightarrow> u8 \<Rightarrow> 'r emit" where
  "emit_terminate_region ts protected reason e =
     (let done = LTerminateDone (e_terminate_region_counter e) in
      with_here (\<lambda>try_start. seq [protected, push_branch 0xDD done,
      with_here (\<lambda>try_end. with_here (\<lambda>handler_start. seq [push_u8 0x26,
      with_token (ts_user_string ts (terminate_message reason)) (\<lambda>str_tok. seq [push_u8 0x72, push_token str_tok,
      with_token (ts_method ts environment_failfast) (\<lambda>failfast_tok. seq [push_u8 0x28, push_token failfast_tok,
      push_ext 0x1A,
      with_here (\<lambda>handler_end. seq [define_label done, push_u8 0x00,
      add_clause \<lparr>pc_try_start = try_start, pc_try_end = try_end, pc_handler_start = handler_start,
        pc_handler_end = handler_end\<rparr>])])])]))])
      (e\<lparr>e_terminate_region_counter := e_terminate_region_counter e + 1\<rparr>))"

fun emit_root :: "'r token_sink \<Rightarrow> bool \<Rightarrow> bool \<Rightarrow> cil_root \<Rightarrow> 'r emit" where
  "emit_root ts is_handler has_handler (RStLoc l v) = seq [emit_node ts v, emit_stloc l]"
| "emit_root ts is_handler has_handler (RStArg a v) = seq [emit_node ts v, emit_starg a]"
| "emit_root ts is_handler has_handler (RRet v) = seq [emit_node ts v, push_u8 0x2A]"
| "emit_root ts is_handler has_handler (RPop v) = seq [emit_node ts v, push_u8 0x26]"
| "emit_root ts is_handler has_handler (RThrow v) = seq [emit_node ts v, push_u8 0x7A]"
| "emit_root ts is_handler has_handler RVoidRet = push_u8 0x2A"
| "emit_root ts is_handler has_handler RBreak = push_u8 0x01"
| "emit_root ts is_handler has_handler RNop = push_u8 0x00"
| "emit_root ts is_handler has_handler RInitFragmentBoundary = seq []"
| "emit_root ts is_handler has_handler (RBranch target sub_target cond) =
     emit_branch ts target sub_target cond is_handler has_handler"
| "emit_root ts is_handler has_handler (RSourceFileInfo line_start line_len col_start col_len file) =
     note_sequence_point line_start line_len col_start col_len file"
| "emit_root ts is_handler has_handler (RSetField fd a v) =
     seq [emit_node ts a, emit_node ts v, with_token (ts_field ts fd) (\<lambda>tok. seq [push_u8 0x7D, push_token tok])]"
| "emit_root ts is_handler has_handler (RCall m args _) = seq [emit_nodes ts args, emit_call_like ts m True]"
| "emit_root ts is_handler has_handler (RCpObj src dst t) = seq [emit_node ts src, emit_node ts dst, emit_token_op ts 0x70 t]"
| "emit_root ts is_handler has_handler (RInitObj a t) =
     seq [emit_node ts a, with_token (ts_type ts t) (\<lambda>tok. seq [push_ext 0x15, push_token tok])]"
| "emit_root ts is_handler has_handler (RStInd a v t volatile) = seq [emit_node ts a, emit_node ts v, emit_stind ts t volatile]"
| "emit_root ts is_handler has_handler (RInitBlk dst v n) =
     seq [emit_node ts dst, emit_node ts v, emit_node ts n, push_ext 0x18]"
| "emit_root ts is_handler has_handler (RCpBlk dst src n) =
     seq [emit_node ts dst, emit_node ts src, emit_node ts n, push_ext 0x17]"
| "emit_root ts is_handler has_handler (RCallI p sig args) = emit_calli ts p sig args"
| "emit_root ts is_handler has_handler (RTerminateRegion protected reason) =
     emit_terminate_region ts (emit_root ts is_handler has_handler protected) reason"
| "emit_root ts is_handler has_handler (RExitSpecialRegion target source) =
     emit_exit_region target source is_handler has_handler"
| "emit_root ts is_handler has_handler RReThrow = push_ext 0x1A"
| "emit_root ts is_handler has_handler (RSetStaticField d v) =
     seq [emit_node ts v, with_token (ts_static_field ts d) (\<lambda>tok. seq [push_u8 0x80, push_token tok])]"
| "emit_root ts is_handler has_handler (RUnreachable msg) = emit_throw_new_exception ts msg"
| "emit_root ts is_handler has_handler (RStElem a i v t) =
     seq [emit_node ts a, emit_node ts i, emit_node ts v, stelem_op ts t]"

section \<open>Method bodies\<close>

fun emit_roots :: "'r token_sink \<Rightarrow> bool \<Rightarrow> bool \<Rightarrow> cil_root list \<Rightarrow> 'r emit" where
  "emit_roots ts is_handler has_handler rs = seq (map (emit_root ts is_handler has_handler) rs)"

definition uses_get_exception :: "basic_block list \<Rightarrow> bool" where
  "uses_get_exception handler \<longleftrightarrow>
     list_ex (\<lambda>r. list_ex (\<lambda>e. e = ENode NGetException) (cil_iter [ERoot r])) (concat (map bb_roots handler))"

definition emit_handler :: "'r token_sink \<Rightarrow> u32 \<Rightarrow> basic_block list \<Rightarrow> 'r emit" where
  "emit_handler ts block_id handler = seq
     ((if \<not> uses_get_exception handler then [push_u8 0x26] else []) @
      map (\<lambda>hb. seq [define_label (LHandlerLeave block_id (bb_id hb)), emit_roots ts True False (bb_roots hb)]) handler)"

definition emit_block :: "'r token_sink \<Rightarrow> basic_block \<Rightarrow> 'r emit" where
  "emit_block ts b =
     (case bb_handler b of
        None \<Rightarrow> seq [define_label (LBlock (bb_id b)), emit_roots ts False False (bb_roots b)]
      | Some handler \<Rightarrow>
          with_here (\<lambda>try_start. seq [define_label (LBlock (bb_id b)), emit_roots ts False True (bb_roots b),
          with_here (\<lambda>try_end. with_here (\<lambda>handler_start. seq [emit_handler ts (bb_id b) handler,
          with_here (\<lambda>handler_end. add_clause
            \<lparr>pc_try_start = try_start, pc_try_end = try_end, pc_handler_start = handler_start,
             pc_handler_end = handler_end\<rparr>)]))]))"

definition new_emitter :: "'r \<Rightarrow> 'r emitter" where
  "new_emitter r = \<lparr>e_sink = r, e_out = [], e_label_offsets = Map.empty, e_branch_fixups = [], e_clauses = [],
     e_marker_counter = 0, e_terminate_region_counter = 0, e_sequence_points = []\<rparr>"

text \<open>\<open>CILIter::count\<close> per root plus ten, the largest over the roots; the sum is cast to 32 bits.\<close>

definition root_stack :: "cil_root \<Rightarrow> u32" where
  "root_stack r = word_of_nat (length (cil_iter [ERoot r])) + 10"

definition compute_maxstack_from_body :: "basic_block list \<Rightarrow> u32" where
  "compute_maxstack_from_body blocks = foldl max 0 (map root_stack (concat (map iter_roots blocks)))"

type_synonym clause_range = "u32 \<times> u32 \<times> u32 \<times> u32"

definition resolve_clause :: "'r emitter \<Rightarrow> pending_clause \<Rightarrow> (emit_panic, clause_range) result" where
  "resolve_clause e c =
     rbind (resolve_label (pc_try_start c) e) (\<lambda>ts. rbind (resolve_label (pc_try_end c) e) (\<lambda>te.
     rbind (resolve_label (pc_handler_start c) e) (\<lambda>hs. rbind (resolve_label (pc_handler_end c) e) (\<lambda>he.
     Inr (ts, te, hs, he)))))"

fun resolve_clauses :: "'r emitter \<Rightarrow> pending_clause list \<Rightarrow> (emit_panic, clause_range list) result" where
  "resolve_clauses e [] = Inr []"
| "resolve_clauses e (c # cs) =
     rbind (resolve_clause e c) (\<lambda>r. rbind (resolve_clauses e cs) (\<lambda>rs. Inr (r # rs)))"

abbreviation (input) FAT_FORMAT :: u16 where "FAT_FORMAT \<equiv> 0x3"
abbreviation (input) INIT_LOCALS :: u16 where "INIT_LOCALS \<equiv> 0x10"
abbreviation (input) MORE_SECTS :: u16 where "MORE_SECTS \<equiv> 0x8"
abbreviation (input) FAT_HEADER_SIZE_WORDS :: u16 where "FAT_HEADER_SIZE_WORDS \<equiv> 3"
abbreviation (input) SECT_EHTABLE :: u8 where "SECT_EHTABLE \<equiv> 0x1"
abbreviation (input) SECT_FAT_FORMAT :: u8 where "SECT_FAT_FORMAT \<equiv> 0x40"

definition fat_header :: "bool \<Rightarrow> u32 \<Rightarrow> u32 \<Rightarrow> token option \<Rightarrow> u8 list" where
  "fat_header has_eh maxstack code_size locals_tok =
     (let flags = (if has_eh then FAT_FORMAT OR INIT_LOCALS OR MORE_SECTS else FAT_FORMAT OR INIT_LOCALS);
          flags_and_size = flags OR push_bit 12 FAT_HEADER_SIZE_WORDS;
          maxstack_u16 = (ucast (min maxstack 0xFFFF) :: u16) in
      le_bytes 2 flags_and_size @ le_bytes 2 maxstack_u16 @ le_bytes 4 code_size
        @ le_bytes 4 (case locals_tok of None \<Rightarrow> 0 | Some t \<Rightarrow> t))"

definition eh_clause :: "token \<Rightarrow> clause_range \<Rightarrow> u8 list" where
  "eh_clause catch_type c =
     (case c of (try_start, try_end, handler_start, handler_end) \<Rightarrow>
        le_bytes 4 (0 :: u32) @ le_bytes 4 try_start @ le_bytes 4 (try_end - try_start)
        @ le_bytes 4 handler_start @ le_bytes 4 (handler_end - handler_start) @ le_bytes 4 catch_type)"

definition eh_section :: "clause_range list \<Rightarrow> token \<Rightarrow> (emit_panic, u8 list) result" where
  "eh_section clauses catch_type =
     (let data_size = 4 + length clauses * 24 in
      if data_size < 2 ^ 32
      then (let size = (word_of_nat data_size :: u32) in
        Inr ([SECT_EHTABLE OR SECT_FAT_FORMAT, ucast (size AND 0xFF), ucast (drop_bit 8 size AND 0xFF),
              ucast (drop_bit 16 size AND 0xFF)] @ concat (map (eh_clause catch_type) clauses)))
      else Inl BodyTooLarge)"

definition pad4 :: "u8 list \<Rightarrow> u8 list" where
  "pad4 bs = bs @ replicate ((4 - length bs mod 4) mod 4) 0"

record assembled_body =
  ab_bytes :: "u8 list"
  ab_sequence_points :: "sequence_point list"
  ab_locals_signature :: "token option"
  ab_locals :: "string option list"
  ab_code_len :: u32

definition finish_body ::
  "u8 list \<Rightarrow> u32 \<Rightarrow> token option \<Rightarrow> clause_range list \<Rightarrow> token \<Rightarrow> sequence_point list
     \<Rightarrow> (emit_panic, assembled_body) result" where
  "finish_body code maxstack locals_tok clauses catch_type points =
     (if length code < 2 ^ 32 then
        (let code_size = word_of_nat (length code); has_eh = clauses \<noteq> [];
             bytes = fat_header has_eh maxstack code_size locals_tok @ code in
         rbind (if has_eh then rbind (eh_section clauses catch_type) (\<lambda>eh. Inr (pad4 bytes @ eh)) else Inr bytes) (\<lambda>bytes.
         Inr \<lparr>ab_bytes = bytes, ab_sequence_points = points, ab_locals_signature = None, ab_locals = [],
              ab_code_len = code_size\<rparr>))
      else Inl BodyTooLarge)"

definition assemble_method_body ::
  "'r token_sink \<Rightarrow> basic_block list \<Rightarrow> local_def list \<Rightarrow> 'r \<Rightarrow> (emit_panic, assembled_body \<times> 'r) result" where
  "assemble_method_body ts blocks locals r =
     rbind (seq (map (emit_block ts) blocks @ [patch_branches]) (new_emitter r)) (\<lambda>e.
     rbind (if locals = [] then Inr (None, e_sink e)
            else rbind (ts_locals_sig ts (map snd locals) (e_sink e)) (\<lambda>(tok, r). Inr (Some tok, r))) (\<lambda>(locals_tok, r).
     rbind (resolve_clauses e (e_clauses e)) (\<lambda>clauses.
     rbind (if e_clauses e = [] then Inr (token_new 0 0, r)
            else ts_type ts (TClassRef (bcl_class_ref ''System.Object'' False)) r) (\<lambda>(catch_type, r).
     rbind (finish_body (e_out e) (compute_maxstack_from_body blocks) locals_tok clauses catch_type
              (e_sequence_points e)) (\<lambda>body.
     Inr (body\<lparr>ab_locals_signature := locals_tok, ab_locals := map fst locals\<rparr>, r))))))"

section \<open>What the constants push\<close>

text \<open>
  The instructions that load and widen constants, on an evaluation stack of a 64-bit runtime: 32-bit,
  64-bit and native integers, floats by bit pattern, null.
\<close>

datatype stack_item = SI32 u32 | SI64 u64 | SNative u64 | SF32 u32 | SF64 u64 | SNull

fun widen :: "u8 \<Rightarrow> stack_item \<Rightarrow> stack_item option" where
  "widen op (SI32 w) =
     (if op = 0x6A then Some (SI64 (scast w)) else if op = 0x6E then Some (SI64 (ucast w))
      else if op = 0xD3 then Some (SNative (scast w)) else if op = 0xE0 then Some (SNative (ucast w)) else None)"
| "widen op (SI64 w) =
     (if op = 0x6A \<or> op = 0x6E then Some (SI64 w) else if op = 0xD3 \<or> op = 0xE0 then Some (SNative w) else None)"
| "widen op _ = None"

fun step_load :: "u8 list \<Rightarrow> stack_item list \<Rightarrow> (u8 list \<times> stack_item list) option" where
  "step_load [] st = None"
| "step_load (b # bs) st =
     (if b = 0x14 then Some (bs, SNull # st)
      else if 0x15 \<le> b \<and> b \<le> 0x1E then Some (bs, SI32 (ucast b - 0x16) # st)
      else if b = 0x1F then (case bs of [] \<Rightarrow> None | x # bs \<Rightarrow> Some (bs, SI32 (scast x) # st))
      else if b = 0x20 then if length bs < 4 then None else Some (drop 4 bs, SI32 (of_le (take 4 bs)) # st)
      else if b = 0x21 then if length bs < 8 then None else Some (drop 8 bs, SI64 (of_le (take 8 bs)) # st)
      else if b = 0x22 then if length bs < 4 then None else Some (drop 4 bs, SF32 (of_le (take 4 bs)) # st)
      else if b = 0x23 then if length bs < 8 then None else Some (drop 8 bs, SF64 (of_le (take 8 bs)) # st)
      else (case st of [] \<Rightarrow> None | x # st \<Rightarrow> map_option (\<lambda>y. (bs, y # st)) (widen b x)))"

lemma step_load_shorter: "step_load bs st = Some (bs', st') \<Longrightarrow> length bs' < length bs"
  by (cases bs) (auto split: if_splits list.splits)

function run_loads :: "u8 list \<Rightarrow> stack_item list \<Rightarrow> stack_item list option" where
  "run_loads bs st =
     (if bs = [] then Some st
      else case step_load bs st of None \<Rightarrow> None | Some (bs, st) \<Rightarrow> run_loads bs st)"
  by pat_completeness auto
termination by (relation "measure (\<lambda>(bs, st). length bs)") (auto simp: step_load_shorter)

declare run_loads.simps [simp del]

lemma run_loads_Nil [simp]: "run_loads [] st = Some st"
  by (simp add: run_loads.simps)

lemma run_loads_step [simp]: "step_load (b # bs) st = Some (bs', st') \<Longrightarrow> run_loads (b # bs) st = run_loads bs' st'"
  by (subst run_loads.simps) simp

text \<open>The representation of a constant on the stack.\<close>

fun stack_value :: "cil_const \<Rightarrow> stack_item option" where
  "stack_value (CI8 v) = Some (SI32 (scast v))"
| "stack_value (CI16 v) = Some (SI32 (scast v))"
| "stack_value (CI32 v) = Some (SI32 v)"
| "stack_value (CI64 v) = Some (SI64 v)"
| "stack_value (CISize v) = Some (SNative v)"
| "stack_value (CU8 v) = Some (SI32 (ucast v))"
| "stack_value (CU16 v) = Some (SI32 (ucast v))"
| "stack_value (CU32 v) = Some (SI32 v)"
| "stack_value (CU64 v) = Some (SI64 v)"
| "stack_value (CUSize v) = Some (SNative v)"
| "stack_value (CBool b) = Some (SI32 (if b then 1 else 0))"
| "stack_value (CF32 f) = Some (SF32 f)"
| "stack_value (CF64 f) = Some (SF64 f)"
| "stack_value (CNull _) = Some SNull"
| "stack_value _ = None"

text \<open>\<open>loads f v\<close>: the emitter \<open>f\<close> appends bytes that push \<open>v\<close>.\<close>

definition loads :: "'r emit \<Rightarrow> stack_item \<Rightarrow> bool" where
  "loads f v \<longleftrightarrow> (\<exists>bs. f = push_bytes bs \<and> (\<forall>rest st. run_loads (bs @ rest) st = run_loads rest (v # st)))"

lemma seq_push [simp]: "seq [push_bytes as, push_bytes bs] = push_bytes (as @ bs)"
  by (rule ext) (simp add: push_bytes_def)

lemma word_of_int_small:
  assumes "0 \<le> v" "v \<le> 8"
  shows "0x15 \<le> (0x16 + word_of_int v :: u8)" "(0x16 + word_of_int v :: u8) \<le> 0x1E"
    "(ucast (0x16 + word_of_int v :: u8) :: u32) - 0x16 = word_of_int v" "(0x16 + word_of_int v :: u8) \<noteq> 0x14"
proof -
  have "v \<in> {0, 1, 2, 3, 4, 5, 6, 7, 8}" using assms by auto
  then show "0x15 \<le> (0x16 + word_of_int v :: u8)" "(0x16 + word_of_int v :: u8) \<le> 0x1E"
    "(ucast (0x16 + word_of_int v :: u8) :: u32) - 0x16 = word_of_int v" "(0x16 + word_of_int v :: u8) \<noteq> 0x14"
    by auto
qed

lemma loads_short: "0 \<le> v \<Longrightarrow> v \<le> 8 \<Longrightarrow> loads (push_short_form_ldc v) (SI32 (word_of_int v))"
  unfolding loads_def push_short_form_ldc_def push_u8_def
  by (rule exI [of _ "[0x16 + word_of_int v]"]) (use word_of_int_small in simp)

lemma loads_m1: "loads (push_u8 0x15) (SI32 (word_of_int (- 1)))"
  unfolding loads_def push_u8_def by (rule exI [of _ "[0x15]"]) simp

lemma scast_word_of_int:
  assumes "-128 \<le> v" "v \<le> 127"
  shows "(scast (word_of_int v :: u8) :: u32) = word_of_int v"
proof -
  have "sint (word_of_int v :: u8) = v" using assms by (simp add: signed_of_int signed_take_bit_int_eq_self)
  then show ?thesis by (simp add: scast_eq)
qed

lemma loads_s: "-128 \<le> v \<Longrightarrow> v \<le> 127 \<Longrightarrow> loads (push_ldc_s v) (SI32 (word_of_int v))"
  unfolding loads_def push_ldc_s_def push_u8_def seq_push
  by (rule exI [of _ "[0x1F, word_of_int v]"]) (simp add: scast_word_of_int)

lemma loads_i4: "loads (push_ldc_i4 v) (SI32 (word_of_int v))"
  unfolding loads_def push_ldc_i4_def push_u8_def push_u32_def seq_push
  by (rule exI [of _ "[0x20] @ le_bytes 4 (word_of_int v :: u32)"]) simp

lemma loads_i8: "loads (push_ldc_i8 w) (SI64 w)"
  unfolding loads_def push_ldc_i8_def push_u8_def push_i64_def seq_push
  by (rule exI [of _ "[0x21] @ le_bytes 8 w"]) simp

lemma loads_signed: "loads (emit_ldc_i4_signed v) (SI32 (word_of_int v))"
  using loads_m1 loads_short [of v] loads_s [of v] loads_i4 by (auto simp: emit_ldc_i4_signed_def)

lemma loads_conv: "loads f v \<Longrightarrow> op \<in> {0x6A, 0x6E, 0xD3, 0xE0} \<Longrightarrow> widen op v = Some w \<Longrightarrow> loads (seq [f, push_u8 op]) w"
  unfolding loads_def push_u8_def by (elim exE conjE, rename_tac bs, rule_tac x = "bs @ [op]" in exI) auto

lemma widen_word_of_int:
  "-(2 ^ 31) \<le> v \<Longrightarrow> v < 2 ^ 31 \<Longrightarrow> (scast (word_of_int v :: u32) :: u64) = word_of_int v"
  "0 \<le> v \<Longrightarrow> v < 2 ^ 32 \<Longrightarrow> (ucast (word_of_int v :: u32) :: u64) = word_of_int v"
  by (simp_all add: signed_of_int unsigned_of_int signed_take_bit_int_eq_self take_bit_int_eq_self)

lemma sint_bounds_u64: "-(2 ^ 63) \<le> sint (w :: u64)" "sint (w :: u64) < 2 ^ 63"
  using sint_greater_eq [of w] sint_less [of w] by simp_all

lemma loads_via_i4:
  assumes "op = 0x6A \<and> mk = SI64 \<or> op = 0xD3 \<and> mk = SNative"
  shows "loads (emit_ldc_i8_via_i4_with_conv w op) (mk w)"
proof (cases "-(2 ^ 31) \<le> sint w \<and> sint w < 2 ^ 31")
  case True
  then have "(scast (word_of_int (sint w) :: u32) :: u64) = w" using widen_word_of_int(1) [of "sint w"] by simp
  then show ?thesis using True assms loads_conv [OF loads_signed [of "sint w"], of op "mk w"]
    by (auto simp: emit_ldc_i8_via_i4_with_conv_def)
next
  case False
  then show ?thesis using assms loads_conv [OF loads_i8 [of w], of op "mk w"]
    by (auto simp: emit_ldc_i8_via_i4_with_conv_def)
qed

lemma small_u64: "w \<le> 4294967295 \<Longrightarrow> (ucast (word_of_int (uint w) :: u32) :: u64) = (w :: u64)"
proof -
  assume "w \<le> 4294967295"
  then have "uint w < 2 ^ 32" by (simp add: word_le_def)
  then show ?thesis using widen_word_of_int(2) [of "uint w"] by simp
qed

lemma uint_ge_m128 [simp]: "- 128 \<le> uint w"
  by (rule order_trans [of _ 0]) simp_all

lemma sint_small: "w \<le> 8 \<Longrightarrow> sint (w :: u64) = uint w"
proof -
  assume "w \<le> 8"
  then have "uint w \<le> 8" by (simp add: word_le_def)
  then show ?thesis by (simp add: sint_uint signed_take_bit_int_eq_self order_trans [of _ 0])
qed

lemma word_le_uint: "w \<le> (numeral n :: u64) \<Longrightarrow> uint w \<le> uint (numeral n :: u64)"
  by (simp add: word_le_def)

lemma loads_u64: "loads (emit_ldc_u64 w) (SI64 w)"
proof -
  have conv: "loads (seq [f, push_u8 0x6E]) (SI64 w)" if "loads f (SI32 (word_of_int (uint w)))" "w \<le> 4294967295" for f
    using loads_conv [OF that(1), of "0x6E" "SI64 w"] small_u64 [OF that(2)] by simp
  have le: "w \<le> 8 \<Longrightarrow> w \<le> 4294967295" "w \<le> 127 \<Longrightarrow> w \<le> 4294967295" by (simp_all add: word_le_def)
  consider "w \<le> 8" | "\<not> w \<le> 8" "w \<le> 127" | "\<not> w \<le> 8" "\<not> w \<le> 127" "w \<le> 4294967295" | "\<not> w \<le> 4294967295" by blast
  then show ?thesis
  proof cases
    case 1
    then show ?thesis using conv [OF loads_signed le(1)] by (simp add: emit_ldc_u64_def sint_small)
  next
    case 2
    have "uint w \<le> 127" using word_le_uint [OF 2(2)] by simp
    then show ?thesis using 2 conv [OF loads_s le(2)] by (simp add: emit_ldc_u64_def)
  next
    case 3
    then show ?thesis using conv [OF loads_i4] by (simp add: emit_ldc_u64_def)
  next
    case 4
    then show ?thesis using le loads_i8 [of w] by (auto simp: emit_ldc_u64_def)
  qed
qed

lemma loads_usize: "loads (emit_ldc_usize w) (SNative w)"
proof -
  have conv: "loads (seq [f, push_u8 0xE0]) (SNative w)" if "loads f (SI32 (word_of_int (uint w)))" "w \<le> 4294967295" for f
    using loads_conv [OF that(1), of "0xE0" "SNative w"] small_u64 [OF that(2)] by simp
  have le: "w \<le> 8 \<Longrightarrow> w \<le> 4294967295" "w \<le> 127 \<Longrightarrow> w \<le> 4294967295" "w \<le> 2147483647 \<Longrightarrow> w \<le> 4294967295"
    by (simp_all add: word_le_def)
  consider "w \<le> 8" | "\<not> w \<le> 8" "w \<le> 127" | "\<not> w \<le> 8" "\<not> w \<le> 127" "w \<le> 2147483647"
    | "\<not> w \<le> 8" "\<not> w \<le> 127" "\<not> w \<le> 2147483647" by blast
  then show ?thesis
  proof cases
    case 1
    then show ?thesis using conv [OF loads_signed le(1)] by (simp add: emit_ldc_usize_def sint_small)
  next
    case 2
    have "uint w \<le> 127" using word_le_uint [OF 2(2)] by simp
    then show ?thesis using 2 conv [OF loads_s le(2)] by (simp add: emit_ldc_usize_def)
  next
    case 3
    then show ?thesis using conv [OF loads_i4 le(3)] by (simp add: emit_ldc_usize_def)
  next
    case 4
    then show ?thesis using loads_conv [OF loads_i8 [of w], of "0xE0" "SNative w"] by (simp add: emit_ldc_usize_def)
  qed
qed

lemma loads_unsigned: "loads (emit_ldc_i4_unsigned v) (SI32 (word_of_int v))"
  using loads_signed [of v] loads_s [of v] loads_i4 [of v] by (auto simp: emit_ldc_i4_unsigned_def)

lemma loads_i8_band:
  assumes "-128 \<le> v" "v \<le> 127"
  shows "loads (emit_ldc_i4_i8_band v) (SI32 (word_of_int v))"
  using assms loads_m1 loads_short [of v] loads_s [of v] by (auto simp: emit_ldc_i4_i8_band_def)

lemma sint_u8: "-128 \<le> sint (v :: u8) \<and> sint v \<le> 127"
  using sint_greater_eq [of v] sint_less [of v] by simp

text \<open>
  A 128-bit constant is a narrower constant and the conversion operator of the class library from
  its type, or its two halves, the high one first, and the constructor.
\<close>

fun implicit_operand :: "cil_type \<Rightarrow> stack_item \<Rightarrow> int option" where
  "implicit_operand (TInt I32) (SI32 w) = Some (sint w)"
| "implicit_operand (TInt U32) (SI32 w) = Some (uint w)"
| "implicit_operand (TInt I64) (SI64 w) = Some (sint w)"
| "implicit_operand (TInt U64) (SI64 w) = Some (uint w)"
| "implicit_operand _ _ = None"

definition wide_const :: "'r token_sink \<Rightarrow> string \<Rightarrow> int \<Rightarrow> 'r emit \<Rightarrow> bool" where
  "wide_const ts name val f \<longleftrightarrow>
     (\<exists>g t x. f = seq [g, emit_int128_op_implicit ts (bcl_class_ref name True) t] \<and> loads g x \<and> implicit_operand t x = Some val)
   \<or> (\<exists>hi lo. f = seq [push_ldc_i8 hi, push_ldc_i8 lo, emit_int128_ctor ts (bcl_class_ref name True)]
        \<and> (word_of_int val :: u128) = push_bit 64 (ucast hi) OR ucast lo)"

lemma wide_implicit:
  "loads g x \<Longrightarrow> implicit_operand t x = Some val \<Longrightarrow>
   wide_const ts name val (seq [g, emit_int128_op_implicit ts (bcl_class_ref name True) t])"
  unfolding wide_const_def by blast

lemma halves: "push_bit 64 (ucast (ucast (drop_bit 64 w) :: u64)) OR ucast (ucast w :: u64) = (w :: u128)"
  by (rule bit_word_eqI) (auto simp: bit_simps not_less)

lemma wide_halves:
  fixes w :: u128
  shows "wide_const ts name (uint w) (seq [push_ldc_i8 (ucast (drop_bit 64 w)), push_ldc_i8 (ucast w), emit_int128_ctor ts (bcl_class_ref name True)])"
    and "wide_const ts name (sint w) (seq [push_ldc_i8 (ucast (drop_bit 64 w)), push_ldc_i8 (ucast w), emit_int128_ctor ts (bcl_class_ref name True)])"
proof -
  have "(word_of_int (uint w) :: u128) = w" "(word_of_int (sint w) :: u128) = w" by simp_all
  then show "wide_const ts name (uint w) (seq [push_ldc_i8 (ucast (drop_bit 64 w)), push_ldc_i8 (ucast w), emit_int128_ctor ts (bcl_class_ref name True)])"
    "wide_const ts name (sint w) (seq [push_ldc_i8 (ucast (drop_bit 64 w)), push_ldc_i8 (ucast w), emit_int128_ctor ts (bcl_class_ref name True)])"
    unfolding wide_const_def using halves [of w] by metis+
qed

lemma sint_of_int:
  "-(2 ^ 31) \<le> v \<Longrightarrow> v < 2 ^ 31 \<Longrightarrow> sint (word_of_int v :: u32) = v"
  "-(2 ^ 63) \<le> v \<Longrightarrow> v < 2 ^ 63 \<Longrightarrow> sint (word_of_int v :: u64) = v"
  by (simp_all add: signed_of_int signed_take_bit_int_eq_self)

lemma uint_of_int:
  "0 \<le> v \<Longrightarrow> v < 2 ^ 32 \<Longrightarrow> uint (word_of_int v :: u32) = v"
  by (simp add: unsigned_of_int take_bit_int_eq_self)

lemma i128_const: "wide_const ts ''System.Int128'' (sint w) (emit_i128 ts w)"
proof -
  let ?W = "wide_const ts ''System.Int128'' (sint w)"
    and ?op = "\<lambda>t. emit_int128_op_implicit ts (bcl_class_ref ''System.Int128'' True) (TInt t)"
  have w: "loads g (SI32 (word_of_int (sint w))) \<Longrightarrow> -(2 ^ 31) \<le> sint w \<Longrightarrow> sint w < 2 ^ 31 \<Longrightarrow> ?W (seq [g, ?op I32])" for g
    by (erule wide_implicit) (simp only: implicit_operand.simps sint_of_int)
  have w8: "loads g (SI64 (word_of_int (sint w))) \<Longrightarrow> -(2 ^ 63) \<le> sint w \<Longrightarrow> sint w < 2 ^ 63 \<Longrightarrow> ?W (seq [g, ?op I64])" for g
    by (erule wide_implicit) (simp only: implicit_operand.simps sint_of_int)
  have m1: "sint w = -1 \<Longrightarrow> ?W (seq [push_u8 0x15, ?op I32])" using w [of "push_u8 0x15"] loads_m1 by simp
  have short: "0 \<le> sint w \<Longrightarrow> sint w \<le> 8 \<Longrightarrow> ?W (seq [push_short_form_ldc (sint w), ?op I32])"
    using w [OF loads_short] by simp
  have ss: "9 \<le> sint w \<Longrightarrow> sint w \<le> 127 \<Longrightarrow> ?W (seq [push_ldc_s (sint w), ?op I32])"
    using w [OF loads_s] by simp
  have i4: "-(2 ^ 31) \<le> sint w \<Longrightarrow> sint w < 2 ^ 31 \<Longrightarrow> ?W (seq [push_ldc_i4 (sint w), ?op I32])"
    by (rule w [OF loads_i4])
  have i8: "-(2 ^ 63) \<le> sint w \<Longrightarrow> sint w < 2 ^ 63 \<Longrightarrow> ?W (seq [push_ldc_i8 (word_of_int (sint w)), ?op I64])"
    by (rule w8 [OF loads_i8])
  show ?thesis
    unfolding emit_i128_def Let_def
    using m1 short ss i4 i8 wide_halves(2) [of ts "''System.Int128''" w] by presburger
qed

lemma u128_const: "wide_const ts ''System.UInt128'' (uint w) (emit_u128 ts w)"
proof -
  have le2: "uint w \<le> 127" if "w \<le> 127" using that by (simp add: word_le_def)
  have le3: "uint w \<le> 4294967295" if "w \<le> 4294967295" using that by (simp add: word_le_def)
  have le4: "uint (ucast w :: u64) = uint w" if "w \<le> 18446744073709551615"
  proof -
    have "uint w < 2 ^ 64" using that by (simp add: word_le_def)
    then show ?thesis by (simp add: unsigned_ucast_eq take_bit_int_eq_self)
  qed
  let ?W = "wide_const ts ''System.UInt128'' (uint w)"
    and ?op = "\<lambda>t. emit_int128_op_implicit ts (bcl_class_ref ''System.UInt128'' True) (TInt t)"
  have w: "loads g (SI32 (word_of_int (uint w))) \<Longrightarrow> w \<le> 4294967295 \<Longrightarrow> ?W (seq [g, ?op U32])" for g
  proof (erule wide_implicit)
    assume "w \<le> 4294967295"
    then have "uint w < 2 ^ 32" using le3 by simp
    then show "implicit_operand (TInt U32) (SI32 (word_of_int (uint w))) = Some (uint w)"
      by (simp only: implicit_operand.simps uint_of_int uint_ge_0)
  qed
  have le': "w \<le> 8 \<Longrightarrow> w \<le> 4294967295" "w \<le> 127 \<Longrightarrow> w \<le> 4294967295" by (simp_all add: word_le_def)
  have short: "w \<le> 8 \<Longrightarrow> ?W (seq [emit_ldc_i4_signed (uint w), ?op U32])"
    using w [OF loads_signed le'(1)] by simp
  have ss: "w \<le> 127 \<Longrightarrow> ?W (seq [push_ldc_s (uint w), ?op U32])"
    using w [OF loads_s le'(2)] le2 by simp
  have i4: "w \<le> 4294967295 \<Longrightarrow> ?W (seq [push_ldc_i4 (uint w), ?op U32])"
    by (rule w [OF loads_i4])
  have i8: "w \<le> 18446744073709551615 \<Longrightarrow> ?W (seq [push_ldc_i8 (ucast w), ?op U64])"
    by (rule wide_implicit [OF loads_i8]) (simp add: le4)
  show ?thesis
    unfolding emit_u128_def Let_def
    using short ss i4 i8 wide_halves(1) [of ts "''System.UInt128''" w] by presburger
qed

definition const_loaded :: "'r token_sink \<Rightarrow> cil_const \<Rightarrow> 'r emit \<Rightarrow> bool" where
  "const_loaded ts c f \<longleftrightarrow>
     (case stack_value c of
        Some v \<Rightarrow> loads f v
      | None \<Rightarrow>
          (case c of
             CI128 w \<Rightarrow> wide_const ts ''System.Int128'' (sint w) f
           | CU128 w \<Rightarrow> wide_const ts ''System.UInt128'' (uint w) f
           | CPlatformString s \<Rightarrow> f = with_token (ts_user_string ts s) (\<lambda>tok. seq [push_u8 0x72, push_token tok])
           | CByteBuffer d _ \<Rightarrow> f = with_token (ts_const_blob ts d) (\<lambda>tok. seq [push_u8 0x7F, push_token tok])
           | _ \<Rightarrow> False))"

lemma const_emitted: "const_loaded ts c (emit_const ts c)"
proof (cases c)
  case (CI8 v)
  then show ?thesis using loads_i8_band [of "sint v"] sint_u8 [of v] by (simp add: const_loaded_def)
next
  case (CF32 f)
  have "loads (seq [push_u8 0x22, push_bytes (le_bytes 4 f)]) (SF32 f)"
    unfolding loads_def push_u8_def seq_push by (rule exI [of _ "[0x22] @ le_bytes 4 f"]) simp
  then show ?thesis using CF32 by (simp add: const_loaded_def)
next
  case (CF64 f)
  have "loads (seq [push_u8 0x23, push_bytes (le_bytes 8 f)]) (SF64 f)"
    unfolding loads_def push_u8_def seq_push by (rule exI [of _ "[0x23] @ le_bytes 8 f"]) simp
  then show ?thesis using CF64 by (simp add: const_loaded_def)
next
  case (CNull c)
  have "loads (push_u8 0x14) SNull" unfolding loads_def push_u8_def by (rule exI [of _ "[0x14]"]) simp
  then show ?thesis using CNull by (simp add: const_loaded_def)
next
  case (CBool b)
  have "loads (push_u8 (if b then 0x17 else 0x16)) (SI32 (if b then 1 else 0))"
    unfolding loads_def push_u8_def by (rule exI [of _ "[if b then 0x17 else 0x16]"]) simp
  then show ?thesis using CBool by (simp add: const_loaded_def)
next
  case (CI16 v)
  then show ?thesis using loads_signed [of "sint v"] by (simp add: const_loaded_def)
next
  case (CI32 v)
  then show ?thesis using loads_signed [of "sint v"] by (simp add: const_loaded_def)
next
  case (CU8 v)
  then show ?thesis using loads_signed [of "uint v"] by (simp add: const_loaded_def)
next
  case (CU16 v)
  then show ?thesis using loads_signed [of "uint v"] by (simp add: const_loaded_def)
next
  case (CU32 v)
  then show ?thesis using loads_unsigned [of "uint v"] by (simp add: const_loaded_def)
qed (simp_all add: const_loaded_def loads_u64 loads_usize loads_via_i4 emit_ldc_i8_via_i4_def i128_const u128_const)

text \<open>
  C13. The bytes emitted for a constant push exactly that constant, whatever follows them: every
  integer width on every branch of the short-form ladders, at its extremes included, booleans,
  floats bit for bit and null; a 128-bit integer becomes an exact conversion or its two halves.
\<close>

theorem const_emission: "const_loaded ts c (emit_const ts c)"
  by (rule const_emitted)

section \<open>Emitted code is postfix code\<close>

text \<open>The bytes a node adds after the code of its operands.\<close>

fun emit_instr :: "'r token_sink \<Rightarrow> cil_node \<Rightarrow> 'r emit" where
  "emit_instr ts (NBinOp _ _ op) = push_bytes (bin_op_code op)"
| "emit_instr ts (NUnOp _ op) = push_u8 (case op of Not \<Rightarrow> 0x66 | Neg \<Rightarrow> 0x65)"
| "emit_instr ts (NCall m _ _) = emit_call_like ts m False"
| "emit_instr ts (NIntCast _ target ext) = emit_int_cast target ext"
| "emit_instr ts (NFloatCast _ target sg) = emit_float_cast target sg"
| "emit_instr ts (NRefToPtr _) = push_u8 0xE0"
| "emit_instr ts (NPtrCast _ _) = seq []"
| "emit_instr ts (NLdFieldAddress _ fd) = with_token (ts_field ts fd) (\<lambda>tok. seq [push_u8 0x7C, push_token tok])"
| "emit_instr ts (NLdField _ fd) = with_token (ts_field ts fd) (\<lambda>tok. seq [push_u8 0x7B, push_token tok])"
| "emit_instr ts (NLdInd _ t volatile) = emit_ldind ts t volatile"
| "emit_instr ts (NIsInst _ t) = emit_token_op ts 0x75 t"
| "emit_instr ts (NCheckedCast _ t) = emit_token_op ts 0x74 t"
| "emit_instr ts (NCallI _ sig _) = with_token (calli_sig_token ts sig) (\<lambda>tok. seq [push_u8 0x29, push_token tok])"
| "emit_instr ts (NLocAlloc _) = push_ext 0x0F"
| "emit_instr ts (NLdLen _) = push_u8 0x8E"
| "emit_instr ts (NLdElelemRef _ _) = push_u8 0x9A"
| "emit_instr ts (NLdElem _ _ t) = emit_token_op ts 0xA3 t"
| "emit_instr ts (NUnboxAny _ t) = emit_token_op ts 0xA5 t"
| "emit_instr ts (NBox _ t) = emit_token_op ts 0x8C t"
| "emit_instr ts (NNewArr t _) = emit_token_op ts 0x8D t"
| "emit_instr ts n = emit_node ts n"

lemma rbind_assoc: "rbind (rbind r f) g = rbind r (\<lambda>x. rbind (f x) g)"
  by (cases r) simp_all

lemma rbind_Inr_right [simp]: "rbind r Inr = r"
  by (cases r) simp_all

lemma seq_append: "seq (xs @ ys) = (\<lambda>e. rbind (seq xs e) (seq ys))"
proof (induction xs)
  case (Cons f xs)
  show ?case by (rule ext) (simp add: Cons rbind_assoc)
qed simp

lemma seq_Cons: "seq (f # fs) = (\<lambda>e. rbind (f e) (seq fs))"
  by (rule ext) simp

lemma seq_Nil_eta: "seq [] = Inr"
  by (rule ext) simp

lemma seq_single [simp]: "seq [f] = f"
  by (rule ext) (simp add: seq_Nil_eta)

lemma emit_node_postfix:
  "emit_node ts n = seq (map (emit_instr ts) (post_order n))"
  "emit_nodes ts ns = seq (map (emit_instr ts) (concat (map post_order ns)))"
proof (induction ts n and ts ns rule: emit_node_emit_nodes.induct)
  case (33 ts)
  show ?case by simp
next
  case (34 ts n ns)
  then show ?case by (simp add: seq_append seq_Cons seq_Nil_eta rbind_assoc del: seq.simps)
qed (subst post_order.simps, simp add: seq_append seq_Cons seq_Nil_eta rbind_assoc del: seq.simps)+

text \<open>
  Postfix code on an evaluation stack: an instruction takes its operands from the top, the last one
  topmost, and pushes its value.
\<close>

fun run_postfix :: "('x, 'v, 's) node_act \<Rightarrow> cil_node list \<Rightarrow> 'v list \<Rightarrow> 's \<Rightarrow> ('x, 'v list \<times> 's) result" where
  "run_postfix act [] st s = Inr (st, s)"
| "run_postfix act (n # ns) st s =
     (let k = length (mapped_operands n) in
      rbind (act (instr n) (rev (take k st)) s) (\<lambda>(v, s). run_postfix act ns (v # drop k st) s))"

lemma run_postfix_append:
  "run_postfix act (xs @ ys) st s = rbind (run_postfix act xs st s) (\<lambda>(st, s). run_postfix act ys st s)"
proof (induction xs arbitrary: st s)
  case (Cons n xs)
  show ?case
    by (cases "act (instr n) (rev (take (length (mapped_operands n)) st)) s") (auto simp: Let_def Cons)
qed simp

lemma exec_nodes_length: "exec_nodes act ns s = Inr (vs, s') \<Longrightarrow> length vs = length ns"
  by (induction act ns s arbitrary: vs s' rule: exec_nodes.induct) (auto simp: rbind_eq_Inr)

lemma run_postfix_exec:
  "run_postfix act (concat (map post_order ns)) st s = rbind (exec_nodes act ns s) (\<lambda>(vs, s). Inr (rev vs @ st, s))"
proof (induction ns arbitrary: st s rule: nodes_induct)
  case (Cons n ns)
  have "run_postfix act (concat (map post_order (n # ns))) st s =
      rbind (exec_nodes act (mapped_operands n) s) (\<lambda>(vs, s).
        run_postfix act (n # concat (map post_order ns)) (rev vs @ st) s)"
    by (cases "exec_nodes act (mapped_operands n) s")
      (auto simp: post_order.simps [of n] run_postfix_append Cons(1) simp del: run_postfix.simps)
  also have "\<dots> = rbind (exec_nodes act (n # ns) s) (\<lambda>(vs, s). Inr (rev vs @ st, s))"
  proof (cases "exec_nodes act (mapped_operands n) s")
    case (Inr q)
    then obtain vs t where q: "exec_nodes act (mapped_operands n) s = Inr (vs, t)" by (cases q) simp
    have "run_postfix act (n # concat (map post_order ns)) (rev vs @ st) t =
        rbind (act (instr n) vs t) (\<lambda>(v, s). rbind (exec_nodes act ns s) (\<lambda>(ws, s). Inr (rev ws @ v # st, s)))"
      using exec_nodes_length [OF q] by (cases "act (instr n) vs t") (auto simp: Let_def Cons(2))
    moreover have "exec_nodes act (n # ns) s =
        rbind (act (instr n) vs t) (\<lambda>(v, s). rbind (exec_nodes act ns s) (\<lambda>(vs, s). Inr (v # vs, s)))"
      using q by simp
    ultimately show ?thesis using q
      by (auto simp: rbind_def split: sum.split simp del: run_postfix.simps exec_nodes.simps)
  qed simp
  finally show ?case .
qed simp

text \<open>
  The code emitted for a tree is the sequence of the instructions of its nodes, operands first in
  the order \<^verbatim>\<open>CILNode::map\<close> visits them; run on an evaluation stack it computes what the tree computes,
  with the same effects and exceptions, and leaves exactly one value above what was there.
\<close>

lemma code_is_postfix:
  "emit_node ts n = seq (map (emit_instr ts) (post_order n))
   \<and> run_postfix act (post_order n) st s = rbind (exec_nodes act [n] s) (\<lambda>(vs, s). Inr (vs @ st, s))"
proof
  show "emit_node ts n = seq (map (emit_instr ts) (post_order n))" by (rule emit_node_postfix(1))
  have one: "rbind r (\<lambda>(vs, s). Inr (rev vs @ st, s)) = rbind r (\<lambda>(vs, s). Inr (vs @ st, s))"
    if "\<And>vs s'. r = Inr (vs, s') \<Longrightarrow> length vs = 1" for r :: "('x, 'v list \<times> 's) result" and st
    using that by (cases r) (auto simp: length_1)
  then show "run_postfix act (post_order n) st s = rbind (exec_nodes act [n] s) (\<lambda>(vs, s). Inr (vs @ st, s))"
    using run_postfix_exec [of act "[n]" st s] one [of "exec_nodes act [n] s" st] exec_nodes_length [of act "[n]" s]
    by (simp del: exec_nodes.simps)
qed

section \<open>The depth of the evaluation stack\<close>

text \<open>
  The depth the emitted code of one node reaches above its popped operands, and the depth postfix code
  reaches from a given depth.
\<close>

fun own_depth :: "cil_node \<Rightarrow> nat" where
  "own_depth (NConst (CI128 _)) = 2"
| "own_depth (NConst (CU128 _)) = 2"
| "own_depth (NLocAllocAlgined _ _) = 3"
| "own_depth _ = 1"

fun peak :: "cil_node list \<Rightarrow> nat \<Rightarrow> nat" where
  "peak [] d = d"
| "peak (n # ns) d =
     (let base = d - length (mapped_operands n) in max d (max (base + own_depth n) (peak ns (Suc base))))"

fun root_peak :: "cil_root \<Rightarrow> nat" where
  "root_peak (RTerminateRegion r _) = max 1 (root_peak r)"
| "root_peak r = max 1 (peak (concat (map post_order (root_nodes r))) 0)"

text \<open>The nodes of a root, those of a nested root included.\<close>

fun all_subterms :: "cil_root \<Rightarrow> cil_node list" where
  "all_subterms (RTerminateRegion r _) = all_subterms r"
| "all_subterms r = concat (map subterms (root_nodes r))"

abbreviation node_count :: "cil_node list \<Rightarrow> nat" where
  "node_count ns \<equiv> (\<Sum>n\<leftarrow>ns. length (subterms n))"

lemma subterms_length: "length (subterms n) = Suc (node_count (operands n))"
  by (simp add: subterms.simps [of n] length_concat comp_def)

lemma node_count_mapped: "node_count (mapped_operands n) = node_count (operands n)"
  by (cases n) simp_all

lemma length_node_count: "length ns \<le> node_count ns"
proof (induction ns)
  case (Cons n ns)
  then show ?case using subterms_length [of n] by simp
qed simp

lemma own_depth_le: "own_depth n \<le> 3"
proof (cases n)
  case (NConst c)
  then show ?thesis by (cases c) simp_all
qed simp_all

lemma max_chain:
  fixes a :: nat
  assumes "a \<le> max (d + w + 2) b" "b = max (d + k) (max (d + h) c)" "c \<le> max (Suc d + m + 2) e" "h \<le> 3" "k \<le> w"
  shows "a \<le> max (d + (Suc w + m) + 2) e"
  using assms by (auto simp: max_def split: if_splits)

lemma peak_post_order:
  "peak (concat (map post_order ns) @ rest) d \<le> max (d + node_count ns + 2) (peak rest (d + length ns))"
proof (induction ns arbitrary: d rest rule: nodes_induct)
  case (Cons n ns)
  let ?k = "length (mapped_operands n)" and ?rest = "concat (map post_order ns) @ rest"
  have k: "?k \<le> node_count (mapped_operands n)" by (rule length_node_count)
  have n: "length (subterms n) = Suc (node_count (mapped_operands n))"
    by (simp add: subterms_length [of n] node_count_mapped)
  have "peak (post_order n @ ?rest) d \<le> max (d + node_count (mapped_operands n) + 2) (peak (n # ?rest) (d + ?k))"
    using Cons(1) [of "n # ?rest" d] by (simp add: post_order.simps [of n])
  moreover have "peak (n # ?rest) (d + ?k) = max (d + ?k) (max (d + own_depth n) (peak ?rest (Suc d)))"
    by (simp add: Let_def)
  moreover have "peak ?rest (Suc d) \<le> max (Suc d + node_count ns + 2) (peak rest (Suc d + length ns))"
    by (rule Cons(2))
  moreover have "node_count (n # ns) = Suc (node_count (mapped_operands n)) + node_count ns" using n by simp
  ultimately show ?case using max_chain [OF _ _ _ own_depth_le [of n] k] by simp
qed simp

lemma peak_root_nodes: "peak (concat (map post_order ns)) 0 \<le> node_count ns + 2"
  using peak_post_order [of ns "[]" 0] length_node_count [of ns] by simp

lemma all_subterms_root: "(\<And>q k. r \<noteq> RTerminateRegion q k) \<Longrightarrow> all_subterms r = root_subterms r \<and> child_roots r = []
    \<and> root_peak r = max 1 (peak (concat (map post_order (root_nodes r))) 0)"
  by (cases r) (auto simp: root_subterms_def)

lemma root_peak_iter:
  "list_all (\<lambda>m. \<not> is_ldelem_ref m) (all_subterms r) \<Longrightarrow> root_peak r \<le> length (cil_iter [ERoot r]) + 2"
proof (induction r rule: measure_induct_rule [where f = size])
  case (less r)
  show ?case
  proof (cases "\<exists>q k. r = RTerminateRegion q k")
    case True
    then obtain q k where r: "r = RTerminateRegion q k" by blast
    then have "root_peak q \<le> length (cil_iter [ERoot q]) + 2" using less by simp
    then show ?thesis using r by simp
  next
    case False
    then have r: "all_subterms r = root_subterms r" "child_roots r = []"
        "root_peak r = max 1 (peak (concat (map post_order (root_nodes r))) 0)"
      using all_subterms_root [of r] by blast+
    then have "length (cil_iter [ERoot r]) = Suc (node_count (root_nodes r))"
      using less.prems plain_iter [of r] by (simp add: plain_root_def root_subterms_def length_concat comp_def)
    then show ?thesis using r(3) peak_root_nodes [of "root_nodes r"] by simp
  qed
qed

lemma foldl_max_start: "m \<le> foldl max m (xs :: u32 list)"
proof (induction xs arbitrary: m)
  case (Cons x xs)
  have "m \<le> max m x" by simp
  also have "\<dots> \<le> foldl max (max m x) xs" by (rule Cons)
  finally show ?case by simp
qed simp

lemma foldl_max_ge: "x \<in> set xs \<Longrightarrow> x \<le> foldl max m (xs :: u32 list)"
proof (induction xs arbitrary: m)
  case (Cons y xs)
  show ?case
  proof (cases "x = y")
    case True
    have "x \<le> max m y" using True by simp
    also have "\<dots> \<le> foldl max (max m y) xs" by (rule foldl_max_start)
    finally show ?thesis by simp
  qed (use Cons in simp)
qed simp

lemma maxstack_covers:
  assumes "r \<in> set (concat (map iter_roots blocks))" "list_all (\<lambda>m. \<not> is_ldelem_ref m) (all_subterms r)"
    and "length (cil_iter [ERoot r]) + 10 \<le> 0xFFFF"
  shows "root_peak r + 8 \<le> unat (ucast (min (compute_maxstack_from_body blocks) 0xFFFF) :: u16)"
proof -
  let ?n = "length (cil_iter [ERoot r])" and ?m = "compute_maxstack_from_body blocks"
  have n: "unat (root_stack r) = ?n + 10"
  proof -
    have "root_stack r = word_of_nat (?n + 10)" by (simp add: root_stack_def)
    then show ?thesis using assms(3) by (simp only:) (subst word_of_nat_unat_lt, simp_all)
  qed
  have "root_stack r \<le> ?m"
    unfolding compute_maxstack_from_body_def by (rule foldl_max_ge) (use assms(1) in auto)
  then have "?n + 10 \<le> unat (min ?m 0xFFFF)" using n assms(3) by (simp add: min_def word_le_nat_alt)
  moreover have "unat (ucast (min ?m 0xFFFF) :: u16) = unat (min ?m 0xFFFF)"
  proof -
    have "unat (min ?m 0xFFFF) < 2 ^ 16" by (simp add: min_def word_le_nat_alt)
    then show ?thesis by (simp add: unat_ucast_mod)
  qed
  ultimately show ?thesis using root_peak_iter [OF assms(2)] by simp
qed

definition deep_index :: "nat \<Rightarrow> cil_root" where
  "deep_index k = RPop (NLdElelemRef (NLdArg 0) (((\<lambda>n. NBinOp (NLdArg 0) n Add) ^^ k) (NLdArg 0)))"

lemma deep_index_maxstack:
  "compute_maxstack_from_body [BasicBlock [deep_index 12] 0 None None] = 13 \<and> root_peak (deep_index 12) = 14"
  by (simp add: deep_index_def compute_maxstack_from_body_def root_stack_def numeral_eq_Suc post_order.simps Let_def)

text \<open>
  C27. The stack size written into the method header covers every statement of the body with room
  for eight more slots, provided no statement has an element-reference load (\<^verbatim>\<open>ldelem.ref\<close>) and none has more than
  65525 nodes; the index of an element-reference load is not counted, and a deep one exceeds the size written.
\<close>

theorem maxstack_sufficient:
  "(r \<in> set (concat (map iter_roots blocks)) \<and> list_all (\<lambda>m. \<not> is_ldelem_ref m) (all_subterms r)
      \<and> length (cil_iter [ERoot r]) + 10 \<le> 0xFFFF \<longrightarrow>
    root_peak r + 8 \<le> unat (ucast (min (compute_maxstack_from_body blocks) 0xFFFF) :: u16))
   \<and> compute_maxstack_from_body [BasicBlock [deep_index 12] 0 None None] = 13 \<and> root_peak (deep_index 12) = 14"
  using maxstack_covers deep_index_maxstack by blast

theorem maxstack_sufficient_witness:
  "root_peak (RStLoc 0 (NBinOp (NConst (CI128 7)) (NLdArg 0) Add)) + 8
    \<le> unat (ucast (min (compute_maxstack_from_body [BasicBlock [RStLoc 0 (NBinOp (NConst (CI128 7)) (NLdArg 0) Add)] 0 None None]) 0xFFFF) :: u16)"
  by (rule maxstack_sufficient [THEN conjunct1, rule_format]) (simp add: subterms.simps)

section \<open>Straight-line code\<close>

text \<open>
  \<open>along R f\<close>: a run of \<open>f\<close> that ends goes along the relation \<open>R\<close> of emitters. The code of nodes goes along every
  relation that appending bytes, asking for tokens and noting source locations go along.
\<close>

definition along :: "('r emitter \<Rightarrow> 'r emitter \<Rightarrow> bool) \<Rightarrow> 'r emit \<Rightarrow> bool" where
  "along R f \<longleftrightarrow> (\<forall>e e'. f e = Inr e' \<longrightarrow> R e e')"

named_theorems along_intros \<open>emitters that go along a relation\<close>

lemma along_fail [along_intros]: "along R (\<lambda>_. Inl x)"
  by (simp add: along_def)

lemma along_if [along_intros]: "along R f \<Longrightarrow> along R g \<Longrightarrow> along R (if c then f else g)"
  by simp

locale output_relation =
  fixes R :: "'r emitter \<Rightarrow> 'r emitter \<Rightarrow> bool"
  assumes refl: "R e e"
    and trans: "R a b \<Longrightarrow> R b c \<Longrightarrow> R a c"
    and code: "R e (e\<lparr>e_out := e_out e @ bs\<rparr>)"
    and points: "R e (e\<lparr>e_sequence_points := ps\<rparr>)"
begin

lemma along_seq [along_intros]: "list_all (along R) fs \<Longrightarrow> along R (seq fs)"
proof (induction fs)
  case (Cons f fs)
  then have f: "along R f" "along R (seq fs)" by simp_all
  show ?case
    unfolding along_def
  proof (intro allI impI)
    fix e e'
    assume "seq (f # fs) e = Inr e'"
    then obtain e1 where "f e = Inr e1" "seq fs e1 = Inr e'" by (auto simp: rbind_eq_Inr)
    then show "R e e'" using f trans unfolding along_def by blast
  qed
qed (simp add: along_def refl)

lemma along_push_bytes [along_intros]: "along R (push_bytes bs)"
  by (simp add: along_def push_bytes_def code)

lemma along_sequence_point [along_intros]: "along R (note_sequence_point ls ll cs cl f)"
  by (auto simp: along_def note_sequence_point_def rbind_eq_Inr points split: if_splits)

lemma along_pushes [along_intros]:
  "along R (push_u8 b)" "along R (push_u32 v)" "along R (push_i64 w)" "along R (push_token tok)" "along R (push_ext b)"
  "along R push_volatile_prefix"
  unfolding push_u8_def push_u32_def push_i64_def push_token_def push_ext_def push_volatile_prefix_def
  by (rule along_push_bytes)+

lemma along_slots [along_intros]:
  "along R (emit_ldloc l)" "along R (emit_ldloca l)" "along R (emit_ldarg l)" "along R (emit_ldarga l)"
  "along R (emit_stloc l)" "along R (emit_starg l)"
  unfolding emit_ldloc_def emit_ldloca_def emit_ldarg_def emit_ldarga_def emit_stloc_def emit_starg_def
    emit_compact_index_def emit_short_index_def
  by (simp_all add: along_intros)

lemma along_ldc [along_intros]:
  "along R (push_short_form_ldc v)" "along R (push_ldc_s v)" "along R (push_ldc_i4 v)" "along R (push_ldc_i8 w)"
  unfolding push_short_form_ldc_def push_ldc_s_def push_ldc_i4_def push_ldc_i8_def
  by (simp_all add: along_intros)

lemma along_ldc_ladders [along_intros]:
  "along R (emit_ldc_i4_signed v)" "along R (emit_ldc_i4_i8_band v)" "along R (emit_ldc_i4_unsigned v)"
  "along R (emit_ldc_i8_via_i4_with_conv w b)" "along R (emit_ldc_i8_via_i4 w)" "along R (emit_ldc_u64 w)" "along R (emit_ldc_usize w)"
  unfolding emit_ldc_i4_signed_def emit_ldc_i4_i8_band_def emit_ldc_i4_unsigned_def
    emit_ldc_i8_via_i4_def emit_ldc_i8_via_i4_with_conv_def emit_ldc_u64_def emit_ldc_usize_def
  by (simp_all add: along_intros)

lemma along_casts [along_intros]: "along R (emit_int_cast i ex)" "along R (emit_float_cast f sg)"
proof -
  show "along R (emit_float_cast f sg)" by (cases f; cases sg) (simp_all add: along_intros)
qed (simp add: along_intros emit_int_cast_def)

end

text \<open>
  \<open>asks_along R ask\<close>: the relation goes along the change of the sink's state by \<open>ask\<close>. A \<open>sink_relation\<close> goes along
  everything a given sink does; a \<open>code_relation\<close> does not look at the sink's state, so every sink will do.
\<close>

definition asks_along :: "('r emitter \<Rightarrow> 'r emitter \<Rightarrow> bool) \<Rightarrow> ('r \<Rightarrow> (emit_panic, token \<times> 'r) result) \<Rightarrow> bool" where
  "asks_along R ask \<longleftrightarrow> (\<forall>e tok r. ask (e_sink e) = Inr (tok, r) \<longrightarrow> R e (e\<lparr>e_sink := r\<rparr>))"

locale sink_relation = output_relation R
  for R :: "'r emitter \<Rightarrow> 'r emitter \<Rightarrow> bool" +
  fixes ts :: "'r token_sink"
  assumes asks:
    "asks_along R (ts_method ts m)" "asks_along R (ts_field ts fd)" "asks_along R (ts_static_field ts sfd)"
    "asks_along R (ts_user_string ts s)" "asks_along R (calli_sig_token ts sig)" "asks_along R (ts_type ts t)"
    "asks_along R (ts_const_blob ts data)"
begin

lemma along_with_token [along_intros]: "asks_along R ask \<Longrightarrow> (\<And>tok. along R (k tok)) \<Longrightarrow> along R (with_token ask k)"
  unfolding along_def with_token_def asks_along_def using trans by (fastforce simp: rbind_eq_Inr)

lemmas along_asks [along_intros] = asks

lemma along_token_ops [along_intros]:
  "along R (emit_token_op ts op t)" "along R (emit_int128_op_implicit ts c t)" "along R (emit_int128_ctor ts c)"
  "along R (emit_bcl_obj ts op name)"
  unfolding emit_token_op_def emit_int128_op_implicit_def emit_int128_ctor_def emit_bcl_obj_def
  by (simp_all add: along_intros)

lemma along_const [along_intros]: "along R (emit_const ts c)"
  by (cases c) (simp_all add: along_intros emit_i128_def emit_u128_def Let_def)

lemma along_throw [along_intros]: "along R (emit_throw_new_exception ts msg)"
  by (simp add: along_intros emit_throw_new_exception_def)

lemma along_ldind_op [along_intros]: "along R (ldind_op ts t)"
  by (cases t) (simp_all add: along_intros split: cil_int.split cil_float.split)

lemma along_stind_op [along_intros]: "along R (stind_op ts t)"
  by (cases t) (simp_all add: along_intros split: cil_int.split cil_float.split)

lemma along_stelem_op [along_intros]: "along R (stelem_op ts t)"
proof (cases t)
  case (TFloat f)
  then show ?thesis by (cases f) (simp_all add: along_intros)
qed (simp_all add: along_intros split: cil_int.split)

lemma along_conversions [along_intros]:
  "along R (emit_call_like ts m root)" "along R (emit_ldind ts t vol)" "along R (emit_stind ts t vol)"
  "along R (emit_locaalloc_aligned ts t al)"
  by (simp_all add: along_intros emit_call_like_def emit_ldind_def emit_stind_def emit_locaalloc_aligned_def)

lemma along_instr: "along R (emit_instr ts n)"
  by (cases n) (simp_all add: along_intros)

lemma along_node [along_intros]: "along R (emit_node ts n)" "along R (emit_nodes ts ns)"
  unfolding emit_node_postfix by (rule along_seq, simp add: list_all_iff along_instr)+

end

locale code_relation = output_relation R
  for R :: "'r emitter \<Rightarrow> 'r emitter \<Rightarrow> bool" +
  assumes sink: "R e (e\<lparr>e_sink := r\<rparr>)"

sublocale code_relation \<subseteq> asked: sink_relation R ts for ts
  by unfold_locales (simp_all add: asks_along_def sink)

section \<open>Branch operands\<close>

text \<open>
  Branch operands recorded so far lie inside the code and do not overlap; labels point into the code
  or to its end. Every emitter only appends and keeps this.
\<close>

definition fixups_ok :: "(u32 \<times> label) list \<Rightarrow> nat \<Rightarrow> bool" where
  "fixups_ok fs n \<longleftrightarrow> sorted_wrt (\<lambda>a b. unat (fst a) + 4 \<le> unat (fst b)) fs \<and> (\<forall>f\<in>set fs. unat (fst f) + 4 \<le> n)"

definition emitter_wf :: "'r emitter \<Rightarrow> bool" where
  "emitter_wf e \<longleftrightarrow> fixups_ok (e_branch_fixups e) (length (e_out e))
     \<and> (\<forall>l t. e_label_offsets e l = Some t \<longrightarrow> unat t \<le> length (e_out e))"

text \<open>The labels of blocks are set by \<open>emit_block\<close> alone; \<open>keeps\<close> is for all the other emitters.\<close>

definition block_labels :: "'r emitter \<Rightarrow> u32 \<rightharpoonup> u32" where
  "block_labels e = (\<lambda>i. e_label_offsets e (LBlock i))"

definition keeps_rel :: "'r emitter \<Rightarrow> 'r emitter \<Rightarrow> bool" where
  "keeps_rel e e' \<longleftrightarrow> (emitter_wf e \<longrightarrow>
     emitter_wf e' \<and> prefix (e_out e) (e_out e') \<and> block_labels e' = block_labels e)"

abbreviation keeps :: "'r emit \<Rightarrow> bool" where
  "keeps f \<equiv> along keeps_rel f"

lemma keeps_def: "keeps f \<longleftrightarrow> (\<forall>e e'. f e = Inr e' \<longrightarrow> emitter_wf e \<longrightarrow>
     emitter_wf e' \<and> prefix (e_out e) (e_out e') \<and> block_labels e' = block_labels e)"
  by (simp add: along_def keeps_rel_def)

interpretation kp: code_relation keeps_rel
  by unfold_locales
    (auto simp: keeps_rel_def emitter_wf_def fixups_ok_def block_labels_def intro: trans_le_add1 prefix_order.order_trans)

lemma here_offset_unat: "here_offset e = Inr off \<Longrightarrow> unat off = length (e_out e)"
  by (auto simp: here_offset_def word_of_nat_unat_lt split: if_splits)

fun is_block_label :: "label \<Rightarrow> bool" where
  "is_block_label (LBlock _) = True"
| "is_block_label _ = False"

lemma define_label_effect:
  assumes "define_label l e = Inr e'" "emitter_wf e"
  obtains off where "e' = e\<lparr>e_label_offsets := (e_label_offsets e)(l \<mapsto> off)\<rparr>" "unat off = length (e_out e)" "emitter_wf e'"
  using assms by (auto simp: define_label_def emitter_wf_def rbind_eq_Inr dest: here_offset_unat split: if_splits)

lemma keeps_define_label [along_intros]: "\<not> is_block_label l \<Longrightarrow> keeps (define_label l)"
  unfolding keeps_def
  by (intro allI impI, erule (1) define_label_effect) (auto simp: block_labels_def fun_eq_iff)

lemma block_labels_simps [simp]:
  "block_labels (e\<lparr>e_sink := r\<rparr>) = block_labels e"
  "block_labels (e\<lparr>e_marker_counter := c\<rparr>) = block_labels e"
  "block_labels (e\<lparr>e_terminate_region_counter := c\<rparr>) = block_labels e"
  "block_labels (e\<lparr>e_out := bs\<rparr>) = block_labels e"
  "block_labels (e\<lparr>e_branch_fixups := fs\<rparr>) = block_labels e"
  "block_labels (e\<lparr>e_clauses := cs\<rparr>) = block_labels e"
  "block_labels (e\<lparr>e_sequence_points := ps\<rparr>) = block_labels e"
  by (simp_all add: block_labels_def)

lemma emitter_wf_sink [simp]: "emitter_wf (e\<lparr>e_sink := r\<rparr>) = emitter_wf e"
  by (simp add: emitter_wf_def)

lemma keeps_with_here [along_intros]: "(\<And>l. keeps (k l)) \<Longrightarrow> keeps (with_here k)"
proof -
  assume k: "\<And>l. keeps (k l)"
  show ?thesis
    unfolding keeps_def
  proof (intro allI impI)
    fix e e' :: "'a emitter"
    assume "with_here k e = Inr e'" and e: "emitter_wf e"
    then obtain e1 where
      1: "define_label (LMarker (e_marker_counter e)) (e\<lparr>e_marker_counter := e_marker_counter e + 1\<rparr>) = Inr e1"
        "k (LMarker (e_marker_counter e)) e1 = Inr e'"
      by (auto simp: with_here_def here_def Let_def rbind_eq_Inr)
    have "emitter_wf (e\<lparr>e_marker_counter := e_marker_counter e + 1\<rparr>)" using e by (simp add: emitter_wf_def)
    then have "emitter_wf e1 \<and> prefix (e_out e) (e_out e1) \<and> block_labels e1 = block_labels e"
      using keeps_define_label [of "LMarker (e_marker_counter e)"] 1(1) unfolding keeps_def by fastforce
    then show "emitter_wf e' \<and> prefix (e_out e) (e_out e') \<and> block_labels e' = block_labels e"
      using k 1(2) unfolding keeps_def by (metis prefix_order.order_trans)
  qed
qed

lemma keeps_record: "keeps (\<lambda>e. rbind (here_offset e) (\<lambda>off.
    Inr (e\<lparr>e_out := e_out e @ le_bytes 4 (0 :: u32), e_branch_fixups := e_branch_fixups e @ [(off, target)]\<rparr>)))"
  by (force simp: keeps_def emitter_wf_def fixups_ok_def rbind_eq_Inr sorted_wrt_append
      intro: trans_le_add1 dest!: here_offset_unat)

lemma keeps_add_clause [along_intros]: "keeps (add_clause c)"
  by (simp add: keeps_def add_clause_def emitter_wf_def)

lemma keeps_push_branch [along_intros]: "keeps (push_branch op l)"
  unfolding push_branch_def by (rule kp.along_seq) (simp add: along_intros keeps_record)

lemma keeps_exit_region [along_intros]: "keeps (emit_exit_region tg src h hh)"
  by (simp add: along_intros emit_exit_region_def)

lemma keeps_branch [along_intros]: "keeps (emit_branch ts t u c h hh)"
  unfolding emit_branch_def Let_def emit_binary_branch_def
  by (cases c) (simp_all add: along_intros split: branch_cond.split)

text \<open>The part of a terminate region that follows the allocation of its number.\<close>

lemma keeps_terminate_code:
  fixes ts :: "'r token_sink"
  assumes "keeps p" "\<not> is_block_label dn"
  shows "keeps (with_here (\<lambda>try_start. seq [p, push_branch 0xDD dn,
      with_here (\<lambda>try_end. with_here (\<lambda>handler_start. seq [push_u8 0x26,
      with_token (ts_user_string ts (terminate_message reason)) (\<lambda>str_tok. seq [push_u8 0x72, push_token str_tok,
      with_token (ts_method ts environment_failfast) (\<lambda>failfast_tok. seq [push_u8 0x28, push_token failfast_tok,
      push_ext 0x1A,
      with_here (\<lambda>handler_end. seq [define_label dn, push_u8 0x00,
      add_clause \<lparr>pc_try_start = try_start, pc_try_end = try_end, pc_handler_start = handler_start,
        pc_handler_end = handler_end\<rparr>])])])]))]))"
  using assms by (simp add: along_intros del: seq.simps)

lemma keeps_terminate [along_intros]:
  assumes "keeps p"
  shows "keeps (emit_terminate_region ts p reason)"
  unfolding keeps_def
proof (intro allI impI)
  fix e e' :: "'a emitter"
  assume run: "emit_terminate_region ts p reason e = Inr e'" and e: "emitter_wf e"
  have "emitter_wf (e\<lparr>e_terminate_region_counter := e_terminate_region_counter e + 1\<rparr>)"
    using e by (simp add: emitter_wf_def)
  then show "emitter_wf e' \<and> prefix (e_out e) (e_out e') \<and> block_labels e' = block_labels e"
    using keeps_terminate_code [OF assms, of "LTerminateDone (e_terminate_region_counter e)"] run unfolding emit_terminate_region_def Let_def keeps_def by fastforce
qed

lemma keeps_root [along_intros]: "keeps (emit_root ts h hh r)"
  by (induction r) (simp_all add: along_intros emit_calli_def del: seq.simps)

lemma keeps_handler [along_intros]: "keeps (emit_handler ts i handler)"
  unfolding emit_handler_def by (rule kp.along_seq) (auto simp: list_all_iff along_intros simp del: seq.simps)

text \<open>A block sets its own label to the position where its code starts, and no other block label.\<close>

definition places :: "u32 \<Rightarrow> 'r emit \<Rightarrow> bool" where
  "places i f \<longleftrightarrow> (\<forall>e e'. f e = Inr e' \<longrightarrow> emitter_wf e \<longrightarrow>
     emitter_wf e' \<and> prefix (e_out e) (e_out e')
     \<and> (\<exists>t. block_labels e' = (block_labels e)(i \<mapsto> t) \<and> unat t = length (e_out e)))"

lemma places_define_label:
  assumes "list_all keeps fs"
  shows "places i (seq (define_label (LBlock i) # fs))"
  unfolding places_def
proof (intro allI impI)
  fix e e' :: "'a emitter"
  assume run: "seq (define_label (LBlock i) # fs) e = Inr e'" and e: "emitter_wf e"
  then obtain e1 where e1: "define_label (LBlock i) e = Inr e1" "seq fs e1 = Inr e'" by (auto simp: rbind_eq_Inr)
  from e1(1) e obtain off where off: "e1 = e\<lparr>e_label_offsets := (e_label_offsets e)(LBlock i \<mapsto> off)\<rparr>"
    "unat off = length (e_out e)" "emitter_wf e1"
    by (rule define_label_effect)
  have "emitter_wf e' \<and> prefix (e_out e1) (e_out e') \<and> block_labels e' = block_labels e1"
    using kp.along_seq [OF assms] e1(2) off(3) unfolding keeps_def by blast
  moreover have "block_labels e1 = (block_labels e)(i \<mapsto> off)" using off(1) by (auto simp: block_labels_def fun_eq_iff)
  ultimately show "emitter_wf e' \<and> prefix (e_out e) (e_out e')
      \<and> (\<exists>t. block_labels e' = (block_labels e)(i \<mapsto> t) \<and> unat t = length (e_out e))"
    using off by auto
qed

lemma places_with_here:
  assumes "\<And>l. places i (k l)"
  shows "places i (with_here k)"
  unfolding places_def
proof (intro allI impI)
  fix e e' :: "'a emitter"
  let ?l = "LMarker (e_marker_counter e)" and ?e = "e\<lparr>e_marker_counter := e_marker_counter e + 1\<rparr>"
  assume "with_here k e = Inr e'" and e: "emitter_wf e"
  then obtain e1 where 1: "define_label ?l ?e = Inr e1" "k ?l e1 = Inr e'"
    by (auto simp: with_here_def here_def Let_def rbind_eq_Inr)
  have "emitter_wf ?e" using e by (simp add: emitter_wf_def)
  with 1(1) obtain off where "e1 = ?e\<lparr>e_label_offsets := (e_label_offsets ?e)(?l \<mapsto> off)\<rparr>" "emitter_wf e1"
    by (rule define_label_effect)
  then have e1: "emitter_wf e1" "e_out e1 = e_out e" "block_labels e1 = block_labels e"
    by (auto simp: block_labels_def fun_eq_iff)
  then show "emitter_wf e' \<and> prefix (e_out e) (e_out e')
      \<and> (\<exists>t. block_labels e' = (block_labels e)(i \<mapsto> t) \<and> unat t = length (e_out e))"
    using assms [of ?l] 1(2) unfolding places_def by metis
qed

lemma keeps_emit_roots [along_intros]: "keeps (emit_roots ts h hh rs)"
  unfolding emit_roots.simps by (rule kp.along_seq) (simp add: list_all_iff keeps_root)

lemma places_block: "places (bb_id b) (emit_block ts b)"
proof (cases "bb_handler b")
  case None
  then show ?thesis unfolding emit_block_def by (simp del: seq.simps emit_roots.simps add: places_define_label along_intros)
next
  case (Some handler)
  then show ?thesis
    unfolding emit_block_def
    by (simp del: seq.simps emit_roots.simps) (intro places_with_here places_define_label, simp add: along_intros del: seq.simps emit_roots.simps)
qed

lemma emit_blocks_labels:
  assumes "seq (map (emit_block ts) bs) e = Inr e'" "emitter_wf e" "distinct (map bb_id bs)"
  shows "emitter_wf e' \<and> prefix (e_out e) (e_out e')
    \<and> (\<forall>i. i \<notin> bb_id ` set bs \<longrightarrow> block_labels e' i = block_labels e i)
    \<and> (\<forall>xs b ys. bs = xs @ b # ys \<longrightarrow>
        (\<exists>e1 t. seq (map (emit_block ts) xs) e = Inr e1 \<and> block_labels e' (bb_id b) = Some t \<and> unat t = length (e_out e1)))"
  using assms
proof (induction bs arbitrary: e)
  case (Cons c bs)
  from Cons.prems(1) obtain e1 where e1: "emit_block ts c e = Inr e1" "seq (map (emit_block ts) bs) e1 = Inr e'"
    by (auto simp: rbind_eq_Inr)
  obtain t where t: "emitter_wf e1" "prefix (e_out e) (e_out e1)" "block_labels e1 = (block_labels e)(bb_id c \<mapsto> t)"
    "unat t = length (e_out e)"
    using places_block [of c ts] e1(1) Cons.prems(2) unfolding places_def by blast
  have IH: "emitter_wf e' \<and> prefix (e_out e1) (e_out e')
    \<and> (\<forall>i. i \<notin> bb_id ` set bs \<longrightarrow> block_labels e' i = block_labels e1 i)
    \<and> (\<forall>xs b ys. bs = xs @ b # ys \<longrightarrow>
        (\<exists>e2 t. seq (map (emit_block ts) xs) e1 = Inr e2 \<and> block_labels e' (bb_id b) = Some t \<and> unat t = length (e_out e2)))"
    using Cons.IH [OF e1(2) t(1)] Cons.prems(3) by simp
  have "\<exists>e2 t. seq (map (emit_block ts) xs) e = Inr e2 \<and> block_labels e' (bb_id b) = Some t \<and> unat t = length (e_out e2)"
    if "c # bs = xs @ b # ys" for xs b ys
  proof (cases xs)
    case Nil
    then have "b = c" using that by simp
    moreover have "block_labels e' (bb_id c) = Some t" using IH t(3) Cons.prems(3) by auto
    ultimately show ?thesis using Nil t(4) by simp
  next
    case (Cons x xs')
    then have "x = c" "bs = xs' @ b # ys" using that by simp_all
    then show ?thesis using IH e1(1) Cons by simp
  qed
  moreover have "prefix (e_out e) (e_out e')" using IH t(2) prefix_order.order_trans by blast
  moreover have "block_labels e' i = block_labels e i" if "i \<notin> bb_id ` set (c # bs)" for i
    using IH t(3) that by auto
  ultimately show ?case using IH by blast
qed simp

section \<open>Patching\<close>

text \<open>
  The 32-bit operand at offset \<open>o\<close> of the code, read as a displacement from the instruction's end, leads
  to offset \<open>t\<close>.
\<close>

definition operand_reaches :: "u8 list \<Rightarrow> u32 \<Rightarrow> u32 \<Rightarrow> bool" where
  "operand_reaches code off t \<longleftrightarrow>
     unat off + 4 \<le> length code \<and> uint off + 4 + sint (of_le (take 4 (drop (unat off) code)) :: u32) = uint t"

definition in_operand :: "(u32 \<times> label) list \<Rightarrow> nat \<Rightarrow> bool" where
  "in_operand fs p \<longleftrightarrow> list_ex (\<lambda>f. unat (fst f) \<le> p \<and> p < unat (fst f) + 4) fs"

lemma overwrite_facts:
  assumes "i + length ys \<le> length xs"
  shows "length (overwrite xs i ys) = length xs"
    "take (length ys) (drop i (overwrite xs i ys)) = ys"
    "p < i \<or> i + length ys \<le> p \<Longrightarrow> p < length xs \<Longrightarrow> overwrite xs i ys ! p = xs ! p"
    "take i (overwrite xs i ys) = take i xs"
  using assms by (auto simp: overwrite_def nth_append)

lemma patch_branch_facts:
  assumes "patch_branch labels (off, l) out = Inr out'" "unat off + 4 \<le> length out"
  obtains t where "labels l = Some t" "operand_reaches out' off t" "length out' = length out"
    "\<And>p. \<not> (unat off \<le> p \<and> p < unat off + 4) \<Longrightarrow> p < length out \<Longrightarrow> out' ! p = out ! p"
proof -
  from assms(1) obtain t where t: "labels l = Some t"
    by (auto simp: patch_branch_def rbind_eq_Inr ok_or_def split: option.splits)
  let ?rel = "uint t - (uint off + 4)"
  have rel: "- (2 ^ 31) \<le> ?rel" "?rel < 2 ^ 31" "out' = overwrite out (unat off) (le_bytes 4 (word_of_int ?rel :: u32))"
    using assms(1) t by (auto simp: patch_branch_def Let_def ok_or_def split: if_splits)
  have len: "unat off + length (le_bytes 4 (word_of_int ?rel :: u32)) \<le> length out" using assms(2) by simp
  have out': "length out' = length out" "take 4 (drop (unat off) out') = le_bytes 4 (word_of_int ?rel :: u32)"
    using overwrite_facts(1,2) [OF len] rel(3) by simp_all
  have "sint (word_of_int x :: u32) = x" if "- (2 ^ 31) \<le> x" "x < 2 ^ 31" for x
    using that by (simp add: signed_of_int signed_take_bit_int_eq_self)
  then have "sint (word_of_int ?rel :: u32) = ?rel" using rel(1,2) by blast
  then have "operand_reaches out' off t" using out' assms(2) by (simp add: operand_reaches_def)
  then show ?thesis
    using that [OF t _ out'(1)] overwrite_facts(3) [OF len] rel(3) by (auto simp: not_le not_less)
qed

lemma patch_all_facts:
  assumes "patch_all labels fs out = Inr out'" "fixups_ok fs (length out)"
  shows "length out' = length out
    \<and> (\<forall>(off, l)\<in>set fs. \<exists>t. labels l = Some t \<and> operand_reaches out' off t)
    \<and> (\<forall>p<length out. \<not> in_operand fs p \<longrightarrow> out' ! p = out ! p)"
  using assms
proof (induction fs arbitrary: out)
  case (Cons f fs)
  obtain off l where f: "f = (off, l)" by (cases f)
  from Cons.prems(1) obtain out1 where out1: "patch_branch labels (off, l) out = Inr out1" "patch_all labels fs out1 = Inr out'"
    by (auto simp: f rbind_eq_Inr)
  have off: "unat off + 4 \<le> length out" using Cons.prems(2) by (simp add: f fixups_ok_def)
  obtain t where t: "labels l = Some t" "operand_reaches out1 off t" "length out1 = length out"
    "\<And>p. \<not> (unat off \<le> p \<and> p < unat off + 4) \<Longrightarrow> p < length out \<Longrightarrow> out1 ! p = out ! p"
    using patch_branch_facts [OF out1(1) off] by blast
  have IH: "length out' = length out1" "\<forall>(off, l)\<in>set fs. \<exists>t. labels l = Some t \<and> operand_reaches out' off t"
    "\<forall>p<length out1. \<not> in_operand fs p \<longrightarrow> out' ! p = out1 ! p"
    using Cons.IH [OF out1(2)] Cons.prems(2) t(3) by (simp_all add: fixups_ok_def)
  have later: "unat off + 4 \<le> unat (fst g)" if "g \<in> set fs" for g
    using Cons.prems(2) that by (simp add: f fixups_ok_def)
  have "take 4 (drop (unat off) out') = take 4 (drop (unat off) out1)"
  proof (rule nth_equalityI)
    fix p assume "p < length (take 4 (drop (unat off) out'))"
    then have p: "p < 4" "unat off + p < length out1" using IH(1) by auto
    have "\<not> in_operand fs (unat off + p)" using later p(1) by (force simp: in_operand_def list_ex_iff)
    then show "take 4 (drop (unat off) out') ! p = take 4 (drop (unat off) out1) ! p" using IH p by simp
  qed (use IH(1) in simp)
  then have "operand_reaches out' off t" using t(2) IH(1) by (simp add: operand_reaches_def)
  moreover have "out' ! p = out ! p" if "p < length out" "\<not> in_operand (f # fs) p" for p
    using that IH(3) t(3,4) by (auto simp: in_operand_def f)
  ultimately show ?case using IH t(1,3) by (auto simp: f)
qed simp

lemma length_fat_header [simp]: "length (fat_header h m s l) = 12"
  by (simp add: fat_header_def Let_def)

lemma finish_body_code:
  assumes "finish_body code m l cs ct pts = Inr body"
  shows "take (length code) (drop 12 (ab_bytes body)) = code"
  using assms by (auto simp: finish_body_def Let_def rbind_eq_Inr pad4_def split: if_splits)

lemma assemble_emitted:
  assumes "assemble_method_body ts blocks locals r = Inr (body, r')"
  obtains e out' where "seq (map (emit_block ts) blocks) (new_emitter r) = Inr e"
    "patch_all (e_label_offsets e) (e_branch_fixups e) (e_out e) = Inr out'"
    "take (length out') (drop 12 (ab_bytes body)) = out'"
proof -
  from assms obtain e2 m l cs ct b where e2: "seq (map (emit_block ts) blocks @ [patch_branches]) (new_emitter r) = Inr e2"
    and fin: "finish_body (e_out e2) m l cs ct (e_sequence_points e2) = Inr b" "ab_bytes body = ab_bytes b"
    by (auto simp: assemble_method_body_def rbind_eq_Inr simp del: seq.simps)
  from e2 obtain e where e: "seq (map (emit_block ts) blocks) (new_emitter r) = Inr e" "patch_branches e = Inr e2"
    by (auto simp: seq_append rbind_eq_Inr simp del: seq.simps)
  from e(2) have "patch_all (e_label_offsets e) (e_branch_fixups e) (e_out e) = Inr (e_out e2)"
    by (auto simp: patch_branches_def rbind_eq_Inr)
  then show ?thesis using that [OF e(1)] fin finish_body_code by metis
qed

lemma emitter_wf_new: "emitter_wf (new_emitter r)"
  by (simp add: emitter_wf_def new_emitter_def fixups_ok_def)

text \<open>
  C12. When a body is assembled from blocks with distinct numbers, every branch operand of its code is the
  displacement to the offset of the label it names, which lies in the code or at its end; no other byte
  changes by the patching, and the label of a block is the offset at which the code of that block
  starts, that is the length of the code of the blocks before it.
\<close>

theorem branches_reach_labels:
  assumes "assemble_method_body ts blocks locals r = Inr (body, r')" "distinct (map bb_id blocks)"
  shows "\<exists>e code. seq (map (emit_block ts) blocks) (new_emitter r) = Inr e
    \<and> code = take (length (e_out e)) (drop 12 (ab_bytes body)) \<and> length code = length (e_out e)
    \<and> (\<forall>(off, l)\<in>set (e_branch_fixups e).
        \<exists>t. e_label_offsets e l = Some t \<and> unat t \<le> length code \<and> operand_reaches code off t)
    \<and> (\<forall>p<length code. \<not> in_operand (e_branch_fixups e) p \<longrightarrow> code ! p = e_out e ! p)
    \<and> (\<forall>xs b ys. blocks = xs @ b # ys \<longrightarrow>
        (\<exists>e1 t. seq (map (emit_block ts) xs) (new_emitter r) = Inr e1
          \<and> e_label_offsets e (LBlock (bb_id b)) = Some t \<and> unat t = length (e_out e1)))"
proof -
  obtain e code where e: "seq (map (emit_block ts) blocks) (new_emitter r) = Inr e"
    "patch_all (e_label_offsets e) (e_branch_fixups e) (e_out e) = Inr code"
    "take (length code) (drop 12 (ab_bytes body)) = code"
    using assemble_emitted [OF assms(1)] .
  have E: "emitter_wf e"
    "\<forall>xs b ys. blocks = xs @ b # ys \<longrightarrow>
        (\<exists>e1 t. seq (map (emit_block ts) xs) (new_emitter r) = Inr e1 \<and> block_labels e (bb_id b) = Some t \<and> unat t = length (e_out e1))"
    using emit_blocks_labels [OF e(1) emitter_wf_new assms(2)] by blast+
  have fixups: "fixups_ok (e_branch_fixups e) (length (e_out e))"
    and labels: "unat t \<le> length (e_out e)" if "e_label_offsets e l = Some t" for l t
    using E(1) that by (auto simp: emitter_wf_def)
  have F: "length code = length (e_out e)"
    "\<forall>(off, l)\<in>set (e_branch_fixups e). \<exists>t. e_label_offsets e l = Some t \<and> operand_reaches code off t"
    "\<forall>p<length (e_out e). \<not> in_operand (e_branch_fixups e) p \<longrightarrow> code ! p = e_out e ! p"
    using patch_all_facts [OF e(2)] E(1) by (auto simp: emitter_wf_def)
  have "\<exists>t. e_label_offsets e l = Some t \<and> unat t \<le> length code \<and> operand_reaches code off t"
    if "(off, l) \<in> set (e_branch_fixups e)" for off l
    using F(1,2) labels that by fastforce
  then show ?thesis
    using e(1,3) E(2) F(1,3) unfolding block_labels_def by (intro exI [of _ e] exI [of _ code]) auto
qed

definition unit_sink :: "unit token_sink" where
  "unit_sink = (let t = (\<lambda>s. Inr (token_new 0x01 1, s)) in
    \<lparr>ts_method = (\<lambda>_. t), ts_field = (\<lambda>_. t), ts_static_field = (\<lambda>_. t), ts_user_string = (\<lambda>_. t),
     ts_calli_sig = (\<lambda>_ _. t), ts_locals_sig = (\<lambda>_. t), ts_type = (\<lambda>_. t),
     ts_type_def_or_ref = (\<lambda>_ _. Inl SigResolver), ts_const_blob = (\<lambda>_. t)\<rparr>)"

definition loop_blocks :: "basic_block list" where
  "loop_blocks = [BasicBlock [RNop, RBranch 7 0 None] 3 None None, BasicBlock [RBranch 3 0 None] 7 None None]"

theorem branches_reach_labels_witness:
  "\<exists>e body. seq (map (emit_block unit_sink) loop_blocks) (new_emitter ()) = Inr e
    \<and> assemble_method_body unit_sink loop_blocks [] () = Inr (body, ())
    \<and> list_all (\<lambda>(off, l). \<exists>t. e_label_offsets e l = Some t \<and> operand_reaches (take 11 (drop 12 (ab_bytes body))) off t)
        (e_branch_fixups e)
    \<and> map snd (e_branch_fixups e) = [LBlock 7, LBlock 3]"
proof -
  note defs = loop_blocks_def emit_block_def emit_branch_def push_branch_def here_offset_def define_label_def
    push_u8_def push_bytes_def new_emitter_def
  have run: "\<exists>e. seq (map (emit_block unit_sink) loop_blocks) (new_emitter ()) = Inr e
      \<and> map snd (e_branch_fixups e) = [LBlock 7, LBlock 3] \<and> length (e_out e) = 11"
    by (simp add: defs Let_def)
  have "\<exists>body. assemble_method_body unit_sink loop_blocks [] () = Inr (body, ())"
    by (simp add: defs Let_def assemble_method_body_def patch_branches_def patch_branch_def ok_or_def overwrite_def finish_body_def)
  then obtain body where body: "assemble_method_body unit_sink loop_blocks [] () = Inr (body, ())" ..
  show ?thesis
    using branches_reach_labels [OF body] run body by (fastforce simp: list_all_iff loop_blocks_def)
qed

section \<open>Reading a body back\<close>

definition le_at :: "nat \<Rightarrow> nat \<Rightarrow> u8 list \<Rightarrow> 'a::len word" where
  "le_at n i bs = of_le (take n (drop i bs))"

fun read_clauses :: "nat \<Rightarrow> u8 list \<Rightarrow> (u32 \<times> clause_range \<times> token) list" where
  "read_clauses 0 bs = []"
| "read_clauses (Suc n) bs =
     (let ts = le_at 4 4 bs; hs = le_at 4 12 bs in
      (le_at 4 0 bs, (ts, ts + le_at 4 8 bs, hs, hs + le_at 4 16 bs), le_at 4 20 bs) # read_clauses n (drop 24 bs))"

text \<open>
  A reader of a method body in the fat format (ECMA-335 II.25.4): the header's flags and size, the code, and the
  section of exception clauses at the next multiple of four.
\<close>

definition read_body ::
  "u8 list \<Rightarrow> (u16 \<times> token \<times> u8 list \<times> (u32 \<times> clause_range \<times> token) list) option" where
  "read_body bs =
     (let flags = (le_at 2 0 bs :: u16); size = unat (le_at 4 4 bs :: u32); at = (12 + size + 3) div 4 * 4 in
      if flags AND 0x7 \<noteq> 0x3 \<or> drop_bit 12 flags \<noteq> 3 \<or> length bs < 12 + size then None
      else if flags AND 0x8 = 0 then Some (le_at 2 2 bs, le_at 4 8 bs, take size (drop 12 bs), [])
      else if take 1 (drop at bs) \<noteq> [0x41] then None
      else let sect = unat (le_at 3 (at + 1) bs :: u32) in
        if length bs < at + sect then None
        else Some (le_at 2 2 bs, le_at 4 8 bs, take size (drop 12 bs), read_clauses ((sect - 4) div 24) (drop (at + 4) bs)))"

lemma le_at_le_bytes [simp]: "LENGTH('a::len) \<le> 8 * n \<Longrightarrow> le_at n 0 (le_bytes n (w :: 'a word) @ rest) = w"
  by (simp add: le_at_def)

lemma le_at_skip [simp]: "length xs \<le> i \<Longrightarrow> le_at n i (xs @ ys) = le_at n (i - length xs) ys"
  by (simp add: le_at_def)

lemma length_eh_clause [simp]: "length (eh_clause ct c) = 24"
  by (cases c) (simp add: eh_clause_def)

lemma read_clauses_written:
  "read_clauses (length cs) (concat (map (eh_clause ct) cs) @ rest) = map (\<lambda>c. (0, c, ct)) cs"
proof (induction cs)
  case (Cons c cs)
  obtain a b h k where c: "c = (a, b, h, k)" by (cases c)
  have "read_clauses (length (c # cs)) (concat (map (eh_clause ct) (c # cs)) @ rest)
      = (0, c, ct) # read_clauses (length cs) (drop 24 (eh_clause ct c @ concat (map (eh_clause ct) cs) @ rest))"
    unfolding c by (simp add: eh_clause_def Let_def)
  then show ?case using Cons by simp
qed simp

lemma eh_section_bytes:
  assumes "4 + length cs * 24 < 2 ^ 24"
  shows "eh_section cs ct = Inr (0x41 # le_bytes 3 (word_of_nat (4 + length cs * 24) :: u32) @ concat (map (eh_clause ct) cs))"
proof -
  have "(ucast (w AND 0xFF) :: u8) = ucast w" for w :: u32
  proof -
    have ff: "(0xFF :: u32) = mask 8" by (simp add: mask_eq_exp_minus_1)
    show ?thesis unfolding ff by (rule bit_word_eqI) (auto simp: bit_simps)
  qed
  moreover have "(0x1 :: u8) OR 0x40 = 0x41" by simp
  ultimately show ?thesis
    using assms by (simp add: eh_section_def Let_def numeral_3_eq_3 drop_bit_drop_bit)
qed
lemma length_pad4 [simp]: "length (pad4 bs) = (length bs + 3) div 4 * 4"
proof -
  have "n + (4 - n mod 4) mod 4 = (n + 3) div 4 * 4" for n :: nat
  proof -
    obtain q r where n: "n = q * 4 + r" "r < 4" by (metis div_mult_mod_eq mod_less_divisor zero_less_numeral)
    have m: "n mod 4 = r" using n by simp
    from n(2) consider "r = 0" | "r = 1" | "r = 2" | "r = 3" by linarith
    then show ?thesis unfolding m by cases (simp_all add: n(1))
  qed
  then show ?thesis by (simp add: pad4_def)
qed

lemma pad4_prefix: "pad4 bs = bs @ drop (length bs) (pad4 bs)"
  by (simp add: pad4_def)

lemma read_header:
  "le_at 2 0 (fat_header h m s l @ rest) = (if h then 0x301B else 0x3013 :: u16)"
  "le_at 2 2 (fat_header h m s l @ rest) = (ucast (min m 0xFFFF) :: u16)"
  "le_at 4 4 (fat_header h m s l @ rest) = s"
  "le_at 4 8 (fat_header h m s l @ rest) = (case l of None \<Rightarrow> 0 | Some t \<Rightarrow> t)"
  by (simp_all add: fat_header_def Let_def)

text \<open>
  C15. A finished body read back by the format's rules gives the code, the local-variable signature and every
  exception clause that were written, and a stack size capped at 65535, as long as the section of clauses
  fits the 24 bits of its size field.
\<close>

theorem body_round_trip:
  assumes "finish_body code maxstack locals_tok clauses catch_type points = Inr body"
    and "4 + length clauses * 24 < 2 ^ 24"
  shows "read_body (ab_bytes body) = Some (ucast (min maxstack 0xFFFF), case locals_tok of None \<Rightarrow> 0 | Some t \<Rightarrow> t,
      code, map (\<lambda>c. (0, c, catch_type)) clauses)"
proof (cases "clauses = []")
  case True
  then have "ab_bytes body = fat_header False maxstack (word_of_nat (length code)) locals_tok @ code" "length code < 2 ^ 32"
    using assms(1) by (auto simp: finish_body_def Let_def split: if_splits)
  then show ?thesis using True
    by (simp add: read_body_def Let_def read_header word_of_nat_unat_lt)
next
  case False
  let ?h = "fat_header True maxstack (word_of_nat (length code)) locals_tok"
  let ?n = "4 + length clauses * 24"
  define pad where "pad = drop (length (?h @ code)) (pad4 (?h @ code))"
  have len: "length code < 2 ^ 32" using assms(1) by (auto simp: finish_body_def split: if_splits)
  have padded: "pad4 (?h @ code) = ?h @ code @ pad" using pad4_prefix [of "?h @ code"] by (simp add: pad_def)
  have at: "length (?h @ code @ pad) = (12 + length code + 3) div 4 * 4"
    unfolding padded [symmetric] by simp
  have bytes: "ab_bytes body = (?h @ code @ pad) @ 0x41 # le_bytes 3 (word_of_nat ?n :: u32)
      @ concat (map (eh_clause catch_type) clauses)"
    using assms False by (auto simp: finish_body_def Let_def eh_section_bytes padded split: if_splits)
  define at where "at = (12 + length code + 3) div 4 * 4"
  define W where "W = (word_of_nat ?n :: u32)"
  let ?cs = "concat (map (eh_clause catch_type) clauses)"
  have W: "unat W = ?n" unfolding W_def using assms(2) by (subst word_of_nat_unat_lt) simp_all
  have drops: "drop (at + k) (ab_bytes body) = drop k (0x41 # le_bytes 3 W @ ?cs)" for k
  proof -
    have "at = length (?h @ code @ pad)" using at by (simp only: at_def)
    then show ?thesis unfolding bytes W_def [symmetric] by (simp only: drop_append drop_drop [symmetric]) simp
  qed
  have sect: "le_at 3 (at + 1) (ab_bytes body) = W"
  proof -
    have "take_bit 24 W = W" by (rule word_unat_eq_iff [THEN iffD2]) (use W assms(2) in \<open>simp add: unsigned_take_bit_eq take_bit_nat_eq_self\<close>)
    then show ?thesis using drops [of 1] by (simp add: le_at_def of_le_bytes_take)
  qed
  have total: "at + ?n \<le> length (ab_bytes body)"
    using at unfolding at_def [symmetric] bytes
    by (simp add: length_concat comp_def sum_list_triv)
  have header: "ab_bytes body = ?h @ code @ pad @ 0x41 # le_bytes 3 W @ ?cs" using bytes by (simp add: W_def)
  have fields: "le_at 2 0 (ab_bytes body) = (0x301B :: u16)" "le_at 2 2 (ab_bytes body) = (ucast (min maxstack 0xFFFF) :: u16)"
    "unat (le_at 4 4 (ab_bytes body) :: u32) = length code"
    "le_at 4 8 (ab_bytes body) = (case locals_tok of None \<Rightarrow> 0 | Some t \<Rightarrow> t)"
    "take (length code) (drop 12 (ab_bytes body)) = code" "12 + length code \<le> length (ab_bytes body)"
    unfolding header read_header using len by (simp_all add: word_of_nat_unat_lt)
  have "take 1 (drop at (ab_bytes body)) = [0x41]" "drop (at + 4) (ab_bytes body) = ?cs"
    using drops [of 0] drops [of 4] by simp_all
  then show ?thesis
    unfolding read_body_def Let_def fields at_def [symmetric] sect
    using total fields(6) read_clauses_written [of clauses catch_type "[]"] by (simp add: W)
qed

theorem body_round_trip_witness:
  "\<exists>body. finish_body [0x00, 0x2A] 8 (Some 0x11000001) [(0, 1, 1, 2)] 0x01000002 [] = Inr body
    \<and> read_body (ab_bytes body) = Some (8, 0x11000001, [0x00, 0x2A], [(0, (0, 1, 1, 2), 0x01000002)])"
proof -
  obtain body where body: "finish_body [0x00, 0x2A] 8 (Some 0x11000001) [(0, 1, 1, 2)] 0x01000002 [] = Inr body"
    by (simp add: finish_body_def eh_section_def Let_def)
  then show ?thesis using body_round_trip [OF body] by simp
qed

end
