(* ===== verification/ControlFlow.thy ===== *)
theory ControlFlow
  imports RootOpt
begin

text \<open>
  Control flow of method bodies (\<^verbatim>\<open>cilly/src/ir/basic_block.rs\<close>, \<^verbatim>\<open>method.rs\<close>): constant branch conditions,
  the canonical form of blocks, reachable blocks and the removal of dead ones.
\<close>


section \<open>Constant branch conditions\<close>

datatype ordering = OLess | OEqual | OGreater

definition order_of :: "'a::linorder \<Rightarrow> 'a \<Rightarrow> ordering" where
  "order_of a b = (if a < b then OLess else if a = b then OEqual else OGreater)"

fun is_lt :: "ordering \<Rightarrow> bool" where "is_lt x = (x = OLess)"
fun is_gt :: "ordering \<Rightarrow> bool" where "is_gt x = (x = OGreater)"
fun is_le :: "ordering \<Rightarrow> bool" where "is_le x = (x = OLess \<or> x = OEqual)"
fun is_ge :: "ordering \<Rightarrow> bool" where "is_ge x = (x = OGreater \<or> x = OEqual)"

text \<open>
  The place of a float in the order of its type, from its bits: the magnitude with its sign, \<open>None\<close> for NaN; both zeros
  are 0. The widening of a 32-bit float keeps the order and the equalities, so its bits are compared as they are.
\<close>

definition f32_place :: "u32 \<Rightarrow> int option" where
  "f32_place w =
     (let m = uint (w AND 0x7FFFFFFF) in
      if m > 0x7F800000 then None else Some (if bit w 31 then - m else m))"

definition f64_place :: "u64 \<Rightarrow> int option" where
  "f64_place w =
     (let m = uint (w AND 0x7FFFFFFFFFFFFFFF) in
      if m > 0x7FF0000000000000 then None else Some (if bit w 63 then - m else m))"

definition partial_cmp :: "int option \<Rightarrow> int option \<Rightarrow> ordering option" where
  "partial_cmp a b = (case (a, b) of (Some x, Some y) \<Rightarrow> Some (order_of x y) | _ \<Rightarrow> None)"

fun constant_truthiness :: "cil_const \<Rightarrow> bool option" where
  "constant_truthiness (CBool b) = Some b"
| "constant_truthiness (CI8 v) = Some (v \<noteq> 0)"
| "constant_truthiness (CI16 v) = Some (v \<noteq> 0)"
| "constant_truthiness (CI32 v) = Some (v \<noteq> 0)"
| "constant_truthiness (CI64 v) = Some (v \<noteq> 0)"
| "constant_truthiness (CISize v) = Some (v \<noteq> 0)"
| "constant_truthiness (CU8 v) = Some (v \<noteq> 0)"
| "constant_truthiness (CU16 v) = Some (v \<noteq> 0)"
| "constant_truthiness (CU32 v) = Some (v \<noteq> 0)"
| "constant_truthiness (CU64 v) = Some (v \<noteq> 0)"
| "constant_truthiness (CUSize v) = Some (v \<noteq> 0)"
| "constant_truthiness _ = None"

fun same_value :: "cil_const \<Rightarrow> cil_const \<Rightarrow> bool option" where
  "same_value (CBool a) r = (case r of CBool b \<Rightarrow> Some (a = b) | _ \<Rightarrow> None)"
| "same_value (CI8 a) r = (case r of CI8 b \<Rightarrow> Some (a = b) | _ \<Rightarrow> None)"
| "same_value (CI16 a) r = (case r of CI16 b \<Rightarrow> Some (a = b) | _ \<Rightarrow> None)"
| "same_value (CI32 a) r = (case r of CI32 b \<Rightarrow> Some (a = b) | _ \<Rightarrow> None)"
| "same_value (CI64 a) r = (case r of CI64 b \<Rightarrow> Some (a = b) | _ \<Rightarrow> None)"
| "same_value (CISize a) r = (case r of CISize b \<Rightarrow> Some (a = b) | _ \<Rightarrow> None)"
| "same_value (CU8 a) r = (case r of CU8 b \<Rightarrow> Some (a = b) | _ \<Rightarrow> None)"
| "same_value (CU16 a) r = (case r of CU16 b \<Rightarrow> Some (a = b) | _ \<Rightarrow> None)"
| "same_value (CU32 a) r = (case r of CU32 b \<Rightarrow> Some (a = b) | _ \<Rightarrow> None)"
| "same_value (CU64 a) r = (case r of CU64 b \<Rightarrow> Some (a = b) | _ \<Rightarrow> None)"
| "same_value (CUSize a) r = (case r of CUSize b \<Rightarrow> Some (a = b) | _ \<Rightarrow> None)"
| "same_value (CF32 a) r =
     (case r of CF32 b \<Rightarrow> Some (partial_cmp (f32_place a) (f32_place b) = Some OEqual) | _ \<Rightarrow> None)"
| "same_value (CF64 a) r =
     (case r of CF64 b \<Rightarrow> Some (partial_cmp (f64_place a) (f64_place b) = Some OEqual) | _ \<Rightarrow> None)"
| "same_value _ r = None"

definition constant_equality :: "cil_const \<Rightarrow> cil_const \<Rightarrow> bool option" where
  "constant_equality l r = (if const_type l \<noteq> const_type r then None else same_value l r)"

fun integer_bits :: "cil_const \<Rightarrow> (u128 \<times> nat) option" where
  "integer_bits (CI8 v) = Some (ucast v, 8)"
| "integer_bits (CI16 v) = Some (ucast v, 16)"
| "integer_bits (CI32 v) = Some (ucast v, 32)"
| "integer_bits (CI64 v) = Some (ucast v, 64)"
| "integer_bits (CISize v) = Some (ucast v, 64)"
| "integer_bits (CU8 v) = Some (ucast v, 8)"
| "integer_bits (CU16 v) = Some (ucast v, 16)"
| "integer_bits (CU32 v) = Some (ucast v, 32)"
| "integer_bits (CU64 v) = Some (ucast v, 64)"
| "integer_bits (CUSize v) = Some (ucast v, 64)"
| "integer_bits _ = None"

definition signed_bits :: "u128 \<Rightarrow> nat \<Rightarrow> int" where
  "signed_bits value width = sint (signed_drop_bit (128 - width) (push_bit (128 - width) value))"

definition float_order :: "int option \<Rightarrow> int option \<Rightarrow> cmp_kind \<Rightarrow> (ordering \<Rightarrow> bool) \<Rightarrow> bool option" where
  "float_order l r kind accepts =
     (case partial_cmp l r of
        Some ord \<Rightarrow> Some (accepts ord)
      | None \<Rightarrow> Some (kind = Unordered \<or> kind = Unsigned))"

definition integer_order :: "cil_const \<Rightarrow> cil_const \<Rightarrow> cmp_kind \<Rightarrow> (ordering \<Rightarrow> bool) \<Rightarrow> bool option" where
  "integer_order l r kind accepts =
     Option.bind (integer_bits l) (\<lambda>(lb, lw).
     Option.bind (integer_bits r) (\<lambda>(rb, rw).
     if lw \<noteq> rw then None
     else Some (accepts (if kind = Signed \<or> kind = Ordered then order_of (signed_bits lb lw) (signed_bits rb rw)
                         else order_of lb rb))))"

definition constant_order :: "cil_const \<Rightarrow> cil_const \<Rightarrow> cmp_kind \<Rightarrow> (ordering \<Rightarrow> bool) \<Rightarrow> bool option" where
  "constant_order l r kind accepts =
     (if const_type l \<noteq> const_type r then None
      else case l of
        CF32 a \<Rightarrow> (case r of CF32 b \<Rightarrow> float_order (f32_place a) (f32_place b) kind accepts | _ \<Rightarrow> integer_order l r kind accepts)
      | CF64 a \<Rightarrow> (case r of CF64 b \<Rightarrow> float_order (f64_place a) (f64_place b) kind accepts | _ \<Rightarrow> integer_order l r kind accepts)
      | _ \<Rightarrow> integer_order l r kind accepts)"

fun node_const :: "cil_node \<Rightarrow> cil_const option" where
  "node_const (NConst c) = Some c"
| "node_const _ = None"

fun constant_branch_value :: "branch_cond \<Rightarrow> bool option" where
  "constant_branch_value (BCTrue v) = Option.bind (node_const v) constant_truthiness"
| "constant_branch_value (BCFalse v) = map_option HOL.Not (Option.bind (node_const v) constant_truthiness)"
| "constant_branch_value (BCEq l r) =
     Option.bind (node_const l) (\<lambda>a. Option.bind (node_const r) (constant_equality a))"
| "constant_branch_value (BCNe l r) =
     map_option HOL.Not (Option.bind (node_const l) (\<lambda>a. Option.bind (node_const r) (constant_equality a)))"
| "constant_branch_value (BCLt l r k) =
     Option.bind (node_const l) (\<lambda>a. Option.bind (node_const r) (\<lambda>b. constant_order a b k is_lt))"
| "constant_branch_value (BCGt l r k) =
     Option.bind (node_const l) (\<lambda>a. Option.bind (node_const r) (\<lambda>b. constant_order a b k is_gt))"
| "constant_branch_value (BCLe l r k) =
     Option.bind (node_const l) (\<lambda>a. Option.bind (node_const r) (\<lambda>b. constant_order a b k is_le))"
| "constant_branch_value (BCGe l r k) =
     Option.bind (node_const l) (\<lambda>a. Option.bind (node_const r) (\<lambda>b. constant_order a b k is_ge))"

section \<open>Folding agrees with the comparison instructions\<close>

text \<open>
  An evaluator that knows the constants, floats included. A comparison of 8-bit or 16-bit unsigned constants by a
  signed kind is left out: it is folded at the width of the constant, but executed on zero-extended 32-bit values.
\<close>

definition knows_consts :: "(cil_node \<Rightarrow> int sval option) \<Rightarrow> bool" where
  "knows_consts ev \<longleftrightarrow> evaluates_consts ev
     \<and> (\<forall>w. ev (NConst (CF32 w)) = Some (VF (f32_place w))) \<and> (\<forall>w. ev (NConst (CF64 w)) = Some (VF (f64_place w)))"

fun narrow_unsigned :: "cil_node \<Rightarrow> bool" where
  "narrow_unsigned (NConst (CU8 _)) = True"
| "narrow_unsigned (NConst (CU16 _)) = True"
| "narrow_unsigned _ = False"

fun narrow_signed_compare :: "branch_cond \<Rightarrow> bool" where
  "narrow_signed_compare (BCLt l r k) = (narrow_unsigned l \<and> \<not> unordered_kind k)"
| "narrow_signed_compare (BCGt l r k) = (narrow_unsigned l \<and> \<not> unordered_kind k)"
| "narrow_signed_compare (BCLe l r k) = (narrow_unsigned l \<and> \<not> unordered_kind k)"
| "narrow_signed_compare (BCGe l r k) = (narrow_unsigned l \<and> \<not> unordered_kind k)"
| "narrow_signed_compare _ = False"

lemma signed_bits_ucast:
  assumes "LENGTH('a::len) \<le> 128"
  shows "signed_bits (ucast (v :: 'a word)) LENGTH('a) = sint v"
proof -
  obtain m where m: "LENGTH('a) = Suc m" using len_not_eq_0 not0_implies_Suc by blast
  have "signed_drop_bit (128 - LENGTH('a)) (push_bit (128 - LENGTH('a)) (ucast v :: u128)) = (scast v :: u128)"
  proof (rule bit_word_eqI)
    fix n assume "n < LENGTH(128)"
    then show "bit (signed_drop_bit (128 - LENGTH('a)) (push_bit (128 - LENGTH('a)) (ucast v :: u128))) n
        = bit (scast v :: u128) n"
      using assms unfolding m
      by (cases "n < m"; cases "n = m") (auto simp: bit_simps m min_def not_less)
  qed
  then show ?thesis
    unfolding signed_bits_def using assms by (simp add: sint_up_scast is_up)
qed

lemma sint_scast_up: "LENGTH('a::len) \<le> LENGTH('b::len) \<Longrightarrow> sint (scast (v :: 'a word) :: 'b word) = sint v"
  by (rule sint_up_scast) (simp add: is_up)

lemma take_bit_signed:
  fixes x :: int
  assumes "- (2 ^ (n - 1)) \<le> x" "x < 2 ^ (n - 1)" "0 < n" "n \<le> m"
  shows "take_bit m x = (if x < 0 then x + 2 ^ m else x)"
proof -
  have p: "(2 :: int) ^ (n - 1) < 2 ^ m" using assms(3,4) by (intro power_strict_increasing) simp_all
  show ?thesis
  proof (cases "x < 0")
    case True
    then have "(x + 2 ^ m) mod 2 ^ m = x + 2 ^ m" using assms(1) p by (intro mod_pos_pos_trivial) linarith+
    then show ?thesis using True by (simp add: take_bit_eq_mod)
  next
    case False
    then have "x mod 2 ^ m = x" using assms(2) p by (intro mod_pos_pos_trivial) linarith+
    then show ?thesis using False by (simp add: take_bit_eq_mod)
  qed
qed

lemma scast_less:
  assumes "LENGTH('a::len) \<le> LENGTH('b::len)"
  shows "(scast (a :: 'a word) :: 'b word) < scast b \<longleftrightarrow> a < b"
proof -
  let ?P = "(2 :: int) ^ (LENGTH('a) - 1)"
  have range: "- ?P \<le> sint w" "sint w < ?P" for w :: "'a word" by (rule sint_ge, rule sint_lt)
  have w: "uint w = (if sint w < 0 then sint w + 2 ^ LENGTH('a) else sint w)"
    "uint (scast w :: 'b word) = (if sint w < 0 then sint w + 2 ^ LENGTH('b) else sint w)" for w :: "'a word"
    using take_bit_signed [OF range(1) [of w] range(2) [of w], of "LENGTH('a)"]
      take_bit_signed [OF range(1) [of w] range(2) [of w], of "LENGTH('b)"] assms
    by (simp_all add: uint_scast_word uint_take_bit_sint)
  have "(2 :: int) ^ LENGTH('a) = 2 * ?P" by (simp flip: power_Suc)
  moreover have "(2 :: int) ^ LENGTH('a) \<le> 2 ^ LENGTH('b)" using assms by (simp add: power_increasing)
  ultimately show ?thesis
    unfolding word_less_def w using range [of a] range [of b] by (cases "sint a < 0"; cases "sint b < 0") simp_all
qed

lemma ucast_less: "LENGTH('a::len) \<le> LENGTH('b::len) \<Longrightarrow> (ucast (a :: 'a word) :: 'b word) < ucast b \<longleftrightarrow> a < b"
  by (simp add: word_less_def uint_up_ucast is_up)

lemma ucast_inj_up: "LENGTH('a::len) \<le> LENGTH('b::len) \<Longrightarrow> (ucast (a :: 'a word) :: 'b word) = ucast b \<longleftrightarrow> a = b"
  by (metis ucast_up_ucast_id is_up)

lemma const_type_eq:
  "TInt I8 = const_type c \<longleftrightarrow> (\<exists>v. c = CI8 v)" "TInt I16 = const_type c \<longleftrightarrow> (\<exists>v. c = CI16 v)"
  "TInt I32 = const_type c \<longleftrightarrow> (\<exists>v. c = CI32 v)" "TInt I64 = const_type c \<longleftrightarrow> (\<exists>v. c = CI64 v)"
  "TInt ISize = const_type c \<longleftrightarrow> (\<exists>v. c = CISize v)" "TInt U8 = const_type c \<longleftrightarrow> (\<exists>v. c = CU8 v)"
  "TInt U16 = const_type c \<longleftrightarrow> (\<exists>v. c = CU16 v)" "TInt U32 = const_type c \<longleftrightarrow> (\<exists>v. c = CU32 v)"
  "TInt U64 = const_type c \<longleftrightarrow> (\<exists>v. c = CU64 v)" "TInt USize = const_type c \<longleftrightarrow> (\<exists>v. c = CUSize v)"
  "TFloat F32 = const_type c \<longleftrightarrow> (\<exists>v. c = CF32 v)" "TFloat F64 = const_type c \<longleftrightarrow> (\<exists>v. c = CF64 v)"
  by (cases c; simp)+

lemma const_ev:
  assumes "knows_consts ev"
  shows "ev (NConst (CF32 w)) = Some (VF (f32_place w))" "ev (NConst (CF64 v)) = Some (VF (f64_place v))"
    "const_val c = Some x \<Longrightarrow> ev (NConst c) = Some x"
  using assms by (auto simp: knows_consts_def evaluates_consts_def)

text \<open>What a comparison decides, with the order of the two constants.\<close>

definition ordered_by :: "cmp_kind \<Rightarrow> int sval \<Rightarrow> int sval \<Rightarrow> ordering \<Rightarrow> bool" where
  "ordered_by k a b ord \<longleftrightarrow>
     lt_branch k a b = Some (is_lt ord) \<and> lt_branch k b a = Some (is_gt ord)
     \<and> ge_branch k a b = Some (is_ge ord) \<and> ge_branch k b a = Some (is_le ord)"

lemma ordered_by_int:
  "ordered_by k (VI32 a) (VI32 b) (if k = Signed \<or> k = Ordered then order_of (sint a) (sint b) else order_of a b)"
  "ordered_by k (VI64 a') (VI64 b') (if k = Signed \<or> k = Ordered then order_of (sint a') (sint b') else order_of a' b')"
  by (cases k; auto simp: ordered_by_def order_of_def word_sless_alt)+

lemma ordered_by_float:
  assumes "partial_cmp a b = Some ord"
  shows "ordered_by k (VF a) (VF b) ord"
  using assms by (auto simp: ordered_by_def partial_cmp_def order_of_def split: option.splits if_splits)

lemma signed_bits_const:
  "signed_bits (ucast (v8 :: u8)) 8 = sint v8" "signed_bits (ucast (v16 :: u16)) 16 = sint v16"
  "signed_bits (ucast (v32 :: u32)) 32 = sint v32" "signed_bits (ucast (v64 :: u64)) 64 = sint v64"
  using signed_bits_ucast [of v8] signed_bits_ucast [of v16] signed_bits_ucast [of v32] signed_bits_ucast [of v64] by simp_all

lemma order_of_ucast: "LENGTH('a::len) \<le> LENGTH('b::len) \<Longrightarrow> order_of (ucast (a :: 'a word) :: 'b word) (ucast b) = order_of a b"
  by (simp add: order_of_def ucast_less ucast_inj_up)

lemma order_of_scast: "LENGTH('a::len) \<le> LENGTH('b::len) \<Longrightarrow> order_of (scast (a :: 'a word) :: 'b word) (scast b) = order_of a b"
  by (simp add: order_of_def scast_less) (metis scast_less less_irrefl not_less_iff_gr_or_eq)

lemma integer_order_sound:
  assumes "integer_order l r k accepts = Some x" "const_type l = const_type r"
    and "\<not> (narrow_unsigned (NConst l) \<and> \<not> unordered_kind k)"
  shows "\<exists>a b ord. const_val l = Some a \<and> const_val r = Some b \<and> x = accepts ord \<and> ordered_by k a b ord"
proof -
  note simps = integer_order_def const_type_eq signed_bits_const order_of_ucast order_of_scast sint_scast_up
  have k: "unordered_kind k \<longleftrightarrow> \<not> (k = Signed \<or> k = Ordered)" by (cases k) simp_all
  show ?thesis
  proof (cases l)
    case (CI8 a)
    then obtain b where "r = CI8 b" using assms(2) by (auto simp: simps)
    then show ?thesis using assms(1) CI8 ordered_by_int(1) [of k "scast a" "scast b"] by (cases "k = Signed \<or> k = Ordered") (auto simp: simps)
  next
    case (CI16 a)
    then obtain b where "r = CI16 b" using assms(2) by (auto simp: simps)
    then show ?thesis using assms(1) CI16 ordered_by_int(1) [of k "scast a" "scast b"] by (cases "k = Signed \<or> k = Ordered") (auto simp: simps)
  next
    case (CU8 a)
    then obtain b where "r = CU8 b" using assms(2) by (auto simp: simps)
    then show ?thesis using assms(1,3) CU8 ordered_by_int(1) [of k "ucast a" "ucast b"] by (cases "k = Signed \<or> k = Ordered") (auto simp: simps k)
  next
    case (CU16 a)
    then obtain b where "r = CU16 b" using assms(2) by (auto simp: simps)
    then show ?thesis using assms(1,3) CU16 ordered_by_int(1) [of k "ucast a" "ucast b"] by (cases "k = Signed \<or> k = Ordered") (auto simp: simps k)
  next
    case (CI32 a)
    then obtain b where "r = CI32 b" using assms(2) by (auto simp: simps)
    then show ?thesis using assms(1) CI32 ordered_by_int(1) [of k a b] by (cases "k = Signed \<or> k = Ordered") (auto simp: simps)
  next
    case (CU32 a)
    then obtain b where "r = CU32 b" using assms(2) by (auto simp: simps)
    then show ?thesis using assms(1) CU32 ordered_by_int(1) [of k a b] by (cases "k = Signed \<or> k = Ordered") (auto simp: simps)
  next
    case (CI64 a)
    then obtain b where "r = CI64 b" using assms(2) by (auto simp: simps)
    then show ?thesis using assms(1) CI64 ordered_by_int(2) [of k a b] by (cases "k = Signed \<or> k = Ordered") (auto simp: simps)
  next
    case (CISize a)
    then obtain b where "r = CISize b" using assms(2) by (auto simp: simps)
    then show ?thesis using assms(1) CISize ordered_by_int(2) [of k a b] by (cases "k = Signed \<or> k = Ordered") (auto simp: simps)
  next
    case (CU64 a)
    then obtain b where "r = CU64 b" using assms(2) by (auto simp: simps)
    then show ?thesis using assms(1) CU64 ordered_by_int(2) [of k a b] by (cases "k = Signed \<or> k = Ordered") (auto simp: simps)
  next
    case (CUSize a)
    then obtain b where "r = CUSize b" using assms(2) by (auto simp: simps)
    then show ?thesis using assms(1) CUSize ordered_by_int(2) [of k a b] by (cases "k = Signed \<or> k = Ordered") (auto simp: simps)
  qed (use assms(1) in \<open>simp_all add: integer_order_def\<close>)
qed

lemma float_order_sound:
  assumes "float_order a b k accepts = Some x" and "accepts \<in> {is_lt, is_gt, is_le, is_ge}"
  shows "accepts = is_lt \<and> lt_branch k (VF a) (VF b) = Some x \<or> accepts = is_gt \<and> lt_branch k (VF b) (VF a) = Some x
    \<or> accepts = is_le \<and> ge_branch k (VF b) (VF a) = Some x \<or> accepts = is_ge \<and> ge_branch k (VF a) (VF b) = Some x"
proof (cases "partial_cmp a b")
  case None
  then have n: "a = None \<or> b = None" by (auto simp: partial_cmp_def split: option.splits)
  have x: "x = (k = Unordered \<or> k = Unsigned)" using assms(1) None by (simp add: float_order_def)
  have "lt_branch k (VF a) (VF b) = Some x" "lt_branch k (VF b) (VF a) = Some x"
    "ge_branch k (VF a) (VF b) = Some x" "ge_branch k (VF b) (VF a) = Some x"
    unfolding x using n by (cases k; cases a; cases b; simp)+
  then show ?thesis using assms(2) by blast
next
  case (Some ord)
  have x: "x = accepts ord" using assms(1) Some by (simp add: float_order_def)
  show ?thesis using assms(2) by (elim insertE emptyE) (use ordered_by_float [OF Some, of k, unfolded ordered_by_def] in \<open>simp_all add: x\<close>)
qed

lemma constant_order_sound:
  assumes "knows_consts ev" "constant_order l r k accepts = Some x"
    and "\<not> (narrow_unsigned (NConst l) \<and> \<not> unordered_kind k)"
  obtains (int) a b ord where "ev (NConst l) = Some a" "ev (NConst r) = Some b" "x = accepts ord" "ordered_by k a b ord"
    | (float) a b where "ev (NConst l) = Some (VF a)" "ev (NConst r) = Some (VF b)" "float_order a b k accepts = Some x"
proof -
  have ty: "const_type l = const_type r" using assms(2) by (auto simp: constant_order_def split: if_splits)
  show ?thesis
  proof (cases "const_type l \<in> {TFloat F32, TFloat F64}")
    case True
    then show ?thesis using assms(1,2) ty float
      by (cases l; cases r) (auto simp: constant_order_def const_ev)
  next
    case False
    then have "integer_order l r k accepts = Some x" using assms(2) ty by (auto simp: constant_order_def split: cil_const.splits)
    then show ?thesis using integer_order_sound [OF _ ty assms(3)] int const_ev(3) [OF assms(1)] by blast
  qed
qed

lemma scast_inj_up: "LENGTH('a::len) \<le> LENGTH('b::len) \<Longrightarrow> (scast (a :: 'a word) :: 'b word) = scast b \<longleftrightarrow> a = b"
  by (metis sint_scast_up signed_word_eqI)

lemma cast_zero_iff:
  "LENGTH('a::len) \<le> LENGTH('b::len) \<Longrightarrow> (scast (a :: 'a word) :: 'b word) = 0 \<longleftrightarrow> a = 0"
  "LENGTH('a::len) \<le> LENGTH('b::len) \<Longrightarrow> (ucast (a :: 'a word) :: 'b word) = 0 \<longleftrightarrow> a = 0"
  using scast_inj_up [of a 0, where 'b = 'b] ucast_inj_up [of a 0, where 'b = 'b] by simp_all

lemma constant_equality_sound:
  assumes "knows_consts ev" "constant_equality l r = Some x"
  shows "ev2 ev ceq (NConst l) (NConst r) = Some x"
proof -
  have "const_type l = const_type r" "same_value l r = Some x"
    using assms(2) by (auto simp: constant_equality_def split: if_splits)
  then show ?thesis
    by (cases l; cases r)
      (auto simp: ev2_def const_ev [OF assms(1)] ucast_inj_up scast_inj_up partial_cmp_def order_of_def
         split: option.splits if_splits)
qed

lemma constant_branch_value_sound:
  assumes "knows_consts ev" "constant_branch_value c = Some x" "\<not> narrow_signed_compare c"
  shows "cond_taken ev c = Some x"
proof -
  have truth: "Option.bind (ev n) truth = Some y" if "Option.bind (node_const n) constant_truthiness = Some y" for n y
    using that by (cases n; cases "the (node_const n)") (auto simp: const_ev [OF assms(1)] cast_zero_iff)
  have eq: "ev2 ev ceq l r = Some y"
    if "Option.bind (node_const l) (\<lambda>a. Option.bind (node_const r) (constant_equality a)) = Some y" for l r y
    using that constant_equality_sound [OF assms(1)] by (cases l; cases r) auto
  have ord: "accepts = is_lt \<and> ev2 ev (lt_branch k) l r = Some y \<or> accepts = is_gt \<and> ev2 ev (\<lambda>a b. lt_branch k b a) l r = Some y
    \<or> accepts = is_le \<and> ev2 ev (\<lambda>a b. ge_branch k b a) l r = Some y \<or> accepts = is_ge \<and> ev2 ev (ge_branch k) l r = Some y"
    if "Option.bind (node_const l) (\<lambda>a. Option.bind (node_const r) (\<lambda>b. constant_order a b k accepts)) = Some y"
      "\<not> (narrow_unsigned l \<and> \<not> unordered_kind k)" "accepts \<in> {is_lt, is_gt, is_le, is_ge}" for l r k y accepts
  proof -
    from that(1) obtain a b where n: "l = NConst a" "r = NConst b" and o: "constant_order a b k accepts = Some y"
      by (cases l; cases r) auto
    show ?thesis
    proof (cases rule: constant_order_sound [OF assms(1) o that(2) [unfolded n]])
      case (1 v w ord)
      then show ?thesis using that(3) unfolding n by (auto simp: ev2_def ordered_by_def)
    next
      case (2 v w)
      then show ?thesis using float_order_sound [OF 2(3) that(3)] unfolding n by (auto simp: ev2_def)
    qed
  qed
  have distinct: "is_lt \<noteq> is_gt" "is_lt \<noteq> is_le" "is_lt \<noteq> is_ge" "is_gt \<noteq> is_le" "is_gt \<noteq> is_ge" "is_le \<noteq> is_ge"
    by (auto simp: fun_eq_iff)
  show ?thesis
  proof (cases c)
    case (BCLt l r k) then show ?thesis using ord [of l r k is_lt x] assms(2,3) distinct by simp
  next
    case (BCGt l r k) then show ?thesis using ord [of l r k is_gt x] assms(2,3) distinct by simp
  next
    case (BCLe l r k) then show ?thesis using ord [of l r k is_le x] assms(2,3) distinct by simp
  next
    case (BCGe l r k) then show ?thesis using ord [of l r k is_ge x] assms(2,3) distinct by simp
  qed (use assms(2) truth eq in auto)
qed

lemma narrow_compare_folds_wrong:
  "constant_branch_value (BCLt (NConst (CU8 200)) (NConst (CU8 100)) Ordered) = Some True
   \<and> (knows_consts ev \<longrightarrow> cond_taken ev (BCLt (NConst (CU8 200)) (NConst (CU8 100)) Ordered) = Some False)"
  by (auto simp: constant_order_def integer_order_def signed_bits_def order_of_def ev2_def const_ev word_sless_alt)

section \<open>Canonical blocks\<close>

fun ends_block :: "cil_root \<Rightarrow> bool" where
  "ends_block (RRet _) = True"
| "ends_block RVoidRet = True"
| "ends_block (RThrow _) = True"
| "ends_block RReThrow = True"
| "ends_block (RUnreachable _) = True"
| "ends_block _ = False"

fun canonical_branch :: "u32 \<Rightarrow> u32 \<Rightarrow> branch_cond option \<Rightarrow> cil_root list \<times> bool" where
  "canonical_branch t u c =
     (case Option.bind c constant_branch_value of
        Some False \<Rightarrow> ([], False)
      | Some True \<Rightarrow> ([RBranch t u None], True)
      | None \<Rightarrow> ([RBranch t u c], c = None))"

text \<open>The second component says whether the loop stops.\<close>

fun canonical_root :: "cil_root \<Rightarrow> cil_root list \<times> bool" where
  "canonical_root (RBranch t u c) = canonical_branch t u c"
| "canonical_root r = ([r], ends_block r)"

fun canonical_roots :: "cil_root list \<Rightarrow> cil_root list" where
  "canonical_roots [] = []"
| "canonical_roots (r # rs) = (let (kept, stop) = canonical_root r in kept @ (if stop then [] else canonical_roots rs))"

fun is_exit_region :: "cil_root \<Rightarrow> bool" where
  "is_exit_region (RExitSpecialRegion _ _) = True"
| "is_exit_region _ = False"

fun canonicalize_control_flow :: "basic_block \<Rightarrow> basic_block" where
  "canonicalize_control_flow (BasicBlock rs i h hi) =
     BasicBlock (if list_ex is_exit_region rs then rs else canonical_roots rs) i
       (map_option (map canonicalize_control_flow) h) hi"









section \<open>Reachable blocks\<close>



text \<open>The map by number, in which a later block replaces an earlier one of the same number.\<close>

definition block_by_id :: "basic_block list \<Rightarrow> u32 \<rightharpoonup> basic_block" where
  "block_by_id blocks = map_of (rev (map (\<lambda>b. (bb_id b, b)) blocks))"


lemma finite_dom_block_by_id [simp]: "finite (dom (block_by_id blocks))"
  by (simp add: block_by_id_def finite_dom_map_of)











section \<open>The worklist computes reachability\<close>






section \<open>Executing a body with exception regions\<close>

text \<open>
  The numbers of the code's blocks are the program counters: a jump goes to a block of the same half of the body, an
  exception in a protected normal block goes to the entry of its handler, and any other leaves the method.
  A run takes the given number of blocks at most; \<open>None\<close> is a run that has not ended by then.
\<close>

datatype ('x, 's) stop = Unwinds 'x 's | Returns 'x 's | FallsOff 's | NoBlock u32 's


















lemma bb_id_canonicalize [simp]: "bb_id (canonicalize_control_flow b) = bb_id b"
  by (cases b) simp







text \<open>A machine without state that knows the constants, and a body with a dead block, a dead cleanup block and a dead region.\<close>

fun known_ev :: "cil_node \<Rightarrow> int sval option" where
  "known_ev (NConst (CF32 w)) = Some (VF (f32_place w))"
| "known_ev (NConst (CF64 w)) = Some (VF (f64_place w))"
| "known_ev (NConst c) = const_val c"
| "known_ev _ = None"


lemma knows_known_ev: "knows_consts known_ev"
proof -
  have "known_ev (NConst c) = Some v" if "const_val c = Some v" for c v using that by (cases c) simp_all
  then show ?thesis by (simp add: knows_consts_def evaluates_consts_def)
qed




definition narrow_compare :: branch_cond where
  "narrow_compare = BCLt (NConst (CU8 200)) (NConst (CU8 100)) Ordered"

text \<open>
  C14. A branch on constants is folded the way the comparison instructions decide it, for every integer width, either
  order and NaN included, except when 8-bit or 16-bit unsigned constants are compared by a signed kind: the
  folder then takes them as signed numbers of their width, while the instruction compares zero-extended values.
\<close>

theorem constant_branches_fold:
  assumes "knows_consts ev"
  shows "(constant_branch_value c = Some x \<and> \<not> narrow_signed_compare c \<longrightarrow> cond_taken ev c = Some x)
    \<and> constant_branch_value narrow_compare = Some True \<and> cond_taken ev narrow_compare = Some False"
  using constant_branch_value_sound [OF assms] narrow_compare_folds_wrong [of ev] assms
  unfolding narrow_compare_def by blast

theorem constant_branches_fold_witness:
  "cond_taken known_ev (BCGe (NConst (CF32 0x80000000)) (NConst (CF32 0)) Ordered) = Some True
   \<and> cond_taken known_ev narrow_compare = Some False"
  using constant_branches_fold [OF knows_known_ev, of "BCGe (NConst (CF32 0x80000000)) (NConst (CF32 0)) Ordered" True]
  by (simp add: constant_order_def float_order_def partial_cmp_def f32_place_def order_of_def)

end
