(* ===== verification/Regions.thy ===== *)
theory Regions
  imports BodyEmit ControlFlow
begin

text \<open>
  Exception regions (\<^verbatim>\<open>cilly/src/ir/basic_block.rs\<close>, \<^verbatim>\<open>method.rs\<close>): the verifier of region bodies, their
  materialization into blocks with handlers and launching pads, the spilling of caught exceptions, and the composition with
  the emitter of \<open>BodyEmit\<close>. A panic is an \<open>Inl\<close>.
\<close>


section \<open>Materializing exception regions\<close>

datatype region_panic =
    InnerHandler
  | SubBlock
  | NoSuchBlock u32
  | AlreadyMaterialized
  | TwoRegions u32
  | ProtectedMissing
  | EmptyHandler

fun branch_target :: "cil_root \<Rightarrow> (u32 \<times> u32) option" where
  "branch_target (RBranch t u _) = Some (t, u)"
| "branch_target _ = None"

definition targets_with_sub :: "basic_block \<Rightarrow> (u32 \<times> u32) list" where
  "targets_with_sub b = List.map_filter branch_target (bb_roots b)"

fun fix_branches :: "u32 \<Rightarrow> cil_root list \<Rightarrow> (region_panic, cil_root list) result" where
  "fix_branches i [] = Inr []"
| "fix_branches i (RBranch t u c # rs) =
     (if u \<noteq> 0 then Inl InnerHandler else rbind (fix_branches i rs) (\<lambda>rs. Inr (RBranch i t c # rs)))"
| "fix_branches i (r # rs) = rbind (fix_branches i rs) (\<lambda>rs. Inr (r # rs))"

fun fix_for_exception_handler :: "u32 \<Rightarrow> basic_block \<Rightarrow> (region_panic, basic_block) result" where
  "fix_for_exception_handler i (BasicBlock rs b h hi) =
     rbind (fix_branches i rs) (\<lambda>rs. Inr (BasicBlock rs b h hi))"

definition find_bb :: "u32 \<Rightarrow> basic_block list \<Rightarrow> (region_panic, basic_block) result" where
  "find_bb i bbs = ok_or (find (\<lambda>b. bb_id b = i) bbs) (NoSuchBlock i)"

text \<open>
  One round of the collector: the targets of the blocks of the round, with the assertion on each. The code visits
  a hash set; its order matters for nothing but which of several panics comes first.
\<close>

fun gc_targets :: "basic_block list \<Rightarrow> u32 list \<Rightarrow> (region_panic, u32 list) result" where
  "gc_targets bbs [] = Inr []"
| "gc_targets bbs (i # is) =
     rbind (find_bb i bbs) (\<lambda>b.
     if list_ex (\<lambda>(t, u). u \<noteq> 0) (targets_with_sub b) then Inl SubBlock
     else rbind (gc_targets bbs is) (\<lambda>ts. Inr (map fst (targets_with_sub b) @ ts)))"

lemma gc_targets_found: "gc_targets bbs is = Inr ts \<Longrightarrow> set is \<subseteq> bb_id ` set bbs"
proof (induction bbs "is" arbitrary: ts rule: gc_targets.induct)
  case (2 bbs i "is")
  then show ?case
    by (auto simp: rbind_eq_Inr find_bb_def ok_or_def find_Some_iff split: option.splits if_splits)
qed simp

function gc_loop :: "basic_block list \<Rightarrow> u32 set \<Rightarrow> u32 list \<Rightarrow> u32 list \<Rightarrow> (region_panic, u32 set) result" where
  "gc_loop bbs alive resurrecting to_resurrect =
     (let alive = alive \<union> set resurrecting in
      if to_resurrect = [] then Inr alive
      else case gc_targets bbs to_resurrect of
        Inl p \<Rightarrow> Inl p
      | Inr ts \<Rightarrow> gc_loop bbs alive to_resurrect
          (remdups (filter (\<lambda>t. t \<notin> alive \<and> t \<notin> set to_resurrect) ts)))"
  by pat_completeness auto

termination
proof (relation "measures [\<lambda>(bbs, alive, res, to_res). card (bb_id ` set bbs - (alive \<union> set res)),
    \<lambda>(bbs, alive, res, to_res). if to_res \<noteq> [] \<and> set to_res \<subseteq> alive \<union> set res then 1 else 0]", goal_cases)
  case (2 bbs alive res to_res al ts)
  show ?case
  proof (cases "set to_res \<subseteq> alive \<union> set res")
    case True
    then have "bb_id ` set bbs - (alive \<union> set res \<union> set to_res) = bb_id ` set bbs - (alive \<union> set res)" by auto
    moreover have "\<not> (filter (\<lambda>t. t \<notin> al \<and> t \<notin> set to_res) ts \<noteq> []
        \<and> set (filter (\<lambda>t. t \<notin> al \<and> t \<notin> set to_res) ts) \<subseteq> al \<union> set to_res)"
      by (auto simp: filter_empty_conv)
    ultimately show ?thesis using 2 True by auto
  next
    case False
    then have "card (bb_id ` set bbs - (alive \<union> set res \<union> set to_res)) < card (bb_id ` set bbs - (alive \<union> set res))"
      using gc_targets_found [OF 2(3)] by (intro psubset_card_mono) auto
    then show ?thesis using 2 by simp
  qed
qed simp

declare gc_loop.simps [simp del]

definition block_gc :: "u32 \<Rightarrow> basic_block list \<Rightarrow> (region_panic, basic_block list) result" where
  "block_gc entry bbs =
     rbind (gc_loop bbs {} [] [entry]) (\<lambda>alive. Inr (filter (\<lambda>b. bb_id b \<in> alive) bbs))"

fun ends_with_transfer :: "cil_root list \<Rightarrow> bool" where
  "ends_with_transfer roots =
     (roots \<noteq> [] \<and> (case last roots of
        RReThrow \<Rightarrow> True | RThrow _ \<Rightarrow> True | RRet _ \<Rightarrow> True | RVoidRet \<Rightarrow> True | RUnreachable _ \<Rightarrow> True
      | RExitSpecialRegion _ _ \<Rightarrow> True
      | RBranch _ _ c \<Rightarrow> c = None
      | _ \<Rightarrow> False))"

definition push_root :: "basic_block \<Rightarrow> cil_root \<Rightarrow> basic_block" where
  "push_root b r = BasicBlock (bb_roots b @ [r]) (bb_id b) (bb_handler b) (bb_handler_id b)"

definition end_terminal :: "basic_block \<Rightarrow> basic_block" where
  "end_terminal b = (if ends_with_transfer (meaningfull_roots b) then b else push_root b RReThrow)"

text \<open>
  \<open>order\<close> is the order in which the hash set of the branch targets of the protected block is visited, so that of its
  launching pads.
\<close>

definition resolve_exception_handler ::
  "((u32 \<times> u32) list \<Rightarrow> (u32 \<times> u32) list) \<Rightarrow> u32 \<Rightarrow> basic_block list \<Rightarrow> basic_block \<Rightarrow> (region_panic, basic_block) result" where
  "resolve_exception_handler order handler_id handler_bbs b =
     (if bb_handler b \<noteq> None then Inl AlreadyMaterialized
      else rbind (block_gc handler_id handler_bbs) (\<lambda>handler.
      rbind (rmap (fix_for_exception_handler (bb_id b)) handler) (\<lambda>handler.
      let handler = BasicBlock [RBranch (bb_id b) handler_id None] (- 1) None None # handler;
          targets = order (targets_with_sub b) in
      if list_ex (\<lambda>(t, u). u \<noteq> 0) targets then Inl InnerHandler
      else rbind (fix_branches (bb_id b) (bb_roots b @ map (\<lambda>(t, u). RExitSpecialRegion t (bb_id b)) targets)) (\<lambda>roots.
      Inr (BasicBlock roots (bb_id b) (Some (butlast handler @ [end_terminal (last handler)])) None)))))"

fun insert_regions :: "exception_region list \<Rightarrow> (u32 \<times> u32) list \<Rightarrow> (region_panic, (u32 \<times> u32) list) result" where
  "insert_regions [] by_protected = Inr by_protected"
| "insert_regions (r # rs) by_protected =
     (if map_of by_protected (er_protected r) \<noteq> None then Inl (TwoRegions (er_protected r))
      else insert_regions rs ((er_protected r, er_handler_entry r) # by_protected))"

text \<open>The blocks in turn; the table of regions loses the entry of every block it protects.\<close>

fun materialize_blocks ::
  "((u32 \<times> u32) list \<Rightarrow> (u32 \<times> u32) list) \<Rightarrow> basic_block list \<Rightarrow> (u32 \<times> u32) list \<Rightarrow> basic_block list
     \<Rightarrow> (region_panic, basic_block list \<times> (u32 \<times> u32) list) result" where
  "materialize_blocks order cleanup by_protected [] = Inr ([], by_protected)"
| "materialize_blocks order cleanup by_protected (b # bs) =
     (case map_of by_protected (bb_id b) of
        None \<Rightarrow> rbind (materialize_blocks order cleanup by_protected bs) (\<lambda>(bs, left). Inr (b # bs, left))
      | Some entry \<Rightarrow>
          rbind (resolve_exception_handler order entry cleanup b) (\<lambda>b.
          rbind (materialize_blocks order cleanup (filter (\<lambda>(p, _). p \<noteq> bb_id b) by_protected) bs) (\<lambda>(bs, left).
          Inr (b # bs, left))))"

section \<open>Caught exceptions\<close>

fun load_caught :: "u32 \<Rightarrow> unit node_map" where
  "load_caught l n s = ((case n of NGetException \<Rightarrow> NLdLoc l | _ \<Rightarrow> n), s)"

definition replace_caught :: "u32 \<Rightarrow> cil_root \<Rightarrow> cil_root" where
  "replace_caught l r = fst (map_root (\<lambda>r s. (r, s)) (load_caught l) r ())"

definition capture_exception :: "u32 \<Rightarrow> basic_block \<Rightarrow> basic_block" where
  "capture_exception l b = BasicBlock (RStLoc l NGetException # bb_roots b) (bb_id b) (bb_handler b) (bb_handler_id b)"

fun spill_handler :: "u32 \<Rightarrow> basic_block list \<Rightarrow> (region_panic, basic_block list) result" where
  "spill_handler l handler =
     (if \<not> uses_get_exception handler then Inr handler
      else case map (map_block_roots (replace_caught l)) handler of
        [] \<Rightarrow> Inl EmptyHandler
      | h # hs \<Rightarrow> Inr (capture_exception l h # hs))"

fun spill_block :: "u32 \<Rightarrow> basic_block \<Rightarrow> (region_panic, basic_block) result" where
  "spill_block l (BasicBlock rs i None hi) = Inr (BasicBlock rs i None hi)"
| "spill_block l (BasicBlock rs i (Some h) hi) =
     rbind (spill_handler l h) (\<lambda>h. Inr (BasicBlock rs i (Some h) hi))"

definition spill_caught_exceptions ::
  "basic_block list \<Rightarrow> local_def list \<Rightarrow> (region_panic, basic_block list \<times> local_def list) result" where
  "spill_caught_exceptions blocks locals =
     (if \<not> list_ex (\<lambda>b. case bb_handler b of Some h \<Rightarrow> uses_get_exception h | None \<Rightarrow> False) blocks then Inr (blocks, locals)
      else rbind (rmap (spill_block (word_of_nat (length locals))) blocks) (\<lambda>blocks.
        Inr (blocks, locals @ [(None, TClassRef (bcl_class ''System.Exception''))])))"

text \<open>\<open>Inr None\<close> is the code's \<^verbatim>\<open>None\<close> for a method without a body of its own.\<close>

fun materialize_legacy_body ::
  "((u32 \<times> u32) list \<Rightarrow> (u32 \<times> u32) list) \<Rightarrow> method_impl
     \<Rightarrow> (region_panic, (basic_block list \<times> local_def list) option) result" where
  "materialize_legacy_body order (MethodBody blocks locals) = map_sum id Some (spill_caught_exceptions blocks locals)"
| "materialize_legacy_body order (RegionBody blocks cleanup regions locals) =
     rbind (insert_regions regions []) (\<lambda>by_protected.
     rbind (materialize_blocks order cleanup by_protected blocks) (\<lambda>(blocks, left).
     if left \<noteq> [] then Inl ProtectedMissing
     else map_sum id Some (spill_caught_exceptions blocks locals)))"
| "materialize_legacy_body order _ = Inr None"

section \<open>Verifying exception regions\<close>

datatype region_error =
    DuplicateIds
  | OverlappingIds
  | ProtectsMissing u32
  | MissingEntry u32
  | MultipleRegions u32
  | LegacyHandler bool u32
  | LegacySubtarget u32 u32
  | CrossesPartition bool u32 u32
  | LegacyExit u32

fun check_regions :: "u32 set \<Rightarrow> u32 set \<Rightarrow> u32 set \<Rightarrow> exception_region list \<Rightarrow> (region_error, unit) result" where
  "check_regions normal_ids cleanup_ids protected [] = Inr ()"
| "check_regions normal_ids cleanup_ids protected (r # rs) =
     (if er_protected r \<notin> normal_ids then Inl (ProtectsMissing (er_protected r))
      else if er_handler_entry r \<notin> cleanup_ids then Inl (MissingEntry (er_handler_entry r))
      else if er_protected r \<in> protected then Inl (MultipleRegions (er_protected r))
      else check_regions normal_ids cleanup_ids (insert (er_protected r) protected) rs)"

fun check_targets :: "bool \<Rightarrow> u32 \<Rightarrow> u32 set \<Rightarrow> (u32 \<times> u32) list \<Rightarrow> (region_error, unit) result" where
  "check_targets is_cleanup i ids [] = Inr ()"
| "check_targets is_cleanup i ids ((t, u) # ts) =
     (if u \<noteq> 0 then Inl (LegacySubtarget i u)
      else if t \<notin> ids then Inl (CrossesPartition is_cleanup i t)
      else check_targets is_cleanup i ids ts)"

definition check_block :: "bool \<Rightarrow> u32 set \<Rightarrow> basic_block \<Rightarrow> (region_error, unit) result" where
  "check_block is_cleanup ids b =
     (if bb_handler b \<noteq> None \<or> bb_handler_id b \<noteq> None then Inl (LegacyHandler is_cleanup (bb_id b))
      else rbind (check_targets is_cleanup (bb_id b) ids (targets_with_sub b)) (\<lambda>_.
      if list_ex is_exit_region (bb_roots b) then Inl (LegacyExit (bb_id b)) else Inr ()))"

fun check_blocks :: "bool \<Rightarrow> u32 set \<Rightarrow> basic_block list \<Rightarrow> (region_error, unit) result" where
  "check_blocks is_cleanup ids [] = Inr ()"
| "check_blocks is_cleanup ids (b # bs) = rbind (check_block is_cleanup ids b) (\<lambda>_. check_blocks is_cleanup ids bs)"

fun verify_exception_regions :: "method_impl \<Rightarrow> (region_error, unit) result" where
  "verify_exception_regions (RegionBody blocks cleanup regions locals) =
     (let normal_ids = bb_id ` set blocks; cleanup_ids = bb_id ` set cleanup in
      if card normal_ids \<noteq> length blocks \<or> card cleanup_ids \<noteq> length cleanup then Inl DuplicateIds
      else if normal_ids \<inter> cleanup_ids \<noteq> {} then Inl OverlappingIds
      else rbind (check_regions normal_ids cleanup_ids {} regions) (\<lambda>_.
      rbind (check_blocks False normal_ids blocks) (\<lambda>_. check_blocks True cleanup_ids cleanup)))"
| "verify_exception_regions _ = Inr ()"

section \<open>What the verifier accepts\<close>

definition canonical_block :: "u32 set \<Rightarrow> basic_block \<Rightarrow> bool" where
  "canonical_block ids b \<longleftrightarrow> bb_handler b = None \<and> bb_handler_id b = None
     \<and> list_all (\<lambda>(t, u). u = 0 \<and> t \<in> ids) (targets_with_sub b) \<and> \<not> list_ex is_exit_region (bb_roots b)"

lemma check_regions_iff:
  "check_regions n c p rs = Inr () \<longleftrightarrow>
     er_protected ` set rs \<subseteq> n - p \<and> er_handler_entry ` set rs \<subseteq> c \<and> distinct (map er_protected rs)"
  by (induction n c p rs rule: check_regions.induct) (auto simp: image_subset_iff image_iff)

lemma check_targets_iff: "check_targets k i ids ts = Inr () \<longleftrightarrow> list_all (\<lambda>(t, u). u = 0 \<and> t \<in> ids) ts"
  by (induction k i ids ts rule: check_targets.induct) auto

lemma check_block_iff: "check_block k ids b = Inr () \<longleftrightarrow> canonical_block ids b"
  by (auto simp: check_block_def canonical_block_def rbind_eq_Inr check_targets_iff)

lemma check_blocks_iff: "check_blocks k ids bs = Inr () \<longleftrightarrow> list_all (canonical_block ids) bs"
  by (induction k ids bs rule: check_blocks.induct) (auto simp: rbind_eq_Inr check_block_iff)

lemma verify_iff:
  "verify_exception_regions (RegionBody blocks cleanup regions locals) = Inr () \<longleftrightarrow>
     distinct (map bb_id blocks) \<and> distinct (map bb_id cleanup) \<and> bb_id ` set blocks \<inter> bb_id ` set cleanup = {}
     \<and> er_protected ` set regions \<subseteq> bb_id ` set blocks \<and> er_handler_entry ` set regions \<subseteq> bb_id ` set cleanup
     \<and> distinct (map er_protected regions)
     \<and> list_all (canonical_block (bb_id ` set blocks)) blocks \<and> list_all (canonical_block (bb_id ` set cleanup)) cleanup"
proof -
  have card: "card (bb_id ` set bs) = length bs \<longleftrightarrow> distinct (map bb_id bs)" for bs
    using card_distinct [of "map bb_id bs"] distinct_card [of "map bb_id bs"] by auto
  show ?thesis by (auto simp: Let_def rbind_eq_Inr check_regions_iff check_blocks_iff card)
qed

section \<open>The collector\<close>

lemma find_bb_id: "distinct (map bb_id bbs) \<Longrightarrow> b \<in> set bbs \<Longrightarrow> find_bb (bb_id b) bbs = Inr b"
proof -
  assume d: "distinct (map bb_id bbs)" and b: "b \<in> set bbs"
  have "find (\<lambda>c. bb_id c = bb_id b) bbs = Some b" using d b by (induction bbs) auto
  then show ?thesis by (simp add: find_bb_def)
qed

definition successors :: "basic_block list \<Rightarrow> u32 set \<Rightarrow> u32 set" where
  "successors bbs ids = {t. \<exists>b\<in>set bbs. bb_id b \<in> ids \<and> t \<in> fst ` set (targets_with_sub b)}"

lemma successors_Un: "successors bbs (A \<union> B) = successors bbs A \<union> successors bbs B"
  by (auto simp: successors_def)

lemma gc_targets_ok:
  assumes "distinct (map bb_id bbs)" "list_all (canonical_block (bb_id ` set bbs)) bbs"
  shows "set is \<subseteq> bb_id ` set bbs \<Longrightarrow> \<exists>ts. gc_targets bbs is = Inr ts \<and> set ts = successors bbs (set is)"
proof (induction "is")
  case Nil
  then show ?case by (simp add: successors_def)
next
  case (Cons i "is")
  then obtain b where b: "b \<in> set bbs" "bb_id b = i" by force
  then have f: "find_bb i bbs = Inr b" using find_bb_id [OF assms(1)] by blast
  have "canonical_block (bb_id ` set bbs) b" using assms(2) b(1) by (auto simp: list_all_iff)
  then have "\<not> list_ex (\<lambda>(t, u). u \<noteq> 0) (targets_with_sub b)" by (auto simp: canonical_block_def list_all_iff list_ex_iff)
  moreover have "set is \<subseteq> bb_id ` set bbs" using Cons.prems by simp
  from Cons.IH [OF this] obtain ts where ts: "gc_targets bbs is = Inr ts" "set ts = successors bbs (set is)" by blast
  moreover have "successors bbs (set (i # is)) = fst ` set (targets_with_sub b) \<union> successors bbs (set is)"
  proof -
    have "{c \<in> set bbs. bb_id c = i} = {b}" using b assms(1) by (auto simp: distinct_map inj_on_def)
    moreover have "successors bbs {i} = (\<Union>c\<in>{c \<in> set bbs. bb_id c = i}. fst ` set (targets_with_sub c))"
      by (auto simp: successors_def)
    ultimately have "successors bbs {i} = fst ` set (targets_with_sub b)" by simp
    then show ?thesis using successors_Un [of bbs "{i}" "set is"] by simp
  qed
  ultimately show ?case using f ts by simp
qed

lemma successors_subset:
  "list_all (canonical_block (bb_id ` set bbs)) bbs \<Longrightarrow> successors bbs ids \<subseteq> bb_id ` set bbs"
  by (fastforce simp: successors_def list_all_iff canonical_block_def)

lemma gc_loop_ok:
  assumes "distinct (map bb_id bbs)" "list_all (canonical_block (bb_id ` set bbs)) bbs"
  shows "alive \<union> set res \<union> set to_res \<subseteq> bb_id ` set bbs \<Longrightarrow>
    successors bbs (alive \<union> set res) \<subseteq> alive \<union> set res \<union> set to_res \<Longrightarrow>
    \<exists>A. gc_loop bbs alive res to_res = Inr A \<and> alive \<union> set res \<union> set to_res \<subseteq> A \<and> A \<subseteq> bb_id ` set bbs
      \<and> successors bbs A \<subseteq> A"
  using assms
proof (induction bbs alive res to_res rule: gc_loop.induct)
  case (1 bbs alive res to_res)
  show ?case
  proof (cases "to_res = []")
    case True
    then show ?thesis using 1(2,3) by (simp add: gc_loop.simps)
  next
    case False
    obtain ts where ts: "gc_targets bbs to_res = Inr ts" "set ts = successors bbs (set to_res)"
      using gc_targets_ok [OF 1(4,5), of to_res] 1(2) by auto
    let ?next = "remdups (filter (\<lambda>t. t \<notin> alive \<union> set res \<and> t \<notin> set to_res) ts)"
    have "set ts \<subseteq> bb_id ` set bbs" using ts(2) successors_subset [OF 1(5)] by simp
    then have sub: "alive \<union> set res \<union> set to_res \<union> set ?next \<subseteq> bb_id ` set bbs" using 1(2) by auto
    have closed: "successors bbs (alive \<union> set res \<union> set to_res) \<subseteq> alive \<union> set res \<union> set to_res \<union> set ?next"
      using 1(3) ts(2) by (auto simp: successors_Un)
    obtain A where "gc_loop bbs (alive \<union> set res) to_res ?next = Inr A" "alive \<union> set res \<union> set to_res \<union> set ?next \<subseteq> A"
      "A \<subseteq> bb_id ` set bbs" "successors bbs A \<subseteq> A"
      using 1(1) [OF HOL.refl False ts(1) sub closed 1(4,5)] by blast
    then show ?thesis using False ts(1) by (subst gc_loop.simps) auto
  qed
qed

lemma block_gc_ok:
  assumes "distinct (map bb_id bbs)" "list_all (canonical_block (bb_id ` set bbs)) bbs" "entry \<in> bb_id ` set bbs"
  obtains bs where "block_gc entry bbs = Inr bs" "set bs \<subseteq> set bbs" "entry \<in> bb_id ` set bs"
    "list_all (canonical_block (bb_id ` set bs)) bs"
proof -
  obtain A where A: "gc_loop bbs {} [] [entry] = Inr A" "entry \<in> A" "successors bbs A \<subseteq> A" "A \<subseteq> bb_id ` set bbs"
    using gc_loop_ok [OF assms(1,2), of "{}" "[]" "[entry]"] assms(3) by (auto simp: successors_def)
  let ?bs = "filter (\<lambda>b. bb_id b \<in> A) bbs"
  have ids: "bb_id ` set ?bs = A" using A(4) by auto
  have "canonical_block A b" if "b \<in> set ?bs" for b
  proof -
    have "fst ` set (targets_with_sub b) \<subseteq> successors bbs A" using that by (auto simp: successors_def)
    then show ?thesis using assms(2) A(3) that by (fastforce simp: canonical_block_def list_all_iff)
  qed
  then show ?thesis using that [of ?bs] A ids by (simp add: block_gc_def list_all_iff)
qed

section \<open>Labels of materialized blocks\<close>

text \<open>
  The labels a root names in branches and those it sets when it is emitted in a handler (\<open>h\<close>) or in a protected block
  (\<open>hh\<close>); labels the emitter makes up itself are left out.
\<close>

fun root_uses :: "bool \<Rightarrow> bool \<Rightarrow> cil_root \<Rightarrow> label set" where
  "root_uses h hh (RBranch t u c) = {branch_label t u hh h}"
| "root_uses h hh (RExitSpecialRegion t src) = (if h \<or> hh then {LBlock t} else {})"
| "root_uses h hh (RTerminateRegion p reason) = root_uses h hh p"
| "root_uses h hh r = {}"

fun root_defs :: "bool \<Rightarrow> bool \<Rightarrow> cil_root \<Rightarrow> label set" where
  "root_defs h hh (RExitSpecialRegion t src) =
     (if h then {LHandlerLeave src t} else if hh then {LProtectedLeave src t} else {})"
| "root_defs h hh (RTerminateRegion p reason) = root_defs h hh p"
| "root_defs h hh r = {}"

definition roots_uses :: "bool \<Rightarrow> bool \<Rightarrow> cil_root list \<Rightarrow> label set" where
  "roots_uses h hh rs = (\<Union>r\<in>set rs. root_uses h hh r)"

definition roots_defs :: "bool \<Rightarrow> bool \<Rightarrow> cil_root list \<Rightarrow> label set" where
  "roots_defs h hh rs = (\<Union>r\<in>set rs. root_defs h hh r)"

definition handler_uses :: "basic_block list \<Rightarrow> label set" where
  "handler_uses hs = (\<Union>b\<in>set hs. roots_uses True False (bb_roots b))"

definition handler_defs :: "u32 \<Rightarrow> basic_block list \<Rightarrow> label set" where
  "handler_defs i hs = (\<Union>b\<in>set hs. insert (LHandlerLeave i (bb_id b)) (roots_defs True False (bb_roots b)))"

definition block_uses :: "basic_block \<Rightarrow> label set" where
  "block_uses b =
     (case bb_handler b of
        None \<Rightarrow> roots_uses False False (bb_roots b)
      | Some hs \<Rightarrow> roots_uses False True (bb_roots b) \<union> handler_uses hs)"

definition block_defs :: "basic_block \<Rightarrow> label set" where
  "block_defs b = insert (LBlock (bb_id b))
     (case bb_handler b of
        None \<Rightarrow> roots_defs False False (bb_roots b)
      | Some hs \<Rightarrow> roots_defs False True (bb_roots b) \<union> handler_defs (bb_id b) hs)"

lemmas label_sets = roots_uses_def roots_defs_def handler_uses_def handler_defs_def block_uses_def block_defs_def

lemma roots_append:
  "roots_uses h hh (rs @ qs) = roots_uses h hh rs \<union> roots_uses h hh qs"
  "roots_defs h hh (rs @ qs) = roots_defs h hh rs \<union> roots_defs h hh qs"
  by (simp_all add: roots_uses_def roots_defs_def)

text \<open>Jumps inside a terminate region are not seen by the passes that rewrite the roots of a block.\<close>

fun has_jump :: "cil_root \<Rightarrow> bool" where
  "has_jump (RBranch _ _ _) = True"
| "has_jump (RExitSpecialRegion _ _) = True"
| "has_jump (RTerminateRegion p _) = has_jump p"
| "has_jump r = False"

fun jumps_on_top :: "cil_root \<Rightarrow> bool" where
  "jumps_on_top (RTerminateRegion p _) = (\<not> has_jump p)"
| "jumps_on_top r = True"

lemma no_jump_labels: "\<not> has_jump r \<Longrightarrow> root_uses h hh r = {}"
  by (induction r) simp_all

definition fix_root :: "u32 \<Rightarrow> cil_root \<Rightarrow> cil_root" where
  "fix_root i r = (case r of RBranch t u c \<Rightarrow> RBranch i t c | _ \<Rightarrow> r)"

lemma fix_branches_ok:
  "list_all (\<lambda>(t, u). u = 0) (List.map_filter branch_target rs) \<Longrightarrow> fix_branches i rs = Inr (map (fix_root i) rs)"
  by (induction i rs rule: fix_branches.induct) (simp_all add: fix_root_def)

text \<open>What the verifier leaves of the labels of a root.\<close>

lemma canonical_root_uses:
  assumes "canonical_block ids b" "list_all jumps_on_top (bb_roots b)" "r \<in> set (bb_roots b)"
  shows "root_uses False False r \<subseteq> LBlock ` ids"
    and "root_uses False True (fix_root i r) \<subseteq> insert (LBlock i) (LProtectedLeave i ` fst ` set (targets_with_sub b))"
    and "root_uses True False (fix_root i r) \<subseteq> insert (LBlock i) (LHandlerLeave i ` ids)"
proof -
  have jump: "jumps_on_top r" using assms(2,3) by (simp add: list_all_iff)
  have exit: "\<not> is_exit_region r" using assms(1,3) by (auto simp: canonical_block_def list_ex_iff)
  have branch: "(t, u) \<in> set (targets_with_sub b) \<and> u = 0 \<and> t \<in> ids" if "r = RBranch t u c" for t u c
  proof -
    have "(t, u) \<in> set (targets_with_sub b)" using assms(3) that by (force simp: targets_with_sub_def List.map_filter_def)
    then show ?thesis using assms(1) by (auto simp: canonical_block_def list_all_iff)
  qed
  show "root_uses False False r \<subseteq> LBlock ` ids"
    using jump exit branch no_jump_labels by (cases r) auto
  show "root_uses False True (fix_root i r) \<subseteq> insert (LBlock i) (LProtectedLeave i ` fst ` set (targets_with_sub b))"
    using jump exit branch no_jump_labels by (cases r) (auto simp: fix_root_def image_iff, force)
  show "root_uses True False (fix_root i r) \<subseteq> insert (LBlock i) (LHandlerLeave i ` ids)"
    using jump exit branch no_jump_labels by (cases r) (auto simp: fix_root_def)
qed

definition order_ok :: "((u32 \<times> u32) list \<Rightarrow> (u32 \<times> u32) list) \<Rightarrow> bool" where
  "order_ok order \<longleftrightarrow> (\<forall>ts. set (order ts) = set ts \<and> distinct (order ts))"

definition covered :: "u32 set \<Rightarrow> basic_block \<Rightarrow> bool" where
  "covered ids b \<longleftrightarrow> block_uses b \<subseteq> block_defs b \<union> LBlock ` ids"

lemma bb_id_fixed: "fix_for_exception_handler i b = Inr b' \<Longrightarrow> bb_id b' = bb_id b"
  by (cases b) (auto simp: rbind_eq_Inr)

lemma end_terminal_props:
  "bb_id (end_terminal b) = bb_id b" "roots_uses h hh (bb_roots (end_terminal b)) = roots_uses h hh (bb_roots b)"
  by (auto simp: end_terminal_def push_root_def roots_uses_def)

lemma label_cover:
  assumes "H \<subseteq> insert l A" "A \<subseteq> DH" "R \<subseteq> insert l B" "B \<subseteq> DP" "P \<subseteq> I" "U = R \<union> P \<union> H" "D = insert l (X \<union> DP \<union> DH)"
  shows "U \<subseteq> D \<union> I"
  using assms by blast

lemma resolve_ok:
  assumes order: "order_ok order"
    and cleanup: "distinct (map bb_id cleanup)" "list_all (canonical_block (bb_id ` set cleanup)) cleanup"
      "list_all (\<lambda>b. list_all jumps_on_top (bb_roots b)) cleanup"
    and entry: "entry \<in> bb_id ` set cleanup"
    and b: "canonical_block ids b" "list_all jumps_on_top (bb_roots b)" "bb_id b \<in> ids"
  obtains b' where "resolve_exception_handler order entry cleanup b = Inr b'" "bb_id b' = bb_id b" "covered ids b'"
    "\<exists>hs. bb_handler b' = Some hs \<and> hs \<noteq> []"
proof -
  let ?i = "bb_id b"
  obtain bs where gc: "block_gc entry cleanup = Inr bs" "set bs \<subseteq> set cleanup" "entry \<in> bb_id ` set bs"
    "list_all (canonical_block (bb_id ` set bs)) bs"
    using block_gc_ok [OF cleanup(1,2) entry] .
  define fixed where "fixed c = BasicBlock (map (fix_root ?i) (bb_roots c)) (bb_id c) (bb_handler c) (bb_handler_id c)" for c
  have fixing: "fix_for_exception_handler ?i c = Inr (fixed c)" if "c \<in> set bs" for c
  proof -
    have "canonical_block (bb_id ` set bs) c" using gc(4) that by (simp add: list_all_iff)
    then have "list_all (\<lambda>(t, u). u = 0) (List.map_filter branch_target (bb_roots c))"
      by (auto simp: canonical_block_def targets_with_sub_def list_all_iff)
    then show ?thesis by (cases c) (simp add: fixed_def fix_branches_ok)
  qed
  define handler where "handler = BasicBlock [RBranch ?i entry None] (- 1) None None # map fixed bs"
  define hs where "hs = butlast handler @ [end_terminal (last handler)]"
  let ?ts = "order (targets_with_sub b)"
  have ts: "set ?ts = set (targets_with_sub b)" using order by (simp add: order_ok_def)
  have zero: "list_all (\<lambda>(t, u). u = 0) (targets_with_sub b)" using b(1) by (auto simp: canonical_block_def list_all_iff)
  let ?pads = "map (\<lambda>(t, u). RExitSpecialRegion t ?i) ?ts"
  have "List.map_filter branch_target (map (\<lambda>(t, u). RExitSpecialRegion t ?i) ts) = []" for ts :: "(u32 \<times> u32) list"
    by (induction ts) (auto simp: List.map_filter_def)
  note pads = this [of ?ts]
  have roots: "fix_branches ?i (bb_roots b @ ?pads) = Inr (map (fix_root ?i) (bb_roots b) @ ?pads)"
  proof -
    have "map (fix_root ?i) ?pads = ?pads" by (auto simp: fix_root_def)
    moreover have "list_all (\<lambda>(t, u). u = 0) (List.map_filter branch_target (bb_roots b @ ?pads))"
      using zero pads by (simp add: targets_with_sub_def List.map_filter_def)
    ultimately show ?thesis by (simp add: fix_branches_ok)
  qed
  define b' where "b' = BasicBlock (map (fix_root ?i) (bb_roots b) @ ?pads) ?i (Some hs) None"
  have res: "resolve_exception_handler order entry cleanup b = Inr b'"
  proof -
    have "\<not> list_ex (\<lambda>(t, u). u \<noteq> 0) ?ts" using zero ts by (auto simp: list_ex_iff list_all_iff)
    moreover have "rmap (fix_for_exception_handler ?i) bs = Inr (map fixed bs)" by (rule rmap_ok) (rule fixing)
    ultimately show ?thesis
      using b(1) gc(1) roots
      by (simp add: resolve_exception_handler_def canonical_block_def b'_def hs_def handler_def Let_def)
  qed
  have ids_hs: "bb_id ` set hs = insert (- 1) (bb_id ` set bs)"
    and uses_hs: "handler_uses hs = handler_uses handler"
  proof -
    have split: "handler = butlast handler @ [last handler]" by (simp add: handler_def)
    have "bb_id ` set hs = bb_id ` set handler"
      by (subst split) (simp add: hs_def end_terminal_props)
    then show "bb_id ` set hs = insert (- 1) (bb_id ` set bs)" by (simp add: handler_def fixed_def image_image)
    show "handler_uses hs = handler_uses handler"
      unfolding arg_cong [OF split, of handler_uses] by (simp add: hs_def handler_uses_def end_terminal_props)
  qed
  have "handler_uses handler \<subseteq> insert (LBlock ?i) (LHandlerLeave ?i ` bb_id ` set bs)"
  proof -
    have "roots_uses True False (bb_roots (fixed c)) \<subseteq> insert (LBlock ?i) (LHandlerLeave ?i ` bb_id ` set bs)" if "c \<in> set bs" for c
      using canonical_root_uses(3) [of "bb_id ` set bs" c _ ?i] gc(2,4) cleanup(3) that
      by (fastforce simp: roots_uses_def fixed_def list_all_iff)
    moreover have "root_uses True False (RBranch ?i entry None) \<subseteq> insert (LBlock ?i) (LHandlerLeave ?i ` bb_id ` set bs)"
      using gc(3) by auto
    ultimately show ?thesis by (auto simp: handler_uses_def handler_def roots_uses_def)
  qed
  moreover have "LHandlerLeave ?i ` bb_id ` set bs \<subseteq> handler_defs ?i hs"
    using ids_hs by (force simp: handler_defs_def)
  moreover have "roots_uses False True (map (fix_root ?i) (bb_roots b))
      \<subseteq> insert (LBlock ?i) (LProtectedLeave ?i ` fst ` set (targets_with_sub b))"
    using canonical_root_uses(2) [OF b(1,2), of _ ?i] by (fastforce simp: roots_uses_def)
  moreover have "LProtectedLeave ?i ` fst ` set (targets_with_sub b) \<subseteq> roots_defs False True ?pads"
    using ts by (force simp: roots_defs_def)
  moreover have "roots_uses False True ?pads \<subseteq> LBlock ` ids"
    using ts b(1) by (fastforce simp: roots_uses_def canonical_block_def list_all_iff)
  moreover have "block_uses b' = roots_uses False True (map (fix_root ?i) (bb_roots b)) \<union> roots_uses False True ?pads \<union> handler_uses hs"
    by (simp only: block_uses_def b'_def basic_block.sel option.case roots_append)
  moreover have "block_defs b' = insert (LBlock ?i)
      (roots_defs False True (map (fix_root ?i) (bb_roots b)) \<union> roots_defs False True ?pads \<union> handler_defs ?i hs)"
    by (simp only: block_defs_def b'_def basic_block.sel option.case roots_append)
  ultimately have "covered ids b'"
    unfolding covered_def uses_hs by (rule label_cover)
  moreover have "hs \<noteq> []" by (simp add: hs_def)
  ultimately show ?thesis using that [OF res] by (simp add: b'_def)
qed

lemma replace_caught_labels [simp]:
  "root_uses h hh (replace_caught l r) = root_uses h hh r"
  "root_defs h hh (replace_caught l r) = root_defs h hh r"
  by (induction r) (auto simp: replace_caught_def split_beta Let_def split: option.splits)

lemma map_block_roots_simps [simp]:
  "bb_id (map_block_roots f b) = bb_id b" "bb_roots (map_block_roots f b) = map f (bb_roots b)"
  by (cases b; simp)+

lemma spill_handler_ok:
  "\<exists>hs'. spill_handler l hs = Inr hs' \<and> handler_uses hs' = handler_uses hs \<and> handler_defs i hs' = handler_defs i hs"
proof (cases "uses_get_exception hs")
  case True
  then obtain h t where hs: "hs = h # t" by (cases hs) (auto simp: uses_get_exception_def)
  then show ?thesis using True
    by (auto simp: capture_exception_def handler_uses_def handler_defs_def roots_uses_def roots_defs_def)
qed simp

lemma spill_block_ok:
  obtains b' where "spill_block l b = Inr b'" "bb_id b' = bb_id b" "covered ids b' = covered ids b"
proof (cases b)
  case (BasicBlock rs i h hi)
  show ?thesis
  proof (cases h)
    case None
    then show ?thesis using that BasicBlock by simp
  next
    case (Some hs)
    obtain hs' where "spill_handler l hs = Inr hs'" "handler_uses hs' = handler_uses hs" "handler_defs i hs' = handler_defs i hs"
      using spill_handler_ok by blast
    then show ?thesis
      using that [of "BasicBlock rs i (Some hs') hi"] BasicBlock Some
      by (simp add: covered_def block_uses_def block_defs_def del: spill_handler.simps)
  qed
qed

lemma spill_ok:
  obtains bs' ls where "spill_caught_exceptions bs locals = Inr (bs', ls)" "map bb_id bs' = map bb_id bs"
    "list_all (covered ids) bs' = list_all (covered ids) bs"
proof -
  have "\<exists>bs'. rmap (spill_block l) bs = Inr bs' \<and> map bb_id bs' = map bb_id bs
      \<and> list_all (covered ids) bs' = list_all (covered ids) bs" for l
  proof (induction bs)
    case (Cons b bs)
    then obtain bs' where "rmap (spill_block l) bs = Inr bs'" "map bb_id bs' = map bb_id bs"
      "list_all (covered ids) bs' = list_all (covered ids) bs"
      by blast
    moreover obtain b' where "spill_block l b = Inr b'" "bb_id b' = bb_id b" "covered ids b' = covered ids b"
      using spill_block_ok .
    ultimately show ?case by simp
  qed simp
  then obtain bs' where "rmap (spill_block (word_of_nat (length locals))) bs = Inr bs'" "map bb_id bs' = map bb_id bs"
    "list_all (covered ids) bs' = list_all (covered ids) bs"
    by blast
  then show ?thesis using that by (cases "list_ex (\<lambda>b. case bb_handler b of Some h \<Rightarrow> uses_get_exception h | None \<Rightarrow> False) bs")
      (simp_all add: spill_caught_exceptions_def)
qed

lemma insert_regions_ok:
  "distinct (map er_protected rs) \<Longrightarrow> er_protected ` set rs \<inter> fst ` set bp = {} \<Longrightarrow>
    \<exists>bp'. insert_regions rs bp = Inr bp' \<and> set bp' = (\<lambda>r. (er_protected r, er_handler_entry r)) ` set rs \<union> set bp"
proof (induction rs bp rule: insert_regions.induct)
  case (2 r rs bp)
  have "map_of bp (er_protected r) = None" using 2(3) by (auto simp: map_of_eq_None_iff)
  moreover have "er_protected ` set rs \<inter> fst ` set ((er_protected r, er_handler_entry r) # bp) = {}" using 2(2,3) by auto
  ultimately show ?case using 2(1,2) by auto
qed simp

lemma materialize_blocks_ok:
  assumes order: "order_ok order"
    and cleanup: "distinct (map bb_id cleanup)" "list_all (canonical_block (bb_id ` set cleanup)) cleanup"
      "list_all (\<lambda>b. list_all jumps_on_top (bb_roots b)) cleanup"
    and "fst ` set bp \<subseteq> bb_id ` set bs" "snd ` set bp \<subseteq> bb_id ` set cleanup" "distinct (map bb_id bs)"
    and "bb_id ` set bs \<subseteq> ids" "list_all (canonical_block ids) bs" "list_all (\<lambda>b. list_all jumps_on_top (bb_roots b)) bs"
  shows "\<exists>ms. materialize_blocks order cleanup bp bs = Inr (ms, []) \<and> map bb_id ms = map bb_id bs \<and> list_all (covered ids) ms"
  using assms(5-10)
proof (induction bs arbitrary: bp)
  case (Cons b bs)
  show ?case
  proof (cases "map_of bp (bb_id b)")
    case None
    then have "fst ` set bp \<subseteq> bb_id ` set bs" using Cons.prems(1) unfolding map_of_eq_None_iff by (simp add: subset_insert)
    then obtain ms where "materialize_blocks order cleanup bp bs = Inr (ms, [])" "map bb_id ms = map bb_id bs" "list_all (covered ids) ms"
      using Cons.IH [of bp] Cons.prems by auto
    moreover have "covered ids b"
      using canonical_root_uses(1) [of ids b] Cons.prems(5,6)
      by (fastforce simp: covered_def block_uses_def roots_uses_def canonical_block_def)
    ultimately show ?thesis using None by simp
  next
    case (Some entry)
    let ?bp = "filter (\<lambda>(p, _). p \<noteq> bb_id b) bp"
    have "entry \<in> bb_id ` set cleanup" using Cons.prems(2) map_of_SomeD [OF Some] by force
    moreover have "canonical_block ids b" "list_all jumps_on_top (bb_roots b)" "bb_id b \<in> ids" using Cons.prems(4-6) by simp_all
    ultimately obtain b' where b': "resolve_exception_handler order entry cleanup b = Inr b'" "bb_id b' = bb_id b" "covered ids b'"
      using resolve_ok [OF order cleanup] by blast
    have "fst ` set ?bp \<subseteq> bb_id ` set bs" "snd ` set ?bp \<subseteq> bb_id ` set cleanup" using Cons.prems(1,2) by force+
    then obtain ms where "materialize_blocks order cleanup ?bp bs = Inr (ms, [])" "map bb_id ms = map bb_id bs" "list_all (covered ids) ms"
      using Cons.IH [of ?bp] Cons.prems by auto
    then show ?thesis using Some b' by simp
  qed
qed simp

lemma materialize_ok:
  assumes "order_ok order" "verify_exception_regions (RegionBody blocks cleanup regions locals) = Inr ()"
    and "list_all (\<lambda>b. list_all jumps_on_top (bb_roots b)) (blocks @ cleanup)"
  obtains bs ls where "materialize_legacy_body order (RegionBody blocks cleanup regions locals) = Inr (Some (bs, ls))"
    "map bb_id bs = map bb_id blocks" "list_all (covered (bb_id ` set blocks)) bs"
proof -
  note v = assms(2) [unfolded verify_iff]
  obtain bp where bp: "insert_regions regions [] = Inr bp" "set bp = (\<lambda>r. (er_protected r, er_handler_entry r)) ` set regions"
    using insert_regions_ok [of regions "[]"] v by auto
  have "fst ` set bp \<subseteq> bb_id ` set blocks" "snd ` set bp \<subseteq> bb_id ` set cleanup" using bp(2) v by (auto simp: image_subset_iff)
  then obtain ms where ms: "materialize_blocks order cleanup bp blocks = Inr (ms, [])" "map bb_id ms = map bb_id blocks"
    "list_all (covered (bb_id ` set blocks)) ms"
    using materialize_blocks_ok [OF assms(1), of cleanup bp blocks "bb_id ` set blocks"] v assms(3) by auto
  obtain bs ls where "spill_caught_exceptions ms locals = Inr (bs, ls)" "map bb_id bs = map bb_id ms"
    "list_all (covered (bb_id ` set blocks)) bs = list_all (covered (bb_id ` set blocks)) ms"
    using spill_ok .
  then show ?thesis using that bp(1) ms by simp
qed

section \<open>Emitted labels\<close>

definition set_labels :: "'r emitter \<Rightarrow> label set" where
  "set_labels e = dom (e_label_offsets e)"

definition named_labels :: "'r emitter \<Rightarrow> label set" where
  "named_labels e = snd ` set (e_branch_fixups e)
     \<union> (\<Union>c\<in>set (e_clauses e). {pc_try_start c, pc_try_end c, pc_handler_start c, pc_handler_end c})"

text \<open>\<open>links D U f\<close>: the emitter \<open>f\<close> sets the labels \<open>D\<close> and names no labels but \<open>U\<close> and those it sets.\<close>

definition links_rel :: "label set \<Rightarrow> label set \<Rightarrow> 'r emitter \<Rightarrow> 'r emitter \<Rightarrow> bool" where
  "links_rel D U e e' \<longleftrightarrow> set_labels e \<union> D \<subseteq> set_labels e' \<and> named_labels e' \<subseteq> named_labels e \<union> U \<union> set_labels e'"

abbreviation links :: "label set \<Rightarrow> label set \<Rightarrow> 'r emit \<Rightarrow> bool" where
  "links D U f \<equiv> along (links_rel D U) f"

lemma links_def:
  "links D U f \<longleftrightarrow> (\<forall>e e'. f e = Inr e' \<longrightarrow>
     set_labels e \<union> D \<subseteq> set_labels e' \<and> named_labels e' \<subseteq> named_labels e \<union> U \<union> set_labels e')"
  by (simp add: along_def links_rel_def)

lemma links_rel_trans: "links_rel D U a b \<Longrightarrow> links_rel D' U b c \<Longrightarrow> links_rel (D \<union> D') U a c"
  unfolding links_rel_def by blast

lemma label_sets_other [simp]:
  "set_labels (e\<lparr>e_out := bs\<rparr>) = set_labels e" "named_labels (e\<lparr>e_out := bs\<rparr>) = named_labels e"
  "set_labels (e\<lparr>e_sink := r\<rparr>) = set_labels e" "named_labels (e\<lparr>e_sink := r\<rparr>) = named_labels e"
  "set_labels (e\<lparr>e_sequence_points := ps\<rparr>) = set_labels e" "named_labels (e\<lparr>e_sequence_points := ps\<rparr>) = named_labels e"
  "set_labels (e\<lparr>e_marker_counter := c\<rparr>) = set_labels e" "named_labels (e\<lparr>e_marker_counter := c\<rparr>) = named_labels e"
  "set_labels (e\<lparr>e_terminate_region_counter := c\<rparr>) = set_labels e"
  "named_labels (e\<lparr>e_terminate_region_counter := c\<rparr>) = named_labels e"
  by (simp_all add: set_labels_def named_labels_def)

interpretation lk: code_relation "links_rel {} {}"
proof unfold_locales
  show "links_rel {} {} a c" if "links_rel {} {} a b" "links_rel {} {} b c" for a b c
    using links_rel_trans [OF that] by simp
qed (simp_all add: links_rel_def)

lemma links_mono: "links D U f \<Longrightarrow> D' \<subseteq> D \<Longrightarrow> U \<subseteq> U' \<Longrightarrow> links D' U' f"
  unfolding links_def by blast

lemma links_nil: "links {} U (seq [])"
  by (auto simp: links_def)

lemma links_cons:
  assumes "links D U f" "links D' U (seq fs)"
  shows "links (D \<union> D') U (seq (f # fs))"
  unfolding along_def
proof (intro allI impI)
  fix e e' :: "'a emitter"
  assume "seq (f # fs) e = Inr e'"
  then obtain e1 where e1: "f e = Inr e1" "seq fs e1 = Inr e'" by (auto simp: rbind_eq_Inr)
  then show "links_rel (D \<union> D') U e e'" using assms links_rel_trans unfolding along_def by blast
qed

lemma links_map: "(\<And>x. x \<in> set xs \<Longrightarrow> links (D x) U (g x)) \<Longrightarrow> links (\<Union>x\<in>set xs. D x) U (seq (map g xs))"
proof (induction xs)
  case Nil
  then show ?case using links_nil by (simp del: seq.simps)
next
  case (Cons x xs)
  then show ?case using links_cons [of "D x" U "g x" "\<Union>x\<in>set xs. D x" "map g xs"] by (simp del: seq.simps)
qed

lemma links_with_token: "(\<And>tok. links D U (k tok)) \<Longrightarrow> links D U (with_token ask k)"
  unfolding links_def
proof (intro allI impI)
  fix e e' :: "'a emitter"
  assume k: "\<And>tok. \<forall>e e'. k tok e = Inr e' \<longrightarrow>
     set_labels e \<union> D \<subseteq> set_labels e' \<and> named_labels e' \<subseteq> named_labels e \<union> U \<union> set_labels e'"
    and "with_token ask k e = Inr e'"
  then obtain tok r where "k tok (e\<lparr>e_sink := r\<rparr>) = Inr e'" by (auto simp: with_token_def rbind_eq_Inr)
  then show "set_labels e \<union> D \<subseteq> set_labels e' \<and> named_labels e' \<subseteq> named_labels e \<union> U \<union> set_labels e'"
    using k [of tok] by fastforce
qed

lemma links_define_label: "links {l} U (define_label l)"
  by (auto simp: links_def define_label_def rbind_eq_Inr set_labels_def named_labels_def)

lemma links_push_branch: "l \<in> U \<Longrightarrow> links {} U (push_branch op l)"
  by (auto simp: links_def push_branch_def push_u8_def push_bytes_def rbind_eq_Inr set_labels_def named_labels_def)

lemma links_add_clause:
  "{pc_try_start c, pc_try_end c, pc_handler_start c, pc_handler_end c} \<subseteq> U \<Longrightarrow> links {} U (add_clause c)"
  by (auto simp: links_def add_clause_def set_labels_def named_labels_def)

text \<open>A marker is set before it is handed on.\<close>

lemma links_with_here:
  assumes "\<And>l. links D (insert l U) (k l)"
  shows "links D U (with_here k)"
  unfolding links_def
proof (intro allI impI)
  fix e e' :: "'a emitter"
  let ?l = "LMarker (e_marker_counter e)" and ?e = "e\<lparr>e_marker_counter := e_marker_counter e + 1\<rparr>"
  assume "with_here k e = Inr e'"
  then obtain e1 where 1: "define_label ?l ?e = Inr e1" "k ?l e1 = Inr e'"
    by (auto simp: with_here_def here_def Let_def rbind_eq_Inr)
  have "links_rel {?l} {} ?e e1" "links_rel D (insert ?l U) e1 e'"
    using 1 links_define_label [of ?l "{}"] assms [of ?l] unfolding along_def by blast+
  then have "links_rel {?l} {} e e1" "links_rel D (insert ?l U) e1 e'" by (simp_all add: links_rel_def)
  then show "set_labels e \<union> D \<subseteq> set_labels e' \<and> named_labels e' \<subseteq> named_labels e \<union> U \<union> set_labels e'"
    unfolding links_rel_def by blast
qed

lemma links_code: "links {} {} f \<Longrightarrow> links {} U f"
  by (rule links_mono) auto

lemmas links_steps = links_with_token links_push_branch links_add_clause links_with_here links_define_label

lemma links_branch: "links {} {branch_label t u hh h} (emit_branch ts t u c h hh)"
proof -
  let ?l = "branch_label t u hh h"
  have push: "links {} {?l} (push_branch op ?l)" for op by (rule links_push_branch) simp
  have node: "links {} {?l} (emit_node ts n)" for n by (rule links_code) (rule lk.asked.along_node)
  have one: "links {} {?l} (seq [emit_node ts n, push_branch op ?l])" for n op
    using links_cons [OF node links_cons [OF push links_nil]] by (simp del: seq.simps)
  have two: "links {} {?l} (emit_binary_branch ts n m op ?l)" for n m op
    unfolding emit_binary_branch_def
    using links_cons [OF node links_cons [OF node links_cons [OF push links_nil]]] by (simp del: seq.simps)
  show ?thesis
    unfolding emit_branch_def Let_def using push one two
    by (cases c) (simp_all del: branch_label.simps seq.simps split: branch_cond.split)
qed

text \<open>The number of a terminate region is taken before its code; the label of its end is set in that code.\<close>

lemma links_region_counter:
  assumes "\<And>dn. links D U (f dn)"
  shows "links D U (\<lambda>e. f (LTerminateDone (e_terminate_region_counter e))
      (e\<lparr>e_terminate_region_counter := e_terminate_region_counter e + 1\<rparr>))"
  unfolding links_def
proof (intro allI impI)
  fix e e' :: "'a emitter"
  assume "f (LTerminateDone (e_terminate_region_counter e)) (e\<lparr>e_terminate_region_counter := e_terminate_region_counter e + 1\<rparr>) = Inr e'"
  then show "set_labels e \<union> D \<subseteq> set_labels e' \<and> named_labels e' \<subseteq> named_labels e \<union> U \<union> set_labels e'"
    using assms unfolding links_def by fastforce
qed

lemma links_forward:
  assumes "links D (insert l U) f" "l \<in> D"
  shows "links D U f"
  using assms unfolding links_def by blast

lemma links_code_cons: "links {} {} f \<Longrightarrow> links D U (seq fs) \<Longrightarrow> links D U (seq (f # fs))"
  using links_cons [OF links_code, of f D U fs] by (simp del: seq.simps)

lemma links_branch_cons: "l \<in> U \<Longrightarrow> links D U (seq fs) \<Longrightarrow> links D U (seq (push_branch op l # fs))"
  using links_cons [OF links_push_branch, of l U D fs op] by (simp del: seq.simps)

lemma links_define_cons: "links D U (seq fs) \<Longrightarrow> links (insert l D) U (seq (define_label l # fs))"
  using links_cons [OF links_define_label, of D U fs l] by (simp del: seq.simps)

lemma links_last: "links D U f \<Longrightarrow> links D U (seq [f])"
  by simp

lemmas links_push_cons = lk.along_pushes [THEN links_code_cons]

lemma links_terminate_code:
  assumes "links D U p"
  shows "links (insert dn D) U (with_here (\<lambda>try_start. seq [p, push_branch 0xDD dn,
      with_here (\<lambda>try_end. with_here (\<lambda>handler_start. seq [push_u8 0x26,
      with_token (ts_user_string ts (terminate_message reason)) (\<lambda>str_tok. seq [push_u8 0x72, push_token str_tok,
      with_token (ts_method ts environment_failfast) (\<lambda>failfast_tok. seq [push_u8 0x28, push_token failfast_tok,
      push_ext 0x1A,
      with_here (\<lambda>handler_end. seq [define_label dn, push_u8 0x00,
      add_clause \<lparr>pc_try_start = try_start, pc_try_end = try_end, pc_handler_start = handler_start,
        pc_handler_end = handler_end\<rparr>])])])]))]))"
proof (rule links_forward [of _ dn], rule links_with_here)
  fix try_start
  have p: "links D (insert try_start (insert dn U)) p" by (rule links_mono [OF assms]) auto
  have "links {dn} (insert try_start (insert dn U)) (seq [push_branch 0xDD dn,
      with_here (\<lambda>try_end. with_here (\<lambda>handler_start. seq [push_u8 0x26,
      with_token (ts_user_string ts (terminate_message reason)) (\<lambda>str_tok. seq [push_u8 0x72, push_token str_tok,
      with_token (ts_method ts environment_failfast) (\<lambda>failfast_tok. seq [push_u8 0x28, push_token failfast_tok,
      push_ext 0x1A,
      with_here (\<lambda>handler_end. seq [define_label dn, push_u8 0x00,
      add_clause \<lparr>pc_try_start = try_start, pc_try_end = try_end, pc_handler_start = handler_start,
        pc_handler_end = handler_end\<rparr>])])])]))])"
    by (intro links_branch_cons links_with_here links_push_cons links_last links_with_token links_define_cons links_add_clause) auto
  from links_cons [OF p this]
  show "links (insert dn D) (insert try_start (insert dn U)) (seq [p, push_branch 0xDD dn,
      with_here (\<lambda>try_end. with_here (\<lambda>handler_start. seq [push_u8 0x26,
      with_token (ts_user_string ts (terminate_message reason)) (\<lambda>str_tok. seq [push_u8 0x72, push_token str_tok,
      with_token (ts_method ts environment_failfast) (\<lambda>failfast_tok. seq [push_u8 0x28, push_token failfast_tok,
      push_ext 0x1A,
      with_here (\<lambda>handler_end. seq [define_label dn, push_u8 0x00,
      add_clause \<lparr>pc_try_start = try_start, pc_try_end = try_end, pc_handler_start = handler_start,
        pc_handler_end = handler_end\<rparr>])])])]))])"
    by (simp del: seq.simps)
qed simp

lemma links_terminate: "links D U p \<Longrightarrow> links D U (emit_terminate_region ts p reason)"
  unfolding emit_terminate_region_def Let_def
  by (rule links_region_counter) (erule links_mono [OF links_terminate_code], blast+)

lemma links_root:
  fixes ts :: "'r token_sink"
  shows "links (root_defs h hh r) (root_uses h hh r) (emit_root ts h hh r)"
proof (induction r)
  case (RBranch t u c)
  show ?case using links_branch [of t u hh h ts c] by (simp del: branch_label.simps)
next
  case (RTerminateRegion p reason)
  then show ?case using links_terminate by simp
next
  case (RExitSpecialRegion t src)
  have "links {l} {LBlock t} (seq [define_label l, push_branch 0xDD (LBlock t)] :: 'r emit)" for l
    by (intro links_define_cons links_branch_cons links_nil) simp
  moreover have "links {} {} (seq [] :: 'r emit)" by (rule links_nil)
  ultimately show ?case by (simp add: emit_exit_region_def del: seq.simps)
qed (simp_all add: along_intros emit_calli_def del: seq.simps)

lemma links_roots: "roots_uses h hh rs \<subseteq> U \<Longrightarrow> links (roots_defs h hh rs) U (emit_roots ts h hh rs)"
  unfolding emit_roots.simps roots_defs_def
  by (rule links_map, rule links_mono [OF links_root]) (auto simp: roots_uses_def)

lemma links_handler:
  assumes "handler_uses hs \<subseteq> U"
  shows "links (handler_defs i hs) U (emit_handler ts i hs)"
proof -
  let ?g = "\<lambda>hb. seq [define_label (LHandlerLeave i (bb_id hb)), emit_roots ts True False (bb_roots hb)]"
  have "links (insert (LHandlerLeave i (bb_id b)) (roots_defs True False (bb_roots b))) U (?g b)" if "b \<in> set hs" for b
  proof -
    have "roots_uses True False (bb_roots b) \<subseteq> U" using assms that by (auto simp: handler_uses_def)
    then show ?thesis by (intro links_define_cons links_last links_roots)
  qed
  then have blocks: "links (handler_defs i hs) U (seq (map ?g hs))"
    unfolding handler_defs_def by (rule links_map)
  then show ?thesis
    unfolding emit_handler_def using links_push_cons(1) [OF blocks] by (simp del: seq.simps emit_roots.simps)
qed

lemma links_block: "block_uses b \<subseteq> U \<Longrightarrow> links (block_defs b) U (emit_block ts b)"
proof (cases "bb_handler b")
  case None
  assume "block_uses b \<subseteq> U"
  then have "roots_uses False False (bb_roots b) \<subseteq> U" using None by (simp add: block_uses_def)
  then show ?thesis
    unfolding emit_block_def block_defs_def None option.case by (intro links_define_cons links_last links_roots)
next
  case (Some hs)
  assume u: "block_uses b \<subseteq> U"
  show ?thesis
    unfolding emit_block_def block_defs_def Some option.case
  proof (rule links_with_here, rule links_define_cons)
    fix a
    have roots: "links (roots_defs False True (bb_roots b)) (insert a U) (emit_roots ts False True (bb_roots b))"
      using u Some by (intro links_roots) (auto simp: block_uses_def)
    have "handler_uses hs \<subseteq> U" using u Some by (simp add: block_uses_def)
    then have handler: "links (handler_defs (bb_id b) hs) (insert d (insert c (insert a U))) (emit_handler ts (bb_id b) hs)" for c d
      by (intro links_handler) blast
    have clause: "links {} (insert d (insert c (insert a U))) (seq [with_here (\<lambda>handler_end. add_clause
            \<lparr>pc_try_start = a, pc_try_end = c, pc_handler_start = d, pc_handler_end = handler_end\<rparr>)])" for c d
      by (intro links_last links_with_here links_add_clause) auto
    have "links (handler_defs (bb_id b) hs) (insert a U) (seq [with_here (\<lambda>try_end. with_here (\<lambda>handler_start.
          seq [emit_handler ts (bb_id b) hs, with_here (\<lambda>handler_end. add_clause
            \<lparr>pc_try_start = a, pc_try_end = try_end, pc_handler_start = handler_start, pc_handler_end = handler_end\<rparr>)]))])"
      using links_cons [OF handler clause] by (intro links_last links_with_here) (simp del: seq.simps)
    from links_cons [OF roots this]
    show "links (roots_defs False True (bb_roots b) \<union> handler_defs (bb_id b) hs) (insert a U)
        (seq [emit_roots ts False True (bb_roots b), with_here (\<lambda>try_end. with_here (\<lambda>handler_start.
          seq [emit_handler ts (bb_id b) hs, with_here (\<lambda>handler_end. add_clause
            \<lparr>pc_try_start = a, pc_try_end = try_end, pc_handler_start = handler_start, pc_handler_end = handler_end\<rparr>)]))])" .
  qed
qed

text \<open>Blocks that cover each other's labels leave no label open.\<close>

lemma image_in_UN: "(\<And>x. x \<in> A \<Longrightarrow> f x \<in> g x) \<Longrightarrow> f ` A \<subseteq> (\<Union>x\<in>A. g x)"
  by blast

lemma covered_blocks:
  assumes "list_all (covered (bb_id ` set bs)) bs" "seq (map (emit_block ts) bs) (new_emitter r) = Inr e"
  shows "named_labels e \<subseteq> set_labels e"
proof -
  let ?U = "\<Union>b\<in>set bs. block_uses b" and ?D = "\<Union>b\<in>set bs. block_defs b"
  have "links ?D ?U (seq (map (emit_block ts) bs))" by (rule links_map, rule links_block) auto
  then have "links_rel ?D ?U (new_emitter r) e" using assms(2) unfolding along_def by blast
  moreover have "named_labels (new_emitter r) = {}" "set_labels (new_emitter r) = {}"
    by (simp_all add: named_labels_def new_emitter_def set_labels_def)
  ultimately have "?D \<subseteq> set_labels e" "named_labels e \<subseteq> ?U \<union> set_labels e"
    unfolding links_rel_def by simp_all
  moreover have "?U \<subseteq> ?D"
  proof (rule UN_least)
    fix b assume b: "b \<in> set bs"
    have "LBlock ` bb_id ` set bs \<subseteq> ?D"
      unfolding image_image by (rule image_in_UN) (simp add: block_defs_def)
    moreover have "block_defs b \<subseteq> ?D" using b by (rule UN_upper)
    moreover have "block_uses b \<subseteq> block_defs b \<union> LBlock ` bb_id ` set bs"
      using assms(1) b by (simp add: list_all_iff covered_def)
    ultimately show "block_uses b \<subseteq> ?D" by (meson Un_least order_trans)
  qed
  ultimately show ?thesis by (meson Un_least order_trans order_refl)
qed

lemma patch_all_defined:
  "snd ` set fs \<subseteq> dom labels \<Longrightarrow> patch_all labels fs out = Inl p \<Longrightarrow> p = BranchOverflow"
proof (induction fs arbitrary: out)
  case (Cons f fs)
  obtain off l t where f: "f = (off, l)" "labels l = Some t" using Cons.prems(1) by (cases f) auto
  then have "p = BranchOverflow" if "patch_branch labels f out = Inl p"
    using that by (auto simp: patch_branch_def ok_or_def Let_def split: if_splits)
  then show ?case using Cons by (auto simp: rbind_def split: sum.splits)
qed simp

lemma resolve_clauses_defined:
  "(\<Union>c\<in>set cs. {pc_try_start c, pc_try_end c, pc_handler_start c, pc_handler_end c}) \<subseteq> set_labels e
    \<Longrightarrow> \<exists>rs. resolve_clauses e cs = Inr rs"
proof (induction cs)
  case (Cons c cs)
  obtain rs where rs: "resolve_clauses e cs = Inr rs" using Cons.IH Cons.prems by fastforce
  have "\<exists>t. resolve_label l e = Inr t" if "l \<in> set_labels e" for l
    using that by (auto simp: resolve_label_def ok_or_def set_labels_def)
  then obtain t where t: "resolve_label l e = Inr (t l)" if "l \<in> set_labels e" for l by metis
  have "pc_try_start c \<in> set_labels e" "pc_try_end c \<in> set_labels e" "pc_handler_start c \<in> set_labels e"
    "pc_handler_end c \<in> set_labels e"
    using Cons.prems by simp_all
  then show ?case using rs t by (simp add: resolve_clause_def)
qed simp

text \<open>
  C11. A body that passes the verifier of exception regions, with no jump hidden in a terminate region, is
  materialized without a panic, for any order of the launching pads; the blocks keep their numbers, and
  when their instructions are emitted every branch, every leave and every exception clause finds its labels:
  laying out the branches can only fail for a displacement of two gigabytes.
\<close>

theorem verified_regions_assemble:
  assumes "order_ok order" "verify_exception_regions (RegionBody blocks cleanup regions locals) = Inr ()"
    and "list_all (\<lambda>b. list_all jumps_on_top (bb_roots b)) (blocks @ cleanup)"
  shows "\<exists>bs ls. materialize_legacy_body order (RegionBody blocks cleanup regions locals) = Inr (Some (bs, ls))
    \<and> map bb_id bs = map bb_id blocks
    \<and> (\<forall>e. seq (map (emit_block ts) bs) (new_emitter r) = Inr e \<longrightarrow>
        (case patch_branches e of
           Inl p \<Rightarrow> p = BranchOverflow
         | Inr e' \<Rightarrow> \<exists>cs. resolve_clauses e' (e_clauses e') = Inr cs))"
proof -
  obtain bs ls where bs: "materialize_legacy_body order (RegionBody blocks cleanup regions locals) = Inr (Some (bs, ls))"
    "map bb_id bs = map bb_id blocks" "list_all (covered (bb_id ` set blocks)) bs"
    using materialize_ok [OF assms] .
  have ids: "bb_id ` set bs = bb_id ` set blocks" using bs(2) by (metis set_map)
  have "case patch_branches e of Inl p \<Rightarrow> p = BranchOverflow | Inr e' \<Rightarrow> \<exists>cs. resolve_clauses e' (e_clauses e') = Inr cs"
    if run: "seq (map (emit_block ts) bs) (new_emitter r) = Inr e" for e
  proof -
    have named: "named_labels e \<subseteq> set_labels e" using covered_blocks [OF _ run] bs(3) ids by simp
    show ?thesis
    proof (cases "patch_all (e_label_offsets e) (e_branch_fixups e) (e_out e)")
      case (Inl p)
      then have "p = BranchOverflow" using patch_all_defined [OF _ Inl] named by (simp add: named_labels_def set_labels_def)
      then show ?thesis using Inl by (simp add: patch_branches_def)
    next
      case (Inr out)
      let ?e = "e\<lparr>e_out := out, e_branch_fixups := []\<rparr>"
      have "\<exists>cs. resolve_clauses ?e (e_clauses ?e) = Inr cs"
        using named by (intro resolve_clauses_defined) (simp add: named_labels_def set_labels_def)
      then show ?thesis using Inr by (simp add: patch_branches_def)
    qed
  qed
  then show ?thesis using bs(1,2) by blast
qed

definition guarded_body :: method_impl where
  "guarded_body = RegionBody
     [BasicBlock [RBreak, RBranch 2 0 None] 1 None None, BasicBlock [RVoidRet] 2 None None]
     [BasicBlock [RPop NGetException, RBranch 6 0 None] 5 None None, BasicBlock [RReThrow] 6 None None]
     [ExceptionRegion 1 5] []"

theorem verified_regions_assemble_witness:
  "\<exists>bs ls. materialize_legacy_body remdups guarded_body = Inr (Some (bs, ls)) \<and> map bb_id bs = [1, 2]"
proof -
  obtain bs cs rs where body: "guarded_body = RegionBody bs cs rs []" and ids: "map bb_id bs = [1, 2]"
    and ok: "verify_exception_regions (RegionBody bs cs rs []) = Inr ()" "list_all (\<lambda>b. list_all jumps_on_top (bb_roots b)) (bs @ cs)"
    unfolding guarded_body_def
    by (simp add: Let_def check_block_def targets_with_sub_def List.map_filter_def insert_commute)
  have "order_ok remdups" by (simp add: order_ok_def)
  from verified_regions_assemble [OF this ok, of undefined undefined] show ?thesis
    unfolding body using ids by auto
qed

end
