(* ===== verification/CodeExec.thy ===== *)
theory CodeExec
  imports BodyEmit "HOL-Library.Signed_Division"
begin

text \<open>
  Emitted bytes are run. An interpreter decodes the opcodes of ECMA-335 partition III and executes them on
  an evaluation stack of words; a reference evaluator computes integer trees with mathematical integers. The
  bytes that \<^verbatim>\<open>emit_node\<close> (\<^verbatim>\<open>cilly/src/ir/pe_exporter/body.rs\<close>) writes for such a tree compute what the
  reference says, the exceptions of divisions included.
\<close>

section \<open>The instruction set\<close>

datatype il_op = IAdd | ISub | IMul | IDiv | IDivUn | IRem | IRemUn | IAnd | IOr | IXor
  | IShl | IShr | IShrUn | ICeq | ICgt | ICgtUn | IClt | ICltUn

datatype il_conv = ConvI1 | ConvI2 | ConvI4 | ConvI8 | ConvU1 | ConvU2 | ConvU4 | ConvU8 | ConvI | ConvU

datatype il_instr =
    Nop | Ldnull | LdcI4 u32 | LdcI8 u64 | LdcR4 u32 | LdcR8 u64 | Ldloc u16 | Ldarg u16
  | Binary il_op | INeg | INot | Conv il_conv

text \<open>The opcodes without an operand, of one byte and of two (after \<^verbatim>\<open>0xFE\<close>).\<close>

definition one_byte_ops :: "(u8 \<times> il_instr) list" where
  "one_byte_ops =
     [(0x00, Nop), (0x02, Ldarg 0), (0x03, Ldarg 1), (0x04, Ldarg 2), (0x05, Ldarg 3),
      (0x06, Ldloc 0), (0x07, Ldloc 1), (0x08, Ldloc 2), (0x09, Ldloc 3), (0x14, Ldnull),
      (0x15, LdcI4 (- 1)), (0x16, LdcI4 0), (0x17, LdcI4 1), (0x18, LdcI4 2), (0x19, LdcI4 3), (0x1A, LdcI4 4),
      (0x1B, LdcI4 5), (0x1C, LdcI4 6), (0x1D, LdcI4 7), (0x1E, LdcI4 8),
      (0x58, Binary IAdd), (0x59, Binary ISub), (0x5A, Binary IMul), (0x5B, Binary IDiv), (0x5C, Binary IDivUn),
      (0x5D, Binary IRem), (0x5E, Binary IRemUn), (0x5F, Binary IAnd), (0x60, Binary IOr), (0x61, Binary IXor),
      (0x62, Binary IShl), (0x63, Binary IShr), (0x64, Binary IShrUn), (0x65, INeg), (0x66, INot),
      (0x67, Conv ConvI1), (0x68, Conv ConvI2), (0x69, Conv ConvI4), (0x6A, Conv ConvI8), (0x6D, Conv ConvU4),
      (0x6E, Conv ConvU8), (0xD1, Conv ConvU2), (0xD2, Conv ConvU1), (0xD3, Conv ConvI), (0xE0, Conv ConvU)]"

definition two_byte_ops :: "(u8 \<times> il_instr) list" where
  "two_byte_ops =
     [(0x01, Binary ICeq), (0x02, Binary ICgt), (0x03, Binary ICgtUn), (0x04, Binary IClt), (0x05, Binary ICltUn)]"

text \<open>An instruction whose operand takes \<open>k\<close> bytes.\<close>

definition operand :: "nat \<Rightarrow> (u8 list \<Rightarrow> il_instr) \<Rightarrow> u8 list \<Rightarrow> (il_instr \<times> u8 list) option" where
  "operand k mk bs = (if length bs < k then None else Some (mk (take k bs), drop k bs))"

fun decode_il :: "u8 list \<Rightarrow> (il_instr \<times> u8 list) option" where
  "decode_il [] = None"
| "decode_il (b # bs) =
     (case map_of one_byte_ops b of
        Some i \<Rightarrow> Some (i, bs)
      | None \<Rightarrow>
          if b = 0x0E then operand 1 (\<lambda>x. Ldarg (of_le x)) bs
          else if b = 0x11 then operand 1 (\<lambda>x. Ldloc (of_le x)) bs
          else if b = 0x1F then operand 1 (\<lambda>x. LdcI4 (scast (hd x))) bs
          else if b = 0x20 then operand 4 (\<lambda>x. LdcI4 (of_le x)) bs
          else if b = 0x21 then operand 8 (\<lambda>x. LdcI8 (of_le x)) bs
          else if b = 0x22 then operand 4 (\<lambda>x. LdcR4 (of_le x)) bs
          else if b = 0x23 then operand 8 (\<lambda>x. LdcR8 (of_le x)) bs
          else if b = 0xFE then
            (case bs of
               [] \<Rightarrow> None
             | x # bs \<Rightarrow>
                 (case map_of two_byte_ops x of
                    Some i \<Rightarrow> Some (i, bs)
                  | None \<Rightarrow>
                      if x = 0x09 then operand 2 (\<lambda>x. Ldarg (of_le x)) bs
                      else if x = 0x0C then operand 2 (\<lambda>x. Ldloc (of_le x)) bs
                      else None))
          else None)"

section \<open>Execution on words\<close>

text \<open>A division may throw; operands an instruction is not defined for leave the machine stuck.\<close>

datatype il_fault = DivideByZero | ArithmeticOverflow | Stuck

fun word_op :: "il_op \<Rightarrow> 'w::len word \<Rightarrow> 'w word \<Rightarrow> (il_fault, 'w word) result" where
  "word_op IAdd a b = Inr (a + b)"
| "word_op ISub a b = Inr (a - b)"
| "word_op IMul a b = Inr (a * b)"
| "word_op IDiv a b =
     (if b = 0 then Inl DivideByZero
      else if sint a = - (2 ^ (LENGTH('w) - 1)) \<and> b = - 1 then Inl ArithmeticOverflow
      else Inr (word_of_int (sint a sdiv sint b)))"
| "word_op IRem a b =
     (if b = 0 then Inl DivideByZero
      else if sint a = - (2 ^ (LENGTH('w) - 1)) \<and> b = - 1 then Inl ArithmeticOverflow
      else Inr (word_of_int (sint a smod sint b)))"
| "word_op IDivUn a b = (if b = 0 then Inl DivideByZero else Inr (a div b))"
| "word_op IRemUn a b = (if b = 0 then Inl DivideByZero else Inr (a mod b))"
| "word_op IAnd a b = Inr (and a b)"
| "word_op IOr a b = Inr (or a b)"
| "word_op IXor a b = Inr (xor a b)"
| "word_op _ a b = Inl Stuck"

fun word_cmp :: "il_op \<Rightarrow> 'w::len word \<Rightarrow> 'w word \<Rightarrow> bool option" where
  "word_cmp ICeq a b = Some (a = b)"
| "word_cmp ICgt a b = Some (word_sless b a)"
| "word_cmp ICgtUn a b = Some (b < a)"
| "word_cmp IClt a b = Some (word_sless a b)"
| "word_cmp ICltUn a b = Some (a < b)"
| "word_cmp _ a b = None"

fun is_shift_op :: "il_op \<Rightarrow> bool" where
  "is_shift_op IShl = True" | "is_shift_op IShr = True" | "is_shift_op IShrUn = True" | "is_shift_op _ = False"

definition word_shift :: "il_op \<Rightarrow> 'w::len word \<Rightarrow> nat \<Rightarrow> (il_fault, 'w word) result" where
  "word_shift opr a n =
     (if LENGTH('w) \<le> n then Inl Stuck
      else case opr of
        IShl \<Rightarrow> Inr (push_bit n a)
      | IShr \<Rightarrow> Inr (signed_drop_bit n a)
      | IShrUn \<Rightarrow> Inr (drop_bit n a)
      | _ \<Rightarrow> Inl Stuck)"

definition binary :: "il_op \<Rightarrow> ('w::len word \<Rightarrow> stack_item) \<Rightarrow> 'w word \<Rightarrow> 'w word \<Rightarrow> (il_fault, stack_item) result" where
  "binary opr con a b =
     (case word_cmp opr a b of
        Some c \<Rightarrow> Inr (SI32 (if c then 1 else 0))
      | None \<Rightarrow> map_sum id con (word_op opr a b))"

text \<open>The operand types of III.1.5: equal integers, or a 32-bit one beside a native one.\<close>

fun exec_arith :: "il_op \<Rightarrow> stack_item \<Rightarrow> stack_item \<Rightarrow> (il_fault, stack_item) result" where
  "exec_arith opr (SI32 a) (SI32 b) = binary opr SI32 a b"
| "exec_arith opr (SI64 a) (SI64 b) = binary opr SI64 a b"
| "exec_arith opr (SNative a) (SNative b) = binary opr SNative a b"
| "exec_arith opr (SI32 a) (SNative b) = binary opr SNative (scast a) b"
| "exec_arith opr (SNative a) (SI32 b) = binary opr SNative a (scast b)"
| "exec_arith opr _ _ = Inl Stuck"

fun exec_shift :: "il_op \<Rightarrow> stack_item \<Rightarrow> nat \<Rightarrow> (il_fault, stack_item) result" where
  "exec_shift opr (SI32 a) n = map_sum id SI32 (word_shift opr a n)"
| "exec_shift opr (SI64 a) n = map_sum id SI64 (word_shift opr a n)"
| "exec_shift opr (SNative a) n = map_sum id SNative (word_shift opr a n)"
| "exec_shift opr _ n = Inl Stuck"

definition exec_binary :: "il_op \<Rightarrow> stack_item \<Rightarrow> stack_item \<Rightarrow> (il_fault, stack_item) result" where
  "exec_binary opr x y =
     (if is_shift_op opr then
        (case y of SI32 n \<Rightarrow> exec_shift opr x (unat n) | SNative n \<Rightarrow> exec_shift opr x (unat n) | _ \<Rightarrow> Inl Stuck)
      else exec_arith opr x y)"

fun exec_neg :: "stack_item \<Rightarrow> (il_fault, stack_item) result" where
  "exec_neg (SI32 a) = Inr (SI32 (- a))"
| "exec_neg (SI64 a) = Inr (SI64 (- a))"
| "exec_neg (SNative a) = Inr (SNative (- a))"
| "exec_neg _ = Inl Stuck"

fun exec_not :: "stack_item \<Rightarrow> (il_fault, stack_item) result" where
  "exec_not (SI32 a) = Inr (SI32 (not a))"
| "exec_not (SI64 a) = Inr (SI64 (not a))"
| "exec_not (SNative a) = Inr (SNative (not a))"
| "exec_not _ = Inl Stuck"

text \<open>A conversion of a word; \<open>k\<close> tells whether the word is the 32-bit one it may have to extend.\<close>

definition conv_word :: "il_conv \<Rightarrow> 'w::len word \<Rightarrow> stack_item" where
  "conv_word c a =
     (case c of
        ConvI1 \<Rightarrow> SI32 (scast (ucast a :: u8))
      | ConvU1 \<Rightarrow> SI32 (ucast (ucast a :: u8))
      | ConvI2 \<Rightarrow> SI32 (scast (ucast a :: u16))
      | ConvU2 \<Rightarrow> SI32 (ucast (ucast a :: u16))
      | ConvI4 \<Rightarrow> SI32 (ucast a)
      | ConvU4 \<Rightarrow> SI32 (ucast a)
      | ConvI8 \<Rightarrow> SI64 (scast a)
      | ConvU8 \<Rightarrow> SI64 (ucast a)
      | ConvI \<Rightarrow> SNative (scast a)
      | ConvU \<Rightarrow> SNative (ucast a))"

fun exec_conv :: "il_conv \<Rightarrow> stack_item \<Rightarrow> (il_fault, stack_item) result" where
  "exec_conv c (SI32 a) = Inr (conv_word c a)"
| "exec_conv c (SI64 a) = Inr (conv_word c a)"
| "exec_conv c (SNative a) = Inr (conv_word c a)"
| "exec_conv c _ = Inl Stuck"

text \<open>One instruction, with the values of the locals and of the arguments.\<close>

fun exec_il ::
  "(u16 \<Rightarrow> stack_item) \<Rightarrow> (u16 \<Rightarrow> stack_item) \<Rightarrow> il_instr \<Rightarrow> stack_item list \<Rightarrow> (il_fault, stack_item list) result" where
  "exec_il locs args Nop st = Inr st"
| "exec_il locs args Ldnull st = Inr (SNull # st)"
| "exec_il locs args (LdcI4 v) st = Inr (SI32 v # st)"
| "exec_il locs args (LdcI8 v) st = Inr (SI64 v # st)"
| "exec_il locs args (LdcR4 v) st = Inr (SF32 v # st)"
| "exec_il locs args (LdcR8 v) st = Inr (SF64 v # st)"
| "exec_il locs args (Ldloc l) st = Inr (locs l # st)"
| "exec_il locs args (Ldarg a) st = Inr (args a # st)"
| "exec_il locs args (Binary opr) st =
     (case st of y # x # st \<Rightarrow> rbind (exec_binary opr x y) (\<lambda>v. Inr (v # st)) | _ \<Rightarrow> Inl Stuck)"
| "exec_il locs args INeg st = (case st of x # st \<Rightarrow> rbind (exec_neg x) (\<lambda>v. Inr (v # st)) | _ \<Rightarrow> Inl Stuck)"
| "exec_il locs args INot st = (case st of x # st \<Rightarrow> rbind (exec_not x) (\<lambda>v. Inr (v # st)) | _ \<Rightarrow> Inl Stuck)"
| "exec_il locs args (Conv c) st = (case st of x # st \<Rightarrow> rbind (exec_conv c x) (\<lambda>v. Inr (v # st)) | _ \<Rightarrow> Inl Stuck)"

lemma decode_il_shorter: "decode_il bs = Some (i, bs') \<Longrightarrow> length bs' < length bs"
  by (cases bs) (auto simp: operand_def split: option.splits if_splits list.splits)

function run_il ::
  "(u16 \<Rightarrow> stack_item) \<Rightarrow> (u16 \<Rightarrow> stack_item) \<Rightarrow> u8 list \<Rightarrow> stack_item list \<Rightarrow> (il_fault, stack_item list) result" where
  "run_il locs args bs st =
     (if bs = [] then Inr st
      else case decode_il bs of
        None \<Rightarrow> Inl Stuck
      | Some (i, bs) \<Rightarrow> rbind (exec_il locs args i st) (run_il locs args bs))"
  by pat_completeness auto
termination by (relation "measure (\<lambda>(_, _, bs, _). length bs)") (auto simp: decode_il_shorter)

declare run_il.simps [simp del]

section \<open>The reference evaluator\<close>

text \<open>
  An integer on the stack is a number in the signed range of its kind. Operators are those of the intermediate
  representation on such numbers; the result is reduced to the kind.
\<close>

datatype kind = K32 | K64 | KNative

fun kind_bits :: "kind \<Rightarrow> nat" where
  "kind_bits K32 = 32" | "kind_bits K64 = 64" | "kind_bits KNative = 64"

fun view :: "stack_item \<Rightarrow> (kind \<times> int) option" where
  "view (SI32 a) = Some (K32, sint a)"
| "view (SI64 a) = Some (K64, sint a)"
| "view (SNative a) = Some (KNative, sint a)"
| "view _ = None"

fun item_of :: "kind \<Rightarrow> int \<Rightarrow> stack_item" where
  "item_of K32 v = SI32 (word_of_int v)"
| "item_of K64 v = SI64 (word_of_int v)"
| "item_of KNative v = SNative (word_of_int v)"

fun common_kind :: "kind \<Rightarrow> kind \<Rightarrow> kind option" where
  "common_kind K32 KNative = Some KNative"
| "common_kind KNative K32 = Some KNative"
| "common_kind k k' = (if k = k' then Some k else None)"

fun int_op :: "bin_op \<Rightarrow> nat \<Rightarrow> int \<Rightarrow> int \<Rightarrow> (il_fault, int) result" where
  "int_op Add n a b = Inr (a + b)"
| "int_op Sub n a b = Inr (a - b)"
| "int_op Mul n a b = Inr (a * b)"
| "int_op Div n a b =
     (if b = 0 then Inl DivideByZero else if a = - (2 ^ (n - 1)) \<and> b = - 1 then Inl ArithmeticOverflow
      else Inr (a sdiv b))"
| "int_op Rem n a b =
     (if b = 0 then Inl DivideByZero else if a = - (2 ^ (n - 1)) \<and> b = - 1 then Inl ArithmeticOverflow
      else Inr (a smod b))"
| "int_op DivUn n a b = (if b = 0 then Inl DivideByZero else Inr ((a mod 2 ^ n) div (b mod 2 ^ n)))"
| "int_op RemUn n a b = (if b = 0 then Inl DivideByZero else Inr ((a mod 2 ^ n) mod (b mod 2 ^ n)))"
| "int_op And n a b = Inr (and a b)"
| "int_op Or n a b = Inr (or a b)"
| "int_op XOr n a b = Inr (xor a b)"
| "int_op Shl n a b = (if b < 0 \<or> int n \<le> b then Inl Stuck else Inr (a * 2 ^ nat b))"
| "int_op Shr n a b = (if b < 0 \<or> int n \<le> b then Inl Stuck else Inr (a div 2 ^ nat b))"
| "int_op ShrUn n a b = (if b < 0 \<or> int n \<le> b then Inl Stuck else Inr ((a mod 2 ^ n) div 2 ^ nat b))"
| "int_op Eq n a b = Inr (of_bool (a = b))"
| "int_op Gt n a b = Inr (of_bool (b < a))"
| "int_op GtUn n a b = Inr (of_bool (b mod 2 ^ n < a mod 2 ^ n))"
| "int_op Lt n a b = Inr (of_bool (a < b))"
| "int_op LtUn n a b = Inr (of_bool (a mod 2 ^ n < b mod 2 ^ n))"

definition tree_binary :: "bin_op \<Rightarrow> stack_item \<Rightarrow> stack_item \<Rightarrow> (il_fault, stack_item) result" where
  "tree_binary op x y =
     (case (view x, view y) of
        (Some (k, a), Some (k', b)) \<Rightarrow>
          if op \<in> {Shl, Shr, ShrUn} then
            (if k' = K64 then Inl Stuck else map_sum id (item_of k) (int_op op (kind_bits k) a b))
          else (case common_kind k k' of
              None \<Rightarrow> Inl Stuck
            | Some j \<Rightarrow> map_sum id (if op \<in> {Eq, Gt, GtUn, Lt, LtUn} then item_of K32 else item_of j) (int_op op (kind_bits j) a b))
      | _ \<Rightarrow> Inl Stuck)"

definition tree_unary :: "(int \<Rightarrow> int) \<Rightarrow> stack_item \<Rightarrow> (il_fault, stack_item) result" where
  "tree_unary f x = (case view x of Some (k, a) \<Rightarrow> Inr (item_of k (f a)) | None \<Rightarrow> Inl Stuck)"

text \<open>
  A cast to 8 or 16 bits reduces and extends as the cast says, whatever the sign of the target; one to 64 bits
  or to a native integer extends a 32-bit number.
\<close>

definition int_cast_of :: "cil_int \<Rightarrow> extend_kind \<Rightarrow> kind \<Rightarrow> int \<Rightarrow> stack_item" where
  "int_cast_of target ext k a =
     (let small = (\<lambda>n. case ext of ZeroExtend \<Rightarrow> a mod 2 ^ n | SignExtend \<Rightarrow> (a + 2 ^ (n - 1)) mod 2 ^ n - 2 ^ (n - 1));
          wide = (if k = K32 \<and> ext = ZeroExtend then a mod 2 ^ 32 else a)
      in if target \<in> {I8, U8} then item_of K32 (small 8)
         else if target \<in> {I16, U16} then item_of K32 (small 16)
         else if target \<in> {I32, U32} then item_of K32 a
         else if target \<in> {I64, U64} then item_of K64 wide
         else item_of KNative wide)"

definition tree_cast :: "cil_int \<Rightarrow> extend_kind \<Rightarrow> stack_item \<Rightarrow> (il_fault, stack_item) result" where
  "tree_cast target ext x = (case view x of Some (k, a) \<Rightarrow> Inr (int_cast_of target ext k a) | None \<Rightarrow> Inl Stuck)"

text \<open>
  Trees of constants, locals, arguments, integer operators and casts; the wide forms of a slot access name slots
  of 16 bits.
\<close>

fun arithmetic :: "cil_node \<Rightarrow> bool" where
  "arithmetic (NConst c) = (stack_value c \<noteq> None)"
| "arithmetic (NLdLoc l) = (l < 0x10000)"
| "arithmetic (NLdArg a) = (a < 0x10000)"
| "arithmetic (NBinOp l r _) = (arithmetic l \<and> arithmetic r)"
| "arithmetic (NUnOp n _) = arithmetic n"
| "arithmetic (NIntCast n target _) = (arithmetic n \<and> target \<notin> {I128, U128})"
| "arithmetic (NRefToPtr n) = arithmetic n"
| "arithmetic (NPtrCast n _) = arithmetic n"
| "arithmetic _ = False"

fun tree_value :: "(u16 \<Rightarrow> stack_item) \<Rightarrow> (u16 \<Rightarrow> stack_item) \<Rightarrow> cil_node \<Rightarrow> (il_fault, stack_item) result" where
  "tree_value locs args (NConst c) = (case stack_value c of Some v \<Rightarrow> Inr v | None \<Rightarrow> Inl Stuck)"
| "tree_value locs args (NLdLoc l) = Inr (locs (ucast l))"
| "tree_value locs args (NLdArg a) = Inr (args (ucast a))"
| "tree_value locs args (NBinOp l r op) =
     rbind (tree_value locs args l) (\<lambda>x. rbind (tree_value locs args r) (tree_binary op x))"
| "tree_value locs args (NUnOp n op) =
     rbind (tree_value locs args n) (tree_unary (case op of Neg \<Rightarrow> uminus | Not \<Rightarrow> (\<lambda>a. - a - 1)))"
| "tree_value locs args (NIntCast n target ext) = rbind (tree_value locs args n) (tree_cast target ext)"
| "tree_value locs args (NRefToPtr n) = rbind (tree_value locs args n) (tree_cast USize ZeroExtend)"
| "tree_value locs args (NPtrCast n _) = tree_value locs args n"
| "tree_value locs args _ = Inl Stuck"

section \<open>The two evaluators agree\<close>

fun il_of :: "bin_op \<Rightarrow> il_op" where
  "il_of Add = IAdd" | "il_of Sub = ISub" | "il_of Mul = IMul" | "il_of Div = IDiv" | "il_of DivUn = IDivUn"
| "il_of Rem = IRem" | "il_of RemUn = IRemUn" | "il_of And = IAnd" | "il_of Or = IOr" | "il_of XOr = IXor"
| "il_of Shl = IShl" | "il_of Shr = IShr" | "il_of ShrUn = IShrUn" | "il_of Eq = ICeq" | "il_of Gt = ICgt"
| "il_of GtUn = ICgtUn" | "il_of Lt = IClt" | "il_of LtUn = ICltUn"

definition conv_of :: "cil_int \<Rightarrow> extend_kind \<Rightarrow> il_conv" where
  "conv_of target ext =
     (if target \<in> {I8, U8} then (if ext = ZeroExtend then ConvU1 else ConvI1)
      else if target \<in> {I16, U16} then (if ext = ZeroExtend then ConvU2 else ConvI2)
      else if target \<in> {I32, U32} then (if ext = ZeroExtend then ConvU4 else ConvI4)
      else if target \<in> {I64, U64} then (if ext = ZeroExtend then ConvU8 else ConvI8)
      else (if ext = ZeroExtend then ConvU else ConvI))"

lemma sint_mod: "sint (a :: 'w::len word) mod 2 ^ LENGTH('w) = uint a"
  by (metis take_bit_eq_mod uint_sint)

lemma sint_0_iff: "sint (a :: 'w::len word) = 0 \<longleftrightarrow> a = 0"
  using signed_word_eqI [of a 0] by auto

lemma sint_m1_iff: "sint (a :: 'w::len word) = - 1 \<longleftrightarrow> a = - 1"
  using signed_word_eqI [of a "- 1"] by auto

lemma word_of_uint_op:
  "word_of_int (uint a div uint b) = (a :: 'w::len word) div b"
  "word_of_int (uint a mod uint b) = (a :: 'w::len word) mod b"
  by (simp_all add: word_div_def word_mod_def)

lemma word_of_sint_bit:
  "word_of_int (and (sint a) (sint b)) = and a (b :: 'w::len word)"
  "word_of_int (or (sint a) (sint b)) = or a (b :: 'w::len word)"
  "word_of_int (xor (sint a) (sint b)) = xor a (b :: 'w::len word)"
  by (rule bit_word_eqI, simp add: bit_word_of_int_iff bit_and_iff bit_or_iff bit_xor_iff bit_sint_iff)+

lemma int_op_word:
  fixes a b :: "'w::len word"
  assumes "op \<notin> {Shl, Shr, ShrUn}"
  shows "(case word_cmp (il_of op) a b of Some c \<Rightarrow> Inr (SI32 (if c then 1 else 0)) | None \<Rightarrow> map_sum id con (word_op (il_of op) a b))
    = map_sum id (if op \<in> {Eq, Gt, GtUn, Lt, LtUn} then item_of K32 else con \<circ> word_of_int) (int_op op (LENGTH('w)) (sint a) (sint b))"
  using assms
  by (cases op) (auto simp: sint_mod sint_0_iff sint_m1_iff word_of_uint_op word_of_sint_bit word_sless_alt word_less_def
      signed_word_eqI of_bool_def)


lemma word_of_bits:
  "kind_bits K32 = LENGTH(32)" "kind_bits K64 = LENGTH(64)" "kind_bits KNative = LENGTH(64)"
  by simp_all

lemma sint_of_word: "sint (word_of_int v :: 'w::len word) = signed_take_bit (LENGTH('w) - 1) v"
  by (simp add: signed_of_int)

lemma sint_scast_wide: "sint (scast a :: u64) = sint (a :: u32)"
proof -
  have "sint (scast a :: u64) = signed_take_bit 63 (sint a)"
    unfolding scast_eq by (simp only: sint_of_word) simp
  then show ?thesis using sint_greater_eq [of a] sint_less [of a] by (simp add: signed_take_bit_int_eq_self)
qed

lemma binary_int:
  fixes a b :: "'w::len word"
  assumes "op \<notin> {Shl, Shr, ShrUn}"
  shows "binary (il_of op) con a b
    = map_sum id (if op \<in> {Eq, Gt, GtUn, Lt, LtUn} then item_of K32 else con \<circ> word_of_int) (int_op op (LENGTH('w)) (sint a) (sint b))"
  unfolding binary_def by (rule int_op_word [OF assms])

lemma items_of:
  "SI32 \<circ> word_of_int = item_of K32" "SI64 \<circ> word_of_int = item_of K64" "SNative \<circ> word_of_int = item_of KNative"
  by (simp_all add: fun_eq_iff)

lemma arith_agrees:
  assumes "op \<notin> {Shl, Shr, ShrUn}"
  shows "exec_arith (il_of op) x y = tree_binary op x y"
proof -
  have t: "tree_binary op x y =
     (case (view x, view y) of
        (Some (k, a), Some (k', b)) \<Rightarrow>
          (case common_kind k k' of
              None \<Rightarrow> Inl Stuck
            | Some j \<Rightarrow> map_sum id (if op \<in> {Eq, Gt, GtUn, Lt, LtUn} then item_of K32 else item_of j) (int_op op (kind_bits j) a b))
      | _ \<Rightarrow> Inl Stuck)"
    unfolding tree_binary_def by (simp only: assms if_False)
  show ?thesis
    unfolding t by (cases x; cases y)
      (simp_all only: exec_arith.simps binary_int [OF assms] items_of sint_scast_wide view.simps common_kind.simps kind_bits.simps
        option.case prod.case len_num1 len_num0 len_bit0 len_bit1, simp_all)
qed

lemma wrapped:
  fixes u s h k :: int
  assumes "u = (if 0 \<le> s then s else s + 2 * h)" "- h \<le> s" "k < h"
  shows "s < 0 \<or> k \<le> s \<longleftrightarrow> k \<le> u" "u < k \<Longrightarrow> s = u"
  using assms by (auto split: if_splits)

lemma nat_sint:
  fixes n :: "'w::len word" and k :: nat
  assumes "k < 2 ^ (LENGTH('w) - 1)"
  shows "(sint n < 0 \<or> int k \<le> sint n) \<longleftrightarrow> k \<le> unat n" "unat n < k \<Longrightarrow> nat (sint n) = unat n"
proof -
  let ?h = "2 ^ (LENGTH('w) - 1) :: int"
  have h: "(2 :: int) ^ LENGTH('w) = 2 * ?h" by (cases "LENGTH('w)") simp_all
  have b: "- ?h \<le> sint n" "sint n < ?h" using sint_greater_eq [of n] sint_less [of n] by simp_all
  have "int k < int (2 ^ (LENGTH('w) - 1))" using assms by (simp only: of_nat_less_iff)
  then have k: "int k < ?h" by simp
  have u: "uint n = (if 0 \<le> sint n then sint n else sint n + 2 * ?h)"
  proof (cases "0 \<le> sint n")
    case True
    then show ?thesis using sint_mod [of n] b h by simp
  next
    case False
    have "(sint n + 2 * ?h) mod (2 * ?h) = sint n + 2 * ?h" using False b by (intro mod_pos_pos_trivial) simp_all
    then show ?thesis using sint_mod [of n] False h by simp
  qed
  from wrapped [OF u b(1) k] show "(sint n < 0 \<or> int k \<le> sint n) \<longleftrightarrow> k \<le> unat n" "unat n < k \<Longrightarrow> nat (sint n) = unat n"
    by (simp_all only: uint_nat of_nat_le_iff of_nat_less_iff nat_int)
qed

lemma uint_drop_bit: "uint (drop_bit n a) = drop_bit n (uint (a :: 'w::len word))"
  by (simp add: unsigned_drop_bit_eq del: take_bit_of_int) (simp add: take_bit_int_eq_self)

lemma shift_agrees:
  fixes a :: "'w::len word" and n :: "'v::len word"
  assumes "op \<in> {Shl, Shr, ShrUn}" "LENGTH('w) < 2 ^ (LENGTH('v) - 1)"
  shows "map_sum id con (word_shift (il_of op) a (unat n)) = map_sum id (con \<circ> word_of_int) (int_op op LENGTH('w) (sint a) (sint n))"
proof (cases "LENGTH('w) \<le> unat n")
  case True
  then have "sint n < 0 \<or> int LENGTH('w) \<le> sint n" using nat_sint(1) [OF assms(2), of n] by blast
  then show ?thesis using True assms(1) by (auto simp: word_shift_def)
next
  case False
  then have n: "\<not> (sint n < 0 \<or> int LENGTH('w) \<le> sint n)" "nat (sint n) = unat n"
    using nat_sint [OF assms(2), of n] by auto
  have "word_of_int (sint a * 2 ^ unat n) = push_bit (unat n) a"
    by (simp add: push_bit_eq_mult)
  moreover have "word_of_int (sint a div 2 ^ unat n) = signed_drop_bit (unat n) a"
    using arg_cong [OF sint_signed_drop_bit_eq, of "word_of_int :: int \<Rightarrow> 'w word" "unat n" a] by (simp add: drop_bit_eq_div)
  moreover have "word_of_int (uint a div 2 ^ unat n) = drop_bit (unat n) a"
    using arg_cong [OF uint_drop_bit, of "word_of_int :: int \<Rightarrow> 'w word" "unat n" a] by (simp add: drop_bit_eq_div)
  ultimately show ?thesis using False n assms(1) by (auto simp: word_shift_def sint_mod)
qed

lemma binary_agrees: "exec_binary (il_of op) x y = tree_binary op x y"
proof (cases "op \<in> {Shl, Shr, ShrUn}")
  case True
  have s: "is_shift_op (il_of op)" using True by auto
  show ?thesis
    using True s by (cases x; cases y) (simp_all add: exec_binary_def tree_binary_def shift_agrees items_of del: item_of.simps int_op.simps il_of.simps)
next
  case False
  then have "\<not> is_shift_op (il_of op)" by (cases op) simp_all
  then show ?thesis using arith_agrees [OF False] by (simp add: exec_binary_def)
qed

lemma binary_agrees_fun: "exec_binary (il_of op) = tree_binary op"
  by (intro ext binary_agrees)

lemma unary_agrees: "exec_neg x = tree_unary uminus x" "exec_not x = tree_unary (\<lambda>a. - a - 1) x"
  by (cases x; simp add: tree_unary_def not_eq_complement)+

lemma ucast_sint:
  fixes a :: "'w::len word"
  assumes "LENGTH('n::len) \<le> LENGTH('w)"
  shows "(ucast a :: 'n word) = word_of_int (sint a)"
proof -
  have "word_of_int (sint a) = (word_of_int (uint a) :: 'n word)"
    unfolding word_of_int_eq_iff by (subst sint_uint, rule take_bit_signed_take_bit) (use assms in simp)
  then show ?thesis by (simp only: ucast_eq)
qed

lemma small_cast:
  fixes a :: "'w::len word"
  assumes "LENGTH('n::len) \<le> LENGTH('w)"
  shows "(ucast (ucast a :: 'n word) :: u32) = word_of_int (sint a mod 2 ^ LENGTH('n))"
    "(scast (ucast a :: 'n word) :: u32) = word_of_int ((sint a + 2 ^ (LENGTH('n) - 1)) mod 2 ^ LENGTH('n) - 2 ^ (LENGTH('n) - 1))"
proof -
  have "uint (ucast a :: 'n word) = take_bit LENGTH('n) (sint a)"
    unfolding ucast_sint [OF assms, of a] by (rule uint_word_of_int_eq)
  then show "(ucast (ucast a :: 'n word) :: u32) = word_of_int (sint a mod 2 ^ LENGTH('n))"
    by (subst ucast_eq) (simp only: take_bit_eq_mod)
  have "sint (ucast a :: 'n word) = signed_take_bit (LENGTH('n) - 1) (sint a)"
    unfolding ucast_sint [OF assms, of a] by (rule sint_of_word)
  also have "\<dots> = (sint a + 2 ^ (LENGTH('n) - 1)) mod 2 ^ LENGTH('n) - 2 ^ (LENGTH('n) - 1)"
    by (simp add: signed_take_bit_eq_take_bit_shift take_bit_eq_mod)
  finally show "(scast (ucast a :: 'n word) :: u32) =
      word_of_int ((sint a + 2 ^ (LENGTH('n) - 1)) mod 2 ^ LENGTH('n) - 2 ^ (LENGTH('n) - 1))"
    by (subst scast_eq) (simp only:)
qed

lemma conv_word_agrees:
  fixes a :: "'w::len word"
  assumes "target \<notin> {I128, U128}" "LENGTH('w) = 32 \<and> k = K32 \<or> LENGTH('w) = 64 \<and> k \<noteq> K32"
  shows "conv_word (conv_of target ext) a = int_cast_of target ext k (sint a)"
proof -
  have len: "LENGTH(8) \<le> LENGTH('w)" "LENGTH(16) \<le> LENGTH('w)" "LENGTH(32) \<le> LENGTH('w)" using assms(2) by auto
  have small: "SI32 (ucast (ucast a :: u8)) = item_of K32 (sint a mod 2 ^ 8)"
    "SI32 (ucast (ucast a :: u16)) = item_of K32 (sint a mod 2 ^ 16)"
    "SI32 (scast (ucast a :: u8)) = item_of K32 ((sint a + 2 ^ (8 - 1)) mod 2 ^ 8 - 2 ^ (8 - 1))"
    "SI32 (scast (ucast a :: u16)) = item_of K32 ((sint a + 2 ^ (16 - 1)) mod 2 ^ 16 - 2 ^ (16 - 1))"
    "SI32 (ucast a) = item_of K32 (sint a)"
    using small_cast [OF len(1), of a] small_cast [OF len(2), of a] ucast_sint [OF len(3), of a]
    by (simp_all only: item_of.simps len_num1 len_num0 len_bit0 len_bit1) simp_all
  have "(ucast a :: u64) = word_of_int (if k = K32 then sint a mod 2 ^ 32 else sint a)"
  proof (cases "k = K32")
    case True
    then have "sint a mod 2 ^ 32 = uint a" using assms(2) sint_mod [of a] by auto
    then show ?thesis using True by (simp only: simp_thms if_True ucast_eq)
  next
    case False
    then have "LENGTH(64) \<le> LENGTH('w)" using assms(2) by auto
    then show ?thesis using ucast_sint [of a] False by (simp only: if_False)
  qed
  then have wide: "SI64 (ucast a) = item_of K64 (if k = K32 then sint a mod 2 ^ 32 else sint a)"
    "SNative (ucast a) = item_of KNative (if k = K32 then sint a mod 2 ^ 32 else sint a)"
    "SI64 (scast a) = item_of K64 (sint a)" "SNative (scast a) = item_of KNative (sint a)"
    by (simp_all only: item_of.simps scast_eq)
  show ?thesis
    using assms(1)
    by (cases target; cases ext) (simp_all add: conv_of_def conv_word_def int_cast_of_def small wide del: item_of.simps)
qed

lemma conv_agrees: "target \<notin> {I128, U128} \<Longrightarrow> exec_conv (conv_of target ext) x = tree_cast target ext x"
  by (cases x) (simp_all add: tree_cast_def conv_word_agrees)

section \<open>Emitted code runs\<close>

text \<open>The emitter \<open>f\<close> appends bytes that push what \<open>v\<close> says, or throw, whatever follows them.\<close>

definition executes ::
  "(u16 \<Rightarrow> stack_item) \<Rightarrow> (u16 \<Rightarrow> stack_item) \<Rightarrow> 'r emit \<Rightarrow> (il_fault, stack_item) result \<Rightarrow> bool" where
  "executes locs args f v \<longleftrightarrow> (\<exists>code. f = push_bytes code \<and>
     (\<forall>rest st. run_il locs args (code @ rest) st = rbind v (\<lambda>v. run_il locs args rest (v # st))))"

lemma run_il_step: "decode_il bs = Some (i, bs') \<Longrightarrow> run_il locs args bs st = rbind (exec_il locs args i st) (run_il locs args bs')"
  by (subst run_il.simps) (cases bs; simp)

lemma decode_tables [simp]:
  "decode_il (0xFE # x # bs) = (case map_of two_byte_ops x of Some i \<Rightarrow> Some (i, bs)
     | None \<Rightarrow> if x = 0x09 then operand 2 (\<lambda>x. Ldarg (of_le x)) bs
               else if x = 0x0C then operand 2 (\<lambda>x. Ldloc (of_le x)) bs else None)"
  by (simp add: one_byte_ops_def)

lemma ladder: "0x15 \<le> (b :: u8) \<Longrightarrow> b \<le> 0x1E \<Longrightarrow>
  b = 0x15 \<or> b = 0x16 \<or> b = 0x17 \<or> b = 0x18 \<or> b = 0x19 \<or> b = 0x1A \<or> b = 0x1B \<or> b = 0x1C \<or> b = 0x1D \<or> b = 0x1E"
proof -
  assume a: "0x15 \<le> b" "b \<le> 0x1E"
  have "21 \<le> unat b" "unat b \<le> 30" using a by (simp_all add: word_le_nat_alt)
  then have "unat b = 21 \<or> unat b = 22 \<or> unat b = 23 \<or> unat b = 24 \<or> unat b = 25 \<or> unat b = 26 \<or> unat b = 27
      \<or> unat b = 28 \<or> unat b = 29 \<or> unat b = 30" by presburger
  then show ?thesis by (simp add: word_unat_eq_iff)
qed

text \<open>The steps that load and widen constants are steps of the machine.\<close>

lemma step_load_cases:
  assumes "step_load (b # cs) st = Some (bs', st')"
  shows "b \<in> {0x14, 0x15, 0x16, 0x17, 0x18, 0x19, 0x1A, 0x1B, 0x1C, 0x1D, 0x1E, 0x1F, 0x20, 0x21, 0x22, 0x23} \<or>
    (b \<in> {0x6A, 0x6E, 0xD3, 0xE0} \<and> (\<exists>x y us. st = x # us \<and> widen b x = Some y \<and> bs' = cs \<and> st' = y # us))"
proof (cases "b \<in> {0x14, 0x1F, 0x20, 0x21, 0x22, 0x23} \<or> 0x15 \<le> b \<and> b \<le> 0x1E")
  case True
  then show ?thesis using ladder [of b] by auto
next
  case False
  then obtain x us y where x: "st = x # us" "widen b x = Some y" "bs' = cs" "st' = y # us"
    using assms by (cases st) auto
  then have "b \<in> {0x6A, 0x6E, 0xD3, 0xE0}" by (cases x) (auto split: if_splits)
  then show ?thesis using x by blast
qed

lemma conv_word_same: "conv_word ConvI8 (a :: u64) = SI64 a" "conv_word ConvU8 (a :: u64) = SI64 a"
  "conv_word ConvI (a :: u64) = SNative a" "conv_word ConvU (a :: u64) = SNative a"
  unfolding conv_word_def il_conv.case by (simp_all only: scast_id ucast_id)
lemma conv_word_wide: "conv_word ConvI8 (a :: u32) = SI64 (scast a)" "conv_word ConvU8 (a :: u32) = SI64 (ucast a)"
  "conv_word ConvI (a :: u32) = SNative (scast a)" "conv_word ConvU (a :: u32) = SNative (ucast a)"
  unfolding conv_word_def il_conv.case by (rule refl)+

lemma widen_conv:
  "widen 0x6A x = Some y \<Longrightarrow> exec_conv ConvI8 x = Inr y"
  "widen 0x6E x = Some y \<Longrightarrow> exec_conv ConvU8 x = Inr y"
  "widen 0xD3 x = Some y \<Longrightarrow> exec_conv ConvI x = Inr y"
  "widen 0xE0 x = Some y \<Longrightarrow> exec_conv ConvU x = Inr y"
  by (cases x; auto simp: conv_word_same conv_word_wide)+

lemma step_load_decode:
  assumes "step_load (b # cs) st = Some (bs', st')"
  shows "\<exists>i. decode_il (b # cs @ rest) = Some (i, bs' @ rest) \<and> exec_il locs args i st = Inr st'"
  using step_load_cases [OF assms]
proof
  assume "b \<in> {0x14, 0x15, 0x16, 0x17, 0x18, 0x19, 0x1A, 0x1B, 0x1C, 0x1D, 0x1E, 0x1F, 0x20, 0x21, 0x22, 0x23}"
  then show ?thesis using assms
    by (elim insertE emptyE; hypsubst) (auto simp: one_byte_ops_def operand_def split: if_splits list.splits)
next
  assume "b \<in> {0x6A, 0x6E, 0xD3, 0xE0} \<and> (\<exists>x y us. st = x # us \<and> widen b x = Some y \<and> bs' = cs \<and> st' = y # us)"
  then obtain x y us where x: "b \<in> {0x6A, 0x6E, 0xD3, 0xE0}" "st = x # us" "widen b x = Some y" "bs' = cs" "st' = y # us"
    by blast
  then show ?thesis
    by (elim insertE emptyE; hypsubst) (simp_all add: one_byte_ops_def widen_conv)
qed

lemma run_loads_il: "run_loads bs st = Some st' \<Longrightarrow> run_il locs args (bs @ rest) st = run_il locs args rest st'"
proof (induction bs st rule: run_loads.induct)
  case (1 bs st)
  show ?case
  proof (cases bs)
    case Nil
    then show ?thesis using 1(2) by simp
  next
    case (Cons b cs)
    then obtain bs1 st1 where s: "step_load bs st = Some (bs1, st1)" "run_loads bs1 st1 = Some st'"
      using 1(2) by (subst (asm) run_loads.simps) (auto split: option.splits)
    then obtain i where "decode_il (bs @ rest) = Some (i, bs1 @ rest)" "exec_il locs args i st = Inr st1"
      using step_load_decode [of b cs st bs1 st1 rest locs args] Cons by auto
    then show ?thesis using run_il_step 1(1) [OF _ s(1) refl s(2)] Cons by fastforce
  qed
qed

lemma executes_loads: "loads f v \<Longrightarrow> executes locs args f (Inr v)"
proof -
  assume "loads f v"
  then obtain bs where f: "f = push_bytes bs" and r: "\<And>rest st. run_loads (bs @ rest) st = run_loads rest (v # st)"
    unfolding loads_def by blast
  have "run_il locs args (bs @ rest) st = run_il locs args rest (v # st)" for rest st
    using r [of "[]" st] by (intro run_loads_il) simp
  then show ?thesis using f unfolding executes_def by auto
qed

text \<open>One more instruction on the value of an operand, and on those of two.\<close>

lemma executes_then:
  assumes "executes locs args f v"
    and "\<And>rest. decode_il (bs @ rest) = Some (i, rest)" "\<And>x st. exec_il locs args i (x # st) = rbind (g x) (\<lambda>y. Inr (y # st))"
  shows "executes locs args (seq [f, push_bytes bs]) (rbind v g)"
proof -
  obtain code where f: "f = push_bytes code"
    and r: "\<And>rest st. run_il locs args (code @ rest) st = rbind v (\<lambda>v. run_il locs args rest (v # st))"
    using assms(1) unfolding executes_def by blast
  have "run_il locs args ((code @ bs) @ rest) st = rbind (rbind v g) (\<lambda>v. run_il locs args rest (v # st))" for rest st
    using r [of "bs @ rest" st] run_il_step [OF assms(2) [of rest]] by (simp add: assms(3) rbind_assoc)
  then show ?thesis unfolding executes_def f seq_push by blast
qed

lemma executes_both:
  assumes "executes locs args f v" "executes locs args g w"
    and "\<And>rest. decode_il (bs @ rest) = Some (Binary opr, rest)"
  shows "executes locs args (seq [f, g, push_bytes bs]) (rbind v (\<lambda>x. rbind w (exec_binary opr x)))"
proof -
  obtain fc gc where f: "f = push_bytes fc" "g = push_bytes gc"
    and r: "\<And>rest st. run_il locs args (fc @ rest) st = rbind v (\<lambda>v. run_il locs args rest (v # st))"
      "\<And>rest st. run_il locs args (gc @ rest) st = rbind w (\<lambda>v. run_il locs args rest (v # st))"
    using assms(1,2) unfolding executes_def by blast
  have "seq [f, g, push_bytes bs] = push_bytes (fc @ gc @ bs)"
    unfolding f by (rule ext) (simp add: push_bytes_def)
  moreover have "run_il locs args ((fc @ gc @ bs) @ rest) st =
      rbind (rbind v (\<lambda>x. rbind w (exec_binary opr x))) (\<lambda>v. run_il locs args rest (v # st))" for rest st
    using r(1) [of "gc @ bs @ rest" st] r(2) [of "bs @ rest"] run_il_step [OF assms(3) [of rest]] by (simp add: rbind_assoc)
  ultimately show ?thesis unfolding executes_def by blast
qed

text \<open>The codes of the operators and of the conversions, and the three forms of a slot access.\<close>

lemma decode_binary: "decode_il (bin_op_code op @ rest) = Some (Binary (il_of op), rest)"
  by (cases op) (simp_all add: one_byte_ops_def two_byte_ops_def)

lemma push_bytes_inj: "push_bytes xs = push_bytes ys \<longleftrightarrow> xs = ys"
proof
  assume "push_bytes xs = (push_bytes ys :: 'r emit)"
  then have "map_sum id e_out (push_bytes xs (e\<lparr>e_out := []\<rparr>)) = map_sum id e_out (push_bytes ys (e\<lparr>e_out := []\<rparr>))"
    for e :: "'r emitter" by simp
  then show "xs = ys" by (simp add: push_bytes_def)
qed simp

lemma emit_int_cast_decodes:
  assumes "target \<notin> {I128, U128}"
  shows "\<exists>b. emit_int_cast target ext = push_bytes [b] \<and> (\<forall>rest. decode_il (b # rest) = Some (Conv (conv_of target ext), rest))"
  using assms by (cases target; cases ext) (simp_all add: emit_int_cast_def push_u8_def push_bytes_inj conv_of_def one_byte_ops_def)

lemma run_nops: "run_il locs args (0 # bs) st = run_il locs args bs st"
  by (subst run_il_step [of _ Nop]) (simp_all add: one_byte_ops_def)

lemma low_slot: "l \<le> (3 :: u32) \<Longrightarrow> l = 0 \<or> l = 1 \<or> l = 2 \<or> l = 3"
proof -
  assume "l \<le> 3"
  then have "unat l \<le> 3" by (simp add: word_le_nat_alt)
  then have "unat l = 0 \<or> unat l = 1 \<or> unat l = 2 \<or> unat l = 3" by presburger
  then show ?thesis by (simp add: word_unat_eq_iff)
qed

lemma wide_slot:
  assumes "(l :: u32) < 0x10000"
  shows "le_bytes 4 l = [ucast l, ucast (drop_bit 8 l), 0, 0]" "of_le [ucast l, ucast (drop_bit 8 l) :: u8] = (ucast l :: u16)"
proof -
  have l: "drop_bit 16 l = 0" "drop_bit 24 l = 0"
    using assms by (simp_all only: word_unat_eq_iff unat_drop_bit word_less_nat_alt) simp_all
  then show "le_bytes 4 l = [ucast l, ucast (drop_bit 8 l), 0, 0]"
    by (simp add: eval_nat_numeral)
  show "of_le [ucast l, ucast (drop_bit 8 l) :: u8] = (ucast l :: u16)"
    by (rule bit_word_eqI) (auto simp: bit_simps)
qed

lemma decode_slot:
  "decode_il (0x11 # b # rest) = Some (Ldloc (ucast b), rest)" "decode_il (0x0E # b # rest) = Some (Ldarg (ucast b), rest)"
  "decode_il (0xFE # 0x0C # b # c # rest) = Some (Ldloc (of_le [b, c]), rest)"
  "decode_il (0xFE # 0x09 # b # c # rest) = Some (Ldarg (of_le [b, c]), rest)"
  by (simp_all add: one_byte_ops_def two_byte_ops_def operand_def del: of_le.simps) simp_all

lemma compact_slot:
  assumes "l < 0x10000"
  shows "executes locs args (emit_ldloc l :: 'r emit) (Inr (locs (ucast l)))" "executes locs args (emit_ldarg l :: 'r emit) (Inr (args (ucast l)))"
proof -
  have "executes locs args (emit_ldloc l :: 'r emit) (Inr (locs (ucast l))) \<and> executes locs args (emit_ldarg l :: 'r emit) (Inr (args (ucast l)))"
  proof (cases "l \<le> 3")
    case True
    then show ?thesis
      using low_slot [OF True]
      by (elim disjE) (auto simp: executes_def emit_ldloc_def emit_ldarg_def emit_compact_index_def push_u8_def push_bytes_inj
          run_il_step one_byte_ops_def)
  next
    case low: False
    show ?thesis
    proof (cases "l \<le> 255")
      case True
      have "unat l \<le> 255" using True by (simp add: word_le_nat_alt)
      then have "(ucast (ucast l :: u8) :: u16) = ucast l" by (simp add: word_unat_eq_iff unat_ucast_mod)
      then show ?thesis using True low
        by (auto simp: executes_def emit_ldloc_def emit_ldarg_def emit_compact_index_def push_u8_def push_bytes_inj
            run_il_step [OF decode_slot(1)] run_il_step [OF decode_slot(2)])
    next
      case False
      then show ?thesis using low
        by (auto simp: executes_def emit_ldloc_def emit_ldarg_def emit_compact_index_def push_ext_def push_u32_def push_bytes_inj
            wide_slot [OF assms] run_il_step [OF decode_slot(3)] run_il_step [OF decode_slot(4)] run_nops simp del: of_le.simps)
    qed
  qed
  then show "executes locs args (emit_ldloc l :: 'r emit) (Inr (locs (ucast l)))" "executes locs args (emit_ldarg l :: 'r emit) (Inr (args (ucast l)))"
    by simp_all
qed

text \<open>
  C10. The bytes emitted for a tree of constants, locals, arguments, integer operators and integer casts need no
  token, and run by the opcode table of the standard they compute the tree: whatever follows them and
  whatever is on the stack, they push the value of the tree above it, or throw what the first failing division
  throws. Every operator, every cast and every encoding of a constant and of a slot is included.
\<close>

theorem emitted_code_computes:
  fixes ts :: "'r token_sink"
  assumes "arithmetic n"
  shows "\<exists>code. emit_node ts n = push_bytes code \<and>
    (\<forall>rest st. run_il locs args (code @ rest) st = rbind (tree_value locs args n) (\<lambda>v. run_il locs args rest (v # st)))"
proof -
  have "executes locs args (emit_node ts n) (tree_value locs args n)"
    using assms
  proof (induction n rule: arithmetic.induct)
    case (1 c)
    then obtain v where v: "stack_value c = Some v" by auto
    then have "loads (emit_const ts c) v" using const_emitted [of ts c] by (simp add: const_loaded_def)
    then show ?case using executes_loads v by simp
  next
    case (4 l r op)
    then show ?case using executes_both [OF _ _ decode_binary, of locs args "emit_node ts l" _ "emit_node ts r" _ op]
      by (simp add: binary_agrees_fun del: seq.simps)
  next
    case (5 n op)
    then show ?case
      by (cases op) (auto simp: push_u8_def unary_agrees one_byte_ops_def simp del: seq.simps intro!: executes_then)
  next
    case (6 n target ext)
    then obtain b where b: "(emit_int_cast target ext :: 'r emit) = push_bytes [b]" and d: "\<And>rest. decode_il ([b] @ rest) = Some (Conv (conv_of target ext), rest)"
      using emit_int_cast_decodes by fastforce
    have "executes locs args (seq [emit_node ts n, push_bytes [b]]) (rbind (tree_value locs args n) (tree_cast target ext))"
      by (rule executes_then [OF _ d]) (use 6 in \<open>simp_all add: conv_agrees\<close>)
    then show ?case by (simp add: b del: seq.simps)
  next
    case (7 n)
    have d: "decode_il ([0xE0] @ rest) = Some (Conv (conv_of USize ZeroExtend), rest)" for rest
      by (simp add: one_byte_ops_def conv_of_def)
    have "executes locs args (seq [emit_node ts n, push_bytes [0xE0]]) (rbind (tree_value locs args n) (tree_cast USize ZeroExtend))"
      by (rule executes_then [OF _ d]) (use 7 in \<open>simp_all add: conv_agrees\<close>)
    then show ?case by (simp add: push_u8_def del: seq.simps)
  qed (auto simp: compact_slot)
  then show ?thesis unfolding executes_def .
qed

text \<open>A truncating division of a widened argument, and the same division by zero.\<close>

definition divided :: "u64 \<Rightarrow> cil_node" where
  "divided d = NBinOp (NIntCast (NLdArg 0) I64 SignExtend) (NConst (CI64 d)) Div"

lemma divided_value:
  "tree_value (\<lambda>_. SNull) (\<lambda>_. SI32 (- 17)) (divided 5) = Inr (SI64 (- 3))"
  "tree_value (\<lambda>_. SNull) (\<lambda>_. SI32 (- 17)) (divided 0) = Inl DivideByZero"
  by (simp_all add: divided_def tree_cast_def int_cast_of_def tree_binary_def signed_divide_int_def)

theorem emitted_code_computes_witness:
  "(\<exists>code. emit_node unit_sink (divided 5) = push_bytes code
      \<and> run_il (\<lambda>_. SNull) (\<lambda>_. SI32 (- 17)) code [SNull] = Inr [SI64 (- 3), SNull])
   \<and> (\<exists>code. emit_node unit_sink (divided 0) = push_bytes code
      \<and> run_il (\<lambda>_. SNull) (\<lambda>_. SI32 (- 17)) code [SNull] = Inl DivideByZero)"
proof -
  have a: "arithmetic (divided d)" for d by (simp add: divided_def)
  have stop: "run_il locs args [] st = Inr st" for locs args st by (simp add: run_il.simps)
  obtain code where c: "emit_node unit_sink (divided 5) = push_bytes code"
    and r: "\<And>rest st. run_il (\<lambda>_. SNull) (\<lambda>_. SI32 (- 17)) (code @ rest) st
      = run_il (\<lambda>_. SNull) (\<lambda>_. SI32 (- 17)) rest (SI64 (- 3) # st)"
    using emitted_code_computes [OF a, of unit_sink 5 "\<lambda>_. SNull" "\<lambda>_. SI32 (- 17)"]
    unfolding divided_value by auto
  obtain code' where c': "emit_node unit_sink (divided 0) = push_bytes code'"
    and r': "\<And>rest st. run_il (\<lambda>_. SNull) (\<lambda>_. SI32 (- 17)) (code' @ rest) st = Inl DivideByZero"
    using emitted_code_computes [OF a, of unit_sink 0 "\<lambda>_. SNull" "\<lambda>_. SI32 (- 17)"]
    unfolding divided_value by auto
  have "run_il (\<lambda>_. SNull) (\<lambda>_. SI32 (- 17)) code [SNull] = Inr [SI64 (- 3), SNull]"
    "run_il (\<lambda>_. SNull) (\<lambda>_. SI32 (- 17)) code' [SNull] = Inl DivideByZero"
    using r [of "[]" "[SNull]"] r' [of "[]" "[SNull]"] by (simp_all add: stop)
  then show ?thesis using c c' by blast
qed

end
