(* ===== verification/TableOps.thy ===== *)
theory TableOps
  imports TableStream Methods
begin

text \<open>
  The operations of \<^verbatim>\<open>tables.rs\<close> that add rows: fields and enum constants, methods with their parameters,
  events, properties, custom attributes, the module and assembly rows. The builder and the rows are those of
  \<open>MetaTables\<close>; a refused token, a row that does not exist and an overflow are values of
  \<open>table_panic\<close>.
\<close>

section \<open>Rows by token\<close>

datatype access = AccExtern | AccPublic | AccPrivate | AccAssembly | AccInternalExtern

text \<open>
  An index into a vector panics out of range. The assertions of the \<^verbatim>\<open>mark_\<close> operations are debug assertions; the
  model has them, so it is the debug build.
\<close>

definition row_index :: "u32 \<Rightarrow> token \<Rightarrow> (table_panic, nat) result" where
  "row_index table tok =
     (if token_table tok \<noteq> table then Inl (WrongTable (token_table tok))
      else if token_rid tok = 0 then Inl (NoRow 0)
      else Inr (unat (token_rid tok) - 1))"

definition update_row :: "nat \<Rightarrow> ('a \<Rightarrow> 'a) \<Rightarrow> 'a list \<Rightarrow> (table_panic, 'a list) result" where
  "update_row i f rows = (if i < length rows then Inr (rows[i := f (rows ! i)]) else Inl (NoRow i))"

definition type_def_index :: "token \<Rightarrow> (table_panic, nat) result" where
  "type_def_index = row_index TABLE_TYPE_DEF"

definition update_type_def ::
  "token \<Rightarrow> (type_def_row \<Rightarrow> type_def_row) \<Rightarrow> metadata_builder \<Rightarrow> (table_panic, metadata_builder) result" where
  "update_type_def tok f mb =
     rbind (type_def_index tok) (\<lambda>i. rbind (update_row i f (mb_type_def mb)) (\<lambda>rows. Inr (mb\<lparr>mb_type_def := rows\<rparr>)))"

definition update_method_def ::
  "token \<Rightarrow> (method_def_row \<Rightarrow> method_def_row) \<Rightarrow> metadata_builder \<Rightarrow> (table_panic, metadata_builder) result" where
  "update_method_def tok f mb =
     rbind (row_index TABLE_METHOD_DEF tok) (\<lambda>i. rbind (update_row i f (mb_method_def mb)) (\<lambda>rows.
     Inr (mb\<lparr>mb_method_def := rows\<rparr>)))"

section \<open>Type definitions\<close>

definition set_type_def_field_list :: "token \<Rightarrow> metadata_builder \<Rightarrow> (table_panic, metadata_builder) result" where
  "set_type_def_field_list tok mb =
     rbind (type_def_index tok) (\<lambda>i.
     rbind (row_id (length (mb_field mb) + 1)) (\<lambda>start.
     rbind (update_row i (\<lambda>r. r\<lparr>td_field_list := start\<rparr>) (mb_type_def mb)) (\<lambda>rows.
     Inr (mb\<lparr>mb_type_def := rows, mb_current_type_def := Some (token_rid tok)\<rparr>))))"

definition set_type_def_method_list :: "token \<Rightarrow> metadata_builder \<Rightarrow> (table_panic, metadata_builder) result" where
  "set_type_def_method_list tok mb =
     rbind (type_def_index tok) (\<lambda>i.
     rbind (row_id (length (mb_method_def mb) + 1)) (\<lambda>start.
     rbind (update_row i (\<lambda>r. r\<lparr>td_method_list := start\<rparr>) (mb_type_def mb)) (\<lambda>rows.
     Inr (mb\<lparr>mb_type_def := rows\<rparr>))))"

definition set_type_def_access :: "token \<Rightarrow> access \<Rightarrow> metadata_builder \<Rightarrow> (table_panic, metadata_builder) result" where
  "set_type_def_access tok access =
     update_type_def tok (\<lambda>r.
       let flags = td_flags r AND NOT 0x7 in
       r\<lparr>td_flags := if access = AccExtern \<or> access = AccPublic then flags OR 0x1 else flags\<rparr>)"

definition mark_type_def_interface :: "token \<Rightarrow> metadata_builder \<Rightarrow> (table_panic, metadata_builder) result" where
  "mark_type_def_interface tok =
     update_type_def tok (\<lambda>r. r\<lparr>td_flags := (td_flags r OR (0x20 OR 0x80)) AND NOT 0x100, td_extends := 0\<rparr>)"

section \<open>Fields\<close>

definition register_field_def :: "u32 \<Rightarrow> u32 \<Rightarrow> token \<Rightarrow> metadata_builder \<Rightarrow> metadata_builder" where
  "register_field_def name signature tok mb =
     (case mb_current_type_def mb of
        None \<Rightarrow> mb
      | Some owner \<Rightarrow>
          (let key = (token_new TABLE_TYPE_DEF owner, name, signature) in
           if mb_field_def_cache mb key = None
           then mb\<lparr>mb_field_def_cache := (mb_field_def_cache mb)(key \<mapsto> tok)\<rparr> else mb))"

definition push_field :: "u16 \<Rightarrow> u32 \<Rightarrow> u32 \<Rightarrow> metadata_builder \<Rightarrow> (table_panic, token \<times> metadata_builder) result" where
  "push_field flags name signature mb =
     (let rows = mb_field mb @ [\<lparr>fld_flags = flags, fld_name = name, fld_signature = signature\<rparr>] in
      rbind (row_id (length rows)) (\<lambda>rid.
      let tok = token_new TABLE_FIELD rid in
      Inr (tok, register_field_def name signature tok (mb\<lparr>mb_field := rows\<rparr>))))"

definition add_field :: "string \<Rightarrow> u32 \<Rightarrow> u32 option \<Rightarrow> metadata_builder \<Rightarrow> (table_panic, token \<times> metadata_builder) result" where
  "add_field name signature_blob offset mb =
     rbind (mb_intern_string name mb) (\<lambda>(name_off, mb).
     rbind (push_field 0x6 name_off signature_blob mb) (\<lambda>(tok, mb).
     Inr (tok, case offset of
        None \<Rightarrow> mb
      | Some off \<Rightarrow> mb\<lparr>mb_field_layout := mb_field_layout mb @ [\<lparr>fl_offset = off, fl_field = token_rid tok\<rparr>]\<rparr>)))"

definition add_enum_value_field :: "u32 \<Rightarrow> metadata_builder \<Rightarrow> (table_panic, token \<times> metadata_builder) result" where
  "add_enum_value_field signature_blob mb =
     rbind (mb_intern_string ''value__'' mb) (\<lambda>(name, mb).
     push_field (0x6 OR 0x0200 OR 0x0400) name signature_blob mb)"

fun enum_constant :: "cil_const \<Rightarrow> (table_panic, u8 \<times> u8 list) result" where
  "enum_constant (CI8 v) = Inr (0x04, le_bytes 1 v)"
| "enum_constant (CU8 v) = Inr (0x05, le_bytes 1 v)"
| "enum_constant (CI16 v) = Inr (0x06, le_bytes 2 v)"
| "enum_constant (CU16 v) = Inr (0x07, le_bytes 2 v)"
| "enum_constant (CI32 v) = Inr (0x08, le_bytes 4 v)"
| "enum_constant (CU32 v) = Inr (0x09, le_bytes 4 v)"
| "enum_constant (CI64 v) = Inr (0x0A, le_bytes 8 v)"
| "enum_constant (CU64 v) = Inr (0x0B, le_bytes 8 v)"
| "enum_constant _ = Inl BadEnumConstant"

definition add_enum_literal_field ::
  "string \<Rightarrow> u32 \<Rightarrow> cil_const \<Rightarrow> metadata_builder \<Rightarrow> (table_panic, token \<times> metadata_builder) result" where
  "add_enum_literal_field name signature_blob v mb =
     rbind (mb_intern_string name mb) (\<lambda>(name, mb).
     rbind (push_field (0x6 OR 0x0010 OR 0x0040 OR 0x8000) name signature_blob mb) (\<lambda>(tok, mb).
     rbind (enum_constant v) (\<lambda>(type_code, bytes).
     rbind (mb_intern_blob bytes mb) (\<lambda>(off, mb).
     Inr (tok, mb\<lparr>mb_constant := mb_constant mb @
       [\<lparr>cn_type_code = type_code, cn_parent = push_bit 2 (token_rid tok), cn_value = off\<rparr>]\<rparr>)))))"

section \<open>Attributes of a fixed shape\<close>

definition push_custom_attribute ::
  "token \<Rightarrow> token \<Rightarrow> u32 \<Rightarrow> metadata_builder \<Rightarrow> (table_panic, token \<times> metadata_builder) result" where
  "push_custom_attribute parent ctor v mb =
     rbind (encode_has_custom_attribute parent) (\<lambda>parent_coded.
     rbind (encode_custom_attribute_type ctor) (\<lambda>ctor_coded.
     let rows = mb_custom_attribute mb @ [\<lparr>ca_parent = parent_coded, ca_ctor = ctor_coded, ca_value = v\<rparr>] in
     rbind (row_id (length rows)) (\<lambda>rid.
     Inr (token_new TABLE_CUSTOM_ATTRIBUTE rid, mb\<lparr>mb_custom_attribute := rows\<rparr>))))"

definition system_runtime_assembly_ref :: "metadata_builder \<Rightarrow> (table_panic, token \<times> metadata_builder) result" where
  "system_runtime_assembly_ref = find_or_create_assembly_ref ''System.Runtime''"

text \<open>The signature of an instance constructor whose parameter types are the given one-byte codes.\<close>

definition intern_ctor_sig :: "u8 list \<Rightarrow> metadata_builder \<Rightarrow> (table_panic, u32 \<times> metadata_builder) result" where
  "intern_ctor_sig kinds mb =
     rbind (map_sum TableHeap id (try_u32 ItemTooLarge (length kinds))) (\<lambda>n.
     rbind (map_sum TableHeap id (write_compressed_u32 [SIG_HASTHIS] n)) (\<lambda>sig.
     mb_intern_blob (sig @ [0x01] @ kinds) mb))"

definition nullable_metadata_attribute ::
  "token \<Rightarrow> u8 \<Rightarrow> bool \<Rightarrow> metadata_builder \<Rightarrow> (table_panic, token \<times> metadata_builder) result" where
  "nullable_metadata_attribute parent flag context_attr mb =
     (if flag \<noteq> 1 \<and> flag \<noteq> 2 then Inl (BadNullable flag)
      else rbind (system_runtime_assembly_ref mb) (\<lambda>(scope, mb).
      rbind (type_ref (Some scope) ''System.Runtime.CompilerServices''
               (if context_attr then ''NullableContextAttribute'' else ''NullableAttribute'') mb) (\<lambda>(tref, mb).
      rbind (intern_ctor_sig [0x05] mb) (\<lambda>(sig, mb).
      rbind (member_ref tref ''.ctor'' sig mb) (\<lambda>(ctor, mb).
      rbind (mb_intern_blob [0x01, 0x00, flag, 0x00, 0x00] mb) (\<lambda>(v, mb).
      push_custom_attribute parent ctor v mb))))))"

definition thread_static_ctor_ref :: "metadata_builder \<Rightarrow> (table_panic, token \<times> metadata_builder) result" where
  "thread_static_ctor_ref mb =
     rbind (system_runtime_assembly_ref mb) (\<lambda>(scope, mb).
     rbind (type_ref (Some scope) ''System'' ''ThreadStaticAttribute'' mb) (\<lambda>(tref, mb).
     rbind (intern_ctor_sig [] mb) (\<lambda>(sig, mb).
     member_ref tref ''.ctor'' sig mb)))"

definition thread_static_attribute :: "token \<Rightarrow> metadata_builder \<Rightarrow> (table_panic, token \<times> metadata_builder) result" where
  "thread_static_attribute field mb =
     (if token_table field \<noteq> TABLE_FIELD then Inl (WrongTable (token_table field))
      else rbind (thread_static_ctor_ref mb) (\<lambda>(ctor, mb).
      rbind (mb_intern_blob [0x01, 0x00, 0x00, 0x00] mb) (\<lambda>(v, mb).
      push_custom_attribute field ctor v mb)))"

text \<open>The placeholder row of the data of a static field; the assertion is that the field has none yet.\<close>

definition push_field_rva :: "token \<Rightarrow> metadata_builder \<Rightarrow> (table_panic, metadata_builder) result" where
  "push_field_rva tok mb =
     (let rows = mb_field_rva mb @ [\<lparr>fv_rva = 0, fv_field = token_rid tok\<rparr>] in
      if mb_pending_field_rva mb tok \<noteq> None then Inl (DuplicateRva tok)
      else Inr (mb\<lparr>mb_field_rva := rows, mb_pending_field_rva := (mb_pending_field_rva mb)(tok \<mapsto> length rows - 1)\<rparr>))"

definition add_static_field ::
  "string \<Rightarrow> u32 \<Rightarrow> u8 list option \<Rightarrow> bool \<Rightarrow> bool \<Rightarrow> metadata_builder \<Rightarrow> (table_panic, token \<times> metadata_builder) result" where
  "add_static_field name signature_blob rva_data is_thread_static is_const mb =
     (let flags = (0x6 OR 0x10) OR (if is_const then 0x20 else 0) OR (if rva_data \<noteq> None then 0x100 else 0) in
      rbind (mb_intern_string name mb) (\<lambda>(name_off, mb).
      rbind (push_field flags name_off signature_blob mb) (\<lambda>(tok, mb).
      rbind (if rva_data = None then Inr mb else push_field_rva tok mb) (\<lambda>mb.
      if is_thread_static then rbind (thread_static_attribute tok mb) (\<lambda>(_, mb). Inr (tok, mb)) else Inr (tok, mb)))))"

definition set_field_rva :: "token \<Rightarrow> u32 \<Rightarrow> metadata_builder \<Rightarrow> (table_panic, metadata_builder) result" where
  "set_field_rva field rva mb =
     (case mb_pending_field_rva mb field of
        None \<Rightarrow> Inl (NoPendingRva field)
      | Some row \<Rightarrow> rbind (update_row row (\<lambda>r. r\<lparr>fv_rva := rva\<rparr>) (mb_field_rva mb)) (\<lambda>rows.
          Inr (mb\<lparr>mb_field_rva := rows\<rparr>)))"

section \<open>Methods\<close>

definition push_method :: "u16 \<Rightarrow> u16 \<Rightarrow> u32 \<Rightarrow> u32 \<Rightarrow> metadata_builder \<Rightarrow> (table_panic, token \<times> metadata_builder) result" where
  "push_method flags impl_flags name signature mb =
     rbind (row_id (length (mb_param mb) + 1)) (\<lambda>param_list.
     let rows = mb_method_def mb @
           [\<lparr>mdf_rva = 0, mdf_impl_flags = impl_flags, mdf_flags = flags, mdf_name = name, mdf_signature = signature,
             mdf_param_list = param_list\<rparr>] in
     rbind (row_id (length rows)) (\<lambda>rid. Inr (token_new TABLE_METHOD_DEF rid, mb\<lparr>mb_method_def := rows\<rparr>)))"

record method_nullability =
  mn_context :: u8
  mn_return_flag :: "u8 option"
  mn_parameter_flags :: "u8 option list"

fun access_flags :: "access \<Rightarrow> u16" where
  "access_flags AccPrivate = 0x1"
| "access_flags AccAssembly = 0x3"
| "access_flags AccInternalExtern = 0x3"
| "access_flags AccExtern = 0x6"
| "access_flags AccPublic = 0x6"

definition method_flags :: "access \<Rightarrow> bool \<Rightarrow> bool \<Rightarrow> bool \<Rightarrow> bool \<Rightarrow> u16" where
  "method_flags access is_static is_virtual is_ctor is_pinvoke =
     access_flags access OR (if is_static then 0x10 else 0) OR (if is_virtual then 0x40 OR 0x0100 else 0)
       OR (if is_ctor then 0x1000 OR 0x0800 else 0) OR (if is_pinvoke then 0x2000 else 0)"

definition push_param :: "token \<Rightarrow> u16 \<Rightarrow> u16 \<Rightarrow> u32 \<Rightarrow> metadata_builder \<Rightarrow> (table_panic, token \<times> metadata_builder) result" where
  "push_param method flags sequence name mb =
     (let rows = mb_param mb @ [\<lparr>pa_flags = flags, pa_sequence = sequence, pa_name = name\<rparr>] in
      rbind (row_id (length rows)) (\<lambda>rid.
      let tok = token_new TABLE_PARAM rid in
      Inr (tok, mb\<lparr>mb_param := rows, mb_method_param_cache := (mb_method_param_cache mb)((method, sequence) \<mapsto> tok)\<rparr>)))"

definition nullable_if :: "token \<Rightarrow> u8 option \<Rightarrow> metadata_builder \<Rightarrow> (table_panic, metadata_builder) result" where
  "nullable_if parent flag mb =
     (case flag of None \<Rightarrow> Inr mb | Some f \<Rightarrow> map_sum id snd (nullable_metadata_attribute parent f False mb))"

definition push_nullability ::
  "token \<Rightarrow> nat \<Rightarrow> method_nullability \<Rightarrow> metadata_builder \<Rightarrow> (table_panic, metadata_builder) result" where
  "push_nullability tok n_params nl mb =
     (if mn_context nl \<noteq> 1 \<and> mn_context nl \<noteq> 2 then Inl (BadNullable (mn_context nl))
      else if length (mn_parameter_flags nl) \<noteq> n_params then Inl NotParallel
      else rbind (nullable_metadata_attribute tok (mn_context nl) True mb) (\<lambda>(_, mb).
      case mn_return_flag nl of
        None \<Rightarrow> Inr mb
      | Some flag \<Rightarrow>
          rbind (push_param tok 0 0 0 mb) (\<lambda>(return_param, mb). nullable_if return_param (Some flag) mb)))"

fun push_params ::
  "token \<Rightarrow> u16 list \<Rightarrow> (nat \<Rightarrow> u8 option) \<Rightarrow> nat \<Rightarrow> string option list \<Rightarrow> metadata_builder
     \<Rightarrow> (table_panic, metadata_builder) result" where
  "push_params tok out_params nullable i [] mb = Inr mb"
| "push_params tok out_params nullable i (pname # names) mb =
     (if i + 1 \<ge> 2 ^ 16 then Inl SequenceOverflow
      else
        (let sequence = word_of_nat (i + 1) in
         rbind (case pname of None \<Rightarrow> Inr (0, mb) | Some n \<Rightarrow> mb_intern_string n mb) (\<lambda>(name_off, mb).
         rbind (push_param tok (if sequence \<in> set out_params then 0x0002 else 0) sequence name_off mb) (\<lambda>(param, mb).
         rbind (nullable_if param (nullable i) mb) (\<lambda>mb.
         push_params tok out_params nullable (i + 1) names mb)))))"

fun call_conv_flags :: "pinvoke_call_conv \<Rightarrow> u16" where
  "call_conv_flags Winapi = 0x100"
| "call_conv_flags Cdecl = 0x200"
| "call_conv_flags Stdcall = 0x300"
| "call_conv_flags Thiscall = 0x400"
| "call_conv_flags Fastcall = 0x500"

definition push_pinvoke ::
  "token \<Rightarrow> string \<Rightarrow> string \<times> string option \<times> pinvoke_call_conv \<times> bool \<Rightarrow> metadata_builder
     \<Rightarrow> (table_panic, metadata_builder) result" where
  "push_pinvoke tok name pinvoke mb =
     (case pinvoke of (lib, entry_point, call_conv, preserve_errno) \<Rightarrow>
      rbind (intern_module_ref lib mb) (\<lambda>(module_ref, mb).
      let mapping_flags = (0x1 OR 0x4 OR call_conv_flags call_conv) OR (if preserve_errno then 0x40 else 0) in
      rbind (mb_intern_string (case entry_point of None \<Rightarrow> name | Some e \<Rightarrow> e) mb) (\<lambda>(import_name, mb).
      rbind (encode_member_forwarded tok) (\<lambda>forwarded.
      Inr (mb\<lparr>mb_impl_map := mb_impl_map mb @
        [\<lparr>im_mapping_flags = mapping_flags, im_member_forwarded = forwarded, im_import_name = import_name,
          im_import_scope = token_rid module_ref\<rparr>]\<rparr>)))))"

definition add_method_with_access ::
  "string \<Rightarrow> access \<Rightarrow> u32 \<Rightarrow> string option list \<Rightarrow> u16 list \<Rightarrow> bool \<Rightarrow> bool \<Rightarrow> bool
     \<Rightarrow> (string \<times> string option \<times> pinvoke_call_conv \<times> bool) option \<Rightarrow> bool \<Rightarrow> method_nullability option
     \<Rightarrow> metadata_builder \<Rightarrow> (table_panic, token \<times> metadata_builder) result" where
  "add_method_with_access name access signature_blob param_names out_params is_static is_virtual is_ctor pinvoke
       aggressive_inline nullability mb =
     (let flags = method_flags access is_static is_virtual is_ctor (pinvoke \<noteq> None);
          impl_flags = (if pinvoke \<noteq> None then 0x80 else 0) OR (if aggressive_inline then 0x100 else 0) in
      rbind (mb_intern_string name mb) (\<lambda>(name_off, mb).
      rbind (push_method flags impl_flags name_off signature_blob mb) (\<lambda>(tok, mb).
      rbind (case nullability of None \<Rightarrow> Inr mb | Some nl \<Rightarrow> push_nullability tok (length param_names) nl mb) (\<lambda>mb.
      rbind (push_params tok out_params
               (\<lambda>i. case nullability of None \<Rightarrow> None | Some nl \<Rightarrow> mn_parameter_flags nl ! i) 0 param_names mb) (\<lambda>mb.
      rbind (case pinvoke of None \<Rightarrow> Inr mb | Some p \<Rightarrow> push_pinvoke tok name p mb) (\<lambda>mb.
      Inr (tok, mb)))))))"

definition add_method ::
  "string \<Rightarrow> u32 \<Rightarrow> string option list \<Rightarrow> u16 list \<Rightarrow> bool \<Rightarrow> bool \<Rightarrow> bool
     \<Rightarrow> (string \<times> string option \<times> pinvoke_call_conv \<times> bool) option \<Rightarrow> bool \<Rightarrow> method_nullability option
     \<Rightarrow> metadata_builder \<Rightarrow> (table_panic, token \<times> metadata_builder) result" where
  "add_method name = add_method_with_access name AccPublic"

text \<open>\<^verbatim>\<open>mark_method_bit_preserving_float\<close> indexes by the row of the token and does not look at its table.\<close>

definition mark_method_bit_preserving_float :: "token \<Rightarrow> metadata_builder \<Rightarrow> (table_panic, metadata_builder) result" where
  "mark_method_bit_preserving_float tok mb =
     (if token_rid tok = 0 then Inl (NoRow 0)
      else rbind (update_row (unat (token_rid tok) - 1) (\<lambda>r. r\<lparr>mdf_impl_flags := mdf_impl_flags r OR (0x0008 OR 0x0040)\<rparr>)
                    (mb_method_def mb)) (\<lambda>rows. Inr (mb\<lparr>mb_method_def := rows\<rparr>)))"

definition set_method_body_rva :: "token \<Rightarrow> u32 \<Rightarrow> metadata_builder \<Rightarrow> (table_panic, metadata_builder) result" where
  "set_method_body_rva method rva = update_method_def method (\<lambda>r. r\<lparr>mdf_rva := rva\<rparr>)"

definition mark_method_reuse_slot :: "token \<Rightarrow> metadata_builder \<Rightarrow> (table_panic, metadata_builder) result" where
  "mark_method_reuse_slot method = update_method_def method (\<lambda>r. r\<lparr>mdf_flags := mdf_flags r AND NOT 0x0100\<rparr>)"

definition mark_method_abstract :: "token \<Rightarrow> metadata_builder \<Rightarrow> (table_panic, metadata_builder) result" where
  "mark_method_abstract method = update_method_def method (\<lambda>r. r\<lparr>mdf_flags := mdf_flags r OR 0x0400\<rparr>)"

definition mark_method_static_abstract :: "token \<Rightarrow> metadata_builder \<Rightarrow> (table_panic, metadata_builder) result" where
  "mark_method_static_abstract method mb =
     rbind (row_index TABLE_METHOD_DEF method) (\<lambda>i.
     if i < length (mb_method_def mb) \<and> mdf_flags (mb_method_def mb ! i) AND 0x10 = 0 then Inl NotStatic
     else if i < length (mb_method_def mb) \<and> mdf_flags (mb_method_def mb ! i) AND 0x100 \<noteq> 0 then Inl HasNewSlot
     else update_method_def method (\<lambda>r. r\<lparr>mdf_flags := mdf_flags r OR (0x40 OR 0x80 OR 0x400)\<rparr>) mb)"

definition mark_method_special_name :: "token \<Rightarrow> metadata_builder \<Rightarrow> (table_panic, metadata_builder) result" where
  "mark_method_special_name method = update_method_def method (\<lambda>r. r\<lparr>mdf_flags := mdf_flags r OR 0x0800\<rparr>)"

definition register_method_def :: "method_ref \<Rightarrow> token \<Rightarrow> metadata_builder \<Rightarrow> metadata_builder" where
  "register_method_def method tok mb = mb\<lparr>mb_method_def_cache := (mb_method_def_cache mb)(method \<mapsto> tok)\<rparr>"

definition set_entry_point :: "token \<Rightarrow> metadata_builder \<Rightarrow> metadata_builder" where
  "set_entry_point method mb = mb\<lparr>mb_entry_point := Some method\<rparr>"

section \<open>Signatures, interfaces, overrides, generic parameters\<close>

definition method_spec :: "token \<Rightarrow> u32 \<Rightarrow> metadata_builder \<Rightarrow> (table_panic, token \<times> metadata_builder) result" where
  "method_spec method instantiation_blob mb =
     rbind (encode_method_def_or_ref method) (\<lambda>method_coded.
     let rows = mb_method_spec mb @ [\<lparr>ms_method = method_coded, ms_instantiation = instantiation_blob\<rparr>] in
     rbind (row_id (length rows)) (\<lambda>rid. Inr (token_new TABLE_METHOD_SPEC rid, mb\<lparr>mb_method_spec := rows\<rparr>)))"

definition standalone_sig :: "u32 \<Rightarrow> metadata_builder \<Rightarrow> (table_panic, token \<times> metadata_builder) result" where
  "standalone_sig signature_blob mb =
     (case mb_standalone_sig_cache mb signature_blob of
        Some tok \<Rightarrow> Inr (tok, mb)
      | None \<Rightarrow>
          (let rows = mb_standalone_sig mb @ [signature_blob] in
           rbind (row_id (length rows)) (\<lambda>rid.
           let tok = token_new TABLE_STAND_ALONE_SIG rid in
           Inr (tok, mb\<lparr>mb_standalone_sig := rows,
             mb_standalone_sig_cache := (mb_standalone_sig_cache mb)(signature_blob \<mapsto> tok)\<rparr>))))"

definition interface_impl :: "token \<Rightarrow> token \<Rightarrow> metadata_builder \<Rightarrow> (table_panic, token \<times> metadata_builder) result" where
  "interface_impl cls iface mb =
     (if token_table cls \<noteq> TABLE_TYPE_DEF then Inl (WrongTable (token_table cls))
      else rbind (encode_type_def_or_ref_token iface) (\<lambda>coded.
      let rows = mb_interface_impl mb @ [\<lparr>ii_class = token_rid cls, ii_interface = coded\<rparr>] in
      rbind (row_id (length rows)) (\<lambda>rid. Inr (token_new TABLE_INTERFACE_IMPL rid, mb\<lparr>mb_interface_impl := rows\<rparr>))))"

definition add_generic_param ::
  "token \<Rightarrow> u16 \<Rightarrow> string \<Rightarrow> metadata_builder \<Rightarrow> (table_panic, token \<times> metadata_builder) result" where
  "add_generic_param owner number name mb =
     rbind (mb_intern_string name mb) (\<lambda>(name_off, mb).
     rbind (encode_type_or_method_def owner) (\<lambda>owner_coded.
     let rows = mb_generic_param mb @ [\<lparr>gp_number = number, gp_flags = 0, gp_owner = owner_coded, gp_name = name_off\<rparr>] in
     rbind (row_id (length rows)) (\<lambda>rid. Inr (token_new TABLE_GENERIC_PARAM rid, mb\<lparr>mb_generic_param := rows\<rparr>))))"

definition add_method_impl :: "token \<Rightarrow> token \<Rightarrow> token \<Rightarrow> metadata_builder \<Rightarrow> (table_panic, metadata_builder) result" where
  "add_method_impl cls body decl mb =
     (if token_table cls \<noteq> TABLE_TYPE_DEF then Inl (WrongTable (token_table cls))
      else rbind (encode_method_def_or_ref body) (\<lambda>body_coded.
      rbind (encode_method_def_or_ref decl) (\<lambda>decl_coded.
      Inr (mb\<lparr>mb_method_impl := mb_method_impl mb @
        [\<lparr>mi_class = token_rid cls, mi_method_body = body_coded, mi_method_declaration = decl_coded\<rparr>]\<rparr>))))"

section \<open>Events and properties\<close>

definition push_semantics :: "u16 \<Rightarrow> token \<Rightarrow> u32 \<Rightarrow> metadata_builder \<Rightarrow> metadata_builder" where
  "push_semantics semantics method association mb =
     mb\<lparr>mb_method_semantics := mb_method_semantics mb @
       [\<lparr>se_semantics = semantics, se_method = token_rid method, se_association = association\<rparr>]\<rparr>"

text \<open>The first event of a class opens its run; a later one must belong to the run that is still open.\<close>

definition open_event_run :: "u32 \<Rightarrow> metadata_builder \<Rightarrow> (table_panic, metadata_builder) result" where
  "open_event_run cls mb =
     rbind (row_id (length (mb_event mb) + 1)) (\<lambda>next_event.
     if list_ex (\<lambda>r. em_parent r = cls) (mb_event_map mb) then
       (if map_option em_parent (nth_opt (rev (mb_event_map mb)) 0) = Some cls then Inr mb else Inl (NotContiguous cls))
     else Inr (mb\<lparr>mb_event_map := mb_event_map mb @ [\<lparr>em_parent = cls, em_event_list = next_event\<rparr>]\<rparr>))"

definition push_event :: "u32 \<Rightarrow> token \<Rightarrow> token \<Rightarrow> token \<Rightarrow> metadata_builder \<Rightarrow> (table_panic, metadata_builder) result" where
  "push_event name_off event_type add remove mb =
     rbind (encode_type_def_or_ref_token event_type) (\<lambda>coded.
     let rows = mb_event mb @ [\<lparr>ev_flags = 0, ev_name = name_off, ev_type = coded\<rparr>]; mb = mb\<lparr>mb_event := rows\<rparr> in
     rbind (row_id (length rows)) (\<lambda>event_rid.
     rbind (encode_has_semantics (token_new TABLE_EVENT event_rid)) (\<lambda>association.
     Inr (push_semantics 0x10 remove association (push_semantics 0x8 add association mb)))))"

definition add_event ::
  "token \<Rightarrow> string \<Rightarrow> token \<Rightarrow> token \<Rightarrow> token \<Rightarrow> metadata_builder \<Rightarrow> (table_panic, metadata_builder) result" where
  "add_event cls name event_type add remove mb =
     (if token_table cls \<noteq> TABLE_TYPE_DEF then Inl (WrongTable (token_table cls))
      else rbind (mark_method_special_name add mb) (\<lambda>mb.
      rbind (mark_method_special_name remove mb) (\<lambda>mb.
      rbind (open_event_run (token_rid cls) mb) (\<lambda>mb.
      rbind (mb_intern_string name mb) (\<lambda>(name_off, mb).
      push_event name_off event_type add remove mb)))))"

definition open_property_run :: "u32 \<Rightarrow> metadata_builder \<Rightarrow> (table_panic, metadata_builder) result" where
  "open_property_run cls mb =
     rbind (row_id (length (mb_property mb) + 1)) (\<lambda>next_property.
     if list_ex (\<lambda>r. pm_parent r = cls) (mb_property_map mb) then
       (if map_option pm_parent (nth_opt (rev (mb_property_map mb)) 0) = Some cls then Inr mb else Inl (NotContiguous cls))
     else Inr (mb\<lparr>mb_property_map := mb_property_map mb @ [\<lparr>pm_parent = cls, pm_property_list = next_property\<rparr>]\<rparr>))"

definition special_name_if :: "token option \<Rightarrow> metadata_builder \<Rightarrow> (table_panic, metadata_builder) result" where
  "special_name_if accessor mb = (case accessor of None \<Rightarrow> Inr mb | Some a \<Rightarrow> mark_method_special_name a mb)"

definition semantics_if :: "u16 \<Rightarrow> token option \<Rightarrow> u32 \<Rightarrow> metadata_builder \<Rightarrow> metadata_builder" where
  "semantics_if semantics accessor association mb =
     (case accessor of None \<Rightarrow> mb | Some a \<Rightarrow> push_semantics semantics a association mb)"

definition push_property ::
  "u32 \<Rightarrow> u32 \<Rightarrow> token option \<Rightarrow> token option \<Rightarrow> metadata_builder \<Rightarrow> (table_panic, token \<times> metadata_builder) result" where
  "push_property name_off sig_blob getter setter mb =
     (let rows = mb_property mb @ [\<lparr>pr_flags = 0, pr_name = name_off, pr_signature = sig_blob\<rparr>];
          mb = mb\<lparr>mb_property := rows\<rparr> in
      rbind (row_id (length rows)) (\<lambda>property_rid.
      let prop = token_new TABLE_PROPERTY property_rid in
      rbind (encode_has_semantics prop) (\<lambda>association.
      Inr (prop, semantics_if 0x1 setter association (semantics_if 0x2 getter association mb)))))"

definition add_property ::
  "token \<Rightarrow> string \<Rightarrow> u32 \<Rightarrow> token option \<Rightarrow> token option \<Rightarrow> metadata_builder \<Rightarrow> (table_panic, token \<times> metadata_builder) result" where
  "add_property cls name sig_blob getter setter mb =
     (if token_table cls \<noteq> TABLE_TYPE_DEF then Inl (WrongTable (token_table cls))
      else if getter = None \<and> setter = None then Inl NoAccessor
      else rbind (special_name_if getter mb) (\<lambda>mb.
      rbind (special_name_if setter mb) (\<lambda>mb.
      rbind (open_property_run (token_rid cls) mb) (\<lambda>mb.
      rbind (mb_intern_string name mb) (\<lambda>(name_off, mb).
      push_property name_off sig_blob getter setter mb)))))"

definition mark_property_nullable :: "token \<Rightarrow> u8 \<Rightarrow> metadata_builder \<Rightarrow> (table_panic, metadata_builder) result" where
  "mark_property_nullable prop flag mb =
     (if token_table prop \<noteq> TABLE_PROPERTY then Inl (WrongTable (token_table prop))
      else map_sum id snd (nullable_metadata_attribute prop flag False mb))"

section \<open>Custom attributes\<close>

datatype custom_attr_arg = AStr string | ABool bool | AU8 u8 | AI32 u32 | AI64 u64

datatype custom_attr_kind = AField | AProperty

record custom_attr_named_arg =
  na_name :: string
  na_value :: custom_attr_arg
  na_kind :: custom_attr_kind

record custom_attr_def =
  at_type :: class_ref
  at_ctor_args :: "custom_attr_arg list"
  at_named_args :: "custom_attr_named_arg list"

fun arg_kind :: "custom_attr_arg \<Rightarrow> u8" where
  "arg_kind (AStr _) = 0x0E"
| "arg_kind (ABool _) = 0x02"
| "arg_kind (AU8 _) = 0x05"
| "arg_kind (AI32 _) = 0x08"
| "arg_kind (AI64 _) = 0x0A"

definition write_ser_string :: "u8 list \<Rightarrow> string \<Rightarrow> (table_panic, u8 list) result" where
  "write_ser_string out s =
     rbind (map_sum TableHeap id (try_u32 ItemTooLarge (length s))) (\<lambda>n.
     rbind (map_sum TableHeap id (write_compressed_u32 out n)) (\<lambda>out. Inr (out @ str_bytes s)))"

fun encode_custom_attr_fixed_arg :: "u8 list \<Rightarrow> custom_attr_arg \<Rightarrow> (table_panic, u8 list) result" where
  "encode_custom_attr_fixed_arg out (AStr s) = write_ser_string out s"
| "encode_custom_attr_fixed_arg out (ABool b) = Inr (out @ [if b then 1 else 0])"
| "encode_custom_attr_fixed_arg out (AU8 v) = Inr (out @ [v])"
| "encode_custom_attr_fixed_arg out (AI32 v) = Inr (out @ le_bytes 4 v)"
| "encode_custom_attr_fixed_arg out (AI64 v) = Inr (out @ le_bytes 8 v)"

fun encode_fixed_args :: "u8 list \<Rightarrow> custom_attr_arg list \<Rightarrow> (table_panic, u8 list) result" where
  "encode_fixed_args out [] = Inr out"
| "encode_fixed_args out (a # args) = rbind (encode_custom_attr_fixed_arg out a) (\<lambda>out. encode_fixed_args out args)"

fun encode_named_args :: "u8 list \<Rightarrow> custom_attr_named_arg list \<Rightarrow> (table_panic, u8 list) result" where
  "encode_named_args out [] = Inr out"
| "encode_named_args out (n # named) =
     rbind (write_ser_string (out @ [case na_kind n of AField \<Rightarrow> 0x53 | AProperty \<Rightarrow> 0x54, arg_kind (na_value n)])
              (na_name n)) (\<lambda>out.
     rbind (encode_custom_attr_fixed_arg out (na_value n)) (\<lambda>out. encode_named_args out named))"

definition encode_custom_attr :: "custom_attr_def \<Rightarrow> (table_panic, u8 list) result" where
  "encode_custom_attr attr =
     rbind (encode_fixed_args (le_bytes 2 (0x0001 :: u16)) (at_ctor_args attr)) (\<lambda>blob.
     if length (at_named_args attr) \<ge> 2 ^ 16 then Inl TooManyNamed
     else encode_named_args (blob @ le_bytes 2 (word_of_nat (length (at_named_args attr)) :: u16)) (at_named_args attr))"

definition add_custom_attribute ::
  "'a assembly_scheme \<Rightarrow> token \<Rightarrow> custom_attr_def \<Rightarrow> metadata_builder \<Rightarrow> (table_panic, token \<times> metadata_builder) result" where
  "add_custom_attribute asm parent attr mb =
     rbind (class_ref_token asm (at_type attr) mb) (\<lambda>(attr_type_tok, mb).
     rbind (intern_ctor_sig (map arg_kind (at_ctor_args attr)) mb) (\<lambda>(sig_off, mb).
     rbind (member_ref attr_type_tok ''.ctor'' sig_off mb) (\<lambda>(ctor, mb).
     rbind (encode_custom_attr attr) (\<lambda>blob.
     rbind (mb_intern_blob blob mb) (\<lambda>(v, mb).
     push_custom_attribute parent ctor v mb)))))"

fun add_custom_attributes ::
  "'a assembly_scheme \<Rightarrow> token \<Rightarrow> custom_attr_def list \<Rightarrow> metadata_builder \<Rightarrow> (table_panic, metadata_builder) result" where
  "add_custom_attributes asm parent [] mb = Inr mb"
| "add_custom_attributes asm parent (a # attrs) mb =
     rbind (add_custom_attribute asm parent a mb) (\<lambda>(_, mb). add_custom_attributes asm parent attrs mb)"

definition token_for_sequence ::
  "token \<Rightarrow> u16 \<Rightarrow> metadata_builder \<Rightarrow> (table_panic, token \<times> metadata_builder) result" where
  "token_for_sequence method sequence mb =
     (case mb_method_param_cache mb (method, sequence) of
        Some tok \<Rightarrow> Inr (tok, mb)
      | None \<Rightarrow> if sequence \<noteq> 0 then Inl (NoParam sequence) else push_param method 0 0 0 mb)"

fun add_parameter_attributes ::
  "'a assembly_scheme \<Rightarrow> token \<Rightarrow> nat \<Rightarrow> custom_attr_def list list \<Rightarrow> metadata_builder \<Rightarrow> (table_panic, metadata_builder) result" where
  "add_parameter_attributes asm method i [] mb = Inr mb"
| "add_parameter_attributes asm method i (attrs # rest) mb =
     (if attrs = [] then add_parameter_attributes asm method (i + 1) rest mb
      else if i + 1 \<ge> 2 ^ 16 then Inl SequenceOverflow
      else rbind (token_for_sequence method (word_of_nat (i + 1)) mb) (\<lambda>(parameter, mb).
        rbind (add_custom_attributes asm parameter attrs mb) (\<lambda>mb.
        add_parameter_attributes asm method (i + 1) rest mb)))"

definition add_method_custom_attributes ::
  "'a assembly_scheme \<Rightarrow> token \<Rightarrow> custom_attr_def list \<Rightarrow> custom_attr_def list \<Rightarrow> custom_attr_def list list
     \<Rightarrow> metadata_builder \<Rightarrow> (table_panic, metadata_builder) result" where
  "add_method_custom_attributes asm method method_attributes return_attributes parameter_attributes mb =
     (if token_table method \<noteq> TABLE_METHOD_DEF then Inl (WrongTable (token_table method))
      else if unat (token_rid method) > length (mb_method_def mb) then Inl (NoRow (unat (token_rid method)))
      else rbind (add_custom_attributes asm method method_attributes mb) (\<lambda>mb.
      rbind (if return_attributes = [] then Inr mb
             else rbind (token_for_sequence method 0 mb) (\<lambda>(return_param, mb).
               add_custom_attributes asm return_param return_attributes mb)) (\<lambda>mb.
      add_parameter_attributes asm method 0 parameter_attributes mb)))"

section \<open>Module and assembly\<close>

fun mvid_fnv1a :: "u64 \<Rightarrow> u8 list \<Rightarrow> u64" where
  "mvid_fnv1a hash [] = hash"
| "mvid_fnv1a hash (b # bs) = mvid_fnv1a ((hash XOR ucast b) * 0x00000100000001b3) bs"

definition deterministic_mvid :: "string \<Rightarrow> u8 list" where
  "deterministic_mvid name =
     le_bytes 8 (mvid_fnv1a 0xcbf29ce484222325 (str_bytes name)) @ le_bytes 8 (mvid_fnv1a 0x9e3779b97f4a7c15 (str_bytes name))"

definition set_module :: "string \<Rightarrow> u8 list \<Rightarrow> metadata_builder \<Rightarrow> (table_panic, metadata_builder) result" where
  "set_module name mvid mb =
     rbind (mb_intern_string name mb) (\<lambda>(name_off, mb).
     rbind (map_sum TableHeap id (guid_push mvid (mb_guids mb))) (\<lambda>(mvid_idx, guids).
     let row = \<lparr>mo_name = name_off, mo_mvid = mvid_idx\<rparr>; mb = mb\<lparr>mb_guids := guids\<rparr> in
     Inr (mb\<lparr>mb_module := (case mb_module mb of [] \<Rightarrow> [row] | _ # rows \<Rightarrow> row # rows)\<rparr>)))"

definition finish_module :: "string \<Rightarrow> metadata_builder \<Rightarrow> (table_panic, metadata_builder) result" where
  "finish_module assembly_name mb = set_module assembly_name (deterministic_mvid assembly_name) mb"

definition set_assembly ::
  "string \<Rightarrow> u16 \<times> u16 \<times> u16 \<times> u16 \<Rightarrow> metadata_builder \<Rightarrow> (table_panic, token \<times> metadata_builder) result" where
  "set_assembly name version mb =
     rbind (mb_intern_string name mb) (\<lambda>(name_off, mb).
     Inr (token_new TABLE_ASSEMBLY 1, mb\<lparr>mb_assembly := mb_assembly mb @
       [\<lparr>ay_hash_alg_id = 0x8004, ay_version = version, ay_flags = 0, ay_public_key = 0, ay_name = name_off,
         ay_culture = 0\<rparr>]\<rparr>))"

end
