(* ===== verification/TableRefs.thy ===== *)
theory TableRefs
  imports TableOps
begin

text \<open>
  Referential integrity of the metadata: every column of every row that an operation writes holds an offset that reads
  back from its heap, the number of a row that exists or the start of a run. \<open>yields\<close> says this of one
  fallible operation, one lemma per operation proves it, and the rules of \<open>yields\<close> compose them the way the code
  composes the operations.
\<close>

section \<open>Referential integrity\<close>

text \<open>
  What a column may hold: the offset of a string or of a blob that reads back, the number of an existing row, 0 for none,
  the start of a run.
\<close>

definition refers :: "metadata_builder \<Rightarrow> column \<Rightarrow> nat \<Rightarrow> bool" where
  "refers mb c v \<longleftrightarrow>
     (case c of
        Fixed n \<Rightarrow> True
      | StrHeap \<Rightarrow> strings_read (s_data (mb_strings mb)) (word_of_nat v) \<noteq> None
      | GuidHeap \<Rightarrow> v \<le> length (g_data (mb_guids mb)) div 16
      | BlobHeap \<Rightarrow> blob_read (b_data (mb_blobs mb)) (word_of_nat v) \<noteq> None
      | RowIndex t \<Rightarrow> v \<le> content_rows mb t
      | RunStart t \<Rightarrow> v \<le> content_rows mb t + 1
      | CodedIndex bits ts \<Rightarrow> v mod 2 ^ bits < length ts \<and> v div 2 ^ bits \<le> content_rows mb (ts ! (v mod 2 ^ bits)))"

definition row_refers :: "metadata_builder \<Rightarrow> nat \<Rightarrow> nat list \<Rightarrow> bool" where
  "row_refers mb t r \<longleftrightarrow> list_all2 (refers mb) (the (map_of schemas t)) r"

definition raw_contents :: "metadata_builder \<Rightarrow> (nat \<times> nat list list) list" where
  "raw_contents mb =
     [(0, map module_cols (mb_module mb)), (1, map type_ref_cols (mb_type_ref mb)), (2, map type_def_cols (mb_type_def mb)),
      (4, map field_cols (mb_field mb)), (6, map method_def_cols (mb_method_def mb)), (8, map param_cols (mb_param mb)),
      (9, map interface_impl_cols (mb_interface_impl mb)), (10, map member_ref_cols (mb_member_ref mb)),
      (11, map constant_cols (mb_constant mb)), (12, map custom_attribute_cols (mb_custom_attribute mb)),
      (15, map class_layout_cols (mb_class_layout mb)), (16, map field_layout_cols (mb_field_layout mb)),
      (17, map (\<lambda>x. [unat x]) (mb_standalone_sig mb)), (18, map event_map_cols (mb_event_map mb)),
      (20, map event_cols (mb_event mb)), (21, map property_map_cols (mb_property_map mb)),
      (23, map property_cols (mb_property mb)), (24, map method_semantics_cols (mb_method_semantics mb)),
      (25, map method_impl_cols (mb_method_impl mb)), (26, map (\<lambda>x. [unat x]) (mb_module_ref mb)),
      (27, map (\<lambda>x. [unat x]) (mb_type_spec mb)), (28, map impl_map_cols (mb_impl_map mb)),
      (29, map field_rva_cols (mb_field_rva mb)), (32, map assembly_cols (mb_assembly mb)),
      (35, map assembly_ref_cols (mb_assembly_ref mb)), (42, map generic_param_cols (mb_generic_param mb)),
      (43, map method_spec_cols (mb_method_spec mb))]"

definition tables_refer :: "metadata_builder \<Rightarrow> bool" where
  "tables_refer mb \<longleftrightarrow> list_all (\<lambda>(t, rs). list_all (row_refers mb t) rs) (raw_contents mb)"

text \<open>A valid token names an existing row of one of the given tables.\<close>

definition valid :: "metadata_builder \<Rightarrow> u32 set \<Rightarrow> token \<Rightarrow> bool" where
  "valid mb ts tok \<longleftrightarrow> token_table tok \<in> ts \<and> token_rid tok \<noteq> 0
     \<and> unat (token_rid tok) \<le> content_rows mb (unat (token_table tok))"

definition cached :: "('k \<rightharpoonup> token) \<Rightarrow> u32 set \<Rightarrow> metadata_builder \<Rightarrow> bool" where
  "cached c ts mb \<longleftrightarrow> (\<forall>k tok. c k = Some tok \<longrightarrow> valid mb ts tok)"

abbreviation (input) class_tables :: "u32 set" where
  "class_tables \<equiv> {TABLE_TYPE_DEF, TABLE_TYPE_REF, TABLE_TYPE_SPEC}"

definition caches_refer :: "metadata_builder \<Rightarrow> bool" where
  "caches_refer mb \<longleftrightarrow>
     cached (mb_type_ref_cache mb) {TABLE_TYPE_REF} mb \<and> cached (mb_type_def_cache mb) {TABLE_TYPE_DEF} mb
     \<and> cached (mb_member_ref_cache mb) {TABLE_MEMBER_REF} mb \<and> cached (mb_assembly_ref_cache mb) {TABLE_ASSEMBLY_REF} mb
     \<and> cached (mb_module_ref_cache mb) {TABLE_MODULE_REF} mb \<and> cached (mb_standalone_sig_cache mb) {TABLE_STAND_ALONE_SIG} mb
     \<and> cached (mb_type_spec_cache mb) {TABLE_TYPE_SPEC} mb \<and> cached (mb_class_token_cache mb) {TABLE_TYPE_DEF, TABLE_TYPE_REF} mb
     \<and> cached (mb_method_param_cache mb) {TABLE_PARAM} mb \<and> cached (mb_method_def_cache mb) {TABLE_METHOD_DEF} mb"

definition ref_tables :: "nat list" where
  "ref_tables = [0, 1, 2, 4, 6, 8, 9, 10, 14, 17, 20, 23, 26, 27, 32, 35, 38, 39, 40, 42, 43, 44, 255]"

text \<open>A token has 24 bits for its row.\<close>

definition small :: "metadata_builder \<Rightarrow> bool" where
  "small mb \<longleftrightarrow> list_all (\<lambda>t. content_rows mb t < 2 ^ 24) ref_tables"

definition refers_ok :: "metadata_builder \<Rightarrow> bool" where
  "refers_ok mb \<longleftrightarrow> strings_wf (mb_strings mb) \<and> blob_wf (mb_blobs mb)
     \<and> (small mb \<longrightarrow> tables_refer mb \<and> caches_refer mb)"

definition grows :: "metadata_builder \<Rightarrow> metadata_builder \<Rightarrow> bool" where
  "grows mb mb' \<longleftrightarrow> prefix (s_data (mb_strings mb)) (s_data (mb_strings mb'))
     \<and> prefix (b_data (mb_blobs mb)) (b_data (mb_blobs mb')) \<and> prefix (g_data (mb_guids mb)) (g_data (mb_guids mb'))
     \<and> list_all (\<lambda>t. content_rows mb t \<le> content_rows mb' t) ref_tables"

lemma grows_refl [simp]: "grows mb mb"
  by (simp add: grows_def list_all_iff)

lemma grows_trans: "grows a b \<Longrightarrow> grows b c \<Longrightarrow> grows a c"
  unfolding grows_def list_all_iff by (meson order_trans prefix_order.order_trans)

lemma grows_small: "grows mb mb' \<Longrightarrow> small mb' \<Longrightarrow> small mb"
  unfolding grows_def small_def list_all_iff by (meson le_less_trans)

definition column_tables :: "column \<Rightarrow> nat list" where
  "column_tables c = (case c of RowIndex t \<Rightarrow> [t] | RunStart t \<Rightarrow> [t] | CodedIndex _ ts \<Rightarrow> ts | _ \<Rightarrow> [])"

lemma schema_tables: "list_all (\<lambda>(_, cs). list_all (\<lambda>c. list_all (\<lambda>t. t \<in> set ref_tables) (column_tables c)) cs) schemas"
  by (simp add: schemas_def column_tables_def ref_tables_def)

lemma blob_read_prefix: "prefix a b \<Longrightarrow> blob_read a off = Some v \<Longrightarrow> blob_read b off = Some v"
  by (auto simp: prefix_def blob_read_extends)

lemma strings_read_prefix: "prefix a b \<Longrightarrow> strings_read a off = Some v \<Longrightarrow> strings_read b off = Some v"
  by (auto simp: prefix_def strings_read_extends)

lemma refers_mono:
  assumes "grows mb mb'" "list_all (\<lambda>t. t \<in> set ref_tables) (column_tables c)" "refers mb c v"
  shows "refers mb' c v"
proof -
  have le: "content_rows mb t \<le> content_rows mb' t" if "t \<in> set (column_tables c)" for t
    using assms(1,2) that by (auto simp: grows_def list_all_iff)
  have g: "length (g_data (mb_guids mb)) \<le> length (g_data (mb_guids mb'))"
    using assms(1) by (auto simp: grows_def prefix_length_le)
  show ?thesis
  proof (cases c)
    case StrHeap
    then show ?thesis using assms strings_read_prefix by (fastforce simp: refers_def grows_def)
  next
    case GuidHeap
    have "length (g_data (mb_guids mb)) div 16 \<le> length (g_data (mb_guids mb')) div 16" using g by (rule div_le_mono)
    then show ?thesis using assms(3) GuidHeap by (simp add: refers_def)
  next
    case BlobHeap
    then show ?thesis using assms blob_read_prefix by (fastforce simp: refers_def grows_def)
  next
    case (RowIndex t)
    then show ?thesis using assms(3) le [of t] by (simp add: refers_def column_tables_def)
  next
    case (RunStart t)
    then show ?thesis using assms(3) le [of t] by (simp add: refers_def column_tables_def)
  next
    case (CodedIndex b ts)
    then show ?thesis using assms(3) le [of "ts ! (v mod 2 ^ b)"] by (simp add: refers_def column_tables_def)
  qed (simp add: refers_def)
qed

lemma row_refers_mono:
  assumes "grows mb mb'" "row_refers mb t r" "t \<in> fst ` set schemas"
  shows "row_refers mb' t r"
proof -
  obtain cs where cs: "map_of schemas t = Some cs" using assms(3) by (metis weak_map_of_SomeI imageE prod.collapse)
  then have "\<forall>c\<in>set cs. list_all (\<lambda>t. t \<in> set ref_tables) (column_tables c)"
    using schema_tables by (auto simp: list_all_iff dest!: map_of_SomeD)
  then show ?thesis
    using assms(2) cs refers_mono [OF assms(1)] by (auto simp: row_refers_def list_all2_conv_all_nth)
qed

lemma valid_mono:
  assumes "grows mb mb'" "valid mb ts tok" "unat ` ts \<subseteq> set ref_tables"
  shows "valid mb' ts tok"
proof -
  have "unat (token_table tok) \<in> set ref_tables" using assms(2,3) by (auto simp: valid_def)
  then show ?thesis using assms(1,2) unfolding valid_def grows_def list_all_iff by (meson order_trans)
qed

lemma cached_mono: "grows mb mb' \<Longrightarrow> cached c ts mb \<Longrightarrow> unat ` ts \<subseteq> set ref_tables \<Longrightarrow> cached c ts mb'"
  unfolding cached_def using valid_mono by blast

lemma cached_update: "cached c ts mb \<Longrightarrow> valid mb ts tok \<Longrightarrow> cached (c(k \<mapsto> tok)) ts mb"
  by (simp add: cached_def)

section \<open>Steps of the builder\<close>

definition string_ok :: "metadata_builder \<Rightarrow> u32 \<Rightarrow> bool" where
  "string_ok mb off \<longleftrightarrow> strings_read (s_data (mb_strings mb)) off \<noteq> None"

definition blob_ok :: "metadata_builder \<Rightarrow> u32 \<Rightarrow> bool" where
  "blob_ok mb off \<longleftrightarrow> blob_read (b_data (mb_blobs mb)) off \<noteq> None"

definition tok_ok :: "metadata_builder \<Rightarrow> u32 set \<Rightarrow> token \<Rightarrow> bool" where
  "tok_ok mb ts tok \<longleftrightarrow> unat ` ts \<subseteq> set ref_tables \<and> (small mb \<longrightarrow> valid mb ts tok)"

lemma ok_mono:
  "grows mb mb' \<Longrightarrow> string_ok mb off \<Longrightarrow> string_ok mb' off"
  "grows mb mb' \<Longrightarrow> blob_ok mb off \<Longrightarrow> blob_ok mb' off"
  "grows mb mb' \<Longrightarrow> tok_ok mb ts tok \<Longrightarrow> tok_ok mb' ts tok"
proof -
  assume g: "grows mb mb'"
  show "string_ok mb off \<Longrightarrow> string_ok mb' off"
    using g strings_read_prefix by (fastforce simp: string_ok_def grows_def)
  show "blob_ok mb off \<Longrightarrow> blob_ok mb' off"
    using g blob_read_prefix by (fastforce simp: blob_ok_def grows_def)
  show "tok_ok mb ts tok \<Longrightarrow> tok_ok mb' ts tok"
    using grows_small [OF g] valid_mono [OF g] by (simp add: tok_ok_def)
qed

text \<open>\<open>rows_step\<close>: every row of the later builder is one of the earlier or refers to what exists.\<close>

definition rows_step :: "metadata_builder \<Rightarrow> metadata_builder \<Rightarrow> bool" where
  "rows_step mb mb' \<longleftrightarrow>
     list_all2 (\<lambda>(t, rs) (t', rs'). t = t' \<and> (\<forall>r\<in>set rs'. r \<in> set rs \<or> row_refers mb' t r)) (raw_contents mb) (raw_contents mb')"

lemma raw_ids: "map fst (raw_contents mb) = map fst schemas"
  by (simp add: raw_contents_def schemas_def)

lemma tables_refer_step:
  assumes "grows mb mb'" "tables_refer mb" "rows_step mb mb'"
  shows "tables_refer mb'"
  unfolding tables_refer_def
proof (subst list_all_length, intro allI impI)
  fix n assume n: "n < length (raw_contents mb')"
  have len: "length (raw_contents mb) = length (raw_contents mb')" using assms(3) by (simp add: rows_step_def list_all2_lengthD)
  obtain t rs where old: "raw_contents mb ! n = (t, rs)" by fastforce
  then obtain rs' where new: "raw_contents mb' ! n = (t, rs')" "\<forall>r\<in>set rs'. r \<in> set rs \<or> row_refers mb' t r"
    using assms(3) n unfolding rows_step_def list_all2_conv_all_nth by fastforce
  have "t \<in> fst ` set schemas" using n new(1) raw_ids by (metis fst_conv image_eqI list.set_map nth_mem)
  moreover have "(t, rs) \<in> set (raw_contents mb)" using old n len by (metis nth_mem)
  then have "\<forall>r\<in>set rs. row_refers mb t r" using assms(2) by (auto simp: tables_refer_def list_all_iff)
  ultimately have "row_refers mb' t r" if "r \<in> set rs'" for r
    using new(2) that row_refers_mono [OF assms(1)] by blast
  then show "case raw_contents mb' ! n of (t, rs) \<Rightarrow> list_all (row_refers mb' t) rs"
    by (simp add: new(1) list_all_iff)
qed

lemma caches_refer_step:
  assumes "grows mb mb'" "caches_refer mb"
    and "mb_type_ref_cache mb' = mb_type_ref_cache mb \<or> cached (mb_type_ref_cache mb') {TABLE_TYPE_REF} mb'"
    and "mb_type_def_cache mb' = mb_type_def_cache mb \<or> cached (mb_type_def_cache mb') {TABLE_TYPE_DEF} mb'"
    and "mb_member_ref_cache mb' = mb_member_ref_cache mb \<or> cached (mb_member_ref_cache mb') {TABLE_MEMBER_REF} mb'"
    and "mb_assembly_ref_cache mb' = mb_assembly_ref_cache mb \<or> cached (mb_assembly_ref_cache mb') {TABLE_ASSEMBLY_REF} mb'"
    and "mb_module_ref_cache mb' = mb_module_ref_cache mb \<or> cached (mb_module_ref_cache mb') {TABLE_MODULE_REF} mb'"
    and "mb_standalone_sig_cache mb' = mb_standalone_sig_cache mb \<or> cached (mb_standalone_sig_cache mb') {TABLE_STAND_ALONE_SIG} mb'"
    and "mb_type_spec_cache mb' = mb_type_spec_cache mb \<or> cached (mb_type_spec_cache mb') {TABLE_TYPE_SPEC} mb'"
    and "mb_class_token_cache mb' = mb_class_token_cache mb \<or> cached (mb_class_token_cache mb') {TABLE_TYPE_DEF, TABLE_TYPE_REF} mb'"
    and "mb_method_param_cache mb' = mb_method_param_cache mb \<or> cached (mb_method_param_cache mb') {TABLE_PARAM} mb'"
    and "mb_method_def_cache mb' = mb_method_def_cache mb \<or> cached (mb_method_def_cache mb') {TABLE_METHOD_DEF} mb'"
  shows "caches_refer mb'"
proof -
  have step: "cached c' ts mb'" if "c' = c \<or> cached c' ts mb'" "cached c ts mb" "unat ` ts \<subseteq> set ref_tables" for c c' :: "'k \<rightharpoonup> token" and ts
    using that cached_mono [OF assms(1)] by blast
  show ?thesis
    unfolding caches_refer_def
    by (intro conjI; rule step, rule assms(3-)) (use assms(2) in \<open>simp_all add: caches_refer_def ref_tables_def\<close>)
qed

definition yields :: "('x \<Rightarrow> metadata_builder) \<Rightarrow> metadata_builder \<Rightarrow> (table_panic, 'x) result \<Rightarrow> ('x \<Rightarrow> bool) \<Rightarrow> bool" where
  "yields st mb m Q \<longleftrightarrow> (\<forall>x. m = Inr x \<longrightarrow> grows mb (st x) \<and> refers_ok (st x) \<and> Q x)"

lemma yields_Inr: "grows mb (st x) \<Longrightarrow> refers_ok (st x) \<Longrightarrow> Q x \<Longrightarrow> yields st mb (Inr x) Q"
  by (simp add: yields_def)

lemma yields_Inl: "yields st mb (Inl p) Q"
  by (simp add: yields_def)

lemma yields_bind:
  assumes "yields st1 mb m Q"
    and "\<And>x. grows mb (st1 x) \<Longrightarrow> refers_ok (st1 x) \<Longrightarrow> Q x \<Longrightarrow> yields st2 (st1 x) (k x) R"
  shows "yields st2 mb (rbind m k) R"
  using assms grows_trans by (auto simp: yields_def rbind_eq_Inr)

lemma yields_value:
  assumes "\<And>v. m = Inr v \<Longrightarrow> yields st mb (k v) R"
  shows "yields st mb (rbind m k) R"
  using assms by (auto simp: yields_def rbind_eq_Inr)

lemma yields_weaken: "yields st mb m Q \<Longrightarrow> (\<And>x. Q x \<Longrightarrow> R x) \<Longrightarrow> yields st mb m R"
  by (auto simp: yields_def)

lemma refers_ok_step:
  assumes "refers_ok mb" "grows mb mb'" "mb_strings mb' = mb_strings mb \<or> strings_wf (mb_strings mb')"
    "mb_blobs mb' = mb_blobs mb \<or> blob_wf (mb_blobs mb')"
    and "small mb' \<Longrightarrow> rows_step mb mb'" "small mb' \<Longrightarrow> caches_refer mb \<Longrightarrow> caches_refer mb'"
  shows "refers_ok mb'"
  using assms grows_small [OF assms(2)] tables_refer_step [OF assms(2)] unfolding refers_ok_def by metis

lemma intern_string_yields:
  assumes "refers_ok mb"
  shows "yields snd mb (mb_intern_string s mb) (\<lambda>(off, mb'). string_ok mb' off)"
proof -
  have wf: "strings_wf (mb_strings mb)" using assms by (simp add: refers_ok_def)
  have "grows mb mb' \<and> refers_ok mb' \<and> string_ok mb' off" if run: "mb_intern_string s mb = Inr (off, mb')" for off mb'
  proof -
    obtain h where h: "strings_intern (str_bytes s) (mb_strings mb) = Inr (off, h)" "mb' = mb\<lparr>mb_strings := h\<rparr>"
      using run by (cases "strings_intern (str_bytes s) (mb_strings mb)") (auto simp: mb_intern_string_def)
    have g: "grows mb mb'" using sh.intern_extends [OF wf h(1)] h(2)
      by (auto simp: grows_def prefix_def list_all_iff ref_tables_def)
    have "refers_ok mb'"
      using sh.intern_wf [OF wf h(1)] h(2)
      by (intro refers_ok_step [OF assms g]) (simp_all add: rows_step_def raw_contents_def caches_refer_step [OF g, unfolded h(2)])
    moreover have "string_ok mb' off" using sh.intern_read [OF wf h(1)] h(2) by (simp add: string_ok_def)
    ultimately show ?thesis using g by simp
  qed
  then show ?thesis by (auto simp: yields_def)
qed

lemma intern_blob_yields:
  assumes "refers_ok mb"
  shows "yields snd mb (mb_intern_blob b mb) (\<lambda>(off, mb'). blob_ok mb' off)"
proof -
  have wf: "blob_wf (mb_blobs mb)" using assms by (simp add: refers_ok_def)
  have "grows mb mb' \<and> refers_ok mb' \<and> blob_ok mb' off" if run: "mb_intern_blob b mb = Inr (off, mb')" for off mb'
  proof -
    obtain h where h: "blob_intern b (mb_blobs mb) = Inr (off, h)" "mb' = mb\<lparr>mb_blobs := h\<rparr>"
      using run by (cases "blob_intern b (mb_blobs mb)") (auto simp: mb_intern_blob_def)
    have g: "grows mb mb'" using bh.intern_extends [OF wf h(1)] h(2)
      by (auto simp: grows_def prefix_def list_all_iff ref_tables_def)
    have "refers_ok mb'"
      using bh.intern_wf [OF wf h(1)] h(2)
      by (intro refers_ok_step [OF assms g]) (simp_all add: rows_step_def raw_contents_def caches_refer_step [OF g, unfolded h(2)])
    moreover have "blob_ok mb' off" using bh.intern_read [OF wf h(1)] h(2) by (simp add: blob_ok_def)
    ultimately show ?thesis using g by simp
  qed
  then show ?thesis by (auto simp: yields_def)
qed

lemma refers_ok_rows:
  assumes "refers_ok mb" "grows mb mb'" "mb_strings mb' = mb_strings mb" "mb_blobs mb' = mb_blobs mb"
    and "small mb' \<Longrightarrow> rows_step mb mb'"
    and "mb_type_ref_cache mb' = mb_type_ref_cache mb" "mb_type_def_cache mb' = mb_type_def_cache mb"
    "mb_member_ref_cache mb' = mb_member_ref_cache mb" "mb_assembly_ref_cache mb' = mb_assembly_ref_cache mb"
    "mb_module_ref_cache mb' = mb_module_ref_cache mb" "mb_standalone_sig_cache mb' = mb_standalone_sig_cache mb"
    "mb_type_spec_cache mb' = mb_type_spec_cache mb" "mb_class_token_cache mb' = mb_class_token_cache mb"
    "mb_method_param_cache mb' = mb_method_param_cache mb" "mb_method_def_cache mb' = mb_method_def_cache mb"
  shows "refers_ok mb'"
proof (rule refers_ok_step [OF assms(1,2) disjI1 [OF assms(3)] disjI1 [OF assms(4)] assms(5)])
  assume "caches_refer mb"
  then show "caches_refer mb'" by (rule caches_refer_step [OF assms(2)]) (simp_all add: assms)
qed assumption

named_theorems grown \<open>updates that keep every row\<close>

lemma grows_rows [grown]:
  "length (mb_module mb) \<le> length module_rows \<Longrightarrow> grows mb (mb\<lparr>mb_module := module_rows\<rparr>)"
  "length (mb_type_ref mb) \<le> length type_ref_rows \<Longrightarrow> grows mb (mb\<lparr>mb_type_ref := type_ref_rows\<rparr>)"
  "length (mb_type_def mb) \<le> length type_def_rows \<Longrightarrow> grows mb (mb\<lparr>mb_type_def := type_def_rows\<rparr>)"
  "length (mb_field mb) \<le> length field_rows \<Longrightarrow> grows mb (mb\<lparr>mb_field := field_rows\<rparr>)"
  "length (mb_method_def mb) \<le> length method_def_rows \<Longrightarrow> grows mb (mb\<lparr>mb_method_def := method_def_rows\<rparr>)"
  "length (mb_param mb) \<le> length param_rows \<Longrightarrow> grows mb (mb\<lparr>mb_param := param_rows\<rparr>)"
  "length (mb_interface_impl mb) \<le> length interface_impl_rows \<Longrightarrow> grows mb (mb\<lparr>mb_interface_impl := interface_impl_rows\<rparr>)"
  "length (mb_member_ref mb) \<le> length member_ref_rows \<Longrightarrow> grows mb (mb\<lparr>mb_member_ref := member_ref_rows\<rparr>)"
  "length (mb_constant mb) \<le> length constant_rows \<Longrightarrow> grows mb (mb\<lparr>mb_constant := constant_rows\<rparr>)"
  "length (mb_custom_attribute mb) \<le> length custom_attribute_rows \<Longrightarrow> grows mb (mb\<lparr>mb_custom_attribute := custom_attribute_rows\<rparr>)"
  "length (mb_class_layout mb) \<le> length class_layout_rows \<Longrightarrow> grows mb (mb\<lparr>mb_class_layout := class_layout_rows\<rparr>)"
  "length (mb_field_layout mb) \<le> length field_layout_rows \<Longrightarrow> grows mb (mb\<lparr>mb_field_layout := field_layout_rows\<rparr>)"
  "length (mb_standalone_sig mb) \<le> length standalone_sig_rows \<Longrightarrow> grows mb (mb\<lparr>mb_standalone_sig := standalone_sig_rows\<rparr>)"
  "length (mb_event_map mb) \<le> length event_map_rows \<Longrightarrow> grows mb (mb\<lparr>mb_event_map := event_map_rows\<rparr>)"
  "length (mb_event mb) \<le> length event_rows \<Longrightarrow> grows mb (mb\<lparr>mb_event := event_rows\<rparr>)"
  "length (mb_property_map mb) \<le> length property_map_rows \<Longrightarrow> grows mb (mb\<lparr>mb_property_map := property_map_rows\<rparr>)"
  "length (mb_property mb) \<le> length property_rows \<Longrightarrow> grows mb (mb\<lparr>mb_property := property_rows\<rparr>)"
  "length (mb_method_semantics mb) \<le> length method_semantics_rows \<Longrightarrow> grows mb (mb\<lparr>mb_method_semantics := method_semantics_rows\<rparr>)"
  "length (mb_method_impl mb) \<le> length method_impl_rows \<Longrightarrow> grows mb (mb\<lparr>mb_method_impl := method_impl_rows\<rparr>)"
  "length (mb_module_ref mb) \<le> length module_ref_rows \<Longrightarrow> grows mb (mb\<lparr>mb_module_ref := module_ref_rows\<rparr>)"
  "length (mb_type_spec mb) \<le> length type_spec_rows \<Longrightarrow> grows mb (mb\<lparr>mb_type_spec := type_spec_rows\<rparr>)"
  "length (mb_impl_map mb) \<le> length impl_map_rows \<Longrightarrow> grows mb (mb\<lparr>mb_impl_map := impl_map_rows\<rparr>)"
  "length (mb_field_rva mb) \<le> length field_rva_rows \<Longrightarrow> grows mb (mb\<lparr>mb_field_rva := field_rva_rows\<rparr>)"
  "length (mb_assembly mb) \<le> length assembly_rows \<Longrightarrow> grows mb (mb\<lparr>mb_assembly := assembly_rows\<rparr>)"
  "length (mb_assembly_ref mb) \<le> length assembly_ref_rows \<Longrightarrow> grows mb (mb\<lparr>mb_assembly_ref := assembly_ref_rows\<rparr>)"
  "length (mb_generic_param mb) \<le> length generic_param_rows \<Longrightarrow> grows mb (mb\<lparr>mb_generic_param := generic_param_rows\<rparr>)"
  "length (mb_method_spec mb) \<le> length method_spec_rows \<Longrightarrow> grows mb (mb\<lparr>mb_method_spec := method_spec_rows\<rparr>)"
  by (simp_all add: grows_def ref_tables_def)

lemma grows_frame [simp]:
  "grows mb (mb_type_ref_cache_update type_ref_cache_new mb0) = grows mb mb0"
  "grows mb (mb_type_def_cache_update type_def_cache_new mb0) = grows mb mb0"
  "grows mb (mb_member_ref_cache_update member_ref_cache_new mb0) = grows mb mb0"
  "grows mb (mb_assembly_ref_cache_update assembly_ref_cache_new mb0) = grows mb mb0"
  "grows mb (mb_module_ref_cache_update module_ref_cache_new mb0) = grows mb mb0"
  "grows mb (mb_standalone_sig_cache_update standalone_sig_cache_new mb0) = grows mb mb0"
  "grows mb (mb_type_spec_cache_update type_spec_cache_new mb0) = grows mb mb0"
  "grows mb (mb_class_token_cache_update class_token_cache_new mb0) = grows mb mb0"
  "grows mb (mb_method_param_cache_update method_param_cache_new mb0) = grows mb mb0"
  "grows mb (mb_method_def_cache_update method_def_cache_new mb0) = grows mb mb0"
  "grows mb (mb_user_strings_update user_strings_new mb0) = grows mb mb0"
  "grows mb (mb_calli_sig_cache_update calli_sig_cache_new mb0) = grows mb mb0"
  "grows mb (mb_locals_sig_cache_update locals_sig_cache_new mb0) = grows mb mb0"
  "grows mb (mb_field_def_cache_update field_def_cache_new mb0) = grows mb mb0"
  "grows mb (mb_pending_field_rva_update pending_field_rva_new mb0) = grows mb mb0"
  "grows mb (mb_entry_point_update entry_point_new mb0) = grows mb mb0"
  "grows mb (mb_current_type_def_update current_type_def_new mb0) = grows mb mb0"
  "grows mb (mb_is_lib_update is_lib_new mb0) = grows mb mb0"
  "grows mb (mb_runtime_update runtime_new mb0) = grows mb mb0"
  "grows mb (mb_public_module_full_name_update public_module_full_name_new mb0) = grows mb mb0"
  by (simp_all add: grows_def ref_tables_def)

lemma refers_ok_cong:
  assumes "mb_strings mb' = mb_strings mb" "mb_blobs mb' = mb_blobs mb" "mb_guids mb' = mb_guids mb"
    "content_rows mb' = content_rows mb" "raw_contents mb' = raw_contents mb"
    and "mb_type_ref_cache mb' = mb_type_ref_cache mb" "mb_type_def_cache mb' = mb_type_def_cache mb"
    "mb_member_ref_cache mb' = mb_member_ref_cache mb" "mb_assembly_ref_cache mb' = mb_assembly_ref_cache mb"
    "mb_module_ref_cache mb' = mb_module_ref_cache mb" "mb_standalone_sig_cache mb' = mb_standalone_sig_cache mb"
    "mb_type_spec_cache mb' = mb_type_spec_cache mb" "mb_class_token_cache mb' = mb_class_token_cache mb"
    "mb_method_param_cache mb' = mb_method_param_cache mb" "mb_method_def_cache mb' = mb_method_def_cache mb"
  shows "refers_ok mb' = refers_ok mb"
proof -
  have "refers mb' = refers mb" by (intro ext) (simp add: refers_def assms split: column.splits)
  then have rr: "row_refers mb' = row_refers mb" by (intro ext) (simp add: row_refers_def)
  have cc: "cached c ts mb' = cached c ts mb" for c :: "'k \<rightharpoonup> token" and ts
    by (simp add: cached_def valid_def assms)
  show ?thesis by (simp add: refers_ok_def small_def tables_refer_def caches_refer_def rr cc assms)
qed

lemma refers_ok_frame [simp]:
  "refers_ok (mb_user_strings_update user_strings_new mb) = refers_ok mb"
  "refers_ok (mb_calli_sig_cache_update calli_sig_cache_new mb) = refers_ok mb"
  "refers_ok (mb_locals_sig_cache_update locals_sig_cache_new mb) = refers_ok mb"
  "refers_ok (mb_field_def_cache_update field_def_cache_new mb) = refers_ok mb"
  "refers_ok (mb_pending_field_rva_update pending_field_rva_new mb) = refers_ok mb"
  "refers_ok (mb_entry_point_update entry_point_new mb) = refers_ok mb"
  "refers_ok (mb_current_type_def_update current_type_def_new mb) = refers_ok mb"
  "refers_ok (mb_is_lib_update is_lib_new mb) = refers_ok mb"
  "refers_ok (mb_runtime_update runtime_new mb) = refers_ok mb"
  "refers_ok (mb_public_module_full_name_update public_module_full_name_new mb) = refers_ok mb"
  by (rule refers_ok_cong; simp add: raw_contents_def content_rows_def table_contents_def)+

lemma module_rows_ok [grown]:
  assumes "refers_ok mb" "length (mb_module mb) \<le> length rows"
    and "\<And>x. small (mb\<lparr>mb_module := rows\<rparr>) \<Longrightarrow> x \<in> set rows \<Longrightarrow> x \<in> set (mb_module mb) \<or> row_refers (mb\<lparr>mb_module := rows\<rparr>) 0 (module_cols x)"
  shows "refers_ok (mb\<lparr>mb_module := rows\<rparr>)"
  using assms(3) by (intro refers_ok_rows [OF assms(1) grows_rows(1) [OF assms(2)]]) (auto simp: rows_step_def raw_contents_def)

lemma type_ref_rows_ok [grown]:
  assumes "refers_ok mb" "length (mb_type_ref mb) \<le> length rows"
    and "\<And>x. small (mb\<lparr>mb_type_ref := rows\<rparr>) \<Longrightarrow> x \<in> set rows \<Longrightarrow> x \<in> set (mb_type_ref mb) \<or> row_refers (mb\<lparr>mb_type_ref := rows\<rparr>) 1 (type_ref_cols x)"
  shows "refers_ok (mb\<lparr>mb_type_ref := rows\<rparr>)"
  using assms(3) by (intro refers_ok_rows [OF assms(1) grows_rows(2) [OF assms(2)]]) (auto simp: rows_step_def raw_contents_def)

lemma type_def_rows_ok [grown]:
  assumes "refers_ok mb" "length (mb_type_def mb) \<le> length rows"
    and "\<And>x. small (mb\<lparr>mb_type_def := rows\<rparr>) \<Longrightarrow> x \<in> set rows \<Longrightarrow> x \<in> set (mb_type_def mb) \<or> row_refers (mb\<lparr>mb_type_def := rows\<rparr>) 2 (type_def_cols x)"
  shows "refers_ok (mb\<lparr>mb_type_def := rows\<rparr>)"
  using assms(3) by (intro refers_ok_rows [OF assms(1) grows_rows(3) [OF assms(2)]]) (auto simp: rows_step_def raw_contents_def)

lemma field_rows_ok [grown]:
  assumes "refers_ok mb" "length (mb_field mb) \<le> length rows"
    and "\<And>x. small (mb\<lparr>mb_field := rows\<rparr>) \<Longrightarrow> x \<in> set rows \<Longrightarrow> x \<in> set (mb_field mb) \<or> row_refers (mb\<lparr>mb_field := rows\<rparr>) 4 (field_cols x)"
  shows "refers_ok (mb\<lparr>mb_field := rows\<rparr>)"
  using assms(3) by (intro refers_ok_rows [OF assms(1) grows_rows(4) [OF assms(2)]]) (auto simp: rows_step_def raw_contents_def)

lemma method_def_rows_ok [grown]:
  assumes "refers_ok mb" "length (mb_method_def mb) \<le> length rows"
    and "\<And>x. small (mb\<lparr>mb_method_def := rows\<rparr>) \<Longrightarrow> x \<in> set rows \<Longrightarrow> x \<in> set (mb_method_def mb) \<or> row_refers (mb\<lparr>mb_method_def := rows\<rparr>) 6 (method_def_cols x)"
  shows "refers_ok (mb\<lparr>mb_method_def := rows\<rparr>)"
  using assms(3) by (intro refers_ok_rows [OF assms(1) grows_rows(5) [OF assms(2)]]) (auto simp: rows_step_def raw_contents_def)

lemma param_rows_ok [grown]:
  assumes "refers_ok mb" "length (mb_param mb) \<le> length rows"
    and "\<And>x. small (mb\<lparr>mb_param := rows\<rparr>) \<Longrightarrow> x \<in> set rows \<Longrightarrow> x \<in> set (mb_param mb) \<or> row_refers (mb\<lparr>mb_param := rows\<rparr>) 8 (param_cols x)"
  shows "refers_ok (mb\<lparr>mb_param := rows\<rparr>)"
  using assms(3) by (intro refers_ok_rows [OF assms(1) grows_rows(6) [OF assms(2)]]) (auto simp: rows_step_def raw_contents_def)

lemma interface_impl_rows_ok [grown]:
  assumes "refers_ok mb" "length (mb_interface_impl mb) \<le> length rows"
    and "\<And>x. small (mb\<lparr>mb_interface_impl := rows\<rparr>) \<Longrightarrow> x \<in> set rows \<Longrightarrow> x \<in> set (mb_interface_impl mb) \<or> row_refers (mb\<lparr>mb_interface_impl := rows\<rparr>) 9 (interface_impl_cols x)"
  shows "refers_ok (mb\<lparr>mb_interface_impl := rows\<rparr>)"
  using assms(3) by (intro refers_ok_rows [OF assms(1) grows_rows(7) [OF assms(2)]]) (auto simp: rows_step_def raw_contents_def)

lemma member_ref_rows_ok [grown]:
  assumes "refers_ok mb" "length (mb_member_ref mb) \<le> length rows"
    and "\<And>x. small (mb\<lparr>mb_member_ref := rows\<rparr>) \<Longrightarrow> x \<in> set rows \<Longrightarrow> x \<in> set (mb_member_ref mb) \<or> row_refers (mb\<lparr>mb_member_ref := rows\<rparr>) 10 (member_ref_cols x)"
  shows "refers_ok (mb\<lparr>mb_member_ref := rows\<rparr>)"
  using assms(3) by (intro refers_ok_rows [OF assms(1) grows_rows(8) [OF assms(2)]]) (auto simp: rows_step_def raw_contents_def)

lemma constant_rows_ok [grown]:
  assumes "refers_ok mb" "length (mb_constant mb) \<le> length rows"
    and "\<And>x. small (mb\<lparr>mb_constant := rows\<rparr>) \<Longrightarrow> x \<in> set rows \<Longrightarrow> x \<in> set (mb_constant mb) \<or> row_refers (mb\<lparr>mb_constant := rows\<rparr>) 11 (constant_cols x)"
  shows "refers_ok (mb\<lparr>mb_constant := rows\<rparr>)"
  using assms(3) by (intro refers_ok_rows [OF assms(1) grows_rows(9) [OF assms(2)]]) (auto simp: rows_step_def raw_contents_def)

lemma custom_attribute_rows_ok [grown]:
  assumes "refers_ok mb" "length (mb_custom_attribute mb) \<le> length rows"
    and "\<And>x. small (mb\<lparr>mb_custom_attribute := rows\<rparr>) \<Longrightarrow> x \<in> set rows \<Longrightarrow> x \<in> set (mb_custom_attribute mb) \<or> row_refers (mb\<lparr>mb_custom_attribute := rows\<rparr>) 12 (custom_attribute_cols x)"
  shows "refers_ok (mb\<lparr>mb_custom_attribute := rows\<rparr>)"
  using assms(3) by (intro refers_ok_rows [OF assms(1) grows_rows(10) [OF assms(2)]]) (auto simp: rows_step_def raw_contents_def)

lemma class_layout_rows_ok [grown]:
  assumes "refers_ok mb" "length (mb_class_layout mb) \<le> length rows"
    and "\<And>x. small (mb\<lparr>mb_class_layout := rows\<rparr>) \<Longrightarrow> x \<in> set rows \<Longrightarrow> x \<in> set (mb_class_layout mb) \<or> row_refers (mb\<lparr>mb_class_layout := rows\<rparr>) 15 (class_layout_cols x)"
  shows "refers_ok (mb\<lparr>mb_class_layout := rows\<rparr>)"
  using assms(3) by (intro refers_ok_rows [OF assms(1) grows_rows(11) [OF assms(2)]]) (auto simp: rows_step_def raw_contents_def)

lemma field_layout_rows_ok [grown]:
  assumes "refers_ok mb" "length (mb_field_layout mb) \<le> length rows"
    and "\<And>x. small (mb\<lparr>mb_field_layout := rows\<rparr>) \<Longrightarrow> x \<in> set rows \<Longrightarrow> x \<in> set (mb_field_layout mb) \<or> row_refers (mb\<lparr>mb_field_layout := rows\<rparr>) 16 (field_layout_cols x)"
  shows "refers_ok (mb\<lparr>mb_field_layout := rows\<rparr>)"
  using assms(3) by (intro refers_ok_rows [OF assms(1) grows_rows(12) [OF assms(2)]]) (auto simp: rows_step_def raw_contents_def)

lemma standalone_sig_rows_ok [grown]:
  assumes "refers_ok mb" "length (mb_standalone_sig mb) \<le> length rows"
    and "\<And>x. small (mb\<lparr>mb_standalone_sig := rows\<rparr>) \<Longrightarrow> x \<in> set rows \<Longrightarrow> x \<in> set (mb_standalone_sig mb) \<or> row_refers (mb\<lparr>mb_standalone_sig := rows\<rparr>) 17 ([unat x])"
  shows "refers_ok (mb\<lparr>mb_standalone_sig := rows\<rparr>)"
  using assms(3) by (intro refers_ok_rows [OF assms(1) grows_rows(13) [OF assms(2)]]) (auto simp: rows_step_def raw_contents_def)

lemma event_map_rows_ok [grown]:
  assumes "refers_ok mb" "length (mb_event_map mb) \<le> length rows"
    and "\<And>x. small (mb\<lparr>mb_event_map := rows\<rparr>) \<Longrightarrow> x \<in> set rows \<Longrightarrow> x \<in> set (mb_event_map mb) \<or> row_refers (mb\<lparr>mb_event_map := rows\<rparr>) 18 (event_map_cols x)"
  shows "refers_ok (mb\<lparr>mb_event_map := rows\<rparr>)"
  using assms(3) by (intro refers_ok_rows [OF assms(1) grows_rows(14) [OF assms(2)]]) (auto simp: rows_step_def raw_contents_def)

lemma event_rows_ok [grown]:
  assumes "refers_ok mb" "length (mb_event mb) \<le> length rows"
    and "\<And>x. small (mb\<lparr>mb_event := rows\<rparr>) \<Longrightarrow> x \<in> set rows \<Longrightarrow> x \<in> set (mb_event mb) \<or> row_refers (mb\<lparr>mb_event := rows\<rparr>) 20 (event_cols x)"
  shows "refers_ok (mb\<lparr>mb_event := rows\<rparr>)"
  using assms(3) by (intro refers_ok_rows [OF assms(1) grows_rows(15) [OF assms(2)]]) (auto simp: rows_step_def raw_contents_def)

lemma property_map_rows_ok [grown]:
  assumes "refers_ok mb" "length (mb_property_map mb) \<le> length rows"
    and "\<And>x. small (mb\<lparr>mb_property_map := rows\<rparr>) \<Longrightarrow> x \<in> set rows \<Longrightarrow> x \<in> set (mb_property_map mb) \<or> row_refers (mb\<lparr>mb_property_map := rows\<rparr>) 21 (property_map_cols x)"
  shows "refers_ok (mb\<lparr>mb_property_map := rows\<rparr>)"
  using assms(3) by (intro refers_ok_rows [OF assms(1) grows_rows(16) [OF assms(2)]]) (auto simp: rows_step_def raw_contents_def)

lemma property_rows_ok [grown]:
  assumes "refers_ok mb" "length (mb_property mb) \<le> length rows"
    and "\<And>x. small (mb\<lparr>mb_property := rows\<rparr>) \<Longrightarrow> x \<in> set rows \<Longrightarrow> x \<in> set (mb_property mb) \<or> row_refers (mb\<lparr>mb_property := rows\<rparr>) 23 (property_cols x)"
  shows "refers_ok (mb\<lparr>mb_property := rows\<rparr>)"
  using assms(3) by (intro refers_ok_rows [OF assms(1) grows_rows(17) [OF assms(2)]]) (auto simp: rows_step_def raw_contents_def)

lemma method_semantics_rows_ok [grown]:
  assumes "refers_ok mb" "length (mb_method_semantics mb) \<le> length rows"
    and "\<And>x. small (mb\<lparr>mb_method_semantics := rows\<rparr>) \<Longrightarrow> x \<in> set rows \<Longrightarrow> x \<in> set (mb_method_semantics mb) \<or> row_refers (mb\<lparr>mb_method_semantics := rows\<rparr>) 24 (method_semantics_cols x)"
  shows "refers_ok (mb\<lparr>mb_method_semantics := rows\<rparr>)"
  using assms(3) by (intro refers_ok_rows [OF assms(1) grows_rows(18) [OF assms(2)]]) (auto simp: rows_step_def raw_contents_def)

lemma method_impl_rows_ok [grown]:
  assumes "refers_ok mb" "length (mb_method_impl mb) \<le> length rows"
    and "\<And>x. small (mb\<lparr>mb_method_impl := rows\<rparr>) \<Longrightarrow> x \<in> set rows \<Longrightarrow> x \<in> set (mb_method_impl mb) \<or> row_refers (mb\<lparr>mb_method_impl := rows\<rparr>) 25 (method_impl_cols x)"
  shows "refers_ok (mb\<lparr>mb_method_impl := rows\<rparr>)"
  using assms(3) by (intro refers_ok_rows [OF assms(1) grows_rows(19) [OF assms(2)]]) (auto simp: rows_step_def raw_contents_def)

lemma module_ref_rows_ok [grown]:
  assumes "refers_ok mb" "length (mb_module_ref mb) \<le> length rows"
    and "\<And>x. small (mb\<lparr>mb_module_ref := rows\<rparr>) \<Longrightarrow> x \<in> set rows \<Longrightarrow> x \<in> set (mb_module_ref mb) \<or> row_refers (mb\<lparr>mb_module_ref := rows\<rparr>) 26 ([unat x])"
  shows "refers_ok (mb\<lparr>mb_module_ref := rows\<rparr>)"
  using assms(3) by (intro refers_ok_rows [OF assms(1) grows_rows(20) [OF assms(2)]]) (auto simp: rows_step_def raw_contents_def)

lemma type_spec_rows_ok [grown]:
  assumes "refers_ok mb" "length (mb_type_spec mb) \<le> length rows"
    and "\<And>x. small (mb\<lparr>mb_type_spec := rows\<rparr>) \<Longrightarrow> x \<in> set rows \<Longrightarrow> x \<in> set (mb_type_spec mb) \<or> row_refers (mb\<lparr>mb_type_spec := rows\<rparr>) 27 ([unat x])"
  shows "refers_ok (mb\<lparr>mb_type_spec := rows\<rparr>)"
  using assms(3) by (intro refers_ok_rows [OF assms(1) grows_rows(21) [OF assms(2)]]) (auto simp: rows_step_def raw_contents_def)

lemma impl_map_rows_ok [grown]:
  assumes "refers_ok mb" "length (mb_impl_map mb) \<le> length rows"
    and "\<And>x. small (mb\<lparr>mb_impl_map := rows\<rparr>) \<Longrightarrow> x \<in> set rows \<Longrightarrow> x \<in> set (mb_impl_map mb) \<or> row_refers (mb\<lparr>mb_impl_map := rows\<rparr>) 28 (impl_map_cols x)"
  shows "refers_ok (mb\<lparr>mb_impl_map := rows\<rparr>)"
  using assms(3) by (intro refers_ok_rows [OF assms(1) grows_rows(22) [OF assms(2)]]) (auto simp: rows_step_def raw_contents_def)

lemma field_rva_rows_ok [grown]:
  assumes "refers_ok mb" "length (mb_field_rva mb) \<le> length rows"
    and "\<And>x. small (mb\<lparr>mb_field_rva := rows\<rparr>) \<Longrightarrow> x \<in> set rows \<Longrightarrow> x \<in> set (mb_field_rva mb) \<or> row_refers (mb\<lparr>mb_field_rva := rows\<rparr>) 29 (field_rva_cols x)"
  shows "refers_ok (mb\<lparr>mb_field_rva := rows\<rparr>)"
  using assms(3) by (intro refers_ok_rows [OF assms(1) grows_rows(23) [OF assms(2)]]) (auto simp: rows_step_def raw_contents_def)

lemma assembly_rows_ok [grown]:
  assumes "refers_ok mb" "length (mb_assembly mb) \<le> length rows"
    and "\<And>x. small (mb\<lparr>mb_assembly := rows\<rparr>) \<Longrightarrow> x \<in> set rows \<Longrightarrow> x \<in> set (mb_assembly mb) \<or> row_refers (mb\<lparr>mb_assembly := rows\<rparr>) 32 (assembly_cols x)"
  shows "refers_ok (mb\<lparr>mb_assembly := rows\<rparr>)"
  using assms(3) by (intro refers_ok_rows [OF assms(1) grows_rows(24) [OF assms(2)]]) (auto simp: rows_step_def raw_contents_def)

lemma assembly_ref_rows_ok [grown]:
  assumes "refers_ok mb" "length (mb_assembly_ref mb) \<le> length rows"
    and "\<And>x. small (mb\<lparr>mb_assembly_ref := rows\<rparr>) \<Longrightarrow> x \<in> set rows \<Longrightarrow> x \<in> set (mb_assembly_ref mb) \<or> row_refers (mb\<lparr>mb_assembly_ref := rows\<rparr>) 35 (assembly_ref_cols x)"
  shows "refers_ok (mb\<lparr>mb_assembly_ref := rows\<rparr>)"
  using assms(3) by (intro refers_ok_rows [OF assms(1) grows_rows(25) [OF assms(2)]]) (auto simp: rows_step_def raw_contents_def)

lemma generic_param_rows_ok [grown]:
  assumes "refers_ok mb" "length (mb_generic_param mb) \<le> length rows"
    and "\<And>x. small (mb\<lparr>mb_generic_param := rows\<rparr>) \<Longrightarrow> x \<in> set rows \<Longrightarrow> x \<in> set (mb_generic_param mb) \<or> row_refers (mb\<lparr>mb_generic_param := rows\<rparr>) 42 (generic_param_cols x)"
  shows "refers_ok (mb\<lparr>mb_generic_param := rows\<rparr>)"
  using assms(3) by (intro refers_ok_rows [OF assms(1) grows_rows(26) [OF assms(2)]]) (auto simp: rows_step_def raw_contents_def)

lemma method_spec_rows_ok [grown]:
  assumes "refers_ok mb" "length (mb_method_spec mb) \<le> length rows"
    and "\<And>x. small (mb\<lparr>mb_method_spec := rows\<rparr>) \<Longrightarrow> x \<in> set rows \<Longrightarrow> x \<in> set (mb_method_spec mb) \<or> row_refers (mb\<lparr>mb_method_spec := rows\<rparr>) 43 (method_spec_cols x)"
  shows "refers_ok (mb\<lparr>mb_method_spec := rows\<rparr>)"
  using assms(3) by (intro refers_ok_rows [OF assms(1) grows_rows(27) [OF assms(2)]]) (auto simp: rows_step_def raw_contents_def)

section \<open>Cells and caches\<close>

lemma content_rows_frame [simp]:
  "content_rows (mb_strings_update strings_new mb) = content_rows mb"
  "content_rows (mb_blobs_update blobs_new mb) = content_rows mb"
  "content_rows (mb_guids_update guids_new mb) = content_rows mb"
  "content_rows (mb_type_ref_cache_update type_ref_cache_new mb) = content_rows mb"
  "content_rows (mb_type_def_cache_update type_def_cache_new mb) = content_rows mb"
  "content_rows (mb_member_ref_cache_update member_ref_cache_new mb) = content_rows mb"
  "content_rows (mb_assembly_ref_cache_update assembly_ref_cache_new mb) = content_rows mb"
  "content_rows (mb_module_ref_cache_update module_ref_cache_new mb) = content_rows mb"
  "content_rows (mb_standalone_sig_cache_update standalone_sig_cache_new mb) = content_rows mb"
  "content_rows (mb_type_spec_cache_update type_spec_cache_new mb) = content_rows mb"
  "content_rows (mb_class_token_cache_update class_token_cache_new mb) = content_rows mb"
  "content_rows (mb_method_param_cache_update method_param_cache_new mb) = content_rows mb"
  "content_rows (mb_method_def_cache_update method_def_cache_new mb) = content_rows mb"
  "content_rows (mb_user_strings_update user_strings_new mb) = content_rows mb"
  "content_rows (mb_calli_sig_cache_update calli_sig_cache_new mb) = content_rows mb"
  "content_rows (mb_locals_sig_cache_update locals_sig_cache_new mb) = content_rows mb"
  "content_rows (mb_field_def_cache_update field_def_cache_new mb) = content_rows mb"
  "content_rows (mb_pending_field_rva_update pending_field_rva_new mb) = content_rows mb"
  "content_rows (mb_entry_point_update entry_point_new mb) = content_rows mb"
  "content_rows (mb_current_type_def_update current_type_def_new mb) = content_rows mb"
  "content_rows (mb_is_lib_update is_lib_new mb) = content_rows mb"
  "content_rows (mb_runtime_update runtime_new mb) = content_rows mb"
  "content_rows (mb_public_module_full_name_update public_module_full_name_new mb) = content_rows mb"
  by (simp_all add: content_rows_def table_contents_def)

lemma cached_frame [simp]:
  "cached c ts (mb_type_ref_cache_update type_ref_cache_new mb) = cached c ts mb" "small (mb_type_ref_cache_update type_ref_cache_new mb) = small mb"
  "cached c ts (mb_type_def_cache_update type_def_cache_new mb) = cached c ts mb" "small (mb_type_def_cache_update type_def_cache_new mb) = small mb"
  "cached c ts (mb_member_ref_cache_update member_ref_cache_new mb) = cached c ts mb" "small (mb_member_ref_cache_update member_ref_cache_new mb) = small mb"
  "cached c ts (mb_assembly_ref_cache_update assembly_ref_cache_new mb) = cached c ts mb" "small (mb_assembly_ref_cache_update assembly_ref_cache_new mb) = small mb"
  "cached c ts (mb_module_ref_cache_update module_ref_cache_new mb) = cached c ts mb" "small (mb_module_ref_cache_update module_ref_cache_new mb) = small mb"
  "cached c ts (mb_standalone_sig_cache_update standalone_sig_cache_new mb) = cached c ts mb" "small (mb_standalone_sig_cache_update standalone_sig_cache_new mb) = small mb"
  "cached c ts (mb_type_spec_cache_update type_spec_cache_new mb) = cached c ts mb" "small (mb_type_spec_cache_update type_spec_cache_new mb) = small mb"
  "cached c ts (mb_class_token_cache_update class_token_cache_new mb) = cached c ts mb" "small (mb_class_token_cache_update class_token_cache_new mb) = small mb"
  "cached c ts (mb_method_param_cache_update method_param_cache_new mb) = cached c ts mb" "small (mb_method_param_cache_update method_param_cache_new mb) = small mb"
  "cached c ts (mb_method_def_cache_update method_def_cache_new mb) = cached c ts mb" "small (mb_method_def_cache_update method_def_cache_new mb) = small mb"
  by (simp_all add: cached_def valid_def small_def)

lemma cached_of:
  assumes "refers_ok mb" "small mb"
  shows
    "mb_type_ref_cache mb k_type_ref_cache = Some tok \<Longrightarrow> valid mb {TABLE_TYPE_REF} tok"
    "mb_type_def_cache mb k_type_def_cache = Some tok \<Longrightarrow> valid mb {TABLE_TYPE_DEF} tok"
    "mb_member_ref_cache mb k_member_ref_cache = Some tok \<Longrightarrow> valid mb {TABLE_MEMBER_REF} tok"
    "mb_assembly_ref_cache mb k_assembly_ref_cache = Some tok \<Longrightarrow> valid mb {TABLE_ASSEMBLY_REF} tok"
    "mb_module_ref_cache mb k_module_ref_cache = Some tok \<Longrightarrow> valid mb {TABLE_MODULE_REF} tok"
    "mb_standalone_sig_cache mb k_standalone_sig_cache = Some tok \<Longrightarrow> valid mb {TABLE_STAND_ALONE_SIG} tok"
    "mb_type_spec_cache mb k_type_spec_cache = Some tok \<Longrightarrow> valid mb {TABLE_TYPE_SPEC} tok"
    "mb_class_token_cache mb k_class_token_cache = Some tok \<Longrightarrow> valid mb {TABLE_TYPE_DEF, TABLE_TYPE_REF} tok"
    "mb_method_param_cache mb k_method_param_cache = Some tok \<Longrightarrow> valid mb {TABLE_PARAM} tok"
    "mb_method_def_cache mb k_method_def_cache = Some tok \<Longrightarrow> valid mb {TABLE_METHOD_DEF} tok"
  using assms unfolding refers_ok_def caches_refer_def cached_def by blast+

lemma type_ref_cache_ok [grown]:
  assumes "c = mb_type_ref_cache mb" "refers_ok mb" "tok_ok mb {TABLE_TYPE_REF} tok"
  shows "refers_ok (mb\<lparr>mb_type_ref_cache := c(k \<mapsto> tok)\<rparr>)"
proof (rule refers_ok_step [OF assms(2)])
  let ?mb = "mb\<lparr>mb_type_ref_cache := c(k \<mapsto> tok)\<rparr>"
  show "rows_step mb ?mb" by (simp add: rows_step_def raw_contents_def)
  assume sm: "small ?mb" and "caches_refer mb"
  then show "caches_refer ?mb"
    using assms(1,3) cached_update [of c "{TABLE_TYPE_REF}" mb tok k]
    by (simp add: caches_refer_def tok_ok_def)
qed simp_all

lemma type_def_cache_ok [grown]:
  assumes "c = mb_type_def_cache mb" "refers_ok mb" "tok_ok mb {TABLE_TYPE_DEF} tok"
  shows "refers_ok (mb\<lparr>mb_type_def_cache := c(k \<mapsto> tok)\<rparr>)"
proof (rule refers_ok_step [OF assms(2)])
  let ?mb = "mb\<lparr>mb_type_def_cache := c(k \<mapsto> tok)\<rparr>"
  show "rows_step mb ?mb" by (simp add: rows_step_def raw_contents_def)
  assume sm: "small ?mb" and "caches_refer mb"
  then show "caches_refer ?mb"
    using assms(1,3) cached_update [of c "{TABLE_TYPE_DEF}" mb tok k]
    by (simp add: caches_refer_def tok_ok_def)
qed simp_all

lemma member_ref_cache_ok [grown]:
  assumes "c = mb_member_ref_cache mb" "refers_ok mb" "tok_ok mb {TABLE_MEMBER_REF} tok"
  shows "refers_ok (mb\<lparr>mb_member_ref_cache := c(k \<mapsto> tok)\<rparr>)"
proof (rule refers_ok_step [OF assms(2)])
  let ?mb = "mb\<lparr>mb_member_ref_cache := c(k \<mapsto> tok)\<rparr>"
  show "rows_step mb ?mb" by (simp add: rows_step_def raw_contents_def)
  assume sm: "small ?mb" and "caches_refer mb"
  then show "caches_refer ?mb"
    using assms(1,3) cached_update [of c "{TABLE_MEMBER_REF}" mb tok k]
    by (simp add: caches_refer_def tok_ok_def)
qed simp_all

lemma assembly_ref_cache_ok [grown]:
  assumes "c = mb_assembly_ref_cache mb" "refers_ok mb" "tok_ok mb {TABLE_ASSEMBLY_REF} tok"
  shows "refers_ok (mb\<lparr>mb_assembly_ref_cache := c(k \<mapsto> tok)\<rparr>)"
proof (rule refers_ok_step [OF assms(2)])
  let ?mb = "mb\<lparr>mb_assembly_ref_cache := c(k \<mapsto> tok)\<rparr>"
  show "rows_step mb ?mb" by (simp add: rows_step_def raw_contents_def)
  assume sm: "small ?mb" and "caches_refer mb"
  then show "caches_refer ?mb"
    using assms(1,3) cached_update [of c "{TABLE_ASSEMBLY_REF}" mb tok k]
    by (simp add: caches_refer_def tok_ok_def)
qed simp_all

lemma module_ref_cache_ok [grown]:
  assumes "c = mb_module_ref_cache mb" "refers_ok mb" "tok_ok mb {TABLE_MODULE_REF} tok"
  shows "refers_ok (mb\<lparr>mb_module_ref_cache := c(k \<mapsto> tok)\<rparr>)"
proof (rule refers_ok_step [OF assms(2)])
  let ?mb = "mb\<lparr>mb_module_ref_cache := c(k \<mapsto> tok)\<rparr>"
  show "rows_step mb ?mb" by (simp add: rows_step_def raw_contents_def)
  assume sm: "small ?mb" and "caches_refer mb"
  then show "caches_refer ?mb"
    using assms(1,3) cached_update [of c "{TABLE_MODULE_REF}" mb tok k]
    by (simp add: caches_refer_def tok_ok_def)
qed simp_all

lemma standalone_sig_cache_ok [grown]:
  assumes "c = mb_standalone_sig_cache mb" "refers_ok mb" "tok_ok mb {TABLE_STAND_ALONE_SIG} tok"
  shows "refers_ok (mb\<lparr>mb_standalone_sig_cache := c(k \<mapsto> tok)\<rparr>)"
proof (rule refers_ok_step [OF assms(2)])
  let ?mb = "mb\<lparr>mb_standalone_sig_cache := c(k \<mapsto> tok)\<rparr>"
  show "rows_step mb ?mb" by (simp add: rows_step_def raw_contents_def)
  assume sm: "small ?mb" and "caches_refer mb"
  then show "caches_refer ?mb"
    using assms(1,3) cached_update [of c "{TABLE_STAND_ALONE_SIG}" mb tok k]
    by (simp add: caches_refer_def tok_ok_def)
qed simp_all

lemma type_spec_cache_ok [grown]:
  assumes "c = mb_type_spec_cache mb" "refers_ok mb" "tok_ok mb {TABLE_TYPE_SPEC} tok"
  shows "refers_ok (mb\<lparr>mb_type_spec_cache := c(k \<mapsto> tok)\<rparr>)"
proof (rule refers_ok_step [OF assms(2)])
  let ?mb = "mb\<lparr>mb_type_spec_cache := c(k \<mapsto> tok)\<rparr>"
  show "rows_step mb ?mb" by (simp add: rows_step_def raw_contents_def)
  assume sm: "small ?mb" and "caches_refer mb"
  then show "caches_refer ?mb"
    using assms(1,3) cached_update [of c "{TABLE_TYPE_SPEC}" mb tok k]
    by (simp add: caches_refer_def tok_ok_def)
qed simp_all

lemma class_token_cache_ok [grown]:
  assumes "c = mb_class_token_cache mb" "refers_ok mb" "tok_ok mb {TABLE_TYPE_DEF, TABLE_TYPE_REF} tok"
  shows "refers_ok (mb\<lparr>mb_class_token_cache := c(k \<mapsto> tok)\<rparr>)"
proof (rule refers_ok_step [OF assms(2)])
  let ?mb = "mb\<lparr>mb_class_token_cache := c(k \<mapsto> tok)\<rparr>"
  show "rows_step mb ?mb" by (simp add: rows_step_def raw_contents_def)
  assume sm: "small ?mb" and "caches_refer mb"
  then show "caches_refer ?mb"
    using assms(1,3) cached_update [of c "{TABLE_TYPE_DEF, TABLE_TYPE_REF}" mb tok k]
    by (simp add: caches_refer_def tok_ok_def)
qed simp_all

lemma method_param_cache_ok [grown]:
  assumes "c = mb_method_param_cache mb" "refers_ok mb" "tok_ok mb {TABLE_PARAM} tok"
  shows "refers_ok (mb\<lparr>mb_method_param_cache := c(k \<mapsto> tok)\<rparr>)"
proof (rule refers_ok_step [OF assms(2)])
  let ?mb = "mb\<lparr>mb_method_param_cache := c(k \<mapsto> tok)\<rparr>"
  show "rows_step mb ?mb" by (simp add: rows_step_def raw_contents_def)
  assume sm: "small ?mb" and "caches_refer mb"
  then show "caches_refer ?mb"
    using assms(1,3) cached_update [of c "{TABLE_PARAM}" mb tok k]
    by (simp add: caches_refer_def tok_ok_def)
qed simp_all

lemma method_def_cache_ok [grown]:
  assumes "c = mb_method_def_cache mb" "refers_ok mb" "tok_ok mb {TABLE_METHOD_DEF} tok"
  shows "refers_ok (mb\<lparr>mb_method_def_cache := c(k \<mapsto> tok)\<rparr>)"
proof (rule refers_ok_step [OF assms(2)])
  let ?mb = "mb\<lparr>mb_method_def_cache := c(k \<mapsto> tok)\<rparr>"
  show "rows_step mb ?mb" by (simp add: rows_step_def raw_contents_def)
  assume sm: "small ?mb" and "caches_refer mb"
  then show "caches_refer ?mb"
    using assms(1,3) cached_update [of c "{TABLE_METHOD_DEF}" mb tok k]
    by (simp add: caches_refer_def tok_ok_def)
qed simp_all

lemma refers_simps [simp]:
  "refers mb (Fixed n) v" "refers mb StrHeap (unat off) = string_ok mb off" "refers mb BlobHeap (unat off) = blob_ok mb off"
  "refers mb StrHeap 0 = string_ok mb 0" "refers mb BlobHeap 0 = blob_ok mb 0" "refers mb GuidHeap 0"
  "refers mb (RowIndex t) v = (v \<le> content_rows mb t)" "refers mb (RunStart t) v = (v \<le> content_rows mb t + 1)"
  by (simp_all add: refers_def string_ok_def blob_ok_def)

lemma row_refers_simps [simp]:
  "row_refers mb 0 [v0, v1, v2, v3, v4] \<longleftrightarrow> refers mb (StrHeap) v1 \<and> refers mb (GuidHeap) v2 \<and> refers mb (GuidHeap) v3 \<and> refers mb (GuidHeap) v4"
  "row_refers mb (Suc 0) [v0, v1, v2] \<longleftrightarrow> refers mb (ResolutionScope) v0 \<and> refers mb (StrHeap) v1 \<and> refers mb (StrHeap) v2"
  "row_refers mb 2 [v0, v1, v2, v3, v4, v5] \<longleftrightarrow> refers mb (StrHeap) v1 \<and> refers mb (StrHeap) v2 \<and> refers mb (TypeDefOrRef) v3 \<and> refers mb (RunStart 4) v4 \<and> refers mb (RunStart 6) v5"
  "row_refers mb 4 [v0, v1, v2] \<longleftrightarrow> refers mb (StrHeap) v1 \<and> refers mb (BlobHeap) v2"
  "row_refers mb 6 [v0, v1, v2, v3, v4, v5] \<longleftrightarrow> refers mb (StrHeap) v3 \<and> refers mb (BlobHeap) v4 \<and> refers mb (RunStart 8) v5"
  "row_refers mb 8 [v0, v1, v2] \<longleftrightarrow> refers mb (StrHeap) v2"
  "row_refers mb 9 [v0, v1] \<longleftrightarrow> refers mb (RowIndex 2) v0 \<and> refers mb (TypeDefOrRef) v1"
  "row_refers mb 10 [v0, v1, v2] \<longleftrightarrow> refers mb (MemberRefParent) v0 \<and> refers mb (StrHeap) v1 \<and> refers mb (BlobHeap) v2"
  "row_refers mb 11 [v0, v1, v2, v3] \<longleftrightarrow> refers mb (HasConstant) v2 \<and> refers mb (BlobHeap) v3"
  "row_refers mb 12 [v0, v1, v2] \<longleftrightarrow> refers mb (HasCustomAttribute) v0 \<and> refers mb (CustomAttributeType) v1 \<and> refers mb (BlobHeap) v2"
  "row_refers mb 15 [v0, v1, v2] \<longleftrightarrow> refers mb (RowIndex 2) v2"
  "row_refers mb 16 [v0, v1] \<longleftrightarrow> refers mb (RowIndex 4) v1"
  "row_refers mb 17 [v0] \<longleftrightarrow> refers mb (BlobHeap) v0"
  "row_refers mb 18 [v0, v1] \<longleftrightarrow> refers mb (RowIndex 2) v0 \<and> refers mb (RunStart 20) v1"
  "row_refers mb 20 [v0, v1, v2] \<longleftrightarrow> refers mb (StrHeap) v1 \<and> refers mb (TypeDefOrRef) v2"
  "row_refers mb 21 [v0, v1] \<longleftrightarrow> refers mb (RowIndex 2) v0 \<and> refers mb (RunStart 23) v1"
  "row_refers mb 23 [v0, v1, v2] \<longleftrightarrow> refers mb (StrHeap) v1 \<and> refers mb (BlobHeap) v2"
  "row_refers mb 24 [v0, v1, v2] \<longleftrightarrow> refers mb (RowIndex 6) v1 \<and> refers mb (HasSemantics) v2"
  "row_refers mb 25 [v0, v1, v2] \<longleftrightarrow> refers mb (RowIndex 2) v0 \<and> refers mb (MethodDefOrRef) v1 \<and> refers mb (MethodDefOrRef) v2"
  "row_refers mb 26 [v0] \<longleftrightarrow> refers mb (StrHeap) v0"
  "row_refers mb 27 [v0] \<longleftrightarrow> refers mb (BlobHeap) v0"
  "row_refers mb 28 [v0, v1, v2, v3] \<longleftrightarrow> refers mb (MemberForwarded) v1 \<and> refers mb (StrHeap) v2 \<and> refers mb (RowIndex 26) v3"
  "row_refers mb 29 [v0, v1] \<longleftrightarrow> refers mb (RowIndex 4) v1"
  "row_refers mb 32 [v0, v1, v2, v3, v4, v5, v6, v7, v8] \<longleftrightarrow> refers mb (BlobHeap) v6 \<and> refers mb (StrHeap) v7 \<and> refers mb (StrHeap) v8"
  "row_refers mb 35 [v0, v1, v2, v3, v4, v5, v6, v7, v8] \<longleftrightarrow> refers mb (BlobHeap) v5 \<and> refers mb (StrHeap) v6 \<and> refers mb (StrHeap) v7 \<and> refers mb (BlobHeap) v8"
  "row_refers mb 42 [v0, v1, v2, v3] \<longleftrightarrow> refers mb (TypeOrMethodDef) v2 \<and> refers mb (StrHeap) v3"
  "row_refers mb 43 [v0, v1] \<longleftrightarrow> refers mb (MethodDefOrRef) v0 \<and> refers mb (BlobHeap) v1"
  by (simp_all add: row_refers_def schemas_def)

lemma zero_ok: "refers_ok mb \<Longrightarrow> string_ok mb 0" "refers_ok mb \<Longrightarrow> blob_ok mb 0"
  by (simp_all add: refers_ok_def strings_wf_def blob_wf_def string_ok_def blob_ok_def)

lemma fresh_tok:
  assumes "row_id n = Inr rid" "content_rows mb (unat table) = n" "0 < n" "unat table \<in> set ref_tables" "table \<le> 0x7F"
  shows "tok_ok mb {table} (token_new table rid)" "small mb \<Longrightarrow> token_rid (token_new table rid) = rid"
proof -
  have rid: "unat rid = n" using assms(1) by (rule row_id_unat)
  have "small mb \<Longrightarrow> content_rows mb (unat table) < 2 ^ 24" using assms(4) unfolding small_def list_all_iff by blast
  then have lt: "small mb \<Longrightarrow> unat rid < 2 ^ 24" using assms(2) rid by simp
  have nz: "rid \<noteq> 0" using rid assms(3) by auto
  show "tok_ok mb {table} (token_new table rid)"
    using assms(2,4,5) rid lt nz by (simp add: tok_ok_def valid_def token_table_new token_rid_new)
  show "small mb \<Longrightarrow> token_rid (token_new table rid) = rid" using lt assms(5) by (simp add: token_rid_new)
qed

lemma unat_coded:
  assumes "bits \<le> 5" "unat g < 2 ^ bits"
  shows "unat (push_bit bits (token_rid tok) OR g) = unat (token_rid tok) * 2 ^ bits + unat g"
proof -
  have r: "unat (token_rid tok) < 2 ^ 24" by (simp add: unat_token_rid)
  have "unat (token_rid tok) * 2 ^ bits < 2 ^ 24 * 2 ^ bits" using r by simp
  moreover have "(2 :: nat) ^ 24 * 2 ^ bits \<le> 2 ^ 29" using assms(1) power_increasing [of bits 5 "2 :: nat"] by simp
  ultimately have lt: "unat (token_rid tok) * 2 ^ bits < 2 ^ 29" by linarith
  then have p: "unat (push_bit bits (token_rid tok)) = unat (token_rid tok) * 2 ^ bits"
    by (simp add: unsigned_push_bit_eq take_bit_eq_mod push_bit_eq_mult del: push_bit_eq_mult) (simp add: push_bit_eq_mult)
  have "(2 :: nat) ^ bits \<le> 2 ^ 5" using assms(1) by (intro power_increasing) simp_all
  then have "unat g < 32" using assms(2) by simp
  then show ?thesis
    by (subst unat_or_high [where k = bits]) (use assms(2) p lt in \<open>auto simp: bit_push_bit_iff\<close>)
qed

lemma coded_refers:
  assumes "coded bits m tok = Inr v" "valid mb ts tok" "bits \<le> 5" "length cs \<le> 2 ^ bits"
    and "\<And>t g. m t = Some g \<Longrightarrow> unat g < length cs \<and> cs ! unat g = unat t"
  shows "refers mb (CodedIndex bits cs) (unat v)"
proof -
  obtain g where g: "m (token_table tok) = Some g" "v = push_bit bits (token_rid tok) OR g"
    using assms(1) by (auto simp: coded_def split: option.splits)
  have lt: "unat g < 2 ^ bits" using assms(4,5) g(1) by fastforce
  show ?thesis
    using assms(2,5) g lt unat_coded [OF assms(3) lt] by (auto simp: refers_def valid_def)
qed

lemma encoded_refers:
  "encode_type_def_or_ref_token tok = Inr v \<Longrightarrow> valid mb ts tok \<Longrightarrow> refers mb TypeDefOrRef (unat v)"
  "encode_member_ref_parent tok = Inr v \<Longrightarrow> valid mb ts tok \<Longrightarrow> refers mb MemberRefParent (unat v)"
  "encode_method_def_or_ref tok = Inr v \<Longrightarrow> valid mb ts tok \<Longrightarrow> refers mb MethodDefOrRef (unat v)"
  "encode_has_custom_attribute tok = Inr v \<Longrightarrow> valid mb ts tok \<Longrightarrow> refers mb HasCustomAttribute (unat v)"
  "encode_custom_attribute_type tok = Inr v \<Longrightarrow> valid mb ts tok \<Longrightarrow> refers mb CustomAttributeType (unat v)"
  "encode_member_forwarded tok = Inr v \<Longrightarrow> valid mb ts tok \<Longrightarrow> refers mb MemberForwarded (unat v)"
  "encode_type_or_method_def tok = Inr v \<Longrightarrow> valid mb ts tok \<Longrightarrow> refers mb TypeOrMethodDef (unat v)"
  "encode_has_semantics tok = Inr v \<Longrightarrow> valid mb ts tok \<Longrightarrow> refers mb HasSemantics (unat v)"
  unfolding encode_type_def_or_ref_token_def encode_member_ref_parent_def encode_method_def_or_ref_def
    encode_has_custom_attribute_def encode_custom_attribute_type_def encode_member_forwarded_def
    encode_type_or_method_def_def encode_has_semantics_def
  by (erule (1) coded_refers; auto split: if_splits)+

lemma zero_coded_refers: "cs \<noteq> [] \<Longrightarrow> refers mb (CodedIndex bits cs) 0"
  by (simp add: refers_def)

lemma scope_refers:
  assumes "encode_resolution_scope scope = Inr v" "\<forall>t. scope = Some t \<longrightarrow> valid mb ts t"
  shows "refers mb ResolutionScope (unat v)"
proof (cases scope)
  case None
  then show ?thesis using assms(1) by (simp add: encode_resolution_scope_def zero_coded_refers)
next
  case (Some t)
  then have "valid mb ts t" using assms(2) by simp
  with assms(1) show ?thesis
    unfolding Some encode_resolution_scope_def option.case by (rule coded_refers) (auto split: if_splits)
qed

section \<open>References\<close>

lemma ok_frame [simp]:
  "string_ok (mb_module_update module_new mb) off = string_ok mb off" "blob_ok (mb_module_update module_new mb) off = blob_ok mb off"
  "string_ok (mb_type_ref_update type_ref_new mb) off = string_ok mb off" "blob_ok (mb_type_ref_update type_ref_new mb) off = blob_ok mb off"
  "string_ok (mb_type_def_update type_def_new mb) off = string_ok mb off" "blob_ok (mb_type_def_update type_def_new mb) off = blob_ok mb off"
  "string_ok (mb_field_update field_new mb) off = string_ok mb off" "blob_ok (mb_field_update field_new mb) off = blob_ok mb off"
  "string_ok (mb_method_def_update method_def_new mb) off = string_ok mb off" "blob_ok (mb_method_def_update method_def_new mb) off = blob_ok mb off"
  "string_ok (mb_param_update param_new mb) off = string_ok mb off" "blob_ok (mb_param_update param_new mb) off = blob_ok mb off"
  "string_ok (mb_interface_impl_update interface_impl_new mb) off = string_ok mb off" "blob_ok (mb_interface_impl_update interface_impl_new mb) off = blob_ok mb off"
  "string_ok (mb_member_ref_update member_ref_new mb) off = string_ok mb off" "blob_ok (mb_member_ref_update member_ref_new mb) off = blob_ok mb off"
  "string_ok (mb_constant_update constant_new mb) off = string_ok mb off" "blob_ok (mb_constant_update constant_new mb) off = blob_ok mb off"
  "string_ok (mb_custom_attribute_update custom_attribute_new mb) off = string_ok mb off" "blob_ok (mb_custom_attribute_update custom_attribute_new mb) off = blob_ok mb off"
  "string_ok (mb_class_layout_update class_layout_new mb) off = string_ok mb off" "blob_ok (mb_class_layout_update class_layout_new mb) off = blob_ok mb off"
  "string_ok (mb_field_layout_update field_layout_new mb) off = string_ok mb off" "blob_ok (mb_field_layout_update field_layout_new mb) off = blob_ok mb off"
  "string_ok (mb_standalone_sig_update standalone_sig_new mb) off = string_ok mb off" "blob_ok (mb_standalone_sig_update standalone_sig_new mb) off = blob_ok mb off"
  "string_ok (mb_event_map_update event_map_new mb) off = string_ok mb off" "blob_ok (mb_event_map_update event_map_new mb) off = blob_ok mb off"
  "string_ok (mb_event_update event_new mb) off = string_ok mb off" "blob_ok (mb_event_update event_new mb) off = blob_ok mb off"
  "string_ok (mb_property_map_update property_map_new mb) off = string_ok mb off" "blob_ok (mb_property_map_update property_map_new mb) off = blob_ok mb off"
  "string_ok (mb_property_update property_new mb) off = string_ok mb off" "blob_ok (mb_property_update property_new mb) off = blob_ok mb off"
  "string_ok (mb_method_semantics_update method_semantics_new mb) off = string_ok mb off" "blob_ok (mb_method_semantics_update method_semantics_new mb) off = blob_ok mb off"
  "string_ok (mb_method_impl_update method_impl_new mb) off = string_ok mb off" "blob_ok (mb_method_impl_update method_impl_new mb) off = blob_ok mb off"
  "string_ok (mb_module_ref_update module_ref_new mb) off = string_ok mb off" "blob_ok (mb_module_ref_update module_ref_new mb) off = blob_ok mb off"
  "string_ok (mb_type_spec_update type_spec_new mb) off = string_ok mb off" "blob_ok (mb_type_spec_update type_spec_new mb) off = blob_ok mb off"
  "string_ok (mb_impl_map_update impl_map_new mb) off = string_ok mb off" "blob_ok (mb_impl_map_update impl_map_new mb) off = blob_ok mb off"
  "string_ok (mb_field_rva_update field_rva_new mb) off = string_ok mb off" "blob_ok (mb_field_rva_update field_rva_new mb) off = blob_ok mb off"
  "string_ok (mb_assembly_update assembly_new mb) off = string_ok mb off" "blob_ok (mb_assembly_update assembly_new mb) off = blob_ok mb off"
  "string_ok (mb_assembly_ref_update assembly_ref_new mb) off = string_ok mb off" "blob_ok (mb_assembly_ref_update assembly_ref_new mb) off = blob_ok mb off"
  "string_ok (mb_generic_param_update generic_param_new mb) off = string_ok mb off" "blob_ok (mb_generic_param_update generic_param_new mb) off = blob_ok mb off"
  "string_ok (mb_method_spec_update method_spec_new mb) off = string_ok mb off" "blob_ok (mb_method_spec_update method_spec_new mb) off = blob_ok mb off"
  "string_ok (mb_type_ref_cache_update type_ref_cache_new mb) off = string_ok mb off" "blob_ok (mb_type_ref_cache_update type_ref_cache_new mb) off = blob_ok mb off"
  "string_ok (mb_type_def_cache_update type_def_cache_new mb) off = string_ok mb off" "blob_ok (mb_type_def_cache_update type_def_cache_new mb) off = blob_ok mb off"
  "string_ok (mb_member_ref_cache_update member_ref_cache_new mb) off = string_ok mb off" "blob_ok (mb_member_ref_cache_update member_ref_cache_new mb) off = blob_ok mb off"
  "string_ok (mb_assembly_ref_cache_update assembly_ref_cache_new mb) off = string_ok mb off" "blob_ok (mb_assembly_ref_cache_update assembly_ref_cache_new mb) off = blob_ok mb off"
  "string_ok (mb_module_ref_cache_update module_ref_cache_new mb) off = string_ok mb off" "blob_ok (mb_module_ref_cache_update module_ref_cache_new mb) off = blob_ok mb off"
  "string_ok (mb_standalone_sig_cache_update standalone_sig_cache_new mb) off = string_ok mb off" "blob_ok (mb_standalone_sig_cache_update standalone_sig_cache_new mb) off = blob_ok mb off"
  "string_ok (mb_type_spec_cache_update type_spec_cache_new mb) off = string_ok mb off" "blob_ok (mb_type_spec_cache_update type_spec_cache_new mb) off = blob_ok mb off"
  "string_ok (mb_class_token_cache_update class_token_cache_new mb) off = string_ok mb off" "blob_ok (mb_class_token_cache_update class_token_cache_new mb) off = blob_ok mb off"
  "string_ok (mb_method_param_cache_update method_param_cache_new mb) off = string_ok mb off" "blob_ok (mb_method_param_cache_update method_param_cache_new mb) off = blob_ok mb off"
  "string_ok (mb_method_def_cache_update method_def_cache_new mb) off = string_ok mb off" "blob_ok (mb_method_def_cache_update method_def_cache_new mb) off = blob_ok mb off"
  "string_ok (mb_user_strings_update user_strings_new mb) off = string_ok mb off" "blob_ok (mb_user_strings_update user_strings_new mb) off = blob_ok mb off"
  "string_ok (mb_calli_sig_cache_update calli_sig_cache_new mb) off = string_ok mb off" "blob_ok (mb_calli_sig_cache_update calli_sig_cache_new mb) off = blob_ok mb off"
  "string_ok (mb_locals_sig_cache_update locals_sig_cache_new mb) off = string_ok mb off" "blob_ok (mb_locals_sig_cache_update locals_sig_cache_new mb) off = blob_ok mb off"
  "string_ok (mb_field_def_cache_update field_def_cache_new mb) off = string_ok mb off" "blob_ok (mb_field_def_cache_update field_def_cache_new mb) off = blob_ok mb off"
  "string_ok (mb_pending_field_rva_update pending_field_rva_new mb) off = string_ok mb off" "blob_ok (mb_pending_field_rva_update pending_field_rva_new mb) off = blob_ok mb off"
  "string_ok (mb_entry_point_update entry_point_new mb) off = string_ok mb off" "blob_ok (mb_entry_point_update entry_point_new mb) off = blob_ok mb off"
  "string_ok (mb_current_type_def_update current_type_def_new mb) off = string_ok mb off" "blob_ok (mb_current_type_def_update current_type_def_new mb) off = blob_ok mb off"
  "string_ok (mb_is_lib_update is_lib_new mb) off = string_ok mb off" "blob_ok (mb_is_lib_update is_lib_new mb) off = blob_ok mb off"
  "string_ok (mb_runtime_update runtime_new mb) off = string_ok mb off" "blob_ok (mb_runtime_update runtime_new mb) off = blob_ok mb off"
  "string_ok (mb_public_module_full_name_update public_module_full_name_new mb) off = string_ok mb off" "blob_ok (mb_public_module_full_name_update public_module_full_name_new mb) off = blob_ok mb off"
  by (simp_all add: string_ok_def blob_ok_def)

lemma tok_ok_frame [simp]:
  "tok_ok (mb_type_ref_cache_update type_ref_cache_new mb) ts tok = tok_ok mb ts tok"
  "tok_ok (mb_type_def_cache_update type_def_cache_new mb) ts tok = tok_ok mb ts tok"
  "tok_ok (mb_member_ref_cache_update member_ref_cache_new mb) ts tok = tok_ok mb ts tok"
  "tok_ok (mb_assembly_ref_cache_update assembly_ref_cache_new mb) ts tok = tok_ok mb ts tok"
  "tok_ok (mb_module_ref_cache_update module_ref_cache_new mb) ts tok = tok_ok mb ts tok"
  "tok_ok (mb_standalone_sig_cache_update standalone_sig_cache_new mb) ts tok = tok_ok mb ts tok"
  "tok_ok (mb_type_spec_cache_update type_spec_cache_new mb) ts tok = tok_ok mb ts tok"
  "tok_ok (mb_class_token_cache_update class_token_cache_new mb) ts tok = tok_ok mb ts tok"
  "tok_ok (mb_method_param_cache_update method_param_cache_new mb) ts tok = tok_ok mb ts tok"
  "tok_ok (mb_method_def_cache_update method_def_cache_new mb) ts tok = tok_ok mb ts tok"
  "tok_ok (mb_user_strings_update user_strings_new mb) ts tok = tok_ok mb ts tok"
  "tok_ok (mb_calli_sig_cache_update calli_sig_cache_new mb) ts tok = tok_ok mb ts tok"
  "tok_ok (mb_locals_sig_cache_update locals_sig_cache_new mb) ts tok = tok_ok mb ts tok"
  "tok_ok (mb_field_def_cache_update field_def_cache_new mb) ts tok = tok_ok mb ts tok"
  "tok_ok (mb_pending_field_rva_update pending_field_rva_new mb) ts tok = tok_ok mb ts tok"
  "tok_ok (mb_entry_point_update entry_point_new mb) ts tok = tok_ok mb ts tok"
  "tok_ok (mb_current_type_def_update current_type_def_new mb) ts tok = tok_ok mb ts tok"
  "tok_ok (mb_is_lib_update is_lib_new mb) ts tok = tok_ok mb ts tok"
  "tok_ok (mb_runtime_update runtime_new mb) ts tok = tok_ok mb ts tok"
  "tok_ok (mb_public_module_full_name_update public_module_full_name_new mb) ts tok = tok_ok mb ts tok"
  by (simp_all add: tok_ok_def valid_def small_def)

definition cell_ok :: "metadata_builder \<Rightarrow> column \<Rightarrow> nat \<Rightarrow> bool" where
  "cell_ok mb c v \<longleftrightarrow> (small mb \<longrightarrow> refers mb c v)"

definition row_ok :: "metadata_builder \<Rightarrow> nat \<Rightarrow> nat list \<Rightarrow> bool" where
  "row_ok mb t r \<longleftrightarrow> (small mb \<longrightarrow> row_refers mb t r)"

lemma row_ok_simps [simp]:
  "row_ok mb 0 [v0, v1, v2, v3, v4] \<longleftrightarrow> cell_ok mb (StrHeap) v1 \<and> cell_ok mb (GuidHeap) v2 \<and> cell_ok mb (GuidHeap) v3 \<and> cell_ok mb (GuidHeap) v4"
  "row_ok mb (Suc 0) [v0, v1, v2] \<longleftrightarrow> cell_ok mb (ResolutionScope) v0 \<and> cell_ok mb (StrHeap) v1 \<and> cell_ok mb (StrHeap) v2"
  "row_ok mb 2 [v0, v1, v2, v3, v4, v5] \<longleftrightarrow> cell_ok mb (StrHeap) v1 \<and> cell_ok mb (StrHeap) v2 \<and> cell_ok mb (TypeDefOrRef) v3 \<and> cell_ok mb (RunStart 4) v4 \<and> cell_ok mb (RunStart 6) v5"
  "row_ok mb 4 [v0, v1, v2] \<longleftrightarrow> cell_ok mb (StrHeap) v1 \<and> cell_ok mb (BlobHeap) v2"
  "row_ok mb 6 [v0, v1, v2, v3, v4, v5] \<longleftrightarrow> cell_ok mb (StrHeap) v3 \<and> cell_ok mb (BlobHeap) v4 \<and> cell_ok mb (RunStart 8) v5"
  "row_ok mb 8 [v0, v1, v2] \<longleftrightarrow> cell_ok mb (StrHeap) v2"
  "row_ok mb 9 [v0, v1] \<longleftrightarrow> cell_ok mb (RowIndex 2) v0 \<and> cell_ok mb (TypeDefOrRef) v1"
  "row_ok mb 10 [v0, v1, v2] \<longleftrightarrow> cell_ok mb (MemberRefParent) v0 \<and> cell_ok mb (StrHeap) v1 \<and> cell_ok mb (BlobHeap) v2"
  "row_ok mb 11 [v0, v1, v2, v3] \<longleftrightarrow> cell_ok mb (HasConstant) v2 \<and> cell_ok mb (BlobHeap) v3"
  "row_ok mb 12 [v0, v1, v2] \<longleftrightarrow> cell_ok mb (HasCustomAttribute) v0 \<and> cell_ok mb (CustomAttributeType) v1 \<and> cell_ok mb (BlobHeap) v2"
  "row_ok mb 15 [v0, v1, v2] \<longleftrightarrow> cell_ok mb (RowIndex 2) v2"
  "row_ok mb 16 [v0, v1] \<longleftrightarrow> cell_ok mb (RowIndex 4) v1"
  "row_ok mb 17 [v0] \<longleftrightarrow> cell_ok mb (BlobHeap) v0"
  "row_ok mb 18 [v0, v1] \<longleftrightarrow> cell_ok mb (RowIndex 2) v0 \<and> cell_ok mb (RunStart 20) v1"
  "row_ok mb 20 [v0, v1, v2] \<longleftrightarrow> cell_ok mb (StrHeap) v1 \<and> cell_ok mb (TypeDefOrRef) v2"
  "row_ok mb 21 [v0, v1] \<longleftrightarrow> cell_ok mb (RowIndex 2) v0 \<and> cell_ok mb (RunStart 23) v1"
  "row_ok mb 23 [v0, v1, v2] \<longleftrightarrow> cell_ok mb (StrHeap) v1 \<and> cell_ok mb (BlobHeap) v2"
  "row_ok mb 24 [v0, v1, v2] \<longleftrightarrow> cell_ok mb (RowIndex 6) v1 \<and> cell_ok mb (HasSemantics) v2"
  "row_ok mb 25 [v0, v1, v2] \<longleftrightarrow> cell_ok mb (RowIndex 2) v0 \<and> cell_ok mb (MethodDefOrRef) v1 \<and> cell_ok mb (MethodDefOrRef) v2"
  "row_ok mb 26 [v0] \<longleftrightarrow> cell_ok mb (StrHeap) v0"
  "row_ok mb 27 [v0] \<longleftrightarrow> cell_ok mb (BlobHeap) v0"
  "row_ok mb 28 [v0, v1, v2, v3] \<longleftrightarrow> cell_ok mb (MemberForwarded) v1 \<and> cell_ok mb (StrHeap) v2 \<and> cell_ok mb (RowIndex 26) v3"
  "row_ok mb 29 [v0, v1] \<longleftrightarrow> cell_ok mb (RowIndex 4) v1"
  "row_ok mb 32 [v0, v1, v2, v3, v4, v5, v6, v7, v8] \<longleftrightarrow> cell_ok mb (BlobHeap) v6 \<and> cell_ok mb (StrHeap) v7 \<and> cell_ok mb (StrHeap) v8"
  "row_ok mb 35 [v0, v1, v2, v3, v4, v5, v6, v7, v8] \<longleftrightarrow> cell_ok mb (BlobHeap) v5 \<and> cell_ok mb (StrHeap) v6 \<and> cell_ok mb (StrHeap) v7 \<and> cell_ok mb (BlobHeap) v8"
  "row_ok mb 42 [v0, v1, v2, v3] \<longleftrightarrow> cell_ok mb (TypeOrMethodDef) v2 \<and> cell_ok mb (StrHeap) v3"
  "row_ok mb 43 [v0, v1] \<longleftrightarrow> cell_ok mb (MethodDefOrRef) v0 \<and> cell_ok mb (BlobHeap) v1"
  by (auto simp: row_ok_def cell_ok_def)

lemma cell_ok_simps [simp]:
  "cell_ok mb (Fixed n) v" "string_ok mb off \<Longrightarrow> cell_ok mb StrHeap (unat off)" "blob_ok mb off \<Longrightarrow> cell_ok mb BlobHeap (unat off)"
  "string_ok mb 0 \<Longrightarrow> cell_ok mb StrHeap 0" "blob_ok mb 0 \<Longrightarrow> cell_ok mb BlobHeap 0" "cell_ok mb GuidHeap 0"
  "v \<le> content_rows mb t \<Longrightarrow> cell_ok mb (RowIndex t) v" "v \<le> content_rows mb t + 1 \<Longrightarrow> cell_ok mb (RunStart t) v"
  "cs \<noteq> [] \<Longrightarrow> cell_ok mb (CodedIndex bits cs) 0"
  by (simp_all add: cell_ok_def zero_coded_refers)

lemma cell_ok_mono:
  "grows mb mb' \<Longrightarrow> cell_ok mb c v \<Longrightarrow> list_all (\<lambda>t. t \<in> set ref_tables) (column_tables c) \<Longrightarrow> cell_ok mb' c v"
  unfolding cell_ok_def using grows_small refers_mono by blast

definition any_table :: "u32 set" where
  "any_table = word_of_nat ` set ref_tables"

abbreviation token_ok :: "metadata_builder \<Rightarrow> token \<Rightarrow> bool" where
  "token_ok mb \<equiv> tok_ok mb any_table"

lemma any_table_simps: "any_table = {0, 1, 2, 4, 6, 8, 9, 10, 14, 17, 20, 23, 26, 27, 32, 35, 38, 39, 40, 42, 43, 44, 255}"
  "unat ` any_table = set ref_tables"
  by (simp_all add: any_table_def ref_tables_def)

lemma token_ok_any: "tok_ok mb ts tok \<Longrightarrow> ts \<subseteq> any_table \<Longrightarrow> token_ok mb tok"
  by (auto simp: tok_ok_def any_table_simps(2) valid_def)

lemma encoded_ok [unfolded One_nat_def]:
  "encode_type_def_or_ref_token tok = Inr v \<Longrightarrow> token_ok mb tok \<Longrightarrow> cell_ok mb TypeDefOrRef (unat v)"
  "encode_member_ref_parent tok = Inr v \<Longrightarrow> token_ok mb tok \<Longrightarrow> cell_ok mb MemberRefParent (unat v)"
  "encode_method_def_or_ref tok = Inr v \<Longrightarrow> token_ok mb tok \<Longrightarrow> cell_ok mb MethodDefOrRef (unat v)"
  "encode_has_custom_attribute tok = Inr v \<Longrightarrow> token_ok mb tok \<Longrightarrow> cell_ok mb HasCustomAttribute (unat v)"
  "encode_custom_attribute_type tok = Inr v \<Longrightarrow> token_ok mb tok \<Longrightarrow> cell_ok mb CustomAttributeType (unat v)"
  "encode_member_forwarded tok = Inr v \<Longrightarrow> token_ok mb tok \<Longrightarrow> cell_ok mb MemberForwarded (unat v)"
  "encode_type_or_method_def tok = Inr v \<Longrightarrow> token_ok mb tok \<Longrightarrow> cell_ok mb TypeOrMethodDef (unat v)"
  "encode_has_semantics tok = Inr v \<Longrightarrow> token_ok mb tok \<Longrightarrow> cell_ok mb HasSemantics (unat v)"
  "encode_resolution_scope scope = Inr v \<Longrightarrow> (\<And>t. scope = Some t \<Longrightarrow> token_ok mb t) \<Longrightarrow> cell_ok mb ResolutionScope (unat v)"
  unfolding cell_ok_def tok_ok_def by (blast intro: encoded_refers scope_refers)+

lemma module_push [grown]:
  assumes "refers_ok mb" "row_ok mb 0 (module_cols x)"
  shows "refers_ok (mb\<lparr>mb_module := mb_module mb @ [x]\<rparr>)"
proof -
  have g: "grows mb (mb\<lparr>mb_module := mb_module mb @ [x]\<rparr>)" by (simp add: grown)
  show ?thesis
    using grows_small [OF g] row_refers_mono [OF g, of 0 "module_cols x"] assms
    by (intro module_rows_ok) (auto simp: row_ok_def schemas_def)
qed

lemma type_ref_push [grown]:
  assumes "refers_ok mb" "row_ok mb 1 (type_ref_cols x)"
  shows "refers_ok (mb\<lparr>mb_type_ref := mb_type_ref mb @ [x]\<rparr>)"
proof -
  have g: "grows mb (mb\<lparr>mb_type_ref := mb_type_ref mb @ [x]\<rparr>)" by (simp add: grown)
  show ?thesis
    using grows_small [OF g] row_refers_mono [OF g, of 1 "type_ref_cols x"] assms
    by (intro type_ref_rows_ok) (auto simp: row_ok_def schemas_def)
qed

lemma type_def_push [grown]:
  assumes "refers_ok mb" "row_ok mb 2 (type_def_cols x)"
  shows "refers_ok (mb\<lparr>mb_type_def := mb_type_def mb @ [x]\<rparr>)"
proof -
  have g: "grows mb (mb\<lparr>mb_type_def := mb_type_def mb @ [x]\<rparr>)" by (simp add: grown)
  show ?thesis
    using grows_small [OF g] row_refers_mono [OF g, of 2 "type_def_cols x"] assms
    by (intro type_def_rows_ok) (auto simp: row_ok_def schemas_def)
qed

lemma field_push [grown]:
  assumes "refers_ok mb" "row_ok mb 4 (field_cols x)"
  shows "refers_ok (mb\<lparr>mb_field := mb_field mb @ [x]\<rparr>)"
proof -
  have g: "grows mb (mb\<lparr>mb_field := mb_field mb @ [x]\<rparr>)" by (simp add: grown)
  show ?thesis
    using grows_small [OF g] row_refers_mono [OF g, of 4 "field_cols x"] assms
    by (intro field_rows_ok) (auto simp: row_ok_def schemas_def)
qed

lemma method_def_push [grown]:
  assumes "refers_ok mb" "row_ok mb 6 (method_def_cols x)"
  shows "refers_ok (mb\<lparr>mb_method_def := mb_method_def mb @ [x]\<rparr>)"
proof -
  have g: "grows mb (mb\<lparr>mb_method_def := mb_method_def mb @ [x]\<rparr>)" by (simp add: grown)
  show ?thesis
    using grows_small [OF g] row_refers_mono [OF g, of 6 "method_def_cols x"] assms
    by (intro method_def_rows_ok) (auto simp: row_ok_def schemas_def)
qed

lemma param_push [grown]:
  assumes "refers_ok mb" "row_ok mb 8 (param_cols x)"
  shows "refers_ok (mb\<lparr>mb_param := mb_param mb @ [x]\<rparr>)"
proof -
  have g: "grows mb (mb\<lparr>mb_param := mb_param mb @ [x]\<rparr>)" by (simp add: grown)
  show ?thesis
    using grows_small [OF g] row_refers_mono [OF g, of 8 "param_cols x"] assms
    by (intro param_rows_ok) (auto simp: row_ok_def schemas_def)
qed

lemma interface_impl_push [grown]:
  assumes "refers_ok mb" "row_ok mb 9 (interface_impl_cols x)"
  shows "refers_ok (mb\<lparr>mb_interface_impl := mb_interface_impl mb @ [x]\<rparr>)"
proof -
  have g: "grows mb (mb\<lparr>mb_interface_impl := mb_interface_impl mb @ [x]\<rparr>)" by (simp add: grown)
  show ?thesis
    using grows_small [OF g] row_refers_mono [OF g, of 9 "interface_impl_cols x"] assms
    by (intro interface_impl_rows_ok) (auto simp: row_ok_def schemas_def)
qed

lemma member_ref_push [grown]:
  assumes "refers_ok mb" "row_ok mb 10 (member_ref_cols x)"
  shows "refers_ok (mb\<lparr>mb_member_ref := mb_member_ref mb @ [x]\<rparr>)"
proof -
  have g: "grows mb (mb\<lparr>mb_member_ref := mb_member_ref mb @ [x]\<rparr>)" by (simp add: grown)
  show ?thesis
    using grows_small [OF g] row_refers_mono [OF g, of 10 "member_ref_cols x"] assms
    by (intro member_ref_rows_ok) (auto simp: row_ok_def schemas_def)
qed

lemma constant_push [grown]:
  assumes "refers_ok mb" "row_ok mb 11 (constant_cols x)"
  shows "refers_ok (mb\<lparr>mb_constant := mb_constant mb @ [x]\<rparr>)"
proof -
  have g: "grows mb (mb\<lparr>mb_constant := mb_constant mb @ [x]\<rparr>)" by (simp add: grown)
  show ?thesis
    using grows_small [OF g] row_refers_mono [OF g, of 11 "constant_cols x"] assms
    by (intro constant_rows_ok) (auto simp: row_ok_def schemas_def)
qed

lemma custom_attribute_push [grown]:
  assumes "refers_ok mb" "row_ok mb 12 (custom_attribute_cols x)"
  shows "refers_ok (mb\<lparr>mb_custom_attribute := mb_custom_attribute mb @ [x]\<rparr>)"
proof -
  have g: "grows mb (mb\<lparr>mb_custom_attribute := mb_custom_attribute mb @ [x]\<rparr>)" by (simp add: grown)
  show ?thesis
    using grows_small [OF g] row_refers_mono [OF g, of 12 "custom_attribute_cols x"] assms
    by (intro custom_attribute_rows_ok) (auto simp: row_ok_def schemas_def)
qed

lemma class_layout_push [grown]:
  assumes "refers_ok mb" "row_ok mb 15 (class_layout_cols x)"
  shows "refers_ok (mb\<lparr>mb_class_layout := mb_class_layout mb @ [x]\<rparr>)"
proof -
  have g: "grows mb (mb\<lparr>mb_class_layout := mb_class_layout mb @ [x]\<rparr>)" by (simp add: grown)
  show ?thesis
    using grows_small [OF g] row_refers_mono [OF g, of 15 "class_layout_cols x"] assms
    by (intro class_layout_rows_ok) (auto simp: row_ok_def schemas_def)
qed

lemma field_layout_push [grown]:
  assumes "refers_ok mb" "row_ok mb 16 (field_layout_cols x)"
  shows "refers_ok (mb\<lparr>mb_field_layout := mb_field_layout mb @ [x]\<rparr>)"
proof -
  have g: "grows mb (mb\<lparr>mb_field_layout := mb_field_layout mb @ [x]\<rparr>)" by (simp add: grown)
  show ?thesis
    using grows_small [OF g] row_refers_mono [OF g, of 16 "field_layout_cols x"] assms
    by (intro field_layout_rows_ok) (auto simp: row_ok_def schemas_def)
qed

lemma standalone_sig_push [grown]:
  assumes "refers_ok mb" "row_ok mb 17 ([unat x])"
  shows "refers_ok (mb\<lparr>mb_standalone_sig := mb_standalone_sig mb @ [x]\<rparr>)"
proof -
  have g: "grows mb (mb\<lparr>mb_standalone_sig := mb_standalone_sig mb @ [x]\<rparr>)" by (simp add: grown)
  show ?thesis
    using grows_small [OF g] row_refers_mono [OF g, of 17 "[unat x]"] assms
    by (intro standalone_sig_rows_ok) (auto simp: row_ok_def schemas_def)
qed

lemma event_map_push [grown]:
  assumes "refers_ok mb" "row_ok mb 18 (event_map_cols x)"
  shows "refers_ok (mb\<lparr>mb_event_map := mb_event_map mb @ [x]\<rparr>)"
proof -
  have g: "grows mb (mb\<lparr>mb_event_map := mb_event_map mb @ [x]\<rparr>)" by (simp add: grown)
  show ?thesis
    using grows_small [OF g] row_refers_mono [OF g, of 18 "event_map_cols x"] assms
    by (intro event_map_rows_ok) (auto simp: row_ok_def schemas_def)
qed

lemma event_push [grown]:
  assumes "refers_ok mb" "row_ok mb 20 (event_cols x)"
  shows "refers_ok (mb\<lparr>mb_event := mb_event mb @ [x]\<rparr>)"
proof -
  have g: "grows mb (mb\<lparr>mb_event := mb_event mb @ [x]\<rparr>)" by (simp add: grown)
  show ?thesis
    using grows_small [OF g] row_refers_mono [OF g, of 20 "event_cols x"] assms
    by (intro event_rows_ok) (auto simp: row_ok_def schemas_def)
qed

lemma property_map_push [grown]:
  assumes "refers_ok mb" "row_ok mb 21 (property_map_cols x)"
  shows "refers_ok (mb\<lparr>mb_property_map := mb_property_map mb @ [x]\<rparr>)"
proof -
  have g: "grows mb (mb\<lparr>mb_property_map := mb_property_map mb @ [x]\<rparr>)" by (simp add: grown)
  show ?thesis
    using grows_small [OF g] row_refers_mono [OF g, of 21 "property_map_cols x"] assms
    by (intro property_map_rows_ok) (auto simp: row_ok_def schemas_def)
qed

lemma property_push [grown]:
  assumes "refers_ok mb" "row_ok mb 23 (property_cols x)"
  shows "refers_ok (mb\<lparr>mb_property := mb_property mb @ [x]\<rparr>)"
proof -
  have g: "grows mb (mb\<lparr>mb_property := mb_property mb @ [x]\<rparr>)" by (simp add: grown)
  show ?thesis
    using grows_small [OF g] row_refers_mono [OF g, of 23 "property_cols x"] assms
    by (intro property_rows_ok) (auto simp: row_ok_def schemas_def)
qed

lemma method_semantics_push [grown]:
  assumes "refers_ok mb" "row_ok mb 24 (method_semantics_cols x)"
  shows "refers_ok (mb\<lparr>mb_method_semantics := mb_method_semantics mb @ [x]\<rparr>)"
proof -
  have g: "grows mb (mb\<lparr>mb_method_semantics := mb_method_semantics mb @ [x]\<rparr>)" by (simp add: grown)
  show ?thesis
    using grows_small [OF g] row_refers_mono [OF g, of 24 "method_semantics_cols x"] assms
    by (intro method_semantics_rows_ok) (auto simp: row_ok_def schemas_def)
qed

lemma method_impl_push [grown]:
  assumes "refers_ok mb" "row_ok mb 25 (method_impl_cols x)"
  shows "refers_ok (mb\<lparr>mb_method_impl := mb_method_impl mb @ [x]\<rparr>)"
proof -
  have g: "grows mb (mb\<lparr>mb_method_impl := mb_method_impl mb @ [x]\<rparr>)" by (simp add: grown)
  show ?thesis
    using grows_small [OF g] row_refers_mono [OF g, of 25 "method_impl_cols x"] assms
    by (intro method_impl_rows_ok) (auto simp: row_ok_def schemas_def)
qed

lemma module_ref_push [grown]:
  assumes "refers_ok mb" "row_ok mb 26 ([unat x])"
  shows "refers_ok (mb\<lparr>mb_module_ref := mb_module_ref mb @ [x]\<rparr>)"
proof -
  have g: "grows mb (mb\<lparr>mb_module_ref := mb_module_ref mb @ [x]\<rparr>)" by (simp add: grown)
  show ?thesis
    using grows_small [OF g] row_refers_mono [OF g, of 26 "[unat x]"] assms
    by (intro module_ref_rows_ok) (auto simp: row_ok_def schemas_def)
qed

lemma type_spec_push [grown]:
  assumes "refers_ok mb" "row_ok mb 27 ([unat x])"
  shows "refers_ok (mb\<lparr>mb_type_spec := mb_type_spec mb @ [x]\<rparr>)"
proof -
  have g: "grows mb (mb\<lparr>mb_type_spec := mb_type_spec mb @ [x]\<rparr>)" by (simp add: grown)
  show ?thesis
    using grows_small [OF g] row_refers_mono [OF g, of 27 "[unat x]"] assms
    by (intro type_spec_rows_ok) (auto simp: row_ok_def schemas_def)
qed

lemma impl_map_push [grown]:
  assumes "refers_ok mb" "row_ok mb 28 (impl_map_cols x)"
  shows "refers_ok (mb\<lparr>mb_impl_map := mb_impl_map mb @ [x]\<rparr>)"
proof -
  have g: "grows mb (mb\<lparr>mb_impl_map := mb_impl_map mb @ [x]\<rparr>)" by (simp add: grown)
  show ?thesis
    using grows_small [OF g] row_refers_mono [OF g, of 28 "impl_map_cols x"] assms
    by (intro impl_map_rows_ok) (auto simp: row_ok_def schemas_def)
qed

lemma field_rva_push [grown]:
  assumes "refers_ok mb" "row_ok mb 29 (field_rva_cols x)"
  shows "refers_ok (mb\<lparr>mb_field_rva := mb_field_rva mb @ [x]\<rparr>)"
proof -
  have g: "grows mb (mb\<lparr>mb_field_rva := mb_field_rva mb @ [x]\<rparr>)" by (simp add: grown)
  show ?thesis
    using grows_small [OF g] row_refers_mono [OF g, of 29 "field_rva_cols x"] assms
    by (intro field_rva_rows_ok) (auto simp: row_ok_def schemas_def)
qed

lemma assembly_push [grown]:
  assumes "refers_ok mb" "row_ok mb 32 (assembly_cols x)"
  shows "refers_ok (mb\<lparr>mb_assembly := mb_assembly mb @ [x]\<rparr>)"
proof -
  have g: "grows mb (mb\<lparr>mb_assembly := mb_assembly mb @ [x]\<rparr>)" by (simp add: grown)
  show ?thesis
    using grows_small [OF g] row_refers_mono [OF g, of 32 "assembly_cols x"] assms
    by (intro assembly_rows_ok) (auto simp: row_ok_def schemas_def)
qed

lemma assembly_ref_push [grown]:
  assumes "refers_ok mb" "row_ok mb 35 (assembly_ref_cols x)"
  shows "refers_ok (mb\<lparr>mb_assembly_ref := mb_assembly_ref mb @ [x]\<rparr>)"
proof -
  have g: "grows mb (mb\<lparr>mb_assembly_ref := mb_assembly_ref mb @ [x]\<rparr>)" by (simp add: grown)
  show ?thesis
    using grows_small [OF g] row_refers_mono [OF g, of 35 "assembly_ref_cols x"] assms
    by (intro assembly_ref_rows_ok) (auto simp: row_ok_def schemas_def)
qed

lemma generic_param_push [grown]:
  assumes "refers_ok mb" "row_ok mb 42 (generic_param_cols x)"
  shows "refers_ok (mb\<lparr>mb_generic_param := mb_generic_param mb @ [x]\<rparr>)"
proof -
  have g: "grows mb (mb\<lparr>mb_generic_param := mb_generic_param mb @ [x]\<rparr>)" by (simp add: grown)
  show ?thesis
    using grows_small [OF g] row_refers_mono [OF g, of 42 "generic_param_cols x"] assms
    by (intro generic_param_rows_ok) (auto simp: row_ok_def schemas_def)
qed

lemma method_spec_push [grown]:
  assumes "refers_ok mb" "row_ok mb 43 (method_spec_cols x)"
  shows "refers_ok (mb\<lparr>mb_method_spec := mb_method_spec mb @ [x]\<rparr>)"
proof -
  have g: "grows mb (mb\<lparr>mb_method_spec := mb_method_spec mb @ [x]\<rparr>)" by (simp add: grown)
  show ?thesis
    using grows_small [OF g] row_refers_mono [OF g, of 43 "method_spec_cols x"] assms
    by (intro method_spec_rows_ok) (auto simp: row_ok_def schemas_def)
qed

lemma yields_bind2:
  assumes "yields snd mb m (\<lambda>(v, mb'). Q v mb')"
    and "\<And>v mb'. grows mb mb' \<Longrightarrow> refers_ok mb' \<Longrightarrow> Q v mb' \<Longrightarrow> yields st2 mb' (k v mb') R"
  shows "yields st2 mb (rbind m (\<lambda>(v, mb'). k v mb')) R"
  using assms by (intro yields_bind [OF assms(1)]) auto

lemma yields_bind1:
  assumes "yields (\<lambda>mb. mb) mb m Q"
    and "\<And>mb'. grows mb mb' \<Longrightarrow> refers_ok mb' \<Longrightarrow> Q mb' \<Longrightarrow> yields st2 mb' (k mb') R"
  shows "yields st2 mb (rbind m k) R"
  using assms by (rule yields_bind)

lemma yields_row:
  assumes "grows mb mb'" "refers_ok mb'" "Q x mb'"
  shows "yields snd mb (Inr (x, mb')) (\<lambda>(v, mb'). Q v mb')"
  using assms by (simp add: yields_def)

lemma yields_option:
  assumes "\<And>v. c = Some v \<Longrightarrow> yields st mb (f v) Q" "c = None \<Longrightarrow> yields st mb g Q"
  shows "yields st mb (case c of None \<Rightarrow> g | Some v \<Rightarrow> f v) Q"
  using assms by (cases c) simp_all

lemma yields_if:
  assumes "c \<Longrightarrow> yields st mb a Q" "\<not> c \<Longrightarrow> yields st mb b Q"
  shows "yields st mb (if c then a else b) Q"
  using assms by simp

lemma cached_tok_in:
  assumes "refers_ok mb"
  shows    "mb_type_ref_cache mb k0 = Some tok \<Longrightarrow> tok_ok mb {TABLE_TYPE_REF} tok"
    "mb_type_def_cache mb k1 = Some tok \<Longrightarrow> tok_ok mb {TABLE_TYPE_DEF} tok"
    "mb_member_ref_cache mb k2 = Some tok \<Longrightarrow> tok_ok mb {TABLE_MEMBER_REF} tok"
    "mb_assembly_ref_cache mb k3 = Some tok \<Longrightarrow> tok_ok mb {TABLE_ASSEMBLY_REF} tok"
    "mb_module_ref_cache mb k4 = Some tok \<Longrightarrow> tok_ok mb {TABLE_MODULE_REF} tok"
    "mb_standalone_sig_cache mb k5 = Some tok \<Longrightarrow> tok_ok mb {TABLE_STAND_ALONE_SIG} tok"
    "mb_type_spec_cache mb k6 = Some tok \<Longrightarrow> tok_ok mb {TABLE_TYPE_SPEC} tok"
    "mb_class_token_cache mb k7 = Some tok \<Longrightarrow> tok_ok mb {TABLE_TYPE_DEF, TABLE_TYPE_REF} tok"
    "mb_method_param_cache mb k8 = Some tok \<Longrightarrow> tok_ok mb {TABLE_PARAM} tok"
    "mb_method_def_cache mb k9 = Some tok \<Longrightarrow> tok_ok mb {TABLE_METHOD_DEF} tok"
  using cached_of [OF assms] by (simp_all add: tok_ok_def ref_tables_def)

lemma cached_tok_ok:
  assumes "refers_ok mb"
  shows    "mb_type_ref_cache mb k0 = Some tok \<Longrightarrow> token_ok mb tok"
    "mb_type_def_cache mb k1 = Some tok \<Longrightarrow> token_ok mb tok"
    "mb_member_ref_cache mb k2 = Some tok \<Longrightarrow> token_ok mb tok"
    "mb_assembly_ref_cache mb k3 = Some tok \<Longrightarrow> token_ok mb tok"
    "mb_module_ref_cache mb k4 = Some tok \<Longrightarrow> token_ok mb tok"
    "mb_standalone_sig_cache mb k5 = Some tok \<Longrightarrow> token_ok mb tok"
    "mb_type_spec_cache mb k6 = Some tok \<Longrightarrow> token_ok mb tok"
    "mb_class_token_cache mb k7 = Some tok \<Longrightarrow> token_ok mb tok"
    "mb_method_param_cache mb k8 = Some tok \<Longrightarrow> token_ok mb tok"
    "mb_method_def_cache mb k9 = Some tok \<Longrightarrow> token_ok mb tok"
  by (rule token_ok_any, erule cached_tok_in [OF assms], simp add: any_table_simps)+

lemma fresh_token:
  assumes "row_id n = Inr rid" "content_rows mb (unat table) = n" "0 < n" "unat table \<in> set ref_tables" "table \<le> 0x7F"
  shows "token_ok mb (token_new table rid)"
proof (rule token_ok_any [OF fresh_tok(1) [OF assms]])
  show "{table} \<subseteq> any_table" using assms(4) by (auto simp: any_table_def intro: image_eqI [of _ _ "unat table"])
qed

lemmas pushed = module_push type_ref_push type_def_push field_push method_def_push param_push interface_impl_push member_ref_push constant_push custom_attribute_push class_layout_push field_layout_push standalone_sig_push event_map_push event_push property_map_push property_push method_semantics_push method_impl_push module_ref_push type_spec_push impl_map_push field_rva_push assembly_push assembly_ref_push generic_param_push method_spec_push type_ref_cache_ok type_def_cache_ok member_ref_cache_ok assembly_ref_cache_ok module_ref_cache_ok standalone_sig_cache_ok type_spec_cache_ok class_token_cache_ok method_param_cache_ok method_def_cache_ok
lemmas row_cols = module_cols_def type_ref_cols_def type_def_cols_def field_cols_def method_def_cols_def param_cols_def interface_impl_cols_def member_ref_cols_def constant_cols_def custom_attribute_cols_def class_layout_cols_def field_layout_cols_def event_map_cols_def event_cols_def property_map_cols_def property_cols_def method_semantics_cols_def method_impl_cols_def impl_map_cols_def field_rva_cols_def assembly_cols_def assembly_ref_cols_def generic_param_cols_def method_spec_cols_def
lemma fresh:
  assumes "row_id (content_rows mb (unat table)) = Inr rid" "0 < content_rows mb (unat table)" "unat table \<in> set ref_tables"
    "table \<le> 0x7F"
  shows "tok_ok mb {table} (token_new table rid)" "token_ok mb (token_new table rid)"
    "small mb \<Longrightarrow> token_rid (token_new table rid) = rid"
  using fresh_tok [OF assms(1) refl assms(2-4)] fresh_token [OF assms(1) refl assms(2-4)] by simp_all

lemma yields_pair: "(\<And>a b. p = (a, b) \<Longrightarrow> yields st mb (f a b) Q) \<Longrightarrow> yields st mb (case p of (a, b) \<Rightarrow> f a b) Q"
  by (cases p) simp

lemma yields_from: "grows mb mb' \<Longrightarrow> yields st mb' m Q \<Longrightarrow> yields st mb m Q"
  unfolding yields_def using grows_trans by blast

lemma yields_Let: "yields st mb (f x) Q \<Longrightarrow> yields st mb (let y = x in f y) Q"
  by simp

lemma row_ok_version [simp]:
  "row_ok mb 35 (version_cols v @ [a, b, c, d, e]) \<longleftrightarrow>
    cell_ok mb BlobHeap b \<and> cell_ok mb StrHeap c \<and> cell_ok mb StrHeap d \<and> cell_ok mb BlobHeap e"
  "row_ok mb 32 (x # version_cols v @ [a, b, c, d]) \<longleftrightarrow>
    cell_ok mb BlobHeap b \<and> cell_ok mb StrHeap c \<and> cell_ok mb StrHeap d"
  by (cases v; simp add: version_cols_def)+

lemmas binds = yields_pair yields_bind2 [OF intern_string_yields] yields_bind2 [OF intern_blob_yields] yields_value yields_option yields_if yields_row
lemma tok_ok_rows:
  "length (mb_module mb) \<le> length module_rows \<Longrightarrow> tok_ok mb ts tok \<Longrightarrow> tok_ok (mb\<lparr>mb_module := module_rows\<rparr>) ts tok"
  "length (mb_type_ref mb) \<le> length type_ref_rows \<Longrightarrow> tok_ok mb ts tok \<Longrightarrow> tok_ok (mb\<lparr>mb_type_ref := type_ref_rows\<rparr>) ts tok"
  "length (mb_type_def mb) \<le> length type_def_rows \<Longrightarrow> tok_ok mb ts tok \<Longrightarrow> tok_ok (mb\<lparr>mb_type_def := type_def_rows\<rparr>) ts tok"
  "length (mb_field mb) \<le> length field_rows \<Longrightarrow> tok_ok mb ts tok \<Longrightarrow> tok_ok (mb\<lparr>mb_field := field_rows\<rparr>) ts tok"
  "length (mb_method_def mb) \<le> length method_def_rows \<Longrightarrow> tok_ok mb ts tok \<Longrightarrow> tok_ok (mb\<lparr>mb_method_def := method_def_rows\<rparr>) ts tok"
  "length (mb_param mb) \<le> length param_rows \<Longrightarrow> tok_ok mb ts tok \<Longrightarrow> tok_ok (mb\<lparr>mb_param := param_rows\<rparr>) ts tok"
  "length (mb_interface_impl mb) \<le> length interface_impl_rows \<Longrightarrow> tok_ok mb ts tok \<Longrightarrow> tok_ok (mb\<lparr>mb_interface_impl := interface_impl_rows\<rparr>) ts tok"
  "length (mb_member_ref mb) \<le> length member_ref_rows \<Longrightarrow> tok_ok mb ts tok \<Longrightarrow> tok_ok (mb\<lparr>mb_member_ref := member_ref_rows\<rparr>) ts tok"
  "length (mb_constant mb) \<le> length constant_rows \<Longrightarrow> tok_ok mb ts tok \<Longrightarrow> tok_ok (mb\<lparr>mb_constant := constant_rows\<rparr>) ts tok"
  "length (mb_custom_attribute mb) \<le> length custom_attribute_rows \<Longrightarrow> tok_ok mb ts tok \<Longrightarrow> tok_ok (mb\<lparr>mb_custom_attribute := custom_attribute_rows\<rparr>) ts tok"
  "length (mb_class_layout mb) \<le> length class_layout_rows \<Longrightarrow> tok_ok mb ts tok \<Longrightarrow> tok_ok (mb\<lparr>mb_class_layout := class_layout_rows\<rparr>) ts tok"
  "length (mb_field_layout mb) \<le> length field_layout_rows \<Longrightarrow> tok_ok mb ts tok \<Longrightarrow> tok_ok (mb\<lparr>mb_field_layout := field_layout_rows\<rparr>) ts tok"
  "length (mb_standalone_sig mb) \<le> length standalone_sig_rows \<Longrightarrow> tok_ok mb ts tok \<Longrightarrow> tok_ok (mb\<lparr>mb_standalone_sig := standalone_sig_rows\<rparr>) ts tok"
  "length (mb_event_map mb) \<le> length event_map_rows \<Longrightarrow> tok_ok mb ts tok \<Longrightarrow> tok_ok (mb\<lparr>mb_event_map := event_map_rows\<rparr>) ts tok"
  "length (mb_event mb) \<le> length event_rows \<Longrightarrow> tok_ok mb ts tok \<Longrightarrow> tok_ok (mb\<lparr>mb_event := event_rows\<rparr>) ts tok"
  "length (mb_property_map mb) \<le> length property_map_rows \<Longrightarrow> tok_ok mb ts tok \<Longrightarrow> tok_ok (mb\<lparr>mb_property_map := property_map_rows\<rparr>) ts tok"
  "length (mb_property mb) \<le> length property_rows \<Longrightarrow> tok_ok mb ts tok \<Longrightarrow> tok_ok (mb\<lparr>mb_property := property_rows\<rparr>) ts tok"
  "length (mb_method_semantics mb) \<le> length method_semantics_rows \<Longrightarrow> tok_ok mb ts tok \<Longrightarrow> tok_ok (mb\<lparr>mb_method_semantics := method_semantics_rows\<rparr>) ts tok"
  "length (mb_method_impl mb) \<le> length method_impl_rows \<Longrightarrow> tok_ok mb ts tok \<Longrightarrow> tok_ok (mb\<lparr>mb_method_impl := method_impl_rows\<rparr>) ts tok"
  "length (mb_module_ref mb) \<le> length module_ref_rows \<Longrightarrow> tok_ok mb ts tok \<Longrightarrow> tok_ok (mb\<lparr>mb_module_ref := module_ref_rows\<rparr>) ts tok"
  "length (mb_type_spec mb) \<le> length type_spec_rows \<Longrightarrow> tok_ok mb ts tok \<Longrightarrow> tok_ok (mb\<lparr>mb_type_spec := type_spec_rows\<rparr>) ts tok"
  "length (mb_impl_map mb) \<le> length impl_map_rows \<Longrightarrow> tok_ok mb ts tok \<Longrightarrow> tok_ok (mb\<lparr>mb_impl_map := impl_map_rows\<rparr>) ts tok"
  "length (mb_field_rva mb) \<le> length field_rva_rows \<Longrightarrow> tok_ok mb ts tok \<Longrightarrow> tok_ok (mb\<lparr>mb_field_rva := field_rva_rows\<rparr>) ts tok"
  "length (mb_assembly mb) \<le> length assembly_rows \<Longrightarrow> tok_ok mb ts tok \<Longrightarrow> tok_ok (mb\<lparr>mb_assembly := assembly_rows\<rparr>) ts tok"
  "length (mb_assembly_ref mb) \<le> length assembly_ref_rows \<Longrightarrow> tok_ok mb ts tok \<Longrightarrow> tok_ok (mb\<lparr>mb_assembly_ref := assembly_ref_rows\<rparr>) ts tok"
  "length (mb_generic_param mb) \<le> length generic_param_rows \<Longrightarrow> tok_ok mb ts tok \<Longrightarrow> tok_ok (mb\<lparr>mb_generic_param := generic_param_rows\<rparr>) ts tok"
  "length (mb_method_spec mb) \<le> length method_spec_rows \<Longrightarrow> tok_ok mb ts tok \<Longrightarrow> tok_ok (mb\<lparr>mb_method_spec := method_spec_rows\<rparr>) ts tok"
  by (rule ok_mono(3), erule grows_rows, assumption)+

lemmas kept = ok_mono cell_ok_mono encoded_ok column_tables_def ref_tables_def cached_tok_ok cached_tok_in fresh grows_rows row_cols zero_ok
  yields_Inl tok_ok_rows

lemma type_ref_yields:
  assumes "refers_ok mb" "\<And>t. scope = Some t \<Longrightarrow> token_ok mb t"
  shows "yields snd mb (type_ref scope ns name mb) (\<lambda>(t, mb'). tok_ok mb' {TABLE_TYPE_REF} t \<and> token_ok mb' t)"
  unfolding type_ref_def Let_def
  by (intro binds pushed) (simp_all add: assms kept)

lemma member_ref_yields:
  assumes "refers_ok mb" "token_ok mb cls" "blob_ok mb sig"
  shows "yields snd mb (member_ref cls name sig mb) (\<lambda>(t, mb'). token_ok mb' t)"
  unfolding member_ref_def Let_def
  by (intro binds pushed) (simp_all add: assms kept)

lemma type_spec_yields:
  assumes "refers_ok mb" "blob_ok mb blob"
  shows "yields snd mb (type_spec blob mb) (\<lambda>(t, mb'). token_ok mb' t)"
  unfolding type_spec_def Let_def
  by (intro binds pushed) (simp_all add: assms kept)

lemma intern_module_ref_yields:
  assumes "refers_ok mb"
  shows "yields snd mb (intern_module_ref lib mb) (\<lambda>(t, mb'). tok_ok mb' {TABLE_MODULE_REF} t)"
  unfolding intern_module_ref_def Let_def
  by (intro binds pushed) (simp_all add: assms kept)

lemma rbind_pair: "rbind (rbind m (\<lambda>(a, b). f a b)) g = rbind m (\<lambda>(a, b). rbind (f a b) g)"
  by (auto simp: rbind_def split: sum.split)

lemma first_cached_ok:
  "c = mb_assembly_ref_cache mb \<Longrightarrow> refers_ok mb \<Longrightarrow> tok_ok mb {TABLE_ASSEMBLY_REF} tok
    \<Longrightarrow> refers_ok (mb\<lparr>mb_assembly_ref_cache := (case c k of None \<Rightarrow> c(k \<mapsto> tok) | Some _ \<Rightarrow> c)\<rparr>)"
  "d = mb_type_def_cache mb \<Longrightarrow> refers_ok mb \<Longrightarrow> tok_ok mb {TABLE_TYPE_DEF} tok
    \<Longrightarrow> refers_ok (mb\<lparr>mb_type_def_cache := (case d n of None \<Rightarrow> d(n \<mapsto> tok) | Some _ \<Rightarrow> d)\<rparr>)"
  by (auto split: option.split intro: pushed)

lemma assembly_ref_yields:
  assumes "refers_ok mb"
  shows "yields snd mb (assembly_ref name target mb) (\<lambda>(t, mb'). token_ok mb' t)"
proof (cases target)
  case (TargetBcl version key)
  show ?thesis
    unfolding assembly_ref_def Let_def TargetBcl assembly_ref_target.case rbind_pair rbind_simps prod.case
    by (intro binds pushed first_cached_ok) (simp_all add: assms kept)
next
  case TargetNameOnly
  show ?thesis
    unfolding assembly_ref_def Let_def TargetNameOnly assembly_ref_target.case rbind_simps prod.case
    by (intro binds pushed first_cached_ok) (simp_all add: assms kept)
qed

lemma find_or_create_assembly_ref_yields:
  assumes "refers_ok mb"
  shows "yields snd mb (find_or_create_assembly_ref name mb) (\<lambda>(t, mb'). token_ok mb' t)"
  unfolding find_or_create_assembly_ref_def Let_def
  by (intro binds assembly_ref_yields) (simp_all add: assms kept)

lemmas framed = refers_ok_frame [THEN iffD2]

lemma small_frame [simp]:
  "small (mb_user_strings_update user_strings_new mb) = small mb"
  "small (mb_calli_sig_cache_update calli_sig_cache_new mb) = small mb"
  "small (mb_locals_sig_cache_update locals_sig_cache_new mb) = small mb"
  "small (mb_field_def_cache_update field_def_cache_new mb) = small mb"
  "small (mb_pending_field_rva_update pending_field_rva_new mb) = small mb"
  "small (mb_entry_point_update entry_point_new mb) = small mb"
  "small (mb_current_type_def_update current_type_def_new mb) = small mb"
  "small (mb_is_lib_update is_lib_new mb) = small mb"
  "small (mb_runtime_update runtime_new mb) = small mb"
  "small (mb_public_module_full_name_update public_module_full_name_new mb) = small mb"
  by (simp_all add: small_def)

lemma push_type_def_yields:
  assumes "refers_ok mb" "cell_ok mb TypeDefOrRef (unat extends)"
  shows "yields snd mb (push_type_def ns name flags extends mb)
    (\<lambda>(t, mb'). tok_ok mb' {TABLE_TYPE_DEF} t)"
  using assms unfolding push_type_def_def Let_def
  by (intro binds framed pushed first_cached_ok) (simp_all add: kept row_id_unat)

lemma row_cell:
  "tok_ok mb {TABLE_TYPE_DEF} t \<Longrightarrow> cell_ok mb (RowIndex 2) (unat (token_rid t))"
  "tok_ok mb {TABLE_FIELD} t \<Longrightarrow> cell_ok mb (RowIndex 4) (unat (token_rid t))"
  "tok_ok mb {TABLE_METHOD_DEF} t \<Longrightarrow> cell_ok mb (RowIndex 6) (unat (token_rid t))"
  "tok_ok mb {TABLE_MODULE_REF} t \<Longrightarrow> cell_ok mb (RowIndex 26) (unat (token_rid t))"
  by (auto simp: tok_ok_def cell_ok_def refers_def valid_def)

lemma push_interfaces_yields:
  "refers_ok mb \<Longrightarrow> cell_ok mb (RowIndex 2) (unat rid) \<Longrightarrow> list_all (token_ok mb) is
    \<Longrightarrow> yields (\<lambda>mb. mb) mb (push_interfaces rid is mb) (\<lambda>_. True)"
proof (induction rid "is" mb rule: push_interfaces.induct)
  case (2 rid i "is" mb)
  let ?mb = "\<lambda>c. mb\<lparr>mb_interface_impl := mb_interface_impl mb @ [\<lparr>ii_class = rid, ii_interface = c\<rparr>]\<rparr>"
  have g: "grows mb (?mb c)" for c by (simp add: grows_rows)
  have "yields (\<lambda>mb. mb) (?mb c) (push_interfaces rid is (?mb c)) (\<lambda>_. True)" if "encode_type_def_or_ref_token i = Inr c" for c
    using 2 that ok_mono(3) [OF g] cell_ok_mono [OF g]
    by (intro "2.IH" pushed) (simp_all add: kept list_all_iff)
  then show ?case unfolding push_interfaces.simps by (intro yields_value yields_from [OF g])
qed (simp add: yields_def)

lemma add_type_def_yields:
  assumes "refers_ok mb" "\<And>t. extends = Some t \<Longrightarrow> token_ok mb t" "list_all (token_ok mb) implements"
  shows "yields snd mb (add_type_def ns name vt extends pack sz implements mb) (\<lambda>(t, mb'). tok_ok mb' {TABLE_TYPE_DEF} t)"
proof -
  have e: "cell_ok mb TypeDefOrRef (unat v)"
    if "(case extends of None \<Rightarrow> Inr 0 | Some t \<Rightarrow> encode_type_def_or_ref_token t) = Inr v" for v
    using that assms(2) by (auto simp: encoded_ok split: option.splits)
  show ?thesis
    unfolding add_type_def_def Let_def
  proof (rule yields_value, rule yields_bind2 [OF push_type_def_yields [OF assms(1) e]], assumption)
    fix c tok mb1
    assume m: "grows mb mb1" "refers_ok mb1" "tok_ok mb1 {TABLE_TYPE_DEF} tok"
    let ?mb2 = "(if pack \<noteq> None \<or> sz \<noteq> None then mb1\<lparr>mb_class_layout := mb_class_layout mb1 @
        [\<lparr>cl_packing_size = (case pack of Some p \<Rightarrow> p | None \<Rightarrow> 0), cl_class_size = (case sz of Some s \<Rightarrow> s | None \<Rightarrow> 0),
          cl_parent = token_rid tok\<rparr>]\<rparr> else mb1)"
    have g: "grows mb1 ?mb2" by (simp add: grows_rows)
    have ok: "refers_ok ?mb2" using m by (cases "pack = None \<and> sz = None") (auto simp: kept row_cell intro!: class_layout_push)
    have t: "tok_ok ?mb2 {TABLE_TYPE_DEF} tok" using ok_mono(3) [OF g] m(3) by simp
    have i: "list_all (token_ok ?mb2) implements"
      using assms(3) ok_mono(3) [OF g] ok_mono(3) [OF m(1)] by (simp add: list_all_iff)
    show "yields snd mb1 (rbind (push_interfaces (token_rid tok) implements ?mb2) (\<lambda>mb. Inr (tok, mb))) (\<lambda>(t, mb'). tok_ok mb' {TABLE_TYPE_DEF} t)"
      using g ok t i
      by (intro yields_from [OF g] yields_bind1 [OF push_interfaces_yields] yields_row) (simp_all add: row_cell kept)
  qed
qed

lemma add_blob_sized_valuetype_yields:
  assumes "refers_ok mb" "token_ok mb extends"
  shows "yields snd mb (add_blob_sized_valuetype name extends sz mb) (\<lambda>(t, mb'). tok_ok mb' {TABLE_TYPE_DEF} t)"
  unfolding add_blob_sized_valuetype_def Let_def
  using assms by (intro yields_bind2 [OF push_type_def_yields] binds pushed) (simp_all add: kept row_cell)

lemma resolve_external_yields:
  assumes "refers_ok mb"
  shows "yields snd mb (resolve_external c mb) (\<lambda>(t, mb'). tok_ok mb' {TABLE_TYPE_REF} t \<and> token_ok mb' t)"
proof (cases "cr_asm c")
  case None
  show ?thesis
    unfolding resolve_external_def Let_def None option.case rbind_simps prod.case
    by (intro binds type_ref_yields) (simp_all add: assms)
next
  case (Some name)
  show ?thesis
    unfolding resolve_external_def Let_def Some option.case rbind_pair rbind_simps prod.case
    by (intro yields_bind2 [OF find_or_create_assembly_ref_yields] binds type_ref_yields) (simp_all add: assms)
qed

section \<open>The resolver keeps what the builder keeps\<close>

definition ends_in :: "('r \<Rightarrow> bool) \<Rightarrow> ('e, 'r \<times> 'a) result \<Rightarrow> bool" where
  "ends_in holds m \<longleftrightarrow> (\<forall>r y. m = Inr (r, y) \<longrightarrow> holds r)"

lemma ends_in_intros:
  "holds r \<Longrightarrow> ends_in holds (Inr (r, x))"
  "ends_in holds (Inl e)"
  "(\<And>v. m = Inr v \<Longrightarrow> ends_in holds (k v)) \<Longrightarrow> ends_in holds (rbind m k)"
  "ends_in holds m2 \<Longrightarrow> (\<And>r y. holds r \<Longrightarrow> m2 = Inr (r, y) \<Longrightarrow> ends_in holds (k2 r y)) \<Longrightarrow> ends_in holds (rbind m2 (\<lambda>(r, y). k2 r y))"
  "(c \<Longrightarrow> ends_in holds a) \<Longrightarrow> (\<not> c \<Longrightarrow> ends_in holds b) \<Longrightarrow> ends_in holds (if c then a else b)"
  by (auto simp: ends_in_def rbind_eq_Inr)

definition resolver_keeps :: "'r resolver \<Rightarrow> ('r \<Rightarrow> bool) \<Rightarrow> bool" where
  "resolver_keeps res holds \<longleftrightarrow> (\<forall>c r v r'. holds r \<longrightarrow> res c r = Inr (v, r') \<longrightarrow> holds r')"

lemma encode_keeps_aux:
  fixes res :: "'r resolver"
  assumes res: "resolver_keeps res holds"
  shows "holds r \<longrightarrow> ends_in holds (encode_type res t r out)"
    and "holds r \<longrightarrow> ends_in holds (encode_class res c vt r out)"
    and "holds r \<longrightarrow> ends_in holds (encode_types res ts r out)"
    and "holds r \<longrightarrow> ends_in holds (encode_method_sig res conv gp sig r out)"
    and "holds r \<longrightarrow> ends_in holds (encode_non_void_type res t r out)"
    and "holds r \<longrightarrow> ends_in holds (encode_non_void_types res ts r out)"
  using res
proof (induction res t r out and res c vt r out and res ts r out and res conv gp sig r out
    and res t r out and res ts r out
    rule: encode_type_encode_class_encode_types_encode_method_sig_encode_non_void_type_encode_non_void_types.induct)
  case (6 res i r out)
  then show ?case by (cases i) (auto intro: ends_in_intros)
next
  case (7 res f r out)
  then show ?case by (cases f) (auto intro: ends_in_intros)
next
  case (12 res elem dims r out)
  show ?case
  proof
    assume r: "holds r"
    have "ends_in holds (encode_type res elem r (out @ [ET_ARRAY]))" if "dims \<noteq> 1" using 12 r that by blast
    moreover have "ends_in holds (encode_type res elem r (out @ [ET_SZARRAY]))" if "dims = 1" using 12 r that by blast
    ultimately show "ends_in holds (encode_type res (TPlatformArray elem dims) r out)"
      unfolding encode_type.simps by (intro ends_in_intros(5,4,3,1))
  qed
next
  case (15 res name asm vt generics is_vt r out)
  show ?case
  proof
    assume "holds r"
    then have k: "holds r'" if "res (ClassRef name asm vt generics) r = Inr (v, r')" for v r' using 15(2) that unfolding resolver_keeps_def by blast
    show "ends_in holds (encode_class res (ClassRef name asm vt generics) is_vt r out)"
      using 15 k by (auto simp: Let_def intro!: ends_in_intros(1,2,3,5))
  qed
next
  case (17 res t ts r out)
  then show ?case by (auto intro!: ends_in_intros(4))
next
  case (18 res convention gp inputs ret r out)
  then show ?case by (fastforce simp: ends_in_def rbind_eq_Inr split: if_splits)
next
  case (21 res t ts r out)
  then show ?case by (auto intro!: ends_in_intros(4))
qed (auto intro!: ends_in_intros)

locale resolver_invariant =
  fixes resolve :: "'r resolver"
    and holds :: "'r \<Rightarrow> bool"
  assumes resolve_holds: "holds r \<Longrightarrow> resolve c r = Inr (v, r') \<Longrightarrow> holds r'"
begin

lemma keeps_it: "resolver_keeps resolve holds"
  using resolve_holds unfolding resolver_keeps_def by blast

lemma encode_type_holds: "holds r \<Longrightarrow> encode_type resolve t r out = Inr (r', out') \<Longrightarrow> holds r'"
  using encode_keeps_aux(1) [OF keeps_it] unfolding ends_in_def by blast

lemma encode_types_holds: "holds r \<Longrightarrow> encode_types resolve ts r out = Inr (r', out') \<Longrightarrow> holds r'"
  using encode_keeps_aux(3) [OF keeps_it] unfolding ends_in_def by blast

lemma encode_non_void_types_holds:
  "holds r \<Longrightarrow> encode_non_void_types resolve ts r out = Inr (r', out') \<Longrightarrow> holds r'"
  using encode_keeps_aux(6) [OF keeps_it] unfolding ends_in_def by blast

lemma encode_method_sig_holds:
  "holds r \<Longrightarrow> encode_method_sig resolve conv gp sig r out = Inr (r', out') \<Longrightarrow> holds r'"
  using encode_keeps_aux(4) [OF keeps_it] unfolding ends_in_def by blast

lemma encode_field_sig_holds: "holds r \<Longrightarrow> encode_field_sig resolve t r out = Inr (r', out') \<Longrightarrow> holds r'"
  using encode_keeps_aux(5) [OF keeps_it] unfolding ends_in_def encode_field_sig_def by blast

lemma encode_property_sig_holds: "holds r \<Longrightarrow> encode_property_sig resolve b t r out = Inr (r', out') \<Longrightarrow> holds r'"
  using encode_type_holds by (auto simp: encode_property_sig_def Let_def rbind_eq_Inr)

lemma encode_locals_sig_holds: "holds r \<Longrightarrow> encode_locals_sig resolve ts r out = Inr (r', out') \<Longrightarrow> holds r'"
  using encode_non_void_types_holds by (auto simp: encode_locals_sig_def rbind_eq_Inr)

lemma encode_method_spec_sig_holds: "holds r \<Longrightarrow> encode_method_spec_sig resolve ts r out = Inr (r', out') \<Longrightarrow> holds r'"
  using encode_types_holds by (auto simp: encode_method_spec_sig_def rbind_eq_Inr)

end

lemma find_type_def_ok: "refers_ok mb \<Longrightarrow> find_type_def n mb = Some t \<Longrightarrow> tok_ok mb {TABLE_TYPE_DEF, TABLE_TYPE_REF} t"
  using cached_tok_in(2) by (fastforce simp: find_type_def_def Let_def tok_ok_def valid_def ref_tables_def split: prod.splits if_splits)

lemma unity_token_ok: "refers_ok mb \<Longrightarrow> unity_legacy_128_token n mb = Some t \<Longrightarrow> tok_ok mb {TABLE_TYPE_DEF, TABLE_TYPE_REF} t"
  using find_type_def_ok by (auto simp: unity_legacy_128_token_def split: if_splits)

lemma tok_ok_class: "tok_ok mb {TABLE_TYPE_REF} t \<Longrightarrow> tok_ok mb {TABLE_TYPE_DEF, TABLE_TYPE_REF} t"
  by (auto simp: tok_ok_def valid_def ref_tables_def)

lemma class_tok_ok: "tok_ok mb {TABLE_TYPE_DEF, TABLE_TYPE_REF} t \<Longrightarrow> token_ok mb t"
  by (erule token_ok_any) (simp add: any_table_simps)

lemma resolve_class_token_yields:
  assumes "refers_ok mb"
  shows "yields snd mb (resolve_class_token asm c mb) (\<lambda>(t, mb'). tok_ok mb' {TABLE_TYPE_DEF, TABLE_TYPE_REF} t)"
  unfolding resolve_class_token_def
  by (intro binds yields_weaken [OF resolve_external_yields]) (auto simp: assms kept unity_token_ok find_type_def_ok tok_ok_class)

lemma type_def_or_ref_yields:
  assumes "refers_ok mb"
  shows "yields snd mb (type_def_or_ref asm c mb)
    (\<lambda>(v, mb'). \<exists>t. tok_ok mb' {TABLE_TYPE_DEF, TABLE_TYPE_REF} t \<and> encode_type_def_or_ref_token t = Inr v)"
  unfolding type_def_or_ref_def Let_def
  apply (intro yields_bind2 [OF resolve_class_token_yields] binds pushed)
  apply (simp_all add: assms kept)
  using cached_tok_in(8) [OF assms] by blast+

interpretation rr: resolver_invariant "mb_resolver asm" "\<lambda>mb'. grows mb mb' \<and> refers_ok mb'" for asm :: "'a assembly_scheme" and mb
proof
  fix c and r :: metadata_builder and v r'
  assume "grows mb r \<and> refers_ok r" "mb_resolver asm c r = Inr (v, r')"
  then show "grows mb r' \<and> refers_ok r'"
    using type_def_or_ref_yields [of r asm c] grows_trans by (auto simp: yields_def mb_resolver_Inr)
qed

lemma map_sum_Inr: "map_sum e id m = Inr x \<longleftrightarrow> m = Inr x"
  by (cases m) simp_all

lemma yields_fst:
  assumes "\<And>r out. m = Inr (r, out) \<Longrightarrow> grows mb r \<and> refers_ok r"
  shows "yields fst mb (map_sum e id m) (\<lambda>_. True)"
  using assms by (auto simp: yields_def map_sum_Inr)

lemma encode_yields:
  assumes "refers_ok mb"
  shows "yields fst mb (map_sum e id (encode_type (mb_resolver asm) t mb out)) (\<lambda>_. True)"
    "yields fst mb (map_sum e id (encode_field_sig (mb_resolver asm) t mb out)) (\<lambda>_. True)"
    "yields fst mb (map_sum e id (encode_property_sig (mb_resolver asm) b t mb out)) (\<lambda>_. True)"
    "yields fst mb (map_sum e id (encode_locals_sig (mb_resolver asm) ts mb out)) (\<lambda>_. True)"
    "yields fst mb (map_sum e id (encode_method_spec_sig (mb_resolver asm) ts mb out)) (\<lambda>_. True)"
    "yields fst mb (map_sum e id (encode_method_sig (mb_resolver asm) cv gp sig mb out)) (\<lambda>_. True)"
proof -
  have mb: "grows mb mb \<and> refers_ok mb" using assms by simp
  show "yields fst mb (map_sum e id (encode_type (mb_resolver asm) t mb out)) (\<lambda>_. True)"
    by (rule yields_fst, erule rr.encode_type_holds [OF mb])
  show "yields fst mb (map_sum e id (encode_field_sig (mb_resolver asm) t mb out)) (\<lambda>_. True)"
    by (rule yields_fst, erule rr.encode_field_sig_holds [OF mb])
  show "yields fst mb (map_sum e id (encode_property_sig (mb_resolver asm) b t mb out)) (\<lambda>_. True)"
    by (rule yields_fst, erule rr.encode_property_sig_holds [OF mb])
  show "yields fst mb (map_sum e id (encode_locals_sig (mb_resolver asm) ts mb out)) (\<lambda>_. True)"
    by (rule yields_fst, erule rr.encode_locals_sig_holds [OF mb])
  show "yields fst mb (map_sum e id (encode_method_spec_sig (mb_resolver asm) ts mb out)) (\<lambda>_. True)"
    by (rule yields_fst, erule rr.encode_method_spec_sig_holds [OF mb])
  show "yields fst mb (map_sum e id (encode_method_sig (mb_resolver asm) cv gp sig mb out)) (\<lambda>_. True)"
    by (rule yields_fst, erule rr.encode_method_sig_holds [OF mb])
qed

lemma yields_bind_fst:
  assumes "yields fst mb m Q" "\<And>mb' x. grows mb mb' \<Longrightarrow> refers_ok mb' \<Longrightarrow> Q (mb', x) \<Longrightarrow> yields st2 mb' (k mb' x) R"
  shows "yields st2 mb (rbind m (\<lambda>(mb', x). k mb' x)) R"
  using assms by (intro yields_bind [OF assms(1)]) auto

lemma class_ref_token_yields:
  assumes "refers_ok mb"
  shows "yields snd mb (class_ref_token asm c mb) (\<lambda>(t, mb'). token_ok mb' t)"
  unfolding class_ref_token_def
proof (intro yields_if yields_bind2 [OF type_def_or_ref_yields] yields_bind_fst [OF encode_yields(1)]
    yields_bind2 [OF intern_blob_yields] type_spec_yields assms)
  fix v mb' assume "grows mb mb'" "refers_ok mb'"
    "\<exists>t. tok_ok mb' {TABLE_TYPE_DEF, TABLE_TYPE_REF} t \<and> encode_type_def_or_ref_token t = Inr v"
  then obtain t where "refers_ok mb'" "token_ok mb' t" "decode_type_def_or_ref v = Some t"
    using class_tok_ok type_def_or_ref_roundtrip_parts(2) by blast
  then show "yields snd mb' (case decode_type_def_or_ref v of None \<Rightarrow> Inl (NotAMember 3) | Some t \<Rightarrow> Inr (t, mb')) (\<lambda>(t, mb'). token_ok mb' t)"
    by (simp add: yields_def)
qed

lemma field_sig_for_valuetype_token_yields:
  assumes "refers_ok mb"
  shows "yields snd mb (field_sig_for_valuetype_token tok mb) (\<lambda>(off, mb'). blob_ok mb' off)"
  unfolding field_sig_for_valuetype_token_def
  by (intro yields_value intern_blob_yields assms)

section \<open>Rows that exist\<close>

lemma row_ok_of:
  assumes "refers_ok mb"
  shows "r1 \<in> set (mb_type_def mb) \<Longrightarrow> row_ok mb 2 (type_def_cols r1)"
    "r2 \<in> set (mb_method_def mb) \<Longrightarrow> row_ok mb 6 (method_def_cols r2)"
    "r3 \<in> set (mb_field_rva mb) \<Longrightarrow> row_ok mb 29 (field_rva_cols r3)"
  using assms by (auto simp: row_ok_def refers_ok_def tables_refer_def raw_contents_def list_all_iff)

lemma set_update: "x \<in> set (xs[i := y]) \<Longrightarrow> x \<in> set xs \<or> i < length xs \<and> x = y"
  by (cases "i < length xs") (auto simp: list_update_beyond dest: subsetD [OF set_update_subset_insert])

lemma update_rows_ok:
  assumes "refers_ok mb"
  shows "(i1 < length (mb_type_def mb) \<Longrightarrow> row_ok mb 2 (type_def_cols y1)) \<Longrightarrow> refers_ok (mb\<lparr>mb_type_def := (mb_type_def mb)[i1 := y1]\<rparr>)"
    "(i2 < length (mb_method_def mb) \<Longrightarrow> row_ok mb 6 (method_def_cols y2)) \<Longrightarrow> refers_ok (mb\<lparr>mb_method_def := (mb_method_def mb)[i2 := y2]\<rparr>)"
    "(i3 < length (mb_field_rva mb) \<Longrightarrow> row_ok mb 29 (field_rva_cols y3)) \<Longrightarrow> refers_ok (mb\<lparr>mb_field_rva := (mb_field_rva mb)[i3 := y3]\<rparr>)"
proof -
  assume y: "i1 < length (mb_type_def mb) \<Longrightarrow> row_ok mb 2 (type_def_cols y1)"
  let ?mb = "mb\<lparr>mb_type_def := (mb_type_def mb)[i1 := y1]\<rparr>"
  have g: "grows mb ?mb" by (simp add: grows_rows)
  show "refers_ok ?mb"
    using set_update [of _ "mb_type_def mb" i1 y1] y grows_small [OF g] row_refers_mono [OF g, of 2 "type_def_cols y1"]
    by (auto intro!: type_def_rows_ok assms simp: row_ok_def schemas_def)
next
  assume y: "i2 < length (mb_method_def mb) \<Longrightarrow> row_ok mb 6 (method_def_cols y2)"
  let ?mb = "mb\<lparr>mb_method_def := (mb_method_def mb)[i2 := y2]\<rparr>"
  have g: "grows mb ?mb" by (simp add: grows_rows)
  show "refers_ok ?mb"
    using set_update [of _ "mb_method_def mb" i2 y2] y grows_small [OF g] row_refers_mono [OF g, of 6 "method_def_cols y2"]
    by (auto intro!: method_def_rows_ok assms simp: row_ok_def schemas_def)
next
  assume y: "i3 < length (mb_field_rva mb) \<Longrightarrow> row_ok mb 29 (field_rva_cols y3)"
  let ?mb = "mb\<lparr>mb_field_rva := (mb_field_rva mb)[i3 := y3]\<rparr>"
  have g: "grows mb ?mb" by (simp add: grows_rows)
  show "refers_ok ?mb"
    using set_update [of _ "mb_field_rva mb" i3 y3] y grows_small [OF g] row_refers_mono [OF g, of 29 "field_rva_cols y3"]
    by (auto intro!: field_rva_rows_ok assms simp: row_ok_def schemas_def)
qed

lemma yields_builder:
  "grows mb mb' \<Longrightarrow> refers_ok mb' \<Longrightarrow> Q mb' \<Longrightarrow> yields (\<lambda>mb. mb) mb (Inr mb') Q"
  by (simp add: yields_def)

lemma update_type_def_yields:
  assumes "refers_ok mb" "\<And>r. row_ok mb 2 (type_def_cols r) \<Longrightarrow> row_ok mb 2 (type_def_cols (f r))"
  shows "yields (\<lambda>mb. mb) mb (update_type_def tok f mb) (\<lambda>_. True)"
  unfolding update_type_def_def update_row_def
  using assms row_ok_of(1) [OF assms(1)]
  by (auto intro!: yields_value yields_builder update_rows_ok split: if_splits simp: grows_rows)

lemma update_method_def_yields:
  assumes "refers_ok mb" "\<And>r. row_ok mb 6 (method_def_cols r) \<Longrightarrow> row_ok mb 6 (method_def_cols (f r))"
  shows "yields (\<lambda>mb. mb) mb (update_method_def tok f mb) (\<lambda>_. True)"
  unfolding update_method_def_def update_row_def
  using assms row_ok_of(2) [OF assms(1)]
  by (auto intro!: yields_value yields_builder update_rows_ok split: if_splits simp: grows_rows)

section \<open>Types, fields and attributes of a fixed shape\<close>

lemma set_type_def_field_list_yields:
  assumes "refers_ok mb"
  shows "yields (\<lambda>mb. mb) mb (set_type_def_field_list tok mb) (\<lambda>_. True)"
  unfolding set_type_def_field_list_def update_row_def
  using assms row_ok_of(1) [OF assms]
  by (auto intro!: yields_value yields_builder framed update_rows_ok split: if_splits simp: kept row_id_unat)

lemma set_type_def_method_list_yields:
  assumes "refers_ok mb"
  shows "yields (\<lambda>mb. mb) mb (set_type_def_method_list tok mb) (\<lambda>_. True)"
  unfolding set_type_def_method_list_def update_row_def
  using assms row_ok_of(1) [OF assms]
  by (auto intro!: yields_value yields_builder framed update_rows_ok split: if_splits simp: kept row_id_unat)

lemma set_type_def_access_yields:
  assumes "refers_ok mb"
  shows "yields (\<lambda>mb. mb) mb (set_type_def_access tok acc mb) (\<lambda>_. True)"
  unfolding set_type_def_access_def by (intro update_type_def_yields assms) (simp add: type_def_cols_def Let_def)

lemma mark_type_def_interface_yields:
  assumes "refers_ok mb"
  shows "yields (\<lambda>mb. mb) mb (mark_type_def_interface tok mb) (\<lambda>_. True)"
  unfolding mark_type_def_interface_def by (intro update_type_def_yields assms) (simp add: type_def_cols_def)

lemma register_field_def_frame [simp]:
  "grows mb (register_field_def n sg t mb') = grows mb mb'"
  "refers_ok (register_field_def n sg t mb') = refers_ok mb'"
  "tok_ok (register_field_def n sg t mb') ts tok = tok_ok mb' ts tok"
  "string_ok (register_field_def n sg t mb') off = string_ok mb' off"
  "blob_ok (register_field_def n sg t mb') off = blob_ok mb' off"
  by (simp_all add: register_field_def_def Let_def split: option.split)

lemma push_field_yields:
  assumes "refers_ok mb" "string_ok mb name" "blob_ok mb sg"
  shows "yields snd mb (push_field flags name sg mb) (\<lambda>(t, mb'). tok_ok mb' {TABLE_FIELD} t \<and> token_ok mb' t)"
  unfolding push_field_def Let_def
  using assms by (intro binds) (simp_all add: kept pushed)

lemma add_field_yields:
  assumes "refers_ok mb" "blob_ok mb sg"
  shows "yields snd mb (add_field name sg offset mb) (\<lambda>(t, mb'). token_ok mb' t)"
  unfolding add_field_def
  using assms by (intro yields_bind2 [OF intern_string_yields] yields_bind2 [OF push_field_yields] yields_row)
    (auto simp: kept row_cell pushed split: option.split)

lemma add_enum_value_field_yields:
  assumes "refers_ok mb" "blob_ok mb sg"
  shows "yields snd mb (add_enum_value_field sg mb) (\<lambda>(t, mb'). token_ok mb' t)"
  unfolding add_enum_value_field_def
  using assms by (intro yields_bind2 [OF intern_string_yields] yields_weaken [OF push_field_yields]) (auto simp: kept)

lemma field_constant_cell:
  assumes "tok_ok mb {TABLE_FIELD} t"
  shows "cell_ok mb HasConstant (unat (push_bit 2 (token_rid t)))"
  using assms unat_coded [of 2 0 t] by (auto simp: tok_ok_def cell_ok_def refers_def valid_def)

lemma add_enum_literal_field_yields:
  assumes "refers_ok mb" "blob_ok mb sg"
  shows "yields snd mb (add_enum_literal_field name sg v mb) (\<lambda>(t, mb'). token_ok mb' t)"
  unfolding add_enum_literal_field_def
  using assms by (intro yields_bind2 [OF intern_string_yields] yields_bind2 [OF push_field_yields] yields_bind2 [OF intern_blob_yields] yields_value yields_pair yields_row)
    (auto simp: kept field_constant_cell pushed)

lemma push_custom_attribute_yields:
  assumes "refers_ok mb" "token_ok mb parent" "token_ok mb ctor" "blob_ok mb v"
  shows "yields snd mb (push_custom_attribute parent ctor v mb) (\<lambda>(t, mb'). True)"
  unfolding push_custom_attribute_def Let_def
  using assms by (intro yields_value yields_row) (auto simp: kept pushed)

lemma intern_ctor_sig_yields:
  assumes "refers_ok mb"
  shows "yields snd mb (intern_ctor_sig kinds mb) (\<lambda>(off, mb'). blob_ok mb' off)"
  unfolding intern_ctor_sig_def by (intro yields_value intern_blob_yields assms)

lemma system_runtime_assembly_ref_yields:
  assumes "refers_ok mb"
  shows "yields snd mb (system_runtime_assembly_ref mb) (\<lambda>(t, mb'). token_ok mb' t)"
  unfolding system_runtime_assembly_ref_def by (rule find_or_create_assembly_ref_yields [OF assms])

lemmas op_binds = yields_bind2 [OF intern_string_yields] yields_bind2 [OF intern_blob_yields]
  yields_bind2 [OF system_runtime_assembly_ref_yields] yields_bind2 [OF type_ref_yields] yields_bind2 [OF intern_ctor_sig_yields]
  yields_bind2 [OF member_ref_yields] yields_bind2 [OF class_ref_token_yields] yields_bind2 [OF push_field_yields]

lemma nullable_metadata_attribute_yields:
  assumes "refers_ok mb" "token_ok mb parent"
  shows "yields snd mb (nullable_metadata_attribute parent flag ctx mb) (\<lambda>(t, mb'). True)"
  unfolding nullable_metadata_attribute_def
  using assms by (intro yields_if op_binds push_custom_attribute_yields) (simp_all add: kept)

lemma thread_static_ctor_ref_yields:
  assumes "refers_ok mb"
  shows "yields snd mb (thread_static_ctor_ref mb) (\<lambda>(t, mb'). token_ok mb' t)"
  unfolding thread_static_ctor_ref_def
  using assms by (intro op_binds member_ref_yields) (simp_all add: kept)

lemma thread_static_attribute_yields:
  assumes "refers_ok mb" "token_ok mb field"
  shows "yields snd mb (thread_static_attribute field mb) (\<lambda>(t, mb'). True)"
  unfolding thread_static_attribute_def
  using assms by (intro yields_if yields_bind2 [OF thread_static_ctor_ref_yields] op_binds push_custom_attribute_yields) (simp_all add: kept)

lemma set_field_rva_yields:
  assumes "refers_ok mb"
  shows "yields (\<lambda>mb. mb) mb (set_field_rva field rva mb) (\<lambda>_. True)"
  unfolding set_field_rva_def update_row_def
  using assms row_ok_of(3) [OF assms]
  by (auto intro!: yields_option yields_value yields_builder update_rows_ok split: if_splits simp: kept)

lemma push_field_rva_yields:
  assumes "refers_ok mb" "tok_ok mb {TABLE_FIELD} tok"
  shows "yields (\<lambda>mb. mb) mb (push_field_rva tok mb) (\<lambda>_. True)"
  unfolding push_field_rva_def Let_def
  using assms by (intro yields_if yields_Inl yields_Inr) (simp_all add: kept pushed row_cell)

lemma add_static_field_yields:
  assumes "refers_ok mb" "blob_ok mb sg"
  shows "yields snd mb (add_static_field name sg rva_data thr const mb) (\<lambda>(t, mb'). token_ok mb' t)"
  unfolding add_static_field_def Let_def
proof (rule yields_bind2 [OF intern_string_yields [OF assms(1)]], rule yields_bind2 [OF push_field_yields])
  fix name_off mb1 tok mb2
  assume m: "grows mb mb1" "refers_ok mb1" "string_ok mb1 name_off" "grows mb1 mb2" "refers_ok mb2"
    "tok_ok mb2 {TABLE_FIELD} tok \<and> token_ok mb2 tok"
  show "yields snd mb2 (rbind (if rva_data = None then Inr mb2 else push_field_rva tok mb2) (\<lambda>mb.
      if thr then rbind (thread_static_attribute tok mb) (\<lambda>(_, mb). Inr (tok, mb)) else Inr (tok, mb))) (\<lambda>(t, mb'). token_ok mb' t)"
    by (rule yields_bind1 [where Q = "\<lambda>_. True"])
      (use m in \<open>auto intro!: yields_if yields_Inr push_field_rva_yields yields_bind2 [OF thread_static_attribute_yields]
        yields_row simp: kept\<close>)
qed (use assms in \<open>simp_all add: kept\<close>)

section \<open>Methods and parameters\<close>

lemma push_method_yields:
  assumes "refers_ok mb" "string_ok mb name" "blob_ok mb sg"
  shows "yields snd mb (push_method flags impl name sg mb) (\<lambda>(t, mb'). tok_ok mb' {TABLE_METHOD_DEF} t \<and> token_ok mb' t)"
  unfolding push_method_def Let_def
  using assms by (intro binds) (simp_all add: kept pushed row_id_unat)

lemma push_param_yields:
  assumes "refers_ok mb" "string_ok mb name"
  shows "yields snd mb (push_param m flags sequence name mb) (\<lambda>(t, mb'). token_ok mb' t)"
  unfolding push_param_def Let_def
  using assms by (intro binds) (simp_all add: kept pushed)

lemma yields_builder_snd:
  assumes "yields snd mb m Q"
  shows "yields (\<lambda>mb. mb) mb (map_sum id snd m) (\<lambda>_. True)"
  using assms by (cases m) (auto simp: yields_def)

lemma nullable_if_yields:
  assumes "refers_ok mb" "token_ok mb parent"
  shows "yields (\<lambda>mb. mb) mb (nullable_if parent flag mb) (\<lambda>_. True)"
  unfolding nullable_if_def
  using assms by (intro yields_option yields_builder yields_builder_snd [OF nullable_metadata_attribute_yields]) simp_all

lemma push_nullability_yields:
  assumes "refers_ok mb" "token_ok mb tok"
  shows "yields (\<lambda>mb. mb) mb (push_nullability tok n nl mb) (\<lambda>_. True)"
  unfolding push_nullability_def
  using assms by (intro yields_if yields_bind2 [OF nullable_metadata_attribute_yields] yields_option
      yields_bind2 [OF push_param_yields] nullable_if_yields yields_builder) (simp_all add: kept)

lemma push_params_yields:
  "refers_ok mb \<Longrightarrow> yields (\<lambda>mb. mb) mb (push_params tok outs nullable i names mb) (\<lambda>_. True)"
proof (induction names arbitrary: i mb)
  case (Cons pname names)
  have name: "yields snd mb (case pname of None \<Rightarrow> Inr (0, mb) | Some n \<Rightarrow> mb_intern_string n mb) (\<lambda>(off, mb'). string_ok mb' off)"
    using Cons.prems by (intro yields_option intern_string_yields yields_row) (simp_all add: kept)
  show ?case
    unfolding push_params.simps Let_def
    using Cons
    by (intro yields_if yields_bind2 [OF name] yields_bind2 [OF push_param_yields] yields_bind1 [OF nullable_if_yields])
      (simp_all add: kept)
qed (simp add: yields_def)

lemma push_pinvoke_yields:
  assumes "refers_ok mb" "token_ok mb tok"
  shows "yields (\<lambda>mb. mb) mb (push_pinvoke tok name p mb) (\<lambda>_. True)"
  unfolding push_pinvoke_def Let_def
  using assms by (intro yields_pair yields_bind2 [OF intern_module_ref_yields] yields_bind2 [OF intern_string_yields] yields_value yields_builder)
    (simp_all add: kept pushed row_cell)

lemma add_method_with_access_yields:
  assumes "refers_ok mb" "blob_ok mb sg"
  shows "yields snd mb (add_method_with_access name acc sg names outs st vr ct pinvoke inl nl mb)
    (\<lambda>(t, mb'). tok_ok mb' {TABLE_METHOD_DEF} t \<and> token_ok mb' t)"
proof -
  have nul: "yields (\<lambda>mb. mb) mb' (case nl of None \<Rightarrow> Inr mb' | Some nl \<Rightarrow> push_nullability tok n nl mb') (\<lambda>_. True)"
    if "refers_ok mb'" "token_ok mb' tok" for mb' tok n
    using that by (intro yields_option yields_builder push_nullability_yields) simp_all
  have pin: "yields (\<lambda>mb. mb) mb' (case pinvoke of None \<Rightarrow> Inr mb' | Some p \<Rightarrow> push_pinvoke tok name p mb') (\<lambda>_. True)"
    if "refers_ok mb'" "token_ok mb' tok" for mb' tok
    using that by (intro yields_option yields_builder push_pinvoke_yields) simp_all
  show ?thesis
    unfolding add_method_with_access_def Let_def
    using assms by (intro yields_bind2 [OF intern_string_yields] yields_bind2 [OF push_method_yields] yields_bind1 [OF nul]
        yields_bind1 [OF push_params_yields] yields_bind1 [OF pin] yields_row) (simp_all add: kept)
qed

lemma add_method_yields:
  assumes "refers_ok mb" "blob_ok mb sg"
  shows "yields snd mb (add_method name sg names outs st vr ct pinvoke inl nl mb)
    (\<lambda>(t, mb'). tok_ok mb' {TABLE_METHOD_DEF} t \<and> token_ok mb' t)"
  unfolding add_method_def by (rule add_method_with_access_yields [OF assms])

lemma mark_method_yields:
  assumes "refers_ok mb"
  shows "yields (\<lambda>mb. mb) mb (mark_method_bit_preserving_float tok mb) (\<lambda>_. True)"
    "yields (\<lambda>mb. mb) mb (set_method_body_rva tok rva mb) (\<lambda>_. True)"
    "yields (\<lambda>mb. mb) mb (mark_method_reuse_slot tok mb) (\<lambda>_. True)"
    "yields (\<lambda>mb. mb) mb (mark_method_abstract tok mb) (\<lambda>_. True)"
    "yields (\<lambda>mb. mb) mb (mark_method_static_abstract tok mb) (\<lambda>_. True)"
    "yields (\<lambda>mb. mb) mb (mark_method_special_name tok mb) (\<lambda>_. True)"
  subgoal
    unfolding mark_method_bit_preserving_float_def update_row_def
    using assms row_ok_of(2) [OF assms]
    by (auto intro!: yields_value yields_builder update_rows_ok split: if_splits simp: kept yields_Inl)
  unfolding set_method_body_rva_def mark_method_reuse_slot_def mark_method_abstract_def mark_method_static_abstract_def
    mark_method_special_name_def
  by (intro update_method_def_yields yields_value yields_if yields_Inl assms; simp add: method_def_cols_def)+

lemma method_spec_yields:
  assumes "refers_ok mb" "token_ok mb m" "blob_ok mb inst"
  shows "yields snd mb (method_spec m inst mb) (\<lambda>(t, mb'). token_ok mb' t)"
  unfolding method_spec_def Let_def
  using assms by (intro binds) (simp_all add: kept pushed)

lemma standalone_sig_yields:
  assumes "refers_ok mb" "blob_ok mb sg"
  shows "yields snd mb (standalone_sig sg mb) (\<lambda>(t, mb'). token_ok mb' t)"
  unfolding standalone_sig_def Let_def
  using assms by (intro binds) (simp_all add: kept pushed)

lemma row_cell_of:
  "token_ok mb t \<Longrightarrow> token_table t = TABLE_TYPE_DEF \<Longrightarrow> cell_ok mb (RowIndex 2) (unat (token_rid t))"
  "token_ok mb t \<Longrightarrow> token_table t = TABLE_METHOD_DEF \<Longrightarrow> cell_ok mb (RowIndex 6) (unat (token_rid t))"
  by (auto simp: tok_ok_def cell_ok_def refers_def valid_def)

lemma interface_impl_yields:
  assumes "refers_ok mb" "token_ok mb cls" "token_ok mb iface"
  shows "yields snd mb (interface_impl cls iface mb) (\<lambda>(t, mb'). token_ok mb' t)"
  unfolding interface_impl_def Let_def
  using assms by (intro binds) (simp_all add: kept pushed row_cell_of)

lemma add_generic_param_yields:
  assumes "refers_ok mb" "token_ok mb owner"
  shows "yields snd mb (add_generic_param owner number name mb) (\<lambda>(t, mb'). token_ok mb' t)"
  unfolding add_generic_param_def Let_def
  using assms by (intro binds) (simp_all add: kept pushed)

lemma add_method_impl_yields:
  assumes "refers_ok mb" "token_ok mb cls" "token_ok mb body" "token_ok mb decl"
  shows "yields (\<lambda>mb. mb) mb (add_method_impl cls body decl mb) (\<lambda>_. True)"
  unfolding add_method_impl_def Let_def
  using assms by (intro yields_if yields_value yields_builder) (simp_all add: kept pushed row_cell_of)

section \<open>Events, properties and custom attributes\<close>

lemma special_name_yields:
  assumes "refers_ok mb"
  shows "yields (\<lambda>mb. mb) mb (mark_method_special_name tok mb) (\<lambda>mb'. cell_ok mb' (RowIndex 6) (unat (token_rid tok)))"
proof -
  have "cell_ok mb' (RowIndex 6) (unat (token_rid tok))" if "mark_method_special_name tok mb = Inr mb'" for mb'
    using that by (auto simp: mark_method_special_name_def update_method_def_def update_row_def rbind_eq_Inr row_index_def split: if_splits)
  then show ?thesis using mark_method_yields(6) [OF assms] by (simp add: yields_def)
qed

lemma push_semantics_frame:
  assumes "refers_ok mb" "cell_ok mb (RowIndex 6) (unat (token_rid m))" "cell_ok mb HasSemantics (unat assoc)"
  shows "grows mb (push_semantics sem m assoc mb)" "refers_ok (push_semantics sem m assoc mb)"
  using assms by (simp_all add: push_semantics_def kept pushed)

lemma push_semantics_ok [simp]:
  "cell_ok mb c v \<Longrightarrow> list_all (\<lambda>t. t \<in> set ref_tables) (column_tables c) \<Longrightarrow> cell_ok (push_semantics sem m assoc mb) c v"
  "tok_ok mb ts t \<Longrightarrow> tok_ok (push_semantics sem m assoc mb) ts t"
proof -
  have g: "grows mb (push_semantics sem m assoc mb)" by (simp add: push_semantics_def kept)
  show "cell_ok mb c v \<Longrightarrow> list_all (\<lambda>t. t \<in> set ref_tables) (column_tables c) \<Longrightarrow> cell_ok (push_semantics sem m assoc mb) c v"
    by (rule cell_ok_mono [OF g])
  show "tok_ok mb ts t \<Longrightarrow> tok_ok (push_semantics sem m assoc mb) ts t" by (rule ok_mono(3) [OF g])
qed

lemma grows_semantics [simp]: "grows mb mb' \<Longrightarrow> grows mb (push_semantics sem m assoc mb')"
  by (erule grows_trans) (simp add: push_semantics_def kept)

lemma open_run_yields:
  assumes "refers_ok mb" "cell_ok mb (RowIndex 2) (unat cls)"
  shows "yields (\<lambda>mb. mb) mb (open_event_run cls mb) (\<lambda>_. True)"
    "yields (\<lambda>mb. mb) mb (open_property_run cls mb) (\<lambda>_. True)"
  unfolding open_event_run_def open_property_run_def
  using assms by (intro yields_value yields_if yields_builder; simp add: kept pushed row_id_unat)+

lemma cell_ok_rows:
  "cell_ok mb c v \<Longrightarrow> list_all (\<lambda>t. t \<in> set ref_tables) (column_tables c) \<Longrightarrow> cell_ok (mb\<lparr>mb_event := mb_event mb @ [e]\<rparr>) c v"
  "cell_ok mb c v \<Longrightarrow> list_all (\<lambda>t. t \<in> set ref_tables) (column_tables c) \<Longrightarrow> cell_ok (mb\<lparr>mb_property := mb_property mb @ [p]\<rparr>) c v"
  by (rule cell_ok_mono [rotated], assumption+, simp add: grows_rows)+

lemma push_event_yields:
  assumes "refers_ok mb" "string_ok mb name_off" "token_ok mb et"
    and "cell_ok mb (RowIndex 6) (unat (token_rid add))" "cell_ok mb (RowIndex 6) (unat (token_rid remove))"
  shows "yields (\<lambda>mb. mb) mb (push_event name_off et add remove mb) (\<lambda>_. True)"
proof -
  have "yields (\<lambda>mb. mb) mb (let rows = mb_event mb @ [\<lparr>ev_flags = 0, ev_name = name_off, ev_type = coded\<rparr>]; mb = mb\<lparr>mb_event := rows\<rparr> in
      rbind (row_id (length rows)) (\<lambda>event_rid.
      rbind (encode_has_semantics (token_new TABLE_EVENT event_rid)) (\<lambda>association.
      Inr (push_semantics 0x10 remove association (push_semantics 0x8 add association mb))))) (\<lambda>_. True)"
    if coded: "encode_type_def_or_ref_token et = Inr coded" for coded
  proof -
    let ?mb = "mb\<lparr>mb_event := mb_event mb @ [\<lparr>ev_flags = 0, ev_name = name_off, ev_type = coded\<rparr>]\<rparr>"
    have ok: "refers_ok ?mb" using assms coded by (intro pushed) (simp_all add: kept)
    have c: "cell_ok ?mb (RowIndex 6) (unat (token_rid add))" "cell_ok ?mb (RowIndex 6) (unat (token_rid remove))"
      using assms(4,5) by (simp_all add: cell_ok_rows column_tables_def ref_tables_def)
    show ?thesis
      unfolding Let_def
    proof (intro yields_value yields_builder)
      fix rid v
      assume "row_id (length (mb_event mb @ [\<lparr>ev_flags = 0, ev_name = name_off, ev_type = coded\<rparr>])) = Inr rid"
        "encode_has_semantics (token_new TABLE_EVENT rid) = Inr v"
      then have s: "cell_ok ?mb HasSemantics (unat v)" by (simp add: kept)
      then have r: "refers_ok (push_semantics 0x8 add v ?mb)" using push_semantics_frame(2) [OF ok c(1)] by simp
      show "refers_ok (push_semantics 0x10 remove v (push_semantics 0x8 add v ?mb))"
        by (rule push_semantics_frame(2) [OF r]) (use c s in \<open>simp_all add: column_tables_def ref_tables_def\<close>)
      show "grows mb (push_semantics 0x10 remove v (push_semantics 0x8 add v ?mb))" by (simp add: grows_rows)
    qed simp
  qed
  then show ?thesis unfolding push_event_def by (intro yields_value)
qed

lemma add_event_yields:
  assumes "refers_ok mb" "token_ok mb cls" "token_ok mb event_type"
  shows "yields (\<lambda>mb. mb) mb (add_event cls name event_type add remove mb) (\<lambda>_. True)"
  unfolding add_event_def
proof (rule yields_if, rule yields_Inl, rule yields_bind1 [OF special_name_yields [OF assms(1)]],
    rule yields_bind1 [OF special_name_yields], assumption, rule yields_bind1 [OF open_run_yields(1)], assumption)
  fix mb1 mb2
  assume c: "\<not> token_table cls \<noteq> TABLE_TYPE_DEF" and m: "grows mb mb1" "grows mb1 mb2"
  have "token_ok mb2 cls" using ok_mono(3) [OF m(2)] ok_mono(3) [OF m(1)] assms(2) by blast
  then show "cell_ok mb2 (RowIndex 2) (unat (token_rid cls))" using c by (simp add: row_cell_of)
next
  fix mb1 mb2 mb3
  assume m: "grows mb mb1" "cell_ok mb1 (RowIndex 6) (unat (token_rid add))" "grows mb1 mb2"
    "cell_ok mb2 (RowIndex 6) (unat (token_rid remove))" "grows mb2 mb3" "refers_ok mb3"
  show "yields (\<lambda>mb. mb) mb3 (rbind (mb_intern_string name mb3) (\<lambda>(off, mb). push_event off event_type add remove mb)) (\<lambda>_. True)"
  proof (rule yields_bind2 [OF intern_string_yields [OF m(6)]], rule push_event_yields)
    fix v mb4
    assume "grows mb3 mb4"
    then have g: "grows mb1 mb4" "grows mb2 mb4" "grows mb mb4" using m grows_trans by blast+
    then show "token_ok mb4 event_type" using ok_mono(3) assms(3) by blast
    show "cell_ok mb4 (RowIndex 6) (unat (token_rid add))" "cell_ok mb4 (RowIndex 6) (unat (token_rid remove))"
      using g m cell_ok_mono by (simp_all add: column_tables_def ref_tables_def)
  qed
qed

definition accessor_ok :: "metadata_builder \<Rightarrow> token option \<Rightarrow> bool" where
  "accessor_ok mb a \<longleftrightarrow> (case a of None \<Rightarrow> True | Some t \<Rightarrow> cell_ok mb (RowIndex 6) (unat (token_rid t)))"

lemma accessor_ok_simps [simp]: "accessor_ok mb None" "accessor_ok mb (Some t) = cell_ok mb (RowIndex 6) (unat (token_rid t))"
  by (simp_all add: accessor_ok_def)

lemma accessor_ok_mono: "grows mb mb' \<Longrightarrow> accessor_ok mb a \<Longrightarrow> accessor_ok mb' a"
  using cell_ok_mono by (cases a) (auto simp: column_tables_def ref_tables_def)

lemma special_name_if_yields:
  assumes "refers_ok mb"
  shows "yields (\<lambda>mb. mb) mb (special_name_if a mb) (\<lambda>mb'. accessor_ok mb' a)"
  using special_name_yields [OF assms] assms by (cases a) (auto simp: special_name_if_def yields_def)

lemma semantics_if_frame:
  assumes "refers_ok mb" "accessor_ok mb a" "cell_ok mb HasSemantics (unat assoc)"
  shows "refers_ok (semantics_if sem a assoc mb)"
  using assms by (cases a) (simp_all add: semantics_if_def push_semantics_frame)

lemma semantics_if_ok [simp]:
  "cell_ok mb c v \<Longrightarrow> list_all (\<lambda>t. t \<in> set ref_tables) (column_tables c) \<Longrightarrow> cell_ok (semantics_if sem a assoc mb) c v"
  "tok_ok mb ts t \<Longrightarrow> tok_ok (semantics_if sem a assoc mb) ts t"
  "accessor_ok mb b \<Longrightarrow> accessor_ok (semantics_if sem a assoc mb) b"
  "grows mb0 mb \<Longrightarrow> grows mb0 (semantics_if sem a assoc mb)"
  by (cases a; cases b; simp add: semantics_if_def column_tables_def ref_tables_def)+

lemma accessor_ok_rows: "accessor_ok mb a \<Longrightarrow> accessor_ok (mb\<lparr>mb_property := mb_property mb @ [p]\<rparr>) a"
  by (rule accessor_ok_mono [rotated], assumption) (simp add: grows_rows)

lemma push_property_yields:
  assumes "refers_ok mb" "string_ok mb name_off" "blob_ok mb sg" "accessor_ok mb getter" "accessor_ok mb setter"
  shows "yields snd mb (push_property name_off sg getter setter mb) (\<lambda>(t, mb'). token_ok mb' t)"
proof -
  let ?mb = "mb\<lparr>mb_property := mb_property mb @ [\<lparr>pr_flags = 0, pr_name = name_off, pr_signature = sg\<rparr>]\<rparr>"
  have g: "grows mb ?mb" by (rule grows_rows) simp
  have ok: "refers_ok ?mb" using assms by (intro pushed) (simp_all add: kept)
  have a: "accessor_ok ?mb getter" "accessor_ok ?mb setter" using assms(4,5) by (simp_all add: accessor_ok_rows)
  show ?thesis
    unfolding push_property_def Let_def
  proof (intro yields_value yields_row)
    show "grows mb (semantics_if 0x1 setter v (semantics_if 0x2 getter v ?mb))" for v using g by simp
    show "refers_ok (semantics_if 0x1 setter v (semantics_if 0x2 getter v ?mb))"
      if "row_id (length (mb_property mb @ [\<lparr>pr_flags = 0, pr_name = name_off, pr_signature = sg\<rparr>])) = Inr rid"
        "encode_has_semantics (token_new TABLE_PROPERTY rid) = Inr v" for rid v
      using that by (intro semantics_if_frame ok a semantics_if_ok; simp add: kept)
  qed (simp add: kept)
qed

lemma add_property_yields:
  assumes "refers_ok mb" "token_ok mb cls" "blob_ok mb sg"
  shows "yields snd mb (add_property cls name sg getter setter mb) (\<lambda>(t, mb'). token_ok mb' t)"
  unfolding add_property_def
proof (rule yields_if, rule yields_Inl, rule yields_if, rule yields_Inl, rule yields_bind1 [OF special_name_if_yields [OF assms(1)]],
    rule yields_bind1 [OF special_name_if_yields], assumption, rule yields_bind1 [OF open_run_yields(2)], assumption)
  fix mb1 mb2
  assume c: "\<not> token_table cls \<noteq> TABLE_TYPE_DEF" and m: "grows mb mb1" "grows mb1 mb2"
  have "token_ok mb2 cls" using ok_mono(3) [OF m(2)] ok_mono(3) [OF m(1)] assms(2) by blast
  then show "cell_ok mb2 (RowIndex 2) (unat (token_rid cls))" using c by (simp add: row_cell_of)
next
  fix mb1 mb2 mb3
  assume m: "grows mb mb1" "accessor_ok mb1 getter" "grows mb1 mb2" "accessor_ok mb2 setter" "grows mb2 mb3" "refers_ok mb3"
  show "yields snd mb3 (rbind (mb_intern_string name mb3) (\<lambda>(off, mb). push_property off sg getter setter mb))
      (\<lambda>(t, mb'). token_ok mb' t)"
  proof (rule yields_bind2 [OF intern_string_yields [OF m(6)]], rule push_property_yields)
    fix v mb4
    assume "grows mb3 mb4"
    then have "grows mb1 mb4" "grows mb2 mb4" "grows mb mb4" using m grows_trans by blast+
    then show "blob_ok mb4 sg" "accessor_ok mb4 getter" "accessor_ok mb4 setter"
      using ok_mono(2) accessor_ok_mono m assms(3) by blast+
  qed
qed

lemma mark_property_nullable_yields:
  assumes "refers_ok mb" "token_ok mb prop"
  shows "yields (\<lambda>mb. mb) mb (mark_property_nullable prop flag mb) (\<lambda>_. True)"
  unfolding mark_property_nullable_def
  using assms by (intro yields_if yields_builder_snd [OF nullable_metadata_attribute_yields]) (simp_all add: kept)

lemma add_custom_attribute_yields:
  assumes "refers_ok mb" "token_ok mb parent"
  shows "yields snd mb (add_custom_attribute asm parent attr mb) (\<lambda>(t, mb'). True)"
  unfolding add_custom_attribute_def
  using assms by (intro op_binds yields_value push_custom_attribute_yields) (simp_all add: kept)

lemma add_custom_attributes_yields:
  "refers_ok mb \<Longrightarrow> token_ok mb parent \<Longrightarrow> yields (\<lambda>mb. mb) mb (add_custom_attributes asm parent attrs mb) (\<lambda>_. True)"
proof (induction attrs arbitrary: mb)
  case (Cons a attrs)
  then show ?case
    unfolding add_custom_attributes.simps
    by (intro yields_bind2 [OF add_custom_attribute_yields] Cons.IH) (simp_all add: kept)
qed (simp add: yields_def)

lemma token_for_sequence_yields:
  assumes "refers_ok mb"
  shows "yields snd mb (token_for_sequence m sequence mb) (\<lambda>(t, mb'). token_ok mb' t)"
  unfolding token_for_sequence_def
  using assms by (intro yields_option yields_if push_param_yields yields_row) (simp_all add: kept)

lemma add_parameter_attributes_yields:
  "refers_ok mb \<Longrightarrow> yields (\<lambda>mb. mb) mb (add_parameter_attributes asm m i attrss mb) (\<lambda>_. True)"
proof (induction attrss arbitrary: i mb)
  case (Cons attrs rest)
  then show ?case
    unfolding add_parameter_attributes.simps
    by (intro yields_if yields_bind2 [OF token_for_sequence_yields] yields_bind1 [OF add_custom_attributes_yields] Cons.IH)
      (simp_all add: kept)
qed (simp add: yields_def)

lemma add_method_custom_attributes_yields:
  assumes "refers_ok mb" "token_ok mb m"
  shows "yields (\<lambda>mb. mb) mb (add_method_custom_attributes asm m ma ra pa mb) (\<lambda>_. True)"
proof -
  have ret: "yields (\<lambda>mb. mb) mb' (if ra = [] then Inr mb' else rbind (token_for_sequence m 0 mb') (\<lambda>(p, mb). add_custom_attributes asm p ra mb)) (\<lambda>_. True)"
    if "refers_ok mb'" for mb'
    using that by (intro yields_if yields_builder yields_bind2 [OF token_for_sequence_yields] add_custom_attributes_yields) simp_all
  show ?thesis
    unfolding add_method_custom_attributes_def
    using assms by (intro yields_if yields_bind1 [OF add_custom_attributes_yields] yields_bind1 [OF ret] add_parameter_attributes_yields)
      (simp_all add: kept)
qed

section \<open>Module and assembly\<close>

lemma guids_ok:
  assumes "refers_ok mb" "guid_push g (mb_guids mb) = Inr (i, h)"
  shows "grows mb (mb\<lparr>mb_guids := h\<rparr>)" "refers_ok (mb\<lparr>mb_guids := h\<rparr>)" "unat i \<le> length (g_data h) div 16"
proof -
  have h: "h = mb_guids mb\<lparr>g_data := g_data (mb_guids mb) @ g\<rparr>" "unat i \<le> length (g_data h) div 16"
    using assms(2) by (auto simp: guid_push_def Let_def rbind_eq_Inr try_u32_def unat_of_nat take_bit_nat_eq_self_iff split: if_splits)
  show g: "grows mb (mb\<lparr>mb_guids := h\<rparr>)" by (simp add: grows_def h(1) ref_tables_def)
  show "refers_ok (mb\<lparr>mb_guids := h\<rparr>)"
    by (rule refers_ok_rows [OF assms(1) g]) (simp_all add: rows_step_def raw_contents_def)
  show "unat i \<le> length (g_data h) div 16" by (rule h(2))
qed

end
