(* ===== verification/TableSpecs.thy ===== *)
theory TableSpecs
  imports TableRefs
begin

text \<open>
  What the operations on the metadata tables promise beyond referential integrity: the blob of a custom attribute reads
  back, the events and the properties of a class stay one run each, and where the row of an attributed return value lands.
\<close>

section \<open>Custom attributes read back\<close>

text \<open>
  A reader of the blob of a custom attribute (ECMA-335 II.23.3), which knows the types of the constructor's parameters
  from its signature and finds the types of the named arguments in the blob.
\<close>

definition bytes_str :: "u8 list \<Rightarrow> string" where
  "bytes_str bs = map (\<lambda>b. char_of (unat b)) bs"

lemma bytes_str_str_bytes [simp]: "bytes_str (str_bytes s) = s"
proof -
  have "unat (of_char c :: u8) = of_char c" for c
  proof -
    have "unat (word_of_nat (of_char c) :: u8) = of_char c" by (intro word_of_nat_unat_lt) simp
    then show ?thesis by (simp add: of_char_def)
  qed
  then show ?thesis by (induction s) (simp_all add: bytes_str_def str_bytes_def)
qed

definition read_ser_string :: "u8 list \<Rightarrow> (string \<times> u8 list) option" where
  "read_ser_string bs =
     (case read_compressed_u32 bs of
        Some (n, rest) \<Rightarrow>
          if unat n \<le> length rest then Some (bytes_str (take (unat n) rest), drop (unat n) rest) else None
      | None \<Rightarrow> None)"

definition read_word :: "nat \<Rightarrow> u8 list \<Rightarrow> ('a::len word \<times> u8 list) option" where
  "read_word n bs = (if n \<le> length bs then Some (of_le (take n bs), drop n bs) else None)"

definition read_fixed_arg :: "u8 \<Rightarrow> u8 list \<Rightarrow> (custom_attr_arg \<times> u8 list) option" where
  "read_fixed_arg kind bs =
     (if kind = 0x0E then map_option (apfst AStr) (read_ser_string bs)
      else if kind = 0x02 then
        (case bs of b # rest \<Rightarrow> if b = 0 then Some (ABool False, rest) else if b = 1 then Some (ABool True, rest) else None
         | [] \<Rightarrow> None)
      else if kind = 0x05 then map_option (apfst AU8) (read_word 1 bs)
      else if kind = 0x08 then map_option (apfst AI32) (read_word 4 bs)
      else if kind = 0x0A then map_option (apfst AI64) (read_word 8 bs)
      else None)"

fun read_fixed_args :: "u8 list \<Rightarrow> u8 list \<Rightarrow> (custom_attr_arg list \<times> u8 list) option" where
  "read_fixed_args [] bs = Some ([], bs)"
| "read_fixed_args (k # ks) bs =
     (case read_fixed_arg k bs of
        Some (a, bs) \<Rightarrow> map_option (apfst ((#) a)) (read_fixed_args ks bs)
      | None \<Rightarrow> None)"

definition read_named_arg :: "u8 list \<Rightarrow> (custom_attr_named_arg \<times> u8 list) option" where
  "read_named_arg bs =
     (case bs of
        tag # kind # rest \<Rightarrow>
          (case (if tag = 0x53 then Some AField else if tag = 0x54 then Some AProperty else None, read_ser_string rest) of
             (Some k, Some (name, rest)) \<Rightarrow>
               map_option (apfst (\<lambda>v. \<lparr>na_name = name, na_value = v, na_kind = k\<rparr>)) (read_fixed_arg kind rest)
           | _ \<Rightarrow> None)
      | _ \<Rightarrow> None)"

fun read_named_args :: "nat \<Rightarrow> u8 list \<Rightarrow> (custom_attr_named_arg list \<times> u8 list) option" where
  "read_named_args 0 bs = Some ([], bs)"
| "read_named_args (Suc n) bs =
     (case read_named_arg bs of
        Some (a, bs) \<Rightarrow> map_option (apfst ((#) a)) (read_named_args n bs)
      | None \<Rightarrow> None)"

definition read_custom_attr :: "u8 list \<Rightarrow> u8 list \<Rightarrow> (custom_attr_arg list \<times> custom_attr_named_arg list \<times> u8 list) option" where
  "read_custom_attr kinds bs =
     (case read_word 2 bs of
        Some (prolog, bs) \<Rightarrow>
          if (prolog :: u16) \<noteq> 1 then None
          else (case read_fixed_args kinds bs of
            Some (args, bs) \<Rightarrow>
              (case read_word 2 bs of
                 Some (n, bs) \<Rightarrow> map_option (Pair args) (read_named_args (unat (n :: u16)) bs)
               | None \<Rightarrow> None)
          | None \<Rightarrow> None)
      | None \<Rightarrow> None)"

text \<open>\<open>written enc out bs\<close>: the encoder appended \<open>bs\<close>.\<close>

lemma read_word_le [simp]: "LENGTH('a::len) \<le> 8 * n \<Longrightarrow> read_word n (le_bytes n (w :: 'a word) @ rest) = Some (w, rest)"
  by (simp add: read_word_def)

lemma write_ser_string_reads:
  assumes "write_ser_string out s = Inr out'"
  shows "\<exists>bs. out' = out @ bs \<and> (\<forall>rest. read_ser_string (bs @ rest) = Some (s, rest))"
proof -
  obtain n where n: "try_u32 ItemTooLarge (length s) = Inr n" and w: "rbind (map_sum TableHeap id (write_compressed_u32 out n)) (\<lambda>out. Inr (out @ str_bytes s)) = Inr out'"
    using assms by (auto simp: write_ser_string_def rbind_eq_Inr map_sum_Inr)
  obtain enc where enc: "write_compressed_u32 [] n = Inr enc" "out' = out @ enc @ str_bytes s"
    using w by (cases "write_compressed_u32 [] n") (auto simp: write_compressed_append [of out] rbind_eq_Inr)
  have l: "unat n = length (str_bytes s)" using n by (auto simp: try_u32_def str_bytes_def word_of_nat_unat_lt split: if_splits)
  have "read_ser_string ((enc @ str_bytes s) @ rest) = Some (s, rest)" for rest
    using read_write_compressed [OF enc(1), of "str_bytes s @ rest"] l by (simp add: read_ser_string_def)
  then show ?thesis using enc(2) by auto
qed

lemma fixed_arg_reads:
  assumes "encode_custom_attr_fixed_arg out a = Inr out'"
  shows "\<exists>bs. out' = out @ bs \<and> (\<forall>rest. read_fixed_arg (arg_kind a) (bs @ rest) = Some (a, rest))"
proof (cases a)
  case (AStr s)
  then show ?thesis using assms write_ser_string_reads [of out s out'] by (fastforce simp: read_fixed_arg_def)
next
  case (AU8 v)
  have "read_word 1 (v # rest) = Some (v, rest)" for rest by (simp add: read_word_def)
  then show ?thesis using assms AU8 by (auto simp: read_fixed_arg_def)
qed (use assms in \<open>auto simp: read_fixed_arg_def\<close>)

lemma fixed_args_read:
  "encode_fixed_args out args = Inr out' \<Longrightarrow>
    \<exists>bs. out' = out @ bs \<and> (\<forall>rest. read_fixed_args (map arg_kind args) (bs @ rest) = Some (args, rest))"
proof (induction args arbitrary: out)
  case (Cons a args)
  then obtain out1 where 1: "encode_custom_attr_fixed_arg out a = Inr out1" "encode_fixed_args out1 args = Inr out'"
    by (auto simp: rbind_eq_Inr)
  obtain b1 where b1: "out1 = out @ b1" "\<And>rest. read_fixed_arg (arg_kind a) (b1 @ rest) = Some (a, rest)"
    using fixed_arg_reads [OF 1(1)] by blast
  obtain b2 where b2: "out' = out1 @ b2" "\<And>rest. read_fixed_args (map arg_kind args) (b2 @ rest) = Some (args, rest)"
    using Cons.IH [OF 1(2)] by blast
  show ?case by (rule exI [of _ "b1 @ b2"]) (simp add: b1 b2)
qed simp

lemma named_args_read:
  "encode_named_args out named = Inr out' \<Longrightarrow>
    \<exists>bs. out' = out @ bs \<and> (\<forall>rest. read_named_args (length named) (bs @ rest) = Some (named, rest))"
proof (induction named arbitrary: out)
  case (Cons a named)
  let ?tag = "(case na_kind a of AField \<Rightarrow> 0x53 | AProperty \<Rightarrow> 0x54) :: u8"
  obtain out1 out2 where 1: "write_ser_string (out @ [?tag, arg_kind (na_value a)]) (na_name a) = Inr out1"
      "encode_custom_attr_fixed_arg out1 (na_value a) = Inr out2" "encode_named_args out2 named = Inr out'"
    using Cons.prems by (auto simp: rbind_eq_Inr)
  obtain b1 where b1: "out1 = (out @ [?tag, arg_kind (na_value a)]) @ b1" "\<And>rest. read_ser_string (b1 @ rest) = Some (na_name a, rest)"
    using write_ser_string_reads [OF 1(1)] by blast
  obtain b2 where b2: "out2 = out1 @ b2" "\<And>rest. read_fixed_arg (arg_kind (na_value a)) (b2 @ rest) = Some (na_value a, rest)"
    using fixed_arg_reads [OF 1(2)] by blast
  obtain b3 where b3: "out' = out2 @ b3" "\<And>rest. read_named_args (length named) (b3 @ rest) = Some (named, rest)"
    using Cons.IH [OF 1(3)] by blast
  have "read_named_arg (?tag # arg_kind (na_value a) # b1 @ b2 @ rest) = Some (a, rest)" for rest
    by (cases "na_kind a") (simp_all add: read_named_arg_def b1 b2)
  then show ?case by (intro exI [of _ "?tag # arg_kind (na_value a) # b1 @ b2 @ b3"]) (simp add: b1 b2 b3)
qed simp

text \<open>
  C16. The blob of a custom attribute, read by the rules of the standard with the parameter types that the constructor's
  signature names, gives back the constructor arguments and the named arguments, and nothing is left over.
\<close>

theorem custom_attribute_round_trip:
  assumes "encode_custom_attr attr = Inr blob"
  shows "read_custom_attr (map arg_kind (at_ctor_args attr)) (blob @ rest) = Some (at_ctor_args attr, at_named_args attr, rest)"
proof -
  let ?n = "length (at_named_args attr)"
  obtain b1 where b1: "encode_fixed_args (le_bytes 2 (1 :: u16)) (at_ctor_args attr) = Inr b1" and n: "?n < 2 ^ 16"
      and b: "encode_named_args (b1 @ le_bytes 2 (word_of_nat ?n :: u16)) (at_named_args attr) = Inr blob"
    using assms by (auto simp: encode_custom_attr_def rbind_eq_Inr not_le split: if_splits)
  obtain c1 where c1: "b1 = le_bytes 2 (1 :: u16) @ c1"
      "\<And>rest. read_fixed_args (map arg_kind (at_ctor_args attr)) (c1 @ rest) = Some (at_ctor_args attr, rest)"
    using fixed_args_read [OF b1] by blast
  obtain c2 where c2: "blob = (b1 @ le_bytes 2 (word_of_nat ?n :: u16)) @ c2"
      "\<And>rest. read_named_args ?n (c2 @ rest) = Some (at_named_args attr, rest)"
    using named_args_read [OF b] by blast
  have "unat (word_of_nat ?n :: u16) = ?n" using n by (intro word_of_nat_unat_lt) simp
  then show ?thesis
    unfolding read_custom_attr_def c2(1) c1(1) by (simp add: c1(2) c2(2))
qed

lemma le_bytes_num: "le_bytes (numeral k) w = ucast w # le_bytes (pred_numeral k) (drop_bit 8 w)"
  by (simp add: numeral_eq_Suc)

theorem custom_attribute_round_trip_witness:
  "read_custom_attr [0x0E, 0x08] [1, 0, 2, 104, 105, 7, 0, 0, 0, 1, 0, 0x54, 2, 1, 120, 1] =
    Some ([AStr ''hi'', AI32 7], [\<lparr>na_name = ''x'', na_value = ABool True, na_kind = AProperty\<rparr>], [])"
proof -
  let ?attr = "\<lparr>at_type = ClassRef ''A'' None False [], at_ctor_args = [AStr ''hi'', AI32 7],
    at_named_args = [\<lparr>na_name = ''x'', na_value = ABool True, na_kind = AProperty\<rparr>]\<rparr>"
  have "encode_custom_attr ?attr = Inr [1, 0, 2, 104, 105, 7, 0, 0, 0, 1, 0, 0x54, 2, 1, 120, 1]"
    by (simp add: encode_custom_attr_def write_ser_string_def try_u32_def write_compressed_u32_def str_bytes_def le_bytes_num)
  from custom_attribute_round_trip [OF this, of "[]"] show ?thesis by simp
qed

section \<open>Runs of events and properties\<close>

text \<open>
  An \<^verbatim>\<open>EventMap\<close> or \<^verbatim>\<open>PropertyMap\<close> row names a class and the first row of its run; the run ends where the next one
  starts (II.22.12, II.22.35). \<open>run_owner\<close> is the class a row belongs to by that rule.
\<close>

definition run_owner :: "(u32 \<times> u32) list \<Rightarrow> nat \<Rightarrow> u32 option" where
  "run_owner rs i = map_option fst (List.find (\<lambda>(_, s). unat s \<le> i) (rev rs))"

definition run_owners :: "(u32 \<times> u32) list \<Rightarrow> nat \<Rightarrow> u32 option list" where
  "run_owners rs n = map (\<lambda>i. run_owner rs (Suc i)) [0..<n]"

definition runs_ok :: "(u32 \<times> u32) list \<Rightarrow> nat \<Rightarrow> bool" where
  "runs_ok rs n \<longleftrightarrow> distinct (map fst rs) \<and> sorted_wrt (\<lambda>a b. unat (snd a) < unat (snd b)) rs
     \<and> (\<forall>r\<in>set rs. 1 \<le> unat (snd r) \<and> unat (snd r) \<le> n) \<and> (0 < n \<longrightarrow> rs \<noteq> [])"

definition event_runs :: "metadata_builder \<Rightarrow> (u32 \<times> u32) list" where
  "event_runs mb = map (\<lambda>r. (em_parent r, em_event_list r)) (mb_event_map mb)"

definition property_runs :: "metadata_builder \<Rightarrow> (u32 \<times> u32) list" where
  "property_runs mb = map (\<lambda>r. (pm_parent r, pm_property_list r)) (mb_property_map mb)"

lemma run_owner_snoc: "run_owner (rs @ [(p, s)]) i = (if unat s \<le> i then Some p else run_owner rs i)"
  by (simp add: run_owner_def)

lemma run_owner_last:
  assumes "runs_ok rs n" "rs \<noteq> []" "n \<le> i"
  shows "run_owner rs i = Some (fst (last rs))"
proof -
  obtain rs' p s where rs: "rs = rs' @ [(p, s)]" using assms(2) by (metis rev_exhaust surj_pair)
  then show ?thesis using assms(1,3) by (simp add: run_owner_snoc runs_ok_def)
qed

lemma run_owner_start:
  "sorted_wrt (\<lambda>a b. unat (snd a) < unat (snd b)) rs \<Longrightarrow> r \<in> set rs \<Longrightarrow> run_owner rs (unat (snd r)) = Some (fst r)"
proof (induction rs rule: rev_induct)
  case (snoc x rs)
  then show ?case by (cases x) (auto simp: run_owner_snoc sorted_wrt_append)
qed simp

lemma run_owners_cover:
  assumes "runs_ok rs n"
  shows "p \<in> fst ` set rs \<longleftrightarrow> Some p \<in> set (run_owners rs n)"
proof
  assume "p \<in> fst ` set rs"
  then obtain s where s: "(p, s) \<in> set rs" by auto
  then have "run_owner rs (unat s) = Some p" "1 \<le> unat s" "unat s \<le> n"
    using assms run_owner_start [of rs "(p, s)"] by (auto simp: runs_ok_def)
  then have "Some p = run_owner rs (Suc (unat s - 1))" "unat s - 1 \<in> set [0..<n]" by simp_all
  then show "Some p \<in> set (run_owners rs n)" by (simp only: run_owners_def set_map image_eqI)
next
  assume "Some p \<in> set (run_owners rs n)"
  then obtain i where "run_owner rs i = Some p" unfolding run_owners_def by fastforce
  then obtain r where "List.find (\<lambda>(_, s). unat s \<le> i) (rev rs) = Some r" "p = fst r" by (auto simp: run_owner_def)
  then show "p \<in> fst ` set rs" by (metis find_Some_iff image_eqI nth_mem set_rev)
qed

text \<open>One more row for the class \<open>cls\<close>: its run is the open one, or it has none and one is opened.\<close>

lemma runs_extended:
  assumes ok: "runs_ok rs n"
    and step: "if cls \<in> fst ` set rs then fst (last rs) = cls \<and> rs' = rs else rs' = rs @ [(cls, next)] \<and> unat next = Suc n"
  shows "runs_ok rs' (Suc n)" "run_owners rs' (Suc n) = run_owners rs n @ [Some cls]"
proof -
  have "runs_ok rs' (Suc n) \<and> run_owners rs' (Suc n) = run_owners rs n @ [Some cls]"
  proof (cases "cls \<in> fst ` set rs")
    case True
    then have r: "rs' = rs" "fst (last rs) = cls" "rs \<noteq> []" using step by auto
    then show ?thesis using ok run_owner_last [OF ok r(3), of "Suc n"] by (auto simp: runs_ok_def run_owners_def)
  next
    case False
    then have r: "rs' = rs @ [(cls, next)]" "unat next = Suc n" using step by auto
    have "runs_ok rs' (Suc n)"
      using ok False r by (auto simp: runs_ok_def sorted_wrt_append less_Suc_eq_le)
    moreover have "run_owner rs' (Suc i) = run_owner rs (Suc i)" if "i < n" for i using that r by (simp add: run_owner_snoc)
    ultimately show ?thesis using r by (simp add: run_owners_def run_owner_snoc)
  qed
  then show "runs_ok rs' (Suc n)" "run_owners rs' (Suc n) = run_owners rs n @ [Some cls]" by simp_all
qed

lemma special_name_frame:
  assumes "mark_method_special_name tok mb = Inr mb'"
  shows "mb_event_map mb' = mb_event_map mb" "mb_event mb' = mb_event mb"
    "mb_property_map mb' = mb_property_map mb" "mb_property mb' = mb_property mb"
  using assms by (auto simp: mark_method_special_name_def update_method_def_def rbind_eq_Inr)

lemma intern_string_frame:
  assumes "mb_intern_string s mb = Inr (off, mb')"
  shows "mb_event_map mb' = mb_event_map mb" "mb_event mb' = mb_event mb"
    "mb_property_map mb' = mb_property_map mb" "mb_property mb' = mb_property mb"
  using assms by (auto simp: mb_intern_string_def rbind_eq_Inr)

lemma open_event_run_step:
  assumes "open_event_run cls mb = Inr mb'"
  shows "if cls \<in> fst ` set (event_runs mb) then fst (last (event_runs mb)) = cls \<and> event_runs mb' = event_runs mb
      else \<exists>next. event_runs mb' = event_runs mb @ [(cls, next)] \<and> unat next = Suc (length (mb_event mb))"
    and "mb_event mb' = mb_event mb"
proof -
  obtain r where r: "row_id (length (mb_event mb) + 1) = Inr r" using assms by (auto simp: open_event_run_def rbind_eq_Inr)
  then have u: "unat r = Suc (length (mb_event mb))" by (simp add: row_id_unat)
  have e: "list_ex (\<lambda>r. em_parent r = cls) (mb_event_map mb) \<longleftrightarrow> cls \<in> fst ` set (event_runs mb)"
    by (auto simp: event_runs_def list_ex_iff image_iff)
  have l: "map_option em_parent (nth_opt (rev (mb_event_map mb)) 0) = Some cls \<Longrightarrow> fst (last (event_runs mb)) = cls"
    by (cases "mb_event_map mb" rule: rev_cases) (auto simp: event_runs_def nth_opt_def)
  show "if cls \<in> fst ` set (event_runs mb) then fst (last (event_runs mb)) = cls \<and> event_runs mb' = event_runs mb
      else \<exists>next. event_runs mb' = event_runs mb @ [(cls, next)] \<and> unat next = Suc (length (mb_event mb))"
    using assms r u e l by (auto simp: open_event_run_def event_runs_def split: if_splits)
  show "mb_event mb' = mb_event mb" using assms r by (auto simp: open_event_run_def split: if_splits)
qed

lemma open_property_run_step:
  assumes "open_property_run cls mb = Inr mb'"
  shows "if cls \<in> fst ` set (property_runs mb) then fst (last (property_runs mb)) = cls \<and> property_runs mb' = property_runs mb
      else \<exists>next. property_runs mb' = property_runs mb @ [(cls, next)] \<and> unat next = Suc (length (mb_property mb))"
    and "mb_property mb' = mb_property mb"
proof -
  obtain r where r: "row_id (length (mb_property mb) + 1) = Inr r" using assms by (auto simp: open_property_run_def rbind_eq_Inr)
  then have u: "unat r = Suc (length (mb_property mb))" by (simp add: row_id_unat)
  have e: "list_ex (\<lambda>r. pm_parent r = cls) (mb_property_map mb) \<longleftrightarrow> cls \<in> fst ` set (property_runs mb)"
    by (auto simp: property_runs_def list_ex_iff image_iff)
  have l: "map_option pm_parent (nth_opt (rev (mb_property_map mb)) 0) = Some cls \<Longrightarrow> fst (last (property_runs mb)) = cls"
    by (cases "mb_property_map mb" rule: rev_cases) (auto simp: property_runs_def nth_opt_def)
  show "if cls \<in> fst ` set (property_runs mb) then fst (last (property_runs mb)) = cls \<and> property_runs mb' = property_runs mb
      else \<exists>next. property_runs mb' = property_runs mb @ [(cls, next)] \<and> unat next = Suc (length (mb_property mb))"
    using assms r u e l by (auto simp: open_property_run_def property_runs_def split: if_splits)
  show "mb_property mb' = mb_property mb" using assms r by (auto simp: open_property_run_def split: if_splits)
qed
text \<open>
  What the two operations promise, on the list of the classes that own the rows: one more row for the class, unless its
  rows would no longer be consecutive.
\<close>

definition owners_step :: "u32 option list \<Rightarrow> u32 \<Rightarrow> u32 option list option" where
  "owners_step owners cls =
     (if Some cls \<in> set owners \<and> last owners \<noteq> Some cls then None else Some (owners @ [Some cls]))"

definition event_owners :: "metadata_builder \<Rightarrow> u32 option list" where
  "event_owners mb = run_owners (event_runs mb) (length (mb_event mb))"

definition property_owners :: "metadata_builder \<Rightarrow> u32 option list" where
  "property_owners mb = run_owners (property_runs mb) (length (mb_property mb))"

lemma runs_refined:
  assumes ok: "runs_ok rs n"
    and step: "if cls \<in> fst ` set rs then fst (last rs) = cls \<and> rs' = rs else \<exists>next. rs' = rs @ [(cls, next)] \<and> unat next = Suc n"
  shows "runs_ok rs' (Suc n) \<and> owners_step (run_owners rs n) cls = Some (run_owners rs' (Suc n))"
proof -
  have "\<exists>next. if cls \<in> fst ` set rs then fst (last rs) = cls \<and> rs' = rs else rs' = rs @ [(cls, next)] \<and> unat next = Suc n"
    using step by (simp split: if_splits)
  then obtain "next" where e: "runs_ok rs' (Suc n)" "run_owners rs' (Suc n) = run_owners rs n @ [Some cls]"
    using runs_extended [OF ok, of cls rs'] by blast
  have "last (run_owners rs n) = Some cls" if c: "Some cls \<in> set (run_owners rs n)"
  proof -
    have m: "cls \<in> fst ` set rs" using run_owners_cover [OF ok] c by simp
    then have "fst (last rs) = cls" "rs \<noteq> []" using step by auto
    moreover from this have "0 < n" using ok by (cases rs) (auto simp: runs_ok_def)
    ultimately show ?thesis using run_owner_last [OF ok, of n] by (simp add: run_owners_def last_map)
  qed
  then show ?thesis using e by (auto simp: owners_step_def)
qed

lemma push_event_frame: "push_event off et add remove mb = Inr mb' \<Longrightarrow> mb_event_map mb' = mb_event_map mb \<and> length (mb_event mb') = Suc (length (mb_event mb))"
  by (auto simp: push_event_def push_semantics_def rbind_eq_Inr Let_def)

lemma semantics_if_frame_runs:
  "mb_property_map (semantics_if sem a v mb) = mb_property_map mb" "mb_property (semantics_if sem a v mb) = mb_property mb"
  by (cases a; simp add: semantics_if_def push_semantics_def)+

lemma push_property_frame:
  "push_property off sg g st mb = Inr (t, mb') \<Longrightarrow> mb_property_map mb' = mb_property_map mb \<and> length (mb_property mb') = Suc (length (mb_property mb))"
  by (auto simp: push_property_def rbind_eq_Inr Let_def semantics_if_frame_runs)

lemma special_name_if_frame:
  "special_name_if a mb = Inr mb' \<Longrightarrow> mb_property_map mb' = mb_property_map mb \<and> mb_property mb' = mb_property mb"
  by (cases a) (auto simp: special_name_if_def dest: special_name_frame)

text \<open>
  C9. The events and the properties of a class stay one run each: read by the rule of the standard, the maps attribute
  every row to the class it was added for, and the operations refine appending the class to the list of owners, which is
  refused when its rows would not be consecutive.
\<close>

theorem runs_refine_owners:
  "(runs_ok (event_runs mb) (length (mb_event mb)) \<longrightarrow> add_event cls name et add remove mb = Inr mb' \<longrightarrow>
      runs_ok (event_runs mb') (length (mb_event mb')) \<and> owners_step (event_owners mb) (token_rid cls) = Some (event_owners mb'))
   \<and> (runs_ok (property_runs mb) (length (mb_property mb)) \<longrightarrow> add_property cls name sg getter setter mb = Inr (t, mb') \<longrightarrow>
      runs_ok (property_runs mb') (length (mb_property mb'))
      \<and> owners_step (property_owners mb) (token_rid cls) = Some (property_owners mb'))"
proof (rule conjI; intro impI)
  assume ok: "runs_ok (event_runs mb) (length (mb_event mb))" and "add_event cls name et add remove mb = Inr mb'"
  then obtain mb1 mb2 mb3 off mb4 where m: "mark_method_special_name add mb = Inr mb1" "mark_method_special_name remove mb1 = Inr mb2"
      "open_event_run (token_rid cls) mb2 = Inr mb3" "mb_intern_string name mb3 = Inr (off, mb4)" "push_event off et add remove mb4 = Inr mb'"
    by (auto simp: add_event_def rbind_eq_Inr split: if_splits)
  have f: "event_runs mb2 = event_runs mb" "length (mb_event mb2) = length (mb_event mb)"
    using special_name_frame [OF m(1)] special_name_frame [OF m(2)] by (simp_all add: event_runs_def)
  have g: "event_runs mb' = event_runs mb3" "length (mb_event mb') = Suc (length (mb_event mb))"
    using intern_string_frame [OF m(4)] push_event_frame [OF m(5)] open_event_run_step(2) [OF m(3)] f by (simp_all add: event_runs_def)
  show "runs_ok (event_runs mb') (length (mb_event mb')) \<and> owners_step (event_owners mb) (token_rid cls) = Some (event_owners mb')"
    using runs_refined [OF ok open_event_run_step(1) [OF m(3), unfolded f]] g by (simp add: event_owners_def)
next
  assume ok: "runs_ok (property_runs mb) (length (mb_property mb))" and "add_property cls name sg getter setter mb = Inr (t, mb')"
  then obtain mb1 mb2 mb3 off mb4 where m: "special_name_if getter mb = Inr mb1" "special_name_if setter mb1 = Inr mb2"
      "open_property_run (token_rid cls) mb2 = Inr mb3" "mb_intern_string name mb3 = Inr (off, mb4)" "push_property off sg getter setter mb4 = Inr (t, mb')"
    by (auto simp: add_property_def rbind_eq_Inr split: if_splits)
  have f: "property_runs mb2 = property_runs mb" "length (mb_property mb2) = length (mb_property mb)"
    using special_name_if_frame [OF m(1)] special_name_if_frame [OF m(2)] by (simp_all add: property_runs_def)
  have g: "property_runs mb' = property_runs mb3" "length (mb_property mb') = Suc (length (mb_property mb))"
    using intern_string_frame [OF m(4)] push_property_frame [OF m(5)] open_property_run_step(2) [OF m(3)] f by (simp_all add: property_runs_def)
  show "runs_ok (property_runs mb') (length (mb_property mb'))
      \<and> owners_step (property_owners mb) (token_rid cls) = Some (property_owners mb')"
    using runs_refined [OF ok open_property_run_step(1) [OF m(3), unfolded f]] g by (simp add: property_owners_def)
qed

definition two_methods :: metadata_builder where
  "two_methods = mb_default\<lparr>mb_method_def :=
     [\<lparr>mdf_rva = 0, mdf_impl_flags = 0, mdf_flags = 0x6, mdf_name = 0, mdf_signature = 0, mdf_param_list = 1\<rparr>,
      \<lparr>mdf_rva = 0, mdf_impl_flags = 0, mdf_flags = 0x6, mdf_name = 0, mdf_signature = 0, mdf_param_list = 1\<rparr>]\<rparr>"

lemma two_methods_event: "\<exists>mb'. add_event (token_new TABLE_TYPE_DEF 1) ''E'' (token_new TABLE_TYPE_REF 1)
    (token_new TABLE_METHOD_DEF 1) (token_new TABLE_METHOD_DEF 2) two_methods = Inr mb' \<and> event_owners mb' = [Some 1]"
  by (simp add: add_event_def token_new_def token_table_def token_rid_def mark_method_special_name_def update_method_def_def row_index_def update_row_def two_methods_def
    open_event_run_def row_id_def mb_intern_string_def strings_intern_def mb_default_def heap_defaults try_u32_def str_bytes_def push_event_def encode_type_def_or_ref_token_def coded_def
    encode_has_semantics_def push_semantics_def event_owners_def run_owners_def run_owner_def event_runs_def)

theorem runs_refine_owners_witness:
  "\<exists>mb'. add_event (token_new TABLE_TYPE_DEF 1) ''E'' (token_new TABLE_TYPE_REF 1)
      (token_new TABLE_METHOD_DEF 1) (token_new TABLE_METHOD_DEF 2) two_methods = Inr mb'
    \<and> owners_step (event_owners two_methods) 1 = Some (event_owners mb')"
proof -
  obtain mb' where m: "add_event (token_new TABLE_TYPE_DEF 1) ''E'' (token_new TABLE_TYPE_REF 1)
      (token_new TABLE_METHOD_DEF 1) (token_new TABLE_METHOD_DEF 2) two_methods = Inr mb'" using two_methods_event by blast
  have "runs_ok (event_runs two_methods) (length (mb_event two_methods))"
    by (simp add: runs_ok_def event_runs_def two_methods_def mb_default_def)
  from runs_refine_owners [THEN conjunct1, rule_format, OF this m] m show ?thesis by (simp add: token_rid_new)
qed

section \<open>The parameter row of an attributed return value\<close>

text \<open>
  A static method with one parameter and an attribute on its return value: the row of the return value (sequence 0)
  follows that of the parameter, while the rows of a method are to be ordered by sequence (II.22.33).
\<close>

lemma return_param_last:
  "\<exists>tok mb mb'. add_method ''m'' 0 [Some ''a''] [] True False False None False None mb_default = Inr (tok, mb)
    \<and> add_method_custom_attributes empty_assembly tok []
         [\<lparr>at_type = ClassRef ''T'' (Some ''C'') False [], at_ctor_args = [], at_named_args = []\<rparr>] [] mb = Inr mb'
    \<and> map pa_sequence (mb_param mb') = [1, 0]"
  by (simp add: add_method_def add_method_with_access_def push_method_def push_param_def nullable_if_def row_id_def
      add_method_custom_attributes_def token_for_sequence_def add_custom_attribute_def class_ref_token_def
      intern_ctor_sig_def encode_custom_attr_def push_custom_attribute_def encode_has_custom_attribute_def encode_custom_attribute_type_def
      member_ref_def encode_member_ref_parent_def decode_type_def_or_ref_def le_bytes_num
      Let_def mb_default_def type_def_or_ref_def resolve_class_token_def unity_legacy_128_token_def empty_assembly_def
      write_compressed_u32_def try_u32_def find_open_generic_def_def resolve_external_def type_ref_def
      encode_resolution_scope_def split_namespace_def find_or_create_assembly_ref_def assembly_ref_def
      mb_intern_string_def mb_intern_blob_def strings_intern_def blob_intern_def str_bytes_def heap_defaults
      token_new_def encode_type_def_or_ref_token_def bcl_public_key_token_def coded_def token_table_def token_rid_def)

end
