(* ===== verification/TokenSink.thy ===== *)
theory TokenSink
  imports TableRefs BodyEmit
begin

text \<open>
  The metadata builder as the token sink of the emitter of method bodies: the second half of \<^verbatim>\<open>tables.rs\<close>, where
  methods, fields, types, strings and signatures become tokens, and the fields of constant buffers. The locale
  \<open>sink_contract\<close> states what the emitter relies on and proves that emitting a body keeps it; it is interpreted for the
  builder.
\<close>

section \<open>The builder as the token sink\<close>

text \<open>The scalar values of a UTF-8 string, \<^verbatim>\<open>str::chars\<close>; a Rust string is always well formed.\<close>

fun chars_of :: "nat list \<Rightarrow> nat list" where
  "chars_of [] = []"
| "chars_of (a # bs) =
     (if a < 0x80 then a # chars_of bs
      else case bs of [] \<Rightarrow> [] | b # bs \<Rightarrow>
        if a < 0xE0 then (a mod 0x20 * 0x40 + b mod 0x40) # chars_of bs
        else case bs of [] \<Rightarrow> [] | c # bs \<Rightarrow>
          if a < 0xF0 then (a mod 0x10 * 0x1000 + b mod 0x40 * 0x40 + c mod 0x40) # chars_of bs
          else case bs of [] \<Rightarrow> [] | d # bs \<Rightarrow>
            (a mod 0x08 * 0x40000 + b mod 0x40 * 0x1000 + c mod 0x40 * 0x40 + d mod 0x40) # chars_of bs)"

definition user_string_token :: "string \<Rightarrow> metadata_builder \<Rightarrow> (table_panic, token \<times> metadata_builder) result" where
  "user_string_token s mb =
     rbind (map_sum TableHeap id (user_string_intern (chars_of (map of_char s)) (mb_user_strings mb))) (\<lambda>(off, h).
     Inr (token_new TABLE_USER_STRING off, mb\<lparr>mb_user_strings := h\<rparr>))"

fun signed_native :: "cil_type \<Rightarrow> cil_type" where
  "signed_native (TInt U32) = TInt I32"
| "signed_native (TInt U64) = TInt I64"
| "signed_native (TInt USize) = TInt ISize"
| "signed_native (TRef (TInt U32)) = TRef (TInt I32)"
| "signed_native (TRef (TInt U64)) = TRef (TInt I64)"
| "signed_native (TRef (TInt USize)) = TRef (TInt ISize)"
| "signed_native (TPtr (TInt USize)) = TPtr (TInt ISize)"
| "signed_native t = t"

definition member_sig :: "dotnet_runtime \<Rightarrow> method_ref \<Rightarrow> fn_sig" where
  "member_sig rt m =
     (if rt = UnityNetStandard21 \<and> cr_name (mref_class m) = ''System.Threading.Interlocked''
      then FnSig (map signed_native (sig_inputs (mref_sig m))) (signed_native (sig_output (mref_sig m)))
      else mref_sig m)"

text \<open>The stored signature of an instance method has its receiver first, which a member reference leaves out.\<close>

definition without_receiver :: "method_kind \<Rightarrow> fn_sig \<Rightarrow> (table_panic, fn_sig) result" where
  "without_receiver kind sig =
     (if kind = MStatic then Inr sig
      else case sig_inputs sig of [] \<Rightarrow> Inl NoReceiver | _ # ts \<Rightarrow> Inr (FnSig ts (sig_output sig)))"

definition method_base_token ::
  "'a assembly_scheme \<Rightarrow> method_ref \<Rightarrow> metadata_builder \<Rightarrow> (table_panic, token \<times> metadata_builder) result" where
  "method_base_token asm m mb =
     (case mb_method_def_cache mb m of
        Some tok \<Rightarrow> Inr (tok, mb)
      | None \<Rightarrow>
          rbind (class_ref_token asm (mref_class m) mb) (\<lambda>(class_tok, mb).
          let convention = (if mref_kind m = MStatic then SIG_DEFAULT else SIG_HASTHIS) in
          rbind (if mref_generics m = [] then Inr (convention, 0)
                 else rbind (map_sum TableHeap id (try_u32 ItemTooLarge (length (mref_generics m)))) (\<lambda>n.
                   Inr (convention OR SIG_GENERIC, n))) (\<lambda>(convention, generic_param_count).
          rbind (without_receiver (mref_kind m) (member_sig (mb_runtime mb) m)) (\<lambda>sig.
          rbind (map_sum TableSig id (encode_method_sig (mb_resolver asm) convention generic_param_count sig mb [])) (\<lambda>(mb, blob).
          rbind (mb_intern_blob blob mb) (\<lambda>(sig_off, mb).
          member_ref class_tok (mref_name m) sig_off mb))))))"

definition method_token ::
  "'a assembly_scheme \<Rightarrow> method_ref \<Rightarrow> metadata_builder \<Rightarrow> (table_panic, token \<times> metadata_builder) result" where
  "method_token asm m mb =
     rbind (method_base_token asm m mb) (\<lambda>(base, mb).
     if mref_generics m = [] then Inr (base, mb)
     else rbind (map_sum TableSig id (encode_method_spec_sig (mb_resolver asm) (mref_generics m) mb [])) (\<lambda>(mb, blob).
       rbind (mb_intern_blob blob mb) (\<lambda>(inst_off, mb). method_spec base inst_off mb)))"

definition field_def_token :: "token \<Rightarrow> u32 \<Rightarrow> u32 \<Rightarrow> metadata_builder \<Rightarrow> token option" where
  "field_def_token owner name_offset signature_offset mb = mb_field_def_cache mb (owner, name_offset, signature_offset)"

definition field_like_token ::
  "'a assembly_scheme \<Rightarrow> class_ref \<Rightarrow> string \<Rightarrow> cil_type \<Rightarrow> metadata_builder \<Rightarrow> (table_panic, token \<times> metadata_builder) result" where
  "field_like_token asm owner name t mb =
     rbind (map_sum TableSig id (encode_field_sig (mb_resolver asm) t mb [])) (\<lambda>(mb, blob).
     rbind (mb_intern_blob blob mb) (\<lambda>(sig_off, mb).
     rbind (if class_defs asm owner \<noteq> None then
              rbind (class_ref_token asm owner mb) (\<lambda>(owner_tok, mb).
              rbind (mb_intern_string name mb) (\<lambda>(name_offset, mb).
              Inr (field_def_token owner_tok name_offset sig_off mb, mb)))
            else Inr (None, mb)) (\<lambda>(found, mb).
     case found of
       Some tok \<Rightarrow> Inr (tok, mb)
     | None \<Rightarrow> rbind (class_ref_token asm owner mb) (\<lambda>(class_tok, mb). member_ref class_tok name sig_off mb))))"

definition field_token ::
  "'a assembly_scheme \<Rightarrow> field_desc \<Rightarrow> metadata_builder \<Rightarrow> (table_panic, token \<times> metadata_builder) result" where
  "field_token asm d = field_like_token asm (fd_owner d) (fd_name d) (fd_type d)"

definition static_field_token ::
  "'a assembly_scheme \<Rightarrow> static_field_desc \<Rightarrow> metadata_builder \<Rightarrow> (table_panic, token \<times> metadata_builder) result" where
  "static_field_token asm d = field_like_token asm (sfd_owner d) (sfd_name d) (sfd_type d)"

definition mb_calli_sig_token :: "string \<Rightarrow> u8 list \<Rightarrow> metadata_builder \<Rightarrow> (table_panic, token \<times> metadata_builder) result" where
  "mb_calli_sig_token semantic_key sig_blob mb =
     (case mb_calli_sig_cache mb semantic_key of
        Some tok \<Rightarrow> Inr (tok, mb)
      | None \<Rightarrow>
          rbind (mb_intern_blob sig_blob mb) (\<lambda>(off, mb).
          rbind (standalone_sig off mb) (\<lambda>(tok, mb).
          Inr (tok, mb\<lparr>mb_calli_sig_cache := (mb_calli_sig_cache mb)(semantic_key \<mapsto> tok)\<rparr>))))"

definition mb_locals_sig_token ::
  "'a assembly_scheme \<Rightarrow> cil_type list \<Rightarrow> metadata_builder \<Rightarrow> (table_panic, token \<times> metadata_builder) result" where
  "mb_locals_sig_token asm locals mb =
     (let semantic_key = map mangle locals in
      case mb_locals_sig_cache mb semantic_key of
        Some tok \<Rightarrow> Inr (tok, mb)
      | None \<Rightarrow>
          rbind (map_sum TableSig id (encode_locals_sig (mb_resolver asm) locals mb [])) (\<lambda>(mb, blob).
          rbind (mb_intern_blob blob mb) (\<lambda>(off, mb).
          rbind (standalone_sig off mb) (\<lambda>(tok, mb).
          Inr (tok, mb\<lparr>mb_locals_sig_cache := (mb_locals_sig_cache mb)(semantic_key \<mapsto> tok)\<rparr>)))))"

definition type_token ::
  "'a assembly_scheme \<Rightarrow> cil_type \<Rightarrow> metadata_builder \<Rightarrow> (table_panic, token \<times> metadata_builder) result" where
  "type_token asm t mb =
     (case t of
        TClassRef c \<Rightarrow> class_ref_token asm c mb
      | _ \<Rightarrow>
          rbind (map_sum TableSig id (encode_type (mb_resolver asm) t mb [])) (\<lambda>(mb, blob).
          rbind (mb_intern_blob blob mb) (\<lambda>(off, mb). type_spec off mb)))"

section \<open>Constant buffers\<close>

definition CHARS :: string where
  "CHARS = ''0123456789abcdefghijklmnoprstuwvxyzABCDEFGHIJKLMNOPRSTUWVXYZ_''"

function encode_index :: "nat \<Rightarrow> string" where
  "encode_index n = (if n = 0 then [] else CHARS ! (n mod length CHARS) # encode_index (n div length CHARS))"
  by pat_completeness auto
termination by (relation "measure id") (simp_all add: CHARS_def)

definition main_module_ref :: class_ref where
  "main_module_ref = ClassRef ''MainModule'' None False []"

text \<open>The static field that holds a constant buffer; \<open>buffer\<close> is the number the assembly interned it under.\<close>

definition const_blob_field :: "(u8 list \<Rightarrow> u64) \<Rightarrow> u8 list \<Rightarrow> static_field_desc" where
  "const_blob_field buffer data =
     StaticFieldDesc main_module_ref (''c_'' @ encode_index (unat (buffer data)))
       (TClassRef (ClassRef (''__rcl_const_blob_'' @ show_nat (max (length data) 1)) None True []))"

definition sunk :: "(table_panic, 'x) result \<Rightarrow> (emit_panic, 'x) result" where
  "sunk m = map_sum (\<lambda>_. SinkPanic) id m"

definition builder_sink :: "'a assembly_scheme \<Rightarrow> (u8 list \<Rightarrow> u64) \<Rightarrow> metadata_builder token_sink" where
  "builder_sink asm buffer =
     \<lparr>ts_method = (\<lambda>m mb. sunk (method_token asm m mb)), ts_field = (\<lambda>d mb. sunk (field_token asm d mb)),
      ts_static_field = (\<lambda>d mb. sunk (static_field_token asm d mb)), ts_user_string = (\<lambda>s mb. sunk (user_string_token s mb)),
      ts_calli_sig = (\<lambda>key blob mb. sunk (mb_calli_sig_token key blob mb)), ts_locals_sig = (\<lambda>ls mb. sunk (mb_locals_sig_token asm ls mb)),
      ts_type = (\<lambda>t mb. sunk (type_token asm t mb)), ts_type_def_or_ref = mb_resolver asm,
      ts_const_blob = (\<lambda>data mb. sunk (static_field_token asm (const_blob_field buffer data) mb))\<rparr>"

section \<open>The sink keeps the builder sound\<close>

lemma refers_ok_user_strings [simp]: "refers_ok mb \<Longrightarrow> refers_ok (mb\<lparr>mb_user_strings := h\<rparr>)" "grows mb (mb\<lparr>mb_user_strings := h\<rparr>)"
proof -
  show g: "grows mb (mb\<lparr>mb_user_strings := h\<rparr>)" by (simp add: grows_def ref_tables_def)
  show "refers_ok mb \<Longrightarrow> refers_ok (mb\<lparr>mb_user_strings := h\<rparr>)"
    by (erule refers_ok_rows [OF _ g]) (simp_all add: rows_step_def raw_contents_def)
qed

lemma user_string_token_yields:
  assumes "refers_ok mb"
  shows "yields snd mb (user_string_token s mb) (\<lambda>(t, mb'). True)"
  unfolding user_string_token_def
  using assms by (intro yields_value yields_pair yields_row) simp_all

lemma method_base_token_yields:
  assumes "refers_ok mb"
  shows "yields snd mb (method_base_token asm m mb) (\<lambda>(t, mb'). token_ok mb' t)"
  unfolding method_base_token_def Let_def
proof (rule yields_option)
  fix tok assume "mb_method_def_cache mb m = Some tok"
  then show "yields snd mb (Inr (tok, mb)) (\<lambda>(t, mb'). token_ok mb' t)"
    using assms cached_tok_ok(10) [OF assms] by (intro yields_row) simp_all
qed (rule yields_bind2 [OF class_ref_token_yields [OF assms]], rule yields_value, rule yields_pair, rule yields_value,
    rule yields_bind_fst [OF encode_yields(6)], assumption, rule yields_bind2 [OF intern_blob_yields], assumption,
    rule member_ref_yields, simp_all add: kept)

lemma method_token_yields:
  assumes "refers_ok mb"
  shows "yields snd mb (method_token asm m mb) (\<lambda>(t, mb'). token_ok mb' t)"
  unfolding method_token_def
  apply (intro yields_bind2 [OF method_base_token_yields] yields_if yields_bind_fst [OF encode_yields(5)]
      yields_bind2 [OF intern_blob_yields] yields_row method_spec_yields)
  using assms by (simp_all add: kept)

lemma field_like_token_yields:
  assumes "refers_ok mb"
  shows "yields snd mb (field_like_token asm owner name t mb) (\<lambda>(t, mb'). True)"
  unfolding field_like_token_def
  apply (intro yields_bind_fst [OF encode_yields(2)] yields_bind2 [OF intern_blob_yields] assms)
     apply assumption
  apply (rule yields_bind2 [where Q = "\<lambda>_ _. True"])
   apply (intro yields_if yields_bind2 [OF class_ref_token_yields] yields_bind2 [OF intern_string_yields] yields_row, simp_all)
  apply (intro yields_option yields_row, simp_all)
  apply (rule yields_bind2 [OF class_ref_token_yields], assumption)
  apply (rule yields_weaken [OF member_ref_yields])
  by (simp_all add: kept split: prod.split)

lemma field_tokens_yield:
  assumes "refers_ok mb"
  shows "yields snd mb (field_token asm fd mb) (\<lambda>(t, mb'). True)" "yields snd mb (static_field_token asm sfd mb) (\<lambda>(t, mb'). True)"
  unfolding field_token_def static_field_token_def by (rule field_like_token_yields [OF assms])+

lemma mb_calli_sig_token_yields:
  assumes "refers_ok mb"
  shows "yields snd mb (mb_calli_sig_token key blob mb) (\<lambda>(t, mb'). True)"
  unfolding mb_calli_sig_token_def
  apply (intro yields_option yields_bind2 [OF intern_blob_yields] yields_bind2 [OF standalone_sig_yields] yields_row)
  using assms by simp_all

lemma mb_locals_sig_token_yields:
  assumes "refers_ok mb"
  shows "yields snd mb (mb_locals_sig_token asm ls mb) (\<lambda>(t, mb'). True)"
  unfolding mb_locals_sig_token_def Let_def
  apply (intro yields_option yields_bind_fst [OF encode_yields(4)] yields_bind2 [OF intern_blob_yields]
      yields_bind2 [OF standalone_sig_yields] yields_row)
  using assms by simp_all

lemma type_token_yields:
  assumes "refers_ok mb"
  shows "yields snd mb (type_token asm t mb) (\<lambda>(t, mb'). token_ok mb' t)"
proof -
  have other: "yields snd mb (rbind (map_sum TableSig id (encode_type (mb_resolver asm) t mb [])) (\<lambda>(mb, blob).
      rbind (mb_intern_blob blob mb) (\<lambda>(off, mb). type_spec off mb))) (\<lambda>(t, mb'). token_ok mb' t)"
    by (intro yields_bind_fst [OF encode_yields(1)] yields_bind2 [OF intern_blob_yields] type_spec_yields assms)
  show ?thesis
    unfolding type_token_def using other class_ref_token_yields [OF assms] by (cases t) simp_all
qed

text \<open>What a sink promises: none of its operations leaves the states that satisfy \<open>holds\<close>.\<close>

definition sink_rel :: "('r \<Rightarrow> bool) \<Rightarrow> 'r emitter \<Rightarrow> 'r emitter \<Rightarrow> bool" where
  "sink_rel holds e e' \<longleftrightarrow> (holds (e_sink e) \<longrightarrow> holds (e_sink e'))"

interpretation sr: output_relation "sink_rel holds" for holds :: "'r \<Rightarrow> bool"
  by unfold_locales (auto simp: sink_rel_def)

lemma along_same_sink:
  assumes "\<And>e e'. f e = Inr e' \<Longrightarrow> e_sink e' = e_sink e"
  shows "along (sink_rel holds) f"
  using assms by (simp add: along_def sink_rel_def)

lemma here_sink: "here e = Inr (l, e') \<Longrightarrow> e_sink e' = e_sink e"
  by (auto simp: here_def define_label_def Let_def rbind_eq_Inr split: if_splits)

lemma along_labels [along_intros]:
  "along (sink_rel holds) (define_label l)" "along (sink_rel holds) (push_branch op l)" "along (sink_rel holds) (add_clause c)"
  "along (sink_rel holds) patch_branches"
  by (rule along_same_sink, auto simp: define_label_def push_branch_def add_clause_def patch_branches_def push_u8_def push_bytes_def rbind_eq_Inr split: if_splits)+

lemma along_with_here [along_intros]:
  assumes "\<And>l. along (sink_rel holds) (k l)"
  shows "along (sink_rel holds) (with_here k)"
  unfolding along_def sink_rel_def with_here_def
proof (intro allI impI)
  fix e e'
  assume "rbind (here e) (\<lambda>(l, e). k l e) = Inr e'" "holds (e_sink e)"
  then obtain l e1 where "here e = Inr (l, e1)" "k l e1 = Inr e'" by (auto simp: rbind_eq_Inr)
  then show "holds (e_sink e')" using assms [of l] here_sink \<open>holds (e_sink e)\<close> by (fastforce simp: along_def sink_rel_def)
qed

locale sink_contract =
  fixes ts :: "'r token_sink" and holds :: "'r \<Rightarrow> bool"
  assumes method_holds: "holds r \<Longrightarrow> ts_method ts m r = Inr (tok, r') \<Longrightarrow> holds r'"
    and field_holds: "holds r \<Longrightarrow> ts_field ts fd r = Inr (tok, r') \<Longrightarrow> holds r'"
    and static_field_holds: "holds r \<Longrightarrow> ts_static_field ts sfd r = Inr (tok, r') \<Longrightarrow> holds r'"
    and user_string_holds: "holds r \<Longrightarrow> ts_user_string ts s r = Inr (tok, r') \<Longrightarrow> holds r'"
    and calli_sig_holds: "holds r \<Longrightarrow> ts_calli_sig ts key blob r = Inr (tok, r') \<Longrightarrow> holds r'"
    and locals_sig_holds: "holds r \<Longrightarrow> ts_locals_sig ts tys r = Inr (tok, r') \<Longrightarrow> holds r'"
    and type_holds: "holds r \<Longrightarrow> ts_type ts t r = Inr (tok, r') \<Longrightarrow> holds r'"
    and const_blob_holds: "holds r \<Longrightarrow> ts_const_blob ts data r = Inr (tok, r') \<Longrightarrow> holds r'"
    and resolver_holds: "holds r \<Longrightarrow> ts_type_def_or_ref ts c r = Inr (v, r') \<Longrightarrow> holds r'"

sublocale sink_contract \<subseteq> names: resolver_invariant "ts_type_def_or_ref ts" holds
  by unfold_locales (rule resolver_holds)

sublocale sink_contract \<subseteq> code: sink_relation "sink_rel holds" ts
proof unfold_locales
  show "asks_along (sink_rel holds) (calli_sig_token ts sig)" for sig
    unfolding asks_along_def sink_rel_def
  proof (intro allI impI)
    fix e :: "'r emitter" and tok r
    assume "calli_sig_token ts sig (e_sink e) = Inr (tok, r)" and h: "holds (e_sink e)"
    then obtain r1 blob where "encode_method_sig (ts_type_def_or_ref ts) SIG_DEFAULT 0 sig (e_sink e) [] = Inr (r1, blob)"
        "ts_calli_sig ts (calli_semantic_key sig) blob r1 = Inr (tok, r)"
      unfolding calli_sig_token_def rbind_eq_Inr map_sum_Inr by auto
    then have "holds r" using names.encode_method_sig_holds [OF h] calli_sig_holds by blast
    then show "holds (e_sink (e\<lparr>e_sink := r\<rparr>))" by simp
  qed
qed (unfold asks_along_def sink_rel_def, (intro allI impI, simp,
    erule (1) method_holds field_holds static_field_holds user_string_holds type_holds const_blob_holds)+)

context sink_contract
begin

lemma along_branch [along_intros]: "along (sink_rel holds) (emit_branch ts t u c h hh)"
  unfolding emit_branch_def Let_def emit_binary_branch_def
  by (cases c) (simp_all add: along_intros split: branch_cond.split)

lemma along_exit [along_intros]: "along (sink_rel holds) (emit_exit_region tg src h hh)"
  by (simp add: along_intros emit_exit_region_def)

lemma along_terminate [along_intros]:
  assumes "along (sink_rel holds) p"
  shows "along (sink_rel holds) (emit_terminate_region ts p reason)"
proof -
  have *: "along (sink_rel holds) (with_here (\<lambda>try_start. seq [p, push_branch 0xDD dn,
      with_here (\<lambda>try_end. with_here (\<lambda>handler_start. seq [push_u8 0x26,
      with_token (ts_user_string ts (terminate_message reason)) (\<lambda>str_tok. seq [push_u8 0x72, push_token str_tok,
      with_token (ts_method ts environment_failfast) (\<lambda>failfast_tok. seq [push_u8 0x28, push_token failfast_tok,
      push_ext 0x1A,
      with_here (\<lambda>handler_end. seq [define_label dn, push_u8 0x00,
      add_clause \<lparr>pc_try_start = try_start, pc_try_end = try_end, pc_handler_start = handler_start,
        pc_handler_end = handler_end\<rparr>])])])]))]))" for dn
    using assms by (simp add: along_intros del: seq.simps)
  show ?thesis using * unfolding along_def sink_rel_def emit_terminate_region_def Let_def by fastforce
qed

lemma along_root [along_intros]: "along (sink_rel holds) (emit_root ts h hh r)"
  by (induction r) (simp_all add: along_intros emit_calli_def del: seq.simps)

lemma along_block [along_intros]: "along (sink_rel holds) (emit_block ts b)"
proof -
  have "along (sink_rel holds) (emit_roots ts h hh rs)" for h hh rs
    unfolding emit_roots.simps by (rule sr.along_seq) (simp add: list_all_iff along_root)
  moreover from this have "along (sink_rel holds) (emit_handler ts i hd)" for i hd
    unfolding emit_handler_def by (intro sr.along_seq) (auto simp: list_all_iff along_intros simp del: seq.simps emit_roots.simps)
  ultimately show ?thesis
    by (auto simp: emit_block_def along_intros simp del: seq.simps emit_roots.simps split: option.split)
qed

lemma assemble_method_body_holds:
  assumes "holds r" "assemble_method_body ts blocks locals r = Inr (body, r')"
  shows "holds r'"
proof -
  have blocks: "along (sink_rel holds) (seq (map (emit_block ts) blocks @ [patch_branches]))"
    by (rule sr.along_seq) (auto simp: list_all_iff along_intros)
  from assms(2) obtain e lt r1 cls ct where e: "seq (map (emit_block ts) blocks @ [patch_branches]) (new_emitter r) = Inr e"
      and l: "(if locals = [] then Inr (None, e_sink e)
        else rbind (ts_locals_sig ts (map snd locals) (e_sink e)) (\<lambda>(tok, r). Inr (Some tok, r))) = Inr (lt, r1)"
      and c: "(if e_clauses e = [] then Inr (token_new 0 0, r1)
        else ts_type ts (TClassRef (bcl_class_ref ''System.Object'' False)) r1) = Inr (ct, r')"
    by (auto simp: assemble_method_body_def rbind_eq_Inr simp del: seq.simps)
  have "holds (e_sink e)" using blocks e assms(1) by (fastforce simp: along_def sink_rel_def new_emitter_def)
  then have "holds r1" using l locals_sig_holds by (auto simp: rbind_eq_Inr split: if_splits)
  then show ?thesis using c type_holds by (auto split: if_splits)
qed

end

interpretation bs: sink_contract "builder_sink asm buffer" "\<lambda>mb'. grows mb mb' \<and> refers_ok mb'" for asm :: "'a assembly_scheme" and buffer mb
proof -
  have sunk: "sunk m = Inr x \<longleftrightarrow> m = Inr x" for m :: "(table_panic, 'x) result" and x by (cases m) (simp_all add: sunk_def)
  have keep: "grows mb mb' \<and> refers_ok mb'"
    if "grows mb r \<and> refers_ok r" "m = Inr (x, mb')" "refers_ok r \<Longrightarrow> yields snd r m Q" for r mb' m Q and x :: token
    using that grows_trans by (auto simp: yields_def)
  show "sink_contract (builder_sink asm buffer) (\<lambda>mb'. grows mb mb' \<and> refers_ok mb')"
    by (unfold_locales, simp_all only: builder_sink_def token_sink.simps sunk)
      (erule (1) keep, erule method_token_yields field_tokens_yield user_string_token_yields mb_calli_sig_token_yields
        mb_locals_sig_token_yields type_token_yields | erule (1) rr.resolve_holds)+
qed

lemma assemble_method_body_refers:
  "refers_ok mb \<Longrightarrow> assemble_method_body (builder_sink asm buffer) blocks locals mb = Inr (body, mb') \<Longrightarrow> refers_ok mb'"
  using bs.assemble_method_body_holds [of mb mb asm buffer blocks locals body mb'] by simp

section \<open>Constant buffers have fields of their own\<close>

fun decode_index :: "string \<Rightarrow> nat" where
  "decode_index [] = 0"
| "decode_index (c # cs) = length (takeWhile (\<lambda>d. d \<noteq> c) CHARS) + length CHARS * decode_index cs"

lemma CHARS_position: "\<forall>i<length CHARS. length (takeWhile (\<lambda>d. d \<noteq> CHARS ! i) CHARS) = i"
proof -
  have "list_all (\<lambda>i. length (takeWhile (\<lambda>d. d \<noteq> CHARS ! i) CHARS) = i) [0..<length CHARS]"
    by (simp add: CHARS_def upt_rec)
  then show ?thesis by (auto simp: list_all_iff)
qed

lemma decode_encode_index: "decode_index (encode_index n) = n"
proof (induction n rule: encode_index.induct)
  case (1 n)
  have "0 < length CHARS" by (simp add: CHARS_def)
  then have "length (takeWhile (\<lambda>d. d \<noteq> CHARS ! (n mod length CHARS)) CHARS) = n mod length CHARS"
    using CHARS_position by simp
  then show ?case using 1 by (subst encode_index.simps) auto
qed

text \<open>
  The field of a constant buffer is named after the index of the buffer, so two buffers share a field exactly when
  they are the same buffer.
\<close>

lemma const_blob_fields_distinct:
  "sfd_name (const_blob_field buffer data) = sfd_name (const_blob_field buffer data') \<longleftrightarrow> buffer data = buffer data'"
proof -
  have "encode_index m = encode_index n \<longleftrightarrow> m = n" for m n by (metis decode_encode_index)
  then show ?thesis by (simp add: const_blob_field_def word_unat_eq_iff del: encode_index.simps)
qed

section \<open>Local-variable signatures\<close>

text \<open>The \<^verbatim>\<open>StandAloneSig\<close> row behind a token holds the offset.\<close>

definition signature_row :: "metadata_builder \<Rightarrow> token \<Rightarrow> u32 \<Rightarrow> bool" where
  "signature_row mb tok off \<longleftrightarrow>
     token_table tok = TABLE_STAND_ALONE_SIG \<and> 0 < unat (token_rid tok)
     \<and> unat (token_rid tok) \<le> length (mb_standalone_sig mb) \<and> mb_standalone_sig mb ! (unat (token_rid tok) - 1) = off"

definition signatures_ok :: "metadata_builder \<Rightarrow> bool" where
  "signatures_ok mb \<longleftrightarrow> blob_wf (mb_blobs mb)
     \<and> (\<forall>off tok. mb_standalone_sig_cache mb off = Some tok \<longrightarrow> signature_row mb tok off)"

lemma standalone_sig_row:
  assumes "signatures_ok mb" "length (mb_standalone_sig mb) < 2 ^ 24 - 1" "standalone_sig off mb = Inr (tok, mb')"
  shows "signatures_ok mb'" "signature_row mb' tok off" "mb_blobs mb' = mb_blobs mb"
    "mb_token_of mb' = mb_token_of mb" "mb_locals_sig_cache mb' = mb_locals_sig_cache mb"
proof -
  have "signatures_ok mb' \<and> signature_row mb' tok off \<and> mb_blobs mb' = mb_blobs mb
      \<and> mb_token_of mb' = mb_token_of mb \<and> mb_locals_sig_cache mb' = mb_locals_sig_cache mb"
  proof (cases "mb_standalone_sig_cache mb off")
  case None
  let ?n = "Suc (length (mb_standalone_sig mb))"
  have n: "unat (word_of_nat ?n :: u32) = ?n" "?n < 2 ^ 24"
    using assms(2) by (simp_all add: unat_of_nat take_bit_nat_eq_self del: of_nat_Suc)
  have t: "token_table (token_new TABLE_STAND_ALONE_SIG (word_of_nat ?n)) = TABLE_STAND_ALONE_SIG"
    "token_rid (token_new TABLE_STAND_ALONE_SIG (word_of_nat ?n)) = word_of_nat ?n"
    using n by (auto intro!: token_table_new token_rid_new simp del: of_nat_Suc)
  have mb': "tok = token_new TABLE_STAND_ALONE_SIG (word_of_nat ?n)"
    "mb' = mb\<lparr>mb_standalone_sig := mb_standalone_sig mb @ [off],
       mb_standalone_sig_cache := (mb_standalone_sig_cache mb)(off \<mapsto> tok)\<rparr>"
    using assms(3) None n(2) by (auto simp: standalone_sig_def Let_def row_id_def rbind_eq_Inr split: if_splits)
  have old: "signature_row mb' t o'" if "signature_row mb t o'" for t o'
    using that by (auto simp: signature_row_def mb' nth_append)
  have new: "signature_row mb' tok off"
    using n(1) t unfolding mb' by (simp add: signature_row_def del: of_nat_Suc)
  have "signatures_ok mb'" using assms(1) old new by (auto simp: signatures_ok_def mb'(2) split: if_splits)
  then show ?thesis using new by (simp add: mb'(2) mb_token_of_def fun_eq_iff)
  qed (use assms in \<open>auto simp: standalone_sig_def signatures_ok_def\<close>)
  then show "signatures_ok mb'" "signature_row mb' tok off" "mb_blobs mb' = mb_blobs mb"
    "mb_token_of mb' = mb_token_of mb" "mb_locals_sig_cache mb' = mb_locals_sig_cache mb" by simp_all
qed

text \<open>Resolving the classes of a signature leaves the rows and caches of signatures alone.\<close>

definition same_signatures :: "metadata_builder \<Rightarrow> metadata_builder \<Rightarrow> bool" where
  "same_signatures mb mb' \<longleftrightarrow> mb_standalone_sig mb' = mb_standalone_sig mb
     \<and> mb_standalone_sig_cache mb' = mb_standalone_sig_cache mb \<and> mb_locals_sig_cache mb' = mb_locals_sig_cache mb
     \<and> (blob_wf (mb_blobs mb) \<longrightarrow> blob_wf (mb_blobs mb'))"

lemma same_signatures_refl [simp]: "same_signatures mb mb"
  by (simp add: same_signatures_def)

lemma same_signatures_trans: "same_signatures a b \<Longrightarrow> same_signatures b c \<Longrightarrow> same_signatures a c"
  by (simp add: same_signatures_def)

lemma intern_blob_wf: "mb_intern_blob b mb = Inr (off, mb') \<Longrightarrow> blob_wf (mb_blobs mb) \<Longrightarrow> blob_wf (mb_blobs mb')"
  using bh.intern_wf by (auto simp: mb_intern_blob_def rbind_eq_Inr map_sum_Inr)

lemma intern_same_signatures:
  "mb_intern_string s mb = Inr (off, mb') \<Longrightarrow> same_signatures mb mb'"
  "mb_intern_blob b mb = Inr (off, mb') \<Longrightarrow> same_signatures mb mb'"
  using intern_blob_wf [of b mb off mb']
  by (auto simp: same_signatures_def mb_intern_string_def mb_intern_blob_def rbind_eq_Inr)

lemma type_ref_same_signatures: "type_ref scope ns name mb = Inr (tok, mb') \<Longrightarrow> same_signatures mb mb'"
proof -
  assume run: "type_ref scope ns name mb = Inr (tok, mb')"
  show ?thesis
  proof (cases "mb_type_ref_cache mb (case scope of None \<Rightarrow> 0 | Some t \<Rightarrow> t, ns, name)")
    case None
    then obtain o1 m1 o2 m2 where s: "mb_intern_string ns mb = Inr (o1, m1)" "mb_intern_string name m1 = Inr (o2, m2)"
        and e: "same_signatures m2 mb'"
      using run by (auto simp: type_ref_def Let_def rbind_eq_Inr same_signatures_def)
    show ?thesis
      by (rule same_signatures_trans [OF intern_same_signatures(1) [OF s(1)] same_signatures_trans [OF intern_same_signatures(1) [OF s(2)] e]])
  qed (use run in \<open>simp add: type_ref_def Let_def\<close>)
qed

lemma assembly_ref_same_signatures: "assembly_ref name target mb = Inr (tok, mb') \<Longrightarrow> same_signatures mb mb'"
proof -
  assume run: "assembly_ref name target mb = Inr (tok, mb')"
  obtain o1 m1 where s: "mb_intern_string name mb = Inr (o1, m1)"
    using run by (auto simp: assembly_ref_def Let_def rbind_eq_Inr)
  have "same_signatures m1 mb'"
  proof (cases target)
    case (TargetBcl v k)
    then obtain o2 m2 where "mb_intern_blob k m1 = Inr (o2, m2)" "same_signatures m2 mb'"
      using run s by (auto simp: assembly_ref_def Let_def rbind_eq_Inr same_signatures_def)
    then show ?thesis by (blast intro: same_signatures_trans intern_same_signatures(2))
  qed (use run s in \<open>auto simp: assembly_ref_def Let_def rbind_eq_Inr same_signatures_def\<close>)
  then show ?thesis by (rule same_signatures_trans [OF intern_same_signatures(1) [OF s]])
qed

lemma resolve_external_same_signatures:
  assumes "resolve_external c mb = Inr (tok, mb')"
  shows "same_signatures mb mb'"
proof -
  obtain scope m1 ns name where s: "(case cr_asm c of None \<Rightarrow> Inr (None, mb)
      | Some name \<Rightarrow> rbind (find_or_create_assembly_ref name mb) (\<lambda>(t, mb). Inr (Some t, mb))) = Inr (scope, m1)"
    and t: "type_ref scope ns name m1 = Inr (tok, mb')"
    using assms by (auto simp: resolve_external_def Let_def rbind_eq_Inr case_prod_beta)
  have "find_or_create_assembly_ref n m = Inr (t, m') \<Longrightarrow> same_signatures m m'" for n m t m'
    using assembly_ref_same_signatures by (auto simp: find_or_create_assembly_ref_def Let_def split: option.splits)
  then have "same_signatures mb m1" using s by (auto simp: rbind_eq_Inr split: option.splits)
  then show ?thesis by (rule same_signatures_trans [OF _ type_ref_same_signatures [OF t]])
qed

lemma resolve_same_signatures: "mb_resolver asm c mb = Inr (v, mb') \<Longrightarrow> same_signatures mb mb'"
proof -
  assume "mb_resolver asm c mb = Inr (v, mb')"
  then have run: "type_def_or_ref asm c mb = Inr (v, mb')" by (simp add: mb_resolver_def map_sum_Inr)
  show ?thesis
  proof (cases "mb_class_token_cache mb c")
    case None
    then obtain t m1 where r: "resolve_class_token asm c mb = Inr (t, m1)" and e: "same_signatures m1 mb'"
      using run by (auto simp: type_def_or_ref_def Let_def rbind_eq_Inr same_signatures_def)
    have "same_signatures mb m1"
      using r resolve_external_same_signatures
      by (auto simp: resolve_class_token_def rbind_eq_Inr split: option.splits if_splits)
    then show ?thesis using e by (rule same_signatures_trans)
  qed (use run in \<open>auto simp: type_def_or_ref_def rbind_eq_Inr\<close>)
qed

interpretation sr: resolver_invariant "mb_resolver asm" "same_signatures mb" for asm :: "'a assembly_scheme" and mb
  by unfold_locales (rule same_signatures_trans, assumption, rule resolve_same_signatures)

lemma fresh_locals_token:
  assumes "signatures_ok mb" "length (mb_standalone_sig mb) < 2 ^ 24 - 1"
    and "mb_locals_sig_cache mb (map mangle ls) = None" "mb_locals_sig_token asm ls mb = Inr (t, mb')"
  shows "signatures_ok mb'" "mb_locals_sig_cache mb' (map mangle ls) = Some t"
    and "\<exists>off blob. signature_row mb' t off \<and> blob_read (b_data (mb_blobs mb')) off = Some blob
      \<and> decode_counted SIG_LOCALS (length blob) blob = Some (map (lower_non_void (mb_token_of mb')) ls, [])"
proof -
  obtain m1 blob off m2 m3 where e: "encode_locals_sig (mb_resolver asm) ls mb [] = Inr (m1, blob)"
    and b: "mb_intern_blob blob m1 = Inr (off, m2)" and st: "standalone_sig off m2 = Inr (t, m3)"
    and mb': "mb' = m3\<lparr>mb_locals_sig_cache := (mb_locals_sig_cache m3)(map mangle ls \<mapsto> t)\<rparr>"
    using assms(3,4) by (auto simp: mb_locals_sig_token_def Let_def rbind_eq_Inr map_sum_Inr)
  have s: "same_signatures mb m1" using sr.encode_locals_sig_holds [OF same_signatures_refl e] .
  then have wf: "blob_wf (mb_blobs m1)" using assms(1) by (simp add: same_signatures_def signatures_ok_def)
  have s2: "same_signatures mb m2" using s intern_same_signatures(2) [OF b] by (rule same_signatures_trans)
  then have "signatures_ok m2" "length (mb_standalone_sig m2) < 2 ^ 24 - 1"
    using assms(1,2) by (simp_all add: same_signatures_def signatures_ok_def signature_row_def)
  note row = standalone_sig_row [OF this st]
  have read: "blob_read (b_data (mb_blobs m2)) off = Some blob"
    using bh.intern_read [OF wf] b by (auto simp: mb_intern_blob_def rbind_eq_Inr map_sum_Inr)
  have tok: "mb_token_of mb' = mb_token_of m1"
    using row(4) b by (auto simp: mb' mb_token_of_def mb_intern_blob_def rbind_eq_Inr fun_eq_iff)
  show "signatures_ok mb'" using row(1) by (simp add: mb' signatures_ok_def signature_row_def)
  show "mb_locals_sig_cache mb' (map mangle ls) = Some t" by (simp add: mb')
  have "decode_counted SIG_LOCALS (length blob) blob = Some (map (lower_non_void (mb_token_of mb')) ls, [])"
    using list_signature_roundtrip_parts(1) [OF e, of "[]"] by (simp add: tok)
  moreover have "signature_row mb' t off" "blob_read (b_data (mb_blobs mb')) off = Some blob"
    using row(2,3) read by (simp_all add: mb' signature_row_def)
  ultimately show "\<exists>off blob. signature_row mb' t off \<and> blob_read (b_data (mb_blobs mb')) off = Some blob
      \<and> decode_counted SIG_LOCALS (length blob) blob = Some (map (lower_non_void (mb_token_of mb')) ls, [])" by blast
qed

lemma cached_locals_token:
  "mb_locals_sig_cache mb (map mangle ls) = Some t \<Longrightarrow> mb_locals_sig_token asm ls mb = Inr (t, mb)"
  by (simp add: mb_locals_sig_token_def Let_def)

lemma mangle_without_generics: "mangle (TClassRef (ClassRef n a vt g)) = mangle (TClassRef (ClassRef n a vt g'))"
  by simp

text \<open>
  C24. The token of a list of locals that the builder has not seen names a \<^verbatim>\<open>StandAloneSig\<close> row whose blob
  decodes to the types of the locals. The cache is keyed by mangled names only, and these leave out the type
  arguments of a class: afterwards every list that differs in the type arguments of a local gets the
  same token, and with it the signature of the first list.
\<close>

theorem locals_signature_token:
  assumes "signatures_ok mb" "length (mb_standalone_sig mb) < 2 ^ 24 - 1"
    and "mb_locals_sig_cache mb (map mangle ls) = None" "mb_locals_sig_token asm ls mb = Inr (t, mb')"
  shows "signatures_ok mb'
    \<and> (\<exists>off blob. signature_row mb' t off \<and> blob_read (b_data (mb_blobs mb')) off = Some blob
        \<and> decode_counted SIG_LOCALS (length blob) blob = Some (map (lower_non_void (mb_token_of mb')) ls, []))
    \<and> (\<forall>pre n a vt g g' post. ls = pre @ TClassRef (ClassRef n a vt g) # post \<longrightarrow>
        mb_locals_sig_token asm (pre @ TClassRef (ClassRef n a vt g') # post) mb' = Inr (t, mb'))"
proof -
  note fresh = fresh_locals_token [OF assms]
  have "mb_locals_sig_token asm (pre @ TClassRef (ClassRef n a vt g') # post) mb' = Inr (t, mb')"
    if "ls = pre @ TClassRef (ClassRef n a vt g) # post" for pre n a vt g g' post
    using fresh(2) that mangle_without_generics [of n a vt g g'] by (intro cached_locals_token) simp
  then show ?thesis using fresh by blast
qed

text \<open>A generic class of another assembly, at some instantiation.\<close>

definition list_of :: "cil_type \<Rightarrow> cil_type" where
  "list_of t = TClassRef (ClassRef ''List'' (Some ''C'') False [t])"

lemma show_1: "show_nat (Suc 0) = ''1''"
  by (simp add: show_nat.simps char_of_def bit_0)

lemma list_of_token: "\<exists>t mb. mb_locals_sig_token empty_assembly [list_of (TInt I32)] mb_default = Inr (t, mb)"
  by (simp add: mb_locals_sig_token_def encode_locals_sig_def list_of_def Let_def mb_default_def mb_resolver_def
      type_def_or_ref_def resolve_class_token_def unity_legacy_128_token_def empty_assembly_def put_count_def put_u32_def
      write_compressed_u32_def try_u32_def find_open_generic_def_def resolve_external_def type_ref_def
      encode_resolution_scope_def split_namespace_def show_1 find_or_create_assembly_ref_def assembly_ref_def
      mb_intern_string_def mb_intern_blob_def strings_intern_def blob_intern_def str_bytes_def heap_defaults row_id_def
      token_new_def encode_type_def_or_ref_token_def standalone_sig_def bcl_public_key_token_def coded_def token_table_def
      token_rid_def)

theorem locals_signature_token_witness:
  "\<exists>t mb off blob. mb_locals_sig_token empty_assembly [list_of (TInt I32)] mb_default = Inr (t, mb)
    \<and> signature_row mb t off \<and> blob_read (b_data (mb_blobs mb)) off = Some blob
    \<and> decode_counted SIG_LOCALS (length blob) blob = Some ([lower_non_void (mb_token_of mb) (list_of (TInt I32))], [])
    \<and> mb_locals_sig_token empty_assembly [list_of (TInt I64)] mb = Inr (t, mb)"
proof -
  obtain t mb where run: "mb_locals_sig_token empty_assembly [list_of (TInt I32)] mb_default = Inr (t, mb)"
    using list_of_token by blast
  have s: "signatures_ok mb_default" "length (mb_standalone_sig mb_default) < 2 ^ 24 - 1"
      "mb_locals_sig_cache mb_default (map mangle [list_of (TInt I32)]) = None"
    using blob_default_wf by (simp_all add: signatures_ok_def mb_default_def)
  note all = locals_signature_token [OF s run]
  have "mb_locals_sig_token empty_assembly [list_of (TInt I64)] mb = Inr (t, mb)"
    using all [THEN conjunct2, THEN conjunct2, rule_format, of "[]" "''List''" "Some ''C''" False "[TInt I32]" "[]" "[TInt I64]"]
    by (simp add: list_of_def)
  then show ?thesis using all run by auto
qed

end
