(* ===== verification/Exported.thy ===== *)
theory Exported
  imports TokenSink
begin

text \<open>
  The builders an exporter can reach by any sequence of calls, and the soundness of the metadata it then writes.
\<close>

lemma set_module_yields:
  assumes "refers_ok mb"
  shows "yields (\<lambda>mb. mb) mb (set_module name mvid mb) (\<lambda>_. True)"
  unfolding set_module_def Let_def
proof (rule yields_bind2 [OF intern_string_yields [OF assms]], rule yields_value, rule yields_pair)
  fix name_off mb1 v i h
  assume m: "grows mb mb1" "refers_ok mb1" "string_ok mb1 name_off" "map_sum TableHeap id (guid_push mvid (mb_guids mb1)) = Inr v" "v = (i, h)"
  note g = guids_ok [OF m(2), of mvid i h]
  have p: "guid_push mvid (mb_guids mb1) = Inr (i, h)" using m(4,5) by (simp add: map_sum_Inr)
  let ?mb2 = "mb1\<lparr>mb_guids := h\<rparr>" and ?row = "\<lparr>mo_name = name_off, mo_mvid = i\<rparr>"
  let ?rows = "case mb_module ?mb2 of [] \<Rightarrow> [?row] | _ # rows \<Rightarrow> ?row # rows"
  have g2: "grows ?mb2 (?mb2\<lparr>mb_module := ?rows\<rparr>)" by (intro grows_rows) (simp split: list.split)
  have s: "string_ok (?mb2\<lparr>mb_module := ?rows\<rparr>) name_off" using m(3) by (simp add: string_ok_def)
  have v: "refers (?mb2\<lparr>mb_module := ?rows\<rparr>) GuidHeap (unat i)" using g(3) [OF p] by (simp add: refers_def)
  have z: "refers mb GuidHeap 0" for mb by simp
  have "refers_ok (?mb2\<lparr>mb_module := ?rows\<rparr>)"
    using s v by (intro module_rows_ok g(2) p) (auto simp: module_cols_def split: list.splits)
  then show "yields (\<lambda>mb. mb) mb1 (Inr (?mb2\<lparr>mb_module := ?rows\<rparr>)) (\<lambda>_. True)"
    using grows_trans [OF g(1) [OF p] g2] by (intro yields_builder) simp_all
qed

lemma finish_module_yields:
  assumes "refers_ok mb"
  shows "yields (\<lambda>mb. mb) mb (finish_module name mb) (\<lambda>_. True)"
  unfolding finish_module_def by (rule set_module_yields [OF assms])

lemma set_assembly_yields:
  assumes "refers_ok mb"
  shows "yields snd mb (set_assembly name version mb) (\<lambda>(t, mb'). True)"
  unfolding set_assembly_def
  using assms by (intro yields_bind2 [OF intern_string_yields] yields_row) (simp_all add: kept pushed)

lemma mb_default_refers: "refers_ok mb_default"
  by (simp add: refers_ok_def mb_default_def strings_default_wf blob_default_wf tables_refer_def caches_refer_def raw_contents_def cached_def)

lemma mb_new_refers:
  assumes "mb_new = Inr mb"
  shows "refers_ok mb"
proof -
  have "token_table (token_new TABLE_TYPE_DEF 1) = TABLE_TYPE_DEF" "token_rid (token_new TABLE_TYPE_DEF 1) = 1"
    by (simp_all add: token_table_new token_rid_new)
  then have t: "tok_ok mb' {TABLE_TYPE_DEF} (token_new TABLE_TYPE_DEF 1)" if "mb_type_def mb' \<noteq> []" for mb'
    using that by (simp add: tok_ok_def valid_def ref_tables_def Suc_le_eq)
  have "yields (\<lambda>mb. mb) mb_default mb_new (\<lambda>_. True)"
    unfolding mb_new_def
    by (intro yields_bind2 [OF intern_string_yields] yields_builder pushed) (simp_all add: kept mb_default_refers pushed t)
  then show ?thesis using assms by (simp add: yields_def)
qed

section \<open>The builders the exporter can reach\<close>

text \<open>A token that names a row that exists, an offset of a blob.\<close>

definition issued :: "metadata_builder \<Rightarrow> token \<Rightarrow> bool" where
  "issued mb t \<longleftrightarrow> token_table t \<in> any_table \<and> token_rid t \<noteq> 0
     \<and> unat (token_rid t) \<le> content_rows mb (unat (token_table t))"

definition blob_at :: "metadata_builder \<Rightarrow> u32 \<Rightarrow> bool" where
  "blob_at mb off \<longleftrightarrow> blob_read (b_data (mb_blobs mb)) off \<noteq> None"

text \<open>One call of an operation of the builder that returns, on tokens and blobs handed out before.\<close>

inductive mb_step :: "'a assembly_scheme \<Rightarrow> metadata_builder \<Rightarrow> metadata_builder \<Rightarrow> bool" for asm where
  st_string: "mb_intern_string s mb = Inr (off, mb') \<Longrightarrow> mb_step asm mb mb'"
| st_blob: "mb_intern_blob b mb = Inr (off, mb') \<Longrightarrow> mb_step asm mb mb'"
| st_type_sig: "encode_type (mb_resolver asm) t mb out = Inr (mb', out') \<Longrightarrow> mb_step asm mb mb'"
| st_field_sig: "encode_field_sig (mb_resolver asm) t mb out = Inr (mb', out') \<Longrightarrow> mb_step asm mb mb'"
| st_property_sig: "encode_property_sig (mb_resolver asm) this t mb out = Inr (mb', out') \<Longrightarrow> mb_step asm mb mb'"
| st_locals_sig: "encode_locals_sig (mb_resolver asm) ts mb out = Inr (mb', out') \<Longrightarrow> mb_step asm mb mb'"
| st_method_spec_sig: "encode_method_spec_sig (mb_resolver asm) ts mb out = Inr (mb', out') \<Longrightarrow> mb_step asm mb mb'"
| st_method_sig: "encode_method_sig (mb_resolver asm) conv gp sig mb out = Inr (mb', out') \<Longrightarrow> mb_step asm mb mb'"
| st_module: "set_module name mvid mb = Inr mb' \<Longrightarrow> mb_step asm mb mb'"
| st_finish: "finish_module name mb = Inr mb' \<Longrightarrow> mb_step asm mb mb'"
| st_assembly: "set_assembly name version mb = Inr (t, mb') \<Longrightarrow> mb_step asm mb mb'"
| st_assembly_ref: "assembly_ref name target mb = Inr (t, mb') \<Longrightarrow> mb_step asm mb mb'"
| st_find_assembly_ref: "find_or_create_assembly_ref name mb = Inr (t, mb') \<Longrightarrow> mb_step asm mb mb'"
| st_module_ref: "intern_module_ref lib mb = Inr (t, mb') \<Longrightarrow> mb_step asm mb mb'"
| st_type_ref: "pred_option (issued mb) scope \<Longrightarrow> type_ref scope ns name mb = Inr (t, mb') \<Longrightarrow> mb_step asm mb mb'"
| st_type_def_or_ref: "type_def_or_ref asm c mb = Inr (v, mb') \<Longrightarrow> mb_step asm mb mb'"
| st_class_ref: "class_ref_token asm c mb = Inr (t, mb') \<Longrightarrow> mb_step asm mb mb'"
| st_type_spec: "blob_at mb blob \<Longrightarrow> type_spec blob mb = Inr (t, mb') \<Longrightarrow> mb_step asm mb mb'"
| st_member_ref: "issued mb cls \<Longrightarrow> blob_at mb sg \<Longrightarrow> member_ref cls name sg mb = Inr (t, mb') \<Longrightarrow> mb_step asm mb mb'"
| st_valuetype_sig: "field_sig_for_valuetype_token tok mb = Inr (off, mb') \<Longrightarrow> mb_step asm mb mb'"
| st_type_def: "pred_option (issued mb) ext \<Longrightarrow> list_all (issued mb) implements
    \<Longrightarrow> add_type_def ns name vt ext pack sz implements mb = Inr (t, mb') \<Longrightarrow> mb_step asm mb mb'"
| st_blob_valuetype: "issued mb ext \<Longrightarrow> add_blob_sized_valuetype name ext sz mb = Inr (t, mb') \<Longrightarrow> mb_step asm mb mb'"
| st_field_list: "set_type_def_field_list t mb = Inr mb' \<Longrightarrow> mb_step asm mb mb'"
| st_method_list: "set_type_def_method_list t mb = Inr mb' \<Longrightarrow> mb_step asm mb mb'"
| st_access: "set_type_def_access t acc mb = Inr mb' \<Longrightarrow> mb_step asm mb mb'"
| st_interface: "mark_type_def_interface t mb = Inr mb' \<Longrightarrow> mb_step asm mb mb'"
| st_field: "blob_at mb sg \<Longrightarrow> add_field name sg offset mb = Inr (t, mb') \<Longrightarrow> mb_step asm mb mb'"
| st_enum_value: "blob_at mb sg \<Longrightarrow> add_enum_value_field sg mb = Inr (t, mb') \<Longrightarrow> mb_step asm mb mb'"
| st_enum_literal: "blob_at mb sg \<Longrightarrow> add_enum_literal_field name sg v mb = Inr (t, mb') \<Longrightarrow> mb_step asm mb mb'"
| st_static_field: "blob_at mb sg \<Longrightarrow> add_static_field name sg rva thr const mb = Inr (t, mb') \<Longrightarrow> mb_step asm mb mb'"
| st_field_rva: "set_field_rva t rva mb = Inr mb' \<Longrightarrow> mb_step asm mb mb'"
| st_nullable: "issued mb parent \<Longrightarrow> nullable_metadata_attribute parent flag ctx mb = Inr (t, mb') \<Longrightarrow> mb_step asm mb mb'"
| st_method: "blob_at mb sg \<Longrightarrow> add_method_with_access name acc sg names outs st vr ct pinvoke inl nl mb = Inr (t, mb')
    \<Longrightarrow> mb_step asm mb mb'"
| st_float: "mark_method_bit_preserving_float t mb = Inr mb' \<Longrightarrow> mb_step asm mb mb'"
| st_body: "set_method_body_rva t rva mb = Inr mb' \<Longrightarrow> mb_step asm mb mb'"
| st_reuse_slot: "mark_method_reuse_slot t mb = Inr mb' \<Longrightarrow> mb_step asm mb mb'"
| st_abstract: "mark_method_abstract t mb = Inr mb' \<Longrightarrow> mb_step asm mb mb'"
| st_static_abstract: "mark_method_static_abstract t mb = Inr mb' \<Longrightarrow> mb_step asm mb mb'"
| st_special_name: "mark_method_special_name t mb = Inr mb' \<Longrightarrow> mb_step asm mb mb'"
| st_register: "issued mb t \<Longrightarrow> token_table t = TABLE_METHOD_DEF \<Longrightarrow> mb_step asm mb (register_method_def m t mb)"
| st_entry: "mb_step asm mb (set_entry_point t mb)"
| st_method_spec: "issued mb m \<Longrightarrow> blob_at mb inst \<Longrightarrow> method_spec m inst mb = Inr (t, mb') \<Longrightarrow> mb_step asm mb mb'"
| st_standalone: "blob_at mb sg \<Longrightarrow> standalone_sig sg mb = Inr (t, mb') \<Longrightarrow> mb_step asm mb mb'"
| st_interface_impl: "issued mb cls \<Longrightarrow> issued mb iface \<Longrightarrow> interface_impl cls iface mb = Inr (t, mb') \<Longrightarrow> mb_step asm mb mb'"
| st_generic_param: "issued mb owner \<Longrightarrow> add_generic_param owner number name mb = Inr (t, mb') \<Longrightarrow> mb_step asm mb mb'"
| st_method_impl: "issued mb cls \<Longrightarrow> issued mb body \<Longrightarrow> issued mb decl \<Longrightarrow> add_method_impl cls body decl mb = Inr mb'
    \<Longrightarrow> mb_step asm mb mb'"
| st_event: "issued mb cls \<Longrightarrow> issued mb et \<Longrightarrow> add_event cls name et add remove mb = Inr mb' \<Longrightarrow> mb_step asm mb mb'"
| st_property: "issued mb cls \<Longrightarrow> blob_at mb sg \<Longrightarrow> add_property cls name sg getter setter mb = Inr (t, mb') \<Longrightarrow> mb_step asm mb mb'"
| st_property_nullable: "issued mb prop \<Longrightarrow> mark_property_nullable prop flag mb = Inr mb' \<Longrightarrow> mb_step asm mb mb'"
| st_user_string: "user_string_token s mb = Inr (t, mb') \<Longrightarrow> mb_step asm mb mb'"
| st_method_token: "method_token asm m mb = Inr (t, mb') \<Longrightarrow> mb_step asm mb mb'"
| st_field_token: "field_token asm fd mb = Inr (t, mb') \<Longrightarrow> mb_step asm mb mb'"
| st_static_field_token: "static_field_token asm sfd mb = Inr (t, mb') \<Longrightarrow> mb_step asm mb mb'"
| st_calli_sig: "mb_calli_sig_token key blob mb = Inr (t, mb') \<Longrightarrow> mb_step asm mb mb'"
| st_locals_token: "mb_locals_sig_token asm ts mb = Inr (t, mb') \<Longrightarrow> mb_step asm mb mb'"
| st_type_token: "type_token asm ty mb = Inr (t, mb') \<Longrightarrow> mb_step asm mb mb'"
| st_emit: "assemble_method_body (builder_sink asm buffer) blocks locals mb = Inr (body, mb') \<Longrightarrow> mb_step asm mb mb'"
| st_attribute: "issued mb parent \<Longrightarrow> add_custom_attribute asm parent attr mb = Inr (t, mb') \<Longrightarrow> mb_step asm mb mb'"
| st_method_attributes: "issued mb m \<Longrightarrow> add_method_custom_attributes asm m ma ra pa mb = Inr mb' \<Longrightarrow> mb_step asm mb mb'"

inductive built :: "'a assembly_scheme \<Rightarrow> metadata_builder \<Rightarrow> bool" for asm where
  built_new: "mb_new = Inr mb \<Longrightarrow> built asm mb"
| built_settings: "built asm mb \<Longrightarrow> built asm (mb\<lparr>mb_is_lib := lib, mb_runtime := rt, mb_public_module_full_name := nm\<rparr>)"
| built_step: "built asm mb \<Longrightarrow> mb_step asm mb mb' \<Longrightarrow> built asm mb'"

lemma issued_ok: "issued mb t \<Longrightarrow> token_ok mb t"
  by (simp add: issued_def tok_ok_def valid_def any_table_simps(2))

lemma issued_some_ok: "pred_option (issued mb) s \<Longrightarrow> s = Some t \<Longrightarrow> token_ok mb t"
  by (simp add: issued_ok)

lemma issued_list_ok: "list_all (issued mb) ts \<Longrightarrow> list_all (token_ok mb) ts"
  by (auto simp: list_all_iff issued_ok)

lemma blob_at_ok: "blob_at mb off \<Longrightarrow> blob_ok mb off"
  by (simp add: blob_at_def blob_ok_def)

lemma yieldsD:
  "m1 = Inr (mb', x1) \<Longrightarrow> yields fst mb (map_sum TableSig id m1) Q1 \<Longrightarrow> refers_ok mb'"
  "m = Inr (x, mb') \<Longrightarrow> yields snd mb m Q \<Longrightarrow> refers_ok mb'"
  "m2 = Inr mb' \<Longrightarrow> yields (\<lambda>mb. mb) mb m2 Q2 \<Longrightarrow> refers_ok mb'"
  by (auto simp: yields_def map_sum_Inr)

lemmas step_yields = encode_yields intern_string_yields intern_blob_yields set_module_yields finish_module_yields set_assembly_yields
  assembly_ref_yields find_or_create_assembly_ref_yields intern_module_ref_yields type_ref_yields type_def_or_ref_yields class_ref_token_yields
  type_spec_yields member_ref_yields field_sig_for_valuetype_token_yields add_type_def_yields add_blob_sized_valuetype_yields
  set_type_def_field_list_yields set_type_def_method_list_yields set_type_def_access_yields mark_type_def_interface_yields
  add_field_yields add_enum_value_field_yields add_enum_literal_field_yields add_static_field_yields set_field_rva_yields
  nullable_metadata_attribute_yields add_method_with_access_yields mark_method_yields method_spec_yields standalone_sig_yields
  interface_impl_yields add_generic_param_yields add_method_impl_yields add_event_yields add_property_yields
  mark_property_nullable_yields add_custom_attribute_yields add_method_custom_attributes_yields user_string_token_yields
  method_token_yields field_tokens_yield mb_calli_sig_token_yields mb_locals_sig_token_yields type_token_yields

lemma mb_step_refers:
  assumes "mb_step asm mb mb'" "refers_ok mb"
  shows "refers_ok mb'"
  using assms(1)
proof cases
  case st_register
  then show ?thesis using assms(2) by (auto simp: register_method_def_def tok_ok_def valid_def issued_def ref_tables_def intro!: method_def_cache_ok)
next
  case st_emit
  then show ?thesis using assms(2) by (rule assemble_method_body_refers [rotated])
next
  case st_entry
  then show ?thesis using assms(2) by (simp add: set_entry_point_def)
qed (erule yieldsD, rule step_yields, (rule assms(2) | erule issued_ok issued_list_ok blob_at_ok | erule (1) issued_some_ok)+)+

lemma built_refers: "built asm mb \<Longrightarrow> refers_ok mb"
  by (induction rule: built.induct) (auto dest: mb_new_refers mb_step_refers)
section \<open>What the exporter writes reads back\<close>

text \<open>The limits of the format: a token has 24 bits for its row, and no table with runs has exactly 65535 rows.\<close>

definition within_limits :: "metadata_builder \<Rightarrow> bool" where
  "within_limits mb \<longleftrightarrow>
     list_all (\<lambda>(t, rs). length rs < 2 ^ 24 \<and> (length rs = 65535 \<longrightarrow> t \<notin> {4, 6, 8, 20, 23})) (raw_contents mb)"

lemma within_limits_small: "within_limits mb \<Longrightarrow> small mb"
  by (simp add: within_limits_def small_def ref_tables_def raw_contents_def)

definition fits :: "nat \<Rightarrow> nat list \<Rightarrow> bool" where
  "fits t r \<longleftrightarrow> list_all2 (\<lambda>c v. v < 2 ^ 32 \<and> (case c of Fixed n \<Rightarrow> v < 256 ^ n | _ \<Rightarrow> True)) (the (map_of schemas t)) r"

lemma unat_bounds [simp]: "unat (a :: u8) < 256" "unat (b :: u16) < 65536" "unat (c :: u32) < 4294967296"
  "unat (a :: u8) < 4294967296" "unat (b :: u16) < 4294967296"
proof -
  have "unat a < 2 ^ LENGTH(8)" "unat b < 2 ^ LENGTH(16)" "unat c < 2 ^ LENGTH(32)" by (rule unsigned_less)+
  then show "unat a < 256" "unat b < 65536" "unat c < 4294967296" by simp_all
  then show "unat a < 4294967296" "unat b < 4294967296" by linarith+
qed

lemma row_fits: "list_all (\<lambda>(t, rs). list_all (fits t) rs) (raw_contents mb)"
  by (auto simp: raw_contents_def list_all_iff fits_def schemas_def row_cols version_cols_def split: prod.split)

lemma raw_contents_sorted:
  "list_all2 (\<lambda>(t, rs) (t', rs'). t = t' \<and> length rs = length rs' \<and> set rs = set rs') (raw_contents mb) (table_contents mb)"
  by (simp add: raw_contents_def table_contents_def)

lemma content_rows_of_raw: "(t, rs) \<in> set (raw_contents mb) \<Longrightarrow> content_rows mb t = length rs"
  by (auto simp: raw_contents_def content_rows_def table_contents_def rows_of_def)

lemma refers_in_column:
  assumes "refers mb c v" "v < 2 ^ 32" "case c of Fixed n \<Rightarrow> v < 256 ^ n | RunStart t \<Rightarrow> content_rows mb t \<noteq> 65535 | _ \<Rightarrow> True"
  shows "in_column mb (content_rows mb) c v"
proof -
  have v: "unat (word_of_nat v :: u32) = v" using assms(2) by (simp add: word_of_nat_unat_lt)
  show ?thesis
  proof (cases c)
    case StrHeap
    then show ?thesis using assms v by (auto simp: refers_def in_column_def strings_read_def split: if_splits)
  next
    case BlobHeap
    have "read_compressed_u32 [] = None" by simp
    then show ?thesis using assms v BlobHeap
      by (cases "v \<le> length (b_data (mb_blobs mb))") (auto simp: refers_def in_column_def blob_read_def)
  next
    case GuidHeap
    then show ?thesis using assms by (auto simp: refers_def in_column_def)
  qed (use assms in \<open>simp_all add: refers_def in_column_def\<close>)
qed

lemma run_tables: "list_all (\<lambda>(_, cs). list_all (\<lambda>c. case c of RunStart t \<Rightarrow> t \<in> {4, 6, 8, 20, 23} | _ \<Rightarrow> True) cs) schemas"
  by (simp add: schemas_def)

lemma refers_ok_in_range:
  assumes "refers_ok mb" "within_limits mb"
  shows "rows_in_range mb"
proof -
  have tr: "tables_refer mb" using assms within_limits_small by (simp add: refers_ok_def)
  have run: "content_rows mb t \<noteq> 65535" if "t \<in> {4, 6, 8, 20, 23}" for t
    using assms(2) that by (auto simp: within_limits_def raw_contents_def)
  have "length rs < 2 ^ 32 \<and> list_all (\<lambda>r. list_all2 (in_column mb (content_rows mb)) (the (map_of schemas t)) r) rs"
    if mem: "(t, rs) \<in> set (table_contents mb)" for t rs
  proof -
    obtain rs0 where raw: "(t, rs0) \<in> set (raw_contents mb)" "length rs0 = length rs" "set rs0 = set rs"
    proof -
      assume *: "\<And>rs0. (t, rs0) \<in> set (raw_contents mb) \<Longrightarrow> length rs0 = length rs \<Longrightarrow> set rs0 = set rs \<Longrightarrow> thesis"
      obtain n where n: "n < length (table_contents mb)" "table_contents mb ! n = (t, rs)"
        using mem by (auto simp: in_set_conv_nth)
      obtain t0 rs0 where o: "raw_contents mb ! n = (t0, rs0)" by fastforce
      have len: "length (raw_contents mb) = length (table_contents mb)"
        using raw_contents_sorted by (rule list_all2_lengthD)
      have "t0 = t \<and> length rs0 = length rs \<and> set rs0 = set rs"
        using list_all2_nthD2 [OF raw_contents_sorted n(1)] n(2) o by simp
      moreover have "(t0, rs0) \<in> set (raw_contents mb)" using n(1) o len by (metis nth_mem)
      ultimately show thesis using * by blast
    qed
    have "t \<in> fst ` set schemas" using raw(1) raw_ids [of mb] by (metis fst_conv image_eqI list.set_map)
    then obtain cs where cs: "map_of schemas t = Some cs" by (metis weak_map_of_SomeI imageE prod.collapse)
    then have rt: "list_all (\<lambda>c. case c of RunStart t \<Rightarrow> t \<in> {4, 6, 8, 20, 23} | _ \<Rightarrow> True) cs"
      using run_tables by (auto simp: list_all_iff dest!: map_of_SomeD)
    have "list_all2 (in_column mb (content_rows mb)) cs r" if "r \<in> set rs" for r
    proof -
      have "list_all2 (refers mb) cs r" using tr raw that cs by (auto simp: tables_refer_def list_all_iff row_refers_def)
      moreover have "list_all2 (\<lambda>c v. v < 2 ^ 32 \<and> (case c of Fixed n \<Rightarrow> v < 256 ^ n | _ \<Rightarrow> True)) cs r"
        using row_fits [of mb] raw that cs by (auto simp: list_all_iff fits_def)
      ultimately have i: "length cs = length r" "\<forall>i<length r. refers mb (cs ! i) (r ! i) \<and> r ! i < 2 ^ 32"
        "\<And>i n. i < length r \<Longrightarrow> cs ! i = Fixed n \<Longrightarrow> r ! i < 256 ^ n"
        by (fastforce simp: list_all2_conv_all_nth)+
      have "content_rows mb t \<noteq> 65535" if "i < length r" "cs ! i = RunStart t" for i t
        using rt run [of t] i(1) that by (fastforce simp: list_all_length)
      then show ?thesis using i by (auto simp: list_all2_conv_all_nth intro!: refers_in_column split: column.split)
    qed
    moreover have "length rs < 2 ^ 24" using assms(2) raw by (auto simp: within_limits_def list_all_iff)
    ultimately show ?thesis using cs by (simp add: list_all_iff)
  qed
  then show ?thesis by (auto simp: rows_in_range_def list_all_iff)
qed

text \<open>
  C2. Whatever calls the exporter makes on a fresh builder, as long as the tokens and signature offsets it passes are
  ones it was handed, the metadata stays sound: every string and blob column reads back from its heap, every row number and
  coded index names a row that exists, and the table stream written from it is read back row by row by a reader of the
  standard. The format's limits are the hypothesis: fewer than $2^{24}$ rows to a table, and no table with runs has
  exactly 65535.
\<close>

theorem built_metadata_sound:
  assumes "built asm mb" "within_limits mb"
  shows "list_all (\<lambda>(t, rs). list_all (list_all2 (refers mb) (the (map_of schemas t))) rs) (raw_contents mb)
    \<and> (\<exists>s. read_tables (serialize_tables mb (row_counts_of mb) (widths_of mb) @ rest) = Some (s, rest)
         \<and> st_tables s = filter (\<lambda>(_, rs). rs \<noteq> []) (table_contents mb))"
proof -
  have ok: "refers_ok mb" using assms(1) by (rule built_refers)
  then have "tables_refer mb" using within_limits_small [OF assms(2)] by (simp add: refers_ok_def)
  then show ?thesis
    using tables_read_back [OF refers_ok_in_range [OF ok assms(2)], of rest]
    unfolding tables_refer_def row_refers_def by blast
qed

definition sample_new :: metadata_builder where
  "sample_new = mb_default\<lparr>
     mb_strings := \<lparr>s_data = 0 # str_bytes ''<Module>'' @ [0], s_interned = [str_bytes ''<Module>'' \<mapsto> 1]\<rparr>,
     mb_type_def := [\<lparr>td_flags = 0, td_name = 1, td_namespace = 0, td_extends = 0, td_field_list = 1, td_method_list = 1\<rparr>],
     mb_type_def_cache := [('''', ''<Module>'') \<mapsto> token_new TABLE_TYPE_DEF 1]\<rparr>"

lemma sample_new: "mb_new = Inr sample_new"
  by (simp add: mb_new_def mb_intern_string_def strings_intern_def mb_default_def heap_defaults try_u32_def str_bytes_def sample_new_def)

lemma sample_calls:
  "\<exists>u mb. type_ref None ''System'' ''Object'' sample_new = Inr (u, mb) \<and> within_limits mb \<and> mb_type_ref mb \<noteq> []"
  by (simp add: type_ref_def sample_new_def mb_default_def encode_resolution_scope_def mb_intern_string_def strings_intern_def
      str_bytes_def try_u32_def row_id_def Let_def within_limits_def raw_contents_def)

theorem built_metadata_sound_witness:
  "\<exists>mb. built empty_assembly mb \<and> mb_type_ref mb \<noteq> [] 
    \<and> list_all (\<lambda>(t, rs). list_all (list_all2 (refers mb) (the (map_of schemas t))) rs) (raw_contents mb)
    \<and> (\<exists>s. read_tables (serialize_tables mb (row_counts_of mb) (widths_of mb)) = Some (s, [])
         \<and> st_tables s = filter (\<lambda>(_, rs). rs \<noteq> []) (table_contents mb))"
proof -
  obtain u mb where r: "type_ref None ''System'' ''Object'' sample_new = Inr (u, mb)" "within_limits mb" "mb_type_ref mb \<noteq> []"
    using sample_calls by blast
  have "built empty_assembly sample_new" using sample_new by (rule built_new)
  then have b: "built empty_assembly mb" using st_type_ref [OF _ r(1)] by (auto intro: built_step)
  show ?thesis using built_metadata_sound [OF b r(2), of "[]"] b r(3) by auto
qed

end
