(* ===== verification/Interner.thy ===== *)
theory Interner
  imports Prelude "HOL-Library.Multiset"
begin

text \<open>
  The interner \<^verbatim>\<open>BiMap\<close> (\<^verbatim>\<open>cilly/src/ir/bimap.rs\<close>), which gives every string, type, node, root and signature of an
  assembly its index. Values are kept once, in a vector; a raw hash table of the crate \<^verbatim>\<open>hashbrown\<close> maps hashes to
  indices. The table, its documented laws and the hash function are parameters.
\<close>

section \<open>The raw hash table\<close>

text \<open>The operations the interner calls; \<open>'t\<close> is the table, its elements are one-based indices.\<close>

record 't hash_table =
  ht_new :: 't
  ht_len :: "'t \<Rightarrow> nat"
  ht_find :: "'t \<Rightarrow> u64 \<Rightarrow> (u32 \<Rightarrow> bool) \<Rightarrow> u32 option"
  ht_insert_unique :: "'t \<Rightarrow> u64 \<Rightarrow> u32 \<Rightarrow> (u32 \<Rightarrow> u64) \<Rightarrow> 't"
  ht_clear :: "'t \<Rightarrow> 't"

text \<open>
  What the crate documents, over the entries a table holds. \<^verbatim>\<open>find\<close> tries every entry with the given hash and
  perhaps some with another; \<^verbatim>\<open>insert_unique\<close> adds an entry without looking for an equal one and may rehash, so the
  hasher has to agree with the hashes stored.
\<close>

definition hash_table_laws :: "'t hash_table \<Rightarrow> ('t \<Rightarrow> (u64 \<times> u32) multiset) \<Rightarrow> bool" where
  "hash_table_laws ht entries \<longleftrightarrow>
     entries (ht_new ht) = {#}
     \<and> (\<forall>t. ht_len ht t = size (entries t))
     \<and> (\<forall>t h p x. ht_find ht t h p = Some x \<longrightarrow> p x \<and> (\<exists>h'. (h', x) \<in># entries t))
     \<and> (\<forall>t h p x. (h, x) \<in># entries t \<longrightarrow> p x \<longrightarrow> ht_find ht t h p \<noteq> None)
     \<and> (\<forall>t h x hasher. (\<forall>h' y. (h', y) \<in># entries t \<longrightarrow> hasher y = h') \<longrightarrow>
          entries (ht_insert_unique ht t h x hasher) = add_mset (h, x) (entries t))
     \<and> (\<forall>t. entries (ht_clear ht t) = {#})"

section \<open>The interner\<close>

datatype bimap_validation_error = DuplicateValue u32 u32 | IndexOutOfSync

text \<open>The \<^verbatim>\<open>Display\<close> text of the error.\<close>

definition bimap_error_text :: "bimap_validation_error \<Rightarrow> string" where
  "bimap_error_text e =
     (case e of
        DuplicateValue first duplicate \<Rightarrow>
          ''duplicate serialized/interned value at ids '' @ show_nat (unat first) @ '' and '' @ show_nat (unat duplicate)
      | IndexOutOfSync \<Rightarrow> ''id-only hash index is out of sync with values'')"

text \<open>A rejected input, or a panic: an index that does not fit, an index never handed out, a broken \<^verbatim>\<open>expect\<close>.\<close>

datatype bimap_fault =
    Rejected bimap_validation_error
  | IdOutOfRange
  | IdOverflow
  | NotAnId u32
  | UniquenessViolated bimap_validation_error

record ('v, 't) bimap =
  bm_values :: "'v list"
  bm_index :: 't

definition id_for_zero_based :: "nat \<Rightarrow> (bimap_fault, u32) result" where
  "id_for_zero_based zero_based =
     (if zero_based < 2 ^ 32
      then let i = word_of_nat zero_based :: u32 in if i = - 1 then Inl IdOverflow else Inr (i + 1)
      else Inl IdOutOfRange)"

text \<open>The value of an index; an index is a \<^verbatim>\<open>NonZeroU32\<close>.\<close>

definition id_value :: "'v list \<Rightarrow> u32 \<Rightarrow> 'v option" where
  "id_value values i = (if i = 0 then None else nth_opt values (unat i - 1))"

definition bm_get :: "('v, 't) bimap \<Rightarrow> u32 \<Rightarrow> (bimap_fault, 'v) result" where
  "bm_get m key = ok_or (id_value (bm_values m) key) (NotAnId key)"

text \<open>
  The closures handed to the table dereference the indices it stores; no index it stores is unknown
  (\<open>stored_ids_known\<close>), so what they do on one does not matter.
\<close>

definition id_denotes :: "'v list \<Rightarrow> 'v \<Rightarrow> u32 \<Rightarrow> bool" where
  "id_denotes values v i \<longleftrightarrow> id_value values i = Some v"

definition hash_of_id :: "('v \<Rightarrow> u64) \<Rightarrow> 'v list \<Rightarrow> u32 \<Rightarrow> u64" where
  "hash_of_id hash values i = (case id_value values i of Some v \<Rightarrow> hash v | None \<Rightarrow> 0)"

definition find_id :: "'t hash_table \<Rightarrow> ('v, 't) bimap \<Rightarrow> u64 \<Rightarrow> 'v \<Rightarrow> u32 option" where
  "find_id ht m h v = ht_find ht (bm_index m) h (id_denotes (bm_values m) v)"

definition intern_full ::
  "'t hash_table \<Rightarrow> ('v \<Rightarrow> u64) \<Rightarrow> 'v \<Rightarrow> ('v, 't) bimap \<Rightarrow> (bimap_fault, (u32 \<times> bool) \<times> ('v, 't) bimap) result" where
  "intern_full ht hash v m =
     (let h = hash v in
      case find_id ht m h v of
        Some i \<Rightarrow> Inr ((i, False), m)
      | None \<Rightarrow>
          rbind (id_for_zero_based (length (bm_values m))) (\<lambda>i.
          let values = bm_values m @ [v] in
          Inr ((i, True), \<lparr>bm_values = values, bm_index = ht_insert_unique ht (bm_index m) h i (hash_of_id hash values)\<rparr>)))"

definition intern :: "'t hash_table \<Rightarrow> ('v \<Rightarrow> u64) \<Rightarrow> 'v \<Rightarrow> ('v, 't) bimap \<Rightarrow> (bimap_fault, u32 \<times> ('v, 't) bimap) result" where
  "intern ht hash v m = rbind (intern_full ht hash v m) (\<lambda>((i, _), m). Inr (i, m))"

definition bm_alloc :: "'t hash_table \<Rightarrow> ('v \<Rightarrow> u64) \<Rightarrow> 'v \<Rightarrow> ('v, 't) bimap \<Rightarrow> (bimap_fault, u32 \<times> ('v, 't) bimap) result" where
  "bm_alloc = intern"

definition get_id :: "'t hash_table \<Rightarrow> ('v \<Rightarrow> u64) \<Rightarrow> ('v, 't) bimap \<Rightarrow> 'v \<Rightarrow> u32 option" where
  "get_id ht hash m v = find_id ht m (hash v) v"

definition contains_value :: "'t hash_table \<Rightarrow> ('v \<Rightarrow> u64) \<Rightarrow> ('v, 't) bimap \<Rightarrow> 'v \<Rightarrow> bool" where
  "contains_value ht hash m v \<longleftrightarrow> get_id ht hash m v \<noteq> None"

definition bm_ids :: "('v, 't) bimap \<Rightarrow> (bimap_fault, u32 list) result" where
  "bm_ids m = rmap id_for_zero_based [0..<length (bm_values m)]"

definition bm_iter :: "('v, 't) bimap \<Rightarrow> (bimap_fault, (u32 \<times> 'v) list) result" where
  "bm_iter m = rbind (bm_ids m) (\<lambda>is. Inr (zip is (bm_values m)))"

text \<open>The loop of \<^verbatim>\<open>build_index\<close>, at position \<open>n\<close> of \<open>values\<close>.\<close>

fun build_index_from ::
  "'t hash_table \<Rightarrow> ('v \<Rightarrow> u64) \<Rightarrow> 'v list \<Rightarrow> nat \<Rightarrow> 'v list \<Rightarrow> 't \<Rightarrow> (bimap_fault, 't) result" where
  "build_index_from ht hash values n [] index = Inr index"
| "build_index_from ht hash values n (v # vs) index =
     rbind (id_for_zero_based n) (\<lambda>i.
     case ht_find ht index (hash v) (id_denotes values v) of
       Some first \<Rightarrow> Inl (Rejected (DuplicateValue first i))
     | None \<Rightarrow> build_index_from ht hash values (Suc n) vs (ht_insert_unique ht index (hash v) i (hash_of_id hash values)))"

definition build_index :: "'t hash_table \<Rightarrow> ('v \<Rightarrow> u64) \<Rightarrow> 'v list \<Rightarrow> (bimap_fault, 't) result" where
  "build_index ht hash values = build_index_from ht hash values 0 values (ht_new ht)"

definition from_values :: "'t hash_table \<Rightarrow> ('v \<Rightarrow> u64) \<Rightarrow> 'v list \<Rightarrow> (bimap_fault, ('v, 't) bimap) result" where
  "from_values ht hash values =
     rbind (build_index ht hash values) (\<lambda>index. Inr \<lparr>bm_values = values, bm_index = index\<rparr>)"

definition bm_default :: "'t hash_table \<Rightarrow> ('v, 't) bimap" where
  "bm_default ht = \<lparr>bm_values = [], bm_index = ht_new ht\<rparr>"

text \<open>\<^verbatim>\<open>expect\<close> and \<^verbatim>\<open>unwrap_or_else\<close>: a rejection becomes a panic.\<close>

definition expect_unique :: "(bimap_fault, 'a) result \<Rightarrow> (bimap_fault, 'a) result" where
  "expect_unique r = (case r of Inl (Rejected e) \<Rightarrow> Inl (UniquenessViolated e) | _ \<Rightarrow> r)"

definition bm_clone :: "'t hash_table \<Rightarrow> ('v \<Rightarrow> u64) \<Rightarrow> ('v, 't) bimap \<Rightarrow> (bimap_fault, ('v, 't) bimap) result" where
  "bm_clone ht hash m = expect_unique (from_values ht hash (bm_values m))"

definition bm_serialize :: "('v, 't) bimap \<Rightarrow> 'v list" where
  "bm_serialize m = bm_values m"

text \<open>
  \<^verbatim>\<open>deserialize\<close>: the sequence of values is read by the deserializer, whose error passes through; a
  rejection becomes the deserializer's own error, which \<^verbatim>\<open>D::Error::custom\<close> (the parameter \<open>custom\<close>)
  makes from the displayed text; a panic stays one.
\<close>

datatype 'e de_fault = DeError 'e | DePanic bimap_fault

definition bm_deserialize ::
  "(string \<Rightarrow> 'e) \<Rightarrow> 't hash_table \<Rightarrow> ('v \<Rightarrow> u64) \<Rightarrow> ('e, 'v list) result \<Rightarrow> ('e de_fault, ('v, 't) bimap) result" where
  "bm_deserialize custom ht hash input =
     rbind (map_sum DeError id input) (\<lambda>values.
     case from_values ht hash values of
       Inr m \<Rightarrow> Inr m
     | Inl (Rejected e) \<Rightarrow> Inl (DeError (custom (bimap_error_text e)))
     | Inl panic \<Rightarrow> Inl (DePanic panic))"

definition map_values :: "'t hash_table \<Rightarrow> ('v \<Rightarrow> u64) \<Rightarrow> ('v \<Rightarrow> 'v) \<Rightarrow> ('v, 't) bimap \<Rightarrow> (bimap_fault, ('v, 't) bimap) result" where
  "map_values ht hash f m =
     (let transformed = map f (bm_values m) in
      rbind (expect_unique (build_index ht hash transformed)) (\<lambda>index.
      Inr \<lparr>bm_values = transformed, bm_index = index\<rparr>))"

definition bm_validate :: "'t hash_table \<Rightarrow> ('v \<Rightarrow> u64) \<Rightarrow> ('v, 't) bimap \<Rightarrow> (bimap_fault, unit) result" where
  "bm_validate ht hash m =
     rbind (build_index ht hash (bm_values m)) (\<lambda>_.
     if ht_len ht (bm_index m) \<noteq> length (bm_values m) then Inl (Rejected IndexOutOfSync)
     else rbind (bm_iter m) (\<lambda>entries.
       if list_all (\<lambda>(i, v). find_id ht m (hash v) v = Some i) entries then Inr ()
       else Inl (Rejected IndexOutOfSync)))"

definition rebuild_index :: "'t hash_table \<Rightarrow> ('v \<Rightarrow> u64) \<Rightarrow> ('v, 't) bimap \<Rightarrow> (bimap_fault, ('v, 't) bimap) result" where
  "rebuild_index ht hash m =
     rbind (build_index ht hash (bm_values m)) (\<lambda>rebuilt. Inr (m\<lparr>bm_index := rebuilt\<rparr>))"

definition bm_truncate :: "'t hash_table \<Rightarrow> ('v \<Rightarrow> u64) \<Rightarrow> nat \<Rightarrow> ('v, 't) bimap \<Rightarrow> (bimap_fault, ('v, 't) bimap) result" where
  "bm_truncate ht hash len m = expect_unique (rebuild_index ht hash (m\<lparr>bm_values := take len (bm_values m)\<rparr>))"

definition bm_clear :: "'t hash_table \<Rightarrow> ('v, 't) bimap \<Rightarrow> ('v, 't) bimap" where
  "bm_clear ht m = \<lparr>bm_values = [], bm_index = ht_clear ht (bm_index m)\<rparr>"

section \<open>The interner keeps its index in step\<close>

definition indexed :: "('v \<Rightarrow> u64) \<Rightarrow> 'v list \<Rightarrow> (u64 \<times> u32) multiset" where
  "indexed hash vs = mset (map (\<lambda>n. (hash (vs ! n), word_of_nat (Suc n))) [0..<length vs])"

definition bimap_ok :: "('t \<Rightarrow> (u64 \<times> u32) multiset) \<Rightarrow> ('v \<Rightarrow> u64) \<Rightarrow> ('v, 't) bimap \<Rightarrow> bool" where
  "bimap_ok entries hash m \<longleftrightarrow> distinct (bm_values m) \<and> length (bm_values m) < 2 ^ 32
     \<and> entries (bm_index m) = indexed hash (bm_values m)"

lemma indexed_Nil [simp]: "indexed hash [] = {#}"
  by (simp add: indexed_def)

lemma indexed_snoc [simp]: "indexed hash (vs @ [v]) = add_mset (hash v, word_of_nat (Suc (length vs))) (indexed hash vs)"
proof -
  have "map (\<lambda>n. (hash ((vs @ [v]) ! n), word_of_nat (Suc n) :: u32)) [0..<length (vs @ [v])]
      = map (\<lambda>n. (hash (vs ! n), word_of_nat (Suc n))) [0..<length vs] @ [(hash v, word_of_nat (Suc (length vs)))]"
    by (simp add: nth_append)
  then show ?thesis unfolding indexed_def by (simp only: mset_append) simp
qed

lemma in_indexed: "(h, i) \<in># indexed hash vs \<longleftrightarrow> (\<exists>n<length vs. h = hash (vs ! n) \<and> i = word_of_nat (Suc n))"
  by (auto simp: indexed_def)

lemma size_indexed [simp]: "size (indexed hash vs) = length vs"
  by (simp add: indexed_def)

lemma unat_index: "n < 2 ^ 32 - 1 \<Longrightarrow> unat (word_of_nat (Suc n) :: u32) = Suc n"
  by (rule word_of_nat_unat_lt) simp

lemma id_value_of [simp]:
  assumes "n < length vs" "length vs < 2 ^ 32"
  shows "id_value vs (word_of_nat (Suc n)) = Some (vs ! n)"
proof -
  have u: "unat (word_of_nat (Suc n) :: u32) = Suc n" using assms by (intro unat_index) simp
  then have "(word_of_nat (Suc n) :: u32) \<noteq> 0" by (metis unat_0 nat.distinct(1))
  then show ?thesis using assms u by (simp add: id_value_def del: of_nat_Suc)
qed

lemma id_valueD: "id_value vs i = Some v \<Longrightarrow> \<exists>n<length vs. i = word_of_nat (Suc n) \<and> vs ! n = v"
proof -
  assume a: "id_value vs i = Some v"
  then have "i \<noteq> 0" "unat i - 1 < length vs" "vs ! (unat i - 1) = v" by (auto simp: id_value_def split: if_splits)
  moreover from this have "0 < unat i" by (simp add: unat_gt_0)
  then have "i = word_of_nat (Suc (unat i - 1))" by (simp del: of_nat_Suc)
  ultimately show ?thesis by blast
qed

lemma id_value_prefix: "id_value vs i = Some v \<Longrightarrow> id_value (vs @ ws) i = Some v"
  by (auto simp: id_value_def nth_append split: if_splits)

lemma id_for_zero_based_ok [simp]: "n < 2 ^ 32 - 1 \<Longrightarrow> id_for_zero_based n = Inr (word_of_nat (Suc n))"
proof -
  assume n: "n < 2 ^ 32 - 1"
  have "(word_of_nat n :: u32) \<noteq> - 1"
  proof
    assume "(word_of_nat n :: u32) = - 1"
    then have "(word_of_nat (Suc n) :: u32) = 0" by simp
    then show False using unat_index [OF n] by (metis unat_0 nat.distinct(1))
  qed
  then show ?thesis using n by (simp add: id_for_zero_based_def Let_def add.commute)
qed

lemma find_present:
  assumes laws: "hash_table_laws ht entries" and t: "entries t = indexed hash vs"
    and "distinct vs" "length (vs @ ws) < 2 ^ 32" "n < length vs"
  shows "ht_find ht t (hash (vs ! n)) (id_denotes (vs @ ws) (vs ! n)) = Some (word_of_nat (Suc n))"
proof -
  let ?p = "id_denotes (vs @ ws) (vs ! n)"
  have v: "id_value (vs @ ws) (word_of_nat (Suc k)) = Some (vs ! k)" if "k < length vs" for k
    using that assms(4) id_value_of [of k "vs @ ws"] by (simp add: nth_append del: of_nat_Suc)
  have "(hash (vs ! n), word_of_nat (Suc n)) \<in># entries t" "?p (word_of_nat (Suc n))"
    using assms v by (auto simp: in_indexed id_denotes_def simp del: of_nat_Suc)
  then obtain i where i: "ht_find ht t (hash (vs ! n)) ?p = Some i"
    using laws unfolding hash_table_laws_def by blast
  then have p: "?p i" and "\<exists>h. (h, i) \<in># entries t" using laws unfolding hash_table_laws_def by blast+
  then obtain k where k: "k < length vs" "i = word_of_nat (Suc k)" using t by (auto simp: in_indexed)
  then have "vs ! k = vs ! n" using p v by (simp add: id_denotes_def del: of_nat_Suc)
  then show ?thesis using i k assms by (simp add: nth_eq_iff_index_eq del: of_nat_Suc)
qed

lemma find_absent:
  assumes laws: "hash_table_laws ht entries" and t: "entries t = indexed hash vs"
    and "length (vs @ ws) < 2 ^ 32" "v \<notin> set vs"
  shows "ht_find ht t h (id_denotes (vs @ ws) v) = None"
proof (rule ccontr)
  assume "ht_find ht t h (id_denotes (vs @ ws) v) \<noteq> None"
  then obtain i where "ht_find ht t h (id_denotes (vs @ ws) v) = Some i" by blast
  then have p: "id_denotes (vs @ ws) v i" "\<exists>h. (h, i) \<in># entries t" using laws unfolding hash_table_laws_def by blast+
  then obtain k where k: "k < length vs" "i = word_of_nat (Suc k)" using t by (auto simp: in_indexed)
  then have "(vs @ ws) ! k = v" using p assms(3) id_value_of [of k "vs @ ws"] by (simp add: id_denotes_def del: of_nat_Suc)
  then show False using k assms(4) by (auto simp: nth_append)
qed

lemma insert_indexed:
  assumes laws: "hash_table_laws ht entries" and t: "entries t = indexed hash vs" and "length (vs @ v # ws) < 2 ^ 32"
  shows "entries (ht_insert_unique ht t (hash v) (word_of_nat (Suc (length vs))) (hash_of_id hash (vs @ v # ws)))
    = indexed hash (vs @ [v])"
proof -
  have "hash_of_id hash (vs @ v # ws) i = h" if hi: "(h, i) \<in># entries t" for h i
  proof -
    obtain k where "k < length vs" "i = word_of_nat (Suc k)" "h = hash (vs ! k)" using hi t by (auto simp: in_indexed)
    then show ?thesis using assms(3) id_value_of [of k "vs @ v # ws"] by (simp add: hash_of_id_def nth_append del: of_nat_Suc)
  qed
  then show ?thesis using laws t unfolding hash_table_laws_def by simp
qed

lemma build_index_from_ok:
  assumes laws: "hash_table_laws ht entries"
  shows "entries t = indexed hash vs \<Longrightarrow> distinct (vs @ ws) \<Longrightarrow> length (vs @ ws) < 2 ^ 32 \<Longrightarrow>
    \<exists>t'. build_index_from ht hash (vs @ ws) (length vs) ws t = Inr t' \<and> entries t' = indexed hash (vs @ ws)"
proof (induction ws arbitrary: vs t)
  case (Cons v ws)
  have f: "ht_find ht t (hash v) (id_denotes (vs @ v # ws) v) = None"
    by (rule find_absent [OF laws Cons.prems(1,3)]) (use Cons.prems in simp)
  have "id_for_zero_based (length vs) = Inr (word_of_nat (Suc (length vs)))" using Cons.prems(3) by (intro id_for_zero_based_ok) simp
  then show ?case
    using Cons.IH [of "ht_insert_unique ht t (hash v) (word_of_nat (Suc (length vs))) (hash_of_id hash (vs @ v # ws))" "vs @ [v]"]
      insert_indexed [OF laws Cons.prems(1,3)] Cons.prems f
    by (simp del: of_nat_Suc)
qed simp

lemma build_index_from_duplicate:
  assumes laws: "hash_table_laws ht entries"
  shows "entries t = indexed hash vs \<Longrightarrow> distinct (vs @ xs) \<Longrightarrow> length (vs @ xs @ v # ys) < 2 ^ 32 \<Longrightarrow>
    n < length (vs @ xs) \<Longrightarrow> (vs @ xs) ! n = v \<Longrightarrow>
    build_index_from ht hash (vs @ xs @ v # ys) (length vs) (xs @ v # ys) t
      = Inl (Rejected (DuplicateValue (word_of_nat (Suc n)) (word_of_nat (Suc (length (vs @ xs))))))"
proof (induction xs arbitrary: vs t)
  case Nil
  have i: "id_for_zero_based (length vs) = Inr (word_of_nat (Suc (length vs)))" using Nil.prems(3) by (intro id_for_zero_based_ok) simp
  then show ?case
    using find_present [OF laws Nil.prems(1), of "v # ys" n] Nil.prems by (simp del: of_nat_Suc)
next
  case (Cons x xs)
  have f: "ht_find ht t (hash x) (id_denotes (vs @ x # xs @ v # ys) x) = None"
    using find_absent [OF laws Cons.prems(1), of "x # xs @ v # ys" x] Cons.prems by simp
  have i: "id_for_zero_based (length vs) = Inr (word_of_nat (Suc (length vs)))" using Cons.prems(3) by (intro id_for_zero_based_ok) simp
  have e: "entries (ht_insert_unique ht t (hash x) (word_of_nat (Suc (length vs))) (hash_of_id hash (vs @ x # xs @ v # ys))) = indexed hash (vs @ [x])"
    using insert_indexed [OF laws Cons.prems(1), of x "xs @ v # ys"] Cons.prems by simp
  show ?case
    using Cons.IH [OF e] Cons.prems f i by (simp del: of_nat_Suc)
qed

lemma from_values_ok:
  assumes laws: "hash_table_laws ht entries" and "distinct vs" "length vs < 2 ^ 32"
  shows "\<exists>m. from_values ht hash vs = Inr m \<and> bm_values m = vs \<and> bimap_ok entries hash m"
proof -
  have "entries (ht_new ht) = indexed hash []" using laws by (simp add: hash_table_laws_def)
  from build_index_from_ok [OF laws this, of vs] show ?thesis
    using assms(2,3) by (auto simp: from_values_def build_index_def bimap_ok_def)
qed

lemma intern_full_cases:
  assumes laws: "hash_table_laws ht entries" and m: "bimap_ok entries hash m"
  shows "v \<in> set (bm_values m) \<Longrightarrow> \<exists>n<length (bm_values m). bm_values m ! n = v \<and>
      intern_full ht hash v m = Inr ((word_of_nat (Suc n), False), m)"
    "v \<notin> set (bm_values m) \<Longrightarrow> length (bm_values m) < 2 ^ 32 - 1 \<Longrightarrow> \<exists>m'.
      intern_full ht hash v m = Inr ((word_of_nat (Suc (length (bm_values m))), True), m') \<and>
      bm_values m' = bm_values m @ [v] \<and> bimap_ok entries hash m'"
    "v \<notin> set (bm_values m) \<Longrightarrow> \<not> length (bm_values m) < 2 ^ 32 - 1 \<Longrightarrow> intern_full ht hash v m = Inl IdOverflow"
proof -
  have ok: "distinct (bm_values m)" "length (bm_values m @ []) < 2 ^ 32" "entries (bm_index m) = indexed hash (bm_values m)"
    using m by (simp_all add: bimap_ok_def)
  show "\<exists>n<length (bm_values m). bm_values m ! n = v \<and> intern_full ht hash v m = Inr ((word_of_nat (Suc n), False), m)"
    if v: "v \<in> set (bm_values m)"
  proof -
    obtain n where n: "n < length (bm_values m)" "bm_values m ! n = v" using v by (auto simp: in_set_conv_nth)
    then show ?thesis
      using find_present [OF laws ok(3,1,2) n(1)] by (auto simp: intern_full_def find_id_def Let_def simp del: of_nat_Suc)
  qed
  assume v: "v \<notin> set (bm_values m)"
  then have f: "find_id ht m (hash v) v = None" using find_absent [OF laws ok(3,2) v] by (simp add: find_id_def)
  show "\<exists>m'. intern_full ht hash v m = Inr ((word_of_nat (Suc (length (bm_values m))), True), m') \<and>
      bm_values m' = bm_values m @ [v] \<and> bimap_ok entries hash m'" if n: "length (bm_values m) < 2 ^ 32 - 1"
  proof -
    have "length (bm_values m @ v # []) < 2 ^ 32" using n by simp
    from insert_indexed [OF laws ok(3) this] show ?thesis
      using n v f ok id_for_zero_based_ok [OF n] by (simp add: intern_full_def Let_def bimap_ok_def del: of_nat_Suc indexed_snoc)
  qed
  show "intern_full ht hash v m = Inl IdOverflow" if n: "\<not> length (bm_values m) < 2 ^ 32 - 1"
  proof -
    have l: "length (bm_values m) = 2 ^ 32 - 1" using n ok(2) by simp
    have "id_for_zero_based (2 ^ 32 - 1) = Inl IdOverflow" by (simp add: id_for_zero_based_def)
    then show ?thesis using f l by (simp add: intern_full_def Let_def)
  qed
qed

text \<open>Interning a sequence of values, one call after the other.\<close>

fun intern_all ::
  "'t hash_table \<Rightarrow> ('v \<Rightarrow> u64) \<Rightarrow> 'v list \<Rightarrow> ('v, 't) bimap \<Rightarrow> (bimap_fault, u32 list \<times> ('v, 't) bimap) result" where
  "intern_all ht hash [] m = Inr ([], m)"
| "intern_all ht hash (v # vs) m =
     rbind (intern ht hash v m) (\<lambda>(i, m). rbind (intern_all ht hash vs m) (\<lambda>(is, m). Inr (i # is, m)))"

lemma intern_step:
  assumes "hash_table_laws ht entries" "bimap_ok entries hash m" "length (bm_values m) < 2 ^ 32 - 1"
  shows "\<exists>i m'. intern ht hash v m = Inr (i, m') \<and> bimap_ok entries hash m' \<and> bm_get m' i = Inr v
    \<and> prefix (bm_values m) (bm_values m') \<and> length (bm_values m') \<le> Suc (length (bm_values m))"
proof (cases "v \<in> set (bm_values m)")
  case True
  then obtain n where "n < length (bm_values m)" "bm_values m ! n = v"
      "intern_full ht hash v m = Inr ((word_of_nat (Suc n), False), m)"
    using intern_full_cases(1) [OF assms(1,2)] by blast
  then show ?thesis using assms(2,3) by (simp add: intern_def bm_get_def del: of_nat_Suc)
next
  case False
  from intern_full_cases(2) [OF assms(1,2) False assms(3)] obtain m' where
    m': "intern_full ht hash v m = Inr ((word_of_nat (Suc (length (bm_values m))), True), m')"
      "bm_values m' = bm_values m @ [v]" "bimap_ok entries hash m'" by blast
  moreover have "id_value (bm_values m @ [v]) (word_of_nat (Suc (length (bm_values m)))) = Some v"
    using id_value_of [of "length (bm_values m)" "bm_values m @ [v]"] assms(3) by (simp del: of_nat_Suc)
  ultimately show ?thesis by (simp add: intern_def bm_get_def del: of_nat_Suc)
qed

lemma bm_get_prefix: "bm_get m i = Inr v \<Longrightarrow> prefix (bm_values m) (bm_values m') \<Longrightarrow> bm_get m' i = Inr v"
  by (auto simp: bm_get_def ok_or_def prefix_def id_value_prefix split: option.splits)

lemma bm_get_inj: "bimap_ok entries hash m \<Longrightarrow> bm_get m i = Inr v \<Longrightarrow> bm_get m j = Inr v \<Longrightarrow> i = j"
  by (auto simp: bm_get_def ok_or_def bimap_ok_def nth_eq_iff_index_eq split: option.splits dest!: id_valueD simp del: of_nat_Suc)

lemma intern_all_reads:
  assumes "hash_table_laws ht entries"
  shows "bimap_ok entries hash m \<Longrightarrow> length (bm_values m) + length vs < 2 ^ 32 \<Longrightarrow>
    \<exists>is m'. intern_all ht hash vs m = Inr (is, m') \<and> bimap_ok entries hash m' \<and> prefix (bm_values m) (bm_values m')
      \<and> list_all2 (\<lambda>i v. bm_get m' i = Inr v) is vs"
proof (induction vs arbitrary: m)
  case (Cons v vs)
  obtain i m1 where 1: "intern ht hash v m = Inr (i, m1)" "bimap_ok entries hash m1" "bm_get m1 i = Inr v"
      "prefix (bm_values m) (bm_values m1)" "length (bm_values m1) \<le> Suc (length (bm_values m))"
    using intern_step [OF assms Cons.prems(1)] Cons.prems(2) by fastforce
  have "length (bm_values m1) + length vs < 2 ^ 32" using 1(5) Cons.prems(2) by simp
  from Cons.IH [OF 1(2) this] obtain "is" m' where 2: "intern_all ht hash vs m1 = Inr (is, m')" "bimap_ok entries hash m'"
      "prefix (bm_values m1) (bm_values m')" "list_all2 (\<lambda>i v. bm_get m' i = Inr v) is vs" by blast
  then show ?case
    using 1 bm_get_prefix [OF 1(3) 2(3)] prefix_order.trans [OF 1(4) 2(3)] by auto
qed simp

section \<open>What the interner promises\<close>

text \<open>
  C6. Two values get the same index exactly when they are equal, whatever the hash function does. As long as there is
  room for $2^{32} - 1$ values, interning a sequence ends, every index read back is the value it was given
  for, and the indices handed out before still read what they read.
\<close>

theorem interning_is_hash_consing:
  assumes "hash_table_laws ht entries" "bimap_ok entries hash m" "length (bm_values m) + length vs < 2 ^ 32"
  shows "\<exists>is m'. intern_all ht hash vs m = Inr (is, m') \<and> bimap_ok entries hash m' \<and> length is = length vs
    \<and> (\<forall>a<length vs. bm_get m' (is ! a) = Inr (vs ! a))
    \<and> (\<forall>a<length vs. \<forall>b<length vs. is ! a = is ! b \<longleftrightarrow> vs ! a = vs ! b)
    \<and> (\<forall>i v. bm_get m i = Inr v \<longrightarrow> bm_get m' i = Inr v)"
proof -
  obtain "is" m' where 1: "intern_all ht hash vs m = Inr (is, m')" "bimap_ok entries hash m'"
      "prefix (bm_values m) (bm_values m')" "list_all2 (\<lambda>i v. bm_get m' i = Inr v) is vs"
    using intern_all_reads [OF assms] by blast
  then have l: "length is = length vs" and get: "bm_get m' (is ! a) = Inr (vs ! a)" if "a < length vs" for a
    using that by (auto simp: list_all2_conv_all_nth)
  have len: "length is = length vs" using 1(4) by (rule list_all2_lengthD)
  have same: "is ! a = is ! b \<longleftrightarrow> vs ! a = vs ! b" if "a < length vs" "b < length vs" for a b
    using get [OF that(1)] get [OF that(2)] bm_get_inj [OF 1(2)] by (metis sum.inject(2))
  have old: "bm_get m' i = Inr v" if "bm_get m i = Inr v" for i v
    using that 1(3) by (rule bm_get_prefix)
  show ?thesis by (rule exI [of _ "is"], rule exI [of _ m'], intro conjI 1 len allI impI get same old)
qed

text \<open>A table of the crate's kind: a list of entries that is searched front to back.\<close>

definition list_table :: "(u64 \<times> u32) list hash_table" where
  "list_table = \<lparr>ht_new = [], ht_len = length,
     ht_find = (\<lambda>t h p. map_option snd (List.find (\<lambda>(h', i). h' = h \<and> p i) t)),
     ht_insert_unique = (\<lambda>t h i _. (h, i) # t), ht_clear = (\<lambda>_. [])\<rparr>"

lemma list_table_laws: "hash_table_laws list_table mset"
  unfolding hash_table_laws_def list_table_def
  by (auto simp: find_Some_iff find_None_iff) (metis nth_mem)

theorem interning_is_hash_consing_witness:
  "\<exists>is m'. intern_all list_table (\<lambda>_. 0) [7 :: int, 9, 7] (bm_default list_table) = Inr (is, m')
    \<and> bm_get m' (is ! 0) = Inr 7 \<and> is ! 0 = is ! 2 \<and> is ! 0 \<noteq> is ! 1"
proof -
  have "bimap_ok mset (\<lambda>_ :: int. 0) (bm_default list_table)" by (simp add: bimap_ok_def bm_default_def list_table_def)
  from interning_is_hash_consing [OF list_table_laws this, of "[7, 9, 7]"] show ?thesis
    by (fastforce simp: bm_default_def)
qed

text \<open>
  C26. \<^verbatim>\<open>from_values\<close> accepts exactly the sequences without duplicates, and the interner it builds holds
  them under their positions; otherwise it names the first value that occurs for the second time and where it
  occurred before. Deserialization restores an interner from what serialization wrote and turns the
  rejection of a duplicate into the deserializer's error with the two indices in its text; no sequence of fewer than
  $2^{32}$ values makes it panic.
\<close>

theorem from_values_exact:
  assumes "hash_table_laws ht entries" "length vs < 2 ^ 32"
  shows "(distinct vs \<longrightarrow> (\<exists>m. from_values ht hash vs = Inr m \<and> bm_serialize m = vs \<and> bimap_ok entries hash m
        \<and> (\<forall>n<length vs. get_id ht hash m (vs ! n) = Some (word_of_nat (Suc n)))
        \<and> (\<forall>v. v \<notin> set vs \<longrightarrow> get_id ht hash m v = None)
        \<and> bm_validate ht hash m = Inr ()
        \<and> bm_deserialize custom ht hash (Inr (bm_serialize m)) = Inr m))
    \<and> (\<forall>xs v ys n. vs = xs @ v # ys \<longrightarrow> distinct xs \<longrightarrow> n < length xs \<longrightarrow> xs ! n = v \<longrightarrow>
        from_values ht hash vs = Inl (Rejected (DuplicateValue (word_of_nat (Suc n)) (word_of_nat (Suc (length xs)))))
        \<and> bm_deserialize custom ht hash (Inr vs) = Inl (DeError (custom
            (''duplicate serialized/interned value at ids '' @ show_nat (Suc n) @ '' and '' @ show_nat (Suc (length xs))))))"
proof (intro conjI impI allI)
  assume d: "distinct vs"
  then obtain m where m: "from_values ht hash vs = Inr m" "bm_values m = vs" "bimap_ok entries hash m"
    using from_values_ok [OF assms(1) _ assms(2)] by blast
  have e: "entries (bm_index m) = indexed hash vs" using m(2,3) by (simp add: bimap_ok_def)
  have present: "find_id ht m (hash (vs ! n)) (vs ! n) = Some (word_of_nat (Suc n))" if "n < length vs" for n
    using find_present [OF assms(1) e d, of "[]"] assms(2) that m(2) by (simp add: find_id_def del: of_nat_Suc)
  have absent: "find_id ht m (hash v) v = None" if "v \<notin> set vs" for v
    using find_absent [OF assms(1) e, of "[]"] assms(2) that m(2) by (simp add: find_id_def)
  have ids: "bm_ids m = Inr (map (\<lambda>n. word_of_nat (Suc n)) [0..<length vs])"
  proof -
    have "id_for_zero_based n = Inr (word_of_nat (Suc n))" if "n \<in> set [0..<length vs]" for n
      using that assms(2) by (intro id_for_zero_based_ok) auto
    then show ?thesis unfolding bm_ids_def m(2) by (rule rmap_ok)
  qed
  have "list_all (\<lambda>(i, v). find_id ht m (hash v) v = Some i) (zip (map (\<lambda>n. word_of_nat (Suc n)) [0..<length vs]) vs)"
    using present by (auto simp: list_all_length simp del: of_nat_Suc)
  moreover have "ht_len ht (bm_index m) = length vs" using assms(1) e by (simp add: hash_table_laws_def)
  moreover have "\<exists>t. build_index ht hash vs = Inr t"
    using m(1) by (auto simp: from_values_def rbind_eq_Inr)
  ultimately have "bm_validate ht hash m = Inr ()"
    using ids m(2) by (auto simp: bm_validate_def bm_iter_def)
  then show "\<exists>m. from_values ht hash vs = Inr m \<and> bm_serialize m = vs \<and> bimap_ok entries hash m
        \<and> (\<forall>n<length vs. get_id ht hash m (vs ! n) = Some (word_of_nat (Suc n)))
        \<and> (\<forall>v. v \<notin> set vs \<longrightarrow> get_id ht hash m v = None) \<and> bm_validate ht hash m = Inr ()
        \<and> bm_deserialize custom ht hash (Inr (bm_serialize m)) = Inr m"
    using m present absent by (auto simp: bm_serialize_def get_id_def bm_deserialize_def)
next
  fix xs v ys n
  assume vs: "vs = xs @ v # ys" and d: "distinct xs" "n < length xs" "xs ! n = v"
  have "entries (ht_new ht) = indexed hash []" using assms(1) by (simp add: hash_table_laws_def)
  from build_index_from_duplicate [OF assms(1) this, of xs v ys n]
  show f: "from_values ht hash vs = Inl (Rejected (DuplicateValue (word_of_nat (Suc n)) (word_of_nat (Suc (length xs)))))"
    using assms(2) vs d by (simp add: from_values_def build_index_def del: of_nat_Suc)
  have "unat (word_of_nat (Suc n) :: u32) = Suc n" "unat (word_of_nat (Suc (length xs)) :: u32) = Suc (length xs)"
    using assms(2) vs d(2) by (simp_all add: unat_of_nat take_bit_nat_eq_self del: of_nat_Suc)
  then show "bm_deserialize custom ht hash (Inr vs) = Inl (DeError (custom
      (''duplicate serialized/interned value at ids '' @ show_nat (Suc n) @ '' and '' @ show_nat (Suc (length xs)))))"
    by (simp add: bm_deserialize_def f bimap_error_text_def del: of_nat_Suc)
qed

theorem from_values_exact_witness:
  "from_values list_table (\<lambda>_. 0) [7 :: int, 9, 7, 9] = Inl (Rejected (DuplicateValue 1 3))
   \<and> bm_deserialize (\<lambda>text. text) list_table (\<lambda>_. 0) (Inr [7 :: int, 9, 7, 9])
     = Inl (DeError (''duplicate serialized/interned value at ids '' @ show_nat 1 @ '' and '' @ show_nat 3))"
proof -
  have "length [7 :: int, 9, 7, 9] < 2 ^ 32" by simp
  from from_values_exact [OF list_table_laws this, of "\<lambda>_. 0" "\<lambda>text. text",
      THEN conjunct2, rule_format, of "[7, 9]" 7 "[9]" 0]
  show ?thesis by (simp add: numeral_3_eq_3)
qed

end
