(* ===== verification/Spec2Isabelle.thy ===== *)
theory Spec2Isabelle
  imports TableStream RootOpt OptNode Regions CodeExec TableSpecs Exported Interner
begin

text \<open>
  A verification library for \<^verbatim>\<open>cilly\<close>, the back half of the \<^verbatim>\<open>rustc_codegen_clr\<close> compiler.

  The program. \<^verbatim>\<open>rustc_codegen_clr\<close> translates Rust to .NET assemblies. A front end in \<^verbatim>\<open>src/\<close>
  lowers MIR to an interned tree IR; the crate \<^verbatim>\<open>cilly\<close> type checks, optimizes, links and exports
  it. An \<^verbatim>\<open>Assembly\<close> owns the interned strings, types, nodes, roots, classes and methods; a method
  body is a list of basic blocks, a block a list of roots (statements), a root holds nodes
  (expressions). The optimizer rewrites bodies under a budget of fuel and consults an effect
  analysis; the exporter writes the metadata tables, heaps and signatures of an ECMA-335 file.

  The theories, from the bottom up:

  \<^item> \<open>Prelude\<close>: machine words, results (\<open>Inl\<close> is a panic or an error), lists, decimal rendering.
  \<^item> \<open>Heaps\<close>: \<^verbatim>\<open>pe_exporter/heaps.rs\<close>, the four heaps and compressed integers, against the readers of
    the standard; the locale \<open>interning_heap\<close> states what the builder relies on and is interpreted
    for the string, blob and user-string heaps.
  \<^item> \<open>CilTypes\<close>: \<^verbatim>\<open>tpe/\<close>, \<^verbatim>\<open>fnsig.rs\<close> and the layout part of \<^verbatim>\<open>class.rs\<close>: integers, floats, vectors,
    types, mangling, managed references, assignability.
  \<^item> \<open>SigBlob\<close>: \<^verbatim>\<open>pe_exporter/sig.rs\<close>, the signature encoder over an arbitrary resolver of class
    references (locale \<open>type_resolver\<close>), with a decoder as reference.
  \<^item> \<open>MetaTables\<close>: \<^verbatim>\<open>pe_exporter/tables.rs\<close>, tokens, coded indices, reference rows and their caches;
    it interprets \<open>type_resolver\<close> on the builder, which gives the round trips of whole signatures.
  \<^item> \<open>TableOps\<close>, \<open>TableRefs\<close>, \<open>TableSpecs\<close>: the builder's operations that add rows. \<open>TableOps\<close> keeps the shape
    of rows and heaps; \<open>TableRefs\<close> shows that every operation yields referential integrity (locale
    \<open>resolver_invariant\<close>, interpreted for the builder); \<open>TableSpecs\<close> compares the runs of owned rows and the
    custom attribute values with the standard's reading of them.
  \<^item> \<open>TokenSink\<close>: the tokens a body asks of the builder (locale \<open>sink_contract\<close>, interpreted for the
    builder) and the signature of its locals.
  \<^item> \<open>TableStream\<close>: the rest of \<^verbatim>\<open>tables.rs\<close> from \<^verbatim>\<open>serialize\<close> on: row counts, widths, the 27 tables, the
    metadata root, with a reader written from the standard.
  \<^item> \<open>Exported\<close>: the builders reachable by these operations (\<open>built\<close>), whose serialized stream is sound.
  \<^item> \<open>Interner\<close>: \<^verbatim>\<open>bimap.rs\<close>, the interning tables, their collisions and their deserialization.
  \<^item> \<open>CilIr\<close>: \<^verbatim>\<open>cst.rs\<close>, \<^verbatim>\<open>cilnode.rs\<close>, \<^verbatim>\<open>cilroot.rs\<close>, \<^verbatim>\<open>iter.rs\<close>, \<^verbatim>\<open>field.rs\<close>: the trees and their
    traversals.
  \<^item> \<open>TypeCheck\<close>: \<^verbatim>\<open>typecheck.rs\<close>, every arm with the error it returns.
  \<^item> \<open>OptFuel\<close>, \<open>Effects\<close>, \<open>Methods\<close>: \<^verbatim>\<open>opt/opt_fuel.rs\<close>, \<^verbatim>\<open>opt/side_effect.rs\<close>, and the blocks and
    bodies of \<^verbatim>\<open>basic_block.rs\<close> and \<^verbatim>\<open>method.rs\<close>.
  \<^item> \<open>RootOpt\<close>, \<open>OptNode\<close>: the peephole passes \<^verbatim>\<open>opt/root.rs\<close> and \<^verbatim>\<open>opt/opt_node.rs\<close>.
  \<^item> \<open>Propagate\<close>, \<open>DeadWrites\<close>: the forward substitution of \<^verbatim>\<open>opt/mod.rs\<close> and its passes that delete
    statements.
  \<^item> \<open>BodyEmit\<close>: \<^verbatim>\<open>pe_exporter/body.rs\<close>, the emission of method bodies: instructions, labels and branch
    operands, exception clauses, header and stack size; its locales \<open>output_relation\<close>, \<open>sink_relation\<close> and \<open>code_relation\<close>
    carry a relation between emitter states over whole bodies.
  \<^item> \<open>CodeExec\<close>: the emitted bytes decoded by the standard's opcode table and executed on a stack.
  \<^item> \<open>ControlFlow\<close>, \<open>Regions\<close>: the rest of \<^verbatim>\<open>basic_block.rs\<close> and \<^verbatim>\<open>method.rs\<close>: constant branches,
    canonical blocks, dead blocks; the verifier of exception regions and their materialization.

  The representation. An interned index is modelled by the value it stands for, so equality of
  indices is equality of values; \<open>Interner\<close> models the tables themselves and shows that this is what
  they give (equal indices exactly for equal values, whatever the hash function). The tables the code reads by
  key (class definitions, method definitions) are maps. A hash map or hash set is a map; where the
  code iterates over one, the theorems quantify over the order. Machine integers are words; sizes of vectors
  are natural numbers. A panic (\<^verbatim>\<open>unwrap\<close>, \<^verbatim>\<open>todo!\<close>, an index out of range, a failed assertion) is an
  \<open>Inl\<close>. The memo table of the effect analysis is modelled in \<open>Effects\<close>, shown coherent, and replaced
  by the function it memoises in the passes that use it.

  What the lemmas show. \<open>Heaps\<close>, \<open>SigBlob\<close>, \<open>MetaTables\<close>: what is written is read back, later writes
  do not disturb earlier ones, indices are stable, and the exact inputs that panic. \<open>CilTypes\<close> and
  \<open>TypeCheck\<close>: soundness and exact acceptance conditions. \<open>RootOpt\<close> and \<open>OptNode\<close>: the rewritten
  branch or integer tree evaluates to what the original evaluates to, over reference evaluators,
  and keeps its type. \<open>Propagate\<close>: a block is executed by an abstract machine whose laws are the
  named hypothesis \<open>machine\<close>: what a location of each type reads back of a value stored to it is written out in \<open>slot_conv\<close>
  (narrow integers are truncated and extended, the others are read back when they fit the location),
  independently of the casts the pass inserts; the pass preserves execution from every state whose stores fit. \<open>DeadWrites\<close>: the blocks before and after
  are related by a simulation that forgets the dead locals (\<open>hides\<close>). A small machine on integers
  satisfies the laws of both. \<open>BodyEmit\<close>: emitted constants are loaded back, an invariant of the emitter (\<open>keeps\<close>) places every label inside the code, so
  that patched branches reach their labels, and a reader of the format gives the body back. The locale
  \<open>code_relation\<close> proves once that a relation between emitter states carries over to whole bodies; it is interpreted
  for \<open>keeps\<close> and, in \<open>Regions\<close>, for the labels a piece of code uses and defines. \<open>CodeExec\<close>: the bytes
  emitted for an arithmetic tree, decoded and run on a stack machine, compute what integer arithmetic gives for the tree.
  \<open>ControlFlow\<close>: the worklist
  computes reachability and removing what it does not reach leaves every execution as it was. \<open>Regions\<close>: a verified
  body is materialized without a panic and its labels are complete.

  Bounds. \<open>contains_gcref_impl\<close> stops at depth 64 as the code does. \<open>resolve_impl\<close> follows a chain of
  aliases that may be cyclic; not returning is its value \<open>None\<close>. The runs of \<open>run_body\<close> take a number of blocks and
  are compared for every number. All other recursions are structural or
  carry a measure.

  Not modelled: the front end (its types live in \<^verbatim>\<open>rustc_private\<close> crates outside the repository),
  the linking of assemblies, the builders of runtime helpers, the executable container, scalar replacement, hoisting and counted loops, and everything
  outside \<^verbatim>\<open>cilly\<close> (bindings, macros, tools, overlays, tests).
\<close>

end
